(* ===== verification/Access.thy ===== *)
theory Access
  imports Prelude
begin

text \<open>
  Who may write: the permission catalogue and role templates of
  \<open>identity/permissions.ts\<close>, the membership join of \<open>identity/authorization.ts\<close>,
  the validation of a tenant transaction's context (\<open>db/transaction.ts\<close>) and the
  write gates of \<open>workspace/write-policy.ts\<close>.  The tables the queries read are
  lists of row records and the deployment's environment flags are a record.
\<close>

section \<open>Permissions and roles\<close>

datatype permission =
     DraftJournal | SubmitJournal | ApproveJournal | PostJournal | PostAdjustment |
     ReverseJournal | AdministerJournal | ManagePostingPolicy | ManageSegments |
     CreatePeriod | ClosePeriod | ReopenPeriod | SealPeriod | ManageRoles |
     ReadOrganizationSettings | ManageOrganizationSettings | ReadOrganizationMembers |
     ManageOrganizationMembers | ReadMcpLedger | CreateMcpDraft | ManageRecovery |
     ReadParties | ManageParties | ReadReceivables | ManageReceivables | PostReceivables |
     SettleReceivables | VoidReceivables | ReadPayables | ManagePayables | PostPayables |
     SettlePayables | VoidPayables | ReadTax | ManageTaxMappings | PrepareTaxFilings |
     OverrideTaxDeterminations | ManageTaxFilingConfiguration | ManageTaxFilingCanonical |
     ReadBanking | ManageBankConnections | SyncBanking | PrepareBankReconciliation |
     ReviewBankReconciliation | ManageBankRules

fun permission_key :: "permission \<Rightarrow> string" where
  "permission_key DraftJournal = ''ledger.journal.draft''"
| "permission_key SubmitJournal = ''ledger.journal.submit''"
| "permission_key ApproveJournal = ''ledger.journal.approve''"
| "permission_key PostJournal = ''ledger.journal.post''"
| "permission_key PostAdjustment = ''ledger.journal.post_adjustment''"
| "permission_key ReverseJournal = ''ledger.journal.reverse''"
| "permission_key AdministerJournal = ''ledger.journal.administer''"
| "permission_key ManagePostingPolicy = ''ledger.posting_policy.manage''"
| "permission_key ManageSegments = ''ledger.segments.manage''"
| "permission_key CreatePeriod = ''ledger.period.create''"
| "permission_key ClosePeriod = ''ledger.period.close''"
| "permission_key ReopenPeriod = ''ledger.period.reopen''"
| "permission_key SealPeriod = ''ledger.period.seal''"
| "permission_key ManageRoles = ''organization.roles.manage''"
| "permission_key ReadOrganizationSettings = ''organization.settings.read''"
| "permission_key ManageOrganizationSettings = ''organization.settings.manage''"
| "permission_key ReadOrganizationMembers = ''organization.members.read''"
| "permission_key ManageOrganizationMembers = ''organization.members.manage''"
| "permission_key ReadMcpLedger = ''mcp.ledger.read''"
| "permission_key CreateMcpDraft = ''mcp.journal-draft.create''"
| "permission_key ManageRecovery = ''organization.recovery.manage''"
| "permission_key ReadParties = ''parties.read''"
| "permission_key ManageParties = ''parties.manage''"
| "permission_key ReadReceivables = ''receivables.read''"
| "permission_key ManageReceivables = ''receivables.manage''"
| "permission_key PostReceivables = ''receivables.post''"
| "permission_key SettleReceivables = ''receivables.settle''"
| "permission_key VoidReceivables = ''receivables.void''"
| "permission_key ReadPayables = ''payables.read''"
| "permission_key ManagePayables = ''payables.manage''"
| "permission_key PostPayables = ''payables.post''"
| "permission_key SettlePayables = ''payables.settle''"
| "permission_key VoidPayables = ''payables.void''"
| "permission_key ReadTax = ''tax.read''"
| "permission_key ManageTaxMappings = ''tax.mappings.manage''"
| "permission_key PrepareTaxFilings = ''tax.filings.prepare''"
| "permission_key OverrideTaxDeterminations = ''tax.determinations.override''"
| "permission_key ManageTaxFilingConfiguration = ''tax.filing.configuration.manage''"
| "permission_key ManageTaxFilingCanonical = ''tax.filing.canonical.manage''"
| "permission_key ReadBanking = ''banking.read''"
| "permission_key ManageBankConnections = ''banking.connections.manage''"
| "permission_key SyncBanking = ''banking.sync''"
| "permission_key PrepareBankReconciliation = ''banking.reconcile.prepare''"
| "permission_key ReviewBankReconciliation = ''banking.reconcile.review''"
| "permission_key ManageBankRules = ''banking.rules.manage''"

definition all_permissions :: "permission list" where
  "all_permissions = [
     DraftJournal, SubmitJournal, ApproveJournal, PostJournal, PostAdjustment,
     ReverseJournal, AdministerJournal, ManagePostingPolicy, ManageSegments, CreatePeriod,
     ClosePeriod, ReopenPeriod, SealPeriod, ManageRoles, ReadOrganizationSettings,
     ManageOrganizationSettings, ReadOrganizationMembers, ManageOrganizationMembers,
     ReadMcpLedger, CreateMcpDraft, ManageRecovery, ReadParties, ManageParties,
     ReadReceivables, ManageReceivables, PostReceivables, SettleReceivables,
     VoidReceivables, ReadPayables, ManagePayables, PostPayables, SettlePayables,
     VoidPayables, ReadTax, ManageTaxMappings, PrepareTaxFilings,
     OverrideTaxDeterminations, ManageTaxFilingConfiguration, ManageTaxFilingCanonical,
     ReadBanking, ManageBankConnections, SyncBanking, PrepareBankReconciliation,
     ReviewBankReconciliation, ManageBankRules]"

definition role_templates :: "(string \<times> permission list) list" where
  "role_templates = [
     (''OWNER'', all_permissions),
     (''ORGANIZATION_ADMIN'', [
     AdministerJournal, ReadOrganizationSettings, ManageOrganizationSettings,
     ReadOrganizationMembers, ManageOrganizationMembers, ManageRoles, ReadBanking,
     ManageBankConnections]),
     (''ACCOUNTANT_APPROVER'', [
     ReadOrganizationSettings, ReadMcpLedger, DraftJournal, SubmitJournal, ApproveJournal,
     PostJournal, PostAdjustment, ReverseJournal, ManagePostingPolicy, CreatePeriod,
     ClosePeriod, ReopenPeriod, ReadParties, ManageParties, ReadReceivables,
     ManageReceivables, PostReceivables, SettleReceivables, VoidReceivables, ReadPayables,
     ManagePayables, PostPayables, SettlePayables, VoidPayables, ReadTax,
     ManageTaxMappings, PrepareTaxFilings, ReadBanking, SyncBanking,
     ReviewBankReconciliation, ManageBankRules]),
     (''BOOKKEEPER_MAKER'', [
     ReadOrganizationSettings, ReadMcpLedger, DraftJournal, SubmitJournal, ReadParties,
     ManageParties, ReadReceivables, ManageReceivables, ReadPayables, ManagePayables,
     ReadTax, ManageTaxMappings, PrepareTaxFilings, ReadBanking, SyncBanking,
     PrepareBankReconciliation]),
     (''VIEWER_AUDITOR'', [
     ReadOrganizationSettings, ReadMcpLedger, ReadParties, ReadReceivables, ReadPayables,
     ReadTax, ReadBanking]),
     (''INTEGRATION_MCP'', [
     ReadOrganizationSettings, ReadMcpLedger, CreateMcpDraft])]"

definition permissions_for_roles :: "string list \<Rightarrow> permission set" where
  "permissions_for_roles role_keys =
     set (concat (map (\<lambda>k. or_else (map_of role_templates k) []) role_keys))"

section \<open>Membership tables\<close>

record organization_row =
  org_id :: string
  org_active :: bool
  org_is_demo :: bool
  org_mode :: string
  org_writes_enabled_at :: "string option"

record membership_row =
  mem_id :: string
  mem_organization :: string
  mem_user :: string
  mem_active :: bool

record membership_role_row =
  mr_organization :: string
  mr_membership :: string
  mr_role :: string

record role_row =
  role_id :: string
  role_organization :: string
  role_key :: string
  role_active :: bool

record role_permission_row =
  rp_organization :: string
  rp_role :: string
  rp_key :: string

record access_tables =
  organizations :: "organization_row list"
  memberships :: "membership_row list"
  membership_roles :: "membership_role_row list"
  roles :: "role_row list"
  role_permissions :: "role_permission_row list"

datatype access_error =
    AuthorizationDenied
  | OrganizationRoleRequired
  | DemoWritesNeedDemoSession
  | DemoAuthorizationInRealSession
  | BusinessWritesDisabled
  | OrganizationInactive
  | OrganizationModeMismatch
  | OrganizationWritesNotEnabled
  | InvalidTransactionContext
  | DemoSessionLeaseLost

text \<open>The active roles of a user in an organization: the joins both lookups share.\<close>

definition active_roles :: "access_tables \<Rightarrow> string \<Rightarrow> string \<Rightarrow> role_row list" where
  "active_roles T org actor =
     [r. m \<leftarrow> memberships T, mem_organization m = org \<and> mem_user m = actor \<and> mem_active m,
         g \<leftarrow> organizations T, org_id g = mem_organization m \<and> org_active g,
         j \<leftarrow> membership_roles T, mr_organization j = mem_organization m \<and> mr_membership j = mem_id m,
         r \<leftarrow> roles T, role_organization r = mr_organization j \<and> role_id r = mr_role j \<and> role_active r]"

definition actor_has_active_permission :: "access_tables \<Rightarrow> string \<Rightarrow> string \<Rightarrow> permission \<Rightarrow> bool" where
  "actor_has_active_permission T org actor p \<longleftrightarrow>
     list_ex (\<lambda>r. list_ex (\<lambda>g. rp_organization g = role_organization r \<and> rp_role g = role_id r
                 \<and> rp_key g = permission_key p) (role_permissions T))
       (active_roles T org actor)"

definition assert_actor_has_active_permission ::
  "access_tables \<Rightarrow> string \<Rightarrow> string \<Rightarrow> permission \<Rightarrow> access_error + unit" where
  "assert_actor_has_active_permission T org actor p =
     throw_if (\<not> actor_has_active_permission T org actor p) AuthorizationDenied"

definition actor_has_active_organization_role ::
  "access_tables \<Rightarrow> string \<Rightarrow> string \<Rightarrow> string list \<Rightarrow> bool" where
  "actor_has_active_organization_role T org actor keys \<longleftrightarrow>
     keys \<noteq> [] \<and> list_ex (\<lambda>r. role_key r \<in> set keys) (active_roles T org actor)"

definition assert_actor_has_active_organization_role ::
  "access_tables \<Rightarrow> string \<Rightarrow> string \<Rightarrow> string list \<Rightarrow> access_error + unit" where
  "assert_actor_has_active_organization_role T org actor keys =
     throw_if (\<not> actor_has_active_organization_role T org actor keys) OrganizationRoleRequired"

section \<open>Transaction contexts and write gates\<close>

datatype session_mode = RealSession | DemoSession

datatype source_surface = SurfaceUI | SurfaceAPI | SurfaceImport | SurfaceWorker | SurfaceMCP

record tenant_context =
  ctx_organization :: string
  ctx_actor :: string
  ctx_session :: "string option"
  ctx_session_mode :: "session_mode option"
  ctx_request :: string
  ctx_auth_method :: string
  ctx_surface :: source_surface
  ctx_reason :: "string option"
  ctx_demo_authorized :: "bool option"
  ctx_mcp_connection :: "string option"

record environment =
  demo_writes_enabled :: bool
  business_writes_enabled :: bool

definition is_demo_transaction_auth_method :: "string \<Rightarrow> bool" where
  "is_demo_transaction_auth_method m \<longleftrightarrow> to_lower m \<in> {''demo-link'', ''demo-link+mfa''}"

text \<open>\<open>context.sessionMode ?? (isDemoTransactionAuthMethod(...) ? "demo" : "real")\<close>\<close>

definition session_mode_of :: "tenant_context \<Rightarrow> session_mode" where
  "session_mode_of c = or_else (ctx_session_mode c)
     (if is_demo_transaction_auth_method (ctx_auth_method c) then DemoSession else RealSession)"

text \<open>A check of an optional field (\<open>.optional()\<close>).\<close>

fun if_present :: "('a \<Rightarrow> bool) \<Rightarrow> 'a option \<Rightarrow> bool" where
  "if_present ok None = True"
| "if_present ok (Some x) = ok x"

text \<open>
  \<open>tenantContextSchema\<close>: the identifiers in the format of \<open>z.uuid\<close> (\<open>uuid\<close>), the
  trimmed text fields within their bounds, then the cross-field issues; the context is
  refused when any of them fails.
\<close>

definition validate_tenant_context ::
  "(string \<Rightarrow> bool) \<Rightarrow> tenant_context \<Rightarrow> access_error + tenant_context" where
  "validate_tenant_context uuid c =
     (if \<not> uuid (ctx_organization c) \<or> \<not> uuid (ctx_actor c) \<or> \<not> if_present uuid (ctx_session c)
         \<or> \<not> if_present uuid (ctx_mcp_connection c)
      then Inl InvalidTransactionContext
      else case (trimmed_text 1 200 (ctx_request c), trimmed_text 1 100 (ctx_auth_method c),
            map_option (trimmed_text 1 500) (ctx_reason c)) of
        (Some request, Some auth, reason) \<Rightarrow>
          if reason = Some None then Inl InvalidTransactionContext
          else
            let c' = c\<lparr>ctx_request := request, ctx_auth_method := auth,
                       ctx_reason := or_else reason None\<rparr>;
                mode = session_mode_of c';
                uses_demo = is_demo_transaction_auth_method auth;
                issues = [(mode = DemoSession) \<noteq> uses_demo,
                          mode = DemoSession \<and> \<not> truthy (ctx_session c'),
                          mode \<noteq> DemoSession \<and> ctx_demo_authorized c' = Some True]
            in if list_ex id issues then Inl InvalidTransactionContext
               else Inr (c'\<lparr>ctx_session_mode := Some mode\<rparr>)
      | _ \<Rightarrow> Inl InvalidTransactionContext)"

text \<open>
  What \<open>withTenantTransaction\<close> does before it runs the work: validation and, for a
  demo session, the lease assertion of the database.  The two things it uses from
  outside are the gate: the identifier format of the schema library (\<open>z.uuid\<close>) and
  the claims the database holds on demo sessions.  Commit and rollback are the result
  of the work: a failing run returns no new tables.
\<close>

record transaction_gate =
  tg_uuid :: "string \<Rightarrow> bool"
  tg_lease :: "tenant_context \<Rightarrow> bool"

definition begin_tenant_transaction ::
  "transaction_gate \<Rightarrow> tenant_context \<Rightarrow> access_error + tenant_context" where
  "begin_tenant_transaction gate untrusted =
     bindE (validate_tenant_context (tg_uuid gate) untrusted) (\<lambda>c.
     bindE (throw_if (ctx_session_mode c = Some DemoSession \<and> \<not> tg_lease gate c) DemoSessionLeaseLost) (\<lambda>_.
     Inr c))"

definition is_authorized_demo_write_context :: "environment \<Rightarrow> tenant_context \<Rightarrow> bool" where
  "is_authorized_demo_write_context e c \<longleftrightarrow>
     session_mode_of c = DemoSession \<and> ctx_demo_authorized c = Some True
     \<and> truthy (ctx_session c) \<and> is_demo_transaction_auth_method (ctx_auth_method c)
     \<and> demo_writes_enabled e"

definition assert_tenant_writes_enabled :: "environment \<Rightarrow> tenant_context \<Rightarrow> access_error + unit" where
  "assert_tenant_writes_enabled e c =
     (if session_mode_of c = DemoSession
      then throw_if (\<not> is_authorized_demo_write_context e c) DemoWritesNeedDemoSession
      else bindE (throw_if (ctx_demo_authorized c = Some True) DemoAuthorizationInRealSession) (\<lambda>_.
           throw_if (\<not> business_writes_enabled e) BusinessWritesDisabled))"

definition find_organization :: "access_tables \<Rightarrow> string \<Rightarrow> organization_row option" where
  "find_organization T org = List.find (\<lambda>g. org_id g = org) (organizations T)"

definition assert_writable_organization ::
  "environment \<Rightarrow> access_tables \<Rightarrow> tenant_context \<Rightarrow> access_error + bool" where
  "assert_writable_organization e T c =
     (case find_organization T (ctx_organization c) of
        None \<Rightarrow> Inl OrganizationInactive
      | Some g \<Rightarrow>
          bindE (throw_if (\<not> org_active g) OrganizationInactive) (\<lambda>_.
          let demo = is_authorized_demo_write_context e c
          in bindE (throw_if (org_is_demo g \<noteq> demo
                 \<or> (demo \<and> org_mode g \<noteq> ''PUBLIC_DEMO'')
                 \<or> (\<not> demo \<and> org_mode g \<noteq> ''REAL'')) OrganizationModeMismatch) (\<lambda>_.
             bindE (throw_if (\<not> demo \<and> org_writes_enabled_at g = None) OrganizationWritesNotEnabled) (\<lambda>_.
             Inr (org_is_demo g)))))"

record session_principal =
  pr_session :: string
  pr_user :: string
  pr_organization :: string
  pr_mode :: session_mode
  pr_oidc :: bool
  pr_step_up_expires_at :: "int option"
  pr_mcp_connection :: "string option"
  pr_organization_writes_enabled :: "bool option"

definition has_recent_step_up :: "session_principal \<Rightarrow> int \<Rightarrow> bool" where
  "has_recent_step_up p now = (case pr_step_up_expires_at p of None \<Rightarrow> False | Some t \<Rightarrow> t > now)"

definition transaction_auth_method :: "session_principal \<Rightarrow> int \<Rightarrow> string" where
  "transaction_auth_method p now =
     (if pr_mode p = DemoSession
      then (if has_recent_step_up p now then ''demo-link+mfa'' else ''demo-link'')
      else let primary = (if pr_oidc p then ''oidc'' else ''password'')
           in if has_recent_step_up p now then primary @ ''+mfa'' else primary)"

definition principal_can_write :: "environment \<Rightarrow> session_principal \<Rightarrow> bool" where
  "principal_can_write e p =
     (if pr_mode p = DemoSession then demo_writes_enabled e
      else business_writes_enabled e \<and> pr_organization_writes_enabled p = Some True)"

text \<open>\<open>mutationContext\<close>; \<open>now\<close> is the clock \<open>transactionAuthMethod\<close> reads.\<close>

definition mutation_context ::
  "session_principal \<Rightarrow> int \<Rightarrow> string \<Rightarrow> string option \<Rightarrow> source_surface option \<Rightarrow> tenant_context" where
  "mutation_context p now request reason surface =
     \<lparr>ctx_organization = pr_organization p, ctx_actor = pr_user p, ctx_session = Some (pr_session p),
      ctx_session_mode = Some (pr_mode p), ctx_request = request,
      ctx_auth_method = transaction_auth_method p now, ctx_surface = or_else surface SurfaceUI,
      ctx_reason = reason,
      ctx_demo_authorized = (if pr_mode p = DemoSession then Some True else None),
      ctx_mcp_connection = (if truthy (pr_mcp_connection p) then pr_mcp_connection p else None)\<rparr>"

section \<open>Lemmas\<close>

lemma session_mode_of_update [simp]:
  "session_mode_of (c\<lparr>ctx_session_mode := Some m\<rparr>) = m"
  by (simp add: session_mode_of_def)

lemma find_organization_Some:
  "find_organization T org = Some g \<Longrightarrow> g \<in> set (organizations T) \<and> org_id g = org"
  by (auto simp: find_organization_def find_Some_iff)

lemma assert_tenant_writes_Inr_iff [monad_simps]:
  "assert_tenant_writes_enabled e c = Inr u \<longleftrightarrow>
     (if session_mode_of c = DemoSession then is_authorized_demo_write_context e c
      else ctx_demo_authorized c \<noteq> Some True \<and> business_writes_enabled e)"
  by (auto simp: assert_tenant_writes_enabled_def monad_simps)

lemma assert_writable_organization_Inr_iff [monad_simps]:
  "assert_writable_organization e T c = Inr d \<longleftrightarrow>
     (\<exists>g. find_organization T (ctx_organization c) = Some g \<and> org_active g
        \<and> d = org_is_demo g \<and> org_is_demo g = is_authorized_demo_write_context e c
        \<and> (if org_is_demo g then org_mode g = ''PUBLIC_DEMO''
           else org_mode g = ''REAL'' \<and> org_writes_enabled_at g \<noteq> None))"
  by (auto simp: assert_writable_organization_def Let_def monad_simps split: option.splits)

lemma assert_permission_Inr_iff [monad_simps]:
  "assert_actor_has_active_permission T org actor p = Inr u
     \<longleftrightarrow> actor_has_active_permission T org actor p"
  by (simp add: assert_actor_has_active_permission_def monad_simps)

lemma permission_key_inject [simp]: "permission_key p = permission_key q \<longleftrightarrow> p = q"
  by (cases p; cases q) simp_all

lemma transaction_auth_method_demo:
  "is_demo_transaction_auth_method (transaction_auth_method p now) \<longleftrightarrow> pr_mode p = DemoSession"
proof -
  have "to_lower ''demo-link'' = ''demo-link''" "to_lower ''demo-link+mfa'' = ''demo-link+mfa''"
    "to_lower ''oidc'' = ''oidc''" "to_lower ''oidc+mfa'' = ''oidc+mfa''"
    "to_lower ''password'' = ''password''" "to_lower ''password+mfa'' = ''password+mfa''"
    by code_simp+
  then show ?thesis
    by (auto simp: transaction_auth_method_def is_demo_transaction_auth_method_def Let_def)
qed

lemma transaction_auth_method_trimmed:
  "trimmed_text 1 100 (transaction_auth_method p now) = Some (transaction_auth_method p now)"
proof -
  have "\<forall>m \<in> set [''demo-link'', ''demo-link+mfa'', ''oidc'', ''oidc+mfa'', ''password'', ''password+mfa''].
      trimmed_text 1 100 m = Some m"
    by code_simp
  then show ?thesis by (simp add: transaction_auth_method_def Let_def)
qed

lemma validate_tenant_context_Inr:
  assumes "validate_tenant_context uuid c = Inr c'"
  shows "ctx_organization c' = ctx_organization c \<and> ctx_actor c' = ctx_actor c
    \<and> ctx_session c' = ctx_session c \<and> ctx_request c' = trim (ctx_request c)
    \<and> ctx_reason c' = map_option trim (ctx_reason c) \<and> (\<forall>r. ctx_reason c' = Some r \<longrightarrow> r \<noteq> [])"
proof (cases "ctx_reason c")
  case None
  then show ?thesis using assms
    by (auto simp: validate_tenant_context_def Let_def trimmed_text_def split: option.splits if_splits)
next
  case (Some r)
  then show ?thesis using assms
    by (cases "trimmed_text 1 500 r")
      (auto simp: validate_tenant_context_def Let_def trimmed_text_def split: option.splits if_splits)
qed

lemma begin_tenant_transaction_Inr_iff [monad_simps]:
  "begin_tenant_transaction gate c = Inr c' \<longleftrightarrow> validate_tenant_context (tg_uuid gate) c = Inr c'
     \<and> (ctx_session_mode c' = Some DemoSession \<longrightarrow> tg_lease gate c')"
  by (auto simp: begin_tenant_transaction_def monad_simps)

section \<open>Properties\<close>

text \<open>
  C4. Isolation of demo and real books.  When both write gates let a transaction
  through, the organization it writes to is active, and either the session is an
  authorized demo session of a public demo organization with demo writes switched
  on, or it is a real session of a real organization that has writes enabled and
  business writes are switched on.
\<close>

theorem write_gates_separate_demo_and_real:
  assumes "assert_tenant_writes_enabled e c = Inr ()"
    and "assert_writable_organization e T c = Inr is_demo"
  shows "\<exists>g \<in> set (organizations T). org_id g = ctx_organization c \<and> org_active g
     \<and> org_is_demo g = is_demo
     \<and> (if is_demo
        then session_mode_of c = DemoSession \<and> truthy (ctx_session c)
          \<and> demo_writes_enabled e \<and> org_mode g = ''PUBLIC_DEMO''
        else session_mode_of c = RealSession \<and> business_writes_enabled e
          \<and> org_mode g = ''REAL'' \<and> org_writes_enabled_at g \<noteq> None)"
proof -
  obtain g where g: "find_organization T (ctx_organization c) = Some g" "org_active g"
    "is_demo = org_is_demo g" "org_is_demo g = is_authorized_demo_write_context e c"
    "if org_is_demo g then org_mode g = ''PUBLIC_DEMO''
     else org_mode g = ''REAL'' \<and> org_writes_enabled_at g \<noteq> None"
    using assms(2) by (auto simp: monad_simps)
  have "session_mode_of c = RealSession" if "session_mode_of c \<noteq> DemoSession"
    using that by (cases "session_mode_of c") auto
  then show ?thesis
    using g assms(1) find_organization_Some [OF g(1)]
    by (intro bexI [where x = g])
      (auto simp: monad_simps is_authorized_demo_write_context_def split: if_splits)
qed

text \<open>Identifiers in the format of \<open>z.uuid\<close> for the examples, and that format.\<close>

abbreviation "example_org \<equiv> ''3f2b8c1e-5d47-4a6b-9c10-7e8f90a1b2c3''"
abbreviation "example_user \<equiv> ''8a1d4e72-0c3b-4f95-b6d8-1a2b3c4d5e6f''"
abbreviation "example_colleague \<equiv> ''b7e0f5a3-6c21-4d8e-a943-5f6e7d8c9b0a''"
abbreviation "example_session \<equiv> ''c4d2a691-7e58-4b03-8f2a-0d1e2f3a4b5c''"

definition example_uuid :: "string \<Rightarrow> bool" where
  "example_uuid s \<longleftrightarrow> length s = 36
     \<and> list_all (\<lambda>(i, c).
          if i \<in> {8, 13, 18, 23} then c = CHR ''-''
          else if i = 14 then c \<in> set ''12345678''
          else if i = 19 then c \<in> set ''89abAB''
          else is_digit c \<or> char_between (CHR ''a'') (CHR ''f'') (lower_char c)) (enumerate (0::nat) s)"

definition example_gate :: transaction_gate where
  "example_gate = \<lparr>tg_uuid = example_uuid, tg_lease = (\<lambda>_. False)\<rparr>"

definition example_organization :: organization_row where
  "example_organization = \<lparr>org_id = example_org, org_active = True, org_is_demo = False,
     org_mode = ''REAL'', org_writes_enabled_at = Some ''2026-01-01''\<rparr>"

definition example_tables :: access_tables where
  "example_tables = \<lparr>organizations = [example_organization],
     memberships = [\<lparr>mem_id = ''m'', mem_organization = example_org, mem_user = example_user, mem_active = True\<rparr>],
     membership_roles = [\<lparr>mr_organization = example_org, mr_membership = ''m'', mr_role = ''r''\<rparr>],
     roles = [\<lparr>role_id = ''r'', role_organization = example_org, role_key = ''OWNER'', role_active = True\<rparr>],
     role_permissions = map (\<lambda>p. \<lparr>rp_organization = example_org, rp_role = ''r'', rp_key = permission_key p\<rparr>)
       all_permissions\<rparr>"

definition example_context :: tenant_context where
  "example_context = \<lparr>ctx_organization = example_org, ctx_actor = example_user, ctx_session = Some example_session,
     ctx_session_mode = Some RealSession, ctx_request = ''req-1'', ctx_auth_method = ''password'',
     ctx_surface = SurfaceUI, ctx_reason = Some ''month end'', ctx_demo_authorized = None,
     ctx_mcp_connection = None\<rparr>"

definition example_environment :: environment where
  "example_environment = \<lparr>demo_writes_enabled = False, business_writes_enabled = True\<rparr>"

theorem write_gates_separate_demo_and_real_witness:
  "\<exists>g \<in> set (organizations example_tables). org_id g = ctx_organization example_context \<and> org_active g
     \<and> org_is_demo g = False
     \<and> (if False
        then session_mode_of example_context = DemoSession \<and> truthy (ctx_session example_context)
          \<and> demo_writes_enabled example_environment \<and> org_mode g = ''PUBLIC_DEMO''
        else session_mode_of example_context = RealSession \<and> business_writes_enabled example_environment
          \<and> org_mode g = ''REAL'' \<and> org_writes_enabled_at g \<noteq> None)"
  by (rule write_gates_separate_demo_and_real) code_simp+

text \<open>
  C5. Interactive contexts are well formed.  For any principal and any request
  identifier and reason in trimmed form and within their bounds, the context
  \<open>mutationContext\<close> builds passes the validation of the tenant transaction unchanged
  when the identifiers of the principal (organization, user, session and, if there is
  one, the agent connection) have the format of \<open>z.uuid\<close>, and is refused otherwise.
  It carries demo-write authorization exactly when the principal's session is a demo
  session, and the write policy lets it through exactly when the writes of its mode are
  switched on (and a demo session has an identifier).
\<close>

theorem mutation_context_validates:
  assumes "\<not> uuid []" and "trimmed_text 1 200 request = Some request"
    and "reason = None \<or> (\<exists>r. reason = Some r \<and> trimmed_text 1 500 r = Some r)"
  shows "validate_tenant_context uuid (mutation_context p now request reason surface)
      = (if uuid (pr_organization p) \<and> uuid (pr_user p) \<and> uuid (pr_session p)
            \<and> (case pr_mcp_connection p of None \<Rightarrow> True | Some m \<Rightarrow> m = [] \<or> uuid m)
         then Inr (mutation_context p now request reason surface)
         else Inl InvalidTransactionContext)
    \<and> (ctx_demo_authorized (mutation_context p now request reason surface) = Some True
      \<longleftrightarrow> pr_mode p = DemoSession)
    \<and> (assert_tenant_writes_enabled e (mutation_context p now request reason surface) = Inr ()
      \<longleftrightarrow> (if pr_mode p = DemoSession then demo_writes_enabled e \<and> pr_session p \<noteq> []
           else business_writes_enabled e))"
proof (intro conjI)
  note auth = transaction_auth_method_demo [of p now] transaction_auth_method_trimmed [of p now]
  have mcp: "if_present uuid (ctx_mcp_connection (mutation_context p now request reason surface))
      \<longleftrightarrow> (case pr_mcp_connection p of None \<Rightarrow> True | Some m \<Rightarrow> m = [] \<or> uuid m)"
    by (auto simp: mutation_context_def truthy_def split: option.splits)
  show "validate_tenant_context uuid (mutation_context p now request reason surface)
      = (if uuid (pr_organization p) \<and> uuid (pr_user p) \<and> uuid (pr_session p)
            \<and> (case pr_mcp_connection p of None \<Rightarrow> True | Some m \<Rightarrow> m = [] \<or> uuid m)
         then Inr (mutation_context p now request reason surface)
         else Inl InvalidTransactionContext)"
    unfolding mcp [symmetric] using assms auth
    by (auto simp: validate_tenant_context_def mutation_context_def session_mode_of_def truthy_def Let_def)
  show "ctx_demo_authorized (mutation_context p now request reason surface) = Some True
      \<longleftrightarrow> pr_mode p = DemoSession"
    by (simp add: mutation_context_def)
  show "assert_tenant_writes_enabled e (mutation_context p now request reason surface) = Inr ()
      \<longleftrightarrow> (if pr_mode p = DemoSession then demo_writes_enabled e \<and> pr_session p \<noteq> []
           else business_writes_enabled e)"
    using auth(1) by (auto simp: assert_tenant_writes_Inr_iff is_authorized_demo_write_context_def
        mutation_context_def session_mode_of_def truthy_def)
qed

definition example_principal :: session_principal where
  "example_principal = \<lparr>pr_session = example_session, pr_user = example_user, pr_organization = example_org,
     pr_mode = DemoSession, pr_oidc = False, pr_step_up_expires_at = Some 900, pr_mcp_connection = None,
     pr_organization_writes_enabled = None\<rparr>"

theorem mutation_context_validates_witness:
  "validate_tenant_context example_uuid (mutation_context example_principal 100 ''r'' None None)
      = (if example_uuid (pr_organization example_principal) \<and> example_uuid (pr_user example_principal)
            \<and> example_uuid (pr_session example_principal)
            \<and> (case pr_mcp_connection example_principal of None \<Rightarrow> True | Some m \<Rightarrow> m = [] \<or> example_uuid m)
         then Inr (mutation_context example_principal 100 ''r'' None None)
         else Inl InvalidTransactionContext)
    \<and> (ctx_demo_authorized (mutation_context example_principal 100 ''r'' None None) = Some True
      \<longleftrightarrow> pr_mode example_principal = DemoSession)
    \<and> (assert_tenant_writes_enabled example_environment (mutation_context example_principal 100 ''r'' None None)
        = Inr () \<longleftrightarrow> (if pr_mode example_principal = DemoSession
           then demo_writes_enabled example_environment \<and> pr_session example_principal \<noteq> []
           else business_writes_enabled example_environment))"
  by (rule mutation_context_validates) (code_simp, code_simp, simp)

text \<open>The context of the example is one the transaction accepts, and a nickname is refused.\<close>

lemma example_principal_accepted:
  "is_ok (validate_tenant_context example_uuid (mutation_context example_principal 100 ''r'' None None))
   \<and> \<not> is_ok (validate_tenant_context example_uuid
        (mutation_context (example_principal\<lparr>pr_user := ''user-1''\<rparr>) 100 ''r'' None None))"
  by code_simp

end
