(* ===== verification/PeriodControl.thy ===== *)
theory PeriodControl
  imports Access
begin

text \<open>
  Fiscal periods: the posting decision of \<open>ledger/period-policy.ts\<close> and the
  transition command of \<open>ledger/period-service.ts\<close> over the tables it reads and
  writes.  The \<open>UPDATE fiscal_periods\<close> it issues runs through the triggers of the
  repository's migrations (0006 \<open>guard_period_state_machine\<close>, 0009
  \<open>guard_period_transition\<close>, 0030 \<open>audit_period_transition\<close>), which are modelled
  with it: the version is advanced and the event is recorded there.  A failing
  command is \<open>Inl\<close> and leaves the tables as they were (rollback).
\<close>

section \<open>Posting decision\<close>

datatype period_state = PeriodOpen | AdjustmentOnly | HardClosed | Sealed

datatype posting_purpose =
    Routine | Adjusting | Reversal | Opening | Closing | Revaluation | TaxAdjustment

datatype period_decision =
    PeriodAllowed | AdjustmentPermissionRequired | PurposeNotAllowed | PeriodClosed

definition adjustment_purposes :: "posting_purpose list" where
  "adjustment_purposes = [Adjusting, Reversal, Closing, Revaluation, TaxAdjustment]"

definition decide_period_posting :: "period_state \<Rightarrow> posting_purpose \<Rightarrow> bool \<Rightarrow> period_decision" where
  "decide_period_posting state purpose can_post_adjustment =
     (if state = PeriodOpen then PeriodAllowed
      else if state = HardClosed \<or> state = Sealed then PeriodClosed
      else if purpose \<notin> set adjustment_purposes then PurposeNotAllowed
      else if \<not> can_post_adjustment then AdjustmentPermissionRequired
      else PeriodAllowed)"

section \<open>Tables\<close>

record period_row =
  per_id :: string
  per_organization :: string
  per_state :: period_state
  per_version :: int

record period_event =
  pe_organization :: string
  pe_period :: string
  pe_from :: period_state
  pe_to :: period_state
  pe_reason :: string
  pe_actor :: string
  pe_request :: string

datatype journal_status = JDraft | JSubmitted | JApproved | JPosted | JReversed

text \<open>A journal with whether a \<open>DELETED\<close> transaction control exists for it.\<close>

record journal_head =
  jh_organization :: string
  jh_period :: string
  jh_status :: journal_status
  jh_deleted :: bool

record auth_session_row =
  as_id :: string
  as_membership :: string
  as_organization :: string
  as_user :: string
  as_real :: bool
  as_revoked :: bool
  as_expires_at :: int
  as_idle_expires_at :: int
  as_step_up_expires_at :: "int option"

record period_tables =
  fiscal_periods :: "period_row list"
  period_events :: "period_event list"
  journal_heads :: "journal_head list"
  auth_sessions :: "auth_session_row list"
  access :: access_tables

datatype period_error =
    PeriodAccess access_error
  | PeriodReasonRequired
  | InvalidPeriodCommand
  | PeriodNotFound
  | AlreadyUnderAnotherCommand
  | StalePeriodVersion
  | UnpostedJournals
  | ConcurrentPeriodUpdate
  | SealedPeriodFinal
  | PeriodContextRequired
  | PeriodPermissionRequired
  | SteppedUpSessionRequired
  | InvalidPeriodTransition
  | DuplicatePeriodRequest

section \<open>The update and its triggers\<close>

definition allowed_period_transition :: "period_state \<Rightarrow> period_state \<Rightarrow> bool" where
  "allowed_period_transition old new \<longleftrightarrow>
     (old = PeriodOpen \<and> new = AdjustmentOnly)
     \<or> (old = AdjustmentOnly \<and> new \<in> {PeriodOpen, HardClosed})
     \<or> (old = HardClosed \<and> new \<in> {PeriodOpen, AdjustmentOnly, Sealed})"

text \<open>A live real session of an active membership with an unexpired step-up.\<close>

definition live_stepped_up_session ::
  "period_tables \<Rightarrow> int \<Rightarrow> string \<Rightarrow> string \<Rightarrow> string option \<Rightarrow> bool" where
  "live_stepped_up_session T now org actor session =
     (truthy session \<and>
      list_ex (\<lambda>s. Some (as_id s) = session \<and> as_organization s = org \<and> as_user s = actor
          \<and> as_real s \<and> \<not> as_revoked s \<and> as_expires_at s > now \<and> as_idle_expires_at s > now
          \<and> (case as_step_up_expires_at s of None \<Rightarrow> False | Some t \<Rightarrow> t > now)
          \<and> list_ex (\<lambda>m. mem_id m = as_membership s \<and> mem_organization m = as_organization s
                \<and> mem_user m = as_user s \<and> mem_active m) (memberships (access T)))
        (auth_sessions T))"

definition is_reopening :: "period_state \<Rightarrow> period_state \<Rightarrow> bool" where
  "is_reopening old new \<longleftrightarrow>
     (old = HardClosed \<and> new \<in> {PeriodOpen, AdjustmentOnly}) \<or> (old = AdjustmentOnly \<and> new = PeriodOpen)"

definition guard_period_transition ::
  "period_tables \<Rightarrow> int \<Rightarrow> tenant_context \<Rightarrow> period_row \<Rightarrow> period_state \<Rightarrow> period_error + period_row" where
  "guard_period_transition T now c old new =
     (if new = per_state old then Inr old
      else
        let org = ctx_organization c;
            has = actor_has_active_permission (access T) org (ctx_actor c);
            reopening = is_reopening (per_state old) new;
            sealing = per_state old = HardClosed \<and> new = Sealed
        in bindE (throw_if (per_state old = Sealed) SealedPeriodFinal) (\<lambda>_.
           bindE (throw_if (ctx_actor c = [] \<or> \<not> truthy (ctx_reason c)) PeriodContextRequired) (\<lambda>_.
           bindE (throw_if (\<not> has (if reopening then ReopenPeriod
                                   else if sealing then SealPeriod else ClosePeriod))
             PeriodPermissionRequired) (\<lambda>_.
           bindE (throw_if ((reopening \<or> sealing)
                 \<and> \<not> live_stepped_up_session T now (per_organization old) (ctx_actor c) (ctx_session c))
             SteppedUpSessionRequired) (\<lambda>_.
           Inr (old\<lparr>per_state := new, per_version := per_version old + 1\<rparr>))))))"

definition guard_period_state_machine :: "period_state \<Rightarrow> period_state \<Rightarrow> period_error + unit" where
  "guard_period_state_machine old new =
     (if new = old then Inr ()
      else throw_if (\<not> allowed_period_transition old new) InvalidPeriodTransition)"

text \<open>The event insert; a request identifier is unique in an organization.\<close>

definition audit_period_transition ::
  "period_tables \<Rightarrow> tenant_context \<Rightarrow> period_row \<Rightarrow> period_row \<Rightarrow> period_error + period_event list" where
  "audit_period_transition T c old new =
     (if per_state new = per_state old then Inr (period_events T)
      else bindE (throw_if (ctx_actor c = [] \<or> \<not> truthy (ctx_reason c) \<or> ctx_request c = [])
             PeriodContextRequired) (\<lambda>_.
           bindE (throw_if (list_ex (\<lambda>e. pe_organization e = per_organization new
                 \<and> pe_request e = ctx_request c) (period_events T)) DuplicatePeriodRequest) (\<lambda>_.
           Inr (period_events T @
             [\<lparr>pe_organization = per_organization new, pe_period = per_id new,
               pe_from = per_state old, pe_to = per_state new,
               pe_reason = or_else (ctx_reason c) [], pe_actor = ctx_actor c,
               pe_request = ctx_request c\<rparr>]))))"

text \<open>\<open>UPDATE fiscal_periods SET state ... WHERE id AND version RETURNING\<close> of one period.\<close>

definition update_period_state ::
  "period_tables \<Rightarrow> int \<Rightarrow> tenant_context \<Rightarrow> period_row \<Rightarrow> period_state \<Rightarrow> int
     \<Rightarrow> period_error + period_row \<times> period_tables" where
  "update_period_state T now c old new version =
     bindE (throw_if (per_version old \<noteq> version) ConcurrentPeriodUpdate) (\<lambda>_.
     bindE (guard_period_transition T now c old new) (\<lambda>row.
     bindE (guard_period_state_machine (per_state old) new) (\<lambda>_.
     bindE (audit_period_transition T c old row) (\<lambda>events.
     Inr (row, T\<lparr>fiscal_periods := map (\<lambda>p. if per_organization p = per_organization old
                     \<and> per_id p = per_id old \<and> per_version p = version then row else p) (fiscal_periods T),
                period_events := events\<rparr>)))))"

section \<open>The transition command\<close>

record period_command =
  pc_period :: string
  pc_expected_version :: int
  pc_to_state :: period_state
  pc_idempotency_key :: string

record period_result =
  pres_period :: string
  pres_state :: period_state
  pres_version :: int
  pres_replay :: bool

text \<open>\<open>commandSchema\<close>; \<open>z.number().int()\<close> admits the safe integers.\<close>

definition parse_period_command ::
  "(string \<Rightarrow> bool) \<Rightarrow> period_command \<Rightarrow> period_error + period_command" where
  "parse_period_command uuid cmd =
     (case trimmed_text 1 180 (pc_idempotency_key cmd) of
        None \<Rightarrow> Inl InvalidPeriodCommand
      | Some key \<Rightarrow>
          if uuid (pc_period cmd) \<and> 0 < pc_expected_version cmd \<and> pc_expected_version cmd \<le> 9007199254740991
          then Inr (cmd\<lparr>pc_idempotency_key := key\<rparr>)
          else Inl InvalidPeriodCommand)"

definition find_period :: "period_tables \<Rightarrow> string \<Rightarrow> string \<Rightarrow> period_row option" where
  "find_period T org pid =
     (if list_ex (\<lambda>g. org_id g = org \<and> org_active g) (organizations (access T))
      then List.find (\<lambda>p. per_organization p = org \<and> per_id p = pid) (fiscal_periods T)
      else None)"

definition find_period_event ::
  "period_tables \<Rightarrow> string \<Rightarrow> string \<Rightarrow> string \<Rightarrow> period_state \<Rightarrow> period_event option" where
  "find_period_event T org pid request new =
     List.find (\<lambda>e. pe_organization e = org \<and> pe_period e = pid
         \<and> pe_request e = request \<and> pe_to e = new) (period_events T)"

definition unposted_journals :: "period_tables \<Rightarrow> string \<Rightarrow> string \<Rightarrow> nat" where
  "unposted_journals T org pid =
     length (filter (\<lambda>j. jh_organization j = org \<and> jh_period j = pid
         \<and> jh_status j \<in> {JDraft, JSubmitted, JApproved} \<and> \<not> jh_deleted j) (journal_heads T))"

definition period_permission :: "period_state \<Rightarrow> period_state \<Rightarrow> permission" where
  "period_permission state new =
     (let is_reopen = new = PeriodOpen \<or> (state = HardClosed \<and> new = AdjustmentOnly);
          is_seal = new = Sealed
      in if is_seal then SealPeriod else if is_reopen then ReopenPeriod else ClosePeriod)"

text \<open>
  The work inside the transaction: \<open>c0\<close> is the context the caller passed, \<open>c\<close> the
  validated context the database session carries.
\<close>

definition transition_period_work ::
  "environment \<Rightarrow> int \<Rightarrow> tenant_context \<Rightarrow> tenant_context \<Rightarrow> period_command \<Rightarrow> period_tables
     \<Rightarrow> period_error + period_result \<times> period_tables" where
  "transition_period_work env now c0 c cmd T =
     bindE (map_errorE PeriodAccess (assert_writable_organization env (access T) c0)) (\<lambda>_.
     case find_period T (ctx_organization c0) (pc_period cmd) of
       None \<Rightarrow> Inl PeriodNotFound
     | Some period \<Rightarrow>
         bindE (map_errorE PeriodAccess (assert_actor_has_active_permission (access T)
             (ctx_organization c0) (ctx_actor c0)
             (period_permission (per_state period) (pc_to_state cmd)))) (\<lambda>_.
         if per_state period = pc_to_state cmd then
           (case find_period_event T (ctx_organization c0) (pc_period cmd) (ctx_request c)
                   (pc_to_state cmd) of
              None \<Rightarrow> Inl AlreadyUnderAnotherCommand
            | Some event \<Rightarrow>
                if Some (pe_reason event) \<noteq> ctx_reason c0
                   \<or> per_version period \<noteq> pc_expected_version cmd + 1
                then Inl AlreadyUnderAnotherCommand
                else Inr (\<lparr>pres_period = pc_period cmd, pres_state = pc_to_state cmd,
                           pres_version = per_version period, pres_replay = True\<rparr>, T))
         else
           bindE (throw_if (per_version period \<noteq> pc_expected_version cmd) StalePeriodVersion) (\<lambda>_.
           bindE (throw_if (pc_to_state cmd \<in> {HardClosed, Sealed}
                 \<and> unposted_journals T (ctx_organization c0) (pc_period cmd) > 0) UnpostedJournals) (\<lambda>_.
           bindE (update_period_state T now c period (pc_to_state cmd) (pc_expected_version cmd)) (\<lambda>(row, T').
           Inr (\<lparr>pres_period = pc_period cmd, pres_state = per_state row,
                 pres_version = per_version row, pres_replay = False\<rparr>, T'))))))"

definition transition_fiscal_period ::
  "environment \<Rightarrow> int \<Rightarrow> transaction_gate \<Rightarrow> tenant_context \<Rightarrow> period_command \<Rightarrow> period_tables
     \<Rightarrow> period_error + period_result \<times> period_tables" where
  "transition_fiscal_period env now gate c0 cmd0 T =
     bindE (map_errorE PeriodAccess (assert_tenant_writes_enabled env c0)) (\<lambda>_.
     bindE (throw_if (\<not> truthy (ctx_reason c0)) PeriodReasonRequired) (\<lambda>_.
     bindE (parse_period_command (tg_uuid gate) cmd0) (\<lambda>cmd.
     bindE (map_errorE PeriodAccess (begin_tenant_transaction gate
         (c0\<lparr>ctx_request := ''period:'' @ pc_idempotency_key cmd\<rparr>))) (\<lambda>c.
     transition_period_work env now c0 c cmd T))))"

text \<open>
  The histories of the tables: any number of transition commands, between which
  everything except the periods and their events may change freely (the
  application cannot update those tables in any other way).
\<close>

inductive period_history :: "period_tables \<Rightarrow> period_tables \<Rightarrow> bool" where
  refl: "period_history T T"
| command: "period_history T T' \<Longrightarrow>
    transition_fiscal_period env now gate c cmd T' = Inr (res, T'') \<Longrightarrow> period_history T T''"
| elsewhere: "period_history T T' \<Longrightarrow> fiscal_periods T'' = fiscal_periods T' \<Longrightarrow>
    period_events T'' = period_events T' \<Longrightarrow> period_history T T''"

section \<open>What a transition does\<close>

definition period_key :: "period_row \<Rightarrow> string \<times> string" where
  "period_key p = (per_organization p, per_id p)"

lemma find_period_Some:
  "find_period T org pid = Some p \<Longrightarrow>
     p \<in> set (fiscal_periods T) \<and> per_organization p = org \<and> per_id p = pid"
  by (auto simp: find_period_def find_Some_iff split: if_splits)

lemma parse_period_command_Inr_iff [monad_simps]:
  "parse_period_command uuid c = Inr cmd \<longleftrightarrow>
     trimmed_text 1 180 (pc_idempotency_key c) = Some (pc_idempotency_key cmd)
     \<and> uuid (pc_period c) \<and> 0 < pc_expected_version c \<and> pc_expected_version c \<le> 9007199254740991
     \<and> cmd = c\<lparr>pc_idempotency_key := pc_idempotency_key cmd\<rparr>"
  by (auto simp: parse_period_command_def split: option.splits)

lemma parse_period_command_fields:
  "parse_period_command uuid c = Inr cmd \<Longrightarrow> pc_to_state cmd = pc_to_state c \<and> pc_period cmd = pc_period c
     \<and> pc_expected_version cmd = pc_expected_version c"
  by (auto simp: parse_period_command_def split: option.splits if_splits)

lemma update_period_state_Inr:
  assumes "update_period_state T now c old new v = Inr (row, T')" and "new \<noteq> per_state old"
  shows "per_version old = v \<and> row = old\<lparr>per_state := new, per_version := per_version old + 1\<rparr>
    \<and> allowed_period_transition (per_state old) new
    \<and> (is_reopening (per_state old) new \<or> new = Sealed \<longrightarrow>
        live_stepped_up_session T now (per_organization old) (ctx_actor c) (ctx_session c))
    \<and> (\<exists>r. ctx_reason c = Some r \<and> r \<noteq> []
        \<and> list_all (\<lambda>e. pe_organization e = per_organization old \<longrightarrow> pe_request e \<noteq> ctx_request c)
            (period_events T)
        \<and> T' = T\<lparr>fiscal_periods := map (\<lambda>p. if per_organization p = per_organization old
                     \<and> per_id p = per_id old \<and> per_version p = v then row else p) (fiscal_periods T),
              period_events := period_events T @
                [\<lparr>pe_organization = per_organization old, pe_period = per_id old,
                  pe_from = per_state old, pe_to = new, pe_reason = r, pe_actor = ctx_actor c,
                  pe_request = ctx_request c\<rparr>]\<rparr>)"
  using assms
  by (auto simp: update_period_state_def guard_period_transition_def guard_period_state_machine_def
      audit_period_transition_def Let_def monad_simps text_simps list_ex_iff list_all_iff
      is_reopening_def allowed_period_transition_def)

lemma transition_fiscal_period_Inr:
  assumes "transition_fiscal_period env now gate c0 cmd0 T = Inr (res, T')"
  obtains cmd c period where
    "parse_period_command (tg_uuid gate) cmd0 = Inr cmd"
    "begin_tenant_transaction gate (c0\<lparr>ctx_request := ''period:'' @ pc_idempotency_key cmd\<rparr>) = Inr c"
    "find_period T (ctx_organization c0) (pc_period cmd) = Some period"
    "actor_has_active_permission (access T) (ctx_organization c0) (ctx_actor c0)
       (period_permission (per_state period) (pc_to_state cmd))"
    "assert_tenant_writes_enabled env c0 = Inr ()" "truthy (ctx_reason c0)"
    "is_ok (assert_writable_organization env (access T) c0)"
    "(pres_replay res \<and> T' = T) \<or>
     (\<not> pres_replay res \<and> per_state period \<noteq> pc_to_state cmd \<and>
      (pc_to_state cmd \<in> {HardClosed, Sealed} \<longrightarrow>
        unposted_journals T (ctx_organization c0) (pc_period cmd) = 0) \<and>
      (\<exists>row. update_period_state T now c period (pc_to_state cmd) (pc_expected_version cmd)
          = Inr (row, T')
        \<and> res = \<lparr>pres_period = pc_period cmd, pres_state = per_state row,
                 pres_version = per_version row, pres_replay = False\<rparr>))"
proof -
  obtain cmd c where base: "assert_tenant_writes_enabled env c0 = Inr ()" "truthy (ctx_reason c0)"
    "parse_period_command (tg_uuid gate) cmd0 = Inr cmd"
    "begin_tenant_transaction gate (c0\<lparr>ctx_request := ''period:'' @ pc_idempotency_key cmd\<rparr>) = Inr c"
    "transition_period_work env now c0 c cmd T = Inr (res, T')"
    using assms by (auto simp: transition_fiscal_period_def bindE_Inr_iff map_errorE_Inr_iff throw_if_Inr_iff)
  from base(5) obtain p where w: "find_period T (ctx_organization c0) (pc_period cmd) = Some p"
    "actor_has_active_permission (access T) (ctx_organization c0) (ctx_actor c0)
       (period_permission (per_state p) (pc_to_state cmd))"
    "is_ok (assert_writable_organization env (access T) c0)"
    "(pres_replay res \<and> T' = T) \<or>
     (\<not> pres_replay res \<and> per_state p \<noteq> pc_to_state cmd \<and>
      (pc_to_state cmd \<in> {HardClosed, Sealed} \<longrightarrow>
        unposted_journals T (ctx_organization c0) (pc_period cmd) = 0) \<and>
      (\<exists>row. update_period_state T now c p (pc_to_state cmd) (pc_expected_version cmd)
          = Inr (row, T')
        \<and> res = \<lparr>pres_period = pc_period cmd, pres_state = per_state row,
                 pres_version = per_version row, pres_replay = False\<rparr>))"
    by (auto simp: transition_period_work_def bindE_Inr_iff map_errorE_Inr_iff throw_if_Inr_iff
        assert_permission_Inr_iff is_ok_iff split: option.splits if_splits prod.splits)
  show ?thesis by (rule that [OF base(3) base(4) w(1,2) base(1,2) w(3,4)])
qed

section \<open>The audit trail\<close>

text \<open>A chain of recorded transitions from one state to another, each with a reason.\<close>

fun event_chain :: "period_state \<Rightarrow> period_event list \<Rightarrow> period_state \<Rightarrow> bool" where
  "event_chain s [] t \<longleftrightarrow> s = t"
| "event_chain s (e # es) t \<longleftrightarrow>
     pe_from e = s \<and> allowed_period_transition s (pe_to e) \<and> pe_reason e \<noteq> [] \<and>
     event_chain (pe_to e) es t"

definition events_of :: "period_tables \<Rightarrow> period_row \<Rightarrow> period_event list" where
  "events_of T p =
     filter (\<lambda>e. pe_organization e = per_organization p \<and> pe_period e = per_id p) (period_events T)"

text \<open>Every period started open at version 1 and is where its recorded events lead.\<close>

definition period_books_ok :: "period_tables \<Rightarrow> bool" where
  "period_books_ok T \<longleftrightarrow>
     distinct (map period_key (fiscal_periods T)) \<and>
     list_all (\<lambda>p. event_chain PeriodOpen (events_of T p) (per_state p)
         \<and> per_version p = 1 + int (length (events_of T p))) (fiscal_periods T)"

lemma event_chain_snoc:
  "event_chain s (es @ [e]) t \<longleftrightarrow>
     (\<exists>u. event_chain s es u \<and> pe_from e = u \<and> allowed_period_transition u (pe_to e)
        \<and> pe_reason e \<noteq> [] \<and> pe_to e = t)"
  by (induction es arbitrary: s) auto

lemma sealed_no_transition: "\<not> allowed_period_transition Sealed t"
  by (simp add: allowed_period_transition_def)

text \<open>The change one successful command makes, in terms of the period it addresses.\<close>

lemma transition_effect:
  assumes "transition_fiscal_period env now gate c0 cmd0 T = Inr (res, T')"
    and "distinct (map period_key (fiscal_periods T))"
  shows "T' = T \<or> (\<exists>p e. p \<in> set (fiscal_periods T)
      \<and> pe_organization e = per_organization p \<and> pe_period e = per_id p
      \<and> pe_from e = per_state p \<and> allowed_period_transition (per_state p) (pe_to e)
      \<and> pe_reason e \<noteq> [] \<and> period_events T' = period_events T @ [e]
      \<and> fiscal_periods T' = map (\<lambda>q. if period_key q = period_key p
          then p\<lparr>per_state := pe_to e, per_version := per_version p + 1\<rparr> else q) (fiscal_periods T))"
  using assms(1)
proof (cases rule: transition_fiscal_period_Inr)
  case (1 cmd c p)
  show ?thesis
  proof (cases "pres_replay res")
    case False
    then obtain row where ne: "pc_to_state cmd \<noteq> per_state p" and
      u: "update_period_state T now c p (pc_to_state cmd) (pc_expected_version cmd) = Inr (row, T')"
      using 1(8) by auto
    have p: "p \<in> set (fiscal_periods T)" using find_period_Some [OF 1(3)] by simp
    have same: "q = p" if "q \<in> set (fiscal_periods T)" "period_key q = period_key p" for q
      using assms(2) p that by (meson distinct_map inj_on_def)
    have "map (\<lambda>q. if per_organization q = per_organization p \<and> per_id q = per_id p
             \<and> per_version q = pc_expected_version cmd then row else q) (fiscal_periods T)
        = map (\<lambda>q. if period_key q = period_key p then row else q) (fiscal_periods T)"
      using update_period_state_Inr [OF u ne] same by (auto simp: period_key_def)
    then show ?thesis
      using update_period_state_Inr [OF u ne] p
      by (intro disjI2 exI [where x = p]) (auto simp: Let_def)
  qed (use 1(8) in auto)
qed

lemma period_key_map [simp]:
  "map period_key (map (\<lambda>q. if period_key q = period_key p
      then p\<lparr>per_state := s, per_version := v\<rparr> else q) ps) = map period_key ps"
  by (auto simp: period_key_def)

lemma transition_keys:
  assumes "transition_fiscal_period env now gate c0 cmd0 T = Inr (res, T')"
    and "distinct (map period_key (fiscal_periods T))"
  shows "map period_key (fiscal_periods T') = map period_key (fiscal_periods T)"
  using transition_effect [OF assms] by (elim disjE exE conjE) (simp_all only: period_key_map)

lemma transition_keeps_books:
  assumes t: "transition_fiscal_period env now gate c0 cmd0 T = Inr (res, T')"
    and ok: "period_books_ok T"
  shows "period_books_ok T'"
proof -
  have d: "distinct (map period_key (fiscal_periods T))" using ok by (simp add: period_books_ok_def)
  from transition_effect [OF t d] show ?thesis
  proof (elim disjE exE conjE)
    assume "T' = T" then show ?thesis using ok by simp
  next
    fix p e
    assume p: "p \<in> set (fiscal_periods T)" and e: "pe_organization e = per_organization p"
      "pe_period e = per_id p" "pe_from e = per_state p"
      "allowed_period_transition (per_state p) (pe_to e)" "pe_reason e \<noteq> []"
      and T': "period_events T' = period_events T @ [e]"
        "fiscal_periods T' = map (\<lambda>q. if period_key q = period_key p
          then p\<lparr>per_state := pe_to e, per_version := per_version p + 1\<rparr> else q) (fiscal_periods T)"
    let ?row = "p\<lparr>per_state := pe_to e, per_version := per_version p + 1\<rparr>"
    have ev: "events_of T' q = events_of T q @ (if period_key q = period_key p then [e] else [])" for q
      using T'(1) e(1,2) by (auto simp: events_of_def period_key_def)
    have key: "events_of T ?row = events_of T p" by (simp add: events_of_def)
    have good: "event_chain PeriodOpen (events_of T q) (per_state q)
        \<and> per_version q = 1 + int (length (events_of T q))" if "q \<in> set (fiscal_periods T)" for q
      using ok that by (auto simp: period_books_ok_def list_all_iff)
    have row: "event_chain PeriodOpen (events_of T' ?row) (per_state ?row)
        \<and> per_version ?row = 1 + int (length (events_of T' ?row))"
      using good [OF p] e ev [of ?row] key by (simp add: period_key_def event_chain_snoc)
    have "event_chain PeriodOpen (events_of T' q) (per_state q)
        \<and> per_version q = 1 + int (length (events_of T' q))" if "q \<in> set (fiscal_periods T')" for q
    proof -
      from that consider "q = ?row" | "q \<in> set (fiscal_periods T)" "period_key q \<noteq> period_key p"
        unfolding T'(2) by (auto split: if_splits)
      then show ?thesis using row good ev [of q] by cases auto
    qed
    moreover have "distinct (map period_key (fiscal_periods T'))"
      using transition_keys [OF t d] d by simp
    ultimately show ?thesis by (simp add: period_books_ok_def list_all_iff)
  qed
qed

lemma period_history_books:
  "period_history T T' \<Longrightarrow> period_books_ok T \<Longrightarrow> period_books_ok T'"
proof (induction rule: period_history.induct)
  case (command T T' env now gate c cmd res T'')
  then show ?case using transition_keeps_books by blast
next
  case (elsewhere T T' T'')
  have "events_of T'' = events_of T'" using elsewhere.hyps by (auto simp: events_of_def)
  then show ?case using elsewhere by (simp add: period_books_ok_def)
qed simp

lemma period_history_keys:
  "period_history T T' \<Longrightarrow> distinct (map period_key (fiscal_periods T)) \<Longrightarrow>
     map period_key (fiscal_periods T') = map period_key (fiscal_periods T)"
  by (induction rule: period_history.induct) (auto dest: transition_keys)

lemma period_history_sealed:
  assumes "period_history T T'" "distinct (map period_key (fiscal_periods T))"
    and "p \<in> set (fiscal_periods T)" "per_state p = Sealed"
  shows "p \<in> set (fiscal_periods T')"
  using assms
proof (induction rule: period_history.induct)
  case (command T T' env now gate c cmd res T'')
  have d: "distinct (map period_key (fiscal_periods T'))"
    using period_history_keys [OF command.hyps(1)] command.prems(1) by simp
  have p: "p \<in> set (fiscal_periods T')" using command by simp
  from transition_effect [OF command.hyps(2) d] show ?case
  proof (elim disjE exE conjE)
    fix q e
    assume q: "q \<in> set (fiscal_periods T')" "allowed_period_transition (per_state q) (pe_to e)"
      and T'': "fiscal_periods T'' = map (\<lambda>r. if period_key r = period_key q
          then q\<lparr>per_state := pe_to e, per_version := per_version q + 1\<rparr> else r) (fiscal_periods T')"
    have "period_key p \<noteq> period_key q"
    proof
      assume "period_key p = period_key q"
      then have "p = q" using d p q(1) by (meson distinct_map inj_on_def)
      then show False using q(2) command.prems(3) sealed_no_transition by simp
    qed
    then show ?thesis using p unfolding T'' by force
  qed (use p in simp)
qed auto

section \<open>Retries\<close>

lemma find_append_last:
  "list_all (\<lambda>x. \<not> P x) xs \<Longrightarrow> P y \<Longrightarrow> List.find P (xs @ [y]) = Some y"
  by (induction xs) auto

lemma find_map_update:
  assumes "List.find P xs = Some x" "distinct (map k xs)" "\<And>y. P y \<longleftrightarrow> k y = k x" "k z = k x"
  shows "List.find P (map (\<lambda>y. if P y \<and> Q y then z else y) xs) = Some (if Q x then z else x)"
  using assms
proof (induction xs)
  case (Cons y ys)
  show ?case
  proof (cases "P y")
    case True
    then have "y = x" using Cons.prems(1) by simp
    then show ?thesis using True Cons.prems(3,4) by auto
  next
    case False
    then show ?thesis using Cons by auto
  qed
qed simp

lemma retry_same_command:
  assumes t: "transition_fiscal_period env now gate c0 cmd0 T = Inr (res, T')"
    and new: "\<not> pres_replay res" and d: "distinct (map period_key (fiscal_periods T))"
    and r: "ctx_reason c0 = Some r"
    and perm: "pc_to_state cmd0 = AdjustmentOnly \<longrightarrow>
      actor_has_active_permission (access T) (ctx_organization c0) (ctx_actor c0) ClosePeriod"
  shows "transition_fiscal_period env now' gate c0 cmd0 T' =
    (if trim r = r then Inr (res\<lparr>pres_replay := True\<rparr>, T') else Inl AlreadyUnderAnotherCommand)"
proof -
  from t obtain cmd c p where
    cmd: "parse_period_command (tg_uuid gate) cmd0 = Inr cmd" and
    bt: "begin_tenant_transaction gate (c0\<lparr>ctx_request := ''period:'' @ pc_idempotency_key cmd\<rparr>) = Inr c" and
    p: "find_period T (ctx_organization c0) (pc_period cmd) = Some p" and
    pm: "actor_has_active_permission (access T) (ctx_organization c0) (ctx_actor c0)
       (period_permission (per_state p) (pc_to_state cmd))" and
    wr: "assert_tenant_writes_enabled env c0 = Inr ()" and truthy: "truthy (ctx_reason c0)" and
    wo: "is_ok (assert_writable_organization env (access T) c0)" and
    out: "(pres_replay res \<and> T' = T) \<or>
     (\<not> pres_replay res \<and> per_state p \<noteq> pc_to_state cmd \<and>
      (pc_to_state cmd \<in> {HardClosed, Sealed} \<longrightarrow>
        unposted_journals T (ctx_organization c0) (pc_period cmd) = 0) \<and>
      (\<exists>row. update_period_state T now c p (pc_to_state cmd) (pc_expected_version cmd)
          = Inr (row, T')
        \<and> res = \<lparr>pres_period = pc_period cmd, pres_state = per_state row,
                 pres_version = per_version row, pres_replay = False\<rparr>))"
    by (rule transition_fiscal_period_Inr)
  from out new obtain row where ne: "per_state p \<noteq> pc_to_state cmd" and
    up: "update_period_state T now c p (pc_to_state cmd) (pc_expected_version cmd) = Inr (row, T')" and
    res: "res = \<lparr>pres_period = pc_period cmd, pres_state = per_state row,
                 pres_version = per_version row, pres_replay = False\<rparr>"
    by auto
  have c: "ctx_request c = trim (''period:'' @ pc_idempotency_key cmd)" "ctx_reason c = Some (trim r)"
    using validate_tenant_context_Inr [of "tg_uuid gate" _ c] bt r by (auto simp: monad_simps)
  note u = update_period_state_Inr [OF up ne [symmetric]]
  have id: "per_organization p = ctx_organization c0" "per_id p = pc_period cmd"
    using find_period_Some [OF p] by auto
  have row: "row = p\<lparr>per_state := pc_to_state cmd, per_version := pc_expected_version cmd + 1\<rparr>"
    "per_version p = pc_expected_version cmd" using u by auto
  have acc: "access T' = access T" using u by (auto simp: Let_def)
  have active: "list_ex (\<lambda>g. org_id g = ctx_organization c0 \<and> org_active g) (organizations (access T))"
    and fp: "List.find (\<lambda>q. per_organization q = ctx_organization c0 \<and> per_id q = pc_period cmd)
      (fiscal_periods T) = Some p"
    using p by (auto simp: find_period_def split: if_splits)
  have ps: "fiscal_periods T' = map (\<lambda>q. if (per_organization q = ctx_organization c0
      \<and> per_id q = pc_period cmd) \<and> per_version q = pc_expected_version cmd then row else q) (fiscal_periods T)"
    using u id by auto
  have "List.find (\<lambda>q. per_organization q = ctx_organization c0 \<and> per_id q = pc_period cmd)
      (fiscal_periods T') = Some row"
    unfolding ps using find_map_update [OF fp d, of row "\<lambda>q. per_version q = pc_expected_version cmd"]
      row id by (auto simp: period_key_def)
  then have p': "find_period T' (ctx_organization c0) (pc_period cmd) = Some row"
    using active by (simp add: find_period_def acc)
  obtain e where e: "period_events T' = period_events T @ [e]" "pe_organization e = ctx_organization c0"
    "pe_period e = pc_period cmd" "pe_to e = pc_to_state cmd" "pe_request e = ctx_request c"
    "pe_reason e = trim r"
    and fresh: "list_all (\<lambda>e. pe_organization e = ctx_organization c0 \<longrightarrow> pe_request e \<noteq> ctx_request c)
      (period_events T)"
    using u id c by auto
  have ev: "find_period_event T' (ctx_organization c0) (pc_period cmd) (ctx_request c) (pc_to_state cmd)
      = Some e"
    unfolding find_period_event_def e(1)
    by (rule find_append_last) (use fresh e in \<open>auto simp: list_all_iff\<close>)
  have "actor_has_active_permission (access T) (ctx_organization c0) (ctx_actor c0)
       (period_permission (per_state row) (pc_to_state cmd))"
    using pm perm parse_period_command_fields [OF cmd] row(1)
    by (cases "pc_to_state cmd"; cases "per_state p") (auto simp: period_permission_def)
  then have ok: "assert_actor_has_active_permission (access T) (ctx_organization c0) (ctx_actor c0)
      (period_permission (pc_to_state cmd) (pc_to_state cmd)) = Inr ()"
    using row(1) by (simp add: assert_permission_Inr_iff)
  obtain b where "assert_writable_organization env (access T) c0 = Inr b"
    using wo by (auto simp: is_ok_iff)
  then show ?thesis
    using wr truthy cmd bt p' ev e(6) row res r ok
    by (simp add: transition_fiscal_period_def transition_period_work_def acc throw_if_def)
qed

section \<open>Properties\<close>

text \<open>
  C8. The audit trail explains every period.  Through any history of transition
  commands, each period's version is one more than the number of events recorded for
  it, and the events form a chain of permitted transitions, each with a reason, from
  the open state to the state the period is in.
\<close>

theorem period_events_explain_state:
  assumes "period_history T T'" and "period_books_ok T"
  shows "period_books_ok T'"
  by (rule period_history_books [OF assms])

text \<open>
  C9. Sealing is final.  A sealed period is still there with the same state and
  version after any history of commands by anyone.
\<close>

theorem sealed_period_is_final:
  assumes "period_history T T'" and "distinct (map period_key (fiscal_periods T))"
    and "p \<in> set (fiscal_periods T)" and "per_state p = Sealed"
  shows "p \<in> set (fiscal_periods T')"
  by (rule period_history_sealed [OF assms])

text \<open>
  C10. What a state change requires.  A command that changes a period moves it along
  a permitted transition from the version the caller saw to the next one; closing it
  hard or sealing it needs the period free of unposted journals; and reopening or
  sealing needs the matching permission and a live stepped-up session of the actor.
\<close>

theorem period_change_requirements:
  assumes "transition_fiscal_period env now gate c0 cmd T = Inr (res, T')" and "\<not> pres_replay res"
  shows "\<exists>p \<in> set (fiscal_periods T). per_organization p = ctx_organization c0 \<and> per_id p = pc_period cmd
     \<and> per_version p = pc_expected_version cmd
     \<and> allowed_period_transition (per_state p) (pc_to_state cmd)
     \<and> (pc_to_state cmd \<in> {HardClosed, Sealed} \<longrightarrow>
          unposted_journals T (ctx_organization c0) (pc_period cmd) = 0)
     \<and> (pc_to_state cmd = Sealed \<longrightarrow> actor_has_active_permission (access T)
          (ctx_organization c0) (ctx_actor c0) SealPeriod)
     \<and> (is_reopening (per_state p) (pc_to_state cmd) \<longrightarrow> actor_has_active_permission (access T)
          (ctx_organization c0) (ctx_actor c0) ReopenPeriod)
     \<and> (is_reopening (per_state p) (pc_to_state cmd) \<or> pc_to_state cmd = Sealed \<longrightarrow>
          live_stepped_up_session T now (ctx_organization c0) (ctx_actor c0) (ctx_session c0))"
  using assms(1)
proof (cases rule: transition_fiscal_period_Inr)
  case (1 cmd' c p)
  then obtain row where ne: "pc_to_state cmd' \<noteq> per_state p" and
    u: "update_period_state T now c p (pc_to_state cmd') (pc_expected_version cmd') = Inr (row, T')"
    using assms(2) 1(8) by auto
  have same: "pc_to_state cmd' = pc_to_state cmd" "pc_period cmd' = pc_period cmd"
    "pc_expected_version cmd' = pc_expected_version cmd"
    using parse_period_command_fields [OF 1(1)] by auto
  have ctx: "ctx_actor c = ctx_actor c0" "ctx_session c = ctx_session c0"
    using validate_tenant_context_Inr [of "tg_uuid gate" _ c] 1(2) by (auto simp: monad_simps)
  have per: "p \<in> set (fiscal_periods T)" "per_organization p = ctx_organization c0"
    "per_id p = pc_period cmd"
    using find_period_Some [OF 1(3)] same by auto
  have unposted: "pc_to_state cmd \<in> {HardClosed, Sealed} \<longrightarrow>
      unposted_journals T (ctx_organization c0) (pc_period cmd) = 0"
    using 1(8) assms(2) same by auto
  have perm: "actor_has_active_permission (access T) (ctx_organization c0) (ctx_actor c0)
      (period_permission (per_state p) (pc_to_state cmd))" using 1(4) same by simp
  then have perms: "pc_to_state cmd = Sealed \<longrightarrow> actor_has_active_permission (access T)
        (ctx_organization c0) (ctx_actor c0) SealPeriod"
      "is_reopening (per_state p) (pc_to_state cmd) \<longrightarrow> actor_has_active_permission (access T)
        (ctx_organization c0) (ctx_actor c0) ReopenPeriod"
    by (auto simp: period_permission_def is_reopening_def)
  from update_period_state_Inr [OF u ne] show ?thesis
    unfolding same ctx by (intro bexI [OF _ per(1)]) (use per unposted perms in simp)
qed

text \<open>
  C11. Retries are idempotent.  After a command has changed a period, sending the
  very same command again changes nothing and reports the first result as a replay,
  provided the actor may close periods when the target state is adjustment-only; but
  only when the reason was sent in trimmed form.  A padded reason is recorded trimmed
  and compared untrimmed, so its retry is refused.
\<close>

theorem period_retry_outcome:
  assumes "transition_fiscal_period env now gate c0 cmd T = Inr (res, T')" and "\<not> pres_replay res"
    and "distinct (map period_key (fiscal_periods T))" and "ctx_reason c0 = Some r"
    and "pc_to_state cmd = AdjustmentOnly \<longrightarrow>
      actor_has_active_permission (access T) (ctx_organization c0) (ctx_actor c0) ClosePeriod"
  shows "transition_fiscal_period env now' gate c0 cmd T' =
    (if trim r = r then Inr (res\<lparr>pres_replay := True\<rparr>, T') else Inl AlreadyUnderAnotherCommand)"
  by (rule retry_same_command [OF assms])

section \<open>An example\<close>

abbreviation "example_period \<equiv> ''d5b3c7a2-8e4f-4c19-a6b0-2f3e4d5c6b7a''"
abbreviation "example_sealed_period \<equiv> ''e6c4d8b3-9f50-4d2a-b7c1-3a4f5e6d7c8b''"

definition example_event :: "period_state \<Rightarrow> period_state \<Rightarrow> string \<Rightarrow> period_event" where
  "example_event old new request =
     \<lparr>pe_organization = example_org, pe_period = example_sealed_period, pe_from = old, pe_to = new,
      pe_reason = ''year end'', pe_actor = example_user, pe_request = request\<rparr>"

definition example_sealed :: period_row where
  "example_sealed = \<lparr>per_id = example_sealed_period, per_organization = example_org, per_state = Sealed, per_version = 4\<rparr>"

definition example_period_tables :: period_tables where
  "example_period_tables =
     \<lparr>fiscal_periods = [example_sealed,
        \<lparr>per_id = example_period, per_organization = example_org, per_state = PeriodOpen, per_version = 1\<rparr>],
      period_events = [example_event PeriodOpen AdjustmentOnly ''period:a'',
        example_event AdjustmentOnly HardClosed ''period:b'', example_event HardClosed Sealed ''period:c''],
      journal_heads = [], auth_sessions = [], access = example_tables\<rparr>"

definition example_command :: period_command where
  "example_command = \<lparr>pc_period = example_period, pc_expected_version = 1, pc_to_state = AdjustmentOnly,
     pc_idempotency_key = ''close-p-2''\<rparr>"

definition example_run :: "period_result \<times> period_tables" where
  "example_run =
     (case transition_fiscal_period example_environment 0 example_gate example_context example_command
        example_period_tables of Inr r \<Rightarrow> r
      | Inl _ \<Rightarrow> (\<lparr>pres_period = [], pres_state = Sealed, pres_version = 0, pres_replay = True\<rparr>,
          example_period_tables))"

lemma example_run_step:
  "transition_fiscal_period example_environment 0 example_gate example_context example_command
     example_period_tables = Inr example_run"
  by code_simp

lemma example_run_history: "period_history example_period_tables (snd example_run)"
  by (rule period_history.command [OF period_history.refl, of example_environment 0 example_gate
        example_context example_command _ "fst example_run"]) (simp add: example_run_step)

theorem period_events_explain_state_witness: "period_books_ok (snd example_run)"
  by (rule period_events_explain_state [OF example_run_history]) code_simp

theorem sealed_period_is_final_witness: "example_sealed \<in> set (fiscal_periods (snd example_run))"
  by (rule sealed_period_is_final [OF example_run_history]) code_simp+

theorem period_change_requirements_witness:
  "\<exists>p \<in> set (fiscal_periods example_period_tables).
     per_organization p = ctx_organization example_context \<and> per_id p = pc_period example_command
     \<and> per_version p = pc_expected_version example_command
     \<and> allowed_period_transition (per_state p) (pc_to_state example_command)
     \<and> (pc_to_state example_command \<in> {HardClosed, Sealed} \<longrightarrow>
          unposted_journals example_period_tables (ctx_organization example_context)
            (pc_period example_command) = 0)
     \<and> (pc_to_state example_command = Sealed \<longrightarrow>
          actor_has_active_permission (access example_period_tables)
            (ctx_organization example_context) (ctx_actor example_context) SealPeriod)
     \<and> (is_reopening (per_state p) (pc_to_state example_command) \<longrightarrow>
          actor_has_active_permission (access example_period_tables)
            (ctx_organization example_context) (ctx_actor example_context) ReopenPeriod)
     \<and> (is_reopening (per_state p) (pc_to_state example_command) \<or> pc_to_state example_command = Sealed \<longrightarrow>
          live_stepped_up_session example_period_tables 0 (ctx_organization example_context)
            (ctx_actor example_context) (ctx_session example_context))"
  by (rule period_change_requirements
        [where res = "fst example_run" and T' = "snd example_run" and env = example_environment
           and gate = example_gate]) (simp add: example_run_step, code_simp)

theorem period_retry_outcome_witness:
  "transition_fiscal_period example_environment 5 example_gate example_context example_command
     (snd example_run) =
    (if trim ''month end'' = ''month end''
     then Inr ((fst example_run)\<lparr>pres_replay := True\<rparr>, snd example_run)
     else Inl AlreadyUnderAnotherCommand)"
  by (rule period_retry_outcome [where T = example_period_tables and now = 0]) 
    (simp add: example_run_step, code_simp+)

end
