(* ===== verification/PostingEngine.thy ===== *)
theory PostingEngine
  imports PeriodControl
begin

text \<open>
  \<open>ledger/posting-engine.ts\<close> and \<open>posting-service.ts\<close>: posting one journal inside
  a tenant transaction.  The canonical content hash is computed by a function of the
  database and is the parameter \<open>hash_of\<close>; what the posting triggers of the
  database contribute, whether they accept the row and the number they allocate, is
  the parameter \<open>allocate\<close>.
\<close>

section \<open>Definitions\<close>

record journal_row =
  jr_id :: string
  jr_organization :: string
  jr_status :: journal_status
  jr_content_hash :: "string option"
  jr_approval_version :: "int option"
  jr_journal_number :: "int option"
  jr_type_key :: string
  jr_owner_module :: string

record posting_command =
  po_context :: tenant_context
  po_journal :: string
  po_expected_hash :: "string option"
  po_expected_approval :: "int option"
  po_required_owner :: "string option"
  po_required_type :: "string option"

record posting_result =
  por_journal :: string
  por_number :: int
  por_replay :: bool

datatype posting_error =
    PostingAccess access_error
  | MalformedExpectedHash
  | InvalidApprovalVersion
  | JournalNotFound
  | WrongOwnerModule string
  | WrongJournalType
  | UnpostableStatus journal_status
  | StaleVersion
  | InvalidDatabaseHash
  | StaleContentHash
  | PostedMetadataMismatch
  | PostingRejected
  | NumberAllocationFailed

definition max_safe_integer :: int where
  "max_safe_integer = 9007199254740991"

text \<open>\<open>/^[a-f0-9]{64}$/i\<close>\<close>

definition content_hash_pattern :: "string \<Rightarrow> bool" where
  "content_hash_pattern s \<longleftrightarrow> length s = 64 \<and>
     list_all (\<lambda>c. is_digit c \<or> char_between (CHR ''a'') (CHR ''f'') c
       \<or> char_between (CHR ''A'') (CHR ''F'') c) s"

definition normalize_expected_content_hash :: "string option \<Rightarrow> posting_error + string option" where
  "normalize_expected_content_hash v =
     (case v of
        None \<Rightarrow> Inr None
      | Some h \<Rightarrow>
          bindE (throw_if (\<not> content_hash_pattern h) MalformedExpectedHash) (\<lambda>_. Inr (Some (to_lower h))))"

definition lock_journal :: "journal_row list \<Rightarrow> string \<Rightarrow> string \<Rightarrow> posting_error + journal_row" where
  "lock_journal rows org jid =
     option_to_result JournalNotFound
       (List.find (\<lambda>r. jr_organization r = org \<and> jr_id r = jid) rows)"

definition compute_canonical_content_hash ::
  "(string \<Rightarrow> string option) \<Rightarrow> string \<Rightarrow> posting_error + string" where
  "compute_canonical_content_hash hash_of jid =
     (case hash_of jid of
        None \<Rightarrow> Inl InvalidDatabaseHash
      | Some h \<Rightarrow>
          bindE (throw_if (\<not> content_hash_pattern h) InvalidDatabaseHash) (\<lambda>_. Inr (to_lower h)))"

text \<open>
  \<open>UPDATE journal_entries SET status = 'POSTED', content_hash ... WHERE id,
  organization, status\<close> of the locked row: \<open>None\<close> when the triggers reject it.
\<close>

definition update_posted ::
  "(journal_row \<Rightarrow> int option) \<Rightarrow> journal_row list \<Rightarrow> journal_row \<Rightarrow> string
     \<Rightarrow> (int \<times> journal_row list) option" where
  "update_posted allocate rows journal h =
     (case allocate journal of
        None \<Rightarrow> None
      | Some n \<Rightarrow>
          Some (n, map (\<lambda>r. if jr_id r = jr_id journal \<and> jr_organization r = jr_organization journal
                              \<and> jr_status r = jr_status journal
                            then r\<lparr>jr_status := JPosted, jr_content_hash := Some h,
                                   jr_journal_number := Some n\<rparr> else r) rows))"

definition post_journal_in_transaction ::
  "(string \<Rightarrow> string option) \<Rightarrow> (journal_row \<Rightarrow> int option) \<Rightarrow> access_tables \<Rightarrow> posting_command
     \<Rightarrow> journal_row list \<Rightarrow> posting_error + posting_result \<times> journal_row list" where
  "post_journal_in_transaction hash_of allocate A cmd rows =
     (let c = po_context cmd in
      bindE (normalize_expected_content_hash (po_expected_hash cmd)) (\<lambda>expected_hash.
      bindE (throw_if (\<exists>v \<in> set_option (po_expected_approval cmd). v < 1 \<or> v > max_safe_integer)
        InvalidApprovalVersion) (\<lambda>_.
      bindE (map_errorE PostingAccess (assert_actor_has_active_permission A (ctx_organization c)
        (ctx_actor c) PostJournal)) (\<lambda>_.
      bindE (lock_journal rows (ctx_organization c) (po_journal cmd)) (\<lambda>journal.
      bindE (throw_if (po_required_owner cmd \<noteq> None \<and> po_required_owner cmd \<noteq> Some (jr_owner_module journal))
        (WrongOwnerModule (jr_owner_module journal))) (\<lambda>_.
      bindE (throw_if (po_required_type cmd \<noteq> None \<and> po_required_type cmd \<noteq> Some (jr_type_key journal))
        WrongJournalType) (\<lambda>_.
      bindE (throw_if (jr_status journal \<notin> {JDraft, JSubmitted, JApproved, JPosted})
        (UnpostableStatus (jr_status journal))) (\<lambda>_.
      bindE (throw_if (jr_status journal = JApproved \<and> po_expected_approval cmd = None) StaleVersion) (\<lambda>_.
      bindE (throw_if (po_expected_approval cmd \<noteq> None
          \<and> po_expected_approval cmd \<noteq> jr_approval_version journal) StaleVersion) (\<lambda>_.
      bindE (compute_canonical_content_hash hash_of (jr_id journal)) (\<lambda>content_hash.
      bindE (throw_if (expected_hash \<noteq> None \<and> expected_hash \<noteq> Some content_hash) StaleContentHash) (\<lambda>_.
      if jr_status journal = JPosted then
        (case jr_journal_number journal of
           None \<Rightarrow> Inl PostedMetadataMismatch
         | Some n \<Rightarrow>
             bindE (throw_if (map_option to_lower (jr_content_hash journal) \<noteq> Some content_hash)
               PostedMetadataMismatch) (\<lambda>_.
             Inr (\<lparr>por_journal = jr_id journal, por_number = n, por_replay = True\<rparr>, rows)))
      else
        bindE (option_to_result PostingRejected (update_posted allocate rows journal content_hash)) (\<lambda>(n, rows').
        bindE (throw_if (n \<le> 0 \<or> n > max_safe_integer) NumberAllocationFailed) (\<lambda>_.
        Inr (\<lparr>por_journal = jr_id journal, por_number = n, por_replay = False\<rparr>, rows')))))))))))))))"

definition post_journal ::
  "environment \<Rightarrow> transaction_gate \<Rightarrow> (string \<Rightarrow> string option) \<Rightarrow> (journal_row \<Rightarrow> int option)
     \<Rightarrow> access_tables \<Rightarrow> posting_command \<Rightarrow> journal_row list
     \<Rightarrow> posting_error + posting_result \<times> journal_row list" where
  "post_journal env gate hash_of allocate A cmd rows =
     bindE (map_errorE PostingAccess (assert_tenant_writes_enabled env (po_context cmd))) (\<lambda>_.
     bindE (map_errorE PostingAccess (begin_tenant_transaction gate (po_context cmd))) (\<lambda>_.
     bindE (map_errorE PostingAccess (assert_writable_organization env A (po_context cmd))) (\<lambda>_.
     post_journal_in_transaction hash_of allocate A
       (cmd\<lparr>po_required_owner := Some ''ledger'', po_required_type := Some ''ledger.manual''\<rparr>) rows)))"

section \<open>Lemmas\<close>

lemma upper_lower_hex: "to_lower (to_lower s) = to_lower s"
proof -
  have "\<not> is_upper (lower_char c)" for c
    by (auto simp: lower_char_def is_upper_def char_between_def)
  then have "lower_char (lower_char c) = lower_char c" for c
    by (simp add: lower_char_def [of "lower_char c"])
  then show ?thesis by (simp add: to_lower_def)
qed

text \<open>Everything a successful run has checked, and what it did.\<close>

lemma post_Inr:
  assumes "post_journal_in_transaction hash_of allocate A cmd rows = Inr (res, rows')"
  obtains journal h where
    "actor_has_active_permission A (ctx_organization (po_context cmd)) (ctx_actor (po_context cmd)) PostJournal"
    "List.find (\<lambda>r. jr_organization r = ctx_organization (po_context cmd) \<and> jr_id r = po_journal cmd) rows
       = Some journal"
    "po_required_owner cmd = None \<or> po_required_owner cmd = Some (jr_owner_module journal)"
    "po_required_type cmd = None \<or> po_required_type cmd = Some (jr_type_key journal)"
    "compute_canonical_content_hash hash_of (jr_id journal) = Inr h"
    "po_expected_hash cmd = None \<or> map_option to_lower (po_expected_hash cmd) = Some h"
    "jr_status journal = JApproved \<longrightarrow> po_expected_approval cmd \<noteq> None"
    "po_expected_approval cmd = None \<or> po_expected_approval cmd = jr_approval_version journal"
    "is_ok (normalize_expected_content_hash (po_expected_hash cmd))"
    "\<forall>v \<in> set_option (po_expected_approval cmd). 1 \<le> v \<and> v \<le> max_safe_integer"
    "jr_status journal = JPosted \<and> rows' = rows
        \<and> map_option to_lower (jr_content_hash journal) = Some h
        \<and> (\<exists>n. jr_journal_number journal = Some n
          \<and> res = \<lparr>por_journal = jr_id journal, por_number = n, por_replay = True\<rparr>)
     \<or> jr_status journal \<in> {JDraft, JSubmitted, JApproved}
        \<and> (\<exists>n. update_posted allocate rows journal h = Some (n, rows') \<and> 1 \<le> n \<and> n \<le> max_safe_integer
          \<and> res = \<lparr>por_journal = jr_id journal, por_number = n, por_replay = False\<rparr>)"
proof -
  have norm: "e = None \<and> po_expected_hash cmd = None
      \<or> (\<exists>h. po_expected_hash cmd = Some h \<and> e = Some (to_lower h))"
    if "normalize_expected_content_hash (po_expected_hash cmd) = Inr e" for e
    using that by (auto simp: normalize_expected_content_hash_def bindE_Inr_iff split: option.splits)
  obtain e journal h where
    steps: "normalize_expected_content_hash (po_expected_hash cmd) = Inr e"
      "\<forall>v \<in> set_option (po_expected_approval cmd). 1 \<le> v \<and> v \<le> max_safe_integer"
      "actor_has_active_permission A (ctx_organization (po_context cmd)) (ctx_actor (po_context cmd)) PostJournal"
      "List.find (\<lambda>r. jr_organization r = ctx_organization (po_context cmd) \<and> jr_id r = po_journal cmd) rows
         = Some journal"
      "po_required_owner cmd = None \<or> po_required_owner cmd = Some (jr_owner_module journal)"
      "po_required_type cmd = None \<or> po_required_type cmd = Some (jr_type_key journal)"
      "jr_status journal \<in> {JDraft, JSubmitted, JApproved, JPosted}"
      "\<not> (jr_status journal = JApproved \<and> po_expected_approval cmd = None)"
      "po_expected_approval cmd = None \<or> po_expected_approval cmd = jr_approval_version journal"
      "compute_canonical_content_hash hash_of (jr_id journal) = Inr h"
      "e = None \<or> e = Some h"
    and last: "(if jr_status journal = JPosted then
        (case jr_journal_number journal of
           None \<Rightarrow> Inl PostedMetadataMismatch
         | Some n \<Rightarrow>
             bindE (throw_if (map_option to_lower (jr_content_hash journal) \<noteq> Some h)
               PostedMetadataMismatch) (\<lambda>_.
             Inr (\<lparr>por_journal = jr_id journal, por_number = n, por_replay = True\<rparr>, rows)))
      else
        bindE (option_to_result PostingRejected (update_posted allocate rows journal h)) (\<lambda>(n, rows').
        bindE (throw_if (n \<le> 0 \<or> n > max_safe_integer) NumberAllocationFailed) (\<lambda>_.
        Inr (\<lparr>por_journal = jr_id journal, por_number = n, por_replay = False\<rparr>, rows'))))
      = Inr (res, rows')"
    using assms unfolding post_journal_in_transaction_def Let_def
    by (elim bindE_Inr_iff [THEN iffD1, THEN exE] conjE)
      (auto simp: bindE_Inr_iff throw_if_Inr_iff map_errorE_Inr_iff assert_permission_Inr_iff
        lock_journal_def option_to_result_Inr_iff not_less)
  have "jr_status journal = JPosted \<and> rows' = rows
        \<and> map_option to_lower (jr_content_hash journal) = Some h
        \<and> (\<exists>n. jr_journal_number journal = Some n
          \<and> res = \<lparr>por_journal = jr_id journal, por_number = n, por_replay = True\<rparr>)
     \<or> jr_status journal \<in> {JDraft, JSubmitted, JApproved}
        \<and> (\<exists>n. update_posted allocate rows journal h = Some (n, rows') \<and> 1 \<le> n \<and> n \<le> max_safe_integer
          \<and> res = \<lparr>por_journal = jr_id journal, por_number = n, por_replay = False\<rparr>)"
    using last steps(7)
    by (cases "jr_status journal = JPosted")
      (auto simp: bindE_Inr_iff throw_if_Inr_iff option_to_result_Inr_iff not_le not_less
        split: option.splits)
  moreover have "po_expected_hash cmd = None \<or> map_option to_lower (po_expected_hash cmd) = Some h"
    using norm [OF steps(1)] steps(11) by auto
  moreover have "is_ok (normalize_expected_content_hash (po_expected_hash cmd))"
    using steps(1) by (simp add: is_ok_iff)
  moreover have "jr_status journal = JApproved \<longrightarrow> po_expected_approval cmd \<noteq> None"
    using steps(8) by simp
  ultimately show ?thesis
    using that [of journal h] steps(2,3,4,5,6,9,10) by blast
qed

lemma update_posted_find:
  assumes f: "List.find (\<lambda>r. jr_organization r = org \<and> jr_id r = jid) rows = Some journal"
    and u: "update_posted allocate rows journal h = Some (n, rows')"
  shows "List.find (\<lambda>r. jr_organization r = org \<and> jr_id r = jid) rows'
    = Some (journal\<lparr>jr_status := JPosted, jr_content_hash := Some h, jr_journal_number := Some n\<rparr>)"
proof -
  let ?P = "\<lambda>r. jr_organization r = org \<and> jr_id r = jid"
  let ?g = "\<lambda>r. if jr_id r = jr_id journal \<and> jr_organization r = jr_organization journal
      \<and> jr_status r = jr_status journal
    then r\<lparr>jr_status := JPosted, jr_content_hash := Some h, jr_journal_number := Some n\<rparr> else r"
  have rows': "rows' = map ?g rows"
    using u by (auto simp: update_posted_def split: option.splits)
  have "List.find ?P (map ?g xs) = map_option ?g (List.find ?P xs)" for xs :: "journal_row list"
    by (induction xs) auto
  then show ?thesis using f by (simp add: rows')
qed

lemma retry_post:
  assumes t: "post_journal_in_transaction hash_of allocate A cmd rows = Inr (res, rows')"
  shows "post_journal_in_transaction hash_of allocate' A cmd rows' = Inr (res\<lparr>por_replay := True\<rparr>, rows')"
  using t
proof (cases rule: post_Inr)
  case (1 journal h)
  let ?posted = "\<lambda>n. journal\<lparr>jr_status := JPosted, jr_content_hash := Some h, jr_journal_number := Some n\<rparr>"
  have low: "to_lower h = h"
    using 1(5) by (auto simp: compute_canonical_content_hash_def bindE_Inr_iff upper_lower_hex split: option.splits)
  obtain j n where j: "List.find (\<lambda>r. jr_organization r = ctx_organization (po_context cmd)
        \<and> jr_id r = po_journal cmd) rows' = Some j"
    "jr_id j = jr_id journal" "jr_status j = JPosted" "jr_journal_number j = Some n"
    "map_option to_lower (jr_content_hash j) = Some h" "jr_owner_module j = jr_owner_module journal"
    "jr_type_key j = jr_type_key journal" "jr_approval_version j = jr_approval_version journal"
    "res\<lparr>por_replay := True\<rparr> = \<lparr>por_journal = jr_id journal, por_number = n, por_replay = True\<rparr>"
    using 1(11)
  proof (elim disjE conjE exE)
    fix n assume "jr_status journal = JPosted" "rows' = rows" "jr_journal_number journal = Some n"
      "map_option to_lower (jr_content_hash journal) = Some h"
      "res = \<lparr>por_journal = jr_id journal, por_number = n, por_replay = True\<rparr>"
    then show ?thesis using 1(2) by (intro that [of journal n]) auto
  next
    fix n assume "update_posted allocate rows journal h = Some (n, rows')"
      "res = \<lparr>por_journal = jr_id journal, por_number = n, por_replay = False\<rparr>"
    then show ?thesis using update_posted_find [OF 1(2)] low by (intro that [of "?posted n" n]) auto
  qed
  obtain e where e: "normalize_expected_content_hash (po_expected_hash cmd) = Inr e" "e = None \<or> e = Some h"
    using 1(6,9) by (auto simp: normalize_expected_content_hash_def is_ok_iff bindE_Inr_iff split: option.splits)
  have range: "\<not> (\<exists>v \<in> set_option (po_expected_approval cmd). v < 1 \<or> v > max_safe_integer)"
    using 1(10) by fastforce
  have "throw_if (\<exists>v \<in> set_option (po_expected_approval cmd). v < 1 \<or> v > max_safe_integer)
      InvalidApprovalVersion = Inr ()"
    using range unfolding throw_if_Inr_iff .
  then show ?thesis
    using 1(1,3,4,5,7,8) e j
    unfolding post_journal_in_transaction_def Let_def
    by (auto simp: throw_if_def assert_actor_has_active_permission_def lock_journal_def)
qed

section \<open>Properties\<close>

text \<open>
  C15. What posting requires.  When a journal is posted, the actor held the posting
  permission, the journal was a draft, submitted or approved one of the actor's
  organization, an approved one was posted at the approval version the caller had
  seen, the content hash the caller expected (if any) is the canonical one, and the
  update writes that hash, the status and the allocated positive number into this
  journal and into no other row.
\<close>

theorem posting_requirements:
  assumes "post_journal_in_transaction hash_of allocate A cmd rows = Inr (res, rows')"
    and "\<not> por_replay res" and "distinct (map (\<lambda>r. (jr_organization r, jr_id r)) rows)"
  shows "\<exists>journal h. journal \<in> set rows \<and> jr_id journal = po_journal cmd
    \<and> jr_organization journal = ctx_organization (po_context cmd)
    \<and> actor_has_active_permission A (ctx_organization (po_context cmd)) (ctx_actor (po_context cmd)) PostJournal
    \<and> jr_status journal \<in> {JDraft, JSubmitted, JApproved}
    \<and> (jr_status journal = JApproved \<longrightarrow> po_expected_approval cmd \<noteq> None
        \<and> po_expected_approval cmd = jr_approval_version journal)
    \<and> compute_canonical_content_hash hash_of (jr_id journal) = Inr h
    \<and> (po_expected_hash cmd = None \<or> map_option to_lower (po_expected_hash cmd) = Some h)
    \<and> 1 \<le> por_number res
    \<and> rows' = map (\<lambda>r. if r = journal then r\<lparr>jr_status := JPosted, jr_content_hash := Some h,
          jr_journal_number := Some (por_number res)\<rparr> else r) rows"
  using assms(1)
proof (cases rule: post_Inr)
  case (1 journal h)
  then obtain n where n: "jr_status journal \<in> {JDraft, JSubmitted, JApproved}"
    "update_posted allocate rows journal h = Some (n, rows')" "1 \<le> n" "por_number res = n"
    using assms(2) by auto
  have j: "journal \<in> set rows" "jr_id journal = po_journal cmd"
    "jr_organization journal = ctx_organization (po_context cmd)"
    using 1(2) by (auto simp: find_Some_iff)
  have same: "r = journal" if "r \<in> set rows" "jr_id r = jr_id journal" "jr_organization r = jr_organization journal" for r
    using assms(3) j(1) that unfolding distinct_map inj_on_def by auto
  have "rows' = map (\<lambda>r. if jr_id r = jr_id journal \<and> jr_organization r = jr_organization journal
      \<and> jr_status r = jr_status journal then r\<lparr>jr_status := JPosted, jr_content_hash := Some h,
          jr_journal_number := Some n\<rparr> else r) rows"
    using n(2) by (auto simp: update_posted_def split: option.splits)
  also have "\<dots> = map (\<lambda>r. if r = journal then r\<lparr>jr_status := JPosted, jr_content_hash := Some h,
          jr_journal_number := Some n\<rparr> else r) rows"
    using same by (intro map_cong) auto
  finally show ?thesis using 1 n j by (intro exI [where x = journal] exI [where x = h]) auto
qed

text \<open>
  C16. Posting is idempotent.  A command that succeeded can be sent again, whatever
  the database would allocate by then: it changes nothing and returns the same
  journal number as a replay.
\<close>

theorem posting_is_idempotent:
  assumes "post_journal_in_transaction hash_of allocate A cmd rows = Inr (res, rows')"
  shows "post_journal_in_transaction hash_of allocate' A cmd rows' = Inr (res\<lparr>por_replay := True\<rparr>, rows')"
  by (rule retry_post [OF assms])

section \<open>An example\<close>

definition example_hash :: "string \<Rightarrow> string option" where
  "example_hash jid = (if jid = ''j-1'' then Some (replicate 64 CHR ''B'') else None)"

definition example_rows :: "journal_row list" where
  "example_rows = [\<lparr>jr_id = ''j-1'', jr_organization = example_org, jr_status = JApproved,
     jr_content_hash = None, jr_approval_version = Some 3, jr_journal_number = None,
     jr_type_key = ''ledger.manual'', jr_owner_module = ''ledger''\<rparr>]"

definition example_posting :: posting_command where
  "example_posting = \<lparr>po_context = example_context, po_journal = ''j-1'',
     po_expected_hash = Some (replicate 64 CHR ''b''), po_expected_approval = Some 3,
     po_required_owner = None, po_required_type = None\<rparr>"

definition example_posted :: "posting_result \<times> journal_row list" where
  "example_posted = (\<lparr>por_journal = ''j-1'', por_number = 42, por_replay = False\<rparr>,
     map (\<lambda>r. r\<lparr>jr_status := JPosted, jr_content_hash := Some (replicate 64 CHR ''b''),
       jr_journal_number := Some 42\<rparr>) example_rows)"

lemma example_posting_runs:
  "post_journal_in_transaction example_hash (\<lambda>_. Some 42) example_tables example_posting example_rows
     = Inr example_posted"
  by code_simp

theorem posting_requirements_witness:
  "\<exists>journal h. journal \<in> set example_rows \<and> jr_id journal = po_journal example_posting
    \<and> jr_organization journal = ctx_organization (po_context example_posting)
    \<and> actor_has_active_permission example_tables (ctx_organization (po_context example_posting))
        (ctx_actor (po_context example_posting)) PostJournal
    \<and> jr_status journal \<in> {JDraft, JSubmitted, JApproved}
    \<and> (jr_status journal = JApproved \<longrightarrow> po_expected_approval example_posting \<noteq> None
        \<and> po_expected_approval example_posting = jr_approval_version journal)
    \<and> compute_canonical_content_hash example_hash (jr_id journal) = Inr h
    \<and> (po_expected_hash example_posting = None
        \<or> map_option to_lower (po_expected_hash example_posting) = Some h)
    \<and> 1 \<le> por_number (fst example_posted)
    \<and> snd example_posted = map (\<lambda>r. if r = journal then r\<lparr>jr_status := JPosted, jr_content_hash := Some h,
          jr_journal_number := Some (por_number (fst example_posted))\<rparr> else r) example_rows"
  by (rule posting_requirements [where allocate = "\<lambda>_. Some 42"])
    (simp add: example_posting_runs, code_simp, code_simp)

theorem posting_is_idempotent_witness:
  "post_journal_in_transaction example_hash (\<lambda>_. None) example_tables example_posting (snd example_posted)
     = Inr ((fst example_posted)\<lparr>por_replay := True\<rparr>, snd example_posted)"
  by (rule posting_is_idempotent [where allocate = "\<lambda>_. Some 42" and rows = example_rows])
    (simp add: example_posting_runs)

end
