(* ===== verification/DecimalApi.thy ===== *)
theory DecimalApi
  imports Prelude "HOL-Library.Log_Nat"
begin

text \<open>
  The interface to \<open>decimal.js\<close>, the third-party arithmetic the program computes
  money with.  The package is not part of the repository, so its operations are
  a parameter of the model: a record \<open>decimal_api\<close> of the operations the source
  calls, passed to every definition that computes with decimals.

  The locale \<open>decimal_lib\<close> states what the package documents and the program
  relies on.  \<open>val\<close> reads the value of a finite decimal as a rational number and
  \<open>rnd\<close> is the rounding to the configured precision (\<open>kernel/money.ts\<close> sets
  \<open>precision: 50\<close>, \<open>ROUND_HALF_UP\<close>): a result that fits into 50 significant
  digits is exact, rounding is monotone and symmetric.  \<open>toDecimalPlaces\<close> and
  \<open>toFixed\<close> round half away from zero at a number of decimal places and ignore
  the precision.  The last section instantiates the interface with a concrete
  decimal arithmetic, which the witnesses of the development compute with.
\<close>

section \<open>Decimal text\<close>

definition digit_value :: "char \<Rightarrow> int" where
  "digit_value c = int (of_char c) - 48"

lemma digit_value_code [code]:
  "digit_value (Char b0 b1 b2 b3 b4 b5 b6 b7) =
     (if b4 \<and> b5 \<and> \<not> b6 \<and> \<not> b7
      then (if b3 then 8 else 0) + (if b2 then 4 else 0) + (if b1 then 2 else 0) + (if b0 then 1 else 0)
      else int (of_char (Char b0 b1 b2 b3 b4 b5 b6 b7)) - 48)"
  by (cases b0; cases b1; cases b2; cases b3; simp add: digit_value_def)

definition digits_value :: "string \<Rightarrow> int" where
  "digits_value s = foldl (\<lambda>n c. 10 * n + digit_value c) 0 s"

definition all_digits :: "string \<Rightarrow> bool" where
  "all_digits s \<longleftrightarrow> s \<noteq> [] \<and> list_all is_digit s"

text \<open>The value of \<open>/^\d+(\.\d+)?$/\<close>, the plain notation without a sign.\<close>

definition unsigned_value :: "string \<Rightarrow> rat option" where
  "unsigned_value s =
     (let w = takeWhile is_digit s; r = dropWhile is_digit s
      in if w = [] then None
         else case r of
             [] \<Rightarrow> Some (of_int (digits_value w))
           | c # f \<Rightarrow>
               if c = CHR ''.'' \<and> all_digits f
               then Some (of_int (digits_value w) + of_int (digits_value f) / 10 ^ length f)
               else None)"

definition plain_value :: "string \<Rightarrow> rat option" where
  "plain_value s =
     (case s of
        [] \<Rightarrow> None
      | c # t \<Rightarrow> if c = CHR ''-'' then map_option uminus (unsigned_value t) else unsigned_value s)"

section \<open>Rounding\<close>

definition half_up :: "nat \<Rightarrow> rat \<Rightarrow> rat" where
  "half_up n q = sgn q * of_int \<lfloor>\<bar>q\<bar> * 10 ^ n + 1 / 2\<rfloor> / 10 ^ n"

text \<open>\<open>scaled n q\<close>: \<open>q\<close> has at most \<open>n\<close> decimal places.\<close>

definition scaled :: "nat \<Rightarrow> rat \<Rightarrow> bool" where
  "scaled n q \<longleftrightarrow> (\<exists>c::int. q = of_int c / 10 ^ n)"

text \<open>\<open>fits q\<close>: \<open>q\<close> has at most 50 significant digits (and a moderate exponent).\<close>

definition fits :: "rat \<Rightarrow> bool" where
  "fits q \<longleftrightarrow> (\<exists>(c::int) k. \<bar>c\<bar> \<le> 10 ^ 50 \<and> k \<le> 1000 \<and> q = of_int c / 10 ^ k)"

lemma scaledI: "q = of_int c / 10 ^ n \<Longrightarrow> scaled n q"
  by (auto simp: scaled_def)

lemma scaled_of_int [simp, intro]: "scaled n (of_int c)"
  by (rule scaledI [where c = "c * 10 ^ n"]) simp

lemma scaled_zero [simp, intro]: "scaled n 0"
  using scaled_of_int [of n 0] by simp

lemma scaled_one [simp, intro]: "scaled n 1"
  using scaled_of_int [of n 1] by simp

lemma scaled_numeral [simp, intro]: "scaled n (numeral k)"
  using scaled_of_int [of n "numeral k"] by simp

lemma scaled_le:
  assumes "scaled m q" "m \<le> n" shows "scaled n q"
proof -
  obtain c where q: "q = of_int c / 10 ^ m" using assms(1) by (auto simp: scaled_def)
  have "(10::rat) ^ n = 10 ^ m * 10 ^ (n - m)" using assms(2) by (simp flip: power_add)
  then show ?thesis by (intro scaledI [where c = "c * 10 ^ (n - m)"]) (simp add: q)
qed

lemma scaled_add [intro]:
  assumes "scaled n p" "scaled n q" shows "scaled n (p + q)"
proof -
  obtain a b where "p = of_int a / 10 ^ n" "q = of_int b / 10 ^ n"
    using assms by (auto simp: scaled_def)
  then show ?thesis by (intro scaledI [where c = "a + b"]) (simp add: add_divide_distrib)
qed

lemma scaled_uminus [intro]: "scaled n q \<Longrightarrow> scaled n (- q)"
  unfolding scaled_def by (metis minus_divide_left of_int_minus)

lemma scaled_uminus_iff [simp]: "scaled n (- q) = scaled n q"
  using scaled_uminus [of n q] scaled_uminus [of n "- q"] by auto

lemma scaled_diff [intro]: "scaled n p \<Longrightarrow> scaled n q \<Longrightarrow> scaled n (p - q)"
  using scaled_add [of n p "- q"] by auto

lemma scaled_abs [intro]: "scaled n q \<Longrightarrow> scaled n \<bar>q\<bar>"
  by (auto simp: abs_if)

lemma scaled_mult:
  assumes "scaled m p" "scaled n q" shows "scaled (m + n) (p * q)"
proof -
  obtain a b where "p = of_int a / 10 ^ m" "q = of_int b / 10 ^ n"
    using assms by (auto simp: scaled_def)
  then show ?thesis by (intro scaledI [where c = "a * b"]) (simp add: power_add)
qed

lemma scaled_sum_list: "(\<And>x. x \<in> set xs \<Longrightarrow> scaled n x) \<Longrightarrow> scaled n (sum_list xs)"
  by (induction xs) (auto intro: scaled_add)

lemma abs_sum_list_bound:
  fixes xs :: "rat list"
  shows "(\<And>x. x \<in> set xs \<Longrightarrow> \<bar>x\<bar> \<le> b) \<Longrightarrow> \<bar>sum_list xs\<bar> \<le> of_nat (length xs) * b"
proof (induction xs)
  case (Cons x xs)
  have "\<bar>x + sum_list xs\<bar> \<le> \<bar>x\<bar> + \<bar>sum_list xs\<bar>" by (rule abs_triangle_ineq)
  also have "\<dots> \<le> b + of_nat (length xs) * b" using Cons by (intro add_mono) auto
  finally show ?case by (simp add: algebra_simps)
qed simp

lemma fits_scaled:
  assumes "scaled n q" "\<bar>q\<bar> \<le> 10 ^ m" "m + n \<le> 50" shows "fits q"
proof -
  obtain c where q: "q = of_int c / 10 ^ n" using assms(1) by (auto simp: scaled_def)
  have "\<bar>of_int c :: rat\<bar> \<le> 10 ^ m * 10 ^ n" using assms(2) by (simp add: q pos_divide_le_eq)
  also have "\<dots> = 10 ^ (m + n)" by (simp add: power_add)
  also have "\<dots> \<le> 10 ^ 50" using assms(3) by (intro power_increasing) auto
  finally have "of_int \<bar>c\<bar> \<le> (of_int (10 ^ 50) :: rat)" by simp
  then have "\<bar>c\<bar> \<le> 10 ^ 50" using of_int_le_iff by blast
  moreover have "n \<le> 1000" using assms(3) by simp
  ultimately show ?thesis using q unfolding fits_def by blast
qed

lemma fits_int: "\<bar>c\<bar> \<le> 10 ^ 50 \<Longrightarrow> fits (of_int c)"
  unfolding fits_def by (intro exI [where x = c] exI [where x = 0]) simp

lemma fits_zero [simp]: "fits 0"
  using fits_int [of 0] by simp

lemma fits_uminus [simp]: "fits (- q) = fits q"
proof -
  have *: "fits (- r)" if r: "fits r" for r
  proof -
    obtain c k where "\<bar>c\<bar> \<le> 10 ^ 50" "k \<le> 1000" "r = of_int c / 10 ^ k"
      using r unfolding fits_def by blast
    then show ?thesis unfolding fits_def
      by (intro exI [where x = "- c"] exI [where x = k]) simp
  qed
  show ?thesis using * [of q] * [of "- q"] by auto
qed

lemma half_up_scaled [simp, intro]: "scaled n (half_up n q)"
proof -
  have "half_up n q = of_int ((if q < 0 then -1 else if q = 0 then 0 else 1) *
      \<lfloor>\<bar>q\<bar> * 10 ^ n + 1 / 2\<rfloor>) / 10 ^ n"
    by (simp add: half_up_def sgn_if)
  then show ?thesis by (rule scaledI)
qed

lemma half_up_id: assumes "scaled n q" shows "half_up n q = q"
proof -
  obtain c where q: "q = of_int c / 10 ^ n" using assms by (auto simp: scaled_def)
  have "\<bar>q\<bar> * 10 ^ n = of_int \<bar>c\<bar>" by (simp add: q)
  then have "\<lfloor>\<bar>q\<bar> * 10 ^ n + 1 / 2\<rfloor> = \<bar>c\<bar>" by (intro floor_unique) simp_all
  moreover have "sgn q * of_int \<bar>c\<bar> = of_int c"
    by (simp add: q sgn_if zero_less_divide_iff abs_if)
  ultimately show ?thesis by (simp add: half_up_def q)
qed

lemma half_up_eq_iff: "half_up n q = q \<longleftrightarrow> scaled n q"
  by (metis half_up_id half_up_scaled)

lemma half_up_zero [simp]: "half_up n 0 = 0"
  by (simp add: half_up_def)

lemma half_up_uminus [simp]: "half_up n (- q) = - half_up n q"
  by (simp add: half_up_def sgn_if)

lemma half_up_nonneg_mono:
  assumes "0 \<le> p" "p \<le> q" shows "half_up n p \<le> half_up n q"
proof (cases "p = 0")
  case True
  then show ?thesis using assms
    by (auto simp: half_up_def sgn_if intro!: divide_nonneg_pos)
next
  case False
  have "\<lfloor>p * 10 ^ n + 1 / 2\<rfloor> \<le> \<lfloor>q * 10 ^ n + 1 / 2\<rfloor>"
    using assms by (intro floor_mono add_mono mult_right_mono) auto
  then show ?thesis using assms False
    by (simp add: half_up_def sgn_if divide_right_mono)
qed

lemma half_up_nonneg: "0 \<le> q \<Longrightarrow> 0 \<le> half_up n q"
  using half_up_nonneg_mono [of 0 q n] by simp

lemma half_up_mono: assumes "p \<le> q" shows "half_up n p \<le> half_up n q"
proof (cases "0 \<le> p")
  case True
  then show ?thesis using assms by (rule half_up_nonneg_mono)
next
  case False
  show ?thesis
  proof (cases "0 \<le> q")
    case True
    have "0 \<le> half_up n (- p)" using False by (intro half_up_nonneg) simp
    moreover have "0 \<le> half_up n q" using True by (rule half_up_nonneg)
    ultimately show ?thesis by simp
  next
    case neg: False
    have "half_up n (- q) \<le> half_up n (- p)"
      using neg assms by (intro half_up_nonneg_mono) auto
    then show ?thesis by simp
  qed
qed

lemma half_up_pow_bound: assumes "\<bar>q\<bar> \<le> 10 ^ m" shows "\<bar>half_up n q\<bar> \<le> 10 ^ m"
proof -
  have pow: "half_up n (10 ^ m) = 10 ^ m"
    using scaled_of_int [of n "10 ^ m"] by (intro half_up_id) simp
  have "half_up n q \<le> half_up n (10 ^ m)" and "half_up n (- (10 ^ m)) \<le> half_up n q"
    using assms by (intro half_up_mono; simp)+
  then show ?thesis using pow by (simp add: abs_le_iff)
qed

lemma half_up_error: "\<bar>half_up n q - q\<bar> \<le> 1 / (2 * 10 ^ n)"
proof -
  have pos: "\<bar>half_up n r - r\<bar> \<le> 1 / (2 * 10 ^ n)" if "0 < r" for r
  proof -
    let ?f = "\<lfloor>r * 10 ^ n + 1 / 2\<rfloor>"
    have "of_int ?f \<le> r * 10 ^ n + 1 / 2" "r * 10 ^ n + 1 / 2 < of_int ?f + 1"
      using floor_correct [of "r * 10 ^ n + 1 / 2"] by simp_all
    then have "\<bar>of_int ?f - r * 10 ^ n\<bar> \<le> 1 / 2" by linarith
    then have "\<bar>of_int ?f - r * 10 ^ n\<bar> / 10 ^ n \<le> (1 / 2) / 10 ^ n"
      by (rule divide_right_mono) simp
    moreover have "half_up n r - r = (of_int ?f - r * 10 ^ n) / 10 ^ n"
      using that by (simp add: half_up_def field_simps)
    ultimately show ?thesis by (simp add: abs_divide)
  qed
  consider "q = 0" | "0 < q" | "0 < - q" by linarith
  then show ?thesis
  proof cases
    case 3
    from pos [OF this] show ?thesis by simp
  qed (use pos in auto)
qed


section \<open>The operations and their documented behaviour\<close>

record 'd decimal_api =
  dec_new :: "string \<Rightarrow> 'd option"
  dec_int :: "int \<Rightarrow> 'd"
  dec_finite :: "'d \<Rightarrow> bool"
  dec_plus :: "'d \<Rightarrow> 'd \<Rightarrow> 'd"
  dec_minus :: "'d \<Rightarrow> 'd \<Rightarrow> 'd"
  dec_times :: "'d \<Rightarrow> 'd \<Rightarrow> 'd"
  dec_div :: "'d \<Rightarrow> 'd \<Rightarrow> 'd"
  dec_pow :: "'d \<Rightarrow> int \<Rightarrow> 'd"
  dec_neg :: "'d \<Rightarrow> 'd"
  dec_abs :: "'d \<Rightarrow> 'd"
  dec_min :: "'d \<Rightarrow> 'd \<Rightarrow> 'd"
  dec_max :: "'d \<Rightarrow> 'd \<Rightarrow> 'd"
  dec_eq :: "'d \<Rightarrow> 'd \<Rightarrow> bool"
  dec_gt :: "'d \<Rightarrow> 'd \<Rightarrow> bool"
  dec_ge :: "'d \<Rightarrow> 'd \<Rightarrow> bool"
  dec_is_zero :: "'d \<Rightarrow> bool"
  dec_is_neg :: "'d \<Rightarrow> bool"
  dec_is_pos :: "'d \<Rightarrow> bool"
  dec_places :: "nat \<Rightarrow> 'd \<Rightarrow> 'd"
  dec_fixed :: "nat \<Rightarrow> 'd \<Rightarrow> string"
  dec_plain :: "'d \<Rightarrow> string"

text \<open>
  \<open>dec_new\<close> is \<open>new Decimal(text)\<close> (\<open>None\<close>: it throws), \<open>dec_int\<close> is \<open>new
  Decimal(n)\<close> of an integer literal, \<open>dec_places n\<close> is \<open>toDecimalPlaces(n,
  ROUND_HALF_UP)\<close>, \<open>dec_fixed n\<close> is \<open>toFixed(n)\<close> and \<open>dec_plain\<close> is \<open>toFixed()\<close>.
  \<open>lessThan\<close> and \<open>lessThanOrEqualTo\<close> are \<open>dec_gt\<close> and \<open>dec_ge\<close> with the
  arguments swapped.  Nothing is assumed of text that is not in plain notation,
  of operations on values that are not finite, or of the sign of a zero (the
  package has a negative zero).
\<close>

locale decimal_lib =
  fixes D :: "'d decimal_api" and val :: "'d \<Rightarrow> rat" and rnd :: "rat \<Rightarrow> rat"
  assumes rnd_fits: "fits q \<Longrightarrow> rnd q = q"
    and rnd_mono: "p \<le> q \<Longrightarrow> rnd p \<le> rnd q"
    and rnd_uminus: "rnd (- q) = - rnd q"
    and new_plain: "plain_value s = Some q \<Longrightarrow>
      \<exists>d. dec_new D s = Some d \<and> dec_finite D d \<and> val d = q"
    and int_fin: "dec_finite D (dec_int D i)" and int_val: "val (dec_int D i) = of_int i"
    and plus_fin: "dec_finite D a \<Longrightarrow> dec_finite D b \<Longrightarrow> dec_finite D (dec_plus D a b)"
    and plus_val: "dec_finite D a \<Longrightarrow> dec_finite D b \<Longrightarrow>
      val (dec_plus D a b) = rnd (val a + val b)"
    and minus_fin: "dec_finite D a \<Longrightarrow> dec_finite D b \<Longrightarrow> dec_finite D (dec_minus D a b)"
    and minus_val: "dec_finite D a \<Longrightarrow> dec_finite D b \<Longrightarrow>
      val (dec_minus D a b) = rnd (val a - val b)"
    and times_fin: "dec_finite D a \<Longrightarrow> dec_finite D b \<Longrightarrow> dec_finite D (dec_times D a b)"
    and times_val: "dec_finite D a \<Longrightarrow> dec_finite D b \<Longrightarrow>
      val (dec_times D a b) = rnd (val a * val b)"
    and div_fin: "dec_finite D a \<Longrightarrow> dec_finite D b \<Longrightarrow> val b \<noteq> 0 \<Longrightarrow>
      dec_finite D (dec_div D a b)"
    and div_val: "dec_finite D a \<Longrightarrow> dec_finite D b \<Longrightarrow> val b \<noteq> 0 \<Longrightarrow>
      val (dec_div D a b) = rnd (val a / val b)"
    and pow_fin: "dec_finite D a \<Longrightarrow> val a \<noteq> 0 \<Longrightarrow> fits (val a powi i) \<Longrightarrow>
      dec_finite D (dec_pow D a i)"
    and pow_val: "dec_finite D a \<Longrightarrow> val a \<noteq> 0 \<Longrightarrow> fits (val a powi i) \<Longrightarrow>
      val (dec_pow D a i) = val a powi i"
    and neg_fin: "dec_finite D a \<Longrightarrow> dec_finite D (dec_neg D a)"
    and neg_val: "dec_finite D a \<Longrightarrow> val (dec_neg D a) = - val a"
    and abs_fin: "dec_finite D a \<Longrightarrow> dec_finite D (dec_abs D a)"
    and abs_val: "dec_finite D a \<Longrightarrow> val (dec_abs D a) = \<bar>val a\<bar>"
    and min_fin: "dec_finite D a \<Longrightarrow> dec_finite D b \<Longrightarrow> dec_finite D (dec_min D a b)"
    and min_val: "dec_finite D a \<Longrightarrow> dec_finite D b \<Longrightarrow>
      val (dec_min D a b) = min (val a) (val b)"
    and max_fin: "dec_finite D a \<Longrightarrow> dec_finite D b \<Longrightarrow> dec_finite D (dec_max D a b)"
    and max_val: "dec_finite D a \<Longrightarrow> dec_finite D b \<Longrightarrow>
      val (dec_max D a b) = max (val a) (val b)"
    and eq_iff: "dec_finite D a \<Longrightarrow> dec_finite D b \<Longrightarrow> dec_eq D a b \<longleftrightarrow> val a = val b"
    and gt_iff: "dec_finite D a \<Longrightarrow> dec_finite D b \<Longrightarrow> dec_gt D a b \<longleftrightarrow> val a > val b"
    and ge_iff: "dec_finite D a \<Longrightarrow> dec_finite D b \<Longrightarrow> dec_ge D a b \<longleftrightarrow> val a \<ge> val b"
    and zero_iff: "dec_finite D a \<Longrightarrow> dec_is_zero D a \<longleftrightarrow> val a = 0"
    and neg_iff: "dec_finite D a \<Longrightarrow> val a \<noteq> 0 \<Longrightarrow> dec_is_neg D a \<longleftrightarrow> val a < 0"
    and pos_iff: "dec_finite D a \<Longrightarrow> val a \<noteq> 0 \<Longrightarrow> dec_is_pos D a \<longleftrightarrow> val a > 0"
    and places_fin: "dec_finite D a \<Longrightarrow> dec_finite D (dec_places D n a)"
    and places_val: "dec_finite D a \<Longrightarrow> val (dec_places D n a) = half_up n (val a)"
    and fixed_value: "dec_finite D a \<Longrightarrow> plain_value (dec_fixed D n a) = Some (half_up n (val a))"
    and plain_value_plain: "dec_finite D a \<Longrightarrow> plain_value (dec_plain D a) = Some (val a)"
begin

lemmas dec_fin [simp, intro] =
  int_fin plus_fin minus_fin times_fin div_fin neg_fin abs_fin min_fin max_fin places_fin

lemmas dec_val [simp] = int_val neg_val abs_val min_val max_val places_val

lemmas dec_test [simp] = eq_iff gt_iff ge_iff zero_iff neg_iff pos_iff

lemma rnd_zero [simp]: "rnd 0 = 0"
  by (rule rnd_fits) simp

lemma rnd_nonneg: "0 \<le> q \<Longrightarrow> 0 \<le> rnd q"
  using rnd_mono [of 0 q] by simp

lemma rnd_nonpos: "q \<le> 0 \<Longrightarrow> rnd q \<le> 0"
  using rnd_mono [of q 0] by simp

lemma rnd_pow_bound: assumes "\<bar>q\<bar> \<le> 10 ^ m" "m \<le> 50" shows "\<bar>rnd q\<bar> \<le> 10 ^ m"
proof -
  have "fits (10 ^ m)"
    using assms(2) by (intro fits_scaled [of 0 _ m]) (use scaled_of_int [of 0 "10 ^ m"] in auto)
  then have m: "rnd (10 ^ m) = 10 ^ m" "rnd (- (10 ^ m)) = - (10 ^ m)"
    by (auto intro: rnd_fits)
  have "rnd q \<le> rnd (10 ^ m)" "rnd (- (10 ^ m)) \<le> rnd q"
    using assms(1) by (intro rnd_mono; simp)+
  then show ?thesis using m by (simp add: abs_le_iff)
qed

lemma plus_exact: "dec_finite D a \<Longrightarrow> dec_finite D b \<Longrightarrow> fits (val a + val b) \<Longrightarrow>
    val (dec_plus D a b) = val a + val b"
  by (simp add: plus_val rnd_fits)

lemma minus_exact: "dec_finite D a \<Longrightarrow> dec_finite D b \<Longrightarrow> fits (val a - val b) \<Longrightarrow>
    val (dec_minus D a b) = val a - val b"
  by (simp add: minus_val rnd_fits)

lemma times_exact: "dec_finite D a \<Longrightarrow> dec_finite D b \<Longrightarrow> fits (val a * val b) \<Longrightarrow>
    val (dec_times D a b) = val a * val b"
  by (simp add: times_val rnd_fits)

lemma new_fixed: "dec_finite D a \<Longrightarrow>
    \<exists>d. dec_new D (dec_fixed D n a) = Some d \<and> dec_finite D d \<and> val d = half_up n (val a)"
  by (rule new_plain [OF fixed_value])

lemma new_plain_text: "dec_finite D a \<Longrightarrow>
    \<exists>d. dec_new D (dec_plain D a) = Some d \<and> dec_finite D d \<and> val d = val a"
  by (rule new_plain [OF plain_value_plain])

end

end
