(* ===== verification/DecimalRef.thy ===== *)
theory DecimalRef
  imports DecimalApi
begin

text \<open>
  A concrete decimal arithmetic with the documented behaviour of \<open>decimal.js\<close> at
  50 significant digits: the instance of the interface that the witnesses of the
  development compute with.  It is not a model of code of the repository.  A
  finite value is an integer coefficient with a number of decimal places.
\<close>

section \<open>Rounding to 50 significant digits\<close>

text \<open>The number of decimal digits of a positive integer.\<close>

function digits10 :: "int \<Rightarrow> nat" where
  "digits10 x = (if x < 10 then 1 else Suc (digits10 (x div 10)))"
  by pat_completeness auto
termination by (relation "measure nat") auto

declare digits10.simps [simp del]

lemma digits10_skip: "10 ^ n \<le> x \<Longrightarrow> digits10 x = n + digits10 (x div 10 ^ n)"
proof (induction n arbitrary: x)
  case (Suc n)
  have "(1::int) \<le> 10 ^ n" by simp
  then have big: "10 \<le> x" using Suc.prems unfolding power_Suc by linarith
  have "10 ^ n \<le> x div 10" using zdiv_mono1 [OF Suc.prems, of 10] by simp
  then have "digits10 (x div 10) = n + digits10 (x div 10 div 10 ^ n)" by (rule Suc.IH)
  then show ?case using big by (simp add: digits10.simps [of x] zdiv_zmult2_eq)
qed simp

lemma digits10_code [code]:
  "digits10 x =
     (if x < 10 then 1 else if x < 100000000 then Suc (digits10 (x div 10))
      else 8 + digits10 (x div 100000000))"
  using digits10_skip [of 8 x] digits10.simps [of x] by simp

lemma digits10_pos: "0 < digits10 x"
  by (subst digits10.simps) simp

lemma digits10_bounds: "0 < x \<Longrightarrow> 10 ^ (digits10 x - 1) \<le> x \<and> x < 10 ^ digits10 x"
proof (induction x rule: digits10.induct)
  case (1 x)
  show ?case
  proof (cases "x < 10")
    case True
    then show ?thesis using "1.prems" by (simp add: digits10.simps [of x])
  next
    case False
    let ?d = "digits10 (x div 10)"
    have IH: "10 ^ (?d - 1) \<le> x div 10" "x div 10 < 10 ^ ?d"
      using False 1 by auto
    have "10 * (x div 10) \<le> x" "x < 10 * (x div 10) + 10" by presburger+
    moreover have "(10::int) ^ ?d = 10 * 10 ^ (?d - 1)"
      using digits10_pos [of "x div 10"] by (cases ?d) auto
    ultimately have "10 ^ ?d \<le> x" "x < 10 * 10 ^ ?d" using IH by linarith+
    then show ?thesis using False by (simp add: digits10.simps [of x])
  qed
qed

text \<open>\<open>magnitude q\<close> is the exponent of the leading digit of \<open>q\<close>.\<close>

definition magnitude :: "rat \<Rightarrow> int" where
  "magnitude q =
     (let n = digits10 \<bar>fst (quotient_of q)\<bar>; d = digits10 (snd (quotient_of q));
          e = int n - int d
      in if 10 powi e \<le> \<bar>q\<bar> then e else e - 1)"

definition coefficient :: "rat \<Rightarrow> int" where
  "coefficient q = \<lfloor>\<bar>q\<bar> * 10 powi (49 - magnitude q) + 1 / 2\<rfloor>"

text \<open>Evaluation computes both on the numerator and the denominator.\<close>

lemma magnitude_code [code]:
  "magnitude q =
     (case quotient_of q of (n, d) \<Rightarrow>
        let e = int (digits10 \<bar>n\<bar>) - int (digits10 d)
        in if (if 0 \<le> e then 10 ^ nat e * d \<le> \<bar>n\<bar> else d \<le> \<bar>n\<bar> * 10 ^ nat (- e)) then e else e - 1)"
proof -
  obtain n d where nd: "quotient_of q = (n, d)" by (cases "quotient_of q")
  have q: "q = of_int n / of_int d" and d: "0 < d"
    using nd quotient_of_div quotient_of_denom_pos by auto
  have "(10 powi e \<le> \<bar>q\<bar>) = (if 0 \<le> e then 10 ^ nat e * d \<le> \<bar>n\<bar> else d \<le> \<bar>n\<bar> * 10 ^ nat (- e))" for e
  proof (cases "0 \<le> e")
    case True
    have "(10 powi e \<le> \<bar>q\<bar>) = (of_int (10 ^ nat e * d) \<le> (of_int \<bar>n\<bar> :: rat))"
      using True d by (simp add: q abs_divide pos_le_divide_eq power_int_def)
    then show ?thesis using True by (simp only: of_int_le_iff if_True)
  next
    case False
    have "(10 powi e \<le> \<bar>q\<bar>) = (of_int d \<le> (of_int (\<bar>n\<bar> * 10 ^ nat (- e)) :: rat))"
      using False d by (simp add: q abs_divide power_int_def field_simps)
    then show ?thesis using False by (simp only: of_int_le_iff if_False)
  qed
  then show ?thesis by (simp add: magnitude_def nd Let_def)
qed

lemma coefficient_code [code]:
  "coefficient q =
     (case quotient_of q of (n, d) \<Rightarrow>
        let s = 49 - magnitude q
        in if 0 \<le> s then (2 * \<bar>n\<bar> * 10 ^ nat s + d) div (2 * d)
           else (2 * \<bar>n\<bar> + d * 10 ^ nat (- s)) div (2 * d * 10 ^ nat (- s)))"
proof -
  obtain n d where nd: "quotient_of q = (n, d)" by (cases "quotient_of q")
  have q: "q = of_int n / of_int d" and d: "0 < d"
    using nd quotient_of_div quotient_of_denom_pos by auto
  have "\<lfloor>\<bar>q\<bar> * 10 powi s + 1 / 2\<rfloor> = (if 0 \<le> s then (2 * \<bar>n\<bar> * 10 ^ nat s + d) div (2 * d)
      else (2 * \<bar>n\<bar> + d * 10 ^ nat (- s)) div (2 * d * 10 ^ nat (- s)))" for s
  proof (cases "0 \<le> s")
    case True
    have "\<bar>q\<bar> * 10 powi s + 1 / 2 = of_int (2 * \<bar>n\<bar> * 10 ^ nat s + d) / of_int (2 * d)"
      using True d by (simp add: q abs_divide power_int_def field_simps)
    then show ?thesis using True by (simp only: floor_divide_of_int_eq if_True)
  next
    case False
    have "\<bar>q\<bar> * 10 powi s + 1 / 2 = of_int (2 * \<bar>n\<bar> + d * 10 ^ nat (- s)) / of_int (2 * d * 10 ^ nat (- s))"
      using False d by (simp add: q abs_divide power_int_def field_simps)
    then show ?thesis using False by (simp only: floor_divide_of_int_eq if_False)
  qed
  then show ?thesis by (simp add: coefficient_def nd Let_def)
qed

definition rnd50 :: "rat \<Rightarrow> rat" where
  "rnd50 q = (if q = 0 then 0 else sgn q * of_int (coefficient q) * 10 powi (magnitude q - 49))"

lemma digits10_rat_bounds:
  assumes "0 < (x::int)"
  shows "(10::rat) powi (int (digits10 x) - 1) \<le> of_int x"
    and "of_int x < (10::rat) powi int (digits10 x)"
proof -
  let ?l = "digits10 x"
  have "(of_int (10 ^ (?l - 1)) :: rat) \<le> of_int x" "(of_int x :: rat) < of_int (10 ^ ?l)"
    using digits10_bounds [OF assms] by (simp_all only: of_int_le_iff of_int_less_iff)
  then have "(10::rat) ^ (?l - 1) \<le> of_int x" "(of_int x :: rat) < 10 ^ ?l"
    by simp_all
  moreover have "(10::rat) powi (int ?l - 1) = 10 ^ (?l - 1)"
  proof -
    have "int ?l - 1 = int (?l - 1)" using digits10_pos [of x] by linarith
    then show ?thesis by (simp only: power_int_of_nat)
  qed
  ultimately show "(10::rat) powi (int ?l - 1) \<le> of_int x" "of_int x < (10::rat) powi int ?l"
    by simp_all
qed

lemma powi_le_iff: "(10::rat) powi a \<le> 10 powi b \<longleftrightarrow> a \<le> b"
proof
  assume le: "(10::rat) powi a \<le> 10 powi b"
  show "a \<le> b"
  proof (rule ccontr)
    assume "\<not> a \<le> b"
    then have "(10::rat) powi b < 10 powi a" by (intro power_int_strict_increasing) auto
    with le show False by simp
  qed
qed (simp add: power_int_increasing)

lemma magnitude_bounds:
  assumes "q \<noteq> 0"
  shows "10 powi magnitude q \<le> \<bar>q\<bar>" and "\<bar>q\<bar> < 10 powi (magnitude q + 1)"
proof -
  obtain n d where nd: "quotient_of q = (n, d)" by (cases "quotient_of q")
  have q: "q = of_int n / of_int d" and d: "0 < d"
    using nd quotient_of_div quotient_of_denom_pos by auto
  have n: "0 < \<bar>n\<bar>" using assms q by auto
  let ?n = "int (digits10 \<bar>n\<bar>)" and ?d = "int (digits10 d)"
  note bn = digits10_rat_bounds [OF n] and bd = digits10_rat_bounds [OF d]
  have absq: "\<bar>q\<bar> = of_int \<bar>n\<bar> / of_int d" using d by (simp add: q)
  have upper: "\<bar>q\<bar> < 10 powi (?n - ?d + 1)"
  proof -
    have "of_int \<bar>n\<bar> < (10::rat) powi (?n - ?d + 1) * 10 powi (?d - 1)"
      using bn(2) by (simp flip: power_int_add)
    also have "\<dots> \<le> 10 powi (?n - ?d + 1) * of_int d"
      using bd(1) by (intro mult_left_mono) auto
    finally show ?thesis using d by (simp add: absq pos_divide_less_eq)
  qed
  have lower: "10 powi (?n - ?d - 1) \<le> \<bar>q\<bar>"
  proof -
    have "(10::rat) powi (?n - ?d - 1) * of_int d \<le> 10 powi (?n - ?d - 1) * 10 powi ?d"
      using bd(2) by (intro mult_left_mono) auto
    also have "\<dots> = 10 powi (?n - 1)"
      using power_int_add [of "10::rat" "?n - ?d - 1" ?d] by simp
    also have "\<dots> \<le> of_int \<bar>n\<bar>" by (rule bn(1))
    finally show ?thesis using d by (simp add: absq pos_le_divide_eq)
  qed
  show "10 powi magnitude q \<le> \<bar>q\<bar>" "\<bar>q\<bar> < 10 powi (magnitude q + 1)"
    using upper lower by (auto simp: magnitude_def nd Let_def not_le)
qed

lemma magnitude_uminus [simp]: "magnitude (- q) = magnitude q"
proof (cases "q = 0")
  case False
  have "10 powi magnitude q < (10::rat) powi (magnitude (- q) + 1)"
    "10 powi magnitude (- q) < (10::rat) powi (magnitude q + 1)"
    using magnitude_bounds [of q] magnitude_bounds [of "- q"] False by linarith+
  then have "\<not> magnitude (- q) + 1 \<le> magnitude q" "\<not> magnitude q + 1 \<le> magnitude (- q)"
    unfolding not_le [symmetric] powi_le_iff by auto
  then show ?thesis by linarith
qed simp

lemma rnd50_uminus: "rnd50 (- q) = - rnd50 q"
  by (simp add: rnd50_def coefficient_def sgn_if)

lemma coefficient_bounds:
  assumes "q \<noteq> 0" shows "10 ^ 49 \<le> coefficient q" and "coefficient q \<le> 10 ^ 50"
proof -
  let ?s = "(10::rat) powi (49 - magnitude q)"
  have lo: "10 ^ 49 \<le> \<bar>q\<bar> * ?s"
  proof -
    have "(10::rat) powi magnitude q * ?s \<le> \<bar>q\<bar> * ?s"
      using magnitude_bounds [OF assms] by (intro mult_right_mono) auto
    then show ?thesis by (simp flip: power_int_add)
  qed
  have hi: "\<bar>q\<bar> * ?s < 10 ^ 50"
  proof -
    have "\<bar>q\<bar> * ?s < 10 powi (magnitude q + 1) * ?s"
      using magnitude_bounds [OF assms] by (intro mult_strict_right_mono) auto
    then show ?thesis by (simp flip: power_int_add)
  qed
  have "of_int (10 ^ 49) \<le> \<bar>q\<bar> * ?s + 1 / 2" using lo by simp
  then show "10 ^ 49 \<le> coefficient q" unfolding coefficient_def le_floor_iff .
  have "\<bar>q\<bar> * ?s + 1 / 2 < of_int (10 ^ 50) + 1" using hi by simp
  then show "coefficient q \<le> 10 ^ 50" unfolding coefficient_def floor_le_iff .
qed

lemma rnd50_bounds:
  assumes "0 < q" shows "10 powi magnitude q \<le> rnd50 q" and "rnd50 q \<le> 10 powi (magnitude q + 1)"
proof -
  have q: "q \<noteq> 0" using assms by simp
  let ?s = "(10::rat) powi (magnitude q - 49)"
  have r: "rnd50 q = of_int (coefficient q) * ?s" using assms by (simp add: rnd50_def)
  have c: "(of_int (10 ^ 49) :: rat) \<le> of_int (coefficient q)"
    "(of_int (coefficient q) :: rat) \<le> of_int (10 ^ 50)"
    using coefficient_bounds [OF q] by (simp_all only: of_int_le_iff)
  have s: "of_int (10 ^ 49) * ?s = 10 powi (magnitude q)"
    "of_int (10 ^ 50) * ?s = 10 powi (magnitude q + 1)"
    using power_int_add [of "10::rat" 49 "magnitude q - 49"]
      power_int_add [of "10::rat" 50 "magnitude q - 49"] by (simp_all add: add.commute)
  show "10 powi magnitude q \<le> rnd50 q" unfolding r s(1) [symmetric]
    by (rule mult_right_mono [OF c(1)]) simp
  show "rnd50 q \<le> 10 powi (magnitude q + 1)" unfolding r s(2) [symmetric]
    by (rule mult_right_mono [OF c(2)]) simp
qed

lemma rnd50_mono_pos: assumes "0 < p" "p \<le> q" shows "rnd50 p \<le> rnd50 q"
proof -
  have q: "0 < q" using assms by simp
  have "(10::rat) powi magnitude p < 10 powi (magnitude q + 1)"
    using magnitude_bounds [of p] magnitude_bounds [of q] assms q by simp
  then have "magnitude p \<le> magnitude q"
    using powi_le_iff [of "magnitude q + 1" "magnitude p"] by linarith
  then consider "magnitude p = magnitude q" | "magnitude p + 1 \<le> magnitude q" by linarith
  then show ?thesis
  proof cases
    case 1
    have "coefficient p \<le> coefficient q"
      using assms q unfolding coefficient_def 1
      by (intro floor_mono add_mono mult_right_mono) auto
    then show ?thesis using assms q 1 by (simp add: rnd50_def mult_right_mono)
  next
    case 2
    have "rnd50 p \<le> 10 powi (magnitude p + 1)" using rnd50_bounds assms by blast
    also have "\<dots> \<le> 10 powi magnitude q" using 2 by (simp only: powi_le_iff)
    also have "\<dots> \<le> rnd50 q" using rnd50_bounds q by blast
    finally show ?thesis .
  qed
qed

lemma rnd50_pos: "0 < q \<Longrightarrow> 0 < rnd50 q"
  by (rule less_le_trans [OF _ rnd50_bounds(1)]) auto

lemma rnd50_mono: assumes "p \<le> q" shows "rnd50 p \<le> rnd50 q"
proof -
  have zero: "rnd50 0 = 0" by (simp add: rnd50_def)
  consider "0 < p" | "q < 0" | "p \<le> 0" "0 \<le> q" by linarith
  then show ?thesis
  proof cases
    case 1
    then show ?thesis using assms by (rule rnd50_mono_pos)
  next
    case 2
    then have "rnd50 (- q) \<le> rnd50 (- p)" using assms by (intro rnd50_mono_pos) auto
    then show ?thesis by (simp add: rnd50_uminus)
  next
    case 3
    have "rnd50 p \<le> 0" using 3 rnd50_pos [of "- p"] zero by (cases "p = 0") (auto simp: rnd50_uminus)
    moreover have "0 \<le> rnd50 q" using 3 rnd50_pos [of q] zero by (cases "q = 0") auto
    ultimately show ?thesis by simp
  qed
qed

lemma rnd50_fits: assumes "fits q" shows "rnd50 q = q"
proof (cases "q = 0")
  case False
  obtain c k where c: "\<bar>c\<bar> \<le> 10 ^ 50" and q: "q = of_int c / 10 ^ k"
    using assms by (auto simp: fits_def)
  let ?E = "magnitude q"
  have scale: "\<bar>q\<bar> * 10 powi (49 - ?E) = of_int \<bar>c\<bar> * 10 powi (49 - ?E - int k)"
    by (simp add: q power_int_diff abs_divide)
  have "\<exists>i::int. \<bar>q\<bar> * 10 powi (49 - ?E) = of_int i"
  proof (cases "int k \<le> 49 - ?E")
    case True
    then have "(10::rat) powi (49 - ?E - int k) = of_int (10 ^ nat (49 - ?E - int k))"
      by (simp add: power_int_def)
    then show ?thesis unfolding scale by (metis of_int_mult)
  next
    case less: False
    have "10 powi ?E * 10 ^ k \<le> \<bar>q\<bar> * 10 ^ k"
      using magnitude_bounds [OF False] by (intro mult_right_mono) auto
    then have *: "10 powi (?E + int k) \<le> (of_int \<bar>c\<bar> :: rat)"
      by (simp add: q abs_divide power_int_add)
    also have "of_int \<bar>c\<bar> \<le> (10::rat) powi 50" using c of_int_le_iff [where 'a = rat] by fastforce
    finally have "?E + int k \<le> 50" by (simp only: powi_le_iff)
    with less have eq: "?E + int k = 50" by simp
    with * have "(10::rat) ^ 50 \<le> of_int \<bar>c\<bar>" by simp
    then have "of_int (10 ^ 50) \<le> (of_int \<bar>c\<bar> :: rat)" by simp
    then have "\<bar>c\<bar> = 10 ^ 50" using c by (simp only: of_int_le_iff)
    then have "\<bar>q\<bar> * 10 powi (49 - ?E) = of_int (10 ^ 49)"
      unfolding scale using eq by (simp add: diff_diff_eq power_int_def)
    then show ?thesis by blast
  qed
  then obtain i :: int where i: "\<bar>q\<bar> * 10 powi (49 - ?E) = of_int i" by blast
  have "coefficient q = i" unfolding coefficient_def i by (intro floor_unique) auto
  then have "rnd50 q = sgn q * (\<bar>q\<bar> * 10 powi (49 - ?E)) * 10 powi (?E - 49)"
    using False i by (simp add: rnd50_def)
  also have "\<dots> = sgn q * \<bar>q\<bar> * (10 powi (49 - ?E) * 10 powi (?E - 49))" by (simp add: mult.assoc)
  also have "\<dots> = q" by (simp add: sgn_mult_abs flip: power_int_add)
  finally show ?thesis .
qed (simp add: rnd50_def)


section \<open>Printing and parsing\<close>

definition digit_char :: "nat \<Rightarrow> char" where
  "digit_char n = char_of (48 + n)"

lemma digit_char_code [code]:
  "digit_char n =
     (if n < 10
      then (if n < 5 then if n < 2 then if n = 0 then CHR ''0'' else CHR ''1''
                          else if n = 2 then CHR ''2'' else if n = 3 then CHR ''3'' else CHR ''4''
            else if n < 7 then if n = 5 then CHR ''5'' else CHR ''6''
                 else if n = 7 then CHR ''7'' else if n = 8 then CHR ''8'' else CHR ''9'')
      else char_of (48 + n))"
proof (cases "n < 10")
  case True
  then have "n \<in> {0, 1, 2, 3, 4, 5, 6, 7, 8, 9}" by auto
  then show ?thesis by (auto simp: digit_char_def char_of_def bit_iff_odd)
qed (simp add: digit_char_def)

text \<open>Digits of a non-negative integer.\<close>

function nat_text :: "int \<Rightarrow> string" where
  "nat_text n =
     (if n < 10 then [digit_char (nat n)] else nat_text (n div 10) @ [digit_char (nat (n mod 10))])"
  by pat_completeness auto
termination by (relation "measure nat") auto

declare nat_text.simps [simp del]

definition padded_text :: "nat \<Rightarrow> int \<Rightarrow> string" where
  "padded_text k n = (let t = nat_text n in replicate (k - length t) (CHR ''0'') @ t)"

text \<open>\<open>m / 10 ^ k\<close> in plain notation with exactly \<open>k\<close> decimal places.\<close>

definition unsigned_text :: "nat \<Rightarrow> int \<Rightarrow> string" where
  "unsigned_text k m =
     (if k = 0 then nat_text m
      else nat_text (m div 10 ^ k) @ ''.'' @ padded_text k (m mod 10 ^ k))"

definition fixed_text :: "bool \<Rightarrow> nat \<Rightarrow> int \<Rightarrow> string" where
  "fixed_text neg k m = (if neg then ''-'' else []) @ unsigned_text k m"

lemma digit_char: "n < 10 \<Longrightarrow> is_digit (digit_char n)" "n < 10 \<Longrightarrow> digit_value (digit_char n) = int n"
  by (simp_all add: digit_char_def is_digit_def char_between_def digit_value_def)

lemma digits_value_append:
  "digits_value (s @ t) = digits_value s * 10 ^ length t + digits_value t"
proof (induction t rule: rev_induct)
  case (snoc c t)
  then show ?case by (simp add: digits_value_def algebra_simps flip: append_assoc)
qed (simp add: digits_value_def)

lemma digits_value_nat_text: "0 \<le> n \<Longrightarrow> digits_value (nat_text n) = n"
proof (induction n rule: nat_text.induct)
  case (1 n)
  show ?case
  proof (cases "n < 10")
    case True
    then show ?thesis using "1.prems"
      by (simp add: nat_text.simps [of n] digits_value_def digit_char nat_less_iff)
  next
    case False
    then have "digits_value (nat_text n) = n div 10 * 10 + n mod 10"
      using 1 by (simp add: nat_text.simps [of n] digits_value_append)
        (simp add: digits_value_def digit_char nat_less_iff)
    also have "\<dots> = n" by simp
    finally show ?thesis .
  qed
qed

lemma nat_text_digits: "list_all is_digit (nat_text n) \<and> nat_text n \<noteq> []"
proof (induction n rule: nat_text.induct)
  case (1 n)
  then show ?case by (simp add: nat_text.simps [of n] digit_char nat_less_iff)
qed

lemma nat_text_length: "n < 10 ^ k \<Longrightarrow> 0 < k \<Longrightarrow> length (nat_text n) \<le> k"
proof (induction n arbitrary: k rule: nat_text.induct)
  case (1 n)
  show ?case
  proof (cases "n < 10")
    case True
    then show ?thesis using 1 by (simp add: nat_text.simps [of n])
  next
    case False
    have "k \<noteq> 1" using False "1.prems" by auto
    then obtain k' where k: "k = Suc k'" "0 < k'"
      using "1.prems" by (cases k) auto
    have "n div 10 < 10 ^ k'" using 1 k by (simp add: div_less_iff_less_mult mult.commute)
    then show ?thesis using False 1 k by (simp add: nat_text.simps [of n])
  qed
qed

lemma digits_value_zeros: "digits_value (replicate k (CHR ''0'') @ s) = digits_value s"
  by (induction k) (simp_all add: digits_value_def digit_value_def)

lemma padded_text:
  assumes "n < 10 ^ k" "0 < k" "0 \<le> n"
  shows "digits_value (padded_text k n) = n" "length (padded_text k n) = k"
    "all_digits (padded_text k n)"
  using assms(3) nat_text_length [OF assms(1,2)] nat_text_digits [of n]
  by (auto simp: padded_text_def Let_def digits_value_zeros digits_value_nat_text all_digits_def
      list_all_iff is_digit_def char_between_def set_replicate_conv_if)

lemma takeWhile_digits:
  assumes "list_all is_digit w" "r = [] \<or> \<not> is_digit (hd r)"
  shows "takeWhile is_digit (w @ r) = w" "dropWhile is_digit (w @ r) = r"
  using assms by (induction w) (cases r; auto)+

lemma unsigned_value_text: "0 \<le> m \<Longrightarrow> unsigned_value (unsigned_text k m) = Some (of_int m / 10 ^ k)"
proof (cases "k = 0")
  case True
  assume "0 \<le> m"
  then show ?thesis
    using True takeWhile_digits [of "nat_text m" "[]"] nat_text_digits [of m]
    by (simp add: unsigned_text_def unsigned_value_def digits_value_nat_text Let_def
        del: takeWhile_eq_all_conv dropWhile_eq_Nil_conv)
next
  case False
  assume m: "0 \<le> m"
  let ?w = "nat_text (m div 10 ^ k)" and ?f = "padded_text k (m mod 10 ^ k)"
  have dot: "\<not> is_digit (CHR ''.'')" by (simp add: is_digit_def char_between_def)
  have f: "digits_value ?f = m mod 10 ^ k" "length ?f = k" "all_digits ?f"
    using padded_text [of "m mod 10 ^ k" k] False by simp_all
  have "unsigned_value (unsigned_text k m)
      = Some (of_int (digits_value ?w) + of_int (digits_value ?f) / 10 ^ k)"
    using takeWhile_digits [of ?w "''.'' @ ?f"] nat_text_digits [of "m div 10 ^ k"] False f dot
    by (simp add: unsigned_text_def unsigned_value_def Let_def)
  also have "of_int (digits_value ?w) + of_int (digits_value ?f) / 10 ^ k = (of_int m / 10 ^ k :: rat)"
  proof -
    have "(of_int m :: rat) = of_int (m div 10 ^ k * 10 ^ k + m mod 10 ^ k)"
      by (simp only: div_mult_mod_eq)
    also have "\<dots> = of_int (m div 10 ^ k) * 10 ^ k + of_int (m mod 10 ^ k)"
      by (simp only: of_int_add of_int_mult of_int_power of_int_numeral)
    finally show ?thesis using m
      by (simp add: f digits_value_nat_text add_divide_distrib pos_imp_zdiv_nonneg_iff)
  qed
  finally show ?thesis .
qed

lemma hd_unsigned_text: "unsigned_text k m \<noteq> [] \<and> hd (unsigned_text k m) \<noteq> CHR ''-''"
proof -
  have minus: "\<not> is_digit (CHR ''-'')" by (simp add: is_digit_def char_between_def)
  have "hd (nat_text n) \<noteq> CHR ''-'' \<and> nat_text n \<noteq> []" for n
    using nat_text_digits [of n] minus by (cases "nat_text n") auto
  then show ?thesis by (auto simp: unsigned_text_def hd_append)
qed

lemma plain_value_text:
  "0 \<le> m \<Longrightarrow>
    plain_value (fixed_text neg k m) = Some ((if neg then -1 else 1) * (of_int m / 10 ^ k))"
  using unsigned_value_text [of m k] hd_unsigned_text [of k m]
  by (cases "unsigned_text k m") (auto simp: fixed_text_def plain_value_def)

section \<open>The instance\<close>

datatype dec = Fin int nat | NonFinite

fun ref_val :: "dec \<Rightarrow> rat" where
  "ref_val (Fin c k) = of_int c / 10 ^ k"
| "ref_val NonFinite = 0"

fun ref_finite :: "dec \<Rightarrow> bool" where
  "ref_finite (Fin c k) = True"
| "ref_finite NonFinite = False"

text \<open>
  A decimal whose value is \<open>q\<close> rounded to 50 digits, and the same for a quotient of
  integers, with a short cut for quotients of at most 18 decimal places.
\<close>

definition ref_make :: "rat \<Rightarrow> dec" where
  "ref_make q =
     (if q = 0 then Fin 0 0
      else let m = (if q < 0 then - coefficient q else coefficient q); s = 49 - magnitude q
           in if 0 \<le> s then Fin m (nat s) else Fin (m * 10 ^ nat (- s)) 0)"

definition ref_quot :: "int \<Rightarrow> int \<Rightarrow> dec" where
  "ref_quot n d =
     (let x = n * 1000000000000000000; c = x div d
      in if c * d = x \<and> \<bar>c\<bar> \<le> 100000000000000000000000000000000000000000000000000 then Fin c 18
         else ref_make (of_int n / of_int d))"

fun ref_new :: "string \<Rightarrow> dec option" where
  "ref_new s = (case plain_value s of
      None \<Rightarrow> None
    | Some q \<Rightarrow> Some (Fin \<lfloor>q * 10 ^ length s\<rfloor> (length s)))"

fun ref_plus :: "dec \<Rightarrow> dec \<Rightarrow> dec" where
  "ref_plus (Fin a i) (Fin b j) =
     (if i = j then ref_quot (a + b) (10 ^ i) else ref_quot (a * 10 ^ j + b * 10 ^ i) (10 ^ (i + j)))"
| "ref_plus _ _ = NonFinite"

fun ref_neg :: "dec \<Rightarrow> dec" where
  "ref_neg (Fin c k) = Fin (- c) k"
| "ref_neg NonFinite = NonFinite"

fun ref_times :: "dec \<Rightarrow> dec \<Rightarrow> dec" where
  "ref_times (Fin a i) (Fin b j) = ref_quot (a * b) (10 ^ (i + j))"
| "ref_times _ _ = NonFinite"

fun ref_div :: "dec \<Rightarrow> dec \<Rightarrow> dec" where
  "ref_div (Fin a i) (Fin b j) = (if b = 0 then NonFinite else ref_quot (a * 10 ^ j) (b * 10 ^ i))"
| "ref_div _ _ = NonFinite"

text \<open>A comparison of integers applied to two decimals at a common scale.\<close>

fun ref_test :: "(int \<Rightarrow> int \<Rightarrow> bool) \<Rightarrow> dec \<Rightarrow> dec \<Rightarrow> bool" where
  "ref_test p (Fin a i) (Fin b j) = (if i = j then p a b else p (a * 10 ^ j) (b * 10 ^ i))"
| "ref_test p _ _ = False"

fun ref_sign :: "(int \<Rightarrow> bool) \<Rightarrow> dec \<Rightarrow> bool" where
  "ref_sign p (Fin c k) = p c"
| "ref_sign p NonFinite = False"

fun ref_abs :: "dec \<Rightarrow> dec" where
  "ref_abs (Fin c k) = Fin \<bar>c\<bar> k"
| "ref_abs NonFinite = NonFinite"

definition ref_pick :: "(int \<Rightarrow> int \<Rightarrow> bool) \<Rightarrow> dec \<Rightarrow> dec \<Rightarrow> dec" where
  "ref_pick p a b =
     (if ref_finite a \<and> ref_finite b then (if ref_test p a b then a else b) else NonFinite)"

text \<open>The nearest multiple of \<open>10 ^ -n\<close>, halves away from zero, as an integer.\<close>

definition half_up_int :: "nat \<Rightarrow> int \<Rightarrow> nat \<Rightarrow> int" where
  "half_up_int n c k = sgn c * ((2 * \<bar>c\<bar> * 10 ^ n + 10 ^ k) div (2 * 10 ^ k))"

fun ref_places :: "nat \<Rightarrow> dec \<Rightarrow> dec" where
  "ref_places n (Fin c k) = Fin (half_up_int n c k) n"
| "ref_places n NonFinite = NonFinite"

fun ref_fixed :: "nat \<Rightarrow> dec \<Rightarrow> string" where
  "ref_fixed n (Fin c k) = fixed_text (c < 0) n \<bar>half_up_int n c k\<bar>"
| "ref_fixed n NonFinite = ''NaN''"

fun strip_zeros :: "int \<Rightarrow> nat \<Rightarrow> int \<times> nat" where
  "strip_zeros c 0 = (c, 0)"
| "strip_zeros c (Suc k) = (if c mod 10 = 0 then strip_zeros (c div 10) k else (c, Suc k))"

lemma strip_zeros_skip: "strip_zeros (c * 10 ^ n) (n + k) = strip_zeros c k"
proof (induction n)
  case (Suc n)
  have "c * 10 ^ Suc n = c * 10 ^ n * 10" by simp
  then have "strip_zeros (c * 10 ^ Suc n) (Suc (n + k)) = strip_zeros (c * 10 ^ n) (n + k)"
    by (simp only: strip_zeros.simps mod_mult_self2_is_0 if_True) simp
  then show ?case using Suc by simp
qed simp

lemma strip_zeros_code [code]:
  "strip_zeros c k =
     (if 6 \<le> k \<and> c mod 1000000 = 0 then strip_zeros (c div 1000000) (k - 6)
      else if k = 0 then (c, 0)
      else if c mod 10 = 0 then strip_zeros (c div 10) (k - 1) else (c, k))"
proof (cases "6 \<le> k \<and> c mod 1000000 = 0")
  case True
  then have "c div 1000000 * 10 ^ 6 = c" by auto
  then have "strip_zeros c k = strip_zeros (c div 1000000) (k - 6)"
    using strip_zeros_skip [of "c div 1000000" 6 "k - 6"] True by simp
  then show ?thesis using True by simp
next
  case False
  then show ?thesis by (cases k) auto
qed

fun ref_plain :: "dec \<Rightarrow> string" where
  "ref_plain (Fin c k) = (case strip_zeros c k of (m, n) \<Rightarrow> fixed_text (m < 0) n \<bar>m\<bar>)"
| "ref_plain NonFinite = ''NaN''"

definition ref_api :: "dec decimal_api" where
  "ref_api = \<lparr>
     dec_new = ref_new,
     dec_int = (\<lambda>i. Fin i 0),
     dec_finite = ref_finite,
     dec_plus = ref_plus,
     dec_minus = (\<lambda>a b. ref_plus a (ref_neg b)),
     dec_times = ref_times,
     dec_div = ref_div,
     dec_pow = (\<lambda>a i. if ref_finite a then ref_make (ref_val a powi i) else NonFinite),
     dec_neg = ref_neg,
     dec_abs = ref_abs,
     dec_min = ref_pick (\<le>),
     dec_max = ref_pick (\<ge>),
     dec_eq = ref_test (=),
     dec_gt = ref_test (>),
     dec_ge = ref_test (\<ge>),
     dec_is_zero = ref_sign (\<lambda>c. c = 0),
     dec_is_neg = ref_sign (\<lambda>c. c < 0),
     dec_is_pos = ref_sign (\<lambda>c. 0 \<le> c),
     dec_places = ref_places,
     dec_fixed = ref_fixed,
     dec_plain = ref_plain\<rparr>"

lemma ref_make: "ref_val (ref_make q) = rnd50 q \<and> ref_finite (ref_make q)"
proof (cases "q = 0")
  case False
  let ?m = "if q < 0 then - coefficient q else coefficient q"
  have "rnd50 q = of_int ?m * 10 powi (magnitude q - 49)"
    using False by (simp add: rnd50_def)
  moreover have "10 powi (magnitude q - 49) = 1 / (10::rat) ^ nat (49 - magnitude q)"
    if "0 \<le> 49 - magnitude q"
    using that power_int_minus_divide [of "10::rat" "49 - magnitude q"]
    by (simp add: power_int_nonneg_exp)
  moreover have "10 powi (magnitude q - 49) = (10::rat) ^ nat (- (49 - magnitude q))"
    if "\<not> 0 \<le> 49 - magnitude q"
    using that by (simp add: power_int_nonneg_exp)
  moreover have "ref_make q = (if 0 \<le> 49 - magnitude q then Fin ?m (nat (49 - magnitude q))
      else Fin (?m * 10 ^ nat (- (49 - magnitude q))) 0)"
    using False by (simp only: ref_make_def Let_def if_False)
  ultimately show ?thesis by (cases "0 \<le> 49 - magnitude q") simp_all
qed (simp add: ref_make_def rnd50_def)

lemma ref_quot:
  assumes "d \<noteq> 0"
  shows "ref_val (ref_quot n d) = rnd50 (of_int n / of_int d) \<and> ref_finite (ref_quot n d)"
proof (cases "n * 10 ^ 18 div d * d = n * 10 ^ 18 \<and> \<bar>n * 10 ^ 18 div d\<bar> \<le> 10 ^ 50")
  case True
  define c where "c = n * 10 ^ 18 div d"
  have "of_int (c * d) = (of_int (n * 10 ^ 18) :: rat)" using True by (simp only: c_def)
  then have q: "of_int n / of_int d = (of_int c / 10 ^ 18 :: rat)"
    using assms by (subst frac_eq_eq) (simp_all add: mult.commute)
  have "fits (of_int c / 10 ^ 18)" unfolding fits_def
    by (rule exI [where x = c], rule exI [where x = 18]) (use True c_def in simp)
  moreover have "ref_quot n d = Fin c 18" using True by (simp add: ref_quot_def c_def)
  ultimately show ?thesis by (simp add: q rnd50_fits)
next
  case False
  then have "ref_quot n d = ref_make (of_int n / of_int d)" by (auto simp: ref_quot_def Let_def)
  then show ?thesis by (simp add: ref_make)
qed

lemma ref_plus_val:
  "ref_finite a \<Longrightarrow> ref_finite b \<Longrightarrow>
     ref_finite (ref_plus a b) \<and> ref_val (ref_plus a b) = rnd50 (ref_val a + ref_val b)"
  by (cases a; cases b) (simp_all add: ref_quot add_divide_distrib power_add)

lemma ref_times_val:
  "ref_finite a \<Longrightarrow> ref_finite b \<Longrightarrow>
     ref_finite (ref_times a b) \<and> ref_val (ref_times a b) = rnd50 (ref_val a * ref_val b)"
  by (cases a; cases b) (simp_all add: ref_quot power_add)

lemma ref_div_val:
  "ref_finite a \<Longrightarrow> ref_finite b \<Longrightarrow> ref_val b \<noteq> 0 \<Longrightarrow>
     ref_finite (ref_div a b) \<and> ref_val (ref_div a b) = rnd50 (ref_val a / ref_val b)"
  by (cases a; cases b) (simp_all add: ref_quot mult.commute)

lemma ref_unary_val:
  "ref_finite a \<Longrightarrow> ref_finite (ref_neg a) \<and> ref_val (ref_neg a) = - ref_val a"
  "ref_finite a \<Longrightarrow> ref_finite (ref_abs a) \<and> ref_val (ref_abs a) = \<bar>ref_val a\<bar>"
  by (cases a; simp add: abs_divide)+

lemma common_scale:
  "(of_int a / 10 ^ i = (of_int b / 10 ^ j :: rat)) = (a * 10 ^ j = b * 10 ^ i)"
  "(of_int a / 10 ^ i < (of_int b / 10 ^ j :: rat)) = (a * 10 ^ j < b * 10 ^ i)"
  "(of_int a / 10 ^ i \<le> (of_int b / 10 ^ j :: rat)) = (a * 10 ^ j \<le> b * 10 ^ i)"
proof -
  have c: "of_int x * 10 ^ n = (of_int (x * 10 ^ n) :: rat)" for x n by simp
  show "(of_int a / 10 ^ i = (of_int b / 10 ^ j :: rat)) = (a * 10 ^ j = b * 10 ^ i)"
    by (simp only: frac_eq_eq power_not_zero zero_neq_numeral not_False_eq_True c of_int_eq_iff)
  show le: "(of_int a / 10 ^ i \<le> (of_int b / 10 ^ j :: rat)) = (a * 10 ^ j \<le> b * 10 ^ i)" for a b i j
    by (simp add: pos_divide_le_eq pos_le_divide_eq c del: of_int_mult of_int_power)
  show "(of_int a / 10 ^ i < (of_int b / 10 ^ j :: rat)) = (a * 10 ^ j < b * 10 ^ i)"
    using le [of b j a i] by linarith
qed

lemma ref_test_val:
  assumes "ref_finite a" "ref_finite b"
  shows "ref_test (=) a b = (ref_val a = ref_val b)"
    and "ref_test (\<le>) a b = (ref_val a \<le> ref_val b)"
    and "ref_test (>) a b = (ref_val a > ref_val b)"
    and "ref_test (\<ge>) a b = (ref_val a \<ge> ref_val b)"
  using assms by (cases a; cases b; simp add: common_scale)+

lemma ref_sign_val:
  assumes "ref_finite a"
  shows "ref_sign (\<lambda>c. c = 0) a = (ref_val a = 0)"
    and "ref_sign (\<lambda>c. c < 0) a = (ref_val a < 0)"
    and "ref_sign (\<lambda>c. 0 \<le> c) a = (ref_val a \<ge> 0)"
  using assms by (cases a; simp add: zero_le_divide_iff divide_less_0_iff power_le_zero_eq)+

lemma half_up_int: "half_up n (of_int c / 10 ^ k) = of_int (half_up_int n c k) / 10 ^ n"
proof -
  let ?q = "of_int c / 10 ^ k :: rat"
  have "\<bar>?q\<bar> * 10 ^ n + 1 / 2 = of_int (2 * \<bar>c\<bar> * 10 ^ n + 10 ^ k) / of_int (2 * 10 ^ k)"
    by (simp add: abs_divide field_simps)
  then have "\<lfloor>\<bar>?q\<bar> * 10 ^ n + 1 / 2\<rfloor> = (2 * \<bar>c\<bar> * 10 ^ n + 10 ^ k) div (2 * 10 ^ k)"
    by (simp only: floor_divide_of_int_eq)
  moreover have "sgn ?q = of_int (sgn c)" by (simp add: sgn_if divide_less_0_iff zero_less_divide_iff)
  ultimately show ?thesis by (simp add: half_up_def half_up_int_def)
qed

lemma ref_places_val:
  "ref_finite a \<Longrightarrow> ref_finite (ref_places n a) \<and> ref_val (ref_places n a) = half_up n (ref_val a)"
  by (cases a) (simp_all add: half_up_int)

lemma unsigned_value_scaled: "unsigned_value s = Some q \<Longrightarrow> scaled (length s) q"
proof -
  assume v: "unsigned_value s = Some q"
  let ?w = "takeWhile is_digit s" and ?r = "dropWhile is_digit s"
  show ?thesis
  proof (cases ?r)
    case Nil
    then show ?thesis using v
      by (auto simp: unsigned_value_def Let_def simp del: takeWhile_eq_all_conv dropWhile_eq_Nil_conv
          split: if_splits)
  next
    case (Cons c f)
    then have q: "q = of_int (digits_value ?w) + of_int (digits_value f) / 10 ^ length f"
      using v by (auto simp: unsigned_value_def Let_def split: if_splits)
    have "scaled (length f) q" unfolding q by (intro scaled_add) (auto intro: scaledI)
    moreover have "length f \<le> length s"
      using Cons length_dropWhile_le [of is_digit s] by simp
    ultimately show ?thesis by (rule scaled_le)
  qed
qed

lemma plain_value_scaled: "plain_value s = Some q \<Longrightarrow> scaled (length s) q"
  by (auto simp: plain_value_def split: list.splits if_splits
      dest!: unsigned_value_scaled intro: scaled_le)

lemma scaled_floor: "scaled n q \<Longrightarrow> of_int \<lfloor>q * 10 ^ n\<rfloor> = q * 10 ^ n"
  by (auto simp: scaled_def)

lemma scaled_floor_div: "scaled n q \<Longrightarrow> of_int \<lfloor>q * 10 ^ n\<rfloor> / 10 ^ n = q"
  by (auto simp: scaled_def)

lemma strip_zeros_val: "strip_zeros c k = (m, n) \<Longrightarrow> of_int m / 10 ^ n = (of_int c / 10 ^ k :: rat)"
proof (induction c k rule: strip_zeros.induct)
  case (2 c k)
  show ?case
  proof (cases "c mod 10 = 0")
    case True
    then have c: "c = c div 10 * 10" by presburger
    have "of_int m / 10 ^ n = (of_int (c div 10) / 10 ^ k :: rat)"
      using 2 True by simp
    also have "\<dots> = of_int (c div 10 * 10) / 10 ^ Suc k" by simp
    finally show ?thesis using c by simp
  qed (use 2 in simp)
qed simp

lemma ref_fixed_value: "plain_value (ref_fixed n (Fin c k)) = Some (half_up n (ref_val (Fin c k)))"
proof -
  let ?h = "half_up_int n c k"
  have "0 \<le> (2 * \<bar>c\<bar> * 10 ^ n + 10 ^ k) div (2 * 10 ^ k)"
    by (rule pos_imp_zdiv_nonneg_iff [THEN iffD2]) simp_all
  then have "c < 0 \<Longrightarrow> ?h \<le> 0" and "\<not> c < 0 \<Longrightarrow> 0 \<le> ?h"
    by (simp_all add: half_up_int_def sgn_if)
  then have "(if c < 0 then - 1 else 1) * (of_int \<bar>?h\<bar> / 10 ^ n) = (of_int ?h / 10 ^ n :: rat)"
    by auto
  then show ?thesis by (simp add: plain_value_text half_up_int)
qed

lemma ref_plain_value: "plain_value (ref_plain (Fin c k)) = Some (ref_val (Fin c k))"
proof -
  obtain m n where mn: "strip_zeros c k = (m, n)" by (cases "strip_zeros c k")
  have "(if m < 0 then - 1 else 1) * (of_int \<bar>m\<bar> / 10 ^ n) = (of_int m / 10 ^ n :: rat)"
    by simp
  then show ?thesis using mn strip_zeros_val [OF mn] by (simp add: plain_value_text)
qed

interpretation refdec: decimal_lib ref_api ref_val rnd50
proof (unfold_locales, goal_cases)
  case 1 then show ?case by (rule rnd50_fits)
next
  case 2 then show ?case by (rule rnd50_mono)
next
  case 3 then show ?case by (rule rnd50_uminus)
next
  case (4 s q)
  then show ?case using scaled_floor_div [OF plain_value_scaled [OF 4]] by (simp add: ref_api_def)
next
  case (33 a n) then show ?case
    by (cases a) (simp_all add: ref_api_def ref_fixed_value del: ref_fixed.simps ref_val.simps)
next
  case (34 a) then show ?case
    by (cases a) (simp_all add: ref_api_def ref_plain_value del: ref_plain.simps ref_val.simps)
qed (auto simp: ref_api_def ref_make ref_plus_val ref_times_val ref_div_val ref_unary_val ref_test_val
    ref_sign_val ref_places_val ref_pick_def rnd50_fits min_def max_def)

end
