(* ===== verification/Money.thy ===== *)
theory Money
  imports DecimalRef
begin

text \<open>
  \<open>src/kernel/money.ts\<close>: exact decimals from text, the minor units of a currency,
  half-up rounding to them, exact sums and the display format of an amount.
  \<open>dec_input\<close> is the source's \<open>DecimalInput\<close> union (\<open>Decimal | string | number\<close>,
  the numbers being the integer literals the source passes).  The lemmas of the
  \<open>decimal_lib\<close> context are what the other components use: when text is accepted,
  what rounding does to its value, and when a sum is exact.
\<close>

section \<open>Definitions\<close>

datatype 'd dec_input = DecIn 'd | TextIn string | NumIn int

datatype money_error = InvalidDecimal | NotFinite | UnsupportedCurrency string

definition check_finite :: "'d decimal_api \<Rightarrow> 'd \<Rightarrow> money_error + 'd" where
  "check_finite D d = (if dec_finite D d then Inr d else Inl NotFinite)"

fun exact :: "'d decimal_api \<Rightarrow> 'd dec_input \<Rightarrow> money_error + 'd" where
  "exact D (DecIn d) = check_finite D d"
| "exact D (TextIn s) = (case dec_new D s of None \<Rightarrow> Inl InvalidDecimal | Some d \<Rightarrow> check_finite D d)"
| "exact D (NumIn i) = check_finite D (dec_int D i)"

definition currency_minor_units :: "(string \<times> nat) list" where
  "currency_minor_units = [
     (''USD'', 2), (''CAD'', 2), (''EUR'', 2), (''GBP'', 2), (''AUD'', 2), (''NZD'', 2), (''CHF'', 2),
     (''CNY'', 2), (''HKD'', 2), (''SGD'', 2), (''INR'', 2), (''MXN'', 2), (''BRL'', 2), (''ZAR'', 2),
     (''AED'', 2), (''SAR'', 2), (''ILS'', 2), (''TRY'', 2), (''THB'', 2), (''MYR'', 2), (''PHP'', 2),
     (''SEK'', 2), (''NOK'', 2), (''DKK'', 2), (''PLN'', 2), (''CZK'', 2), (''HUF'', 2), (''IDR'', 2),
     (''JPY'', 0), (''KRW'', 0), (''VND'', 0), (''CLP'', 0), (''ISK'', 0), (''XAF'', 0), (''XOF'', 0),
     (''KWD'', 3), (''BHD'', 3), (''OMR'', 3), (''JOD'', 3), (''TND'', 3)]"

definition supported_currencies :: "string list" where
  "supported_currencies = sort (map fst currency_minor_units)"

definition minor_units :: "string \<Rightarrow> money_error + nat" where
  "minor_units currency =
     (case map_of currency_minor_units (to_upper currency) of
        None \<Rightarrow> Inl (UnsupportedCurrency currency)
      | Some scale \<Rightarrow> Inr scale)"

definition quantize_money :: "'d decimal_api \<Rightarrow> 'd dec_input \<Rightarrow> string \<Rightarrow> money_error + 'd" where
  "quantize_money D v currency =
     bindE (exact D v) (\<lambda>d. bindE (minor_units currency) (\<lambda>n. Inr (dec_places D n d)))"

definition is_quantized_money :: "'d decimal_api \<Rightarrow> 'd dec_input \<Rightarrow> string \<Rightarrow> money_error + bool" where
  "is_quantized_money D v currency =
     bindE (exact D v) (\<lambda>amount.
     bindE (quantize_money D (DecIn amount) currency) (\<lambda>q. Inr (dec_eq D amount q)))"

definition sum_exact :: "'d decimal_api \<Rightarrow> 'd dec_input list \<Rightarrow> money_error + 'd" where
  "sum_exact D vs =
     foldE (\<lambda>total v. bindE (exact D v) (\<lambda>d. Inr (dec_plus D total d))) (dec_int D 0) vs"

text \<open>\<open>replace(/\B(?=(\d{3})+(?!\d))/g, ",")\<close> on a text of digits.\<close>

function group_thousands :: "string \<Rightarrow> string" where
  "group_thousands s =
     (if length s \<le> 3 then s
      else group_thousands (take (length s - 3) s) @ '','' @ drop (length s - 3) s)"
  by pat_completeness auto
termination by (relation "measure length") auto

declare group_thousands.simps [simp del]

text \<open>\<open>const [whole, fraction] = text.split(".")\<close>.\<close>

definition split_point :: "string \<Rightarrow> string \<times> string option" where
  "split_point s =
     (let r = dropWhile (\<lambda>c. c \<noteq> CHR ''.'') s
      in (takeWhile (\<lambda>c. c \<noteq> CHR ''.'') s,
          if r = [] then None else Some (takeWhile (\<lambda>c. c \<noteq> CHR ''.'') (tl r))))"

definition format_money_amount :: "'d decimal_api \<Rightarrow> 'd dec_input \<Rightarrow> string \<Rightarrow> money_error + string" where
  "format_money_amount D v currency =
     (let code = to_upper currency
      in bindE (quantize_money D v code) (\<lambda>amount.
         bindE (minor_units code) (\<lambda>n.
         let fixed = dec_fixed D n amount;
             negative = starts_with ''-'' fixed;
             unsigned = (if negative then drop 1 fixed else fixed);
             (whole, fraction) = split_point unsigned;
             grouped = group_thousands whole
         in Inr ((if negative then ''-'' else []) @ grouped @
              (case fraction of None \<Rightarrow> [] | Some f \<Rightarrow> ''.'' @ f)))))"

definition format_money :: "'d decimal_api \<Rightarrow> 'd dec_input \<Rightarrow> string \<Rightarrow> money_error + string" where
  "format_money D v currency =
     (let code = to_upper currency
      in bindE (format_money_amount D v code) (\<lambda>amount.
         Inr (if starts_with ''-'' amount then ''-'' @ code @ '' '' @ drop 1 amount
              else code @ '' '' @ amount)))"

section \<open>Currencies\<close>

lemma minor_units_le_3: "minor_units c = Inr n \<Longrightarrow> n \<le> 3"
proof -
  assume "minor_units c = Inr n"
  then have "(to_upper c, n) \<in> set currency_minor_units"
    by (auto simp: minor_units_def split: option.splits intro: map_of_SomeD)
  moreover have "\<forall>p \<in> set currency_minor_units. snd p \<le> 3"
    by (simp add: currency_minor_units_def)
  ultimately show ?thesis by fastforce
qed

lemma minor_units_to_upper: "minor_units (to_upper c) = Inr n \<longleftrightarrow> minor_units c = Inr n"
  by (simp add: minor_units_def split: option.splits)

lemma minor_units_Inr_iff:
  "minor_units c = Inr n \<longleftrightarrow> map_of currency_minor_units (to_upper c) = Some n"
  by (auto simp: minor_units_def split: option.splits)

lemma minor_units_known [simp]:
  "minor_units ''CAD'' = Inr 2" "minor_units ''USD'' = Inr 2" "minor_units ''EUR'' = Inr 2"
  "minor_units ''JPY'' = Inr 0"
  by code_simp+

section \<open>Amounts\<close>

text \<open>\<open>text_amount s q\<close>: the text \<open>s\<close> is a plain decimal denoting \<open>q\<close>.\<close>

abbreviation text_amount :: "string \<Rightarrow> rat \<Rightarrow> bool" where
  "text_amount s q \<equiv> plain_value s = Some q"

text \<open>What a \<open>numeric(38,9)\<close> column can hold.\<close>

definition ledger_amount :: "rat \<Rightarrow> bool" where
  "ledger_amount q \<longleftrightarrow> scaled 9 q \<and> \<bar>q\<bar> \<le> 10 ^ 29"

lemma ledger_amount_fits: "ledger_amount q \<Longrightarrow> fits q"
  unfolding ledger_amount_def by (elim conjE, erule (1) fits_scaled [where m = 29 and n = 9]) simp

lemma ledger_amount_uminus [simp]: "ledger_amount (- q) = ledger_amount q"
  by (simp add: ledger_amount_def)

lemma ledger_amount_half_up: "ledger_amount q \<Longrightarrow> n \<le> 9 \<Longrightarrow> ledger_amount (half_up n q)"
  unfolding ledger_amount_def
  by (elim conjE, intro conjI, erule scaled_le [OF half_up_scaled], erule half_up_pow_bound [where m = 29])

lemma sum_list_fits:
  assumes "\<And>q. q \<in> set qs \<Longrightarrow> ledger_amount q" "length qs \<le> 10 ^ 12"
  shows "fits (sum_list qs)"
proof (rule fits_scaled)
  show "scaled 9 (sum_list qs)" using assms(1) unfolding ledger_amount_def by (intro scaled_sum_list) blast
  have "\<bar>sum_list qs\<bar> \<le> of_nat (length qs) * 10 ^ 29"
    using assms(1) unfolding ledger_amount_def by (intro abs_sum_list_bound) blast
  also have "of_nat (length qs) \<le> (of_nat (10 ^ 12) :: rat)"
    using assms(2) by (simp only: of_nat_le_iff)
  then have "of_nat (length qs) * 10 ^ 29 \<le> (of_nat (10 ^ 12) :: rat) * 10 ^ 29"
    by (rule mult_right_mono) simp
  also have "\<dots> = 10 ^ 41" by simp
  finally show "\<bar>sum_list qs\<bar> \<le> 10 ^ 41" .
qed simp

context decimal_lib
begin

lemma check_finite_fin [simp]: "dec_finite D d \<Longrightarrow> check_finite D d = Inr d"
  by (simp add: check_finite_def)

lemma exact_finite: "exact D v = Inr d \<Longrightarrow> dec_finite D d"
  by (cases v) (auto simp: check_finite_def split: option.splits if_splits)

lemma exact_DecIn [simp]: "dec_finite D d \<Longrightarrow> exact D (DecIn d) = Inr d"
  by (simp add: check_finite_def)

lemma exact_NumIn [simp]: "exact D (NumIn i) = Inr (dec_int D i)"
  by (simp add: check_finite_def)

lemma exact_text:
  assumes "text_amount s q"
  obtains d where "exact D (TextIn s) = Inr d" "dec_finite D d" "val d = q"
  using new_plain [OF assms] that by (auto simp: check_finite_def)

lemma quantize_money_Inr_iff:
  "quantize_money D v c = Inr r \<longleftrightarrow>
     (\<exists>d n. exact D v = Inr d \<and> minor_units c = Inr n \<and> r = dec_places D n d)"
  by (auto simp: quantize_money_def monad_simps)

lemma quantize_money_val:
  assumes "quantize_money D v c = Inr r"
  shows "\<exists>d n. exact D v = Inr d \<and> minor_units c = Inr n \<and> dec_finite D r \<and> val r = half_up n (val d)"
  using assms exact_finite by (fastforce simp: quantize_money_Inr_iff)

lemma quantize_money_text:
  assumes "text_amount s q" "minor_units c = Inr n"
  obtains r where "quantize_money D (TextIn s) c = Inr r" "dec_finite D r" "val r = half_up n q"
proof -
  from exact_text [OF assms(1)] obtain d where
    "exact D (TextIn s) = Inr d" "dec_finite D d" "val d = q" .
  then show ?thesis using assms(2) that [of "dec_places D n d"] by (simp add: quantize_money_def)
qed

lemma is_quantized_iff:
  assumes "exact D v = Inr d" "minor_units c = Inr n"
  shows "is_quantized_money D v c = Inr (scaled n (val d))"
  using assms exact_finite [OF assms(1)]
  by (auto simp: is_quantized_money_def quantize_money_def half_up_eq_iff eq_commute [of "val d"])

lemma quantize_money_text_val:
  assumes "text_amount s q" "minor_units c = Inr n"
  shows "\<exists>r. quantize_money D (TextIn s) c = Inr r \<and> val r = half_up n q
      \<and> is_quantized_money D (TextIn s) c = Inr (scaled n q)"
proof -
  obtain r where r: "quantize_money D (TextIn s) c = Inr r" "val r = half_up n q"
    using quantize_money_text [OF assms] by blast
  obtain d where d: "exact D (TextIn s) = Inr d" "val d = q" using exact_text [OF assms(1)] by blast
  show ?thesis using r is_quantized_iff [OF d(1) assms(2)] d(2) by auto
qed

lemma is_quantized_True_iff:
  "is_quantized_money D v c = Inr True \<longleftrightarrow>
     (\<exists>d n. exact D v = Inr d \<and> minor_units c = Inr n \<and> scaled n (val d))"
proof -
  have "is_quantized_money D v c = Inr True \<Longrightarrow> \<exists>d n. exact D v = Inr d \<and> minor_units c = Inr n"
    by (auto simp: is_quantized_money_def quantize_money_def monad_simps)
  then show ?thesis using is_quantized_iff by fastforce
qed

lemma is_quantized_ok_iff:
  "is_ok (is_quantized_money D v c) \<longleftrightarrow> is_ok (exact D v) \<and> is_ok (minor_units c)"
  using exact_finite by (fastforce simp: is_quantized_money_def quantize_money_def monad_simps)

lemma sum_exact_gen:
  assumes "list_all2 (\<lambda>v q. \<exists>d. exact D v = Inr d \<and> val d = q) vs qs"
    and "dec_finite D t"
    and "\<And>n. n \<le> length qs \<Longrightarrow> fits (val t + sum_list (take n qs))"
  shows "\<exists>r. foldE (\<lambda>total v. bindE (exact D v) (\<lambda>d. Inr (dec_plus D total d))) t vs = Inr r
      \<and> dec_finite D r \<and> val r = val t + sum_list qs"
  using assms
proof (induction vs qs arbitrary: t rule: list_all2_induct)
  case (Cons v vs q qs)
  from Cons(1) obtain d where d: "exact D v = Inr d" "val d = q" by blast
  have fd: "dec_finite D d" using d exact_finite by blast
  have t': "dec_finite D (dec_plus D t d)" "val (dec_plus D t d) = val t + q"
    using Cons.prems(1) Cons.prems(2) [of 1] d fd by (auto intro!: plus_exact)
  have "fits (val (dec_plus D t d) + sum_list (take n qs))" if "n \<le> length qs" for n
    using Cons.prems(2) [of "Suc n"] that t' by (simp add: add.assoc)
  from Cons.IH [OF t'(1) this] show ?case using d t' by (simp add: add.assoc)
qed simp

lemma sum_exact_val:
  assumes "list_all2 (\<lambda>v q. \<exists>d. exact D v = Inr d \<and> val d = q) vs qs"
    and "\<And>q. q \<in> set qs \<Longrightarrow> ledger_amount q" and "length qs \<le> 10 ^ 12"
  shows "\<exists>r. sum_exact D vs = Inr r \<and> dec_finite D r \<and> val r = sum_list qs"
proof -
  have "fits (val (dec_int D 0) + sum_list (take n qs))" if "n \<le> length qs" for n
    using sum_list_fits [of "take n qs"] assms(2,3) that by (auto dest: in_set_takeD)
  from sum_exact_gen [OF assms(1) int_fin this] show ?thesis by (simp add: sum_exact_def)
qed

lemma sum_exact_texts:
  assumes "list_all2 text_amount ss qs"
    and "\<And>q. q \<in> set qs \<Longrightarrow> ledger_amount q" and "length qs \<le> 10 ^ 12"
  shows "\<exists>r. sum_exact D (map TextIn ss) = Inr r \<and> dec_finite D r \<and> val r = sum_list qs"
proof (rule sum_exact_val)
  show "list_all2 (\<lambda>v q. \<exists>d. exact D v = Inr d \<and> val d = q) (map TextIn ss) qs"
    using assms(1) unfolding list_all2_map1
    by (rule list_all2_mono) (metis exact_text)
qed (use assms in auto)

text \<open>The same for up to a thousand larger amounts.\<close>

lemma sum_exact_texts_wide:
  assumes "list_all2 text_amount ss qs"
    and "\<And>q. q \<in> set qs \<Longrightarrow> scaled 9 q \<and> \<bar>q\<bar> \<le> 10 ^ 33" and "length qs \<le> 1000"
  shows "\<exists>r. sum_exact D (map TextIn ss) = Inr r \<and> dec_finite D r \<and> val r = sum_list qs"
proof -
  have "fits (val (dec_int D 0) + sum_list (take n qs))" if "n \<le> length qs" for n
  proof (rule fits_scaled)
    show "scaled 9 (val (dec_int D 0) + sum_list (take n qs))"
      using assms(2) by (auto intro!: scaled_sum_list dest: in_set_takeD)
    have "\<bar>sum_list (take n qs)\<bar> \<le> of_nat (length (take n qs)) * 10 ^ 33"
      using assms(2) by (intro abs_sum_list_bound) (blast dest: in_set_takeD)
    also have "\<dots> \<le> 1000 * 10 ^ 33" using assms(3) that by (intro mult_right_mono) auto
    finally show "\<bar>val (dec_int D 0) + sum_list (take n qs)\<bar> \<le> 10 ^ 36" by simp
  qed simp
  moreover have "list_all2 (\<lambda>v q. \<exists>d. exact D v = Inr d \<and> val d = q) (map TextIn ss) qs"
    using assms(1) unfolding list_all2_map1 by (rule list_all2_mono) (metis exact_text)
  ultimately have "\<exists>r. foldE (\<lambda>total v. bindE (exact D v) (\<lambda>d. Inr (dec_plus D total d))) (dec_int D 0)
      (map TextIn ss) = Inr r \<and> dec_finite D r \<and> val r = val (dec_int D 0) + sum_list qs"
    using sum_exact_gen [OF _ int_fin] by blast
  then show ?thesis by (simp add: sum_exact_def)
qed

lemma sum_exact_ok_iff:
  "is_ok (sum_exact D vs) \<longleftrightarrow> (\<forall>v \<in> set vs. is_ok (exact D v))"
proof -
  have "is_ok (foldE (\<lambda>total v. bindE (exact D v) (\<lambda>d. Inr (dec_plus D total d))) t vs)
      \<longleftrightarrow> (\<forall>v \<in> set vs. is_ok (exact D v))" for t
  proof (induction vs arbitrary: t)
    case (Cons v vs)
    then show ?case by (cases "exact D v") auto
  qed simp
  then show ?thesis by (simp add: sum_exact_def)
qed

end

section \<open>Formatting\<close>

lemma filter_group_thousands:
  "CHR '','' \<notin> set s \<Longrightarrow> filter (\<lambda>c. c \<noteq> CHR '','') (group_thousands s) = s"
proof (induction s rule: group_thousands.induct)
  case (1 s)
  have no: "CHR '','' \<notin> set (take (length s - 3) s)" "CHR '','' \<notin> set (drop (length s - 3) s)"
    using "1.prems" by (auto dest: in_set_takeD in_set_dropD)
  have id: "CHR '','' \<notin> set t \<Longrightarrow> filter (\<lambda>c. c \<noteq> CHR '','') t = t" for t :: string
    by (auto intro: filter_True)
  show ?case
    using 1 no by (subst group_thousands.simps) (simp add: id)
qed

lemma takeWhile_until:
  assumes "\<forall>x \<in> set w. P x" "r = [] \<or> (\<exists>x f. r = x # f \<and> \<not> P x)"
  shows "takeWhile P (w @ r) = w \<and> dropWhile P (w @ r) = r"
  using assms by (induction w) auto

lemma unsigned_value_shape:
  assumes "unsigned_value s = Some q"
  shows "list_all (\<lambda>c. is_digit c \<or> c = CHR ''.'') s"
    and "(case split_point s of (w, f) \<Rightarrow> w @ (case f of None \<Rightarrow> [] | Some t \<Rightarrow> ''.'' @ t)) = s"
proof -
  let ?w = "takeWhile is_digit s" and ?r = "dropWhile is_digit s"
  have s: "s = ?w @ ?r" by simp
  have w: "\<forall>c \<in> set ?w. is_digit c" by (auto dest: set_takeWhileD)
  have dot: "is_digit c \<Longrightarrow> c \<noteq> CHR ''.''" for c
    by (auto simp: is_digit_def char_between_def)
  have r: "?r = [] \<or> (\<exists>f. ?r = CHR ''.'' # f \<and> list_all is_digit f)"
    using assms by (auto simp: unsigned_value_def Let_def all_digits_def split: list.splits if_splits
        simp del: dropWhile_eq_Nil_conv)
  obtain w r where wr: "s = w @ r" "\<forall>c \<in> set w. is_digit c"
    "r = [] \<or> (\<exists>f. r = CHR ''.'' # f \<and> list_all is_digit f)"
    by (rule that [OF s w r])
  show "list_all (\<lambda>c. is_digit c \<or> c = CHR ''.'') s"
    unfolding wr(1) list_all_iff using wr(2,3)
    by (elim disjE exE conjE) (auto simp: list_all_iff)
  have "takeWhile (\<lambda>c. c \<noteq> CHR ''.'') (w @ r) = w" "dropWhile (\<lambda>c. c \<noteq> CHR ''.'') (w @ r) = r"
    using takeWhile_until [of w "\<lambda>c. c \<noteq> CHR ''.''" r] wr(2,3) dot by auto
  then show "(case split_point s of (w, f) \<Rightarrow> w @ (case f of None \<Rightarrow> [] | Some t \<Rightarrow> ''.'' @ t)) = s"
    unfolding wr(1) using wr(3) dot
    by (elim disjE exE conjE) (auto simp: split_point_def Let_def list_all_iff intro!: takeWhile_eq_all_conv [THEN iffD2])
qed

lemma group_thousands_no_minus:
  "s \<noteq> [] \<Longrightarrow> hd (group_thousands s) = hd s \<and> group_thousands s \<noteq> []"
proof (induction s rule: group_thousands.induct)
  case (1 s)
  show ?case
  proof (cases "length s \<le> 3")
    case True
    then show ?thesis using "1.prems" by (simp add: group_thousands.simps [of s])
  next
    case False
    let ?p = "take (length s - 3) s"
    have "?p \<noteq> []" using False by auto
    moreover have "hd ?p = hd s" using False by (simp add: hd_take)
    ultimately show ?thesis using "1.IH" False by (simp add: group_thousands.simps [of s])
  qed
qed


lemma all_digits_or_dot_no_comma:
  "list_all (\<lambda>c. is_digit c \<or> c = CHR ''.'') s \<Longrightarrow> CHR '','' \<notin> set s \<and> CHR ''-'' \<notin> set s"
  by (auto simp: list_all_iff is_digit_def char_between_def)

text \<open>The display text without its thousands separators is the fixed text it was made from.\<close>

lemma ungrouped_amount:
  assumes v: "unsigned_value u = Some q"
  shows "filter (\<lambda>c. c \<noteq> CHR '','') (case split_point u of (w, f) \<Rightarrow>
      group_thousands w @ (case f of None \<Rightarrow> [] | Some t \<Rightarrow> ''.'' @ t)) = u"
proof -
  obtain w f where sp: "split_point u = (w, f)" by (cases "split_point u")
  have u: "w @ (case f of None \<Rightarrow> [] | Some t \<Rightarrow> ''.'' @ t) = u"
    using unsigned_value_shape(2) [OF v] sp by simp
  have nc: "CHR '','' \<notin> set u"
    using all_digits_or_dot_no_comma [OF unsigned_value_shape(1) [OF v]] by simp
  define t where "t = (case f of None \<Rightarrow> [] | Some t \<Rightarrow> ''.'' @ t)"
  have "CHR '','' \<notin> set (w @ t)" using nc u by (simp add: t_def)
  then have "CHR '','' \<notin> set w" "filter (\<lambda>c. c \<noteq> CHR '','') t = t"
    by (auto intro: filter_True)
  then show ?thesis using u by (simp add: sp filter_group_thousands flip: t_def)
qed

context decimal_lib
begin

lemma format_money_amount_value:
  assumes s: "text_amount s q" and n: "minor_units c = Inr n"
  shows "\<exists>t. format_money_amount D (TextIn s) c = Inr t
      \<and> text_amount (filter (\<lambda>x. x \<noteq> CHR '','') t) (half_up n q)"
proof -
  obtain r where r: "quantize_money D (TextIn s) (to_upper c) = Inr r" "dec_finite D r"
    "val r = half_up n q"
    using quantize_money_text [OF s] n minor_units_to_upper by metis
  let ?x = "dec_fixed D n r"
  have x: "plain_value ?x = Some (half_up n q)"
    using fixed_value [OF r(2)] r(3) half_up_id [OF half_up_scaled] by simp
  define neg where "neg = starts_with ''-'' ?x"
  define u where "u = (if neg then drop 1 ?x else ?x)"
  have xu: "?x = (if neg then ''-'' else []) @ u"
    by (cases ?x) (auto simp: neg_def u_def starts_with_def)
  have "plain_value ((if neg then ''-'' else []) @ u) = Some (half_up n q)" using x xu by simp
  moreover have "\<not> neg \<Longrightarrow> u = [] \<or> hd u \<noteq> CHR ''-''"
    by (cases u) (auto simp: neg_def u_def starts_with_def)
  ultimately obtain q' where q': "unsigned_value u = Some q'"
    by (cases neg; cases u) (auto simp: plain_value_def)
  let ?body = "case split_point u of (w, f) \<Rightarrow>
      group_thousands w @ (case f of None \<Rightarrow> [] | Some t \<Rightarrow> ''.'' @ t)"
  have "format_money_amount D (TextIn s) c = Inr ((if neg then ''-'' else []) @ ?body)"
    using r(1) n [folded minor_units_to_upper [of c n]]
    by (cases "split_point u") (simp add: format_money_amount_def Let_def flip: neg_def u_def)
  moreover have "filter (\<lambda>x. x \<noteq> CHR '','') ((if neg then ''-'' else []) @ ?body) = ?x"
    by (simp only: filter_append ungrouped_amount [OF q']) (simp add: xu)
  ultimately show ?thesis using x by metis
qed

end

section \<open>Properties\<close>

text \<open>
  C1. Exact summation.  \<open>sumExact\<close> of up to a million million amounts that a
  \<open>numeric(38,9)\<close> column can hold loses nothing to the 50-digit precision of the
  arithmetic: the result is the sum of the values the texts denote.
\<close>

theorem sum_exact_is_exact:
  assumes "decimal_lib D val rnd"
    and "list_all2 text_amount texts amounts"
    and "\<forall>q \<in> set amounts. ledger_amount q" and "length amounts \<le> 10 ^ 12"
  shows "\<exists>r. sum_exact D (map TextIn texts) = Inr r \<and> dec_finite D r \<and> val r = sum_list amounts"
  by (rule decimal_lib.sum_exact_texts [OF assms(1,2)]) (use assms(3,4) in auto)

theorem sum_exact_is_exact_witness:
  "\<exists>r. sum_exact ref_api (map TextIn [''10.10'', ''-0.333333333'']) = Inr r \<and> dec_finite ref_api r
     \<and> ref_val r = sum_list [101 / 10, - 333333333 / 1000000000]"
proof (rule sum_exact_is_exact)
  show "decimal_lib ref_api ref_val rnd50" by (rule refdec.decimal_lib_axioms)
  have "plain_value ''10.10'' = Some (101 / 10)"
    and "plain_value ''-0.333333333'' = Some (- 333333333 / 1000000000)" by code_simp+
  then show "list_all2 text_amount [''10.10'', ''-0.333333333''] [101 / 10, - 333333333 / 1000000000]"
    by simp
  have "scaled 9 (101 / 10)" by (rule scaledI [where c = 10100000000]) simp
  moreover have "scaled 9 (- 333333333 / 1000000000)" by (rule scaledI [where c = "- 333333333"]) simp
  ultimately show "\<forall>q \<in> set [101 / 10, - 333333333 / 1000000000]. ledger_amount q"
    by (simp add: ledger_amount_def)
qed simp

text \<open>
  C2. Quantization.  \<open>quantizeMoney\<close> of a decimal text in a configured currency
  returns the multiple of the minor unit nearest to its value, half a unit away at
  most, and \<open>isQuantizedMoney\<close> answers exactly whether the value was one already.
\<close>

theorem quantize_money_nearest:
  assumes "decimal_lib D val rnd" and "text_amount s q" and "minor_units c = Inr n"
  shows "\<exists>r. quantize_money D (TextIn s) c = Inr r \<and> val r = half_up n q \<and> scaled n (val r)
      \<and> \<bar>val r - q\<bar> \<le> 1 / (2 * 10 ^ n)
      \<and> is_quantized_money D (TextIn s) c = Inr (scaled n q)"
  using decimal_lib.quantize_money_text_val [OF assms] half_up_error [of n q] by fastforce

theorem quantize_money_nearest_witness:
  "\<exists>r. quantize_money ref_api (TextIn ''10.125'') ''CAD'' = Inr r \<and> ref_val r = half_up 2 (10125 / 1000)
      \<and> scaled 2 (ref_val r) \<and> \<bar>ref_val r - 10125 / 1000\<bar> \<le> 1 / (2 * 10 ^ 2)
      \<and> is_quantized_money ref_api (TextIn ''10.125'') ''CAD'' = Inr (scaled 2 (10125 / 1000))"
  by (rule quantize_money_nearest [OF refdec.decimal_lib_axioms]) code_simp+

text \<open>
  C3. The display format loses nothing.  \<open>formatMoneyAmount\<close> of a decimal text in a
  configured currency succeeds, and its text without the thousands separators
  denotes exactly the amount rounded to the minor unit.
\<close>

theorem format_money_amount_faithful:
  assumes "decimal_lib D val rnd" and "text_amount s q" and "minor_units c = Inr n"
  shows "\<exists>t. format_money_amount D (TextIn s) c = Inr t
      \<and> text_amount (filter (\<lambda>x. x \<noteq> CHR '','') t) (half_up n q)"
  by (rule decimal_lib.format_money_amount_value [OF assms])

theorem format_money_amount_faithful_witness:
  "format_money_amount ref_api (TextIn ''-1234567.895'') ''cad'' = Inr ''-1,234,567.90''
   \<and> (\<exists>t. format_money_amount ref_api (TextIn ''-1234567.895'') ''cad'' = Inr t
      \<and> text_amount (filter (\<lambda>x. x \<noteq> CHR '','') t) (half_up 2 (- 1234567895 / 1000)))"
proof
  show "format_money_amount ref_api (TextIn ''-1234567.895'') ''cad'' = Inr ''-1,234,567.90''"
    by code_simp
  show "\<exists>t. format_money_amount ref_api (TextIn ''-1234567.895'') ''cad'' = Inr t
      \<and> text_amount (filter (\<lambda>x. x \<noteq> CHR '','') t) (half_up 2 (- 1234567895 / 1000))"
    by (rule format_money_amount_faithful [OF refdec.decimal_lib_axioms]) code_simp+
qed

end
