(* ===== verification/AccountSegments.thy ===== *)
theory AccountSegments
  imports Prelude
begin

text \<open>
  \<open>ledger/account-segments.ts\<close>: the thirteen segments of an account combination,
  their validation, the rendered account key, and the life cycle of a custom
  segment slot.  An \<open>AccountSegments\<close> record is a function from segment keys to
  optional codes; the key of a valid combination identifies it, which is what the
  journal validator and the account tables rely on.
\<close>

section \<open>Definitions\<close>

datatype segment_key =
    SegEntity | SegAccount | SegSubaccount | SegDepartment | SegIntercompany
  | SegCustom1 | SegCustom2 | SegCustom3 | SegCustom4
  | SegCustom5 | SegCustom6 | SegCustom7 | SegCustom8

type_synonym account_segments = "segment_key \<Rightarrow> string option"

definition account_segment_keys :: "segment_key list" where
  "account_segment_keys =
     [SegEntity, SegAccount, SegSubaccount, SegDepartment, SegIntercompany,
      SegCustom1, SegCustom2, SegCustom3, SegCustom4,
      SegCustom5, SegCustom6, SegCustom7, SegCustom8]"

datatype segment_error =
    ReservedSegmentCode
  | MalformedSegmentCode
  | EntityRequired
  | NaturalAccountRequired

definition system_null_segment :: string where
  "system_null_segment = ''0000''"

text \<open>\<open>/^[A-Z0-9][A-Z0-9_-]{0,15}$/\<close>\<close>

definition segment_char :: "char \<Rightarrow> bool" where
  "segment_char c \<longleftrightarrow> is_upper c \<or> is_digit c \<or> c = CHR ''_'' \<or> c = CHR ''-''"

definition user_segment_pattern :: "string \<Rightarrow> bool" where
  "user_segment_pattern s =
     (case s of
        [] \<Rightarrow> False
      | c # t \<Rightarrow> (is_upper c \<or> is_digit c) \<and> length t \<le> 15 \<and> list_all segment_char t)"

definition validate_user_segment_code :: "string \<Rightarrow> segment_error + string" where
  "validate_user_segment_code value =
     (let code = to_upper (trim value)
      in bindE (throw_if (code = system_null_segment) ReservedSegmentCode) (\<lambda>_.
         bindE (throw_if (\<not> user_segment_pattern code) MalformedSegmentCode) (\<lambda>_.
         Inr code)))"

definition validate_account_segments :: "account_segments \<Rightarrow> segment_error + unit" where
  "validate_account_segments segs =
     bindE (throw_if (\<not> truthy (segs SegEntity)) EntityRequired) (\<lambda>_.
     bindE (throw_if (\<not> truthy (segs SegAccount)) NaturalAccountRequired) (\<lambda>_.
     foldE (\<lambda>_ key. case segs key of
         None \<Rightarrow> Inr ()
       | Some value \<Rightarrow> bindE (validate_user_segment_code value) (\<lambda>_. Inr ()))
       () account_segment_keys))"

definition render_account_key :: "account_segments \<Rightarrow> segment_error + string" where
  "render_account_key segs =
     bindE (validate_account_segments segs) (\<lambda>_.
     Inr (join ''.'' (map (\<lambda>key. or_else (segs key) system_null_segment) account_segment_keys)))"

datatype custom_slot_state = SlotEmpty | ConfiguredUnbound | ActiveLocked | InactiveLocked

record custom_slot_transition =
  slot_from :: custom_slot_state
  slot_to :: custom_slot_state
  slot_protected_use :: bool
  slot_admin_approval :: bool

definition can_transition_custom_slot :: "custom_slot_transition \<Rightarrow> bool" where
  "can_transition_custom_slot t =
     (let old = slot_from t; new = slot_to t; approved = slot_admin_approval t in
      if old = new then True
      else if old = SlotEmpty \<and> new = ConfiguredUnbound then approved
      else if old = ConfiguredUnbound \<and> new = ActiveLocked then True
      else if old = ConfiguredUnbound \<and> new = SlotEmpty then \<not> slot_protected_use t \<and> approved
      else if old = ActiveLocked \<and> new = InactiveLocked then approved
      else if old = InactiveLocked \<and> new = ActiveLocked then approved
      else False)"

text \<open>The histories of a slot: sequences of transitions that were each allowed.\<close>

inductive slot_history ::
  "custom_slot_state \<Rightarrow> custom_slot_transition list \<Rightarrow> custom_slot_state \<Rightarrow> bool" where
  start: "slot_history s [] s"
| step: "slot_history s ts s' \<Longrightarrow> slot_from t = s' \<Longrightarrow> can_transition_custom_slot t \<Longrightarrow>
    slot_history s (ts @ [t]) (slot_to t)"

inductive_cases slot_history_emptyE: "slot_history s [] s'"

section \<open>Codes\<close>

lemma in_account_segment_keys [simp]: "key \<in> set account_segment_keys"
  by (cases key) (simp_all add: account_segment_keys_def)

lemma segment_char_no_dot: "\<not> segment_char CHR ''.''"
  by (simp add: segment_char_def is_upper_def is_digit_def char_between_def)

lemma segment_char_not_space: "segment_char c \<Longrightarrow> \<not> is_space c"
  by (auto simp: segment_char_def is_space_def dest: is_upper_not_space is_digit_not_space)

lemma segment_char_not_lower: "segment_char c \<Longrightarrow> \<not> is_lower c"
  by (auto simp: segment_char_def is_lower_def char_between_def
      dest: is_upper_not_lower is_digit_not_lower)

lemma user_segment_chars: "user_segment_pattern s \<Longrightarrow> s \<noteq> [] \<and> list_all segment_char s"
  by (auto simp: user_segment_pattern_def segment_char_def split: list.splits)

lemma validate_user_segment_Inr_iff [monad_simps]:
  "validate_user_segment_code v = Inr code \<longleftrightarrow>
     code = to_upper (trim v) \<and> code \<noteq> system_null_segment \<and> user_segment_pattern code"
  by (auto simp: validate_user_segment_code_def Let_def monad_simps)

lemma canonical_code_fixed:
  assumes "user_segment_pattern code"
  shows "to_upper (trim code) = code"
proof -
  have "list_all segment_char code" using user_segment_chars [OF assms] by simp
  then have "list_all (\<lambda>c. \<not> is_space c) code" "list_all (\<lambda>c. \<not> is_lower c) code"
    using segment_char_not_space segment_char_not_lower by (auto simp: list_all_iff)
  then show ?thesis by (simp add: trim_id to_upper_id)
qed

lemma validate_user_segment_idem:
  "validate_user_segment_code v = Inr code \<Longrightarrow> validate_user_segment_code code = Inr code"
  using canonical_code_fixed by (auto simp: monad_simps)

lemma foldE_unit_Inr_iff:
  "foldE (\<lambda>_ x. f x) () xs = Inr () \<longleftrightarrow> (\<forall>x \<in> set xs. f x = Inr ())"
proof (induction xs)
  case (Cons x xs)
  then show ?case by (cases "f x") auto
qed simp

lemma validate_account_segments_Inr_iff [monad_simps]:
  "validate_account_segments segs = Inr () \<longleftrightarrow>
     truthy (segs SegEntity) \<and> truthy (segs SegAccount) \<and>
     (\<forall>key value. segs key = Some value \<longrightarrow> is_ok (validate_user_segment_code value))"
  by (fastforce simp: validate_account_segments_def monad_simps foldE_unit_Inr_iff
      split: option.splits)

section \<open>The rendered key\<close>

lemma upper_char_dot [simp]: "upper_char c = CHR ''.'' \<longleftrightarrow> c = CHR ''.''"
proof
  show "c = CHR ''.''" if "upper_char c = CHR ''.''"
    using that by (cases "is_lower c")
      (auto simp: upper_char_def is_lower_def char_between_def char_eq_iff_nat [of _ "CHR ''.''"]
        simp del: of_char_eq_iff)
qed (simp add: upper_char_def is_lower_def char_between_def)

lemma dropWhile_outside: "x \<in> set xs \<Longrightarrow> \<not> P x \<Longrightarrow> x \<in> set (dropWhile P xs)"
  by (induction xs) auto

lemma dot_in_trim: "CHR ''.'' \<in> set v \<Longrightarrow> CHR ''.'' \<in> set (trim v)"
proof -
  assume "CHR ''.'' \<in> set v"
  moreover have "\<not> is_space CHR ''.''" by (simp add: is_space_def)
  ultimately show ?thesis
    by (simp add: trim_def dropWhile_outside)
qed

lemma accepted_code_no_dot:
  assumes "validate_user_segment_code v = Inr code"
  shows "CHR ''.'' \<notin> set v"
proof
  assume "CHR ''.'' \<in> set v"
  then have "upper_char CHR ''.'' \<in> set (to_upper (trim v))"
    unfolding to_upper_def by (simp add: dot_in_trim)
  moreover have "upper_char CHR ''.'' = CHR ''.''" by (simp only: upper_char_dot)
  ultimately have "CHR ''.'' \<in> set code" using assms by (auto simp: monad_simps)
  then show False
    using assms user_segment_chars [of code] segment_char_no_dot
    by (auto simp: monad_simps list_all_iff)
qed

lemma accepted_code_not_null: "validate_user_segment_code v = Inr code \<Longrightarrow> v \<noteq> system_null_segment"
proof
  assume "validate_user_segment_code v = Inr code" "v = system_null_segment"
  moreover have "to_upper (trim system_null_segment) = system_null_segment" by code_simp
  ultimately show False by (auto simp: monad_simps)
qed

lemma append_dot_inject:
  assumes "CHR ''.'' \<notin> set x" "CHR ''.'' \<notin> set y" "x @ ''.'' @ s = y @ ''.'' @ t"
  shows "x = y \<and> s = t"
  using assms
proof (induction x arbitrary: y)
  case Nil
  then show ?case by (cases y) auto
next
  case (Cons a x)
  then show ?case by (cases y) auto
qed

lemma join_dot_inject:
  assumes "length xs = length ys" "\<forall>x \<in> set xs \<union> set ys. CHR ''.'' \<notin> set x"
    and "join ''.'' xs = join ''.'' ys"
  shows "xs = ys"
  using assms
proof (induction xs ys rule: list_induct2)
  case (Cons x xs y ys)
  show ?case
  proof (cases xs)
    case Nil
    then show ?thesis using Cons by simp
  next
    case (Cons x' xs')
    then obtain y' ys' where ys: "ys = y' # ys'" using Cons.hyps by (cases ys) auto
    have "x @ ''.'' @ join ''.'' xs = y @ ''.'' @ join ''.'' ys"
      using Cons.prems(2) \<open>xs = x' # xs'\<close> ys by simp
    then have "x = y \<and> join ''.'' xs = join ''.'' ys"
      using Cons.prems(1) by (intro append_dot_inject) auto
    then show ?thesis using Cons.IH Cons.prems(1) by auto
  qed
qed simp

lemma rendered_segment:
  assumes "validate_account_segments segs = Inr ()"
  shows "CHR ''.'' \<notin> set (or_else (segs key) system_null_segment)"
    and "or_else (segs key) system_null_segment = system_null_segment \<longleftrightarrow> segs key = None"
proof -
  have ok: "\<exists>code. validate_user_segment_code v = Inr code" if "segs key = Some v" for v
    using assms that by (auto simp: monad_simps is_ok_iff)
  show "CHR ''.'' \<notin> set (or_else (segs key) system_null_segment)"
    using ok accepted_code_no_dot by (cases "segs key") (auto simp: system_null_segment_def)
  show "or_else (segs key) system_null_segment = system_null_segment \<longleftrightarrow> segs key = None"
    using ok accepted_code_not_null by (cases "segs key") auto
qed

lemma slot_history_locked:
  assumes "slot_history s ts s'" "s \<in> {ActiveLocked, InactiveLocked}"
  shows "s' \<in> {ActiveLocked, InactiveLocked}
    \<and> (\<forall>t \<in> set ts. slot_from t \<noteq> slot_to t \<longrightarrow> slot_admin_approval t)"
  using assms
  by (induction rule: slot_history.induct)
    (auto simp: can_transition_custom_slot_def Let_def split: if_splits)

section \<open>Properties\<close>

text \<open>
  C6. The account key identifies the combination.  Two segment combinations that
  validate and render to the same key are the same combination, segment by segment:
  an unused segment, rendered as 0000, is never confused with a used one, and no
  code can imitate a separator.
\<close>

theorem account_key_identifies_combination:
  assumes "render_account_key a = Inr key" and "render_account_key b = Inr key"
  shows "a = b"
proof
  fix k
  let ?r = "\<lambda>segs key. or_else (segs key) system_null_segment"
  have v: "validate_account_segments a = Inr ()" "validate_account_segments b = Inr ()"
    using assms by (auto simp: render_account_key_def monad_simps)
  have "map (?r a) account_segment_keys = map (?r b) account_segment_keys"
    using assms rendered_segment(1) [OF v(1)] rendered_segment(1) [OF v(2)]
    by (intro join_dot_inject) (auto simp: render_account_key_def bindE_Inr_iff)
  then have "?r a k = ?r b k" by simp
  then show "a k = b k"
    using rendered_segment(2) [OF v(1), of k] rendered_segment(2) [OF v(2), of k]
    by (cases "a k"; cases "b k") auto
qed

definition example_segments :: account_segments where
  "example_segments key = (if key = SegEntity then Some ''CA01'' else if key = SegAccount then Some ''1100''
     else if key = SegDepartment then Some ''OPS'' else None)"

theorem account_key_identifies_combination_witness:
  "render_account_key example_segments = Inr ''CA01.1100.0000.OPS.0000.0000.0000.0000.0000.0000.0000.0000.0000''
   \<and> example_segments = example_segments(SegCustom8 := None)"
  by (rule conjI, code_simp,
      rule account_key_identifies_combination
        [where key = "''CA01.1100.0000.OPS.0000.0000.0000.0000.0000.0000.0000.0000.0000''"])
    code_simp+

text \<open>
  C7. A custom segment slot stays locked.  No sequence of allowed transitions takes
  a slot that has been activated back to an empty or merely configured one, and
  every change along it has the approval of a restricted administrator.
\<close>

theorem custom_slot_lock_is_permanent:
  assumes "slot_history s ts s'" and "s \<in> {ActiveLocked, InactiveLocked}"
  shows "s' \<in> {ActiveLocked, InactiveLocked}
    \<and> (\<forall>t \<in> set ts. slot_from t \<noteq> slot_to t \<longrightarrow> slot_admin_approval t)"
  by (rule slot_history_locked [OF assms])

theorem custom_slot_lock_is_permanent_witness:
  "let t = \<lparr>slot_from = ActiveLocked, slot_to = InactiveLocked, slot_protected_use = True,
       slot_admin_approval = True\<rparr>
   in slot_history ActiveLocked ([] @ [t]) (slot_to t)
    \<and> slot_to t \<in> {ActiveLocked, InactiveLocked}
    \<and> (\<forall>u \<in> set ([] @ [t]). slot_from u \<noteq> slot_to u \<longrightarrow> slot_admin_approval u)"
proof -
  let ?t = "\<lparr>slot_from = ActiveLocked, slot_to = InactiveLocked, slot_protected_use = True,
       slot_admin_approval = True\<rparr>"
  have run: "slot_history ActiveLocked ([] @ [?t]) (slot_to ?t)"
    by (rule slot_history.step [OF slot_history.start]) code_simp+
  from custom_slot_lock_is_permanent [OF this] run show ?thesis by (simp add: Let_def)
qed

end
