(* ===== verification/PostingValidator.thy ===== *)
theory PostingValidator
  imports Money AccountSegments PeriodControl
begin

text \<open>
  \<open>ledger/posting-validator.ts\<close>: the integrity rules of a journal before it is
  posted.  The validator collects issues; an issue here is its code with the line
  number it names (the messages are left out).  The main lemma reads an empty issue
  list back as accounting facts: balanced to the last digit, one side per line, and
  control accounts touched only by the subledger that owns them.
\<close>

section \<open>Definitions\<close>

datatype account_class = StandardAccount | ArControl | ApControl

datatype party_account_role = CustomerRole | SupplierRole

record journal_line_draft =
  jl_account_code :: string
  jl_account_class :: account_class
  jl_account_active :: bool
  jl_account_postable :: bool
  jl_account_valid_on_date :: bool
  jl_combination_active :: bool
  jl_segments :: account_segments
  jl_required_segments :: "segment_key list"
  jl_inactive_segments :: "segment_key list"
  jl_debit :: string
  jl_credit :: string
  jl_currency :: string
  jl_amount :: string
  jl_fx_rate :: string
  jl_party_account :: "string option"
  jl_party_role :: "party_account_role option"
  jl_subledger_event :: "string option"

record journal_draft =
  jd_functional_currency :: string
  jd_source_module :: string
  jd_purpose :: posting_purpose
  jd_period_state :: period_state
  jd_can_post_adjustment :: bool
  jd_source_document :: "string option"
  jd_lines :: "journal_line_draft list"

datatype issue_code =
    PeriodIssue period_decision
  | MinimumLines
  | SourceModuleInvalid
  | FunctionalCurrencyInvalid
  | SourceDocumentInvalid
  | AccountInactive
  | AccountNotPostable
  | AccountOutsideEffectiveDate
  | AccountCombinationInactive
  | AccountSegmentNotCanonical
  | AccountCodeMismatch
  | AccountSegmentsInvalid
  | RequiredSegmentMissing
  | InactiveSegmentUsed
  | FunctionalAmountInvalid
  | TransactionOrRateInvalid
  | NegativeSide
  | ExactlyOneSide
  | FunctionalPrecision
  | TransactionCurrencyInvalid
  | TransactionPrecision
  | ZeroTransactionAmount
  | FxRateInvalid
  | TransactionSideMismatch
  | FunctionalCurrencyRateInvalid
  | FunctionalTransactionMismatch
  | FxAmountMismatch
  | FxAmountInvalid
  | SubledgerProvenanceRequired
  | SubledgerRoleMismatch
  | ControlSourceModuleMismatch
  | SubledgerEventNotAllowed
  | SubledgerProvenanceIncomplete
  | Unbalanced
  | ZeroJournal

type_synonym posting_issue = "issue_code \<times> nat option"

definition issue_if :: "bool \<Rightarrow> issue_code \<Rightarrow> issue_code list" where
  "issue_if b c = (if b then [c] else [])"

definition journal_header_issues :: "journal_draft \<Rightarrow> issue_code list" where
  "journal_header_issues j =
     (let decision = decide_period_posting (jd_period_state j) (jd_purpose j) (jd_can_post_adjustment j)
      in issue_if (decision \<noteq> PeriodAllowed) (PeriodIssue decision)
       @ issue_if (length (jd_lines j) < 2) MinimumLines
       @ issue_if (\<not> module_key (jd_source_module j)) SourceModuleInvalid
       @ issue_if (\<not> upper_code 3 (jd_functional_currency j)) FunctionalCurrencyInvalid
       @ issue_if (jd_source_document j \<noteq> None \<and> \<not> has_text (jd_source_document j))
           SourceDocumentInvalid)"

text \<open>
  The \<open>try\<close> block on the segments.  Inside its loop the codes have been validated,
  so the only later throw is the one for the account code itself.
\<close>

definition segment_issues :: "journal_line_draft \<Rightarrow> issue_code list" where
  "segment_issues line =
     (let segs = jl_segments line; code = jl_account_code line in
      case validate_account_segments segs of
        Inl _ \<Rightarrow> [AccountSegmentsInvalid]
      | Inr _ \<Rightarrow>
          concat (map (\<lambda>key. case segs key of
              None \<Rightarrow> []
            | Some v \<Rightarrow> issue_if (validate_user_segment_code v \<noteq> Inr v) AccountSegmentNotCanonical)
            account_segment_keys)
          @ (case validate_user_segment_code code of
               Inl _ \<Rightarrow> [AccountSegmentsInvalid]
             | Inr canonical \<Rightarrow>
                 issue_if (canonical \<noteq> code \<or> Some canonical \<noteq> segs SegAccount) AccountCodeMismatch))"

definition account_issues :: "journal_line_draft \<Rightarrow> issue_code list" where
  "account_issues line =
     issue_if (\<not> jl_account_active line) AccountInactive
     @ issue_if (\<not> jl_account_postable line) AccountNotPostable
     @ issue_if (\<not> jl_account_valid_on_date line) AccountOutsideEffectiveDate
     @ issue_if (\<not> jl_combination_active line) AccountCombinationInactive
     @ segment_issues line
     @ concat (map (\<lambda>key. issue_if (jl_segments line key = None) RequiredSegmentMissing)
         (distinct_first (jl_required_segments line)))
     @ concat (map (\<lambda>key. issue_if (jl_segments line key \<noteq> None) InactiveSegmentUsed)
         (distinct_first (jl_inactive_segments line)))"

text \<open>The checks on one side, the currency and the conversion, on the parsed amounts.\<close>

definition conversion_issues ::
  "'d decimal_api \<Rightarrow> journal_draft \<Rightarrow> journal_line_draft \<Rightarrow> 'd \<Rightarrow> 'd \<Rightarrow> 'd \<Rightarrow> 'd \<Rightarrow> issue_code list" where
  "conversion_issues D j line debit credit amount rate =
     (let zero = dec_int D 0;
          signed = (if dec_gt D debit zero then debit else dec_neg D credit)
      in issue_if (dec_gt D signed zero \<noteq> dec_gt D amount zero) TransactionSideMismatch
       @ (if jl_currency line = jd_functional_currency j then
            issue_if (\<not> dec_eq D rate (dec_int D 1)) FunctionalCurrencyRateInvalid
            @ issue_if (\<not> dec_eq D amount signed) FunctionalTransactionMismatch
          else
            case quantize_money D (DecIn (dec_times D (dec_abs D amount) rate)) (jd_functional_currency j) of
              Inl _ \<Rightarrow> [FxAmountInvalid]
            | Inr expected \<Rightarrow>
                issue_if (\<not> dec_eq D expected (dec_abs D signed)) FxAmountMismatch))"

definition amount_issues ::
  "'d decimal_api \<Rightarrow> journal_draft \<Rightarrow> journal_line_draft \<Rightarrow> 'd \<Rightarrow> 'd \<Rightarrow> 'd \<Rightarrow> 'd \<Rightarrow> issue_code list" where
  "amount_issues D j line debit credit amount rate =
     (let zero = dec_int D 0;
          one_side = dec_is_zero D debit \<noteq> dec_is_zero D credit
      in issue_if (dec_is_neg D debit \<or> dec_is_neg D credit) NegativeSide
       @ issue_if (\<not> one_side) ExactlyOneSide
       @ (case bindE (is_quantized_money D (DecIn debit) (jd_functional_currency j)) (\<lambda>a.
               if \<not> a then Inr False
               else is_quantized_money D (DecIn credit) (jd_functional_currency j)) of
            Inl _ \<Rightarrow> [FunctionalCurrencyInvalid]
          | Inr ok \<Rightarrow> issue_if (\<not> ok) FunctionalPrecision)
       @ issue_if (\<not> upper_code 3 (jl_currency line)) TransactionCurrencyInvalid
       @ (case is_quantized_money D (DecIn amount) (jl_currency line) of
            Inl _ \<Rightarrow> [TransactionCurrencyInvalid]
          | Inr ok \<Rightarrow> issue_if (\<not> ok) TransactionPrecision)
       @ issue_if (dec_is_zero D amount) ZeroTransactionAmount
       @ issue_if (\<not> dec_gt D rate zero) FxRateInvalid
       @ (if one_side \<and> \<not> dec_is_zero D amount \<and> dec_gt D rate zero
          then conversion_issues D j line debit credit amount rate else []))"

definition provenance_issues :: "journal_draft \<Rightarrow> journal_line_draft \<Rightarrow> issue_code list" where
  "provenance_issues j line =
     (if jl_account_class line \<in> {ArControl, ApControl} then
        issue_if (jd_source_module j = ''ledger'' \<or> \<not> has_text (jl_party_account line)
            \<or> \<not> has_text (jl_subledger_event line) \<or> \<not> has_text (jd_source_document j))
          SubledgerProvenanceRequired
        @ (let required = (if jl_account_class line = ArControl then CustomerRole else SupplierRole)
           in issue_if (jl_party_role line \<noteq> Some required) SubledgerRoleMismatch)
        @ (let required = (if jl_account_class line = ArControl then ''receivables'' else ''payables'')
           in issue_if (jd_source_module j \<noteq> required) ControlSourceModuleMismatch)
      else issue_if (has_text (jl_subledger_event line)) SubledgerEventNotAllowed)
     @ issue_if (has_text (jl_subledger_event line) \<and> \<not> has_text (jl_party_account line))
         SubledgerProvenanceIncomplete"

text \<open>The callback on one line: its issues, and whether its functional amounts parsed.\<close>

definition line_issues ::
  "'d decimal_api \<Rightarrow> journal_draft \<Rightarrow> journal_line_draft \<Rightarrow> issue_code list \<times> bool" where
  "line_issues D j line =
     (case (exact D (TextIn (jl_debit line)), exact D (TextIn (jl_credit line))) of
        (Inr debit, Inr credit) \<Rightarrow>
          (case (exact D (TextIn (jl_amount line)), exact D (TextIn (jl_fx_rate line))) of
             (Inr amount, Inr rate) \<Rightarrow>
               (account_issues line @ amount_issues D j line debit credit amount rate
                 @ provenance_issues j line, True)
           | _ \<Rightarrow> (account_issues line @ [TransactionOrRateInvalid], True))
      | _ \<Rightarrow> (account_issues line @ [FunctionalAmountInvalid], False))"

definition numbered_line_issues :: "'d decimal_api \<Rightarrow> journal_draft \<Rightarrow> posting_issue list" where
  "numbered_line_issues D j =
     concat (map (\<lambda>(i, line). map (\<lambda>c. (c, Some (i + 1))) (fst (line_issues D j line)))
       (enumerate 0 (jd_lines j)))"

definition validate_journal_draft ::
  "'d decimal_api \<Rightarrow> journal_draft \<Rightarrow> money_error + posting_issue list" where
  "validate_journal_draft D j =
     (let issues = map (\<lambda>c. (c, None)) (journal_header_issues j) @ numbered_line_issues D j
      in if \<not> list_all (\<lambda>line. snd (line_issues D j line)) (jd_lines j) then Inr issues
         else
           bindE (sum_exact D (map (\<lambda>line. TextIn (jl_debit line)) (jd_lines j))) (\<lambda>debits.
           bindE (sum_exact D (map (\<lambda>line. TextIn (jl_credit line)) (jd_lines j))) (\<lambda>credits.
           Inr (issues @ map (\<lambda>c. (c, None))
             (issue_if (\<not> dec_eq D debits credits) Unbalanced
              @ issue_if (dec_is_zero D debits \<and> dec_is_zero D credits) ZeroJournal)))))"

datatype posting_failure = PostingMoney money_error | NotPostable "posting_issue list"

definition assert_journal_postable :: "'d decimal_api \<Rightarrow> journal_draft \<Rightarrow> posting_failure + unit" where
  "assert_journal_postable D j =
     bindE (map_errorE PostingMoney (validate_journal_draft D j)) (\<lambda>issues.
     throw_if (issues \<noteq> []) (NotPostable issues))"

section \<open>Lemmas\<close>

lemma issue_if_Nil [simp]: "issue_if b c = [] \<longleftrightarrow> \<not> b"
  by (simp add: issue_if_def)

lemma segment_issues_Nil:
  assumes "segment_issues line = []"
  shows "validate_account_segments (jl_segments line) = Inr ()"
    and "\<And>key v. jl_segments line key = Some v \<Longrightarrow> validate_user_segment_code v = Inr v"
    and "jl_segments line SegAccount = Some (jl_account_code line)"
  using assms
  by (auto simp: segment_issues_def Let_def split: sum.splits option.splits)

lemma line_issues_Nil:
  assumes "fst (line_issues D j line) = []"
  obtains debit credit amount rate where
    "exact D (TextIn (jl_debit line)) = Inr debit" "exact D (TextIn (jl_credit line)) = Inr credit"
    "exact D (TextIn (jl_amount line)) = Inr amount" "exact D (TextIn (jl_fx_rate line)) = Inr rate"
    "account_issues line = []" "amount_issues D j line debit credit amount rate = []"
    "provenance_issues j line = []"
  using assms by (auto simp: line_issues_def split: sum.splits)

lemma line_issues_parsed: "fst (line_issues D j line) = [] \<Longrightarrow> snd (line_issues D j line)"
  by (auto simp: line_issues_def split: sum.splits)

lemma numbered_line_issues_Nil:
  "numbered_line_issues D j = [] \<longleftrightarrow> (\<forall>line \<in> set (jd_lines j). fst (line_issues D j line) = [])"
proof -
  have "set (jd_lines j) = snd ` set (enumerate 0 (jd_lines j))"
    by (metis list.set_map map_snd_enumerate)
  then show ?thesis by (auto simp: numbered_line_issues_def case_prod_unfold)
qed

lemma provenance_issues_Nil:
  "provenance_issues j line = [] \<Longrightarrow> jl_account_class line \<noteq> StandardAccount \<Longrightarrow>
     has_text (jl_party_account line) \<and> has_text (jl_subledger_event line)
     \<and> has_text (jd_source_document j)
     \<and> (jl_account_class line = ArControl \<longrightarrow>
          jl_party_role line = Some CustomerRole \<and> jd_source_module j = ''receivables'')
     \<and> (jl_account_class line = ApControl \<longrightarrow>
          jl_party_role line = Some SupplierRole \<and> jd_source_module j = ''payables'')"
  by (cases "jl_account_class line") (auto simp: provenance_issues_def Let_def)

text \<open>The value of an amount text the arithmetic accepts.\<close>

definition amount_of :: "'d decimal_api \<Rightarrow> ('d \<Rightarrow> rat) \<Rightarrow> string \<Rightarrow> rat" where
  "amount_of D val s = (case exact D (TextIn s) of Inl _ \<Rightarrow> 0 | Inr d \<Rightarrow> val d)"

lemma amount_of_exact [simp]: "exact D (TextIn s) = Inr d \<Longrightarrow> amount_of D val s = val d"
  by (simp add: amount_of_def)

context decimal_lib
begin

lemma exact_DecIn [simp]: "dec_finite D d \<Longrightarrow> exact D (DecIn d) = Inr d"
  by (simp add: check_finite_def)

lemma is_quantized_DecIn:
  assumes "dec_finite D d"
  shows "is_quantized_money D (DecIn d) c = Inr True \<longleftrightarrow> (\<exists>n. minor_units c = Inr n \<and> scaled n (val d))"
  using assms by (auto simp: is_quantized_True_iff)

lemma amount_issues_Nil:
  assumes "amount_issues D j line debit credit amount rate = []"
    and "dec_finite D debit" "dec_finite D credit" "dec_finite D amount" "dec_finite D rate"
  shows "0 \<le> val debit \<and> 0 \<le> val credit \<and> (val debit = 0) \<noteq> (val credit = 0)
      \<and> val amount \<noteq> 0 \<and> 0 < val rate
      \<and> (\<exists>n. minor_units (jd_functional_currency j) = Inr n \<and> scaled n (val debit) \<and> scaled n (val credit))
      \<and> (\<exists>m. minor_units (jl_currency line) = Inr m \<and> scaled m (val amount))
      \<and> conversion_issues D j line debit credit amount rate = []"
proof -
  note fin = assms(2-5)
  have sign: "\<not> dec_is_neg D debit" "\<not> dec_is_neg D credit"
    and one: "(val debit = 0) \<noteq> (val credit = 0)"
    and zero: "val amount \<noteq> 0" "0 < val rate"
    using assms(1) fin by (auto simp: amount_issues_def Let_def)
  have fun1: "(case bindE (is_quantized_money D (DecIn debit) (jd_functional_currency j)) (\<lambda>a.
               if \<not> a then Inr False
               else is_quantized_money D (DecIn credit) (jd_functional_currency j)) of
            Inl _ \<Rightarrow> [FunctionalCurrencyInvalid]
          | Inr ok \<Rightarrow> issue_if (\<not> ok) FunctionalPrecision) = []"
    and tx: "(case is_quantized_money D (DecIn amount) (jl_currency line) of
            Inl _ \<Rightarrow> [TransactionCurrencyInvalid]
          | Inr ok \<Rightarrow> issue_if (\<not> ok) TransactionPrecision) = []"
    using assms(1) by (auto simp: amount_issues_def Let_def)
  have "is_quantized_money D (DecIn debit) (jd_functional_currency j) = Inr True"
    "is_quantized_money D (DecIn credit) (jd_functional_currency j) = Inr True"
    using fun1 by (auto split: sum.splits if_splits simp: monad_simps)
  moreover have "is_quantized_money D (DecIn amount) (jl_currency line) = Inr True"
    using tx by (auto split: sum.splits)
  moreover have "conversion_issues D j line debit credit amount rate = []"
    using assms(1) fin one zero by (auto simp: amount_issues_def Let_def)
  moreover have "0 \<le> val debit" "0 \<le> val credit"
    using sign neg_iff [OF fin(1)] neg_iff [OF fin(2)] by (force simp: not_less)+
  ultimately show ?thesis using fin one zero is_quantized_DecIn by auto
qed

lemma conversion_issues_Nil:
  assumes "conversion_issues D j line debit credit amount rate = []"
    and fin: "dec_finite D debit" "dec_finite D credit" "dec_finite D amount" "dec_finite D rate"
    and side: "0 \<le> val debit" "0 \<le> val credit" "(val debit = 0) \<noteq> (val credit = 0)"
    and n: "minor_units (jd_functional_currency j) = Inr n"
  shows "(0 < val amount \<longleftrightarrow> 0 < val debit)
    \<and> (if jl_currency line = jd_functional_currency j
       then val rate = 1 \<and> val amount = val debit - val credit
       else val debit + val credit = half_up n (rnd (\<bar>val amount\<bar> * val rate)))"
proof -
  define signed where "signed = (if dec_gt D debit (dec_int D 0) then debit else dec_neg D credit)"
  have s: "dec_finite D signed" "val signed = val debit - val credit"
    "\<bar>val signed\<bar> = val debit + val credit" "0 < val signed \<longleftrightarrow> 0 < val debit"
    using fin side by (auto simp: signed_def)
  have q: "quantize_money D (DecIn (dec_times D (dec_abs D amount) rate)) (jd_functional_currency j)
      = Inr (dec_places D n (dec_times D (dec_abs D amount) rate))"
    using fin n by (simp add: quantize_money_def)
  have base: "0 < val signed \<longleftrightarrow> 0 < val amount"
    using assms(1) fin s(1) unfolding conversion_issues_def Let_def signed_def [symmetric] by simp
  show ?thesis
  proof (cases "jl_currency line = jd_functional_currency j")
    case True
    then have "dec_eq D rate (dec_int D 1) \<and> dec_eq D amount signed"
      using assms(1) unfolding conversion_issues_def Let_def signed_def [symmetric] by simp
    then show ?thesis using True base fin s by simp
  next
    case False
    then have "dec_eq D (dec_places D n (dec_times D (dec_abs D amount) rate)) (dec_abs D signed)"
      using assms(1) unfolding conversion_issues_def Let_def signed_def [symmetric] q by simp
    then show ?thesis using False base fin s by (simp add: times_val)
  qed
qed

lemma validator_returns: "\<exists>issues. validate_journal_draft D j = Inr issues"
proof (cases "list_all (\<lambda>line. snd (line_issues D j line)) (jd_lines j)")
  case True
  have ok: "is_ok (exact D (TextIn (jl_debit line))) \<and> is_ok (exact D (TextIn (jl_credit line)))"
    if "line \<in> set (jd_lines j)" for line
    using True that
    by (cases "exact D (TextIn (jl_debit line))"; cases "exact D (TextIn (jl_credit line))")
      (force simp: list_all_iff line_issues_def simp del: exact.simps)+
  have "is_ok (sum_exact D (map (\<lambda>line. TextIn (jl_debit line)) (jd_lines j)))"
    "is_ok (sum_exact D (map (\<lambda>line. TextIn (jl_credit line)) (jd_lines j)))"
    unfolding sum_exact_ok_iff using ok by auto
  then show ?thesis using True
    by (auto simp: validate_journal_draft_def Let_def is_ok_iff)
qed (simp add: validate_journal_draft_def)

lemma valid_lines:
  assumes "validate_journal_draft D j = Inr []" and "line \<in> set (jd_lines j)"
  obtains debit credit amount rate where
    "exact D (TextIn (jl_debit line)) = Inr debit" "exact D (TextIn (jl_credit line)) = Inr credit"
    "exact D (TextIn (jl_amount line)) = Inr amount" "exact D (TextIn (jl_fx_rate line)) = Inr rate"
    "account_issues line = []" "amount_issues D j line debit credit amount rate = []"
    "provenance_issues j line = []"
    "dec_finite D debit" "dec_finite D credit" "dec_finite D amount" "dec_finite D rate"
proof -
  have "numbered_line_issues D j = []"
    using assms(1) by (auto simp: validate_journal_draft_def Let_def bindE_Inr_iff split: if_splits)
  then have "fst (line_issues D j line) = []" using assms(2) numbered_line_issues_Nil by blast
  then show ?thesis by (rule line_issues_Nil) (metis exact_finite that)
qed

lemma valid_header:
  assumes "validate_journal_draft D j = Inr []"
  shows "decide_period_posting (jd_period_state j) (jd_purpose j) (jd_can_post_adjustment j) = PeriodAllowed"
    and "2 \<le> length (jd_lines j)"
  using assms
  by (auto simp: validate_journal_draft_def journal_header_issues_def Let_def bindE_Inr_iff split: if_splits)

lemma valid_sides:
  assumes "validate_journal_draft D j = Inr []"
  shows "\<exists>n. minor_units (jd_functional_currency j) = Inr n \<and>
      (\<forall>line \<in> set (jd_lines j). 0 \<le> amount_of D val (jl_debit line) \<and> 0 \<le> amount_of D val (jl_credit line)
        \<and> (amount_of D val (jl_debit line) = 0) \<noteq> (amount_of D val (jl_credit line) = 0)
        \<and> scaled n (amount_of D val (jl_debit line)) \<and> scaled n (amount_of D val (jl_credit line)))"
proof -
  have line: "0 \<le> amount_of D val (jl_debit line) \<and> 0 \<le> amount_of D val (jl_credit line)
        \<and> (amount_of D val (jl_debit line) = 0) \<noteq> (amount_of D val (jl_credit line) = 0)
        \<and> (\<exists>n. minor_units (jd_functional_currency j) = Inr n
          \<and> scaled n (amount_of D val (jl_debit line)) \<and> scaled n (amount_of D val (jl_credit line)))"
    if l: "line \<in> set (jd_lines j)" for line
  proof (rule valid_lines [OF assms l])
    fix debit credit amount rate
    assume e: "exact D (TextIn (jl_debit line)) = Inr debit" "exact D (TextIn (jl_credit line)) = Inr credit"
      and am: "amount_issues D j line debit credit amount rate = []"
      and fin: "dec_finite D debit" "dec_finite D credit" "dec_finite D amount" "dec_finite D rate"
    show ?thesis using amount_issues_Nil [OF am fin] unfolding amount_of_exact [OF e(1)] amount_of_exact [OF e(2)]
      by blast
  qed
  obtain l where "l \<in> set (jd_lines j)"
    using valid_header(2) [OF assms] by (cases "jd_lines j") auto
  from line [OF this] obtain n where "minor_units (jd_functional_currency j) = Inr n" by blast
  then show ?thesis using line by fastforce
qed

lemma valid_conversion:
  assumes "validate_journal_draft D j = Inr []" and "line \<in> set (jd_lines j)"
    and n: "minor_units (jd_functional_currency j) = Inr n"
  shows "let debit = amount_of D val (jl_debit line); credit = amount_of D val (jl_credit line);
      amount = amount_of D val (jl_amount line); rate = amount_of D val (jl_fx_rate line)
    in amount \<noteq> 0 \<and> 0 < rate \<and> (0 < amount \<longleftrightarrow> 0 < debit)
     \<and> (if jl_currency line = jd_functional_currency j then rate = 1 \<and> amount = debit - credit
        else debit + credit = half_up n (rnd (\<bar>amount\<bar> * rate)))"
proof (rule valid_lines [OF assms(1,2)])
  fix debit credit amount rate
  assume e: "exact D (TextIn (jl_debit line)) = Inr debit" "exact D (TextIn (jl_credit line)) = Inr credit"
      "exact D (TextIn (jl_amount line)) = Inr amount" "exact D (TextIn (jl_fx_rate line)) = Inr rate"
    and am: "amount_issues D j line debit credit amount rate = []"
    and fin: "dec_finite D debit" "dec_finite D credit" "dec_finite D amount" "dec_finite D rate"
  note a = amount_issues_Nil [OF am fin]
  have "conversion_issues D j line debit credit amount rate = []" "0 \<le> val debit" "0 \<le> val credit"
    "(val debit = 0) \<noteq> (val credit = 0)" using a by blast+
  from conversion_issues_Nil [OF this(1) fin this(2,3,4) n] a
  show ?thesis unfolding e [THEN amount_of_exact] Let_def by blast
qed

lemma valid_accounts:
  assumes "validate_journal_draft D j = Inr []" and "line \<in> set (jd_lines j)"
  shows "account_issues line = [] \<and> provenance_issues j line = []"
  by (rule valid_lines [OF assms]) blast

lemma valid_totals:
  assumes ok: "validate_journal_draft D j = Inr []"
    and small: "\<forall>line \<in> set (jd_lines j). ledger_amount (amount_of D val (jl_debit line))
      \<and> ledger_amount (amount_of D val (jl_credit line))"
    and len: "length (jd_lines j) \<le> 10 ^ 12"
  shows "(\<Sum>line\<leftarrow>jd_lines j. amount_of D val (jl_debit line))
       = (\<Sum>line\<leftarrow>jd_lines j. amount_of D val (jl_credit line))"
proof -
  have accepted: "\<exists>d. exact D (TextIn (f line)) = Inr d \<and> val d = amount_of D val (f line)"
    if "line \<in> set (jd_lines j)" "f = jl_debit \<or> f = jl_credit" for f line
    using valid_lines [OF ok that(1)] that(2) amount_of_exact by metis
  have total: "\<exists>r. sum_exact D (map (\<lambda>line. TextIn (f line)) (jd_lines j)) = Inr r \<and> dec_finite D r
      \<and> val r = (\<Sum>line\<leftarrow>jd_lines j. amount_of D val (f line))"
    if f: "f = jl_debit \<or> f = jl_credit" for f
  proof (rule sum_exact_val)
    show "list_all2 (\<lambda>v q. \<exists>d. exact D v = Inr d \<and> val d = q)
        (map (\<lambda>line. TextIn (f line)) (jd_lines j)) (map (\<lambda>line. amount_of D val (f line)) (jd_lines j))"
      unfolding list_all2_map1 list_all2_map2
      using f accepted by (auto intro!: list.rel_refl_strong simp del: exact.simps)
  qed (use f small len in auto)
  obtain debits credits where
    d: "sum_exact D (map (\<lambda>line. TextIn (jl_debit line)) (jd_lines j)) = Inr debits" "dec_finite D debits"
      "val debits = (\<Sum>line\<leftarrow>jd_lines j. amount_of D val (jl_debit line))" and
    c: "sum_exact D (map (\<lambda>line. TextIn (jl_credit line)) (jd_lines j)) = Inr credits" "dec_finite D credits"
      "val credits = (\<Sum>line\<leftarrow>jd_lines j. amount_of D val (jl_credit line))"
    using total [of jl_debit] total [of jl_credit] by auto
  have "list_all (\<lambda>line. snd (line_issues D j line)) (jd_lines j)"
    using ok numbered_line_issues_Nil [of D j] line_issues_parsed [of D j]
    by (auto simp: validate_journal_draft_def Let_def bindE_Inr_iff list_all_iff split: if_splits)
  then have "dec_eq D debits credits"
    using ok d(1) c(1) by (auto simp: validate_journal_draft_def Let_def)
  then show ?thesis using d c by simp
qed

end

section \<open>Properties\<close>

text \<open>
  C12. Only balanced journals pass.  When the validator reports no issue, the
  period admits the journal's purpose, there are at least two lines, every line
  carries one positive debit or one positive credit in whole minor units of the
  functional currency and nothing on the other side, and the exact sum of the debits
  equals the exact sum of the credits.
\<close>

theorem postable_journal_balances:
  assumes "decimal_lib D val rnd" and "validate_journal_draft D j = Inr []"
    and "\<forall>line \<in> set (jd_lines j). ledger_amount (amount_of D val (jl_debit line))
      \<and> ledger_amount (amount_of D val (jl_credit line))"
    and "length (jd_lines j) \<le> 10 ^ 12"
  shows "(\<Sum>line\<leftarrow>jd_lines j. amount_of D val (jl_debit line))
       = (\<Sum>line\<leftarrow>jd_lines j. amount_of D val (jl_credit line))
    \<and> 2 \<le> length (jd_lines j)
    \<and> decide_period_posting (jd_period_state j) (jd_purpose j) (jd_can_post_adjustment j) = PeriodAllowed
    \<and> (\<exists>n. minor_units (jd_functional_currency j) = Inr n \<and>
        (\<forall>line \<in> set (jd_lines j). let debit = amount_of D val (jl_debit line);
             credit = amount_of D val (jl_credit line)
           in 0 \<le> debit \<and> 0 \<le> credit \<and> (debit = 0) \<noteq> (credit = 0) \<and> scaled n debit \<and> scaled n credit))"
  using decimal_lib.valid_totals [OF assms] decimal_lib.valid_header [OF assms(1,2)]
    decimal_lib.valid_sides [OF assms(1,2)]
  by (simp add: Let_def)

text \<open>
  C13. Functional amounts are the converted transaction amounts.  On every line of
  a journal without issues the transaction amount has the sign of its side; in the
  functional currency the rate is one and the amount is the signed functional amount,
  and in any other currency the functional amount is the amount converted at the
  line's rate, rounded half up to the minor unit.
\<close>

theorem postable_lines_convert:
  assumes "decimal_lib D val rnd" and "validate_journal_draft D j = Inr []"
    and "line \<in> set (jd_lines j)" and "minor_units (jd_functional_currency j) = Inr n"
  shows "let debit = amount_of D val (jl_debit line); credit = amount_of D val (jl_credit line);
      amount = amount_of D val (jl_amount line); rate = amount_of D val (jl_fx_rate line)
    in amount \<noteq> 0 \<and> 0 < rate \<and> (0 < amount \<longleftrightarrow> 0 < debit)
     \<and> (if jl_currency line = jd_functional_currency j then rate = 1 \<and> amount = debit - credit
        else debit + credit = half_up n (rnd (\<bar>amount\<bar> * rate)))"
  by (rule decimal_lib.valid_conversion [OF assms])

text \<open>
  C14. Control accounts belong to their subledgers.  In a journal without issues every
  control line has a party account, a subledger event and a source document; on a
  receivables (payables) control line the party is a customer (supplier) and the journal
  comes from the receivables (payables) module; and every line's account is active,
  postable and effective and its combination active, with segments that pass their
  validation, name the account code, give every required segment and no inactive one.
\<close>

theorem control_lines_have_provenance:
  assumes "decimal_lib D val rnd" and "validate_journal_draft D j = Inr []"
    and "line \<in> set (jd_lines j)"
  shows "(jl_account_class line \<noteq> StandardAccount \<longrightarrow>
       has_text (jl_party_account line) \<and> has_text (jl_subledger_event line)
     \<and> has_text (jd_source_document j)
     \<and> (jl_account_class line = ArControl \<longrightarrow>
          jl_party_role line = Some CustomerRole \<and> jd_source_module j = ''receivables'')
     \<and> (jl_account_class line = ApControl \<longrightarrow>
          jl_party_role line = Some SupplierRole \<and> jd_source_module j = ''payables''))
    \<and> jl_account_active line \<and> jl_account_postable line \<and> jl_account_valid_on_date line
    \<and> jl_combination_active line
    \<and> validate_account_segments (jl_segments line) = Inr ()
    \<and> jl_segments line SegAccount = Some (jl_account_code line)
    \<and> (\<forall>key \<in> set (jl_required_segments line). jl_segments line key \<noteq> None)
    \<and> (\<forall>key \<in> set (jl_inactive_segments line). jl_segments line key = None)"
proof -
  have v: "account_issues line = []" "provenance_issues j line = []"
    using decimal_lib.valid_accounts [OF assms] by auto
  then have "segment_issues line = []" by (simp add: account_issues_def)
  note seg = segment_issues_Nil [OF this]
  show ?thesis
    using v(1) seg(1,3) provenance_issues_Nil [OF v(2)] by (auto simp: account_issues_def)
qed

section \<open>An example\<close>

definition example_line :: "string \<Rightarrow> string \<Rightarrow> string \<Rightarrow> string \<Rightarrow> string \<Rightarrow> journal_line_draft" where
  "example_line debit credit currency amount rate =
     \<lparr>jl_account_code = ''1100'', jl_account_class = StandardAccount, jl_account_active = True,
      jl_account_postable = True, jl_account_valid_on_date = True, jl_combination_active = True,
      jl_segments = example_segments, jl_required_segments = [SegDepartment],
      jl_inactive_segments = [SegCustom1], jl_debit = debit, jl_credit = credit,
      jl_currency = currency, jl_amount = amount, jl_fx_rate = rate, jl_party_account = None,
      jl_party_role = None, jl_subledger_event = None\<rparr>"

definition example_journal :: journal_draft where
  "example_journal =
     \<lparr>jd_functional_currency = ''CAD'', jd_source_module = ''receivables'', jd_purpose = Adjusting,
      jd_period_state = AdjustmentOnly, jd_can_post_adjustment = True, jd_source_document = Some ''doc-1'',
      jd_lines = [example_line ''135.56'' ''0'' ''USD'' ''100.00'' ''1.355555'',
        (example_line ''0'' ''135.56'' ''CAD'' ''-135.56'' ''1'')
          \<lparr>jl_account_class := ArControl, jl_party_account := Some ''party-1'',
           jl_party_role := Some CustomerRole, jl_subledger_event := Some ''event-1''\<rparr>]\<rparr>"

lemma example_journal_valid: "validate_journal_draft ref_api example_journal = Inr []"
  by code_simp

theorem postable_journal_balances_witness:
  "(\<Sum>line\<leftarrow>jd_lines example_journal. amount_of ref_api ref_val (jl_debit line))
       = (\<Sum>line\<leftarrow>jd_lines example_journal. amount_of ref_api ref_val (jl_credit line))
    \<and> 2 \<le> length (jd_lines example_journal)
    \<and> decide_period_posting (jd_period_state example_journal) (jd_purpose example_journal)
        (jd_can_post_adjustment example_journal) = PeriodAllowed
    \<and> (\<exists>n. minor_units (jd_functional_currency example_journal) = Inr n \<and>
        (\<forall>line \<in> set (jd_lines example_journal). let debit = amount_of ref_api ref_val (jl_debit line);
             credit = amount_of ref_api ref_val (jl_credit line)
           in 0 \<le> debit \<and> 0 \<le> credit \<and> (debit = 0) \<noteq> (credit = 0) \<and> scaled n debit \<and> scaled n credit))"
proof (rule postable_journal_balances [OF refdec.decimal_lib_axioms example_journal_valid])
  have s: "scaled 9 (3389 / 25)" by (rule scaledI [where c = 135560000000]) simp
  have v: "amount_of ref_api ref_val ''135.56'' = 3389 / 25" "amount_of ref_api ref_val ''0'' = 0"
    by code_simp+
  show "\<forall>line \<in> set (jd_lines example_journal). ledger_amount (amount_of ref_api ref_val (jl_debit line))
      \<and> ledger_amount (amount_of ref_api ref_val (jl_credit line))"
    using s by (simp add: example_journal_def example_line_def v ledger_amount_def)
  show "length (jd_lines example_journal) \<le> 10 ^ 12" by (simp add: example_journal_def)
qed

theorem postable_lines_convert_witness:
  "let line = hd (jd_lines example_journal);
      debit = amount_of ref_api ref_val (jl_debit line); credit = amount_of ref_api ref_val (jl_credit line);
      amount = amount_of ref_api ref_val (jl_amount line); rate = amount_of ref_api ref_val (jl_fx_rate line)
    in amount \<noteq> 0 \<and> 0 < rate \<and> (0 < amount \<longleftrightarrow> 0 < debit)
     \<and> (if jl_currency line = jd_functional_currency example_journal
        then rate = 1 \<and> amount = debit - credit
        else debit + credit = half_up 2 (rnd50 (\<bar>amount\<bar> * rate)))"
  unfolding Let_def [of "hd (jd_lines example_journal)"]
  by (rule postable_lines_convert [OF refdec.decimal_lib_axioms example_journal_valid])
    (simp add: example_journal_def, code_simp)

theorem control_lines_have_provenance_witness:
  "let line = last (jd_lines example_journal) in
    jl_account_class line = ArControl \<and>
    (jl_account_class line \<noteq> StandardAccount \<longrightarrow>
       has_text (jl_party_account line) \<and> has_text (jl_subledger_event line)
     \<and> has_text (jd_source_document example_journal)
     \<and> (jl_account_class line = ArControl \<longrightarrow>
          jl_party_role line = Some CustomerRole \<and> jd_source_module example_journal = ''receivables'')
     \<and> (jl_account_class line = ApControl \<longrightarrow>
          jl_party_role line = Some SupplierRole \<and> jd_source_module example_journal = ''payables''))
    \<and> jl_account_active line \<and> jl_account_postable line \<and> jl_account_valid_on_date line
    \<and> jl_combination_active line
    \<and> validate_account_segments (jl_segments line) = Inr ()
    \<and> jl_segments line SegAccount = Some (jl_account_code line)
    \<and> (\<forall>key \<in> set (jl_required_segments line). jl_segments line key \<noteq> None)
    \<and> (\<forall>key \<in> set (jl_inactive_segments line). jl_segments line key = None)"
  unfolding Let_def
  by (rule conjI, code_simp,
      rule control_lines_have_provenance [OF refdec.decimal_lib_axioms example_journal_valid])
    (simp add: example_journal_def)

end
