(* ===== verification/JournalTypes.thy ===== *)
theory JournalTypes
  imports Prelude "HOL-Library.Product_Lexorder" "HOL-Library.Multiset"
begin

text \<open>
  \<open>ledger/journal-types.ts\<close>: module manifests and the registry of journal types.
  The registry's three maps are association lists in insertion order; the identity
  text \<open>key@version\<close> is the pair of the two (a key contains no \<open>@\<close>).
\<close>

section \<open>Definitions\<close>

record journal_type_definition =
  jt_id :: string
  jt_key :: string
  jt_version :: int
  jt_owner_module :: string
  jt_label :: string
  jt_correction_route :: string
  jt_editable :: bool
  jt_deterministic :: bool

record module_manifest =
  mm_key :: string
  mm_version :: int
  mm_journal_types :: "journal_type_definition list"

datatype registry_error =
    ModuleNotCanonical string
  | JournalTypeNotOwned string
  | DuplicateModule string
  | DuplicateIdentity "string \<times> int"
  | DuplicateId string

text \<open>\<open>/^[a-z][a-z0-9-]*\.[a-z][a-z0-9-]*$/\<close>\<close>

definition journal_type_key :: "string \<Rightarrow> bool" where
  "journal_type_key s =
     (let m = takeWhile (\<lambda>c. c \<noteq> CHR ''.'') s; r = dropWhile (\<lambda>c. c \<noteq> CHR ''.'') s
      in r \<noteq> [] \<and> module_key m \<and> module_key (tl r))"

definition hex_lower :: "char \<Rightarrow> bool" where
  "hex_lower c \<longleftrightarrow> is_digit c \<or> char_between (CHR ''a'') (CHR ''f'') c"

text \<open>\<open>/^[0-9a-f]{8}-[0-9a-f]{4}-[1-8][0-9a-f]{3}-[89ab][0-9a-f]{3}-[0-9a-f]{12}$/\<close>\<close>

definition uuid_pattern :: "string \<Rightarrow> bool" where
  "uuid_pattern s \<longleftrightarrow>
     length s = 36 \<and>
     list_all (\<lambda>(i, c).
         if i \<in> {8, 13, 18, 23} then c = CHR ''-''
         else if i = 14 then char_between (CHR ''1'') (CHR ''8'') c
         else if i = 19 then c \<in> set ''89ab''
         else hex_lower c) (enumerate 0 s)"

definition journal_type_canonical :: "module_manifest \<Rightarrow> journal_type_definition \<Rightarrow> bool" where
  "journal_type_canonical m t \<longleftrightarrow>
     uuid_pattern (jt_id t) \<and> journal_type_key (jt_key t) \<and>
     starts_with (mm_key m @ ''.'') (jt_key t) \<and> jt_owner_module t = mm_key m \<and>
     jt_version t \<ge> 1 \<and> trim (jt_label t) \<noteq> [] \<and>
     starts_with ''/app/'' (jt_correction_route t)"

definition define_accounting_module :: "module_manifest \<Rightarrow> registry_error + module_manifest" where
  "define_accounting_module m =
     bindE (throw_if (\<not> module_key (mm_key m) \<or> mm_version m < 1) (ModuleNotCanonical (mm_key m))) (\<lambda>_.
     bindE (foldE (\<lambda>_ t. throw_if (\<not> journal_type_canonical m t) (JournalTypeNotOwned (jt_key t)))
       () (mm_journal_types m)) (\<lambda>_.
     Inr m))"

record registry =
  reg_modules :: "string list"
  by_identity :: "((string \<times> int) \<times> journal_type_definition) list"
  by_id :: "(string \<times> journal_type_definition) list"
  latest_by_key :: "(string \<times> journal_type_definition) list"

definition empty_registry :: registry where
  "empty_registry = \<lparr>reg_modules = [], by_identity = [], by_id = [], latest_by_key = []\<rparr>"

definition register_type :: "registry \<Rightarrow> journal_type_definition \<Rightarrow> registry_error + registry" where
  "register_type R t =
     (let identity = (jt_key t, jt_version t) in
      bindE (throw_if (map_of (by_identity R) identity \<noteq> None) (DuplicateIdentity identity)) (\<lambda>_.
      bindE (throw_if (map_of (by_id R) (jt_id t) \<noteq> None) (DuplicateId (jt_id t))) (\<lambda>_.
      Inr (R\<lparr>by_identity := map_set identity t (by_identity R),
             by_id := map_set (jt_id t) t (by_id R),
             latest_by_key :=
               (case map_of (latest_by_key R) (jt_key t) of
                  None \<Rightarrow> map_set (jt_key t) t (latest_by_key R)
                | Some current \<Rightarrow>
                    if jt_version current < jt_version t
                    then map_set (jt_key t) t (latest_by_key R) else latest_by_key R)\<rparr>))))"

definition register_manifest :: "registry \<Rightarrow> module_manifest \<Rightarrow> registry_error + registry" where
  "register_manifest R m =
     bindE (define_accounting_module m) (\<lambda>_.
     bindE (throw_if (mm_key m \<in> set (reg_modules R)) (DuplicateModule (mm_key m))) (\<lambda>_.
     foldE register_type (R\<lparr>reg_modules := reg_modules R @ [mm_key m]\<rparr>) (mm_journal_types m)))"

definition journal_type_registry :: "module_manifest list \<Rightarrow> registry_error + registry" where
  "journal_type_registry manifests = foldE register_manifest empty_registry manifests"

definition registry_get :: "registry \<Rightarrow> string \<Rightarrow> int option \<Rightarrow> journal_type_definition option" where
  "registry_get R key version =
     (case version of
        None \<Rightarrow> map_of (latest_by_key R) key
      | Some v \<Rightarrow> map_of (by_identity R) (key, v))"

definition registry_list :: "registry \<Rightarrow> journal_type_definition list" where
  "registry_list R = sort_key (\<lambda>t. (jt_key t, jt_version t)) (map snd (by_identity R))"

section \<open>Lemmas\<close>

text \<open>
  The registry's invariant: it holds exactly the definitions \<open>ts\<close>, under their
  identity and identifier, and the latest version of each key.
\<close>

definition is_latest :: "journal_type_definition list \<Rightarrow> string \<Rightarrow> journal_type_definition option \<Rightarrow> bool" where
  "is_latest ts key m \<longleftrightarrow>
     (case m of
        None \<Rightarrow> \<forall>t \<in> set ts. jt_key t \<noteq> key
      | Some t \<Rightarrow> t \<in> set ts \<and> jt_key t = key \<and> (\<forall>u \<in> set ts. jt_key u = key \<longrightarrow> jt_version u \<le> jt_version t))"

definition registry_ok :: "registry \<Rightarrow> journal_type_definition list \<Rightarrow> bool" where
  "registry_ok R ts \<longleftrightarrow>
     by_identity R = map (\<lambda>t. ((jt_key t, jt_version t), t)) ts \<and>
     by_id R = map (\<lambda>t. (jt_id t, t)) ts \<and>
     distinct (map (\<lambda>t. (jt_key t, jt_version t)) ts) \<and> distinct (map jt_id ts) \<and>
     (\<forall>key. is_latest ts key (map_of (latest_by_key R) key))"

lemma map_of_keyed_None: "map_of (map (\<lambda>t. (f t, t)) ts) k = None \<longleftrightarrow> k \<notin> f ` set ts"
  by (induction ts) auto

lemma map_of_keyed_Some:
  "distinct (map f ts) \<Longrightarrow> map_of (map (\<lambda>t. (f t, t)) ts) k = Some t \<longleftrightarrow> t \<in> set ts \<and> f t = k"
  by (induction ts) (auto simp: image_iff)

lemma latest_other: "key \<noteq> jt_key t \<Longrightarrow> is_latest (ts @ [t]) key m = is_latest ts key m"
  by (cases m) (auto simp: is_latest_def)

lemma latest_step:
  assumes "is_latest ts (jt_key t) m"
  shows "is_latest (ts @ [t]) (jt_key t)
    (case m of None \<Rightarrow> Some t | Some c \<Rightarrow> if jt_version c < jt_version t then Some t else Some c)"
  using assms by (cases m) (auto simp: is_latest_def)

lemma latest_by_key_step:
  assumes "\<forall>key. is_latest ts key (map_of L key)"
  shows "is_latest (ts @ [t]) key (map_of (case map_of L (jt_key t) of
      None \<Rightarrow> map_set (jt_key t) t L
    | Some c \<Rightarrow> if jt_version c < jt_version t then map_set (jt_key t) t L else L) key)"
proof (cases "key = jt_key t")
  case True
  moreover have "is_latest ts (jt_key t) (map_of L (jt_key t))" using assms by blast
  ultimately show ?thesis using latest_step [of ts t "map_of L (jt_key t)"]
    by (cases "map_of L (jt_key t)") (auto split: if_splits)
next
  case False
  have "map_of (case map_of L (jt_key t) of
      None \<Rightarrow> map_set (jt_key t) t L
    | Some c \<Rightarrow> if jt_version c < jt_version t then map_set (jt_key t) t L else L) key = map_of L key"
    using False by (cases "map_of L (jt_key t)") auto
  then show ?thesis using assms False by (simp add: latest_other)
qed

lemma register_type_ok:
  assumes "register_type R t = Inr R'" and ok: "registry_ok R ts"
  shows "registry_ok R' (ts @ [t])"
proof -
  have id: "map_of (by_identity R) (jt_key t, jt_version t) = None" "map_of (by_id R) (jt_id t) = None"
    and R': "by_identity R' = by_identity R @ [((jt_key t, jt_version t), t)]"
      "by_id R' = by_id R @ [(jt_id t, t)]"
      "latest_by_key R' = (case map_of (latest_by_key R) (jt_key t) of
                  None \<Rightarrow> map_set (jt_key t) t (latest_by_key R)
                | Some c \<Rightarrow> if jt_version c < jt_version t
                    then map_set (jt_key t) t (latest_by_key R) else latest_by_key R)"
    using assms(1) by (auto simp: register_type_def Let_def bindE_Inr_iff throw_if_Inr_iff map_set_new)
  have fresh: "(jt_key t, jt_version t) \<notin> (\<lambda>t. (jt_key t, jt_version t)) ` set ts" "jt_id t \<notin> jt_id ` set ts"
    using id ok by (auto simp: registry_ok_def map_of_keyed_None)
  have latest: "\<forall>key. is_latest (ts @ [t]) key (map_of (latest_by_key R') key)"
    unfolding R'(3) using ok latest_by_key_step by (simp add: registry_ok_def)
  show ?thesis
    unfolding registry_ok_def using latest ok fresh R'(1,2)
    by (simp add: registry_ok_def image_iff)
qed

lemma register_types_ok:
  "foldE register_type R ts = Inr R' \<Longrightarrow> registry_ok R us \<Longrightarrow> registry_ok R' (us @ ts)"
proof (induction ts arbitrary: R us)
  case (Cons t ts)
  then obtain R1 where "register_type R t = Inr R1" "foldE register_type R1 ts = Inr R'"
    by (auto simp: bindE_Inr_iff)
  then show ?case using Cons.IH [of R1 "us @ [t]"] Cons.prems(2) register_type_ok by fastforce
qed simp

lemma register_manifest_ok:
  assumes "register_manifest R m = Inr R'" "registry_ok R us"
  shows "registry_ok R' (us @ mm_journal_types m)
    \<and> (\<forall>t \<in> set (mm_journal_types m). journal_type_canonical m t)"
proof -
  have "foldE register_type (R\<lparr>reg_modules := reg_modules R @ [mm_key m]\<rparr>) (mm_journal_types m) = Inr R'"
    and d: "define_accounting_module m = Inr m"
    using assms(1) by (auto simp: register_manifest_def bindE_Inr_iff define_accounting_module_def)
  moreover have "registry_ok (R\<lparr>reg_modules := reg_modules R @ [mm_key m]\<rparr>) us"
    using assms(2) by (simp add: registry_ok_def)
  moreover have canonical: "foldE (\<lambda>_ t. throw_if (\<not> journal_type_canonical m t) (JournalTypeNotOwned (jt_key t)))
       () ts = Inr () \<Longrightarrow> \<forall>t \<in> set ts. journal_type_canonical m t" for ts
    by (induction ts) (auto simp: bindE_Inr_iff throw_if_Inr_iff)
  ultimately show ?thesis using register_types_ok
    by (auto simp: define_accounting_module_def bindE_Inr_iff)
qed

lemma registry_built:
  assumes "journal_type_registry ms = Inr R"
  shows "registry_ok R (concat (map mm_journal_types ms))
    \<and> (\<forall>m \<in> set ms. \<forall>t \<in> set (mm_journal_types m). journal_type_canonical m t)"
proof -
  have "foldE register_manifest R0 ms = Inr R \<Longrightarrow> registry_ok R0 us \<Longrightarrow>
      registry_ok R (us @ concat (map mm_journal_types ms))
      \<and> (\<forall>m \<in> set ms. \<forall>t \<in> set (mm_journal_types m). journal_type_canonical m t)" for R0 us
  proof (induction ms arbitrary: R0 us)
    case (Cons m ms)
    then obtain R1 where R1: "register_manifest R0 m = Inr R1" "foldE register_manifest R1 ms = Inr R"
      by (auto simp: bindE_Inr_iff)
    then show ?case
      using Cons.IH [OF R1(2), of "us @ mm_journal_types m"] register_manifest_ok [OF R1(1) Cons.prems(2)]
      by auto
  qed simp
  moreover have "registry_ok empty_registry []"
    by (simp add: registry_ok_def empty_registry_def is_latest_def)
  ultimately show ?thesis using assms by (fastforce simp: journal_type_registry_def)
qed

section \<open>Properties\<close>

text \<open>
  The registry answers from the manifests.  A registry that was built holds
  every journal type of every manifest, each owned by the module its key names; a
  lookup with a version returns the one definition with that key and version, and a
  lookup without one returns the definition of the key with the highest version.
\<close>

theorem registry_lookup:
  assumes "journal_type_registry ms = Inr R"
  shows "(\<forall>key v t. registry_get R key (Some v) = Some t \<longleftrightarrow>
        t \<in> set (concat (map mm_journal_types ms)) \<and> jt_key t = key \<and> jt_version t = v)
    \<and> (\<forall>key. is_latest (concat (map mm_journal_types ms)) key (registry_get R key None))
    \<and> (\<forall>m \<in> set ms. \<forall>t \<in> set (mm_journal_types m). jt_owner_module t = mm_key m)
    \<and> mset (registry_list R) = mset (concat (map mm_journal_types ms))"
proof -
  let ?ts = "concat (map mm_journal_types ms)"
  have ok: "registry_ok R ?ts" and canonical: "\<forall>m \<in> set ms. \<forall>t \<in> set (mm_journal_types m). journal_type_canonical m t"
    using registry_built [OF assms] by auto
  have "registry_get R key (Some v) = Some t \<longleftrightarrow> t \<in> set ?ts \<and> jt_key t = key \<and> jt_version t = v" for key v t
    using ok map_of_keyed_Some [of "\<lambda>t. (jt_key t, jt_version t)" ?ts "(key, v)" t]
    unfolding registry_ok_def registry_get_def by auto
  moreover have "is_latest ?ts key (registry_get R key None)" for key
    using ok by (auto simp: registry_ok_def registry_get_def)
  moreover have "mset (registry_list R) = mset ?ts"
    using ok by (auto simp: registry_ok_def registry_list_def o_def)
  ultimately show ?thesis using canonical by (auto simp: journal_type_canonical_def)
qed

definition example_type :: "int \<Rightarrow> string \<Rightarrow> journal_type_definition" where
  "example_type v ident = \<lparr>jt_id = ident, jt_key = ''ledger.manual'', jt_version = v, jt_owner_module = ''ledger'',
     jt_label = ''Manual journal'', jt_correction_route = ''/app/journals'', jt_editable = True,
     jt_deterministic = False\<rparr>"

definition example_manifest :: module_manifest where
  "example_manifest = \<lparr>mm_key = ''ledger'', mm_version = 1, mm_journal_types =
     [example_type 2 ''00000000-0000-4000-8000-000000000002'',
      example_type 1 ''00000000-0000-4000-8000-000000000001'']\<rparr>"

definition example_registry :: registry where
  "example_registry =
     (case journal_type_registry [example_manifest] of Inl _ \<Rightarrow> empty_registry | Inr R \<Rightarrow> R)"

theorem registry_lookup_witness:
  "map jt_version (registry_list example_registry) = [1, 2]
    \<and> registry_get example_registry ''ledger.manual'' (Some 2) =
        Some (mm_journal_types example_manifest ! 0)
    \<and> is_latest (mm_journal_types example_manifest) ''ledger.manual''
        (registry_get example_registry ''ledger.manual'' None)"
proof -
  have built: "journal_type_registry [example_manifest] = Inr example_registry" by code_simp
  have "registry_get example_registry ''ledger.manual'' (Some 2) = Some (mm_journal_types example_manifest ! 0)"
    using registry_lookup [OF built] by (auto simp: example_manifest_def example_type_def)
  moreover have "is_latest (mm_journal_types example_manifest) ''ledger.manual''
      (registry_get example_registry ''ledger.manual'' None)"
    using registry_lookup [OF built] by simp
  moreover have "map jt_version (registry_list example_registry) = [1, 2]" by code_simp
  ultimately show ?thesis by simp
qed

end
