(* ===== verification/TaxPacks.thy ===== *)
theory TaxPacks
  imports Money
begin

text \<open>
  The tax engine: \<open>tax/types.ts\<close>, \<open>tax/engine.ts\<close> and the four packs under
  \<open>tax/packs\<close>.  A pack is a function from tax facts to a decision; a thrown
  \<open>Error\<close> is \<open>Inl\<close>.  Display labels are left out and the human-readable review
  reasons are the constructors of \<open>review_reason\<close>; everything else of a decision
  is kept, amounts as the texts the source writes.
\<close>

section \<open>Facts and decisions\<close>

datatype tax_direction = Sale | Purchase

datatype tax_category = CatStandard | CatZeroRated | CatExempt | CatResale | CatMarketplace | CatOutOfScope

record tax_facts =
  tf_direction :: tax_direction
  tf_tax_point :: string
  tf_currency :: string
  tf_basis :: string
  tf_country :: string
  tf_region :: string
  tf_city :: "string option"
  tf_location :: "string option"
  tf_category :: tax_category
  tf_registration :: "string option"
  tf_evidence :: "string option"
  tf_recoverable :: "string option"

datatype tax_treatment = Payable | Recoverable | Nonrecoverable | SelfAssessedPayable | DisclosureOnly

record tax_component =
  tc_key :: string
  tc_rate :: string
  tc_amount :: string
  tc_treatment :: tax_treatment

datatype tax_status =
    Applied | ZeroRated | Exempt | Resale | MarketplaceCollected | OutOfScope | ManualReviewRequired

datatype review_reason =
    OntarioPlaceOfSupply | CurrencyNotConfigured | RegistrationMissing | UnsupportedCategory tax_category
  | RecoverableNotDecimal | RecoverableOutOfRange | AtlanticProvinceOrDate | WashingtonSourcing
  | NoEffectiveRate | LocationCodeUnverified | ResellerPermitMissing | MarketplaceEvidenceMissing
  | NoPackInstalled | EvidenceMissing tax_category
  | SourceRoundingUnreviewed | SourceOverrideUnreviewed

datatype override_state = PendingReview | Reviewed

datatype reviewed_treatment =
    OutputPayable | FullyRecoverable | PartiallyRecoverable | NonrecoverableTreatment

record source_override =
  so_state :: override_state
  so_rate_percent :: string
  so_source_amount :: string
  so_calculated_amount :: string
  so_adjustment_amount :: string
  so_automated_status :: tax_status
  so_automated_rate_percent :: string
  so_automated_amount :: string
  so_automated_rule_key :: string
  so_jurisdiction :: string
  so_component_key :: string
  so_reason :: string
  so_evidence :: string
  so_reviewed_treatment :: "reviewed_treatment option"
  so_adjustment_reason :: "string option"
  so_adjustment_evidence :: "string option"

record tax_decision =
  td_status :: tax_status
  td_pack_key :: string
  td_pack_version :: string
  td_rule_key :: string
  td_jurisdiction :: string
  td_effective_from :: string
  td_effective_to :: "string option"
  td_facts :: tax_facts
  td_components :: "tax_component list"
  td_total_tax :: string
  td_source :: string
  td_review_reason :: "review_reason option"
  td_source_override :: "source_override option"

datatype tax_error = TaxMoney money_error | PackNotRegistered string

text \<open>\<open>this.key\<close> and \<open>this.version\<close> of a pack.\<close>

type_synonym pack_id = "string \<times> string"

definition manual_review :: "pack_id \<Rightarrow> tax_facts \<Rightarrow> review_reason \<Rightarrow> string \<Rightarrow> tax_decision" where
  "manual_review pack facts reason source =
     \<lparr>td_status = ManualReviewRequired, td_pack_key = fst pack, td_pack_version = snd pack,
      td_rule_key = ''unsupported-or-incomplete'',
      td_jurisdiction = tf_country facts @ ''-'' @ tf_region facts,
      td_effective_from = tf_tax_point facts, td_effective_to = None, td_facts = facts,
      td_components = [], td_total_tax = ''0.00'', td_source = source,
      td_review_reason = Some reason, td_source_override = None\<rparr>"

text \<open>\<open>status.toLowerCase().replaceAll("_", "-")\<close>\<close>

fun status_slug :: "tax_status \<Rightarrow> string" where
  "status_slug Applied = ''applied''"
| "status_slug ZeroRated = ''zero-rated''"
| "status_slug Exempt = ''exempt''"
| "status_slug Resale = ''resale''"
| "status_slug MarketplaceCollected = ''marketplace-collected''"
| "status_slug OutOfScope = ''out-of-scope''"
| "status_slug ManualReviewRequired = ''manual-review-required''"

text \<open>An amount as text at the currency's scale, and a product with a literal rate.\<close>

definition fixed_amount :: "'d decimal_api \<Rightarrow> string \<Rightarrow> 'd \<Rightarrow> money_error + string" where
  "fixed_amount D currency d = bindE (minor_units currency) (\<lambda>n. Inr (dec_fixed D n d))"

definition times_literal :: "'d decimal_api \<Rightarrow> 'd \<Rightarrow> string \<Rightarrow> money_error + 'd" where
  "times_literal D a s = bindE (option_to_result InvalidDecimal (dec_new D s)) (\<lambda>r. Inr (dec_times D a r))"

definition zero_tax :: "'d decimal_api \<Rightarrow> string \<Rightarrow> money_error + string" where
  "zero_tax D currency = bindE (quantize_money D (NumIn 0) currency) (fixed_amount D currency)"

section \<open>The recovery split of a purchase\<close>

text \<open>
  The block of the two HST packs that reads the recoverable percentage: the outer
  \<open>Inl\<close> is the reason for a manual review.
\<close>

definition recovery_rate :: "'d decimal_api \<Rightarrow> tax_facts \<Rightarrow> review_reason + 'd" where
  "recovery_rate D facts =
     (if tf_direction facts = Purchase then
        (case exact D (TextIn (or_else (tf_recoverable facts) ''0'')) of
           Inl _ \<Rightarrow> Inl RecoverableNotDecimal
         | Inr p \<Rightarrow>
             let rate = dec_div D p (dec_int D 100)
             in if dec_is_neg D rate \<or> dec_gt D rate (dec_int D 1)
                then Inl RecoverableOutOfRange else Inr rate)
      else Inr (dec_int D 0))"

definition component :: "string \<Rightarrow> string \<Rightarrow> string \<Rightarrow> tax_treatment \<Rightarrow> tax_component" where
  "component key rate amount treatment =
     \<lparr>tc_key = key, tc_rate = rate, tc_amount = amount, tc_treatment = treatment\<rparr>"

definition hst_components ::
  "'d decimal_api \<Rightarrow> tax_facts \<Rightarrow> string \<Rightarrow> 'd \<Rightarrow> 'd \<Rightarrow> money_error + tax_component list" where
  "hst_components D facts rate tax recovery =
     (let currency = tf_currency facts; purchase = tf_direction facts = Purchase in
      bindE (if purchase then quantize_money D (DecIn (dec_times D tax recovery)) currency
             else Inr (dec_int D 0)) (\<lambda>recoverable.
      let nonrecoverable = (if purchase then dec_minus D tax recoverable else dec_int D 0) in
      if \<not> purchase then
        bindE (fixed_amount D currency tax) (\<lambda>a. Inr [component ''HST'' rate a Payable])
      else
        bindE (fixed_amount D currency recoverable) (\<lambda>r.
        bindE (fixed_amount D currency nonrecoverable) (\<lambda>n.
        Inr ((if \<not> dec_is_zero D recoverable then [component ''HST_RECOVERABLE'' rate r Recoverable] else [])
           @ (if \<not> dec_is_zero D nonrecoverable
              then [component ''HST_NONRECOVERABLE'' rate n Nonrecoverable] else []))))))"

section \<open>Ontario\<close>

definition ontario_pack :: pack_id where
  "ontario_pack = (''ca.on.hst'', ''2026.08.26'')"

definition ontario_source :: string where
  "ontario_source = ''https://www.canada.ca/en/revenue-agency/services/tax/businesses/topics/gst-hst-businesses/charge-collect-place-supply.html''"

definition ontario_zero :: "'d decimal_api \<Rightarrow> tax_facts \<Rightarrow> tax_status \<Rightarrow> money_error + tax_decision" where
  "ontario_zero D facts status =
     bindE (zero_tax D (tf_currency facts)) (\<lambda>total.
     Inr \<lparr>td_status = status, td_pack_key = fst ontario_pack, td_pack_version = snd ontario_pack,
          td_rule_key = ''ontario-'' @ status_slug status, td_jurisdiction = ''CA-ON'',
          td_effective_from = ''2016-07-01'', td_effective_to = None, td_facts = facts,
          td_components = [], td_total_tax = total, td_source = ontario_source,
          td_review_reason = None, td_source_override = None\<rparr>)"

definition ontario_decide :: "'d decimal_api \<Rightarrow> tax_facts \<Rightarrow> money_error + tax_decision" where
  "ontario_decide D facts =
     (let currency = tf_currency facts;
          review = (\<lambda>reason. Inr (manual_review ontario_pack facts reason ontario_source)) in
      if tf_country facts \<noteq> ''CA'' \<or> tf_region facts \<noteq> ''ON'' then review OntarioPlaceOfSupply
      else case quantize_money D (NumIn 0) currency of
        Inl _ \<Rightarrow> review CurrencyNotConfigured
      | Inr _ \<Rightarrow>
        if \<not> truthy (tf_registration facts) then review RegistrationMissing
        else if tf_category facts = CatZeroRated then ontario_zero D facts ZeroRated
        else if tf_category facts = CatExempt then ontario_zero D facts Exempt
        else if tf_category facts = CatOutOfScope then ontario_zero D facts OutOfScope
        else if tf_category facts \<noteq> CatStandard then review (UnsupportedCategory (tf_category facts))
        else
          bindE (exact D (TextIn (tf_basis facts))) (\<lambda>basis.
          case bindE (times_literal D basis ''0.13'') (\<lambda>t. quantize_money D (DecIn t) currency) of
            Inl _ \<Rightarrow> review CurrencyNotConfigured
          | Inr tax \<Rightarrow>
            (case recovery_rate D facts of
               Inl reason \<Rightarrow> review reason
             | Inr recovery \<Rightarrow>
               bindE (hst_components D facts ''0.13'' tax recovery) (\<lambda>components.
               bindE (fixed_amount D currency tax) (\<lambda>total.
               Inr \<lparr>td_status = Applied, td_pack_key = fst ontario_pack, td_pack_version = snd ontario_pack,
                    td_rule_key = (if tf_direction facts = Sale then ''on-hst-output-standard''
                                   else ''on-hst-input-standard''),
                    td_jurisdiction = ''CA-ON'', td_effective_from = ''2016-07-01'', td_effective_to = None,
                    td_facts = facts, td_components = components, td_total_tax = total,
                    td_source = ontario_source, td_review_reason = None, td_source_override = None\<rparr>)))))"

section \<open>Atlantic provinces\<close>

definition atlantic_pack :: pack_id where
  "atlantic_pack = (''ca.atlantic.hst'', ''2026.09.21'')"

definition atlantic_source :: string where
  "atlantic_source = ''https://www.canada.ca/en/revenue-agency/services/tax/businesses/topics/gst-hst-businesses/charge-collect-which-rate/calculator.html''"

record rate_window =
  rw_rate :: string
  rw_from :: string
  rw_to :: "string option"

definition atlantic_rate_window :: "string \<Rightarrow> string \<Rightarrow> rate_window option" where
  "atlantic_rate_window region date =
     (if region = ''NB'' \<and> date \<ge> ''2016-07-01'' then
        Some \<lparr>rw_rate = ''0.15'', rw_from = ''2016-07-01'', rw_to = None\<rparr>
      else if region = ''NL'' \<and> date \<ge> ''2016-07-01'' then
        Some \<lparr>rw_rate = ''0.15'', rw_from = ''2016-07-01'', rw_to = None\<rparr>
      else if region = ''PE'' \<and> date \<ge> ''2016-10-01'' then
        Some \<lparr>rw_rate = ''0.15'', rw_from = ''2016-10-01'', rw_to = None\<rparr>
      else if region = ''NS'' \<and> date \<ge> ''2025-04-01'' then
        Some \<lparr>rw_rate = ''0.14'', rw_from = ''2025-04-01'', rw_to = None\<rparr>
      else if region = ''NS'' \<and> date \<ge> ''2010-07-01'' then
        Some \<lparr>rw_rate = ''0.15'', rw_from = ''2010-07-01'', rw_to = Some ''2025-03-31''\<rparr>
      else None)"

definition atlantic_zero ::
  "'d decimal_api \<Rightarrow> tax_facts \<Rightarrow> rate_window \<Rightarrow> tax_status \<Rightarrow> money_error + tax_decision" where
  "atlantic_zero D facts window status =
     bindE (zero_tax D (tf_currency facts)) (\<lambda>total.
     Inr \<lparr>td_status = status, td_pack_key = fst atlantic_pack, td_pack_version = snd atlantic_pack,
          td_rule_key = ''atlantic-'' @ status_slug status, td_jurisdiction = ''CA-'' @ tf_region facts,
          td_effective_from = rw_from window, td_effective_to = rw_to window, td_facts = facts,
          td_components = [], td_total_tax = total, td_source = atlantic_source,
          td_review_reason = None, td_source_override = None\<rparr>)"

definition atlantic_decide :: "'d decimal_api \<Rightarrow> tax_facts \<Rightarrow> money_error + tax_decision" where
  "atlantic_decide D facts =
     (let currency = tf_currency facts;
          review = (\<lambda>reason. Inr (manual_review atlantic_pack facts reason atlantic_source)) in
      case (if tf_country facts = ''CA'' then atlantic_rate_window (tf_region facts) (tf_tax_point facts)
            else None) of
        None \<Rightarrow> review AtlanticProvinceOrDate
      | Some window \<Rightarrow>
        (case quantize_money D (NumIn 0) currency of
           Inl _ \<Rightarrow> review CurrencyNotConfigured
         | Inr _ \<Rightarrow>
           if \<not> truthy (tf_registration facts) then review RegistrationMissing
           else if tf_category facts = CatZeroRated then atlantic_zero D facts window ZeroRated
           else if tf_category facts = CatExempt then atlantic_zero D facts window Exempt
           else if tf_category facts = CatOutOfScope then atlantic_zero D facts window OutOfScope
           else if tf_category facts \<noteq> CatStandard then review (UnsupportedCategory (tf_category facts))
           else
             bindE (exact D (TextIn (tf_basis facts))) (\<lambda>basis.
             bindE (times_literal D basis (rw_rate window)) (\<lambda>t.
             bindE (quantize_money D (DecIn t) currency) (\<lambda>tax.
             case recovery_rate D facts of
               Inl reason \<Rightarrow> review reason
             | Inr recovery \<Rightarrow>
               bindE (hst_components D facts (rw_rate window) tax recovery) (\<lambda>components.
               bindE (fixed_amount D currency tax) (\<lambda>total.
               Inr \<lparr>td_status = Applied, td_pack_key = fst atlantic_pack,
                    td_pack_version = snd atlantic_pack,
                    td_rule_key = (if tf_direction facts = Sale then ''atlantic-hst-output-standard''
                                   else ''atlantic-hst-input-standard''),
                    td_jurisdiction = ''CA-'' @ tf_region facts, td_effective_from = rw_from window,
                    td_effective_to = rw_to window, td_facts = facts, td_components = components,
                    td_total_tax = total, td_source = atlantic_source, td_review_reason = None,
                    td_source_override = None\<rparr>)))))))"

section \<open>Washington\<close>

definition washington_pack :: pack_id where
  "washington_pack = (''us.wa.sales-use'', ''2026.Q3.DOR'')"

definition washington_source :: string where
  "washington_source = ''https://dor.wa.gov/taxes-rates/sales-use-tax-rates/local-sales-use-tax/local-sales-use-tax-rate-table''"

definition washington_from :: string where
  "washington_from = ''2026-07-01''"

definition washington_to :: string where
  "washington_to = ''2026-09-30''"

definition washington_zero :: "'d decimal_api \<Rightarrow> tax_facts \<Rightarrow> tax_status \<Rightarrow> money_error + tax_decision" where
  "washington_zero D facts status =
     bindE (zero_tax D (tf_currency facts)) (\<lambda>total.
     Inr \<lparr>td_status = status, td_pack_key = fst washington_pack, td_pack_version = snd washington_pack,
          td_rule_key = ''washington-'' @ status_slug status, td_jurisdiction = ''US-WA-1726'',
          td_effective_from = washington_from, td_effective_to = Some washington_to, td_facts = facts,
          td_components = [], td_total_tax = total, td_source = washington_source,
          td_review_reason = None, td_source_override = None\<rparr>)"

definition washington_decide :: "'d decimal_api \<Rightarrow> tax_facts \<Rightarrow> money_error + tax_decision" where
  "washington_decide D facts =
     (let currency = tf_currency facts;
          review = (\<lambda>reason. Inr (manual_review washington_pack facts reason washington_source));
          treatment = (if tf_direction facts = Sale then Payable else SelfAssessedPayable) in
      if tf_country facts \<noteq> ''US'' \<or> tf_region facts \<noteq> ''WA'' then review WashingtonSourcing
      else case quantize_money D (NumIn 0) currency of
        Inl _ \<Rightarrow> review CurrencyNotConfigured
      | Inr _ \<Rightarrow>
        if tf_tax_point facts < washington_from \<or> tf_tax_point facts > washington_to
        then review NoEffectiveRate
        else if tf_location facts \<noteq> Some ''1726'' \<or> map_option to_upper (tf_city facts) \<noteq> Some ''SEATTLE''
        then review LocationCodeUnverified
        else if tf_category facts = CatResale then
          (if \<not> truthy (tf_evidence facts) then review ResellerPermitMissing
           else washington_zero D facts Resale)
        else if tf_category facts = CatMarketplace then
          (if \<not> truthy (tf_evidence facts) then review MarketplaceEvidenceMissing
           else washington_zero D facts MarketplaceCollected)
        else if tf_category facts = CatOutOfScope then washington_zero D facts OutOfScope
        else if tf_category facts \<noteq> CatStandard then review (UnsupportedCategory (tf_category facts))
        else
          bindE (exact D (TextIn (tf_basis facts))) (\<lambda>basis.
          case bindE (bindE (times_literal D basis ''0.065'') (\<lambda>t. quantize_money D (DecIn t) currency))
                 (\<lambda>state. bindE (bindE (times_literal D basis ''0.0405'')
                     (\<lambda>t. quantize_money D (DecIn t) currency)) (\<lambda>local. Inr (state, local))) of
            Inl _ \<Rightarrow> review CurrencyNotConfigured
          | Inr (state, local) \<Rightarrow>
            bindE (fixed_amount D currency state) (\<lambda>a.
            bindE (fixed_amount D currency local) (\<lambda>b.
            let components = [component ''WA_STATE'' ''0.065'' a treatment,
                              component ''WA_LOCAL_1726'' ''0.0405'' b treatment] in
            bindE (sum_exact D (map (\<lambda>c. TextIn (tc_amount c)) components)) (\<lambda>sum.
            bindE (fixed_amount D currency sum) (\<lambda>total.
            Inr \<lparr>td_status = Applied, td_pack_key = fst washington_pack,
                 td_pack_version = snd washington_pack,
                 td_rule_key = (if tf_direction facts = Sale then ''wa-retail-sale-destination''
                                else ''wa-consumer-use''),
                 td_jurisdiction = ''US-WA-1726'', td_effective_from = washington_from,
                 td_effective_to = Some washington_to, td_facts = facts, td_components = components,
                 td_total_tax = total, td_source = washington_source, td_review_reason = None,
                 td_source_override = None\<rparr>))))))"

section \<open>The fallback pack and the engine\<close>

definition generic_pack :: pack_id where
  "generic_pack = (''generic.unsupported'', ''2026.08.27'')"

definition generic_source :: string where
  "generic_source = ''Business Finlynq generic jurisdiction fallback''"

text \<open>The status \<open>evidencedZeroDecision\<close> takes over from a category other than standard.\<close>

fun category_status :: "tax_category \<Rightarrow> tax_status" where
  "category_status CatZeroRated = ZeroRated"
| "category_status CatExempt = Exempt"
| "category_status CatResale = Resale"
| "category_status CatMarketplace = MarketplaceCollected"
| "category_status CatOutOfScope = OutOfScope"
| "category_status CatStandard = ManualReviewRequired"

definition evidenced_zero :: "'d decimal_api \<Rightarrow> tax_facts \<Rightarrow> tax_status \<Rightarrow> money_error + tax_decision" where
  "evidenced_zero D facts status =
     bindE (zero_tax D (tf_currency facts)) (\<lambda>total.
     Inr \<lparr>td_status = status, td_pack_key = fst generic_pack, td_pack_version = snd generic_pack,
          td_rule_key = ''evidenced-'' @ status_slug status,
          td_jurisdiction = tf_country facts @ ''-'' @ tf_region facts,
          td_effective_from = tf_tax_point facts, td_effective_to = None, td_facts = facts,
          td_components = [], td_total_tax = total, td_source = generic_source,
          td_review_reason = None, td_source_override = None\<rparr>)"

definition generic_decide :: "'d decimal_api \<Rightarrow> tax_facts \<Rightarrow> money_error + tax_decision" where
  "generic_decide D facts =
     (case quantize_money D (NumIn 0) (tf_currency facts) of
        Inl _ \<Rightarrow> Inr (manual_review generic_pack facts CurrencyNotConfigured generic_source)
      | Inr _ \<Rightarrow>
        if tf_category facts \<noteq> CatStandard \<and> truthy (tf_evidence facts)
        then evidenced_zero D facts (category_status (tf_category facts))
        else Inr (manual_review generic_pack facts
          (if tf_category facts = CatStandard then NoPackInstalled else EvidenceMissing (tf_category facts))
          generic_source))"

definition registered_packs :: "'d decimal_api \<Rightarrow> (string \<times> (tax_facts \<Rightarrow> money_error + tax_decision)) list" where
  "registered_packs D =
     [(fst ontario_pack, ontario_decide D), (fst atlantic_pack, atlantic_decide D),
      (fst washington_pack, washington_decide D), (fst generic_pack, generic_decide D)]"

definition decide_tax :: "'d decimal_api \<Rightarrow> string \<Rightarrow> tax_facts \<Rightarrow> tax_error + tax_decision" where
  "decide_tax D pack_key facts =
     (case map_of (registered_packs D) pack_key of
        None \<Rightarrow> Inl (PackNotRegistered pack_key)
      | Some decide \<Rightarrow> map_errorE TaxMoney (decide facts))"

definition list_tax_packs :: "pack_id list" where
  "list_tax_packs = [ontario_pack, atlantic_pack, washington_pack, generic_pack]"

section \<open>What a decision promises\<close>

text \<open>The amounts of a list of components, and the statutory tax of each pack.\<close>

definition component_amounts :: "tax_component list \<Rightarrow> rat list \<Rightarrow> bool" where
  "component_amounts cs amounts \<longleftrightarrow> list_all2 (\<lambda>c a. text_amount (tc_amount c) a) cs amounts"

definition same_sign :: "rat \<Rightarrow> rat \<Rightarrow> bool" where
  "same_sign q a \<longleftrightarrow> (0 \<le> q \<longrightarrow> 0 \<le> a) \<and> (q \<le> 0 \<longrightarrow> a \<le> 0)"

definition atlantic_rate :: "tax_facts \<Rightarrow> rat" where
  "atlantic_rate facts =
     (if tf_region facts = ''NS'' \<and> tf_tax_point facts \<ge> ''2025-04-01'' then 14 / 100 else 15 / 100)"

definition statutory_tax :: "string \<Rightarrow> tax_facts \<Rightarrow> nat \<Rightarrow> rat \<Rightarrow> rat" where
  "statutory_tax key facts n q =
     (if key = ''ca.on.hst'' then half_up n (q * (13 / 100))
      else if key = ''ca.atlantic.hst'' then half_up n (q * atlantic_rate facts)
      else half_up n (q * (65 / 1000)) + half_up n (q * (405 / 10000)))"

definition treatments_fit :: "tax_direction \<Rightarrow> tax_component list \<Rightarrow> bool" where
  "treatments_fit dir cs \<longleftrightarrow> length cs \<le> 2 \<and>
     (if dir = Sale then list_all (\<lambda>c. tc_treatment c = Payable) cs
      else list_all (\<lambda>c. tc_treatment c \<in> {Recoverable, Nonrecoverable}) cs
        \<or> list_all (\<lambda>c. tc_treatment c = SelfAssessedPayable) cs)"

definition applied_ok :: "tax_facts \<Rightarrow> rat \<Rightarrow> tax_decision \<Rightarrow> bool" where
  "applied_ok facts q d \<longleftrightarrow>
     tf_category facts = CatStandard \<and> treatments_fit (tf_direction facts) (td_components d) \<and>
     (\<exists>n amounts. minor_units (tf_currency facts) = Inr n
       \<and> component_amounts (td_components d) amounts
       \<and> text_amount (td_total_tax d) (sum_list amounts)
       \<and> sum_list amounts = statutory_tax (td_pack_key d) facts n q
       \<and> (\<forall>a \<in> set amounts. scaled n a \<and> same_sign q a))"

definition zero_ok :: "tax_decision \<Rightarrow> bool" where
  "zero_ok d \<longleftrightarrow> td_components d = [] \<and> text_amount (td_total_tax d) 0"

definition decision_ok :: "string \<Rightarrow> tax_facts \<Rightarrow> rat \<Rightarrow> tax_decision \<Rightarrow> bool" where
  "decision_ok key facts q d \<longleftrightarrow>
     td_facts d = facts \<and> td_pack_key d = key \<and> td_source_override d = None \<and>
     (if td_status d = Applied then applied_ok facts q d \<and> td_review_reason d = None
      else if td_status d = ManualReviewRequired then zero_ok d \<and> td_review_reason d \<noteq> None
      else zero_ok d \<and> td_review_reason d = None \<and> tf_category facts \<noteq> CatStandard
        \<and> td_status d = category_status (tf_category facts)
        \<and> (truthy (tf_registration facts) \<or> truthy (tf_evidence facts)
           \<or> (key = ''us.wa.sales-use'' \<and> tf_category facts = CatOutOfScope)))"

lemma manual_review_ok [simp]:
  "fst pack = key \<Longrightarrow> decision_ok key facts q (manual_review pack facts reason source)"
proof -
  have "text_amount ''0.00'' 0" by code_simp
  then show "fst pack = key \<Longrightarrow> decision_ok key facts q (manual_review pack facts reason source)"
    by (simp add: decision_ok_def manual_review_def zero_ok_def)
qed

lemma quantize_zero_ok: "quantize_money D (NumIn 0) c = Inr z \<Longrightarrow> \<exists>n. minor_units c = Inr n"
  by (auto simp: quantize_money_def bindE_Inr_iff)

context decimal_lib
begin

lemma fixed_amount_text:
  assumes "dec_finite D d" "minor_units c = Inr n" "scaled n (val d)"
  shows "\<exists>s. fixed_amount D c d = Inr s \<and> text_amount s (val d)"
  using assms fixed_value [OF assms(1), of n] by (simp add: fixed_amount_def half_up_id)

lemma zero_tax_text:
  assumes "minor_units c = Inr n"
  shows "\<exists>s. zero_tax D c = Inr s \<and> text_amount s 0"
proof -
  have "quantize_money D (NumIn 0) c = Inr (dec_places D n (dec_int D 0))"
    using assms by (simp add: quantize_money_def check_finite_def)
  then show ?thesis
    using fixed_amount_text [of "dec_places D n (dec_int D 0)" c n] assms by (simp add: zero_tax_def)
qed

lemma times_literal_val:
  assumes "dec_finite D a" "text_amount s r" "fits (val a * r)"
  shows "\<exists>t. times_literal D a s = Inr t \<and> dec_finite D t \<and> val t = val a * r"
proof -
  obtain d where "dec_new D s = Some d" "dec_finite D d" "val d = r" using new_plain [OF assms(2)] by blast
  then show ?thesis using assms by (auto simp: times_literal_def times_exact)
qed

lemma quantized_product:
  assumes "text_amount b q" "ledger_amount q" "text_amount s r" "scaled 4 r" "\<bar>r\<bar> \<le> 1"
    and "minor_units c = Inr n" "exact D (TextIn b) = Inr d"
  shows "\<exists>t. bindE (times_literal D d s) (\<lambda>t. quantize_money D (DecIn t) c) = Inr t
    \<and> dec_finite D t \<and> val t = half_up n (q * r) \<and> \<bar>val t\<bar> \<le> 10 ^ 29"
proof -
  have d: "dec_finite D d" "val d = q" using exact_text [OF assms(1)] assms(7) by auto
  have "\<bar>q * r\<bar> \<le> 10 ^ 29 * 1"
    unfolding abs_mult using assms(2,5) by (intro mult_mono) (auto simp: ledger_amount_def)
  then have b: "\<bar>q * r\<bar> \<le> 10 ^ 29" by simp
  have "scaled (9 + 4) (q * r)" using assms(2,4) by (intro scaled_mult) (auto simp: ledger_amount_def)
  then have "fits (q * r)" by (rule fits_scaled [OF _ b]) simp
  then obtain t where t: "times_literal D d s = Inr t" "dec_finite D t" "val t = q * r"
    using times_literal_val [OF d(1) assms(3)] d(2) by auto
  then show ?thesis
    using assms(6) half_up_pow_bound [OF b] by (simp add: quantize_money_def check_finite_def)
qed

lemma same_sign_half_up: "0 \<le> r \<Longrightarrow> same_sign q (half_up n (q * r))"
  unfolding same_sign_def
  using half_up_mono [of 0 "q * r" n] half_up_mono [of "q * r" 0 n]
  by (simp add: mult_nonneg_nonneg mult_nonpos_nonneg)

lemma recovery_rate_Inr:
  assumes "recovery_rate D facts = Inr r"
  shows "dec_finite D r \<and> 0 \<le> val r \<and> val r \<le> 1"
proof (cases "tf_direction facts = Purchase")
  case True
  then obtain p where p: "exact D (TextIn (or_else (tf_recoverable facts) ''0'')) = Inr p"
    "r = dec_div D p (dec_int D 100)" "\<not> dec_is_neg D r" "\<not> dec_gt D r (dec_int D 1)"
    using assms unfolding recovery_rate_def Let_def by (auto split: sum.splits if_splits simp del: exact.simps)
  have fin: "dec_finite D r" using exact_finite [OF p(1)] p(2) by simp
  show ?thesis using fin p(3,4) neg_iff [OF fin] by (force simp: not_less)
next
  case False
  then show ?thesis using assms by (auto simp: recovery_rate_def)
qed

text \<open>The recoverable part lies between nothing and the whole tax.\<close>

lemma recovery_split:
  assumes "dec_finite D tax" "scaled n (val tax)" "\<bar>val tax\<bar> \<le> 10 ^ 29" "n \<le> 3"
    and "dec_finite D r" "0 \<le> val r" "val r \<le> 1"
  defines "rec \<equiv> dec_places D n (dec_times D tax r)"
  shows "dec_finite D rec \<and> scaled n (val rec) \<and> same_sign (val tax) (val rec)
    \<and> same_sign (val tax) (val tax - val rec)
    \<and> dec_finite D (dec_minus D tax rec) \<and> val (dec_minus D tax rec) = val tax - val rec"
proof -
  have rec: "dec_finite D rec" "val rec = half_up n (rnd (val tax * val r))"
    using assms(1,5) by (simp_all add: rec_def times_val)
  have "fits (val tax)" by (rule fits_scaled [OF assms(2,3)]) (use assms(4) in simp)
  then have tax: "rnd (val tax) = val tax" "half_up n (val tax) = val tax"
    using assms(2) by (auto simp: rnd_fits half_up_id)
  have between: "0 \<le> val tax \<Longrightarrow> 0 \<le> val rec \<and> val rec \<le> val tax"
    "val tax \<le> 0 \<Longrightarrow> val tax \<le> val rec \<and> val rec \<le> 0"
  proof -
    assume t: "0 \<le> val tax"
    have "rnd 0 \<le> rnd (val tax * val r)" "rnd (val tax * val r) \<le> rnd (val tax)"
      by (intro rnd_mono mult_nonneg_nonneg t assms(6)) (intro rnd_mono mult_left_le t assms(7))
    then have "half_up n 0 \<le> val rec" "val rec \<le> half_up n (val tax)"
      unfolding rec(2) tax(1) rnd_zero by (blast intro: half_up_mono)+
    then show "0 \<le> val rec \<and> val rec \<le> val tax" using tax(2) by simp
  next
    assume t: "val tax \<le> 0"
    have "rnd (val tax * val r) \<le> rnd 0" "rnd (val tax) \<le> rnd (val tax * val r)"
      by (intro rnd_mono mult_nonpos_nonneg t assms(6))
        (use mult_left_mono_neg [OF assms(7) t] in \<open>auto intro: rnd_mono\<close>)
    then have "val rec \<le> half_up n 0" "half_up n (val tax) \<le> val rec"
      unfolding rec(2) tax(1) rnd_zero by (blast intro: half_up_mono)+
    then show "val tax \<le> val rec \<and> val rec \<le> 0" using tax(2) by simp
  qed
  have sc: "scaled n (val rec)" by (simp add: rec(2))
  have "\<bar>val tax - val rec\<bar> \<le> 10 ^ 29" using between assms(3) by (cases "0 \<le> val tax") auto
  then have "fits (val tax - val rec)"
    using assms(2,4) sc by (intro fits_scaled [of n _ 29] scaled_diff) auto
  then have m: "dec_finite D (dec_minus D tax rec)" "val (dec_minus D tax rec) = val tax - val rec"
    using assms(1) rec(1) by (auto intro: minus_exact)
  show ?thesis using rec(1) sc m between by (auto simp: same_sign_def)
qed

lemma hst_components_ok:
  assumes "dec_finite D tax" "scaled n (val tax)" "\<bar>val tax\<bar> \<le> 10 ^ 29"
    and n: "minor_units (tf_currency facts) = Inr n" and r: "recovery_rate D facts = Inr recovery"
  shows "\<exists>cs amounts. hst_components D facts rate tax recovery = Inr cs \<and> component_amounts cs amounts
    \<and> sum_list amounts = val tax \<and> (\<forall>a \<in> set amounts. scaled n a \<and> same_sign (val tax) a)
    \<and> treatments_fit (tf_direction facts) cs"
proof (cases "tf_direction facts = Purchase")
  case True
  define rec where "rec = dec_places D n (dec_times D tax recovery)"
  have rr: "dec_finite D recovery" "0 \<le> val recovery" "val recovery \<le> 1"
    using recovery_rate_Inr [OF r] by auto
  note sp = recovery_split [OF assms(1-3) minor_units_le_3 [OF n] rr, folded rec_def]
  have q: "quantize_money D (DecIn (dec_times D tax recovery)) (tf_currency facts) = Inr rec"
    using assms(1) rr(1) n by (simp add: quantize_money_def check_finite_def rec_def)
  obtain a b where ab: "fixed_amount D (tf_currency facts) rec = Inr a" "text_amount a (val rec)"
    "fixed_amount D (tf_currency facts) (dec_minus D tax rec) = Inr b" "text_amount b (val tax - val rec)"
    using fixed_amount_text [of rec _ n] fixed_amount_text [of "dec_minus D tax rec" _ n] n sp assms(2)
    by (metis scaled_diff)
  let ?cs = "(if \<not> dec_is_zero D rec then [component ''HST_RECOVERABLE'' rate a Recoverable] else [])
     @ (if \<not> dec_is_zero D (dec_minus D tax rec)
        then [component ''HST_NONRECOVERABLE'' rate b Nonrecoverable] else [])"
  let ?as = "(if val rec \<noteq> 0 then [val rec] else []) @ (if val tax - val rec \<noteq> 0 then [val tax - val rec] else [])"
  have "hst_components D facts rate tax recovery = Inr ?cs"
    using True q ab by (simp add: hst_components_def Let_def)
  moreover have "component_amounts ?cs ?as"
    using sp ab by (auto simp: component_amounts_def component_def)
  moreover have "sum_list ?as = val tax" by simp
  moreover have "\<forall>x \<in> set ?as. scaled n x \<and> same_sign (val tax) x"
    using sp assms(2) by auto
  moreover have "treatments_fit (tf_direction facts) ?cs"
    using True by (simp add: treatments_fit_def component_def)
  ultimately show ?thesis by blast
next
  case False
  obtain a where a: "fixed_amount D (tf_currency facts) tax = Inr a" "text_amount a (val tax)"
    using fixed_amount_text [OF assms(1) n assms(2)] by blast
  have "hst_components D facts rate tax recovery = Inr [component ''HST'' rate a Payable]"
    using False a(1) by (simp add: hst_components_def)
  moreover have "component_amounts [component ''HST'' rate a Payable] [val tax]"
    using a(2) by (simp add: component_amounts_def component_def)
  moreover have "tf_direction facts = Sale" using False by (cases "tf_direction facts") auto
  ultimately show ?thesis using assms(2)
    by (intro exI [where x = "[component ''HST'' rate a Payable]"] exI [where x = "[val tax]"])
      (simp add: treatments_fit_def component_def same_sign_def)
qed

text \<open>The shared tail of the two HST packs.\<close>

lemma hst_applied:
  assumes b: "text_amount (tf_basis facts) q" "ledger_amount q" and r: "text_amount rate p" "scaled 4 p" "0 \<le> p" "p \<le> 1"
    and n: "minor_units (tf_currency facts) = Inr n" and rec: "recovery_rate D facts = Inr recovery"
  obtains basis tax cs amounts total where
    "exact D (TextIn (tf_basis facts)) = Inr basis"
    "bindE (times_literal D basis rate) (\<lambda>t. quantize_money D (DecIn t) (tf_currency facts)) = Inr tax"
    "hst_components D facts rate tax recovery = Inr cs" "component_amounts cs amounts"
    "fixed_amount D (tf_currency facts) tax = Inr total" "text_amount total (sum_list amounts)"
    "sum_list amounts = half_up n (q * p)" "\<forall>a \<in> set amounts. scaled n a \<and> same_sign q a"
    "treatments_fit (tf_direction facts) cs"
proof -
  obtain basis where basis: "exact D (TextIn (tf_basis facts)) = Inr basis" using exact_text [OF b(1)] by blast
  have "\<bar>p\<bar> \<le> 1" using r(3,4) by simp
  from quantized_product [OF b r(1,2) this n basis] obtain tax where tax:
    "bindE (times_literal D basis rate) (\<lambda>t. quantize_money D (DecIn t) (tf_currency facts)) = Inr tax"
    "dec_finite D tax" "val tax = half_up n (q * p)" "\<bar>val tax\<bar> \<le> 10 ^ 29" by blast
  have sc: "scaled n (val tax)" by (simp add: tax(3))
  obtain cs amounts where cs: "hst_components D facts rate tax recovery = Inr cs" "component_amounts cs amounts"
    "sum_list amounts = val tax" "\<forall>a \<in> set amounts. scaled n a \<and> same_sign (val tax) a"
    "treatments_fit (tf_direction facts) cs"
    using hst_components_ok [OF tax(2) sc tax(4) n rec] by blast
  obtain total where total: "fixed_amount D (tf_currency facts) tax = Inr total" "text_amount total (val tax)"
    using fixed_amount_text [OF tax(2) n sc] by blast
  have "same_sign q (val tax)" unfolding tax(3) by (rule same_sign_half_up [OF r(3)])
  then have sg: "\<forall>a \<in> set amounts. scaled n a \<and> same_sign q a"
    using cs(4) by (auto simp: same_sign_def)
  show ?thesis
    by (rule that [OF basis tax(1) cs(1,2) total(1) _ _ sg cs(5)]) (use cs(3) tax(3) total(2) in auto)
qed

lemma quantize_zero_cases:
  "(\<exists>e. quantize_money D (NumIn 0) c = Inl e) \<or> (\<exists>z n. quantize_money D (NumIn 0) c = Inr z \<and> minor_units c = Inr n)"
  using quantize_zero_ok [of D c] by (cases "quantize_money D (NumIn 0) c") auto

lemma ontario_zero_ok:
  assumes "minor_units (tf_currency facts) = Inr n" "status \<notin> {Applied, ManualReviewRequired}"
    and "status = category_status (tf_category facts)" "tf_category facts \<noteq> CatStandard" "truthy (tf_registration facts)"
  shows "\<exists>d. ontario_zero D facts status = Inr d \<and> decision_ok ''ca.on.hst'' facts q d"
  using zero_tax_text [OF assms(1)] assms(2-)
  by (auto simp: ontario_zero_def decision_ok_def zero_ok_def ontario_pack_def)

lemma atlantic_zero_ok:
  assumes "minor_units (tf_currency facts) = Inr n" "status \<notin> {Applied, ManualReviewRequired}"
    and "status = category_status (tf_category facts)" "tf_category facts \<noteq> CatStandard" "truthy (tf_registration facts)"
  shows "\<exists>d. atlantic_zero D facts w status = Inr d \<and> decision_ok ''ca.atlantic.hst'' facts q d"
  using zero_tax_text [OF assms(1)] assms(2-)
  by (auto simp: atlantic_zero_def decision_ok_def zero_ok_def atlantic_pack_def)

lemma rates:
  "text_amount ''0.13'' (13 / 100)" "text_amount ''0.14'' (14 / 100)" "text_amount ''0.15'' (15 / 100)"
  "text_amount ''0.065'' (65 / 1000)" "text_amount ''0.0405'' (405 / 10000)"
  "scaled 4 (13 / 100)" "scaled 4 (14 / 100)" "scaled 4 (15 / 100)" "scaled 4 (65 / 1000)" "scaled 4 (405 / 10000)"
proof -
  show "text_amount ''0.13'' (13 / 100)" "text_amount ''0.14'' (14 / 100)" "text_amount ''0.15'' (15 / 100)"
    "text_amount ''0.065'' (65 / 1000)" "text_amount ''0.0405'' (405 / 10000)"
    by code_simp+
  show "scaled 4 (13 / 100)" by (rule scaledI [where c = 1300]) simp
  show "scaled 4 (14 / 100)" by (rule scaledI [where c = 1400]) simp
  show "scaled 4 (15 / 100)" by (rule scaledI [where c = 1500]) simp
  show "scaled 4 (65 / 1000)" by (rule scaledI [where c = 650]) simp
  show "scaled 4 (405 / 10000)" by (rule scaledI [where c = 405]) simp
qed

lemma ontario_ok:
  assumes b: "text_amount (tf_basis facts) q" "ledger_amount q"
  shows "\<exists>d. ontario_decide D facts = Inr d \<and> decision_ok ''ca.on.hst'' facts q d"
proof -
  have pk: "fst ontario_pack = ''ca.on.hst''" by (simp add: ontario_pack_def)
  consider "tf_country facts \<noteq> ''CA'' \<or> tf_region facts \<noteq> ''ON''"
    | e where "quantize_money D (NumIn 0) (tf_currency facts) = Inl e"
    | z n where "tf_country facts = ''CA''" "tf_region facts = ''ON''"
      "quantize_money D (NumIn 0) (tf_currency facts) = Inr z" "minor_units (tf_currency facts) = Inr n"
    using quantize_zero_cases by metis
  then show ?thesis
  proof cases
    case 3
    show ?thesis
    proof (cases "truthy (tf_registration facts) \<and> tf_category facts = CatStandard")
      case std: True
      show ?thesis
      proof (cases "recovery_rate D facts")
        case (Inl reason)
        obtain basis where basis: "exact D (TextIn (tf_basis facts)) = Inr basis" using exact_text [OF b(1)] by blast
        obtain tax where "bindE (times_literal D basis ''0.13'') (\<lambda>t. quantize_money D (DecIn t) (tf_currency facts)) = Inr tax"
          using quantized_product [OF b rates(1,6) _ 3(4) basis] by auto
        then show ?thesis using 3 std Inl basis pk by (simp add: ontario_decide_def Let_def)
      next
        case (Inr recovery)
        show ?thesis
          by (rule hst_applied [OF b rates(1,6) _ _ 3(4) Inr])
            (use 3 std Inr pk in \<open>auto simp: ontario_decide_def Let_def decision_ok_def applied_ok_def
              statutory_tax_def simp del: exact.simps\<close>)
      qed
    next
      case False
      then show ?thesis using 3 pk ontario_zero_ok [OF 3(4)]
        by (cases "tf_category facts") (auto simp: ontario_decide_def Let_def)
    qed
  qed (auto simp: ontario_decide_def Let_def pk)
qed

lemma atlantic_window:
  assumes "atlantic_rate_window (tf_region facts) (tf_tax_point facts) = Some w"
  shows "text_amount (rw_rate w) (atlantic_rate facts) \<and> scaled 4 (atlantic_rate facts)
    \<and> 0 \<le> atlantic_rate facts \<and> atlantic_rate facts \<le> 1"
  using assms rates(2,3,7,8)
  by (auto simp: atlantic_rate_window_def atlantic_rate_def split: if_splits)

lemma atlantic_ok:
  assumes b: "text_amount (tf_basis facts) q" "ledger_amount q"
  shows "\<exists>d. atlantic_decide D facts = Inr d \<and> decision_ok ''ca.atlantic.hst'' facts q d"
proof -
  have pk: "fst atlantic_pack = ''ca.atlantic.hst''" by (simp add: atlantic_pack_def)
  define win where "win = (if tf_country facts = ''CA''
      then atlantic_rate_window (tf_region facts) (tf_tax_point facts) else None)"
  consider "win = None" | e w where "win = Some w" "quantize_money D (NumIn 0) (tf_currency facts) = Inl e"
    | z n w where "win = Some w"
      "quantize_money D (NumIn 0) (tf_currency facts) = Inr z" "minor_units (tf_currency facts) = Inr n"
    using quantize_zero_cases by (metis option.exhaust)
  then show ?thesis
  proof cases
    case 3
    have w: "text_amount (rw_rate w) (atlantic_rate facts)" "scaled 4 (atlantic_rate facts)"
      "0 \<le> atlantic_rate facts" "atlantic_rate facts \<le> 1"
      using atlantic_window [of facts w] 3(1) by (auto simp: win_def split: if_splits)
    note def = atlantic_decide_def [of D facts, folded win_def, unfolded Let_def]
    show ?thesis
    proof (cases "truthy (tf_registration facts) \<and> tf_category facts = CatStandard")
      case std: True
      show ?thesis
      proof (cases "recovery_rate D facts")
        case (Inl reason)
        obtain basis where basis: "exact D (TextIn (tf_basis facts)) = Inr basis" using exact_text [OF b(1)] by blast
        obtain t tax where "times_literal D basis (rw_rate w) = Inr t"
          "quantize_money D (DecIn t) (tf_currency facts) = Inr tax"
          using quantized_product [OF b w(1,2) _ 3(3) basis] w(3,4) by (auto simp: bindE_Inr_iff)
        then show ?thesis using 3 std Inl basis pk by (simp add: def)
      next
        case (Inr recovery)
        show ?thesis
        proof (rule hst_applied [OF b w 3(3) Inr])
          fix basis tax cs amounts total
          assume h: "exact D (TextIn (tf_basis facts)) = Inr basis"
            "bindE (times_literal D basis (rw_rate w)) (\<lambda>t. quantize_money D (DecIn t) (tf_currency facts)) = Inr tax"
            "hst_components D facts (rw_rate w) tax recovery = Inr cs" "component_amounts cs amounts"
            "fixed_amount D (tf_currency facts) tax = Inr total" "text_amount total (sum_list amounts)"
            "sum_list amounts = half_up n (q * atlantic_rate facts)" "\<forall>a \<in> set amounts. scaled n a \<and> same_sign q a"
            "treatments_fit (tf_direction facts) cs"
          from h(2) obtain t where "times_literal D basis (rw_rate w) = Inr t"
            "quantize_money D (DecIn t) (tf_currency facts) = Inr tax" by (auto simp: bindE_Inr_iff)
          then show ?thesis using h 3 std Inr pk
            by (auto simp: def decision_ok_def applied_ok_def statutory_tax_def simp del: exact.simps)
        qed
      qed
    next
      case False
      then show ?thesis using 3 pk atlantic_zero_ok [OF 3(3)]
        by (cases "tf_category facts") (auto simp: def)
    qed
  qed (auto simp: atlantic_decide_def Let_def pk simp flip: win_def)
qed

lemma washington_zero_ok:
  assumes "minor_units (tf_currency facts) = Inr n" "status \<notin> {Applied, ManualReviewRequired}"
    and "status = category_status (tf_category facts)" "tf_category facts \<noteq> CatStandard"
    and "truthy (tf_evidence facts) \<or> tf_category facts = CatOutOfScope"
  shows "\<exists>d. washington_zero D facts status = Inr d \<and> decision_ok ''us.wa.sales-use'' facts q d"
  using zero_tax_text [OF assms(1)] assms(2-)
  by (auto simp: washington_zero_def decision_ok_def zero_ok_def washington_pack_def)

lemma washington_applied:
  assumes b: "text_amount (tf_basis facts) q" "ledger_amount q" and n: "minor_units (tf_currency facts) = Inr n"
  obtains basis state local a b' total sum where
    "exact D (TextIn (tf_basis facts)) = Inr basis"
    "bindE (bindE (times_literal D basis ''0.065'') (\<lambda>t. quantize_money D (DecIn t) (tf_currency facts)))
       (\<lambda>state. bindE (bindE (times_literal D basis ''0.0405'')
         (\<lambda>t. quantize_money D (DecIn t) (tf_currency facts))) (\<lambda>local. Inr (state, local))) = Inr (state, local)"
    "fixed_amount D (tf_currency facts) state = Inr a" "fixed_amount D (tf_currency facts) local = Inr b'"
    "text_amount a (half_up n (q * (65 / 1000)))" "text_amount b' (half_up n (q * (405 / 10000)))"
    "sum_exact D [TextIn a, TextIn b'] = Inr sum" "fixed_amount D (tf_currency facts) sum = Inr total"
    "text_amount total (half_up n (q * (65 / 1000)) + half_up n (q * (405 / 10000)))"
proof -
  obtain basis where basis: "exact D (TextIn (tf_basis facts)) = Inr basis" using exact_text [OF b(1)] by blast
  obtain state where state: "bindE (times_literal D basis ''0.065'') (\<lambda>t. quantize_money D (DecIn t) (tf_currency facts)) = Inr state"
    "dec_finite D state" "val state = half_up n (q * (65 / 1000))" "\<bar>val state\<bar> \<le> 10 ^ 29"
    using quantized_product [OF b rates(4,9) _ n basis] by auto
  obtain local where local: "bindE (times_literal D basis ''0.0405'') (\<lambda>t. quantize_money D (DecIn t) (tf_currency facts)) = Inr local"
    "dec_finite D local" "val local = half_up n (q * (405 / 10000))" "\<bar>val local\<bar> \<le> 10 ^ 29"
    using quantized_product [OF b rates(5,10) _ n basis] by auto
  have sc: "scaled n (val state)" "scaled n (val local)" by (simp_all add: state(3) local(3))
  obtain a where a: "fixed_amount D (tf_currency facts) state = Inr a" "text_amount a (val state)"
    using fixed_amount_text [OF state(2) n sc(1)] by blast
  obtain b' where b': "fixed_amount D (tf_currency facts) local = Inr b'" "text_amount b' (val local)"
    using fixed_amount_text [OF local(2) n sc(2)] by blast
  have le: "n \<le> 9" using minor_units_le_3 [OF n] by simp
  have "ledger_amount (val state)" "ledger_amount (val local)"
    using sc state(4) local(4) scaled_le [OF _ le] unfolding ledger_amount_def by blast+
  then obtain sum where sum: "sum_exact D (map TextIn [a, b']) = Inr sum" "dec_finite D sum"
    "val sum = val state + val local"
    using sum_exact_texts [of "[a, b']" "[val state, val local]"] a(2) b'(2) by auto
  obtain total where "fixed_amount D (tf_currency facts) sum = Inr total" "text_amount total (val sum)"
    using fixed_amount_text [OF sum(2) n] sc sum(3) by (metis scaled_add)
  then show ?thesis
    using that [OF basis _ a(1) b'(1)] a(2) b'(2) sum state(1,3) local(1,3) by simp
qed

lemma washington_ok:
  assumes b: "text_amount (tf_basis facts) q" "ledger_amount q"
  shows "\<exists>d. washington_decide D facts = Inr d \<and> decision_ok ''us.wa.sales-use'' facts q d"
proof -
  have pk: "fst washington_pack = ''us.wa.sales-use''" by (simp add: washington_pack_def)
  define late where "late = (tf_tax_point facts < washington_from \<or> tf_tax_point facts > washington_to)"
  define unverified where "unverified = (tf_location facts \<noteq> Some ''1726''
      \<or> map_option to_upper (tf_city facts) \<noteq> Some ''SEATTLE'')"
  note def = washington_decide_def [of D facts, folded late_def unverified_def, unfolded Let_def]
  consider "tf_country facts \<noteq> ''US'' \<or> tf_region facts \<noteq> ''WA''"
    | e where "quantize_money D (NumIn 0) (tf_currency facts) = Inl e"
    | z n where "tf_country facts = ''US''" "tf_region facts = ''WA''"
      "quantize_money D (NumIn 0) (tf_currency facts) = Inr z" "minor_units (tf_currency facts) = Inr n"
    using quantize_zero_cases by metis
  then show ?thesis
  proof cases
    case 3
    show ?thesis
    proof (cases "late \<or> unverified \<or> tf_category facts \<noteq> CatStandard")
      case True
      then show ?thesis using 3 pk washington_zero_ok [OF 3(4)]
        by (cases "tf_category facts") (auto simp: def)
    next
      case False
      show ?thesis
      proof (rule washington_applied [OF b 3(4)])
        fix basis state local a b' total sum
        assume w: "exact D (TextIn (tf_basis facts)) = Inr basis"
          "bindE (bindE (times_literal D basis ''0.065'') (\<lambda>t. quantize_money D (DecIn t) (tf_currency facts)))
           (\<lambda>state. bindE (bindE (times_literal D basis ''0.0405'')
             (\<lambda>t. quantize_money D (DecIn t) (tf_currency facts))) (\<lambda>local. Inr (state, local))) = Inr (state, local)"
          "fixed_amount D (tf_currency facts) state = Inr a" "fixed_amount D (tf_currency facts) local = Inr b'"
          "text_amount a (half_up n (q * (65 / 1000)))" "text_amount b' (half_up n (q * (405 / 10000)))"
          "sum_exact D [TextIn a, TextIn b'] = Inr sum" "fixed_amount D (tf_currency facts) sum = Inr total"
          "text_amount total (half_up n (q * (65 / 1000)) + half_up n (q * (405 / 10000)))"
        let ?as = "[half_up n (q * (65 / 1000)), half_up n (q * (405 / 10000))]"
        have sg: "same_sign q x \<and> scaled n x" if "x \<in> set ?as" for x
          using that same_sign_half_up [of "65 / 1000" q n] same_sign_half_up [of "405 / 10000" q n] by auto
        define tr where "tr = (if tf_direction facts = Sale then Payable else SelfAssessedPayable)"
        let ?cs = "[component ''WA_STATE'' ''0.065'' a tr, component ''WA_LOCAL_1726'' ''0.0405'' b' tr]"
        have cs: "component_amounts ?cs ?as" "treatments_fit (tf_direction facts) ?cs"
          using w(5,6) by (auto simp: component_amounts_def component_def treatments_fit_def tr_def)
        have "sum_list ?as = statutory_tax ''us.wa.sales-use'' facts n q" by (simp add: statutory_tax_def)
        then have "applied_ok facts q d" if "td_components d = ?cs" "td_total_tax d = total"
          "td_pack_key d = ''us.wa.sales-use''" for d
          unfolding applied_ok_def that
          using cs False 3(4) sg w(9) by (intro conjI exI [where x = n] exI [where x = ?as]) auto
        then show ?thesis
          using 3 False w(1-4,7,8) pk
          by (simp add: def decision_ok_def component_def tr_def)
      qed
    qed
  qed (auto simp: def pk)
qed

lemma generic_ok: "\<exists>d. generic_decide D facts = Inr d \<and> decision_ok ''generic.unsupported'' facts q d"
proof -
  have pk: "fst generic_pack = ''generic.unsupported''" by (simp add: generic_pack_def)
  show ?thesis
  proof (cases "quantize_money D (NumIn 0) (tf_currency facts)")
    case (Inr z)
    obtain n where n: "minor_units (tf_currency facts) = Inr n" using quantize_zero_ok [OF Inr] by auto
    obtain z0 where z0: "zero_tax D (tf_currency facts) = Inr z0" "text_amount z0 0"
      using zero_tax_text [OF n] by blast
    show ?thesis
    proof (cases "tf_category facts \<noteq> CatStandard \<and> truthy (tf_evidence facts)")
      case True
      have "category_status (tf_category facts) \<notin> {Applied, ManualReviewRequired}"
        using True by (cases "tf_category facts") auto
      then show ?thesis using True Inr z0
        by (simp add: generic_decide_def evidenced_zero_def decision_ok_def zero_ok_def generic_pack_def)
    next
      case False
      then show ?thesis using Inr pk by (auto simp: generic_decide_def)
    qed
  qed (simp add: generic_decide_def pk)
qed

lemma decide_tax_ok:
  assumes "key \<in> set (map fst list_tax_packs)"
    and b: "text_amount (tf_basis facts) q" "ledger_amount q"
  shows "\<exists>d. decide_tax D key facts = Inr d \<and> decision_ok key facts q d"
proof -
  have "key = ''ca.on.hst'' \<or> key = ''ca.atlantic.hst'' \<or> key = ''us.wa.sales-use'' \<or> key = ''generic.unsupported''"
    using assms(1) by (auto simp: list_tax_packs_def ontario_pack_def atlantic_pack_def washington_pack_def generic_pack_def)
  then show ?thesis
    using ontario_ok [OF b] atlantic_ok [OF b] washington_ok [OF b] generic_ok [of facts q]
    by (elim disjE exE conjE)
      (simp_all add: decide_tax_def registered_packs_def ontario_pack_def atlantic_pack_def
        washington_pack_def generic_pack_def)
qed

end

lemma decide_tax_registered:
  "decide_tax D key facts = Inr d \<Longrightarrow> key \<in> set (map fst list_tax_packs)"
  by (auto simp: decide_tax_def registered_packs_def list_tax_packs_def split: option.splits if_splits)

section \<open>Properties\<close>

text \<open>
  C18. Applied tax reconciles.  When a pack applies tax to a basis a ledger column
  can hold, the component amounts are whole minor units with the sign of the basis,
  they add up to the total tax to the last unit, and the total is the statutory rate
  of the pack on the basis rounded half up per component (Ontario 13%, Atlantic 15% or
  14% in Nova Scotia from April 2025, Washington 6.5% plus 4.05%).  There are at most two
  components; a sale only has payable ones, and a purchase either splits the tax into a
  recoverable and a nonrecoverable part or self-assesses all of it.
\<close>

theorem applied_tax_reconciles:
  assumes "decimal_lib D val rnd" and "decide_tax D key facts = Inr d" and "td_status d = Applied"
    and "text_amount (tf_basis facts) q" and "ledger_amount q"
  shows "\<exists>n amounts. minor_units (tf_currency facts) = Inr n
    \<and> list_all2 (\<lambda>c a. text_amount (tc_amount c) a) (td_components d) amounts
    \<and> text_amount (td_total_tax d) (sum_list amounts)
    \<and> sum_list amounts = statutory_tax key facts n q
    \<and> (\<forall>a \<in> set amounts. scaled n a \<and> same_sign q a)
    \<and> treatments_fit (tf_direction facts) (td_components d)"
  using decimal_lib.decide_tax_ok [OF assms(1) decide_tax_registered [OF assms(2)] assms(4,5)] assms(2,3)
  by (auto simp: decision_ok_def applied_ok_def component_amounts_def)

text \<open>
  C19. The tax engine fails closed.  For every registered pack and every decimal
  basis a ledger column can hold there is a decision, never an exception.  It is
  either applied to a standard supply, or it charges nothing: then it is a manual
  review with its reason, or the relief the facts' category asks for, which is never
  given to a standard supply, nor without a registration or an evidence reference
  (except the out-of-scope category in Washington).
\<close>

theorem tax_engine_fails_closed:
  assumes "decimal_lib D val rnd" and "key \<in> set (map fst list_tax_packs)"
    and "text_amount (tf_basis facts) q" and "ledger_amount q"
  shows "\<exists>d. decide_tax D key facts = Inr d \<and> td_facts d = facts \<and> td_pack_key d = key
    \<and> (td_status d = Applied \<longrightarrow> tf_category facts = CatStandard)
    \<and> (td_status d \<noteq> Applied \<longrightarrow> td_components d = [] \<and> text_amount (td_total_tax d) 0)
    \<and> (td_status d = ManualReviewRequired \<longleftrightarrow> td_review_reason d \<noteq> None)
    \<and> (td_status d \<notin> {Applied, ManualReviewRequired} \<longrightarrow>
        tf_category facts \<noteq> CatStandard \<and> td_status d = category_status (tf_category facts)
        \<and> (truthy (tf_registration facts) \<or> truthy (tf_evidence facts)
           \<or> (key = ''us.wa.sales-use'' \<and> tf_category facts = CatOutOfScope)))"
  using decimal_lib.decide_tax_ok [OF assms]
  by (auto simp: decision_ok_def applied_ok_def zero_ok_def split: if_splits)

section \<open>An example\<close>

definition example_facts :: tax_facts where
  "example_facts = \<lparr>tf_direction = Purchase, tf_tax_point = ''2026-08-30'', tf_currency = ''CAD'',
     tf_basis = ''100.55'', tf_country = ''CA'', tf_region = ''ON'', tf_city = None, tf_location = None,
     tf_category = CatStandard, tf_registration = Some ''RT0001'', tf_evidence = None,
     tf_recoverable = Some ''33.3''\<rparr>"

definition example_decision :: tax_decision where
  "example_decision =
     (case decide_tax ref_api ''ca.on.hst'' example_facts of
        Inr d \<Rightarrow> d | Inl _ \<Rightarrow> manual_review ontario_pack example_facts OntarioPlaceOfSupply [])"

lemma example_decision_runs: "decide_tax ref_api ''ca.on.hst'' example_facts = Inr example_decision"
  by code_simp

lemma example_basis: "text_amount (tf_basis example_facts) (10055 / 100)" "ledger_amount (10055 / 100)"
proof -
  show "text_amount (tf_basis example_facts) (10055 / 100)" by code_simp
  have "scaled 9 (10055 / 100)" by (rule scaledI [where c = 100550000000]) simp
  then show "ledger_amount (10055 / 100)" by (simp add: ledger_amount_def)
qed

theorem applied_tax_reconciles_witness:
  "map tc_amount (td_components example_decision) = [''4.35'', ''8.72''] \<and>
   (\<exists>n amounts. minor_units (tf_currency example_facts) = Inr n
    \<and> list_all2 (\<lambda>c a. text_amount (tc_amount c) a) (td_components example_decision) amounts
    \<and> text_amount (td_total_tax example_decision) (sum_list amounts)
    \<and> sum_list amounts = statutory_tax ''ca.on.hst'' example_facts n (10055 / 100)
    \<and> (\<forall>a \<in> set amounts. scaled n a \<and> same_sign (10055 / 100) a)
    \<and> treatments_fit (tf_direction example_facts) (td_components example_decision))"
proof
  show "map tc_amount (td_components example_decision) = [''4.35'', ''8.72'']" by code_simp
  have "td_status example_decision = Applied" by code_simp
  from applied_tax_reconciles [OF refdec.decimal_lib_axioms example_decision_runs this example_basis]
  show "\<exists>n amounts. minor_units (tf_currency example_facts) = Inr n
    \<and> list_all2 (\<lambda>c a. text_amount (tc_amount c) a) (td_components example_decision) amounts
    \<and> text_amount (td_total_tax example_decision) (sum_list amounts)
    \<and> sum_list amounts = statutory_tax ''ca.on.hst'' example_facts n (10055 / 100)
    \<and> (\<forall>a \<in> set amounts. scaled n a \<and> same_sign (10055 / 100) a)
    \<and> treatments_fit (tf_direction example_facts) (td_components example_decision)" .
qed

theorem tax_engine_fails_closed_witness:
  "\<exists>d. decide_tax ref_api ''generic.unsupported'' example_facts = Inr d \<and> td_facts d = example_facts
    \<and> td_pack_key d = ''generic.unsupported''
    \<and> (td_status d = Applied \<longrightarrow> tf_category example_facts = CatStandard)
    \<and> (td_status d \<noteq> Applied \<longrightarrow> td_components d = [] \<and> text_amount (td_total_tax d) 0)
    \<and> (td_status d = ManualReviewRequired \<longleftrightarrow> td_review_reason d \<noteq> None)
    \<and> (td_status d \<notin> {Applied, ManualReviewRequired} \<longrightarrow>
        tf_category example_facts \<noteq> CatStandard \<and> td_status d = category_status (tf_category example_facts)
        \<and> (truthy (tf_registration example_facts) \<or> truthy (tf_evidence example_facts)
           \<or> (''generic.unsupported'' = ''us.wa.sales-use'' \<and> tf_category example_facts = CatOutOfScope)))"
  by (rule tax_engine_fails_closed [OF refdec.decimal_lib_axioms _ example_basis]) code_simp

end
