(* ===== verification/TaxDetermination.thy ===== *)
theory TaxDetermination
  imports TaxPacks
begin

text \<open>
  The tax of one document line: \<open>subledger/source-tax-rounding.ts\<close> and the parts of
  \<open>subledger/document-model.ts\<close> that decide a line's tax (\<open>decideLineTax\<close>, with the
  source-tax override) and check a decision before it is booked
  (\<open>assertTaxDecisionAccountingShape\<close>).
\<close>

section \<open>Inputs\<close>

record source_tax_rounding =
  sr_amount :: string
  sr_reason :: string
  sr_evidence :: string
  sr_reviewed :: bool

record tax_override_input =
  ov_rate_percent :: string
  ov_amount :: string
  ov_jurisdiction :: string
  ov_component_key :: string
  ov_effective_from :: string
  ov_effective_to :: "string option"
  ov_reason :: string
  ov_evidence :: string
  ov_reviewed :: "reviewed_treatment option"
  ov_adjustment_reason :: "string option"
  ov_adjustment_evidence :: "string option"

record tax_input =
  ti_pack :: string
  ti_category :: tax_category
  ti_country :: string
  ti_region :: string
  ti_city :: "string option"
  ti_location :: "string option"
  ti_registration :: "string option"
  ti_evidence :: "string option"
  ti_recoverable :: "string option"
  ti_rounding :: "source_tax_rounding option"
  ti_override :: "tax_override_input option"

datatype tax_line_error =
    LineMoney money_error
  | LineTax tax_error
  | RoundingNeedsTaxablePurchase
  | RoundingPrecisionOrSign
  | RoundingBeyondTolerance
  | OverrideNeedsStandardLine
  | InsuranceTaxNotRecoverable
  | OverrideNotEffective
  | OverridePrecision
  | OverrideSign
  | OverrideNeedsAdjustmentEvidence
  | SaleOverrideNotOutputPayable
  | OverrideRecoverableRange
  | PurchaseOverrideOutputPayable
  | OverrideNotFullyRecoverable
  | OverrideNotPartiallyRecoverable
  | OverrideNotNonrecoverable
  | InvalidTaxAmount
  | InvalidComponentAmount string
  | ComponentsDoNotReconcile
  | TreatmentIncompatible

abbreviation money :: "money_error + 'a \<Rightarrow> tax_line_error + 'a" where
  "money \<equiv> map_errorE LineMoney"

abbreviation require :: "bool \<Rightarrow> 'e \<Rightarrow> 'e + unit" where
  "require b e \<equiv> throw_if (\<not> b) e"

section \<open>Rounding to the supplier's tax\<close>

text \<open>\<open>exact(10).pow(-minorUnits(currency))\<close>\<close>

definition one_minor_unit :: "'d decimal_api \<Rightarrow> string \<Rightarrow> money_error + 'd" where
  "one_minor_unit D currency =
     bindE (minor_units currency) (\<lambda>n. Inr (dec_pow D (dec_int D 10) (- int n)))"

text \<open>The \<open>map\<close> over the components: the last one takes what remains of the source tax.\<close>

fun spread_source_tax ::
  "'d decimal_api \<Rightarrow> string \<Rightarrow> 'd \<Rightarrow> 'd \<Rightarrow> 'd \<Rightarrow> tax_component list \<Rightarrow> money_error + tax_component list" where
  "spread_source_tax D currency source calculated remaining [] = Inr []"
| "spread_source_tax D currency source calculated remaining (c # cs) =
     bindE (if cs = [] then Inr remaining
            else if dec_is_zero D calculated then Inr (dec_int D 0)
            else bindE (times_literal D source (tc_amount c)) (\<lambda>p.
                 quantize_money D (DecIn (dec_div D p calculated)) currency)) (\<lambda>amount.
     bindE (fixed_amount D currency amount) (\<lambda>text.
     bindE (spread_source_tax D currency source calculated (dec_minus D remaining amount) cs) (\<lambda>rest.
     Inr (c\<lparr>tc_amount := text\<rparr> # rest))))"

text \<open>\<open>component.key.replace(/_(?:NONRECOVERABLE|RECOVERABLE)$/, "")\<close>\<close>

definition rate_key :: "string \<Rightarrow> string" where
  "rate_key key =
     (if ends_with ''_NONRECOVERABLE'' key then take (length key - 15) key
      else if ends_with ''_RECOVERABLE'' key then take (length key - 12) key
      else key)"

definition combined_rate_percent :: "'d decimal_api \<Rightarrow> string list \<Rightarrow> money_error + string" where
  "combined_rate_percent D rates =
     bindE (foldE (\<lambda>total r. bindE (option_to_result InvalidDecimal (dec_new D r)) (\<lambda>d.
         Inr (dec_plus D total d))) (dec_int D 0) rates) (\<lambda>sum.
     Inr (dec_plain D (dec_times D sum (dec_int D 100))))"

definition apply_source_tax_rounding ::
  "'d decimal_api \<Rightarrow> tax_decision \<Rightarrow> source_tax_rounding \<Rightarrow> tax_line_error + tax_decision" where
  "apply_source_tax_rounding D base input =
     (let facts = td_facts base; currency = tf_currency facts in
      bindE (money (exact D (TextIn (sr_amount input)))) (\<lambda>source.
      bindE (money (exact D (TextIn (td_total_tax base)))) (\<lambda>calculated.
      let difference = dec_minus D source calculated in
      bindE (money (one_minor_unit D currency)) (\<lambda>tolerance.
      bindE (require (tf_direction facts = Purchase \<and> td_status base = Applied
          \<and> list_all (\<lambda>c. tc_treatment c \<noteq> DisclosureOnly) (td_components base))
        RoundingNeedsTaxablePurchase) (\<lambda>_.
      bindE (money (is_quantized_money D (TextIn (sr_amount input)) currency)) (\<lambda>quantized.
      bindE (money (exact D (TextIn (tf_basis facts)))) (\<lambda>basis.
      bindE (require (quantized \<and> \<not> (dec_is_neg D source \<and> dec_gt D basis (dec_int D 0))
          \<and> \<not> (dec_gt D source (dec_int D 0) \<and> dec_is_neg D basis)) RoundingPrecisionOrSign) (\<lambda>_.
      bindE (require (\<not> dec_gt D (dec_abs D difference) tolerance
          \<and> \<not> (dec_is_zero D calculated \<and> \<not> dec_is_zero D source)) RoundingBeyondTolerance) (\<lambda>_.
      bindE (money (spread_source_tax D currency source calculated source (td_components base))) (\<lambda>components.
      bindE (money (combined_rate_percent D
          (map snd (foldl (\<lambda>m c. map_set (rate_key (tc_key c)) (tc_rate c) m) [] (td_components base)))))
        (\<lambda>rate_percent.
      let has_recoverable = list_ex (\<lambda>c. tc_treatment c = Recoverable) components;
          has_nonrecoverable = list_ex (\<lambda>c. tc_treatment c = Nonrecoverable) components in
      bindE (money (fixed_amount D currency source)) (\<lambda>source_text.
      bindE (money (fixed_amount D currency difference)) (\<lambda>difference_text.
      Inr (base\<lparr>
        td_components := components, td_total_tax := source_text,
        td_rule_key := ''controlled-source-tax-rounding'',
        td_status := (if sr_reviewed input then Applied else ManualReviewRequired),
        td_source := ''Supplier invoice rounding; engine: '' @ td_source base,
        td_review_reason := (if sr_reviewed input then td_review_reason base else Some SourceRoundingUnreviewed),
        td_source_override := Some \<lparr>
          so_state = (if sr_reviewed input then Reviewed else PendingReview),
          so_rate_percent = rate_percent, so_source_amount = source_text,
          so_calculated_amount = td_total_tax base, so_adjustment_amount = difference_text,
          so_automated_status = td_status base, so_automated_rate_percent = rate_percent,
          so_automated_amount = td_total_tax base, so_automated_rule_key = td_rule_key base,
          so_jurisdiction = td_jurisdiction base, so_component_key = ''SOURCE_ROUNDING'',
          so_reason = sr_reason input, so_evidence = sr_evidence input,
          so_reviewed_treatment =
            (if sr_reviewed input
             then Some (if has_recoverable
                        then (if has_nonrecoverable then PartiallyRecoverable else FullyRecoverable)
                        else NonrecoverableTreatment)
             else None),
          so_adjustment_reason = Some (sr_reason input),
          so_adjustment_evidence = Some (sr_evidence input)\<rparr>\<rparr>))))))))))))))"

section \<open>The controlled override\<close>

definition ontario_insurance_rst ::
  "'d decimal_api \<Rightarrow> string \<Rightarrow> tax_facts \<Rightarrow> tax_override_input \<Rightarrow> money_error + bool" where
  "ontario_insurance_rst D pack facts ov =
     (if tf_direction facts = Purchase \<and> tf_category facts = CatExempt \<and> pack = ''ca.on.hst''
         \<and> tf_country facts = ''CA'' \<and> tf_region facts = ''ON'' \<and> ov_jurisdiction ov = ''CA-ON''
         \<and> ov_component_key ov = ''ON_INSURANCE_RST''
      then bindE (exact D (TextIn (ov_rate_percent ov))) (\<lambda>r. Inr (dec_eq D r (dec_int D 8)))
      else Inr False)"

text \<open>The checks on the recovery rate of the reviewed treatment; the rate that applies.\<close>

definition override_recovery ::
  "'d decimal_api \<Rightarrow> tax_direction \<Rightarrow> reviewed_treatment option \<Rightarrow> 'd \<Rightarrow> tax_line_error + 'd" where
  "override_recovery D direction reviewed rate =
     (let zero = dec_int D 0; one = dec_int D 1 in
      if direction = Sale then
        bindE (require (reviewed = None \<or> reviewed = Some OutputPayable) SaleOverrideNotOutputPayable) (\<lambda>_.
        Inr zero)
      else
        bindE (require (\<not> dec_is_neg D rate \<and> \<not> dec_gt D rate one) OverrideRecoverableRange) (\<lambda>_.
        bindE (require (reviewed \<noteq> Some OutputPayable) PurchaseOverrideOutputPayable) (\<lambda>_.
        bindE (require (reviewed = Some FullyRecoverable \<longrightarrow> dec_eq D rate one) OverrideNotFullyRecoverable) (\<lambda>_.
        bindE (require (reviewed = Some PartiallyRecoverable \<longrightarrow>
            \<not> dec_ge D zero rate \<and> \<not> dec_ge D rate one) OverrideNotPartiallyRecoverable) (\<lambda>_.
        bindE (require (reviewed = Some NonrecoverableTreatment \<longrightarrow> dec_is_zero D rate)
          OverrideNotNonrecoverable) (\<lambda>_.
        Inr rate))))))"

definition override_components ::
  "'d decimal_api \<Rightarrow> tax_facts \<Rightarrow> tax_override_input \<Rightarrow> 'd \<Rightarrow> 'd \<Rightarrow> 'd \<Rightarrow> money_error + tax_component list" where
  "override_components D facts ov rate source recovery =
     (let currency = tf_currency facts; purchase = tf_direction facts = Purchase;
          rate_text = dec_plain D rate in
      bindE (if purchase then quantize_money D (DecIn (dec_times D source recovery)) currency
             else Inr (dec_int D 0)) (\<lambda>recoverable.
      let nonrecoverable = (if purchase then dec_minus D source recoverable else dec_int D 0) in
      if \<not> purchase then
        bindE (fixed_amount D currency source) (\<lambda>a. Inr [component (ov_component_key ov) rate_text a Payable])
      else
        bindE (fixed_amount D currency recoverable) (\<lambda>r.
        bindE (fixed_amount D currency nonrecoverable) (\<lambda>n.
        Inr ((if \<not> dec_is_zero D recoverable
              then [component (ov_component_key ov @ ''_RECOVERABLE'') rate_text r Recoverable] else [])
           @ (if \<not> dec_is_zero D nonrecoverable
              then [component (ov_component_key ov @ ''_NONRECOVERABLE'') rate_text n Nonrecoverable]
              else []))))))"

definition override_decision ::
  "'d decimal_api \<Rightarrow> string \<Rightarrow> tax_facts \<Rightarrow> tax_decision \<Rightarrow> tax_override_input \<Rightarrow> tax_line_error + tax_decision" where
  "override_decision D pack facts base ov =
     (let currency = tf_currency facts; zero = dec_int D 0; reviewed = ov_reviewed ov \<noteq> None in
      bindE (money (ontario_insurance_rst D pack facts ov)) (\<lambda>rst.
      bindE (require (tf_category facts = CatStandard \<or> rst) OverrideNeedsStandardLine) (\<lambda>_.
      bindE (if rst then money (exact D (TextIn (or_else (tf_recoverable facts) ''0''))) else Inr zero) (\<lambda>pct.
      bindE (require (\<not> (rst \<and> (\<not> dec_is_zero D pct
          \<or> (reviewed \<and> ov_reviewed ov \<noteq> Some NonrecoverableTreatment)))) InsuranceTaxNotRecoverable) (\<lambda>_.
      bindE (require (\<not> (tf_tax_point facts < ov_effective_from ov
          \<or> (truthy (ov_effective_to ov) \<and> tf_tax_point facts > or_else (ov_effective_to ov) [])))
        OverrideNotEffective) (\<lambda>_.
      bindE (money (is_quantized_money D (TextIn (ov_amount ov)) currency)) (\<lambda>quantized.
      bindE (require quantized OverridePrecision) (\<lambda>_.
      bindE (money (exact D (TextIn (tf_basis facts)))) (\<lambda>basis.
      bindE (money (exact D (TextIn (ov_amount ov)))) (\<lambda>source.
      bindE (require (\<not> ((dec_is_neg D basis \<and> dec_gt D source zero)
          \<or> (dec_gt D basis zero \<and> dec_is_neg D source))) OverrideSign) (\<lambda>_.
      bindE (money (exact D (TextIn (ov_rate_percent ov)))) (\<lambda>percent.
      let rate = dec_div D percent (dec_int D 100) in
      bindE (money (quantize_money D (DecIn (dec_times D basis rate)) currency)) (\<lambda>calculated.
      let adjustment = dec_minus D source calculated in
      bindE (require (dec_is_zero D adjustment
          \<or> (truthy (ov_adjustment_reason ov) \<and> truthy (ov_adjustment_evidence ov)))
        OverrideNeedsAdjustmentEvidence) (\<lambda>_.
      bindE (money (combined_rate_percent D (map tc_rate (td_components base)))) (\<lambda>automated_percent.
      bindE (money (exact D (TextIn (or_else (tf_recoverable facts) ''0'')))) (\<lambda>recoverable_pct.
      bindE (override_recovery D (tf_direction facts) (ov_reviewed ov)
          (dec_div D recoverable_pct (dec_int D 100))) (\<lambda>recovery.
      bindE (money (override_components D facts ov rate source recovery)) (\<lambda>components.
      bindE (money (fixed_amount D currency source)) (\<lambda>source_text.
      bindE (money (fixed_amount D currency calculated)) (\<lambda>calculated_text.
      bindE (money (bindE (quantize_money D (DecIn adjustment) currency) (fixed_amount D currency))) (\<lambda>adjustment_text.
      Inr \<lparr>
        td_status = (if reviewed then Applied else ManualReviewRequired),
        td_pack_key = td_pack_key base, td_pack_version = td_pack_version base,
        td_rule_key = ''controlled-source-tax-override'', td_jurisdiction = ov_jurisdiction ov,
        td_effective_from = ov_effective_from ov, td_effective_to = ov_effective_to ov,
        td_facts = facts, td_components = components, td_total_tax = source_text,
        td_source = ''Controlled source-document override; base rules: '' @ td_source base,
        td_review_reason = (if reviewed then None else Some SourceOverrideUnreviewed),
        td_source_override = Some \<lparr>
          so_state = (if reviewed then Reviewed else PendingReview),
          so_rate_percent = dec_plain D percent, so_source_amount = source_text,
          so_calculated_amount = calculated_text, so_adjustment_amount = adjustment_text,
          so_automated_status = td_status base, so_automated_rate_percent = automated_percent,
          so_automated_amount = td_total_tax base, so_automated_rule_key = td_rule_key base,
          so_jurisdiction = ov_jurisdiction ov, so_component_key = ov_component_key ov,
          so_reason = ov_reason ov, so_evidence = ov_evidence ov,
          so_reviewed_treatment = ov_reviewed ov, so_adjustment_reason = ov_adjustment_reason ov,
          so_adjustment_evidence = ov_adjustment_evidence ov\<rparr>\<rparr>)))))))))))))))))))))"

definition decide_line_tax ::
  "'d decimal_api \<Rightarrow> tax_input \<Rightarrow> tax_facts \<Rightarrow> tax_line_error + tax_decision" where
  "decide_line_tax D tax facts =
     bindE (map_errorE LineTax (decide_tax D (ti_pack tax) facts)) (\<lambda>base.
     case ti_rounding tax of
       Some rounding \<Rightarrow> apply_source_tax_rounding D base rounding
     | None \<Rightarrow>
         (case ti_override tax of
            None \<Rightarrow> Inr base
          | Some ov \<Rightarrow> override_decision D (ti_pack tax) facts base ov))"

section \<open>The accounting shape of a decision\<close>

definition invalid_sign :: "'d decimal_api \<Rightarrow> bool \<Rightarrow> string \<Rightarrow> money_error + bool" where
  "invalid_sign D negative_basis amount =
     bindE (exact D (TextIn amount)) (\<lambda>a.
     Inr (if negative_basis then dec_gt D a (dec_int D 0) else dec_gt D (dec_int D 0) a))"

definition check_tax_amount ::
  "'d decimal_api \<Rightarrow> string \<Rightarrow> bool \<Rightarrow> string \<Rightarrow> tax_line_error \<Rightarrow> tax_line_error + unit" where
  "check_tax_amount D currency negative_basis amount e =
     bindE (money (is_quantized_money D (TextIn amount) currency)) (\<lambda>quantized.
     if \<not> quantized then Inl e
     else bindE (money (invalid_sign D negative_basis amount)) (\<lambda>bad. throw_if bad e))"

definition allowed_treatments :: "tax_direction \<Rightarrow> tax_treatment list" where
  "allowed_treatments direction =
     (if direction = Sale then [Payable, DisclosureOnly]
      else [Recoverable, Nonrecoverable, SelfAssessedPayable, DisclosureOnly])"

definition assert_tax_decision_accounting_shape ::
  "'d decimal_api \<Rightarrow> tax_decision \<Rightarrow> tax_direction \<Rightarrow> string \<Rightarrow> string \<Rightarrow> tax_line_error + unit" where
  "assert_tax_decision_accounting_shape D decision direction currency basis =
     bindE (money (exact D (TextIn basis))) (\<lambda>b.
     let negative = dec_is_neg D b in
     bindE (check_tax_amount D currency negative (td_total_tax decision) InvalidTaxAmount) (\<lambda>_.
     bindE (foldE (\<lambda>_ c. check_tax_amount D currency negative (tc_amount c)
         (InvalidComponentAmount (tc_key c))) () (td_components decision)) (\<lambda>_.
     bindE (money (sum_exact D (map (\<lambda>c. TextIn (tc_amount c))
         (filter (\<lambda>c. tc_treatment c \<noteq> DisclosureOnly) (td_components decision))))) (\<lambda>recognized.
     bindE (money (exact D (TextIn (td_total_tax decision)))) (\<lambda>total.
     bindE (require (dec_eq D recognized total) ComponentsDoNotReconcile) (\<lambda>_.
     require (list_all (\<lambda>c. tc_treatment c \<in> set (allowed_treatments direction)) (td_components decision))
       TreatmentIncompatible))))))"

section \<open>Lemmas\<close>

lemma component_amounts_Nil [simp]: "component_amounts [] as \<longleftrightarrow> as = []"
  by (simp add: component_amounts_def)

lemma component_amounts_Cons:
  "component_amounts (c # cs) as \<longleftrightarrow>
     (\<exists>a bs. as = a # bs \<and> text_amount (tc_amount c) a \<and> component_amounts cs bs)"
  by (auto simp: component_amounts_def list_all2_Cons1)

lemma same_sign_sum_list: "\<forall>a \<in> set as. same_sign q a \<Longrightarrow> same_sign q (sum_list as)"
  by (induction as) (auto simp: same_sign_def add_nonneg_nonneg add_nonpos_nonpos)

lemma same_sign_le_sum:
  assumes "\<forall>a \<in> set as. same_sign q a" "a \<in> set as"
  shows "\<bar>a\<bar> \<le> \<bar>sum_list as\<bar>"
proof -
  have *: "(\<forall>a \<in> set as. 0 \<le> a) \<Longrightarrow> a \<in> set as \<Longrightarrow> a \<le> sum_list as" for a and as :: "rat list"
    by (auto intro: member_le_sum_list)
  show ?thesis
  proof (cases "0 \<le> q")
    case True
    then have "\<forall>a \<in> set as. 0 \<le> a" using assms(1) by (auto simp: same_sign_def)
    with * [of as a] assms(2) show ?thesis by (simp add: abs_of_nonneg sum_list_nonneg)
  next
    case False
    then have neg: "\<forall>a \<in> set (map uminus as). 0 \<le> a" using assms(1) by (auto simp: same_sign_def)
    have s: "sum_list (map uminus as) = - sum_list as" by (induction as) auto
    have "- a \<le> - sum_list as" "0 \<le> - a"
      using * [OF neg, of "- a"] assms(2) neg s by auto
    then show ?thesis by simp
  qed
qed

lemma mapped_treatments_fit:
  "map tc_treatment cs' = map tc_treatment cs \<Longrightarrow> treatments_fit dir cs' = treatments_fit dir cs"
proof -
  assume eq: "map tc_treatment cs' = map tc_treatment cs"
  have all: "list_all (\<lambda>c. P (tc_treatment c)) xs = list_all P (map tc_treatment xs)" for P and xs :: "tax_component list"
    by (simp add: list.pred_map o_def)
  show ?thesis
    unfolding treatments_fit_def
    using eq [THEN map_eq_imp_length_eq] all [of "\<lambda>t. t = Payable"] all [of "\<lambda>t. t \<in> {Recoverable, Nonrecoverable}"]
      all [of "\<lambda>t. t = SelfAssessedPayable"] eq by simp
qed

context decimal_lib
begin

lemma spread_source_tax_ok:
  assumes "component_amounts cs amounts" and "\<forall>a \<in> set amounts. \<bar>a\<bar> \<le> \<bar>val calculated\<bar> \<and> scaled n a"
    and n: "minor_units currency = Inr n"
    and src: "dec_finite D source" "scaled n (val source)" "\<bar>val source\<bar> \<le> 10 ^ 21"
    and calc: "dec_finite D calculated" "\<bar>val calculated\<bar> \<le> 10 ^ 20"
    and rem: "dec_finite D remaining" "scaled n (val remaining)"
      "\<bar>val remaining\<bar> + of_nat (length cs) * 10 ^ 21 \<le> 10 ^ 25"
  shows "\<exists>cs' as'. spread_source_tax D currency source calculated remaining cs = Inr cs'
    \<and> component_amounts cs' as' \<and> (cs \<noteq> [] \<longrightarrow> sum_list as' = val remaining)
    \<and> (\<forall>a \<in> set as'. scaled n a) \<and> map tc_treatment cs' = map tc_treatment cs"
  using assms(1,2) rem
proof (induction cs arbitrary: amounts remaining)
  case (Cons c cs)
  from Cons.prems(1) obtain a bs where ab: "amounts = a # bs" "text_amount (tc_amount c) a" "component_amounts cs bs"
    by (auto simp: component_amounts_Cons)
  have a: "\<bar>a\<bar> \<le> \<bar>val calculated\<bar>" "scaled n a" using Cons.prems(2) ab(1) by auto
  have n3: "n \<le> 3" by (rule minor_units_le_3 [OF n])
  have "\<exists>amount. (if cs = [] then Inr remaining
            else if dec_is_zero D calculated then Inr (dec_int D 0)
            else bindE (times_literal D source (tc_amount c)) (\<lambda>p.
                 quantize_money D (DecIn (dec_div D p calculated)) currency)) = Inr amount
      \<and> dec_finite D amount \<and> scaled n (val amount) \<and> (cs \<noteq> [] \<longrightarrow> \<bar>val amount\<bar> \<le> 10 ^ 21)
      \<and> (cs = [] \<longrightarrow> amount = remaining)"
  proof (cases "cs = [] \<or> dec_is_zero D calculated")
    case True
    then show ?thesis using Cons.prems(3,4) by auto
  next
    case False
    then have nz: "val calculated \<noteq> 0" using calc(1) by simp
    have m: "\<bar>val source * a\<bar> \<le> 10 ^ 21 * 10 ^ 20"
      unfolding abs_mult using src(3) a(1) calc(2) by (intro mult_mono) auto
    have "scaled (n + n) (val source * a)" by (rule scaled_mult [OF src(2) a(2)])
    then have "fits (val source * a)"
      by (rule fits_scaled [where m = 41]) (use m n3 in \<open>simp_all flip: power_add\<close>)
    then obtain p where p: "times_literal D source (tc_amount c) = Inr p" "dec_finite D p" "val p = val source * a"
      using times_literal_val [OF src(1) ab(2)] by blast
    let ?q = "dec_div D p calculated"
    have q: "dec_finite D ?q" "val ?q = rnd (val source * a / val calculated)"
      using p calc(1) nz by (simp_all add: div_val)
    have "\<bar>val source * a / val calculated\<bar> = \<bar>val source\<bar> * (\<bar>a\<bar> / \<bar>val calculated\<bar>)"
      by (simp add: abs_mult abs_divide)
    also have "\<dots> \<le> \<bar>val source\<bar> * 1" using a(1) nz by (intro mult_left_mono) auto
    finally have "\<bar>val source * a / val calculated\<bar> \<le> 10 ^ 21" using src(3) by simp
    then have "\<bar>val ?q\<bar> \<le> 10 ^ 21" unfolding q(2) by (rule rnd_pow_bound) simp
    then have "\<bar>half_up n (val ?q)\<bar> \<le> 10 ^ 21" by (rule half_up_pow_bound)
    then show ?thesis using False p(1) q(1) n by (simp add: quantize_money_def check_finite_def)
  qed
  then obtain amount where am: "(if cs = [] then Inr remaining
            else if dec_is_zero D calculated then Inr (dec_int D 0)
            else bindE (times_literal D source (tc_amount c)) (\<lambda>p.
                 quantize_money D (DecIn (dec_div D p calculated)) currency)) = Inr amount"
      "dec_finite D amount" "scaled n (val amount)" "cs \<noteq> [] \<longrightarrow> \<bar>val amount\<bar> \<le> 10 ^ 21"
      "cs = [] \<longrightarrow> amount = remaining" by blast
  obtain t where t: "fixed_amount D currency amount = Inr t" "text_amount t (val amount)"
    using fixed_amount_text [OF am(2) n am(3)] by blast
  show ?case
  proof (cases "cs = []")
    case True
    then show ?thesis using am t ab
      by (intro exI [where x = "[c\<lparr>tc_amount := t\<rparr>]"] exI [where x = "[val amount]"])
        (simp add: component_amounts_def)
  next
    case False
    have len: "of_nat (length (c # cs)) * B = of_nat (length cs) * B + B" for B :: rat
      by (simp add: algebra_simps)
    have "\<bar>val remaining - val amount\<bar> \<le> \<bar>val remaining\<bar> + \<bar>val amount\<bar>" by (rule abs_triangle_ineq4)
    with am(4) False Cons.prems(5) [unfolded len]
    have b: "\<bar>val remaining - val amount\<bar> + of_nat (length cs) * 10 ^ 21 \<le> 10 ^ 25" by linarith
    have "(0::rat) \<le> of_nat (length cs) * 10 ^ 21" by (intro mult_nonneg_nonneg) auto
    with b have "\<bar>val remaining - val amount\<bar> \<le> 10 ^ 25" by linarith
    then have "fits (val remaining - val amount)"
      by (intro fits_scaled [OF scaled_diff [OF Cons.prems(4) am(3)], where m = 25]) (use n3 in auto)
    then have r: "dec_finite D (dec_minus D remaining amount)"
      "val (dec_minus D remaining amount) = val remaining - val amount"
      using Cons.prems(3) am(2) by (auto intro: minus_exact)
    obtain cs' as' where rest: "spread_source_tax D currency source calculated (dec_minus D remaining amount) cs = Inr cs'"
      "component_amounts cs' as'" "sum_list as' = val remaining - val amount" "\<forall>a \<in> set as'. scaled n a"
      "map tc_treatment cs' = map tc_treatment cs"
      using Cons.IH [OF ab(3) _ r(1)] Cons.prems(2,4) ab(1) am(3) b r(2) False by (auto simp: scaled_diff)
    show ?thesis using am t rest
      by (intro exI [where x = "c\<lparr>tc_amount := t\<rparr> # cs'"] exI [where x = "val amount # as'"])
        (simp add: component_amounts_def)
  qed
qed simp

lemma spread_any:
  "spread_source_tax D currency source calculated remaining cs = Inr cs' \<Longrightarrow> cs = [] \<longleftrightarrow> cs' = []"
  by (cases cs) (auto simp: bindE_Inr_iff)

lemma one_minor_unit_val:
  assumes "minor_units currency = Inr n"
  shows "\<exists>t. one_minor_unit D currency = Inr t \<and> dec_finite D t \<and> val t = 1 / 10 ^ n"
proof -
  have "n \<le> 3" by (rule minor_units_le_3 [OF assms])
  then have f: "fits (1 / 10 ^ n)"
    by (intro fits_scaled [where n = n and m = 0]) (auto simp: scaled_def intro: exI [where x = 1])
  have p: "(10::rat) powi (- int n) = 1 / 10 ^ n"
    by (simp add: power_int_minus divide_inverse)
  show ?thesis
    using assms f p pow_fin [of "dec_int D 10" "- int n"] pow_val [of "dec_int D 10" "- int n"]
    by (simp add: one_minor_unit_def)
qed

text \<open>A rounded difference within one minor unit comes from an exact one.\<close>

lemma difference_bound:
  assumes "\<bar>rnd (s - c)\<bar> \<le> 1 / 10 ^ n" and "scaled n s" "scaled n c" "n \<le> 3" "\<bar>c\<bar> \<le> 10 ^ 20"
  shows "\<bar>s - c\<bar> \<le> 1 / 10 ^ n \<and> \<bar>s\<bar> \<le> 10 ^ 21"
proof -
  have one: "(1::rat) / 10 ^ n \<le> 1" by simp
  have "\<bar>s - c\<bar> \<le> 10 ^ 30"
  proof (rule ccontr)
    assume "\<not> \<bar>s - c\<bar> \<le> 10 ^ 30"
    then consider "10 ^ 30 \<le> s - c" | "s - c \<le> - (10 ^ 30)" by linarith
    then show False
    proof cases
      case 1
      have "fits (10 ^ 30)" using fits_int [of "10 ^ 30"] by simp
      then have "10 ^ 30 \<le> rnd (s - c)" using rnd_mono [OF 1] by (simp add: rnd_fits)
      then show False using assms(1) one by simp
    next
      case 2
      have "fits (- (10 ^ 30))" using fits_int [of "- (10 ^ 30)"] by simp
      then have "rnd (s - c) \<le> - (10 ^ 30)" using rnd_mono [OF 2] by (simp add: rnd_fits)
      then show False using assms(1) one by simp
    qed
  qed
  then have "fits (s - c)"
    by (intro fits_scaled [OF scaled_diff [OF assms(2,3)], where m = 30]) (use assms(4) in auto)
  then have b: "\<bar>s - c\<bar> \<le> 1 / 10 ^ n" using assms(1) by (simp add: rnd_fits)
  then have "\<bar>s\<bar> \<le> 1 + 10 ^ 20" using assms(5) one by linarith
  then show ?thesis using b by simp
qed

text \<open>What a successful rounding has checked.\<close>

lemma rounding_Inr:
  assumes "apply_source_tax_rounding D base input = Inr d"
  obtains source calculated tolerance basis components source_text where
    "exact D (TextIn (sr_amount input)) = Inr source" "exact D (TextIn (td_total_tax base)) = Inr calculated"
    "one_minor_unit D (tf_currency (td_facts base)) = Inr tolerance"
    "tf_direction (td_facts base) = Purchase" "td_status base = Applied"
    "is_quantized_money D (TextIn (sr_amount input)) (tf_currency (td_facts base)) = Inr True"
    "exact D (TextIn (tf_basis (td_facts base))) = Inr basis"
    "\<not> (dec_is_neg D source \<and> dec_gt D basis (dec_int D 0))"
    "\<not> (dec_gt D source (dec_int D 0) \<and> dec_is_neg D basis)"
    "\<not> dec_gt D (dec_abs D (dec_minus D source calculated)) tolerance"
    "dec_is_zero D calculated \<longrightarrow> dec_is_zero D source"
    "spread_source_tax D (tf_currency (td_facts base)) source calculated source (td_components base) = Inr components"
    "fixed_amount D (tf_currency (td_facts base)) source = Inr source_text"
    "td_components d = components" "td_total_tax d = source_text" "td_facts d = td_facts base"
    "td_pack_key d = td_pack_key base"
    "td_status d = (if sr_reviewed input then Applied else ManualReviewRequired)"
    "td_review_reason d = (if sr_reviewed input then td_review_reason base else Some SourceRoundingUnreviewed)"
  using assms unfolding apply_source_tax_rounding_def Let_def
  by (elim bindE_Inr_iff [THEN iffD1, THEN exE] conjE)
    (auto simp: bindE_Inr_iff throw_if_Inr_iff map_errorE_Inr_iff simp del: exact.simps)

text \<open>Rounding a reconciled decision keeps it reconciled, on the supplier's amount.\<close>

lemma rounding_reconciles:
  assumes ok: "apply_source_tax_rounding D base input = Inr d"
    and base: "component_amounts (td_components base) amounts"
      "text_amount (td_total_tax base) (sum_list amounts)"
      "\<forall>a \<in> set amounts. scaled n a \<and> same_sign q a" "treatments_fit Purchase (td_components base)"
    and n: "minor_units (tf_currency (td_facts base)) = Inr n"
    and small: "\<bar>sum_list amounts\<bar> \<le> 10 ^ 20" "length (td_components base) \<le> 1000"
  shows "\<exists>as'. component_amounts (td_components d) as' \<and> text_amount (td_total_tax d) (sum_list as')
    \<and> (\<forall>a \<in> set as'. scaled n a) \<and> \<bar>sum_list as' - sum_list amounts\<bar> \<le> 1 / 10 ^ n
    \<and> treatments_fit Purchase (td_components d)
    \<and> (\<exists>s. exact D (TextIn (sr_amount input)) = Inr s \<and> val s = sum_list as')"
  using ok
proof (cases rule: rounding_Inr)
  case (1 source calculated tolerance basis components source_text)
  note n3 = minor_units_le_3 [OF n]
  have fin: "dec_finite D source" "dec_finite D calculated"
    using exact_finite 1(1,2) by blast+
  have calc: "val calculated = sum_list amounts"
    using exact_text [OF base(2)] 1(2) by auto
  have src: "scaled n (val source)"
    using 1(6) is_quantized_iff [OF 1(1) n] by simp
  have sc: "scaled n (sum_list amounts)" using base(3) by (auto intro: scaled_sum_list)
  obtain t where "one_minor_unit D (tf_currency (td_facts base)) = Inr t" "dec_finite D t" "val t = 1 / 10 ^ n"
    using one_minor_unit_val [OF n] by blast
  then have tol: "dec_finite D tolerance" "val tolerance = 1 / 10 ^ n" using 1(3) by auto
  have "\<bar>val (dec_minus D source calculated)\<bar> \<le> 1 / 10 ^ n"
    using 1(10) fin tol by (simp add: not_less)
  then have r: "\<bar>rnd (val source - val calculated)\<bar> \<le> 1 / 10 ^ n" using fin by (simp add: minus_val)
  have bound: "\<bar>val source - val calculated\<bar> \<le> 1 / 10 ^ n" "\<bar>val source\<bar> \<le> 10 ^ 21"
    using difference_bound [OF r] small(1) calc src sc n3 by auto
  have as_small: "\<forall>a \<in> set amounts. \<bar>a\<bar> \<le> \<bar>val calculated\<bar> \<and> scaled n a"
    using same_sign_le_sum [of amounts q] base(3) calc by auto
  have len: "\<bar>val source\<bar> + of_nat (length (td_components base)) * 10 ^ 21 \<le> (10 ^ 25 :: rat)"
  proof -
    have "of_nat (length (td_components base)) \<le> (of_nat 1000 :: rat)" using small(2) of_nat_le_iff by blast
    then have "of_nat (length (td_components base)) * 10 ^ 21 \<le> (1000 :: rat) * 10 ^ 21"
      by (intro mult_right_mono) auto
    then show ?thesis using bound(2) by simp
  qed
  obtain cs' as' where sp: "spread_source_tax D (tf_currency (td_facts base)) source calculated source
      (td_components base) = Inr cs'" "component_amounts cs' as'"
    "td_components base \<noteq> [] \<longrightarrow> sum_list as' = val source" "\<forall>a \<in> set as'. scaled n a"
    "map tc_treatment cs' = map tc_treatment (td_components base)"
    using spread_source_tax_ok [OF base(1) as_small n fin(1) src bound(2) fin(2) _ fin(1) src len]
      small(1) calc by auto
  have sum: "sum_list as' = val source"
  proof (cases "td_components base = []")
    case True
    then have "cs' = []" "amounts = []" using spread_any [OF sp(1)] base(1) by auto
    then have "val calculated = 0" "as' = []" using calc sp(2) by auto
    then have "dec_is_zero D calculated" using fin by simp
    then show ?thesis using \<open>as' = []\<close> 1(11) fin by simp
  qed (use sp(3) in simp)
  have "fixed_amount D (tf_currency (td_facts base)) source = Inr source_text" by fact
  then have "text_amount source_text (val source)"
    using fixed_amount_text [OF fin(1) n src] by auto
  then show ?thesis
    using sp 1(12,14,15) sum bound(1) calc 1(1) base(4) mapped_treatments_fit [OF sp(5)] by auto
qed

lemma override_recovery_Inr:
  assumes "override_recovery D dir reviewed rate = Inr r" and "dec_finite D rate"
  shows "dec_finite D r \<and> 0 \<le> val r \<and> val r \<le> 1"
  using assms neg_iff [OF assms(2)]
  by (cases dir; cases "val rate = 0")
    (auto simp: override_recovery_def Let_def bindE_Inr_iff throw_if_Inr_iff not_less)

lemma override_components_ok:
  assumes "dec_finite D source" "scaled n (val source)" "\<bar>val source\<bar> \<le> 10 ^ 29"
    and n: "minor_units (tf_currency facts) = Inr n"
    and r: "dec_finite D recovery" "0 \<le> val recovery" "val recovery \<le> 1"
  shows "\<exists>cs amounts. override_components D facts ov rate source recovery = Inr cs
    \<and> component_amounts cs amounts \<and> sum_list amounts = val source
    \<and> (\<forall>a \<in> set amounts. scaled n a \<and> same_sign (val source) a)
    \<and> treatments_fit (tf_direction facts) cs"
proof (cases "tf_direction facts = Purchase")
  case True
  define rec where "rec = dec_places D n (dec_times D source recovery)"
  note sp = recovery_split [OF assms(1-3) minor_units_le_3 [OF n] r, folded rec_def]
  have q: "quantize_money D (DecIn (dec_times D source recovery)) (tf_currency facts) = Inr rec"
    using assms(1) r(1) n by (simp add: quantize_money_def check_finite_def rec_def)
  obtain a b where ab: "fixed_amount D (tf_currency facts) rec = Inr a" "text_amount a (val rec)"
    "fixed_amount D (tf_currency facts) (dec_minus D source rec) = Inr b" "text_amount b (val source - val rec)"
    using fixed_amount_text [of rec _ n] fixed_amount_text [of "dec_minus D source rec" _ n] n sp assms(2)
    by (metis scaled_diff)
  let ?cs = "(if \<not> dec_is_zero D rec
        then [component (ov_component_key ov @ ''_RECOVERABLE'') (dec_plain D rate) a Recoverable] else [])
     @ (if \<not> dec_is_zero D (dec_minus D source rec)
        then [component (ov_component_key ov @ ''_NONRECOVERABLE'') (dec_plain D rate) b Nonrecoverable] else [])"
  let ?as = "(if val rec \<noteq> 0 then [val rec] else [])
     @ (if val source - val rec \<noteq> 0 then [val source - val rec] else [])"
  have "override_components D facts ov rate source recovery = Inr ?cs"
    using True q ab by (simp add: override_components_def Let_def)
  moreover have "component_amounts ?cs ?as"
    using sp ab by (auto simp: component_amounts_def component_def)
  moreover have "sum_list ?as = val source" by simp
  moreover have "\<forall>x \<in> set ?as. scaled n x \<and> same_sign (val source) x"
    using sp assms(2) by auto
  moreover have "treatments_fit (tf_direction facts) ?cs"
    using True by (simp add: treatments_fit_def component_def)
  ultimately show ?thesis by blast
next
  case False
  obtain a where a: "fixed_amount D (tf_currency facts) source = Inr a" "text_amount a (val source)"
    using fixed_amount_text [OF assms(1) n assms(2)] by blast
  let ?c = "component (ov_component_key ov) (dec_plain D rate) a Payable"
  have "override_components D facts ov rate source recovery = Inr [?c]"
    using False a(1) by (simp add: override_components_def Let_def)
  moreover have "tf_direction facts = Sale" using False by (cases "tf_direction facts") auto
  ultimately show ?thesis using assms(2) a(2)
    by (intro exI [where x = "[?c]"] exI [where x = "[val source]"])
      (simp add: treatments_fit_def component_def same_sign_def component_amounts_def)
qed

lemma override_Inr:
  assumes "override_decision D pack facts base ov = Inr d"
  obtains source recovery rate components source_text pct where
    "is_quantized_money D (TextIn (ov_amount ov)) (tf_currency facts) = Inr True"
    "exact D (TextIn (ov_amount ov)) = Inr source"
    "exact D (TextIn (or_else (tf_recoverable facts) ''0'')) = Inr pct"
    "override_recovery D (tf_direction facts) (ov_reviewed ov) (dec_div D pct (dec_int D 100)) = Inr recovery"
    "override_components D facts ov rate source recovery = Inr components"
    "fixed_amount D (tf_currency facts) source = Inr source_text"
    "td_components d = components" "td_total_tax d = source_text" "td_facts d = facts"
    "td_status d = (if ov_reviewed ov \<noteq> None then Applied else ManualReviewRequired)"
    "td_review_reason d = (if ov_reviewed ov \<noteq> None then None else Some SourceOverrideUnreviewed)"
  using assms unfolding override_decision_def Let_def
  by (elim bindE_Inr_iff [THEN iffD1, THEN exE] conjE)
    (auto simp: bindE_Inr_iff throw_if_Inr_iff map_errorE_Inr_iff simp del: exact.simps split: if_splits)

lemma override_reconciles:
  assumes ok: "override_decision D pack facts base ov = Inr d"
    and n: "minor_units (tf_currency facts) = Inr n"
    and s: "text_amount (ov_amount ov) s" "\<bar>s\<bar> \<le> 10 ^ 29"
  shows "\<exists>as'. component_amounts (td_components d) as' \<and> text_amount (td_total_tax d) s
    \<and> sum_list as' = s \<and> (\<forall>a \<in> set as'. scaled n a) \<and> treatments_fit (tf_direction facts) (td_components d)"
  using ok
proof (cases rule: override_Inr)
  case (1 source recovery rate components source_text pct)
  have src: "dec_finite D source" "val source = s" using exact_text [OF s(1)] 1(2) by auto
  have sc: "scaled n (val source)" using 1(1) is_quantized_iff [OF 1(2) n] by simp
  have "dec_finite D (dec_div D pct (dec_int D 100))" using exact_finite [OF 1(3)] by simp
  note rec = override_recovery_Inr [OF 1(4) this]
  have "text_amount source_text (val source)"
    using fixed_amount_text [OF src(1) n sc] 1(6) by auto
  moreover have "\<exists>cs amounts. override_components D facts ov rate source recovery = Inr cs
    \<and> component_amounts cs amounts \<and> sum_list amounts = val source
    \<and> (\<forall>a \<in> set amounts. scaled n a \<and> same_sign (val source) a)
    \<and> treatments_fit (tf_direction facts) cs"
    using override_components_ok [OF src(1) sc _ n] rec src(2) s(2) by auto
  ultimately show ?thesis using 1(5,7,8) src(2) by auto
qed

text \<open>The size of the statutory tax, and the number of its components.\<close>

lemma abs_half_up_le: assumes "\<bar>q\<bar> \<le> 10 ^ 18" "0 \<le> r" "r \<le> 1" shows "\<bar>half_up n (q * r)\<bar> \<le> 10 ^ 18"
proof -
  have "\<bar>q * r\<bar> \<le> 10 ^ 18 * 1" unfolding abs_mult using assms by (intro mult_mono) auto
  then show ?thesis by (intro half_up_pow_bound) simp
qed

lemma statutory_tax_le:
  assumes "\<bar>q\<bar> \<le> 10 ^ 18"
  shows "\<bar>statutory_tax key facts n q\<bar> \<le> 10 ^ 20"
proof -
  have b: "\<bar>half_up n (q * r)\<bar> \<le> 10 ^ 18" if "0 \<le> r" "r \<le> 1" for r
    using abs_half_up_le [OF assms that] .
  have at: "0 \<le> atlantic_rate facts" "atlantic_rate facts \<le> 1" by (auto simp: atlantic_rate_def)
  have "\<bar>half_up n (q * (65 / 1000)) + half_up n (q * (405 / 10000))\<bar> \<le> 10 ^ 18 + 10 ^ 18"
    using b [of "65 / 1000"] b [of "405 / 10000"] by (intro order_trans [OF abs_triangle_ineq] add_mono) auto
  moreover have "(10::rat) ^ 18 \<le> 10 ^ 20" by simp
  ultimately show ?thesis
    using b [of "13 / 100"] b [OF at] by (auto simp: statutory_tax_def)
qed

lemma base_amounts:
  assumes "decide_tax D key facts = Inr d" "text_amount (tf_basis facts) q" "scaled 9 q" "\<bar>q\<bar> \<le> 10 ^ 18"
    and n: "minor_units (tf_currency facts) = Inr n"
  shows "\<exists>amounts. component_amounts (td_components d) amounts \<and> td_facts d = facts
    \<and> text_amount (td_total_tax d) (sum_list amounts) \<and> \<bar>sum_list amounts\<bar> \<le> 10 ^ 20
    \<and> (\<forall>a \<in> set amounts. scaled n a \<and> same_sign q a)
    \<and> treatments_fit (tf_direction facts) (td_components d)"
proof -
  have "(10::rat) ^ 18 \<le> 10 ^ 29" by (rule power_increasing) simp_all
  then have "ledger_amount q" using assms(3,4) unfolding ledger_amount_def by linarith
  then have ok: "decision_ok key facts q d"
    using decide_tax_ok [OF decide_tax_registered [OF assms(1)] assms(2)] assms(1) by auto
  show ?thesis
  proof (cases "td_status d = Applied")
    case True
    then have "applied_ok facts q d" "td_facts d = facts" using ok by (auto simp: decision_ok_def)
    then obtain amounts where am: "component_amounts (td_components d) amounts" "td_facts d = facts"
      "text_amount (td_total_tax d) (sum_list amounts)"
      "sum_list amounts = statutory_tax (td_pack_key d) facts n q"
      "\<forall>a \<in> set amounts. scaled n a \<and> same_sign q a" "treatments_fit (tf_direction facts) (td_components d)"
      using n unfolding applied_ok_def by auto
    have "\<bar>sum_list amounts\<bar> \<le> 10 ^ 20" unfolding am(4) by (rule statutory_tax_le [OF assms(4)])
    then show ?thesis using am by blast
  next
    case False
    then have "td_components d = []" "text_amount (td_total_tax d) 0" "td_facts d = facts"
      using ok by (auto simp: decision_ok_def zero_ok_def split: if_splits)
    then show ?thesis by (intro exI [where x = "[]"]) (auto simp: treatments_fit_def)
  qed
qed

lemma within_one_unit:
  fixes a b :: rat
  assumes "\<bar>a - b\<bar> \<le> 1 / 10 ^ n" "\<bar>b\<bar> \<le> 10 ^ 20" shows "\<bar>a\<bar> \<le> 10 ^ 20 + 1"
proof -
  have "(1::rat) / 10 ^ n \<le> 1" by simp
  with assms show ?thesis by linarith
qed

text \<open>All three ways a line's tax is decided keep it reconciled.\<close>

lemma decide_line_tax_ok:
  assumes d: "decide_line_tax D tax facts = Inr d"
    and q: "text_amount (tf_basis facts) q" "scaled 9 q" "\<bar>q\<bar> \<le> 10 ^ 18"
    and n: "minor_units (tf_currency facts) = Inr n"
    and s: "\<And>ov. ti_override tax = Some ov \<Longrightarrow> \<exists>s. text_amount (ov_amount ov) s \<and> \<bar>s\<bar> \<le> 10 ^ 29"
  shows "\<exists>amounts. component_amounts (td_components d) amounts
    \<and> text_amount (td_total_tax d) (sum_list amounts) \<and> (\<forall>a \<in> set amounts. scaled n a)
    \<and> \<bar>sum_list amounts\<bar> \<le> 10 ^ 29 \<and> treatments_fit (tf_direction facts) (td_components d) \<and> td_facts d = facts"
proof -
  obtain base where base: "decide_tax D (ti_pack tax) facts = Inr base"
    and rest: "(case ti_rounding tax of
       Some rounding \<Rightarrow> apply_source_tax_rounding D base rounding
     | None \<Rightarrow> (case ti_override tax of
            None \<Rightarrow> Inr base
          | Some ov \<Rightarrow> override_decision D (ti_pack tax) facts base ov)) = Inr d"
    using d by (auto simp: decide_line_tax_def bindE_Inr_iff map_errorE_Inr_iff)
  obtain amounts where am: "component_amounts (td_components base) amounts" "td_facts base = facts"
      "text_amount (td_total_tax base) (sum_list amounts)" "\<bar>sum_list amounts\<bar> \<le> 10 ^ 20"
      "\<forall>a \<in> set amounts. scaled n a \<and> same_sign q a" "treatments_fit (tf_direction facts) (td_components base)"
    using base_amounts [OF base q n] by blast
  show ?thesis
  proof (cases "ti_rounding tax")
    case (Some rounding)
    then have r: "apply_source_tax_rounding D base rounding = Inr d" using rest by simp
    then have dir: "tf_direction facts = Purchase" "td_facts d = facts"
      using am(2) by (auto elim!: rounding_Inr)
    have "length (td_components base) \<le> 1000" using am(6) by (auto simp: treatments_fit_def)
    then obtain as' where as': "component_amounts (td_components d) as'"
      "text_amount (td_total_tax d) (sum_list as')" "\<forall>a \<in> set as'. scaled n a"
      "\<bar>sum_list as' - sum_list amounts\<bar> \<le> 1 / 10 ^ n" "treatments_fit Purchase (td_components d)"
      using rounding_reconciles [OF r am(1,3,5) _ _ am(4)] am(2,6) n dir(1) by auto
    have "\<bar>sum_list as'\<bar> \<le> 10 ^ 29"
      by (rule order_trans [OF within_one_unit [OF as'(4) am(4)]]) simp
    then show ?thesis using as' dir by auto
  next
    case None
    show ?thesis
    proof (cases "ti_override tax")
      case (Some ov)
      then have o: "override_decision D (ti_pack tax) facts base ov = Inr d" using rest None by simp
      obtain x where "text_amount (ov_amount ov) x" "\<bar>x\<bar> \<le> 10 ^ 29" using s [OF Some] by blast
      from override_reconciles [OF o n this] this(2) show ?thesis using o by (auto elim: override_Inr)
    next
      case None
      have "\<bar>sum_list amounts\<bar> \<le> 10 ^ 29" by (rule order_trans [OF am(4)]) simp
      then show ?thesis using rest \<open>ti_rounding tax = None\<close> None am by auto
    qed
  qed
qed

section \<open>The shape assertion\<close>

lemma check_tax_amount_ok:
  assumes "text_amount t a" "scaled n a" "minor_units c = Inr n" "negative \<longrightarrow> a \<le> 0" "\<not> negative \<longrightarrow> 0 \<le> a"
  shows "check_tax_amount D c negative t e = Inr ()"
proof -
  obtain d where d: "exact D (TextIn t) = Inr d" "dec_finite D d" "val d = a" using exact_text [OF assms(1)] .
  then show ?thesis
    using is_quantized_iff [OF d(1) assms(3)] assms(2,4,5)
    by (auto simp: check_tax_amount_def invalid_sign_def throw_if_def not_less simp del: exact.simps)
qed

lemma check_components_ok:
  assumes "component_amounts cs as" "\<forall>a \<in> set as. scaled n a \<and> (negative \<longrightarrow> a \<le> 0) \<and> (\<not> negative \<longrightarrow> 0 \<le> a)"
    and "minor_units cur = Inr n"
  shows "foldE (\<lambda>_ c. check_tax_amount D cur negative (tc_amount c) (InvalidComponentAmount (tc_key c))) () cs = Inr ()"
  using assms(1,2)
proof (induction cs arbitrary: as)
  case (Cons c cs)
  then obtain a bs where "as = a # bs" "text_amount (tc_amount c) a" "component_amounts cs bs"
    by (auto simp: component_amounts_Cons)
  then show ?case using Cons check_tax_amount_ok [OF _ _ assms(3)] by auto
qed simp

lemma treatments_allowed:
  "treatments_fit dir cs \<Longrightarrow> list_all (\<lambda>c. tc_treatment c \<in> set (allowed_treatments dir)) cs
     \<and> filter (\<lambda>c. tc_treatment c \<noteq> DisclosureOnly) cs = cs"
  by (auto simp: treatments_fit_def allowed_treatments_def list_all_iff split: if_splits intro!: filter_True)

lemma reconciled_passes_shape:
  assumes cs: "component_amounts (td_components d) as" "\<forall>a \<in> set as. scaled n a \<and> same_sign q a"
    and t: "text_amount (td_total_tax d) (sum_list as)" "\<bar>sum_list as\<bar> \<le> 10 ^ 20"
    and fit: "treatments_fit dir (td_components d)"
    and b: "text_amount basis q" and n: "minor_units c = Inr n"
  shows "assert_tax_decision_accounting_shape D d dir c basis = Inr ()"
proof -
  obtain bd where bd: "exact D (TextIn basis) = Inr bd" "dec_finite D bd" "val bd = q" using exact_text [OF b] .
  define negative where "negative = dec_is_neg D bd"
  have sign: "(negative \<longrightarrow> a \<le> 0) \<and> (\<not> negative \<longrightarrow> 0 \<le> a)" if "same_sign q a" for a
    using that neg_iff [OF bd(2)] bd(3) by (cases "q = 0") (auto simp: same_sign_def negative_def)
  have total: "same_sign q (sum_list as)" "scaled n (sum_list as)"
    using cs(2) by (auto intro: same_sign_sum_list scaled_sum_list)
  have one: "\<bar>a\<bar> \<le> 10 ^ 20" if "a \<in> set as" for a
    using same_sign_le_sum [of as q a] cs(2) that t(2) by fastforce
  have le: "n \<le> 9" "(10::rat) ^ 20 \<le> 10 ^ 29" using minor_units_le_3 [OF n] by simp_all
  have amounts: "list_all2 text_amount (map tc_amount (td_components d)) as"
    using cs(1) by (simp add: component_amounts_def list_all2_map1)
  have "ledger_amount a" if "a \<in> set as" for a
    using one [OF that] cs(2) that le scaled_le [OF _ le(1)] unfolding ledger_amount_def
    by (meson order_trans)
  moreover have "length as \<le> 10 ^ 12"
    using fit list_all2_lengthD [OF amounts] by (simp add: treatments_fit_def)
  ultimately obtain r where "sum_exact D (map TextIn (map tc_amount (td_components d))) = Inr r"
    "dec_finite D r" "val r = sum_list as"
    using sum_exact_texts [OF amounts] by blast
  then have r: "sum_exact D (map (\<lambda>c. TextIn (tc_amount c)) (td_components d)) = Inr r"
    "dec_finite D r" "val r = sum_list as" by (simp_all add: o_def)
  obtain td where td: "exact D (TextIn (td_total_tax d)) = Inr td" "dec_finite D td" "val td = sum_list as"
    using exact_text [OF t(1)] .
  show ?thesis
    using bd(1) check_tax_amount_ok [OF t(1) total(2) n] check_components_ok [OF cs(1) _ n] cs(2)
      sign sign [OF total(1)] r td treatments_allowed [OF fit]
    by (simp add: assert_tax_decision_accounting_shape_def Let_def throw_if_def flip: negative_def)
qed

end

section \<open>Properties\<close>

text \<open>
  C20. Every line tax reconciles.  However a line's tax is decided, by the pack, by
  rounding to the supplier's amount or by a controlled override, the component amounts
  are whole minor units that add up exactly to the total tax, the treatments fit the
  direction of the document, and the facts are the ones that were asked about.
\<close>

theorem line_tax_reconciles:
  assumes "decimal_lib D val rnd" and "decide_line_tax D tax facts = Inr d"
    and "text_amount (tf_basis facts) q" and "scaled 9 q" and "\<bar>q\<bar> \<le> 10 ^ 18"
    and "minor_units (tf_currency facts) = Inr n"
    and "\<forall>ov. ti_override tax = Some ov \<longrightarrow> (\<exists>s. text_amount (ov_amount ov) s \<and> \<bar>s\<bar> \<le> 10 ^ 29)"
  shows "\<exists>amounts. list_all2 (\<lambda>c a. text_amount (tc_amount c) a) (td_components d) amounts
    \<and> text_amount (td_total_tax d) (sum_list amounts) \<and> (\<forall>a \<in> set amounts. scaled n a)
    \<and> treatments_fit (tf_direction facts) (td_components d) \<and> td_facts d = facts"
  using decimal_lib.decide_line_tax_ok [OF assms(1-6)] assms(7)
  unfolding component_amounts_def by meson

text \<open>
  C21. Supplier rounding is tightly controlled.  When the tax of a line is rounded to
  the supplier's amount, the line is a purchase the pack taxed, the recorded tax is
  exactly that amount and differs from the pack's tax by at most one minor unit of the
  currency, and unless the rounding was reviewed the decision needs a manual review.
\<close>

theorem supplier_rounding_is_controlled:
  assumes "decimal_lib D val rnd" and "decide_tax D (ti_pack tax) facts = Inr base"
    and "ti_rounding tax = Some r" and "decide_line_tax D tax facts = Inr d"
    and "text_amount (tf_basis facts) q" and "scaled 9 q" and "\<bar>q\<bar> \<le> 10 ^ 18"
    and "minor_units (tf_currency facts) = Inr n" and "text_amount (sr_amount r) s"
  shows "tf_direction facts = Purchase \<and> td_status base = Applied \<and> text_amount (td_total_tax d) s
    \<and> (\<exists>t. text_amount (td_total_tax base) t \<and> \<bar>s - t\<bar> \<le> 1 / 10 ^ n)
    \<and> td_status d = (if sr_reviewed r then Applied else ManualReviewRequired)"
proof -
  have a: "apply_source_tax_rounding D base r = Inr d"
    using assms(2-4) by (auto simp: decide_line_tax_def)
  obtain amounts where am: "component_amounts (td_components base) amounts" "td_facts base = facts"
      "text_amount (td_total_tax base) (sum_list amounts)" "\<bar>sum_list amounts\<bar> \<le> 10 ^ 20"
      "\<forall>a \<in> set amounts. scaled n a \<and> same_sign q a" "treatments_fit (tf_direction facts) (td_components base)"
    using decimal_lib.base_amounts [OF assms(1,2,5,6,7,8)] by blast
  have dir: "tf_direction facts = Purchase" "td_status base = Applied"
    "td_status d = (if sr_reviewed r then Applied else ManualReviewRequired)"
    by (rule decimal_lib.rounding_Inr [OF assms(1) a]; use am(2) in simp)+
  have "length (td_components base) \<le> 1000" using am(6) by (auto simp: treatments_fit_def)
  then obtain as' sd where as': "text_amount (td_total_tax d) (sum_list as')"
    "\<bar>sum_list as' - sum_list amounts\<bar> \<le> 1 / 10 ^ n" "exact D (TextIn (sr_amount r)) = Inr sd" "val sd = sum_list as'"
    using decimal_lib.rounding_reconciles [OF assms(1) a am(1,3,5) _ _ am(4)] am(2,6) assms(8) dir(1) by auto
  have "s = sum_list as'"
    using decimal_lib.exact_text [OF assms(1,9)] as'(3,4) by (metis sum.inject(2))
  then show ?thesis using dir as'(1,2) am(3) by blast
qed

text \<open>
  C22. Pack decisions have the accounting shape.  A decision of a registered pack on a
  supported currency always passes the assertion the document model makes before it
  books a decision: no pack can block a document by an internal inconsistency.
\<close>

theorem pack_decisions_have_accounting_shape:
  assumes "decimal_lib D val rnd" and "decide_tax D key facts = Inr d"
    and "text_amount (tf_basis facts) q" and "scaled 9 q" and "\<bar>q\<bar> \<le> 10 ^ 18"
    and "minor_units (tf_currency facts) = Inr n" and "text_amount net q"
  shows "assert_tax_decision_accounting_shape D d (tf_direction facts) (tf_currency facts) net = Inr ()"
  using decimal_lib.base_amounts [OF assms(1-6)]
    decimal_lib.reconciled_passes_shape [OF assms(1) _ _ _ _ _ assms(7,6)] by blast

section \<open>An example\<close>

definition example_rounding :: source_tax_rounding where
  "example_rounding = \<lparr>sr_amount = ''13.06'', sr_reason = ''supplier rounds up'',
     sr_evidence = ''bill-7'', sr_reviewed = True\<rparr>"

definition example_tax_input :: tax_input where
  "example_tax_input = \<lparr>ti_pack = ''ca.on.hst'', ti_category = CatStandard, ti_country = ''CA'',
     ti_region = ''ON'', ti_city = None, ti_location = None, ti_registration = Some ''RT0001'',
     ti_evidence = None, ti_recoverable = Some ''33.3'', ti_rounding = Some example_rounding,
     ti_override = None\<rparr>"

definition example_rounded :: tax_decision where
  "example_rounded = (case decide_line_tax ref_api example_tax_input example_facts of
     Inr d \<Rightarrow> d | Inl _ \<Rightarrow> example_decision)"

lemma example_rounded_runs: "decide_line_tax ref_api example_tax_input example_facts = Inr example_rounded"
  by code_simp

lemma example_basis_small: "scaled 9 (10055 / 100)" "\<bar>10055 / 100 :: rat\<bar> \<le> 10 ^ 18"
  using example_basis(2) by (simp_all add: ledger_amount_def)

lemma example_currency: "minor_units (tf_currency example_facts) = Inr 2"
  by code_simp

theorem line_tax_reconciles_witness:
  "map tc_amount (td_components example_rounded) = [''4.35'', ''8.71''] \<and>
   (\<exists>amounts. list_all2 (\<lambda>c a. text_amount (tc_amount c) a) (td_components example_rounded) amounts
    \<and> text_amount (td_total_tax example_rounded) (sum_list amounts) \<and> (\<forall>a \<in> set amounts. scaled 2 a)
    \<and> treatments_fit (tf_direction example_facts) (td_components example_rounded)
    \<and> td_facts example_rounded = example_facts)"
proof
  show "map tc_amount (td_components example_rounded) = [''4.35'', ''8.71'']" by code_simp
qed (rule line_tax_reconciles [OF refdec.decimal_lib_axioms example_rounded_runs example_basis(1)
      example_basis_small example_currency], simp add: example_tax_input_def)

theorem supplier_rounding_is_controlled_witness:
  "tf_direction example_facts = Purchase \<and> td_status example_decision = Applied
    \<and> text_amount (td_total_tax example_rounded) (1306 / 100)
    \<and> (\<exists>t. text_amount (td_total_tax example_decision) t \<and> \<bar>1306 / 100 - t\<bar> \<le> 1 / 10 ^ 2)
    \<and> td_status example_rounded = (if sr_reviewed example_rounding then Applied else ManualReviewRequired)"
proof (rule supplier_rounding_is_controlled [OF refdec.decimal_lib_axioms _ _ example_rounded_runs
      example_basis(1) example_basis_small example_currency])
  show "decide_tax ref_api (ti_pack example_tax_input) example_facts = Inr example_decision"
    using example_decision_runs by (simp add: example_tax_input_def)
  show "ti_rounding example_tax_input = Some example_rounding" by (simp add: example_tax_input_def)
  show "text_amount (sr_amount example_rounding) (1306 / 100)" by code_simp
qed

theorem pack_decisions_have_accounting_shape_witness:
  "assert_tax_decision_accounting_shape ref_api example_decision (tf_direction example_facts)
     (tf_currency example_facts) ''100.550'' = Inr ()"
  by (rule pack_decisions_have_accounting_shape [OF refdec.decimal_lib_axioms example_decision_runs
        example_basis(1) example_basis_small example_currency]) code_simp

end
