(* ===== verification/FxProvenance.thy ===== *)
theory FxProvenance
  imports Money
begin

text \<open>
  The exchange rate of a subledger document and where it comes from: the schemas
  \<open>fxInputSchema\<close>, \<open>fxProvenanceSchema\<close> and \<open>fxSnapshotSchema\<close> of
  \<open>subledger/document-model.ts\<close> with their cross-field checks.  A snapshot here is
  the parsed object (field formats hold); a check is the list of the issues it adds,
  and a snapshot is accepted when it adds none.  \<open>Date.parse\<close> is the parameter
  \<open>time_of\<close>, in milliseconds.
\<close>

section \<open>Definitions\<close>

datatype fx_mode = FunctionalRate | OrganizationRate | ProviderRate | ExplicitRate

datatype fx_provider = BankOfCanada | EuropeanCentralBank | YahooFinance

datatype fx_calculation =
    DirectToCad | InverseFromCad | CrossViaCad | DirectFromEur | InverseToEur | CrossViaEur

datatype fx_formula =
    CadPerSource | OneOverCadPerTarget | CadPerSourceOverCadPerTarget
  | TargetPerEur | OneOverSourcePerEur | TargetPerEurOverSourcePerEur

datatype leg_convention = CadPerCurrencyUnit | CurrencyUnitsPerEur

record fx_leg =
  leg_currency :: string
  leg_rate :: string
  leg_convention :: leg_convention
  leg_observed_date :: string
  leg_series_key :: string

record fx_provenance =
  fp_mode :: fx_mode
  fp_as_of_date :: string
  fp_resolved_at :: string
  fp_policy_key :: string
  fp_policy_version :: int
  fp_organization_rate :: "string option"
  fp_rate_recorded_at :: "string option"
  fp_provider :: "fx_provider option"
  fp_symbol :: "string option"
  fp_source_currency :: "string option"
  fp_target_currency :: "string option"
  fp_observed_at :: "string option"
  fp_retrieved_at :: "string option"
  fp_response_sha :: "string option"
  fp_max_lookback :: "int option"
  fp_calculation :: "fx_calculation option"
  fp_formula :: "fx_formula option"
  fp_legs :: "fx_leg list option"

record fx_snapshot =
  fx_rate :: string
  fx_source :: string
  fx_effective_at :: string
  fx_prov :: "fx_provenance option"

datatype fx_issue =
    StoredEvidenceIncomplete
  | ProviderEvidenceIncomplete
  | CurrencyPairIncomplete
  | YahooInconsistent
  | BankOfCanadaInconsistent
  | EcbInconsistent
  | ProviderEvidenceNotAllowed
  | SourceAttributionMismatch
  | ProviderTimesMismatch
  | CalculatedRateMismatch

definition fx_issue_if :: "bool \<Rightarrow> fx_issue \<Rightarrow> fx_issue list" where
  "fx_issue_if b i = (if b then [i] else [])"

text \<open>\<open>/^[A-Z]{3}(?:[A-Z]{3})?=X$/\<close>\<close>

definition yahoo_symbol :: "string \<Rightarrow> bool" where
  "yahoo_symbol s \<longleftrightarrow> ends_with ''=X'' s \<and>
     (let p = take (length s - 2) s in upper_code 3 p \<or> upper_code 6 p)"

definition stored_issues :: "fx_provenance \<Rightarrow> fx_issue list" where
  "stored_issues v =
     (let stored = fp_mode v = OrganizationRate;
          evidence = truthy (fp_organization_rate v) \<and> truthy (fp_rate_recorded_at v)
      in fx_issue_if (stored \<noteq> evidence
           \<or> (\<not> stored \<and> (fp_organization_rate v \<noteq> None \<or> fp_rate_recorded_at v \<noteq> None)))
         StoredEvidenceIncomplete)"

definition provider_evidence :: "fx_provenance \<Rightarrow> bool" where
  "provider_evidence v \<longleftrightarrow>
     fp_provider v \<noteq> None \<and> fp_symbol v \<noteq> None \<and> fp_observed_at v \<noteq> None
     \<and> fp_retrieved_at v \<noteq> None \<and> fp_response_sha v \<noteq> None \<and> fp_max_lookback v \<noteq> None"

definition provider_issues :: "(string \<Rightarrow> int) \<Rightarrow> fx_provenance \<Rightarrow> fx_issue list" where
  "provider_issues time_of v =
     (let provider = fp_mode v = ProviderRate;
          late = provider \<and> (case fp_retrieved_at v of
                               None \<Rightarrow> False | Some t \<Rightarrow> time_of t > time_of (fp_resolved_at v))
      in fx_issue_if (provider \<noteq> provider_evidence v \<or> late) ProviderEvidenceIncomplete)"

definition pair_complete :: "fx_provenance \<Rightarrow> bool" where
  "pair_complete v \<longleftrightarrow> fp_source_currency v \<noteq> None \<and> fp_target_currency v \<noteq> None"

definition pair_issues :: "fx_provenance \<Rightarrow> fx_issue list" where
  "pair_issues v =
     fx_issue_if ((fp_source_currency v \<noteq> None \<or> fp_target_currency v \<noteq> None) \<and> \<not> pair_complete v)
       CurrencyPairIncomplete"

definition yahoo_issues :: "fx_provenance \<Rightarrow> fx_issue list" where
  "yahoo_issues v =
     (if fp_mode v = ProviderRate \<and> fp_provider v = Some YahooFinance then
        let central = fp_calculation v \<noteq> None \<or> fp_formula v \<noteq> None \<or> fp_legs v \<noteq> None;
            valid = (case fp_symbol v of None \<Rightarrow> False | Some s \<Rightarrow> yahoo_symbol s);
            source = or_else (fp_source_currency v) [];
            target = or_else (fp_target_currency v) [];
            expected = (if pair_complete v
                        then Some (if source = ''USD'' then target @ ''=X'' else source @ target @ ''=X'')
                        else fp_symbol v)
        in fx_issue_if (fp_policy_key v \<noteq> ''YAHOO_FINANCE_EXPERIMENTAL_DIRECT_DAILY_CLOSE''
             \<or> \<not> valid \<or> central
             \<or> (pair_complete v \<and> (source = target \<or> fp_symbol v \<noteq> expected))) YahooInconsistent
      else [])"

text \<open>What a central bank's pair must be computed as: the formula and the legs' currencies.\<close>

definition boc_expected :: "string option \<Rightarrow> string option \<Rightarrow> (fx_calculation \<times> fx_formula \<times> string list) option" where
  "boc_expected source target =
     (if \<not> truthy source \<or> \<not> truthy target \<or> source = target then None
      else let s = or_else source []; t = or_else target [] in
        if t = ''CAD'' then Some (DirectToCad, CadPerSource, [s])
        else if s = ''CAD'' then Some (InverseFromCad, OneOverCadPerTarget, [t])
        else Some (CrossViaCad, CadPerSourceOverCadPerTarget, [s, t]))"

definition ecb_expected :: "string option \<Rightarrow> string option \<Rightarrow> (fx_calculation \<times> fx_formula \<times> string list) option" where
  "ecb_expected source target =
     (if \<not> truthy source \<or> \<not> truthy target \<or> source = target then None
      else let s = or_else source []; t = or_else target [] in
        if s = ''EUR'' then Some (DirectFromEur, TargetPerEur, [t])
        else if t = ''EUR'' then Some (InverseToEur, OneOverSourcePerEur, [s])
        else Some (CrossViaEur, TargetPerEurOverSourcePerEur, [s, t]))"

definition boc_series :: "string \<Rightarrow> string" where
  "boc_series currency = ''FX'' @ currency @ ''CAD''"

definition ecb_series :: "string \<Rightarrow> string" where
  "ecb_series currency = ''EXR.D.'' @ currency @ ''.EUR.SP00.A''"

text \<open>\<open>consistent\<close> of the two central-bank blocks, which differ in their constants.\<close>

definition central_consistent ::
  "fx_provenance \<Rightarrow> (fx_calculation \<times> fx_formula \<times> string list) option \<Rightarrow> string \<Rightarrow> leg_convention
     \<Rightarrow> (string \<Rightarrow> string) \<Rightarrow> bool" where
  "central_consistent v expected policy convention series =
     (case (expected, fp_legs v) of
        (Some (calculation, formula, currencies), Some legs) \<Rightarrow>
          fp_policy_key v = policy \<and> fp_calculation v = Some calculation \<and> fp_formula v = Some formula
          \<and> length legs = length currencies
          \<and> list_all2 (\<lambda>leg currency. leg_currency leg = currency \<and> leg_convention leg = convention
                \<and> leg_series_key leg = series (leg_currency leg)
                \<and> Some (leg_observed_date leg) = map_option (take 10) (fp_observed_at v)) legs currencies
          \<and> fp_symbol v = Some (join ''+'' (map leg_series_key legs))
      | _ \<Rightarrow> False)"

definition central_issues :: "fx_provenance \<Rightarrow> fx_issue list" where
  "central_issues v =
     (if fp_mode v = ProviderRate \<and> fp_provider v = Some BankOfCanada then
        fx_issue_if (\<not> central_consistent v (boc_expected (fp_source_currency v) (fp_target_currency v))
            ''BANK_OF_CANADA_DAILY_REFERENCE_RATE'' CadPerCurrencyUnit boc_series)
          BankOfCanadaInconsistent
      else [])
     @ (if fp_mode v = ProviderRate \<and> fp_provider v = Some EuropeanCentralBank then
          fx_issue_if (\<not> central_consistent v (ecb_expected (fp_source_currency v) (fp_target_currency v))
              ''EUROPEAN_CENTRAL_BANK_REFERENCE_RATE'' CurrencyUnitsPerEur ecb_series)
            EcbInconsistent
        else [])"

definition foreign_evidence_issues :: "fx_provenance \<Rightarrow> fx_issue list" where
  "foreign_evidence_issues v =
     fx_issue_if (fp_mode v \<noteq> ProviderRate \<and>
       (fp_provider v \<noteq> None \<or> fp_symbol v \<noteq> None \<or> fp_source_currency v \<noteq> None
        \<or> fp_target_currency v \<noteq> None \<or> fp_observed_at v \<noteq> None \<or> fp_retrieved_at v \<noteq> None
        \<or> fp_response_sha v \<noteq> None \<or> fp_max_lookback v \<noteq> None \<or> fp_calculation v \<noteq> None
        \<or> fp_formula v \<noteq> None \<or> fp_legs v \<noteq> None)) ProviderEvidenceNotAllowed"

definition provenance_schema_issues :: "(string \<Rightarrow> int) \<Rightarrow> fx_provenance \<Rightarrow> fx_issue list" where
  "provenance_schema_issues time_of v =
     stored_issues v @ provider_issues time_of v @ pair_issues v @ yahoo_issues v
     @ central_issues v @ foreign_evidence_issues v"

fun provider_attribution :: "fx_provider \<Rightarrow> string" where
  "provider_attribution BankOfCanada = ''Bank of Canada Valet API daily exchange rates''"
| "provider_attribution EuropeanCentralBank = ''Source: ECB statistics. Euro foreign exchange reference rates''"
| "provider_attribution YahooFinance = ''Yahoo Finance / ICE Data Services''"

definition day_ms :: int where
  "day_ms = 86400000"

definition provider_time_issues :: "(string \<Rightarrow> int) \<Rightarrow> fx_snapshot \<Rightarrow> fx_provenance \<Rightarrow> fx_issue list" where
  "provider_time_issues time_of x p =
     (case (fp_observed_at p, fp_retrieved_at p, fp_max_lookback p) of
        (Some observed, Some retrieved, Some lookback) \<Rightarrow>
          if fp_mode p = ProviderRate \<and> observed \<noteq> [] \<and> retrieved \<noteq> [] \<and> lookback \<noteq> 0 then
            let start = time_of (fp_as_of_date p @ ''T00:00:00.000Z'');
                obs = time_of observed; ret = time_of retrieved; eff = time_of (fx_effective_at x);
                earliest = start - lookback * day_ms
            in fx_issue_if (eff \<noteq> obs \<or> obs < earliest \<or> obs \<ge> start + day_ms \<or> ret < obs)
                 ProviderTimesMismatch
          else []
      | _ \<Rightarrow> [])"

text \<open>The rate the legs of a calculation give; \<open>Inr None\<close> is the early return of the check.\<close>

definition calculated_rate :: "'d decimal_api \<Rightarrow> fx_calculation \<Rightarrow> fx_leg list \<Rightarrow> money_error + 'd option" where
  "calculated_rate D calculation legs =
     (if calculation \<in> {DirectToCad, DirectFromEur} then
        (case legs of [a] \<Rightarrow> bindE (exact D (TextIn (leg_rate a))) (\<lambda>r. Inr (Some r)) | _ \<Rightarrow> Inr None)
      else if calculation \<in> {InverseFromCad, InverseToEur} then
        (case legs of
           [a] \<Rightarrow> bindE (option_to_result InvalidDecimal (dec_new D (leg_rate a))) (\<lambda>r.
                  Inr (Some (dec_div D (dec_int D 1) r)))
         | _ \<Rightarrow> Inr None)
      else
        (case legs of
           [a, b] \<Rightarrow>
             let (top, bottom) = (if calculation = CrossViaCad then (a, b) else (b, a)) in
             bindE (exact D (TextIn (leg_rate top))) (\<lambda>t.
             bindE (option_to_result InvalidDecimal (dec_new D (leg_rate bottom))) (\<lambda>u.
             Inr (Some (dec_div D t u))))
         | _ \<Rightarrow> Inr None))"

definition snapshot_rate_issues ::
  "'d decimal_api \<Rightarrow> fx_snapshot \<Rightarrow> fx_provenance \<Rightarrow> money_error + fx_issue list" where
  "snapshot_rate_issues D x p =
     (case (fp_legs p, fp_calculation p) of
        (Some legs, Some calculation) \<Rightarrow>
          bindE (calculated_rate D calculation legs) (\<lambda>m.
          case m of
            None \<Rightarrow> Inr []
          | Some calculated \<Rightarrow>
              bindE (exact D (TextIn (fx_rate x))) (\<lambda>rate.
              Inr (fx_issue_if (\<not> dec_eq D (dec_places D 18 rate) (dec_places D 18 calculated))
                CalculatedRateMismatch)))
      | _ \<Rightarrow> Inr [])"

definition fx_snapshot_issues ::
  "'d decimal_api \<Rightarrow> (string \<Rightarrow> int) \<Rightarrow> fx_snapshot \<Rightarrow> money_error + fx_issue list" where
  "fx_snapshot_issues D time_of x =
     (case fx_prov x of
        None \<Rightarrow> Inr []
      | Some p \<Rightarrow>
          bindE (snapshot_rate_issues D x p) (\<lambda>rate_issues.
          Inr (provenance_schema_issues time_of p
            @ (case fp_provider p of
                 None \<Rightarrow> []
               | Some provider \<Rightarrow>
                   fx_issue_if (fp_mode p = ProviderRate \<and> fx_source x \<noteq> provider_attribution provider)
                     SourceAttributionMismatch)
            @ provider_time_issues time_of x p @ rate_issues)))"

section \<open>Lemmas\<close>

lemma fx_issue_if_Nil [simp]: "fx_issue_if b i = [] \<longleftrightarrow> \<not> b"
  by (simp add: fx_issue_if_def)

lemma snapshot_ok:
  assumes "fx_snapshot_issues D time_of x = Inr []" "fx_prov x = Some p"
  shows "provenance_schema_issues time_of p = []" "provider_time_issues time_of x p = []"
    "snapshot_rate_issues D x p = Inr []"
    "fp_mode p = ProviderRate \<Longrightarrow> \<exists>provider. fp_provider p = Some provider \<and> fx_source x = provider_attribution provider"
proof -
  show base: "provenance_schema_issues time_of p = []" "provider_time_issues time_of x p = []"
    "snapshot_rate_issues D x p = Inr []"
    using assms by (auto simp: fx_snapshot_issues_def bindE_Inr_iff)
  assume m: "fp_mode p = ProviderRate"
  then have "fp_provider p \<noteq> None"
    using base(1) by (auto simp: provenance_schema_issues_def provider_issues_def provider_evidence_def Let_def)
  then show "\<exists>provider. fp_provider p = Some provider \<and> fx_source x = provider_attribution provider"
    using assms m by (auto simp: fx_snapshot_issues_def bindE_Inr_iff)
qed

text \<open>The text a pivot currency's quotes give for one unit of a currency: the pivot itself is \<open>1\<close>.\<close>

definition quoted :: "string \<Rightarrow> fx_leg list \<Rightarrow> string \<Rightarrow> string option" where
  "quoted pivot legs c =
     (if c = pivot then Some ''1'' else map_option leg_rate (find (\<lambda>l. leg_currency l = c) legs))"

lemma consistent_legs:
  assumes "central_consistent p expected policy convention series"
  obtains calculation formula currencies legs where
    "expected = Some (calculation, formula, currencies)" "fp_legs p = Some legs"
    "fp_calculation p = Some calculation" "map leg_currency legs = currencies"
proof -
  obtain calculation formula currencies legs where
    e: "expected = Some (calculation, formula, currencies)" "fp_legs p = Some legs"
       "fp_calculation p = Some calculation"
    and l: "list_all2 (\<lambda>leg currency. leg_currency leg = currency \<and> leg_convention leg = convention
                \<and> leg_series_key leg = series (leg_currency leg)
                \<and> Some (leg_observed_date leg) = map_option (take 10) (fp_observed_at p)) legs currencies"
    using assms unfolding central_consistent_def by (auto split: option.splits)
  have "map leg_currency legs = currencies"
    using l by (induction legs currencies rule: list_all2_induct) auto
  with e that show ?thesis by blast
qed

text \<open>An accepted central-bank provenance quotes both currencies of its pair, on the legs its
  calculation divides.\<close>

lemma boc_quotes:
  assumes "central_issues p = []" "fp_mode p = ProviderRate" "fp_provider p = Some BankOfCanada"
  obtains s t legs calculation where
    "fp_source_currency p = Some s" "fp_target_currency p = Some t" "s \<noteq> t" "fp_legs p = Some legs"
    "fp_calculation p = Some calculation"
    "(calculation = DirectToCad \<and> t = ''CAD'' \<and> map leg_currency legs = [s])
     \<or> (calculation = InverseFromCad \<and> s = ''CAD'' \<and> map leg_currency legs = [t])
     \<or> (calculation = CrossViaCad \<and> s \<noteq> ''CAD'' \<and> t \<noteq> ''CAD'' \<and> map leg_currency legs = [s, t])"
proof -
  have c: "central_consistent p (boc_expected (fp_source_currency p) (fp_target_currency p))
            ''BANK_OF_CANADA_DAILY_REFERENCE_RATE'' CadPerCurrencyUnit boc_series"
    using assms by (simp add: central_issues_def)
  obtain calculation formula currencies legs where
    "boc_expected (fp_source_currency p) (fp_target_currency p) = Some (calculation, formula, currencies)"
    "fp_legs p = Some legs" "fp_calculation p = Some calculation" "map leg_currency legs = currencies"
    using consistent_legs [OF c] .
  then show ?thesis
    using that by (auto simp: boc_expected_def Let_def text_simps split: if_splits)
qed

lemma ecb_quotes:
  assumes "central_issues p = []" "fp_mode p = ProviderRate" "fp_provider p = Some EuropeanCentralBank"
  obtains s t legs calculation where
    "fp_source_currency p = Some s" "fp_target_currency p = Some t" "s \<noteq> t" "fp_legs p = Some legs"
    "fp_calculation p = Some calculation"
    "(calculation = DirectFromEur \<and> s = ''EUR'' \<and> map leg_currency legs = [t])
     \<or> (calculation = InverseToEur \<and> t = ''EUR'' \<and> map leg_currency legs = [s])
     \<or> (calculation = CrossViaEur \<and> s \<noteq> ''EUR'' \<and> t \<noteq> ''EUR'' \<and> map leg_currency legs = [s, t])"
proof -
  have c: "central_consistent p (ecb_expected (fp_source_currency p) (fp_target_currency p))
            ''EUROPEAN_CENTRAL_BANK_REFERENCE_RATE'' CurrencyUnitsPerEur ecb_series"
    using assms by (simp add: central_issues_def)
  obtain calculation formula currencies legs where
    "ecb_expected (fp_source_currency p) (fp_target_currency p) = Some (calculation, formula, currencies)"
    "fp_legs p = Some legs" "fp_calculation p = Some calculation" "map leg_currency legs = currencies"
    using consistent_legs [OF c] .
  then show ?thesis
    using that by (auto simp: ecb_expected_def Let_def text_simps split: if_splits)
qed

text \<open>A rate the schema accepts: a positive decimal with at most 18 places.\<close>

definition rate_text :: "string \<Rightarrow> bool" where
  "rate_text s \<longleftrightarrow> (\<exists>r. plain_value s = Some r \<and> 0 < r \<and> scaled 18 r \<and> r \<le> 10 ^ 30)"

context decimal_lib
begin

lemma rate_text_exact:
  assumes "rate_text s"
  obtains r d where "text_amount s r" "0 < r" "rnd r = r" "dec_new D s = Some d"
    "exact D (TextIn s) = Inr d" "dec_finite D d" "val d = r"
proof -
  obtain r where r: "text_amount s r" "0 < r" "scaled 18 r" "r \<le> 10 ^ 30"
    using assms by (auto simp: rate_text_def)
  have "fits r" by (rule fits_scaled [of 18 _ 30]) (use r in auto)
  moreover obtain d where "dec_new D s = Some d" "dec_finite D d" "val d = r"
    using new_plain [OF r(1)] by blast
  ultimately show ?thesis using r that [of r d] rnd_fits by (simp add: check_finite_def)
qed

lemma rate_matches:
  assumes "snapshot_rate_issues D x p = Inr []" "fp_legs p = Some legs" "fp_calculation p = Some c"
    and "calculated_rate D c legs = Inr (Some d)" "dec_finite D d" "text_amount (fx_rate x) q"
  shows "half_up 18 q = half_up 18 (val d)"
proof -
  obtain e where "exact D (TextIn (fx_rate x)) = Inr e" "dec_finite D e" "val e = q"
    using exact_text [OF assms(6)] .
  then show ?thesis using assms(1-5) by (simp add: snapshot_rate_issues_def del: exact.simps)
qed

text \<open>The three formulas over legs whose rates are quoted.\<close>

lemma direct_rate:
  assumes "c = DirectToCad \<or> c = DirectFromEur" "rate_text (leg_rate l)"
  obtains d r where "calculated_rate D c [l] = Inr (Some d)" "dec_finite D d"
    "text_amount (leg_rate l) r" "val d = rnd (r / 1)" "0 < r"
proof -
  obtain r d where "text_amount (leg_rate l) r" "0 < r" "rnd r = r"
    "exact D (TextIn (leg_rate l)) = Inr d" "dec_finite D d" "val d = r"
    using rate_text_exact [OF assms(2)] by blast
  then show ?thesis
    using assms(1) that [of d r] by (auto simp: calculated_rate_def simp del: exact.simps)
qed

lemma inverse_rate:
  assumes "c = InverseFromCad \<or> c = InverseToEur" "rate_text (leg_rate l)"
  obtains d r where "calculated_rate D c [l] = Inr (Some d)" "dec_finite D d"
    "text_amount (leg_rate l) r" "val d = rnd (1 / r)" "0 < r"
proof -
  obtain r d where "text_amount (leg_rate l) r" "0 < r" "dec_new D (leg_rate l) = Some d"
    "dec_finite D d" "val d = r"
    using rate_text_exact [OF assms(2)] by blast
  then show ?thesis
    using assms(1) that [of "dec_div D (dec_int D 1) d" r]
    by (auto simp: calculated_rate_def div_val)
qed

lemma cross_rate:
  assumes "rate_text (leg_rate a)" "rate_text (leg_rate b)"
  obtains d e r s where "calculated_rate D CrossViaCad [a, b] = Inr (Some d)" "dec_finite D d"
    "calculated_rate D CrossViaEur [a, b] = Inr (Some e)" "dec_finite D e"
    "text_amount (leg_rate a) r" "text_amount (leg_rate b) s" "val d = rnd (r / s)" "val e = rnd (s / r)"
    "0 < r" "0 < s"
proof -
  obtain r x where x: "text_amount (leg_rate a) r" "0 < r" "dec_new D (leg_rate a) = Some x"
    "exact D (TextIn (leg_rate a)) = Inr x" "dec_finite D x" "val x = r"
    using rate_text_exact [OF assms(1)] by blast
  obtain s y where y: "text_amount (leg_rate b) s" "0 < s" "dec_new D (leg_rate b) = Some y"
    "exact D (TextIn (leg_rate b)) = Inr y" "dec_finite D y" "val y = s"
    using rate_text_exact [OF assms(2)] by blast
  have "calculated_rate D CrossViaCad [a, b] = Inr (Some (dec_div D x y))"
    "calculated_rate D CrossViaEur [a, b] = Inr (Some (dec_div D y x))"
    using x y by (simp_all add: calculated_rate_def del: exact.simps)
  then show ?thesis
    using that [of "dec_div D x y" "dec_div D y x" r s] x y by (simp add: div_val)
qed

end

text \<open>What the property below says of a pair, its pivot and the side that is divided by.\<close>

definition disclosed_rate ::
  "(rat \<Rightarrow> rat) \<Rightarrow> string \<Rightarrow> fx_leg list \<Rightarrow> string \<Rightarrow> string \<Rightarrow> rat \<Rightarrow> bool" where
  "disclosed_rate rnd pivot legs over below q \<longleftrightarrow>
     (\<exists>a b u v. quoted pivot legs over = Some a \<and> quoted pivot legs below = Some b
        \<and> plain_value a = Some u \<and> plain_value b = Some v \<and> 0 < u \<and> 0 < v
        \<and> half_up 18 q = half_up 18 (rnd (u / v)))"

lemma disclosed_rateI:
  assumes "quoted pivot legs over = Some a" "quoted pivot legs below = Some b"
    and "plain_value a = Some u" "plain_value b = Some v" "0 < u" "0 < v"
    and "half_up 18 q = half_up 18 (rnd (u / v))"
  shows "disclosed_rate rnd pivot legs over below q"
  using assms unfolding disclosed_rate_def by blast

lemma one_text: "plain_value ''1'' = Some 1"
  by code_simp

lemma quoted_simps [simp]:
  "quoted pivot legs pivot = Some ''1''"
  "c \<noteq> pivot \<Longrightarrow> leg_currency l = c \<Longrightarrow> quoted pivot (l # ls) c = Some (leg_rate l)"
  "c \<noteq> pivot \<Longrightarrow> leg_currency l \<noteq> c \<Longrightarrow> quoted pivot (l # ls) c = quoted pivot ls c"
  by (simp_all add: quoted_def)

context decimal_lib
begin

text \<open>The three ways a pair is computed, with the pivot on the side it belongs to.\<close>

lemma pair_rate:
  assumes i: "snapshot_rate_issues D x p = Inr []" and q: "text_amount (fx_rate x) q"
    and legs: "fp_legs p = Some legs" and calc: "fp_calculation p = Some c"
    and l: "\<forall>l \<in> set legs. rate_text (leg_rate l)" and ne: "over \<noteq> below"
    and cases: "((c = DirectToCad \<or> c = DirectFromEur) \<and> below = pivot \<and> map leg_currency legs = [over])
      \<or> ((c = InverseFromCad \<or> c = InverseToEur) \<and> over = pivot \<and> map leg_currency legs = [below])
      \<or> (c = CrossViaCad \<and> over \<noteq> pivot \<and> below \<noteq> pivot \<and> map leg_currency legs = [over, below])
      \<or> (c = CrossViaEur \<and> over \<noteq> pivot \<and> below \<noteq> pivot \<and> map leg_currency legs = [below, over])"
  shows "disclosed_rate rnd pivot legs over below q"
  using cases
proof (elim disjE [where P = "_ \<and> below = pivot \<and> _"] disjE [where P = "_ \<and> over = pivot \<and> _"]
    disjE [where P = "c = CrossViaCad \<and> _"] conjE)
  assume k: "c = DirectToCad \<or> c = DirectFromEur" "below = pivot" "map leg_currency legs = [over]"
  then obtain l1 where l1: "legs = [l1]" "leg_currency l1 = over" by auto
  obtain d r where d: "calculated_rate D c [l1] = Inr (Some d)" "dec_finite D d"
    "text_amount (leg_rate l1) r" "val d = rnd (r / 1)" "0 < r"
    using direct_rate [of c l1] l k(1) l1(1) by auto
  show ?thesis
    using rate_matches [OF i legs calc _ _ q] d k(2) l1 ne one_text
    by (intro disclosed_rateI [of _ _ _ _ _ _ r 1]) simp_all
next
  assume k: "c = InverseFromCad \<or> c = InverseToEur" "over = pivot" "map leg_currency legs = [below]"
  then obtain l1 where l1: "legs = [l1]" "leg_currency l1 = below" by auto
  obtain d r where d: "calculated_rate D c [l1] = Inr (Some d)" "dec_finite D d"
    "text_amount (leg_rate l1) r" "val d = rnd (1 / r)" "0 < r"
    using inverse_rate [of c l1] l k(1) l1(1) by auto
  show ?thesis
    using rate_matches [OF i legs calc _ _ q] d k(2) l1 ne one_text
    by (intro disclosed_rateI [of _ _ _ _ _ _ 1 r]) simp_all
next
  assume k: "c = CrossViaCad" "over \<noteq> pivot" "below \<noteq> pivot" "map leg_currency legs = [over, below]"
  then obtain l1 l2 where l12: "legs = [l1, l2]" "leg_currency l1 = over" "leg_currency l2 = below" by auto
  have "rate_text (leg_rate l1)" "rate_text (leg_rate l2)" using l l12(1) by auto
  from cross_rate [OF this] obtain d r s where d: "calculated_rate D c [l1, l2] = Inr (Some d)"
    "dec_finite D d" "text_amount (leg_rate l1) r" "text_amount (leg_rate l2) s" "val d = rnd (r / s)"
    "0 < r" "0 < s"
    unfolding k(1) by metis
  show ?thesis
    using rate_matches [OF i legs calc _ _ q] d k(2,3) l12 ne
    by (intro disclosed_rateI [of _ _ _ _ _ _ r s]) simp_all
next
  assume k: "c = CrossViaEur" "over \<noteq> pivot" "below \<noteq> pivot" "map leg_currency legs = [below, over]"
  then obtain l1 l2 where l12: "legs = [l1, l2]" "leg_currency l1 = below" "leg_currency l2 = over" by auto
  have "rate_text (leg_rate l1)" "rate_text (leg_rate l2)" using l l12(1) by auto
  from cross_rate [OF this] obtain d r s where d: "calculated_rate D c [l1, l2] = Inr (Some d)"
    "dec_finite D d" "text_amount (leg_rate l1) r" "text_amount (leg_rate l2) s" "val d = rnd (s / r)"
    "0 < r" "0 < s"
    unfolding k(1) by metis
  show ?thesis
    using rate_matches [OF i legs calc _ _ q] d k(2,3) l12 ne
    by (intro disclosed_rateI [of _ _ _ _ _ _ s r]) simp_all
qed

lemma central_rate:
  assumes ok: "fx_snapshot_issues D time_of x = Inr []" and p: "fx_prov x = Some p"
    and m: "fp_mode p = ProviderRate" and pr: "fp_provider p = Some provider" "provider \<noteq> YahooFinance"
    and legs: "fp_legs p = Some legs" and l: "\<forall>l \<in> set legs. rate_text (leg_rate l)"
    and q: "text_amount (fx_rate x) q"
  shows "\<exists>s t. fp_source_currency p = Some s \<and> fp_target_currency p = Some t \<and> s \<noteq> t
    \<and> fx_source x = provider_attribution provider
    \<and> (if provider = BankOfCanada then disclosed_rate rnd ''CAD'' legs s t q
       else disclosed_rate rnd ''EUR'' legs t s q)"
proof -
  have c: "central_issues p = []" and i: "snapshot_rate_issues D x p = Inr []"
    and a: "fx_source x = provider_attribution provider"
    using snapshot_ok [OF ok p] m pr(1) by (auto simp: provenance_schema_issues_def)
  show ?thesis
  proof (cases provider)
    case BankOfCanada
    have b: "fp_provider p = Some BankOfCanada" using pr(1) BankOfCanada by simp
    obtain s t legs' calc where
      k: "fp_source_currency p = Some s" "fp_target_currency p = Some t" "s \<noteq> t" "fp_legs p = Some legs'"
      "fp_calculation p = Some calc"
      "(calc = DirectToCad \<and> t = ''CAD'' \<and> map leg_currency legs' = [s])
       \<or> (calc = InverseFromCad \<and> s = ''CAD'' \<and> map leg_currency legs' = [t])
       \<or> (calc = CrossViaCad \<and> s \<noteq> ''CAD'' \<and> t \<noteq> ''CAD'' \<and> map leg_currency legs' = [s, t])"
      using boc_quotes [OF c m b] .
    have "disclosed_rate rnd ''CAD'' legs s t q"
      by (rule pair_rate [OF i q legs k(5) l k(3)]) (use k(4,6) legs in auto)
    then show ?thesis using k(1-3) a BankOfCanada by auto
  next
    case EuropeanCentralBank
    have b: "fp_provider p = Some EuropeanCentralBank" using pr(1) EuropeanCentralBank by simp
    obtain s t legs' calc where
      k: "fp_source_currency p = Some s" "fp_target_currency p = Some t" "s \<noteq> t" "fp_legs p = Some legs'"
      "fp_calculation p = Some calc"
      "(calc = DirectFromEur \<and> s = ''EUR'' \<and> map leg_currency legs' = [t])
       \<or> (calc = InverseToEur \<and> t = ''EUR'' \<and> map leg_currency legs' = [s])
       \<or> (calc = CrossViaEur \<and> s \<noteq> ''EUR'' \<and> t \<noteq> ''EUR'' \<and> map leg_currency legs' = [s, t])"
      using ecb_quotes [OF c m b] .
    have "disclosed_rate rnd ''EUR'' legs t s q"
      by (rule pair_rate [OF i q legs k(5) l k(3) [symmetric]]) (use k(4,6) legs in auto)
    then show ?thesis using k(1-3) a EuropeanCentralBank by auto
  qed (use pr(2) in simp)
qed

end

section \<open>Properties\<close>

text \<open>
  C23. A central-bank rate is the one its sources give.  When a snapshot resolved from
  the Bank of Canada or the European Central Bank is accepted, it names two different
  currencies, credits that bank, and its rate agrees to 18 decimal places with the
  quotient of the bank's own quotes of the two currencies (Canadian dollars per unit of
  source over target, or target over source units per euro), where the bank's own
  currency is quoted as one.
\<close>

theorem central_rate_is_disclosed:
  assumes "decimal_lib D val rnd" and "fx_snapshot_issues D time_of x = Inr []" and "fx_prov x = Some p"
    and "fp_mode p = ProviderRate" and "fp_provider p = Some provider" and "provider \<noteq> YahooFinance"
    and "fp_legs p = Some legs" and "\<forall>l \<in> set legs. rate_text (leg_rate l)"
    and "plain_value (fx_rate x) = Some q"
  shows "\<exists>s t. fp_source_currency p = Some s \<and> fp_target_currency p = Some t \<and> s \<noteq> t
    \<and> fx_source x = provider_attribution provider
    \<and> (if provider = BankOfCanada then disclosed_rate rnd ''CAD'' legs s t q
       else disclosed_rate rnd ''EUR'' legs t s q)"
  by (rule decimal_lib.central_rate [OF assms])

text \<open>
  C24. Provider observations are timely.  In an accepted provider-rate snapshot the rate
  takes effect when it was observed, no later than the end of the as-of day and no more
  than the disclosed look-back (a week at most) before it, and it was observed, then
  retrieved, then resolved.
\<close>

theorem provider_times_are_ordered:
  assumes "fx_snapshot_issues D time_of x = Inr []" and "fx_prov x = Some p" and "fp_mode p = ProviderRate"
    and "\<forall>t. fp_observed_at p = Some t \<longrightarrow> t \<noteq> []" and "\<forall>t. fp_retrieved_at p = Some t \<longrightarrow> t \<noteq> []"
    and "\<forall>n. fp_max_lookback p = Some n \<longrightarrow> 1 \<le> n \<and> n \<le> 7"
  shows "\<exists>observed retrieved n. fp_observed_at p = Some observed \<and> fp_retrieved_at p = Some retrieved
    \<and> fp_max_lookback p = Some n \<and> n \<le> 7
    \<and> time_of (fx_effective_at x) = time_of observed
    \<and> time_of (fp_as_of_date p @ ''T00:00:00.000Z'') - n * day_ms \<le> time_of observed
    \<and> time_of observed < time_of (fp_as_of_date p @ ''T00:00:00.000Z'') + day_ms
    \<and> time_of observed \<le> time_of retrieved \<and> time_of retrieved \<le> time_of (fp_resolved_at p)"
proof -
  have i: "provider_issues time_of p = []" "provider_time_issues time_of x p = []"
    using snapshot_ok [OF assms(1,2)] by (auto simp: provenance_schema_issues_def)
  obtain observed retrieved n where e: "fp_observed_at p = Some observed" "fp_retrieved_at p = Some retrieved"
    "fp_max_lookback p = Some n" "time_of retrieved \<le> time_of (fp_resolved_at p)"
    using i(1) assms(3) by (auto simp: provider_issues_def provider_evidence_def Let_def)
  then show ?thesis
    using i(2) assms(3-6) by (auto simp: provider_time_issues_def Let_def)
qed

section \<open>An example\<close>

definition example_provenance :: fx_provenance where
  "example_provenance = \<lparr>fp_mode = ProviderRate, fp_as_of_date = ''2026-03-02'',
     fp_resolved_at = ''2026-03-02T15:00:00Z'', fp_policy_key = ''BANK_OF_CANADA_DAILY_REFERENCE_RATE'',
     fp_policy_version = 1, fp_organization_rate = None, fp_rate_recorded_at = None,
     fp_provider = Some BankOfCanada, fp_symbol = Some ''FXUSDCAD+FXEURCAD'',
     fp_source_currency = Some ''USD'', fp_target_currency = Some ''EUR'',
     fp_observed_at = Some ''2026-02-27T00:00:00Z'', fp_retrieved_at = Some ''2026-03-02T14:59:00Z'',
     fp_response_sha = Some ''ab'', fp_max_lookback = Some 7, fp_calculation = Some CrossViaCad,
     fp_formula = Some CadPerSourceOverCadPerTarget,
     fp_legs = Some [
       \<lparr>leg_currency = ''USD'', leg_rate = ''1.3712'', leg_convention = CadPerCurrencyUnit,
        leg_observed_date = ''2026-02-27'', leg_series_key = ''FXUSDCAD''\<rparr>,
       \<lparr>leg_currency = ''EUR'', leg_rate = ''1.4823'', leg_convention = CadPerCurrencyUnit,
        leg_observed_date = ''2026-02-27'', leg_series_key = ''FXEURCAD''\<rparr>]\<rparr>"

definition example_fx :: fx_snapshot where
  "example_fx = \<lparr>fx_rate = ''0.925048910476961479'',
     fx_source = ''Bank of Canada Valet API daily exchange rates'',
     fx_effective_at = ''2026-02-27T00:00:00Z'', fx_prov = Some example_provenance\<rparr>"

text \<open>\<open>Date.parse\<close> on the texts of the example.\<close>

definition example_time :: "string \<Rightarrow> int" where
  "example_time s =
     (if s = ''2026-02-27T00:00:00Z'' then 1772150400000
      else if s = ''2026-03-02T00:00:00.000Z'' then 1772409600000
      else if s = ''2026-03-02T14:59:00Z'' then 1772463540000
      else 1772463600000)"

definition example_legs :: "fx_leg list" where
  "example_legs = or_else (fp_legs example_provenance) []"

lemma example_fx_accepted: "fx_snapshot_issues ref_api example_time example_fx = Inr []"
  by code_simp

lemma example_rates: "\<forall>l \<in> set example_legs. rate_text (leg_rate l)"
proof -
  have "plain_value ''1.3712'' = Some (13712 / 10000)" "plain_value ''1.4823'' = Some (14823 / 10000)"
    by code_simp+
  moreover have "scaled 18 (13712 / 10000)" "scaled 18 (14823 / 10000)"
    by (rule scaled_le [of 4], auto intro: scaledI [where c = 13712] scaledI [where c = 14823])+
  moreover have "(0 :: rat) < 13712 / 10000 \<and> (13712 / 10000 :: rat) \<le> 10 ^ 30"
    "(0 :: rat) < 14823 / 10000 \<and> (14823 / 10000 :: rat) \<le> 10 ^ 30"
    by (simp_all add: pos_divide_le_eq)
  ultimately have "rate_text ''1.3712''" "rate_text ''1.4823''"
    unfolding rate_text_def by blast+
  then show ?thesis by (simp add: example_legs_def example_provenance_def)
qed

theorem central_rate_is_disclosed_witness:
  "\<exists>s t. fp_source_currency example_provenance = Some s \<and> fp_target_currency example_provenance = Some t
    \<and> s \<noteq> t \<and> fx_source example_fx = provider_attribution BankOfCanada
    \<and> (if BankOfCanada = BankOfCanada
       then disclosed_rate rnd50 ''CAD'' example_legs s t (925048910476961479 / 10 ^ 18)
       else disclosed_rate rnd50 ''EUR'' example_legs t s (925048910476961479 / 10 ^ 18))"
proof (rule central_rate_is_disclosed [OF refdec.decimal_lib_axioms example_fx_accepted _ _ _ _ _ example_rates])
  show "plain_value (fx_rate example_fx) = Some (925048910476961479 / 10 ^ 18)" by code_simp
qed (simp_all add: example_fx_def example_provenance_def example_legs_def)

theorem provider_times_are_ordered_witness:
  "\<exists>observed retrieved n. fp_observed_at example_provenance = Some observed
    \<and> fp_retrieved_at example_provenance = Some retrieved
    \<and> fp_max_lookback example_provenance = Some n \<and> n \<le> 7
    \<and> example_time (fx_effective_at example_fx) = example_time observed
    \<and> example_time (fp_as_of_date example_provenance @ ''T00:00:00.000Z'') - n * day_ms \<le> example_time observed
    \<and> example_time observed < example_time (fp_as_of_date example_provenance @ ''T00:00:00.000Z'') + day_ms
    \<and> example_time observed \<le> example_time retrieved
    \<and> example_time retrieved \<le> example_time (fp_resolved_at example_provenance)"
  by (rule provider_times_are_ordered [OF example_fx_accepted])
    (simp_all add: example_fx_def example_provenance_def)

end
