(* ===== verification/DocumentSchemas.thy ===== *)
theory DocumentSchemas
  imports TaxDetermination FxProvenance "HOL-Library.Monad_Syntax"
begin

text \<open>
  The request schemas of the subledger: the \<open>zod\<close> schemas of
  \<open>subledger/document-model.ts\<close>, \<open>subledger/source-tax-rounding.ts\<close> and
  \<open>subledger/settlement-funding.ts\<close> as parse functions.  A parse function maps the
  fields as sent to the fields as the code goes on with them (trimmed, upper-cased), or
  to \<open>None\<close> where the schema rejects.  The formats of the schema library (\<open>z.uuid\<close>,
  \<open>z.iso.date\<close>, \<open>z.iso.datetime\<close>) and \<open>Date.parse\<close> are parameters.  The literal
  \<open>quoteConvention\<close> has one value and is left out.
\<close>

section \<open>Field parsers\<close>

record schema_formats =
  is_uuid :: "string \<Rightarrow> bool"
  is_iso_date :: "string \<Rightarrow> bool"
  is_iso_datetime :: "string \<Rightarrow> bool"
  parse_time :: "string \<Rightarrow> int"

definition accept :: "('a \<Rightarrow> bool) \<Rightarrow> 'a \<Rightarrow> 'a option" where
  "accept p x = (if p x then Some x else None)"

fun optional_field :: "('a \<Rightarrow> 'b option) \<Rightarrow> 'a option \<Rightarrow> 'b option option" where
  "optional_field p None = Some None"
| "optional_field p (Some x) = map_option Some (p x)"

fun parse_all :: "('a \<Rightarrow> 'b option) \<Rightarrow> 'a list \<Rightarrow> 'b list option" where
  "parse_all p [] = Some []"
| "parse_all p (x # xs) = do { y \<leftarrow> p x; ys \<leftarrow> parse_all p xs; Some (y # ys) }"

text \<open>\<open>z.string().trim().toUpperCase()\<close> and a check on the result.\<close>

definition upper_text :: "(string \<Rightarrow> bool) \<Rightarrow> string \<Rightarrow> string option" where
  "upper_text p s = accept p (to_upper (trim s))"

definition trimmed_match :: "(string \<Rightarrow> bool) \<Rightarrow> string \<Rightarrow> string option" where
  "trimmed_match p s = accept p (trim s)"

text \<open>\<open>refine\<close> with a test of the exact value; a text that is no number is rejected.\<close>

definition exact_test :: "'d decimal_api \<Rightarrow> ('d \<Rightarrow> bool) \<Rightarrow> string \<Rightarrow> bool" where
  "exact_test D p s = (case exact D (TextIn s) of Inl _ \<Rightarrow> False | Inr d \<Rightarrow> p d)"

definition positive_amount :: "'d decimal_api \<Rightarrow> string \<Rightarrow> string option" where
  "positive_amount D =
     trimmed_match (\<lambda>t. unsigned_decimal 9 t \<and> exact_test D (\<lambda>d. dec_gt D d (dec_int D 0)) t)"

definition signed_nonzero_amount :: "'d decimal_api \<Rightarrow> string \<Rightarrow> string option" where
  "signed_nonzero_amount D =
     trimmed_match (\<lambda>t. signed_decimal 9 t \<and> exact_test D (\<lambda>d. \<not> dec_is_zero D d) t)"

definition positive_rate :: "'d decimal_api \<Rightarrow> string \<Rightarrow> string option" where
  "positive_rate D =
     trimmed_match (\<lambda>t. unsigned_decimal 18 t \<and> exact_test D (\<lambda>d. dec_gt D d (dec_int D 0)) t)"

definition upper_alnum :: "char \<Rightarrow> bool" where
  "upper_alnum c \<longleftrightarrow> is_upper c \<or> is_digit c"

text \<open>\<open>/^[A-Z0-9][A-Z0-9._/-]*$/\<close>, one to fifty characters.\<close>

definition source_number_code :: "string \<Rightarrow> bool" where
  "source_number_code s \<longleftrightarrow> s \<noteq> [] \<and> length s \<le> 50 \<and> upper_alnum (hd s)
     \<and> list_all (\<lambda>c. upper_alnum c \<or> c \<in> set ''._/-'') s"

definition source_number :: "string \<Rightarrow> string option" where
  "source_number = upper_text source_number_code"

definition idempotency_key :: "string \<Rightarrow> string option" where
  "idempotency_key = trimmed_text 1 200"

section \<open>Exchange rates\<close>

definition parse_fx_leg :: "schema_formats \<Rightarrow> 'd decimal_api \<Rightarrow> fx_leg \<Rightarrow> fx_leg option" where
  "parse_fx_leg F D l = do {
     currency \<leftarrow> upper_text (upper_code 3) (leg_currency l);
     rate \<leftarrow> positive_rate D (leg_rate l);
     observed \<leftarrow> accept (is_iso_date F) (leg_observed_date l);
     series \<leftarrow> trimmed_text 1 100 (leg_series_key l);
     Some (l\<lparr>leg_currency := currency, leg_rate := rate, leg_observed_date := observed,
       leg_series_key := series\<rparr>) }"

definition hex_digest :: "string \<Rightarrow> bool" where
  "hex_digest s \<longleftrightarrow> length s = 64
     \<and> list_all (\<lambda>c. is_digit c \<or> char_between (CHR ''a'') (CHR ''f'') c) s"

definition parse_fx_provenance ::
  "schema_formats \<Rightarrow> 'd decimal_api \<Rightarrow> fx_provenance \<Rightarrow> fx_provenance option" where
  "parse_fx_provenance F D p = do {
     as_of \<leftarrow> accept (is_iso_date F) (fp_as_of_date p);
     resolved \<leftarrow> accept (is_iso_datetime F) (fp_resolved_at p);
     policy \<leftarrow> trimmed_text 1 100 (fp_policy_key p);
     version \<leftarrow> accept (\<lambda>n. 0 < n) (fp_policy_version p);
     rate \<leftarrow> optional_field (accept (is_uuid F)) (fp_organization_rate p);
     recorded \<leftarrow> optional_field (accept (is_iso_datetime F)) (fp_rate_recorded_at p);
     symbol \<leftarrow> optional_field (trimmed_text 1 200) (fp_symbol p);
     source \<leftarrow> optional_field (upper_text (upper_code 3)) (fp_source_currency p);
     target \<leftarrow> optional_field (upper_text (upper_code 3)) (fp_target_currency p);
     observed \<leftarrow> optional_field (accept (is_iso_datetime F)) (fp_observed_at p);
     retrieved \<leftarrow> optional_field (accept (is_iso_datetime F)) (fp_retrieved_at p);
     sha \<leftarrow> optional_field (accept hex_digest) (fp_response_sha p);
     lookback \<leftarrow> optional_field (accept (\<lambda>n. 1 \<le> n \<and> n \<le> 7)) (fp_max_lookback p);
     legs \<leftarrow> optional_field (\<lambda>ls. do {
         ls' \<leftarrow> parse_all (parse_fx_leg F D) ls;
         accept (\<lambda>ls. 1 \<le> length ls \<and> length ls \<le> 2) ls' }) (fp_legs p);
     accept (\<lambda>v. provenance_schema_issues (parse_time F) v = [])
       (p\<lparr>fp_as_of_date := as_of, fp_resolved_at := resolved, fp_policy_key := policy,
          fp_policy_version := version, fp_organization_rate := rate, fp_rate_recorded_at := recorded,
          fp_symbol := symbol, fp_source_currency := source, fp_target_currency := target,
          fp_observed_at := observed, fp_retrieved_at := retrieved, fp_response_sha := sha,
          fp_max_lookback := lookback, fp_legs := legs\<rparr>) }"

text \<open>\<open>fxInputSchema\<close>; being strict it takes no provenance.\<close>

definition parse_fx_fields :: "schema_formats \<Rightarrow> 'd decimal_api \<Rightarrow> fx_snapshot \<Rightarrow> fx_snapshot option" where
  "parse_fx_fields F D x = do {
     rate \<leftarrow> positive_rate D (fx_rate x);
     source \<leftarrow> trimmed_text 1 100 (fx_source x);
     effective \<leftarrow> accept (is_iso_datetime F) (fx_effective_at x);
     Some (x\<lparr>fx_rate := rate, fx_source := source, fx_effective_at := effective\<rparr>) }"

definition parse_fx_input :: "schema_formats \<Rightarrow> 'd decimal_api \<Rightarrow> fx_snapshot \<Rightarrow> fx_snapshot option" where
  "parse_fx_input F D x = do { y \<leftarrow> parse_fx_fields F D x; accept (\<lambda>y. fx_prov y = None) y }"

definition parse_fx_snapshot :: "schema_formats \<Rightarrow> 'd decimal_api \<Rightarrow> fx_snapshot \<Rightarrow> fx_snapshot option" where
  "parse_fx_snapshot F D x = do {
     y \<leftarrow> parse_fx_fields F D x;
     prov \<leftarrow> optional_field (parse_fx_provenance F D) (fx_prov x);
     accept (\<lambda>z. fx_snapshot_issues D (parse_time F) z = Inr []) (y\<lparr>fx_prov := prov\<rparr>) }"

section \<open>Line tax\<close>

text \<open>\<open>/^-?(?:0|[1-9]\d*)(?:\.\d{1,9})?$/\<close>: no leading zeros.\<close>

definition canonical_decimal :: "string \<Rightarrow> bool" where
  "canonical_decimal s \<longleftrightarrow> signed_decimal 9 s
     \<and> (let w = takeWhile is_digit (if starts_with ''-'' s then drop 1 s else s)
        in w = ''0'' \<or> hd w \<noteq> CHR ''0'')"

definition parse_source_rounding :: "source_tax_rounding \<Rightarrow> source_tax_rounding option" where
  "parse_source_rounding r = do {
     amount \<leftarrow> trimmed_match canonical_decimal (sr_amount r);
     reason \<leftarrow> trimmed_text 8 500 (sr_reason r);
     evidence \<leftarrow> trimmed_text 1 200 (sr_evidence r);
     Some (r\<lparr>sr_amount := amount, sr_reason := reason, sr_evidence := evidence\<rparr>) }"

text \<open>\<open>/^[A-Z]{2}(?:-[A-Z0-9]{2,10})?$/\<close> and \<open>/^[A-Z][A-Z0-9_]{1,49}$/\<close>\<close>

definition jurisdiction_code :: "string \<Rightarrow> bool" where
  "jurisdiction_code s \<longleftrightarrow> upper_code 2 (take 2 s) \<and>
     (length s = 2 \<or> (s ! 2 = CHR ''-'' \<and> length s - 3 \<in> {2..10} \<and> list_all upper_alnum (drop 3 s)))"

definition component_key_code :: "string \<Rightarrow> bool" where
  "component_key_code s \<longleftrightarrow> 2 \<le> length s \<and> length s \<le> 50 \<and> is_upper (hd s)
     \<and> list_all (\<lambda>c. upper_alnum c \<or> c = CHR ''_'') s"

text \<open>\<open>/^[A-Z0-9-]{2,10}$/\<close>\<close>

definition region_code :: "string \<Rightarrow> bool" where
  "region_code s \<longleftrightarrow> 2 \<le> length s \<and> length s \<le> 10 \<and> list_all (\<lambda>c. upper_alnum c \<or> c = CHR ''-'') s"

text \<open>The \<open>superRefine\<close> of an override.\<close>

definition override_refinement :: "'d decimal_api \<Rightarrow> tax_override_input \<Rightarrow> bool" where
  "override_refinement D ov \<longleftrightarrow>
     exact_test D (\<lambda>r. \<not> dec_ge D (dec_int D 0) r \<and> \<not> dec_gt D r (dec_int D 100)) (ov_rate_percent ov)
     \<and> (ov_adjustment_reason ov = None) = (ov_adjustment_evidence ov = None)
     \<and> \<not> (truthy (ov_effective_to ov) \<and> or_else (ov_effective_to ov) [] < ov_effective_from ov)"

definition parse_tax_override ::
  "schema_formats \<Rightarrow> 'd decimal_api \<Rightarrow> tax_override_input \<Rightarrow> tax_override_input option" where
  "parse_tax_override F D ov = do {
     rate \<leftarrow> trimmed_match (unsigned_decimal 9) (ov_rate_percent ov);
     amount \<leftarrow> signed_nonzero_amount D (ov_amount ov);
     jurisdiction \<leftarrow> upper_text jurisdiction_code (ov_jurisdiction ov);
     key \<leftarrow> upper_text component_key_code (ov_component_key ov);
     from_date \<leftarrow> accept (is_iso_date F) (ov_effective_from ov);
     to_date \<leftarrow> optional_field (accept (is_iso_date F)) (ov_effective_to ov);
     reason \<leftarrow> trimmed_text 8 500 (ov_reason ov);
     evidence \<leftarrow> trimmed_text 1 200 (ov_evidence ov);
     adjustment \<leftarrow> optional_field (trimmed_text 8 500) (ov_adjustment_reason ov);
     adjustment_evidence \<leftarrow> optional_field (trimmed_text 1 200) (ov_adjustment_evidence ov);
     accept (override_refinement D)
       (ov\<lparr>ov_rate_percent := rate, ov_amount := amount, ov_jurisdiction := jurisdiction,
          ov_component_key := key, ov_effective_from := from_date, ov_effective_to := to_date,
          ov_reason := reason, ov_evidence := evidence, ov_adjustment_reason := adjustment,
          ov_adjustment_evidence := adjustment_evidence\<rparr>) }"

definition parse_tax_input :: "schema_formats \<Rightarrow> 'd decimal_api \<Rightarrow> tax_input \<Rightarrow> tax_input option" where
  "parse_tax_input F D t = do {
     pack \<leftarrow> trimmed_text 1 100 (ti_pack t);
     country \<leftarrow> upper_text (upper_code 2) (ti_country t);
     region \<leftarrow> upper_text region_code (ti_region t);
     city \<leftarrow> optional_field (trimmed_text 1 100) (ti_city t);
     location \<leftarrow> optional_field (trimmed_text 1 50) (ti_location t);
     registration \<leftarrow> optional_field (trimmed_text 1 200) (ti_registration t);
     evidence \<leftarrow> optional_field (trimmed_text 1 200) (ti_evidence t);
     recoverable \<leftarrow> optional_field (trimmed_match (unsigned_decimal 9)) (ti_recoverable t);
     rounding \<leftarrow> optional_field parse_source_rounding (ti_rounding t);
     override \<leftarrow> optional_field (parse_tax_override F D) (ti_override t);
     accept (\<lambda>t. ti_rounding t = None \<or> ti_override t = None)
       (t\<lparr>ti_pack := pack, ti_country := country, ti_region := region, ti_city := city,
          ti_location := location, ti_registration := registration, ti_evidence := evidence,
          ti_recoverable := recoverable, ti_rounding := rounding, ti_override := override\<rparr>) }"

section \<open>Business documents\<close>

datatype document_kind = SalesInvoice | SupplierBill

datatype line_type = StandardLine | AdjustmentLine

record document_line_input =
  li_description :: string
  li_account :: string
  li_net :: string
  li_type :: "line_type option"
  li_tax :: tax_input

text \<open>The fields of \<open>businessDocumentInputSchema\<close> apart from \<open>fx\<close>, which its extensions vary.\<close>

record document_fields =
  di_kind :: document_kind
  di_source_number :: string
  di_ledger :: string
  di_entity :: string
  di_party :: string
  di_control :: string
  di_tax_account :: "string option"
  di_rounding_account :: "string option"
  di_document_date :: string
  di_accounting_date :: string
  di_period :: string
  di_due :: string
  di_currency :: string
  di_description :: string
  di_lines :: "document_line_input list"

record document_input = document_fields +
  di_fx :: fx_snapshot

record document_request = document_fields +
  dr_fx :: "fx_snapshot option"

record create_document = document_request +
  cd_idempotency :: string

datatype fx_resolution_mode = ResolveFx | PreserveFx | ExplicitFx

record edit_document = document_request +
  ed_version :: int
  ed_fx_mode :: "fx_resolution_mode option"
  ed_idempotency :: string

definition parse_line_input ::
  "schema_formats \<Rightarrow> 'd decimal_api \<Rightarrow> document_line_input \<Rightarrow> document_line_input option" where
  "parse_line_input F D l = do {
     description \<leftarrow> trimmed_text 1 500 (li_description l);
     account \<leftarrow> accept (is_uuid F) (li_account l);
     net \<leftarrow> signed_nonzero_amount D (li_net l);
     tax \<leftarrow> parse_tax_input F D (li_tax l);
     Some (l\<lparr>li_description := description, li_account := account, li_net := net, li_tax := tax\<rparr>) }"

definition parse_document_fields ::
  "schema_formats \<Rightarrow> 'd decimal_api \<Rightarrow> 'm document_fields_scheme \<Rightarrow> 'm document_fields_scheme option" where
  "parse_document_fields F D i = do {
     num \<leftarrow> source_number (di_source_number i);
     ledger \<leftarrow> accept (is_uuid F) (di_ledger i);
     entity \<leftarrow> accept (is_uuid F) (di_entity i);
     party \<leftarrow> accept (is_uuid F) (di_party i);
     control \<leftarrow> accept (is_uuid F) (di_control i);
     tax_account \<leftarrow> optional_field (accept (is_uuid F)) (di_tax_account i);
     rounding_account \<leftarrow> optional_field (accept (is_uuid F)) (di_rounding_account i);
     document_date \<leftarrow> accept (is_iso_date F) (di_document_date i);
     accounting_date \<leftarrow> accept (is_iso_date F) (di_accounting_date i);
     period \<leftarrow> accept (is_uuid F) (di_period i);
     due \<leftarrow> accept (is_iso_date F) (di_due i);
     currency \<leftarrow> upper_text (upper_code 3) (di_currency i);
     description \<leftarrow> trimmed_text 1 500 (di_description i);
     ls \<leftarrow> parse_all (parse_line_input F D) (di_lines i);
     accept (\<lambda>i. 1 \<le> length (di_lines i) \<and> length (di_lines i) \<le> 200)
       (i\<lparr>di_source_number := num, di_ledger := ledger, di_entity := entity, di_party := party,
          di_control := control, di_tax_account := tax_account, di_rounding_account := rounding_account,
          di_document_date := document_date, di_accounting_date := accounting_date,
          di_period := period, di_due := due, di_currency := currency,
          di_description := description, di_lines := ls\<rparr>) }"

definition parse_document_input ::
  "schema_formats \<Rightarrow> 'd decimal_api \<Rightarrow> document_input \<Rightarrow> document_input option" where
  "parse_document_input F D i = do {
     fields \<leftarrow> parse_document_fields F D i;
     fx \<leftarrow> parse_fx_snapshot F D (di_fx i);
     Some (fields\<lparr>di_fx := fx\<rparr>) }"

definition parse_document_request ::
  "schema_formats \<Rightarrow> 'd decimal_api \<Rightarrow> 'm document_request_scheme \<Rightarrow> 'm document_request_scheme option" where
  "parse_document_request F D i = do {
     fields \<leftarrow> parse_document_fields F D i;
     fx \<leftarrow> optional_field (parse_fx_input F D) (dr_fx i);
     Some (fields\<lparr>dr_fx := fx\<rparr>) }"

definition parse_create_document ::
  "schema_formats \<Rightarrow> 'd decimal_api \<Rightarrow> create_document \<Rightarrow> create_document option" where
  "parse_create_document F D i = do {
     request \<leftarrow> parse_document_request F D i;
     key \<leftarrow> idempotency_key (cd_idempotency i);
     Some (request\<lparr>cd_idempotency := key\<rparr>) }"

definition validate_edit_fx_mode :: "edit_document \<Rightarrow> bool" where
  "validate_edit_fx_mode e \<longleftrightarrow>
     \<not> ((ed_fx_mode e = Some ResolveFx \<or> ed_fx_mode e = Some PreserveFx) \<and> dr_fx e \<noteq> None)
     \<and> \<not> (ed_fx_mode e = Some ExplicitFx \<and> dr_fx e = None)"

definition parse_edit_document ::
  "schema_formats \<Rightarrow> 'd decimal_api \<Rightarrow> edit_document \<Rightarrow> edit_document option" where
  "parse_edit_document F D i = do {
     request \<leftarrow> parse_document_request F D i;
     version \<leftarrow> accept (\<lambda>n. 0 < n) (ed_version i);
     key \<leftarrow> idempotency_key (ed_idempotency i);
     accept validate_edit_fx_mode (request\<lparr>ed_version := version, ed_idempotency := key\<rparr>) }"

section \<open>Settlements\<close>

datatype settlement_kind = CustomerReceipt | SupplierPayment

datatype settlement_method = Bank | CorporateCard | ShareholderAdvance | EmployeeReimbursement | OtherNonCash

text \<open>\<open>FundingSelection\<close>: what a command or a snapshot says about where the money comes from.\<close>

record funding_selection =
  fs_kind :: "settlement_kind option"
  fs_bank :: "string option"
  fs_settlement :: "string option"
  fs_method :: "settlement_method option"

datatype funding_class = AssetClass | LiabilityClass

datatype funding_error = FundingAccountRequired | FundingAccountsConflict | NonCashNeedsSettlementAccount

text \<open>Account ids are texts and \<open>undefined\<close> or empty ones are falsy.\<close>

definition resolve_settlement_funding ::
  "funding_selection \<Rightarrow> funding_error + (settlement_method \<times> string \<times> funding_class)" where
  "resolve_settlement_funding f =
     (let method = or_else (fs_method f) Bank;
          account = (if fs_settlement f \<noteq> None then fs_settlement f else fs_bank f) in
      bindE (require (truthy account) FundingAccountRequired) (\<lambda>_.
      bindE (throw_if (truthy (fs_bank f) \<and> truthy (fs_settlement f) \<and> fs_bank f \<noteq> fs_settlement f)
        FundingAccountsConflict) (\<lambda>_.
      bindE (throw_if (method \<noteq> Bank \<and> (fs_kind f = Some CustomerReceipt \<or> truthy (fs_bank f)))
        NonCashNeedsSettlementAccount) (\<lambda>_.
      Inr (method, or_else account [], if method = Bank then AssetClass else LiabilityClass)))))"

definition validate_settlement_funding :: "funding_selection \<Rightarrow> bool" where
  "validate_settlement_funding f = is_ok (resolve_settlement_funding f)"

definition normalize_settlement_funding :: "funding_selection \<Rightarrow> funding_error + funding_selection" where
  "normalize_settlement_funding f =
     bindE (resolve_settlement_funding f) (\<lambda>(method, account, _).
     Inr (if method \<noteq> Bank then f
          else f\<lparr>fs_method := None, fs_settlement := None, fs_bank := Some account\<rparr>))"

record allocation_input =
  al_open_item :: string
  al_amount :: string

record settlement_fields =
  sc_kind :: settlement_kind
  sc_source_number :: string
  sc_ledger :: string
  sc_entity :: string
  sc_party :: string
  sc_control :: string
  sc_period :: string
  sc_accounting_date :: string
  sc_settlement_date :: string
  sc_currency :: string
  sc_amount :: string
  sc_bank :: "string option"
  sc_settlement :: "string option"
  sc_method :: "settlement_method option"
  sc_gain :: string
  sc_loss :: string
  sc_rounding_account :: "string option"
  sc_description :: string
  sc_allocations :: "allocation_input list"
  sc_idempotency :: string

record settlement_command = settlement_fields +
  sc_fx :: "fx_snapshot option"

record resolved_settlement = settlement_fields +
  rs_fx :: fx_snapshot

definition funding_of :: "'m settlement_fields_scheme \<Rightarrow> funding_selection" where
  "funding_of c = \<lparr>fs_kind = Some (sc_kind c), fs_bank = sc_bank c, fs_settlement = sc_settlement c,
     fs_method = sc_method c\<rparr>"

definition parse_allocation ::
  "schema_formats \<Rightarrow> 'd decimal_api \<Rightarrow> allocation_input \<Rightarrow> allocation_input option" where
  "parse_allocation F D a = do {
     item \<leftarrow> accept (is_uuid F) (al_open_item a);
     amount \<leftarrow> positive_amount D (al_amount a);
     Some (a\<lparr>al_open_item := item, al_amount := amount\<rparr>) }"

definition parse_settlement_fields ::
  "schema_formats \<Rightarrow> 'd decimal_api \<Rightarrow> 'm settlement_fields_scheme \<Rightarrow> 'm settlement_fields_scheme option" where
  "parse_settlement_fields F D c = do {
     num \<leftarrow> source_number (sc_source_number c);
     ledger \<leftarrow> accept (is_uuid F) (sc_ledger c);
     entity \<leftarrow> accept (is_uuid F) (sc_entity c);
     party \<leftarrow> accept (is_uuid F) (sc_party c);
     control \<leftarrow> accept (is_uuid F) (sc_control c);
     period \<leftarrow> accept (is_uuid F) (sc_period c);
     accounting_date \<leftarrow> accept (is_iso_date F) (sc_accounting_date c);
     settlement_date \<leftarrow> accept (is_iso_date F) (sc_settlement_date c);
     currency \<leftarrow> upper_text (upper_code 3) (sc_currency c);
     amount \<leftarrow> positive_amount D (sc_amount c);
     bank \<leftarrow> optional_field (accept (is_uuid F)) (sc_bank c);
     settlement \<leftarrow> optional_field (accept (is_uuid F)) (sc_settlement c);
     gain \<leftarrow> accept (is_uuid F) (sc_gain c);
     loss \<leftarrow> accept (is_uuid F) (sc_loss c);
     rounding \<leftarrow> optional_field (accept (is_uuid F)) (sc_rounding_account c);
     description \<leftarrow> trimmed_text 1 500 (sc_description c);
     allocations \<leftarrow> parse_all (parse_allocation F D) (sc_allocations c);
     key \<leftarrow> idempotency_key (sc_idempotency c);
     accept (\<lambda>c. 1 \<le> length (sc_allocations c) \<and> length (sc_allocations c) \<le> 200
         \<and> validate_settlement_funding (funding_of c))
       (c\<lparr>sc_source_number := num, sc_ledger := ledger, sc_entity := entity, sc_party := party,
          sc_control := control, sc_period := period, sc_accounting_date := accounting_date,
          sc_settlement_date := settlement_date, sc_currency := currency, sc_amount := amount,
          sc_bank := bank, sc_settlement := settlement, sc_gain := gain, sc_loss := loss,
          sc_rounding_account := rounding, sc_description := description,
          sc_allocations := allocations, sc_idempotency := key\<rparr>) }"

definition parse_settlement_command ::
  "schema_formats \<Rightarrow> 'd decimal_api \<Rightarrow> settlement_command \<Rightarrow> settlement_command option" where
  "parse_settlement_command F D c = do {
     fields \<leftarrow> parse_settlement_fields F D c;
     fx \<leftarrow> optional_field (parse_fx_input F D) (sc_fx c);
     Some (fields\<lparr>sc_fx := fx\<rparr>) }"

definition parse_resolved_settlement ::
  "schema_formats \<Rightarrow> 'd decimal_api \<Rightarrow> resolved_settlement \<Rightarrow> resolved_settlement option" where
  "parse_resolved_settlement F D c = do {
     fields \<leftarrow> parse_settlement_fields F D c;
     fx \<leftarrow> parse_fx_snapshot F D (rs_fx c);
     Some (fields\<lparr>rs_fx := fx\<rparr>) }"

section \<open>Lemmas\<close>

text \<open>A parser normalises when what it returns parses to itself.\<close>

definition normalises :: "('a \<Rightarrow> 'a option) \<Rightarrow> bool" where
  "normalises p \<longleftrightarrow> (\<forall>x y. p x = Some y \<longrightarrow> p y = Some y)"

named_theorems parse_intros "parsers that normalise"

lemma normalisesD: "normalises p \<Longrightarrow> p x = Some y \<Longrightarrow> p y = Some y"
  by (auto simp: normalises_def)

lemma accept_Some_iff [simp]: "accept p x = Some y \<longleftrightarrow> y = x \<and> p x"
  by (auto simp: accept_def)

lemma trim_to_upper_trim [simp]: "trim (to_upper (trim s)) = to_upper (trim s)"
proof -
  have space: "is_space (upper_char c) = is_space c" for c
    by (auto simp: upper_char_def is_space_def is_lower_def char_between_def)
  have "dropWhile is_space (map upper_char t) = map upper_char (dropWhile is_space t)" for t
    by (simp add: dropWhile_map o_def space)
  then have "trim (to_upper t) = to_upper (trim t)" for t
    by (simp add: trim_def to_upper_def rev_map)
  then show ?thesis by simp
qed

lemma normalises_accept [parse_intros]: "normalises (accept p)"
  by (auto simp: normalises_def accept_def split: if_splits)

lemma normalises_trimmed [parse_intros]: "normalises (trimmed_text lo hi)"
  by (auto simp: normalises_def text_simps)

lemma normalises_match [parse_intros]: "normalises (trimmed_match p)"
  by (auto simp: normalises_def trimmed_match_def accept_def split: if_splits)

lemma normalises_upper [parse_intros]: "normalises (upper_text p)"
  by (auto simp: normalises_def upper_text_def accept_def split: if_splits)

lemma normalises_amounts [parse_intros]:
  "normalises (positive_amount D)" "normalises (signed_nonzero_amount D)" "normalises (positive_rate D)"
  "normalises source_number" "normalises idempotency_key"
  unfolding positive_amount_def signed_nonzero_amount_def positive_rate_def source_number_def idempotency_key_def
  by (intro parse_intros)+

lemma normalises_optional [parse_intros]: "normalises p \<Longrightarrow> normalises (optional_field p)"
  unfolding normalises_def
proof (intro allI impI)
  fix x y
  assume p: "\<forall>x y. p x = Some y \<longrightarrow> p y = Some y" "optional_field p x = Some y"
  then show "optional_field p y = Some y" by (cases x) auto
qed

lemma parse_all_Some_iff: "parse_all p xs = Some ys \<longleftrightarrow> list_all2 (\<lambda>x y. p x = Some y) xs ys"
  by (induction xs arbitrary: ys) (auto simp: list_all2_Cons1 bind_eq_Some_conv)

lemma normalises_all [parse_intros]: "normalises p \<Longrightarrow> normalises (parse_all p)"
  unfolding normalises_def parse_all_Some_iff
  by (auto simp: list_all2_conv_all_nth)

lemma bind_normal:
  "normalises p \<Longrightarrow> Option.bind (p x) f = Some z \<longleftrightarrow> (\<exists>y. p x = Some y \<and> p y = Some y \<and> f y = Some z)"
  by (auto simp: normalises_def bind_eq_Some_conv)

lemma normalises_fx_leg [parse_intros]: "normalises (parse_fx_leg F D)"
  unfolding normalises_def parse_fx_leg_def by (clarsimp simp: bind_normal parse_intros)

lemma normalises_source_rounding [parse_intros]: "normalises parse_source_rounding"
  unfolding normalises_def parse_source_rounding_def by (clarsimp simp: bind_normal parse_intros)

lemma normalises_legs [parse_intros]:
  "normalises (\<lambda>ls. do { ls' \<leftarrow> parse_all (parse_fx_leg F D) ls; accept p ls' })"
  unfolding normalises_def by (clarsimp simp: bind_normal parse_intros)

lemma normalises_provenance [parse_intros]: "normalises (parse_fx_provenance F D)"
  unfolding normalises_def parse_fx_provenance_def by (clarsimp simp: bind_normal parse_intros)

lemma normalises_fx_fields [parse_intros]: "normalises (parse_fx_fields F D)"
  unfolding normalises_def parse_fx_fields_def by (clarsimp simp: bind_normal parse_intros)

lemma normalises_fx_input [parse_intros]: "normalises (parse_fx_input F D)"
  unfolding normalises_def parse_fx_input_def by (clarsimp simp: bind_normal parse_intros)

lemma fx_fields_prov:
  "parse_fx_fields F D x = Some y \<Longrightarrow> parse_fx_fields F D (x\<lparr>fx_prov := p\<rparr>) = Some (y\<lparr>fx_prov := p\<rparr>)"
  unfolding parse_fx_fields_def by (clarsimp simp: bind_eq_Some_conv)

lemma normalises_fx_snapshot [parse_intros]: "normalises (parse_fx_snapshot F D)"
  unfolding normalises_def parse_fx_snapshot_def by (clarsimp simp: bind_normal parse_intros fx_fields_prov)

lemma normalises_override [parse_intros]: "normalises (parse_tax_override F D)"
  unfolding normalises_def parse_tax_override_def by (clarsimp simp: bind_normal parse_intros)

lemma normalises_tax [parse_intros]: "normalises (parse_tax_input F D)"
  unfolding normalises_def parse_tax_input_def by (clarsimp simp: bind_normal parse_intros)

lemma normalises_line [parse_intros]: "normalises (parse_line_input F D)"
  unfolding normalises_def parse_line_input_def by (clarsimp simp: bind_normal parse_intros)

lemma normalises_allocation [parse_intros]: "normalises (parse_allocation F D)"
  unfolding normalises_def parse_allocation_def by (clarsimp simp: bind_normal parse_intros)

lemma normalises_document_fields [parse_intros]: "normalises (parse_document_fields F D)"
  unfolding normalises_def parse_document_fields_def by (clarsimp simp: bind_normal parse_intros)

lemma normalises_settlement_fields [parse_intros]: "normalises (parse_settlement_fields F D)"
  unfolding normalises_def parse_settlement_fields_def
  by (clarsimp simp: bind_normal parse_intros funding_of_def)

text \<open>The fields a schema shares with its extensions do not depend on the extension.\<close>

lemma document_fields_ext:
  "parse_document_fields F D i = Some j \<Longrightarrow> parse_document_fields F D (i\<lparr>di_fx := x\<rparr>) = Some (j\<lparr>di_fx := x\<rparr>)"
  "parse_document_fields F D k = Some l \<Longrightarrow> parse_document_fields F D (k\<lparr>dr_fx := r\<rparr>) = Some (l\<lparr>dr_fx := r\<rparr>)"
  unfolding parse_document_fields_def by (clarsimp simp: bind_eq_Some_conv)+

lemma settlement_fields_ext:
  "parse_settlement_fields F D i = Some j \<Longrightarrow> parse_settlement_fields F D (i\<lparr>rs_fx := x\<rparr>) = Some (j\<lparr>rs_fx := x\<rparr>)"
  "parse_settlement_fields F D k = Some l \<Longrightarrow> parse_settlement_fields F D (k\<lparr>sc_fx := r\<rparr>) = Some (l\<lparr>sc_fx := r\<rparr>)"
  unfolding parse_settlement_fields_def funding_of_def by (clarsimp simp: bind_eq_Some_conv)+

lemma normalises_document_input [parse_intros]: "normalises (parse_document_input F D)"
  unfolding normalises_def parse_document_input_def
  by (clarsimp simp: bind_normal parse_intros document_fields_ext)

lemma normalises_document_request [parse_intros]: "normalises (parse_document_request F D)"
  unfolding normalises_def parse_document_request_def
  by (clarsimp simp: bind_normal parse_intros document_fields_ext)

lemma normalises_settlement [parse_intros]:
  "normalises (parse_settlement_command F D)" "normalises (parse_resolved_settlement F D)"
  unfolding normalises_def parse_settlement_command_def parse_resolved_settlement_def
  by (clarsimp simp: bind_normal parse_intros settlement_fields_ext)+

text \<open>What the amount patterns say of the value of a text.\<close>

lemma unsigned_decimal_value:
  assumes "unsigned_decimal k s"
  shows "\<exists>q. unsigned_value s = Some q \<and> scaled k q \<and> 0 \<le> q"
proof -
  let ?w = "takeWhile is_digit s"
  have nonneg: "0 \<le> digits_value t" if t: "list_all is_digit t" for t
    using t
  proof (induction t rule: rev_induct)
    case (snoc c t)
    then have "0 \<le> digits_value t" "48 \<le> (of_char c :: nat)"
      by (auto simp: is_digit_def char_between_def)
    then show ?case by (simp add: digits_value_def digit_value_def)
  qed (simp add: digits_value_def)
  have w: "0 \<le> digits_value ?w" by (rule nonneg) (auto simp: list_all_iff dest: set_takeWhileD)
  consider (int) "?w \<noteq> []" "dropWhile is_digit s = []"
    | (frac) f where "?w \<noteq> []" "dropWhile is_digit s = CHR ''.'' # f" "f \<noteq> []" "length f \<le> k" "list_all is_digit f"
    using assms by (auto simp: unsigned_decimal_def Let_def split: list.splits simp del: dropWhile_eq_Nil_conv)
  then show ?thesis
  proof cases
    case int
    then have v: "unsigned_value s = Some (of_int (digits_value ?w))"
      by (simp add: unsigned_value_def Let_def del: dropWhile_eq_Nil_conv takeWhile_eq_Nil_iff)
    show ?thesis
      by (intro exI [where x = "of_int (digits_value ?w)"]) (use v w in simp)
  next
    case frac
    have v: "unsigned_value s = Some (of_int (digits_value ?w) + of_int (digits_value f) / 10 ^ length f)"
      using frac by (simp add: unsigned_value_def Let_def all_digits_def del: takeWhile_eq_Nil_iff)
    have "scaled (length f) (of_int (digits_value f) / 10 ^ length f)" by (rule scaledI) simp
    then have "scaled k (of_int (digits_value ?w) + of_int (digits_value f) / 10 ^ length f)"
      using scaled_le [OF _ frac(4)] by (intro scaled_add) auto
    then show ?thesis using v w nonneg [OF frac(5)]
      by (intro exI [where x = "of_int (digits_value ?w) + of_int (digits_value f) / 10 ^ length f"]) simp
  qed
qed

lemma signed_decimal_value:
  assumes "signed_decimal k s" shows "\<exists>q. plain_value s = Some q \<and> scaled k q"
proof (cases "starts_with ''-'' s")
  case True
  then obtain t where t: "s = CHR ''-'' # t" by (auto simp: text_simps)
  then have "unsigned_decimal k t" using assms True by (simp add: signed_decimal_def)
  from unsigned_decimal_value [OF this] show ?thesis using t by (auto simp: plain_value_def)
next
  case False
  then have u: "unsigned_decimal k s" using assms by (simp add: signed_decimal_def)
  then have "s \<noteq> []" by (auto simp: unsigned_decimal_def)
  moreover have "s \<noteq> [] \<longrightarrow> hd s \<noteq> CHR ''-''" using False by (cases s) (auto simp: starts_with_def)
  ultimately show ?thesis using unsigned_decimal_value [OF u] by (cases s) (auto simp: plain_value_def)
qed

lemma unsigned_plain_value:
  assumes "unsigned_decimal k s" shows "\<exists>q. plain_value s = Some q \<and> scaled k q \<and> 0 \<le> q"
proof -
  obtain q where q: "unsigned_value s = Some q" "scaled k q" "0 \<le> q" using unsigned_decimal_value [OF assms] by blast
  obtain c t where c: "s = c # t" using assms by (cases s) (auto simp: unsigned_decimal_def)
  have "c \<noteq> CHR ''-''"
    using assms c by (auto simp: unsigned_decimal_def Let_def is_digit_def char_between_def split: if_splits)
  then show ?thesis using q c by (auto simp: plain_value_def)
qed

context decimal_lib
begin

lemma signed_nonzero_value:
  assumes "signed_nonzero_amount D s = Some t"
  shows "\<exists>q. text_amount t q \<and> scaled 9 q \<and> q \<noteq> 0"
proof -
  have t: "signed_decimal 9 t" "exact_test D (\<lambda>d. \<not> dec_is_zero D d) t"
    using assms by (auto simp: signed_nonzero_amount_def trimmed_match_def)
  obtain q where q: "text_amount t q" "scaled 9 q" using signed_decimal_value [OF t(1)] by blast
  obtain d where "exact D (TextIn t) = Inr d" "dec_finite D d" "val d = q" using exact_text [OF q(1)] .
  then show ?thesis using t(2) q by (auto simp: exact_test_def simp del: exact.simps)
qed

lemma positive_value:
  assumes "unsigned_decimal k t" "exact_test D (\<lambda>d. dec_gt D d (dec_int D 0)) t"
  shows "\<exists>q. text_amount t q \<and> scaled k q \<and> 0 < q"
proof -
  obtain q where q: "text_amount t q" "scaled k q" using unsigned_plain_value [OF assms(1)] by blast
  obtain d where "exact D (TextIn t) = Inr d" "dec_finite D d" "val d = q" using exact_text [OF q(1)] .
  then show ?thesis using assms(2) q by (auto simp: exact_test_def simp del: exact.simps)
qed

lemma positive_amount_value:
  "positive_amount D s = Some t \<Longrightarrow> \<exists>q. text_amount t q \<and> scaled 9 q \<and> 0 < q"
  by (auto simp: positive_amount_def trimmed_match_def intro: positive_value)

lemma positive_rate_value:
  "positive_rate D s = Some t \<Longrightarrow> \<exists>q. text_amount t q \<and> scaled 18 q \<and> 0 < q"
  by (auto simp: positive_rate_def trimmed_match_def intro: positive_value)

end

text \<open>What the schema says of an accepted amount.\<close>

lemma parsed_line:
  assumes "parse_line_input F D l = Some m"
  shows "parse_tax_input F D (li_tax m) = Some (li_tax m)" "li_type m = li_type l"
    "signed_nonzero_amount D (li_net l) = Some (li_net m)"
  using assms normalises_tax
  by (auto simp: parse_line_input_def bind_normal parse_intros dest: normalisesD)

section \<open>Properties\<close>

text \<open>
  C25. Schemas normalise.  What the request schemas of business documents and
  settlements return parses to itself: a document or settlement that went through its
  schema once comes out of it unchanged, so re-parsing a stored snapshot or replaying a
  stored command never alters it or rejects it.
\<close>

theorem schemas_normalise:
  "(parse_document_input F D i = Some j \<longrightarrow> parse_document_input F D j = Some j)
   \<and> (parse_document_request F D r = Some s \<longrightarrow> parse_document_request F D s = Some s)
   \<and> (parse_settlement_command F D c = Some d \<longrightarrow> parse_settlement_command F D d = Some d)
   \<and> (parse_resolved_settlement F D e = Some f \<longrightarrow> parse_resolved_settlement F D f = Some f)"
  by (intro conjI impI; erule normalisesD [rotated]; rule parse_intros)

text \<open>
  C26. Funding.  When the funding of a settlement resolves, it names one account; bank
  funding is an asset and may be given under either field but not under two different
  ones; any other method is a supplier payment's, a liability, and names no bank
  account.  Normalising the selection keeps what it resolves to.
\<close>

theorem funding_resolves:
  assumes "resolve_settlement_funding f = Inr (method, account, cls)"
  shows "account \<noteq> [] \<and> (cls = AssetClass \<longleftrightarrow> method = Bank)
    \<and> (method = Bank \<longrightarrow> (fs_settlement f = Some account \<or> (fs_settlement f = None \<and> fs_bank f = Some account))
         \<and> (truthy (fs_bank f) \<longrightarrow> fs_bank f = Some account))
    \<and> (method \<noteq> Bank \<longrightarrow> fs_kind f \<noteq> Some CustomerReceipt \<and> \<not> truthy (fs_bank f) \<and> fs_settlement f = Some account)
    \<and> (\<exists>g. normalize_settlement_funding f = Inr g \<and> resolve_settlement_funding g = Inr (method, account, cls)
         \<and> normalize_settlement_funding g = Inr g)"
  using assms
  by (cases f; cases "fs_settlement f"; cases "fs_bank f"; cases "fs_method f")
    (auto simp: resolve_settlement_funding_def normalize_settlement_funding_def bindE_Inr_iff
      throw_if_def Let_def truthy_def split: if_splits)

section \<open>An example\<close>

definition example_formats :: schema_formats where
  "example_formats = \<lparr>is_uuid = (\<lambda>s. s \<noteq> []), is_iso_date = (\<lambda>s. length s = 10),
     is_iso_datetime = (\<lambda>s. length s = 20), parse_time = (\<lambda>_. 0)\<rparr>"

definition example_explicit_fx :: fx_snapshot where
  "example_explicit_fx = \<lparr>fx_rate = ''0.729288'', fx_source = '' desk '',
     fx_effective_at = ''2026-03-02T00:00:00Z'', fx_prov = None\<rparr>"

definition example_lines :: "document_line_input list" where
  "example_lines = [
     \<lparr>li_description = '' paper '', li_account = ''acc-1'', li_net = ''100.55'', li_type = None,
      li_tax = example_tax_input\<rparr>,
     \<lparr>li_description = ''returned'', li_account = ''acc-1'', li_net = ''-10'', li_type = Some AdjustmentLine,
      li_tax = example_tax_input\<lparr>ti_region := '' on'', ti_rounding := None\<rparr>\<rparr>]"

definition example_document :: document_input where
  "example_document = \<lparr>di_kind = SupplierBill, di_source_number = '' bill-7 '', di_ledger = ''l'',
     di_entity = ''e'', di_party = ''p'', di_control = ''ap'', di_tax_account = Some ''tax'',
     di_rounding_account = Some ''fxr'', di_document_date = ''2026-03-02'',
     di_accounting_date = ''2026-03-02'', di_period = ''per'', di_due = ''2026-04-01'',
     di_currency = '' cad'', di_description = ''stationery'', di_lines = example_lines,
     di_fx = example_explicit_fx\<rparr>"

definition example_parsed :: document_input where
  "example_parsed = or_else (parse_document_input example_formats ref_api example_document) example_document"

definition example_settlement :: settlement_command where
  "example_settlement = \<lparr>sc_kind = SupplierPayment, sc_source_number = ''PAY-1'', sc_ledger = ''l'',
     sc_entity = ''e'', sc_party = ''p'', sc_control = ''ap'', sc_period = ''per'',
     sc_accounting_date = ''2026-03-20'', sc_settlement_date = ''2026-03-20'', sc_currency = ''cad'',
     sc_amount = ''50.00'', sc_bank = Some ''bank'', sc_settlement = None, sc_method = None,
     sc_gain = ''gain'', sc_loss = ''loss'', sc_rounding_account = Some ''fxr'',
     sc_description = ''part payment'', sc_allocations = [\<lparr>al_open_item = ''item'', al_amount = ''50.00''\<rparr>],
     sc_idempotency = ''pay-1'', sc_fx = Some example_explicit_fx\<rparr>"

definition example_command :: settlement_command where
  "example_command = or_else (parse_settlement_command example_formats ref_api example_settlement) example_settlement"

lemma example_document_parses:
  "parse_document_input example_formats ref_api example_document = Some example_parsed"
  by code_simp

lemma example_settlement_parses:
  "parse_settlement_command example_formats ref_api example_settlement = Some example_command"
  by code_simp

theorem schemas_normalise_witness:
  "di_source_number example_parsed = ''BILL-7''
   \<and> parse_document_input example_formats ref_api example_parsed = Some example_parsed
   \<and> parse_settlement_command example_formats ref_api example_command = Some example_command"
proof (intro conjI)
  show "di_source_number example_parsed = ''BILL-7''" by code_simp
  show "parse_document_input example_formats ref_api example_parsed = Some example_parsed"
    using schemas_normalise [of example_formats ref_api example_document example_parsed]
      example_document_parses by blast
  show "parse_settlement_command example_formats ref_api example_command = Some example_command"
    using schemas_normalise [where F = example_formats and D = ref_api and c = example_settlement
        and d = example_command] example_settlement_parses by blast
qed

theorem funding_resolves_witness:
  "''card'' \<noteq> [] \<and> (LiabilityClass = AssetClass \<longleftrightarrow> CorporateCard = Bank)
    \<and> (\<exists>g. normalize_settlement_funding \<lparr>fs_kind = Some SupplierPayment, fs_bank = None,
           fs_settlement = Some ''card'', fs_method = Some CorporateCard\<rparr> = Inr g
         \<and> resolve_settlement_funding g = Inr (CorporateCard, ''card'', LiabilityClass)
         \<and> normalize_settlement_funding g = Inr g)"
proof -
  have "resolve_settlement_funding \<lparr>fs_kind = Some SupplierPayment, fs_bank = None,
      fs_settlement = Some ''card'', fs_method = Some CorporateCard\<rparr>
    = Inr (CorporateCard, ''card'', LiabilityClass)" by code_simp
  from funding_resolves [OF this] show ?thesis by blast
qed

end
