(* ===== verification/DocumentModel.thy ===== *)
theory DocumentModel
  imports DocumentSchemas
begin

text \<open>
  The business document: the snapshot types of \<open>subledger/document-model.ts\<close>, their
  schema, and \<open>buildBusinessDocumentSnapshot\<close>, which turns a request into the snapshot
  that is stored, approved and issued.  The \<open>canonicalHash\<close> of a decision is a
  parameter, and of the stored snapshot only the fields the code still reads are
  checked for their format.
\<close>

section \<open>Kinds and their policies\<close>

datatype owner_module = Receivables | Payables

datatype control_kind = ControlAr | ControlAp

datatype party_role = CustomerParty | SupplierParty

datatype position = ReceivablePosition | PayablePosition

record document_policy =
  dp_owner :: owner_module
  dp_source_type :: string
  dp_journal_type :: string
  dp_role :: party_role
  dp_control :: control_kind
  dp_direction :: tax_direction

fun document_kind_policy :: "document_kind \<Rightarrow> document_policy" where
  "document_kind_policy SalesInvoice =
     \<lparr>dp_owner = Receivables, dp_source_type = ''receivables.sales-invoice'',
      dp_journal_type = ''receivables.sales-invoice'', dp_role = CustomerParty, dp_control = ControlAr,
      dp_direction = Sale\<rparr>"
| "document_kind_policy SupplierBill =
     \<lparr>dp_owner = Payables, dp_source_type = ''payables.supplier-bill'',
      dp_journal_type = ''payables.supplier-bill'', dp_role = SupplierParty, dp_control = ControlAp,
      dp_direction = Purchase\<rparr>"

record settlement_policy =
  sp_owner :: owner_module
  sp_source_type :: string
  sp_journal_type :: string
  sp_role :: party_role
  sp_invoice_source_type :: string
  sp_position :: position

fun settlement_kind_policy :: "settlement_kind \<Rightarrow> settlement_policy" where
  "settlement_kind_policy CustomerReceipt =
     \<lparr>sp_owner = Receivables, sp_source_type = ''receivables.customer-receipt'',
      sp_journal_type = ''receivables.customer-receipt'', sp_role = CustomerParty,
      sp_invoice_source_type = ''receivables.sales-invoice'', sp_position = ReceivablePosition\<rparr>"
| "settlement_kind_policy SupplierPayment =
     \<lparr>sp_owner = Payables, sp_source_type = ''payables.supplier-payment'',
      sp_journal_type = ''payables.supplier-payment'', sp_role = SupplierParty,
      sp_invoice_source_type = ''payables.supplier-bill'', sp_position = PayablePosition\<rparr>"

section \<open>The snapshot\<close>

record snapshot_line =
  sl_number :: nat
  sl_description :: string
  sl_account :: string
  sl_net :: string
  sl_type :: "line_type option"
  sl_tax :: tax_input
  sl_decision :: tax_decision
  sl_hash :: string

datatype evidence_purpose = InvoiceEvidence | ReceiptEvidence | SupportingEvidence

record evidence_reference =
  er_asset :: string
  er_purpose :: evidence_purpose

record document_snapshot =
  ds_kind :: document_kind
  ds_owner :: owner_module
  ds_source_type :: string
  ds_source_number :: string
  ds_ledger :: string
  ds_entity :: string
  ds_party :: string
  ds_control :: string
  ds_tax_account :: "string option"
  ds_rounding_account :: "string option"
  ds_document_date :: string
  ds_accounting_date :: string
  ds_period :: string
  ds_due :: string
  ds_currency :: string
  ds_functional :: string
  ds_fx :: fx_snapshot
  ds_description :: string
  ds_lines :: "snapshot_line list"
  ds_subtotal :: string
  ds_tax_total :: string
  ds_gross :: string
  ds_gross_functional :: string
  ds_evidence :: "evidence_reference list option"

text \<open>\<open>evidenceReferencesSchema\<close>: at most twenty, no asset twice.\<close>

definition evidence_references_ok :: "schema_formats \<Rightarrow> evidence_reference list \<Rightarrow> bool" where
  "evidence_references_ok F refs \<longleftrightarrow>
     length refs \<le> 20 \<and> list_all (\<lambda>r. is_uuid F (er_asset r)) refs \<and> distinct (map er_asset refs)"

text \<open>\<open>taxDecisionSchema\<close>: the formats it adds to the type of a decision.\<close>

definition decision_formats :: "schema_formats \<Rightarrow> tax_decision \<Rightarrow> bool" where
  "decision_formats F d \<longleftrightarrow> is_iso_date F (tf_tax_point (td_facts d))
     \<and> upper_code 3 (tf_currency (td_facts d)) \<and> upper_code 2 (tf_country (td_facts d))"

definition parse_snapshot_line ::
  "schema_formats \<Rightarrow> 'd decimal_api \<Rightarrow> snapshot_line \<Rightarrow> snapshot_line option" where
  "parse_snapshot_line F D l = do {
     num \<leftarrow> accept (\<lambda>n. 0 < n) (sl_number l);
     account \<leftarrow> accept (is_uuid F) (sl_account l);
     tax \<leftarrow> parse_tax_input F D (sl_tax l);
     decision \<leftarrow> accept (decision_formats F) (sl_decision l);
     hash \<leftarrow> accept hex_digest (sl_hash l);
     Some (l\<lparr>sl_number := num, sl_account := account, sl_tax := tax, sl_decision := decision,
       sl_hash := hash\<rparr>) }"

definition validate_snapshot_provider_pair ::
  "string \<Rightarrow> string option \<Rightarrow> string \<Rightarrow> string \<Rightarrow> fx_snapshot \<Rightarrow> bool" where
  "validate_snapshot_provider_pair accounting_date settlement_date currency functional fx =
     (case fx_prov fx of
        None \<Rightarrow> True
      | Some p \<Rightarrow>
          fp_as_of_date p = or_else settlement_date accounting_date
          \<and> (fp_source_currency p \<noteq> None \<longrightarrow>
              fp_source_currency p = Some currency \<and> fp_target_currency p = Some functional))"

text \<open>The rest of the snapshot's \<open>superRefine\<close>.\<close>

definition snapshot_refinement :: "'d decimal_api \<Rightarrow> document_snapshot \<Rightarrow> bool" where
  "snapshot_refinement D s \<longleftrightarrow>
     validate_snapshot_provider_pair (ds_accounting_date s) None (ds_currency s) (ds_functional s) (ds_fx s)
     \<and> list_all (\<lambda>l. exact_test D (\<lambda>net. dec_is_neg D net \<longrightarrow>
           ds_kind s = SupplierBill \<and> sl_type l = Some AdjustmentLine) (sl_net l)) (ds_lines s)
     \<and> exact_test D (\<lambda>g. \<not> dec_is_zero D g \<and> \<not> dec_is_neg D g) (ds_gross s)"

definition parse_document_snapshot ::
  "schema_formats \<Rightarrow> 'd decimal_api \<Rightarrow> document_snapshot \<Rightarrow> document_snapshot option" where
  "parse_document_snapshot F D s = do {
     num \<leftarrow> source_number (ds_source_number s);
     ledger \<leftarrow> accept (is_uuid F) (ds_ledger s);
     entity \<leftarrow> accept (is_uuid F) (ds_entity s);
     party \<leftarrow> accept (is_uuid F) (ds_party s);
     control \<leftarrow> accept (is_uuid F) (ds_control s);
     tax_account \<leftarrow> optional_field (accept (is_uuid F)) (ds_tax_account s);
     rounding_account \<leftarrow> optional_field (accept (is_uuid F)) (ds_rounding_account s);
     document_date \<leftarrow> accept (is_iso_date F) (ds_document_date s);
     accounting_date \<leftarrow> accept (is_iso_date F) (ds_accounting_date s);
     period \<leftarrow> accept (is_uuid F) (ds_period s);
     due \<leftarrow> accept (is_iso_date F) (ds_due s);
     currency \<leftarrow> accept (upper_code 3) (ds_currency s);
     functional \<leftarrow> accept (upper_code 3) (ds_functional s);
     fx \<leftarrow> parse_fx_snapshot F D (ds_fx s);
     ls \<leftarrow> parse_all (parse_snapshot_line F D) (ds_lines s);
     evidence \<leftarrow> optional_field (accept (evidence_references_ok F)) (ds_evidence s);
     accept (\<lambda>s. ds_lines s \<noteq> [] \<and> snapshot_refinement D s)
       (s\<lparr>ds_source_number := num, ds_ledger := ledger, ds_entity := entity, ds_party := party,
          ds_control := control, ds_tax_account := tax_account, ds_rounding_account := rounding_account,
          ds_document_date := document_date, ds_accounting_date := accounting_date,
          ds_period := period, ds_due := due, ds_currency := currency, ds_functional := functional,
          ds_fx := fx, ds_lines := ls, ds_evidence := evidence\<rparr>) }"

section \<open>Building the snapshot\<close>

datatype document_error =
    DocumentMoney money_error
  | InvalidDocument
  | LedgerCurrencyInvalid
  | CurrencyUnsupported
  | FunctionalRateNotOne
  | DueBeforeDocument
  | LinePrecision nat
  | NegativeSalesLine nat
  | SignedLineRequiresAdjustment nat
  | LineTaxRejected nat tax_line_error
  | ZeroGross
  | NetCredit
  | TaxAccountRequired
  | InvalidSnapshot

abbreviation docm :: "money_error + 'a \<Rightarrow> document_error + 'a" where
  "docm \<equiv> map_errorE DocumentMoney"

definition money_string :: "'d decimal_api \<Rightarrow> 'd dec_input \<Rightarrow> string \<Rightarrow> money_error + string" where
  "money_string D v currency =
     bindE (quantize_money D v currency) (\<lambda>d. bindE (minor_units currency) (\<lambda>n. Inr (dec_fixed D n d)))"

definition build_tax_facts ::
  "'d decimal_api \<Rightarrow> tax_direction \<Rightarrow> document_line_input \<Rightarrow> document_input \<Rightarrow> money_error + tax_facts" where
  "build_tax_facts D direction line doc =
     bindE (money_string D (TextIn (li_net line)) (di_currency doc)) (\<lambda>basis.
     let tax = li_tax line in
     Inr \<lparr>tf_direction = direction, tf_tax_point = di_document_date doc, tf_currency = di_currency doc,
       tf_basis = basis, tf_country = ti_country tax, tf_region = ti_region tax, tf_city = ti_city tax,
       tf_location = ti_location tax, tf_category = ti_category tax,
       tf_registration = ti_registration tax, tf_evidence = ti_evidence tax,
       tf_recoverable = ti_recoverable tax\<rparr>)"

text \<open>The callback on one input line; \<open>H\<close> is \<open>canonicalHash\<close> of a decision.\<close>

definition build_line ::
  "'d decimal_api \<Rightarrow> (tax_decision \<Rightarrow> string) \<Rightarrow> document_input \<Rightarrow> nat \<times> document_line_input
     \<Rightarrow> document_error + snapshot_line" where
  "build_line D H doc = (\<lambda>(num, line).
     let direction = dp_direction (document_kind_policy (di_kind doc)); currency = di_currency doc in
     bindE (docm (is_quantized_money D (TextIn (li_net line)) currency)) (\<lambda>quantized.
     bindE (require quantized (LinePrecision num)) (\<lambda>_.
     bindE (docm (exact D (TextIn (li_net line)))) (\<lambda>net.
     bindE (throw_if (dec_is_neg D net \<and> di_kind doc = SalesInvoice) (NegativeSalesLine num)) (\<lambda>_.
     bindE (throw_if (dec_is_neg D net \<and> li_type line \<noteq> Some AdjustmentLine)
       (SignedLineRequiresAdjustment num)) (\<lambda>_.
     bindE (docm (build_tax_facts D direction line doc)) (\<lambda>facts.
     bindE (map_errorE (LineTaxRejected num) (decide_line_tax D (li_tax line) facts)) (\<lambda>decision.
     bindE (map_errorE (LineTaxRejected num)
       (assert_tax_decision_accounting_shape D decision direction currency (li_net line))) (\<lambda>_.
     bindE (docm (money_string D (TextIn (li_net line)) currency)) (\<lambda>text.
     Inr \<lparr>sl_number = num, sl_description = li_description line, sl_account = li_account line,
       sl_net = text, sl_type = li_type line, sl_tax = li_tax line, sl_decision = decision,
       sl_hash = H decision\<rparr>))))))))))"

definition decision_components :: "snapshot_line \<Rightarrow> tax_component list" where
  "decision_components l = td_components (sl_decision l)"

definition self_assessed_amounts :: "snapshot_line list \<Rightarrow> string list" where
  "self_assessed_amounts ls =
     concat (map (\<lambda>l. map tc_amount
       (filter (\<lambda>c. tc_treatment c = SelfAssessedPayable) (decision_components l))) ls)"

definition tax_mapping_required :: "snapshot_line list \<Rightarrow> bool" where
  "tax_mapping_required ls =
     list_ex (\<lambda>l. list_ex (\<lambda>c. tc_treatment c \<in> {Payable, Recoverable, SelfAssessedPayable})
       (decision_components l)) ls"

definition build_document_snapshot ::
  "schema_formats \<Rightarrow> 'd decimal_api \<Rightarrow> (tax_decision \<Rightarrow> string) \<Rightarrow> document_input \<Rightarrow> string
     \<Rightarrow> document_error + document_snapshot" where
  "build_document_snapshot F D H unparsed unparsed_functional =
     bindE (option_to_result InvalidDocument (parse_document_input F D unparsed)) (\<lambda>doc.
     let functional = to_upper (trim unparsed_functional); currency = di_currency doc;
         policy = document_kind_policy (di_kind doc) in
     bindE (require (upper_code 3 functional) LedgerCurrencyInvalid) (\<lambda>_.
     bindE (docm (is_quantized_money D (TextIn ''0'') currency)) (\<lambda>a.
     bindE (docm (if a then is_quantized_money D (TextIn ''0'') functional else Inr False)) (\<lambda>b.
     bindE (require b CurrencyUnsupported) (\<lambda>_.
     bindE (docm (exact D (TextIn (fx_rate (di_fx doc))))) (\<lambda>rate.
     bindE (throw_if (currency = functional \<and> \<not> dec_eq D rate (dec_int D 1)) FunctionalRateNotOne) (\<lambda>_.
     bindE (throw_if (di_due doc < di_document_date doc) DueBeforeDocument) (\<lambda>_.
     bindE (mapE (build_line D H doc) (enumerate 1 (di_lines doc))) (\<lambda>ls.
     bindE (docm (sum_exact D (map (\<lambda>l. TextIn (sl_net l)) ls))) (\<lambda>subtotal.
     bindE (docm (sum_exact D (map (\<lambda>l. TextIn (td_total_tax (sl_decision l))) ls))) (\<lambda>tax_total.
     bindE (docm (sum_exact D (map TextIn (self_assessed_amounts ls)))) (\<lambda>self_total.
     let gross = dec_minus D (dec_plus D subtotal tax_total) self_total in
     bindE (throw_if (dec_is_zero D gross) ZeroGross) (\<lambda>_.
     bindE (throw_if (dec_is_neg D gross) NetCredit) (\<lambda>_.
     bindE (throw_if (tax_mapping_required ls \<and> \<not> truthy (di_tax_account doc)) TaxAccountRequired) (\<lambda>_.
     bindE (docm (money_string D (DecIn subtotal) currency)) (\<lambda>subtotal_text.
     bindE (docm (money_string D (DecIn tax_total) currency)) (\<lambda>tax_text.
     bindE (docm (money_string D (DecIn gross) currency)) (\<lambda>gross_text.
     bindE (docm (bindE (times_literal D gross (fx_rate (di_fx doc))) (\<lambda>p.
         money_string D (DecIn p) functional))) (\<lambda>functional_text.
     option_to_result InvalidSnapshot (parse_document_snapshot F D
       \<lparr>ds_kind = di_kind doc, ds_owner = dp_owner policy, ds_source_type = dp_source_type policy,
        ds_source_number = di_source_number doc, ds_ledger = di_ledger doc, ds_entity = di_entity doc,
        ds_party = di_party doc, ds_control = di_control doc, ds_tax_account = di_tax_account doc,
        ds_rounding_account = di_rounding_account doc, ds_document_date = di_document_date doc,
        ds_accounting_date = di_accounting_date doc, ds_period = di_period doc, ds_due = di_due doc,
        ds_currency = currency, ds_functional = functional,
        ds_fx = (di_fx doc)\<lparr>fx_rate := dec_plain D rate\<rparr>, ds_description = di_description doc,
        ds_lines = ls, ds_subtotal = subtotal_text, ds_tax_total = tax_text, ds_gross = gross_text,
        ds_gross_functional = functional_text, ds_evidence = None\<rparr>))))))))))))))))))))"

section \<open>Issuing against current rules\<close>

datatype current_tax_error =
    CurrentTax tax_line_error
  | TaxDecisionChanged nat
  | TaxNeedsManualReview nat "review_reason option"

definition assert_snapshot_tax_current ::
  "'d decimal_api \<Rightarrow> (tax_decision \<Rightarrow> string) \<Rightarrow> document_snapshot \<Rightarrow> current_tax_error + unit" where
  "assert_snapshot_tax_current D H s =
     foldE (\<lambda>_ l.
       bindE (map_errorE CurrentTax (decide_line_tax D (sl_tax l) (td_facts (sl_decision l)))) (\<lambda>current.
       bindE (throw_if (H current \<noteq> sl_hash l) (TaxDecisionChanged (sl_number l))) (\<lambda>_.
       throw_if (td_status current = ManualReviewRequired)
         (TaxNeedsManualReview (sl_number l) (td_review_reason current))))) () (ds_lines s)"

section \<open>What a snapshot promises\<close>

text \<open>
  The books of a line: its net amount and the amounts of its tax components.  They are
  what the texts of the line denote, to whole minor units, on one side of zero, with
  treatments that fit the direction.
\<close>

definition line_books :: "nat \<Rightarrow> tax_direction \<Rightarrow> snapshot_line \<Rightarrow> rat \<times> rat list \<Rightarrow> bool" where
  "line_books n dir l = (\<lambda>(net, taxes).
     text_amount (sl_net l) net \<and> scaled n net \<and> net \<noteq> 0 \<and> \<bar>net\<bar> \<le> 10 ^ 18
     \<and> component_amounts (decision_components l) taxes
     \<and> text_amount (td_total_tax (sl_decision l)) (sum_list taxes)
     \<and> (\<forall>a \<in> set taxes. scaled n a \<and> same_sign net a \<and> \<bar>a\<bar> \<le> 10 ^ 29) \<and> \<bar>sum_list taxes\<bar> \<le> 10 ^ 29
     \<and> treatments_fit dir (decision_components l))"

definition treatment_total :: "tax_treatment \<Rightarrow> tax_component list \<Rightarrow> rat list \<Rightarrow> rat" where
  "treatment_total t cs as = sum_list (map snd (filter (\<lambda>(c, a). tc_treatment c = t) (zip cs as)))"

text \<open>What the counterparty owes or is owed for a line: self-assessed tax is not part of it.\<close>

definition line_due :: "snapshot_line \<Rightarrow> rat \<times> rat list \<Rightarrow> rat" where
  "line_due l = (\<lambda>(net, taxes).
     net + sum_list taxes - treatment_total SelfAssessedPayable (decision_components l) taxes)"

definition document_due :: "snapshot_line list \<Rightarrow> (rat \<times> rat list) list \<Rightarrow> rat" where
  "document_due ls books = sum_list (map2 line_due ls books)"

definition document_books :: "nat \<Rightarrow> document_snapshot \<Rightarrow> (rat \<times> rat list) list \<Rightarrow> bool" where
  "document_books n s books \<longleftrightarrow>
     list_all2 (line_books n (dp_direction (document_kind_policy (ds_kind s)))) (ds_lines s) books
     \<and> text_amount (ds_subtotal s) (sum_list (map fst books))
     \<and> text_amount (ds_tax_total s) (sum_list (map (sum_list \<circ> snd) books))
     \<and> text_amount (ds_gross s) (document_due (ds_lines s) books)
     \<and> 0 < document_due (ds_lines s) books
     \<and> (ds_kind s = SalesInvoice \<longrightarrow> (\<forall>b \<in> set books. 0 < fst b))
     \<and> list_all2 (\<lambda>l b. fst b < 0 \<longrightarrow> sl_type l = Some AdjustmentLine) (ds_lines s) books
     \<and> length (ds_lines s) \<le> 200"

section \<open>Lemmas\<close>

lemma foldE_unit_iff: "foldE (\<lambda>_ x. f x) () xs = Inr () \<longleftrightarrow> (\<forall>x \<in> set xs. f x = Inr ())"
  by (induction xs) (auto simp: bindE_Inr_iff)

lemma treatment_total_Nil [simp]: "treatment_total t [] as = 0"
  by (simp add: treatment_total_def)

lemma treatment_total_Cons [simp]:
  "treatment_total t (c # cs) (a # as) = (if tc_treatment c = t then a else 0) + treatment_total t cs as"
  by (simp add: treatment_total_def)

text \<open>The treatments of a line partition its tax.\<close>

lemma treatment_partition:
  assumes "length cs = length as" "\<forall>c \<in> set cs. tc_treatment c \<noteq> DisclosureOnly"
  shows "sum_list as = treatment_total Payable cs as + treatment_total Recoverable cs as
    + treatment_total Nonrecoverable cs as + treatment_total SelfAssessedPayable cs as"
  using assms
proof (induction cs as rule: list_induct2)
  case (Cons c cs a as)
  then show ?case by (cases "tc_treatment c") (auto simp: algebra_simps)
qed simp

lemma treatment_total_absent:
  "length cs = length as \<Longrightarrow> \<forall>c \<in> set cs. tc_treatment c \<noteq> t \<Longrightarrow> treatment_total t cs as = 0"
  by (induction cs as rule: list_induct2) auto

lemma treatment_total_props:
  assumes "length cs = length as" "\<forall>a \<in> set as. scaled n a \<and> same_sign q a"
  shows "scaled n (treatment_total t cs as) \<and> same_sign q (treatment_total t cs as)"
  using assms
  by (induction cs as rule: list_induct2) (auto simp: same_sign_def intro: scaled_add)

lemma treatments_fit_disclosure:
  "treatments_fit dir cs \<Longrightarrow> \<forall>c \<in> set cs. tc_treatment c \<noteq> DisclosureOnly"
  by (auto simp: treatments_fit_def list_all_iff split: if_splits)

lemma component_amounts_length: "component_amounts cs as \<Longrightarrow> length cs = length as"
  by (simp add: component_amounts_def list_all2_lengthD)

context decimal_lib
begin

lemma check_tax_amount_sign:
  assumes "check_tax_amount D c negative t e = Inr ()" "text_amount t a"
  shows "(negative \<longrightarrow> a \<le> 0) \<and> (\<not> negative \<longrightarrow> 0 \<le> a)"
proof -
  obtain d where "exact D (TextIn t) = Inr d" "dec_finite D d" "val d = a" using exact_text [OF assms(2)] .
  then show ?thesis using assms(1)
    by (auto simp: check_tax_amount_def invalid_sign_def bindE_Inr_iff map_errorE_Inr_iff throw_if_Inr_iff
        not_less simp del: exact.simps split: if_splits)
qed

lemma shape_signs:
  assumes ok: "assert_tax_decision_accounting_shape D d dir c basis = Inr u"
    and as: "component_amounts (td_components d) as" and q: "text_amount basis q" "q \<noteq> 0"
  shows "\<forall>a \<in> set as. same_sign q a"
proof
  fix a assume "a \<in> set as"
  then obtain comp where comp: "comp \<in> set (td_components d)" "text_amount (tc_amount comp) a"
    using list_all2_set2_ex [OF as [unfolded component_amounts_def]] by blast
  obtain b where b: "exact D (TextIn basis) = Inr b" "dec_finite D b" "val b = q" using exact_text [OF q(1)] .
  have "foldE (\<lambda>_ comp. check_tax_amount D c (dec_is_neg D b) (tc_amount comp)
      (InvalidComponentAmount (tc_key comp))) () (td_components d) = Inr ()"
    using ok b(1) unfolding assert_tax_decision_accounting_shape_def Let_def
    by (elim bindE_Inr_iff [THEN iffD1, THEN exE] conjE) (simp add: map_errorE_Inr_iff del: exact.simps)
  then have "check_tax_amount D c (dec_is_neg D b) (tc_amount comp) (InvalidComponentAmount (tc_key comp)) = Inr ()"
    using comp(1) foldE_unit_iff [of "\<lambda>comp. check_tax_amount D c (dec_is_neg D b) (tc_amount comp)
      (InvalidComponentAmount (tc_key comp))" "td_components d"] by blast
  from check_tax_amount_sign [OF this comp(2)] show "same_sign q a"
    using b(2,3) q(2) by (auto simp: same_sign_def)
qed

lemma money_string_text:
  assumes "exact D v = Inr d" "minor_units c = Inr n"
  shows "\<exists>t. money_string D v c = Inr t \<and> text_amount t (half_up n (val d))"
proof -
  have f: "dec_finite D d" by (rule exact_finite [OF assms(1)])
  have "plain_value (dec_fixed D n (dec_places D n d)) = Some (half_up n (half_up n (val d)))"
    using f by (subst fixed_value) simp_all
  then show ?thesis using assms by (simp add: money_string_def quantize_money_def half_up_id del: exact.simps)
qed

lemma money_string_Inr:
  assumes "money_string D v c = Inr t"
  obtains d n where "exact D v = Inr d" "dec_finite D d" "minor_units c = Inr n"
    "text_amount t (half_up n (val d))"
proof -
  obtain d n where e: "exact D v = Inr d" "minor_units c = Inr n"
    using assms by (auto simp: money_string_def quantize_money_def bindE_Inr_iff simp del: exact.simps)
  from money_string_text [OF this] show ?thesis using that [OF e(1) exact_finite [OF e(1)] e(2)] assms by auto
qed

end

context decimal_lib
begin

lemma build_line_Inr:
  assumes "build_line D H doc (num, line) = Inr l"
  obtains net facts decision shown where
    "is_quantized_money D (TextIn (li_net line)) (di_currency doc) = Inr True"
    "exact D (TextIn (li_net line)) = Inr net"
    "\<not> (dec_is_neg D net \<and> di_kind doc = SalesInvoice)"
    "dec_is_neg D net \<longrightarrow> li_type line = Some AdjustmentLine"
    "build_tax_facts D (dp_direction (document_kind_policy (di_kind doc))) line doc = Inr facts"
    "decide_line_tax D (li_tax line) facts = Inr decision"
    "assert_tax_decision_accounting_shape D decision (dp_direction (document_kind_policy (di_kind doc)))
       (di_currency doc) (li_net line) = Inr ()"
    "money_string D (TextIn (li_net line)) (di_currency doc) = Inr shown"
    "l = \<lparr>sl_number = num, sl_description = li_description line, sl_account = li_account line,
       sl_net = shown, sl_type = li_type line, sl_tax = li_tax line, sl_decision = decision,
       sl_hash = H decision\<rparr>"
  using assms unfolding build_line_def Let_def prod.case
  by (elim bindE_Inr_iff [THEN iffD1, THEN exE] conjE)
    (auto simp: throw_if_Inr_iff map_errorE_Inr_iff simp del: exact.simps)

text \<open>The tax facts of a line are about its net amount in the document's currency.\<close>

lemma build_tax_facts_Inr:
  assumes "build_tax_facts D dir line doc = Inr facts" "text_amount (li_net line) q" "scaled n q"
    and "minor_units (di_currency doc) = Inr n"
  shows "text_amount (tf_basis facts) q \<and> tf_currency facts = di_currency doc
    \<and> tf_direction facts = dir \<and> tf_tax_point facts = di_document_date doc"
proof -
  obtain d where "exact D (TextIn (li_net line)) = Inr d" "dec_finite D d" "val d = q"
    using exact_text [OF assms(2)] .
  then show ?thesis
    using assms(1) money_string_text [of "TextIn (li_net line)" d "di_currency doc" n] assms(3,4)
    by (auto simp: build_tax_facts_def bindE_Inr_iff Let_def half_up_id simp del: exact.simps)
qed

lemma build_line_books:
  assumes ok: "build_line D H doc (num, line) = Inr l"
    and net: "text_amount (li_net line) q" "scaled 9 q" "q \<noteq> 0" "\<bar>q\<bar> \<le> 10 ^ 18"
    and n: "minor_units (di_currency doc) = Inr n"
    and ov: "\<And>ov. ti_override (li_tax line) = Some ov \<Longrightarrow> \<exists>s. text_amount (ov_amount ov) s \<and> \<bar>s\<bar> \<le> 10 ^ 29"
  shows "\<exists>taxes. line_books n (dp_direction (document_kind_policy (di_kind doc))) l (q, taxes)
    \<and> sl_type l = li_type line \<and> (di_kind doc = SalesInvoice \<longrightarrow> 0 < q)
    \<and> (q < 0 \<longrightarrow> li_type line = Some AdjustmentLine)"
  using ok
proof (cases rule: build_line_Inr)
  case (1 net facts decision shown)
  let ?dir = "dp_direction (document_kind_policy (di_kind doc))"
  have v: "dec_finite D net" "val net = q" using exact_text [OF net(1)] 1(2) by auto
  have sc: "scaled n q" using 1(1) is_quantized_iff [OF 1(2) n] v(2) by simp
  note facts = build_tax_facts_Inr [OF 1(5) net(1) sc n]
  have fq: "text_amount (tf_basis facts) q" and fc: "minor_units (tf_currency facts) = Inr n"
    using facts n by simp_all
  obtain taxes where t: "component_amounts (td_components decision) taxes"
    "text_amount (td_total_tax decision) (sum_list taxes)" "\<forall>a \<in> set taxes. scaled n a"
    "\<bar>sum_list taxes\<bar> \<le> 10 ^ 29" "treatments_fit ?dir (td_components decision)"
    using decide_line_tax_ok [OF 1(6) fq net(2,4) fc ov] facts by auto
  have signs: "\<forall>a \<in> set taxes. same_sign q a" by (rule shape_signs [OF 1(7) t(1) net(1,3)])
  have small: "\<bar>a\<bar> \<le> 10 ^ 29" if "a \<in> set taxes" for a
    using same_sign_le_sum [OF signs that] t(4) by linarith
  have "text_amount shown q"
    using money_string_text [OF 1(2) n] 1(8) v(2) half_up_id [OF sc] by auto
  then have "line_books n ?dir l (q, taxes)"
    using 1(9) sc net t signs small by (simp add: line_books_def decision_components_def)
  then show ?thesis using 1(3,4,9) v net(3) by auto
qed

end

text \<open>The totals of the books of a list of lines.\<close>

definition self_totals :: "snapshot_line list \<Rightarrow> (rat \<times> rat list) list \<Rightarrow> rat list" where
  "self_totals ls books =
     concat (map2 (\<lambda>l b. map snd (filter (\<lambda>(c, a). tc_treatment c = SelfAssessedPayable)
       (zip (decision_components l) (snd b)))) ls books)"

lemma document_due_sums:
  "length ls = length books \<Longrightarrow> document_due ls books =
     sum_list (map fst books) + sum_list (map (sum_list \<circ> snd) books) - sum_list (self_totals ls books)"
proof (induction ls books rule: list_induct2)
  case (Cons l ls b books)
  then show ?case
    by (simp add: document_due_def self_totals_def line_due_def treatment_total_def case_prod_beta algebra_simps)
qed (simp add: document_due_def self_totals_def)

lemma self_component_amounts:
  assumes "component_amounts cs as"
  shows "list_all2 text_amount (map tc_amount (filter (\<lambda>c. tc_treatment c = t) cs))
    (map snd (filter (\<lambda>(c, a). tc_treatment c = t) (zip cs as)))"
  using assms unfolding component_amounts_def by (induction rule: list_all2_induct) auto

lemma self_totals_amounts:
  assumes "list_all2 (line_books n dir) ls books"
  shows "list_all2 text_amount (self_assessed_amounts ls) (self_totals ls books)"
  using assms
proof (induction rule: list_all2_induct)
  case (Cons l ls b books)
  then have "component_amounts (decision_components l) (snd b)" by (simp add: line_books_def case_prod_beta)
  from self_component_amounts [OF this, of SelfAssessedPayable] Cons.IH show ?case
    by (simp add: self_assessed_amounts_def self_totals_def list_all2_appendI)
qed (simp add: self_assessed_amounts_def self_totals_def)

lemma self_totals_in:
  "a \<in> set (self_totals ls books) \<Longrightarrow> \<exists>b \<in> set books. a \<in> set (snd b)"
  by (force simp: self_totals_def dest!: set_zip_rightD)

lemma self_totals_length:
  assumes "list_all2 (line_books n dir) ls books"
  shows "length (self_totals ls books) \<le> 2 * length ls"
  using assms
proof (induction rule: list_all2_induct)
  case (Cons l ls b books)
  have "length (filter P (zip (decision_components l) (snd b))) \<le> 2" for P
    by (rule order_trans [OF length_filter_le])
      (use Cons.hyps in \<open>auto simp: line_books_def case_prod_beta treatments_fit_def\<close>)
  from this [of "\<lambda>(c, a). tc_treatment c = SelfAssessedPayable"] Cons.IH show ?case
    by (simp add: self_totals_def)
qed (simp add: self_totals_def)

lemma list_all2_mapped:
  "list_all2 P xs ys \<Longrightarrow> (\<And>x y. P x y \<Longrightarrow> Q (f x) (g y)) \<Longrightarrow> list_all2 Q (map f xs) (map g ys)"
  by (auto simp: list_all2_map1 list_all2_map2 elim: list_all2_mono)

text \<open>The ledger bounds of everything the totals sum.\<close>

lemma line_books_bounds:
  assumes "line_books n dir l b" "n \<le> 9"
  shows "ledger_amount (fst b)" "ledger_amount (sum_list (snd b))" "a \<in> set (snd b) \<Longrightarrow> ledger_amount a"
    "scaled n (fst b)" "scaled n (sum_list (snd b))" "a \<in> set (snd b) \<Longrightarrow> scaled n a"
proof -
  have "(10::rat) ^ 18 \<le> 10 ^ 29" by (rule power_increasing) simp_all
  then show "ledger_amount (fst b)" "ledger_amount (sum_list (snd b))" "a \<in> set (snd b) \<Longrightarrow> ledger_amount a"
    using assms by (auto simp: line_books_def ledger_amount_def case_prod_beta intro: scaled_le scaled_sum_list)
  show "scaled n (fst b)" "scaled n (sum_list (snd b))" "a \<in> set (snd b) \<Longrightarrow> scaled n a"
    using assms by (auto simp: line_books_def case_prod_beta intro: scaled_sum_list)
qed

lemma sum_ledger_bound:
  assumes "\<And>q. q \<in> set qs \<Longrightarrow> ledger_amount q" "length qs \<le> 1000"
  shows "\<bar>sum_list qs\<bar> \<le> 10 ^ 32" "scaled 9 (sum_list qs)"
proof -
  have "\<bar>sum_list qs\<bar> \<le> of_nat (length qs) * 10 ^ 29"
    using assms(1) unfolding ledger_amount_def by (intro abs_sum_list_bound) blast
  also have "\<dots> \<le> 1000 * 10 ^ 29" using assms(2) by (intro mult_right_mono) auto
  finally show "\<bar>sum_list qs\<bar> \<le> 10 ^ 32" by simp
  show "scaled 9 (sum_list qs)" using assms(1) unfolding ledger_amount_def by (intro scaled_sum_list) blast
qed

context decimal_lib
begin

lemma document_totals:
  assumes b: "list_all2 (line_books n dir) ls books" "n \<le> 9" "length ls \<le> 200"
    and s: "sum_exact D (map (\<lambda>l. TextIn (sl_net l)) ls) = Inr subtotal"
      "sum_exact D (map (\<lambda>l. TextIn (td_total_tax (sl_decision l))) ls) = Inr tax_total"
      "sum_exact D (map TextIn (self_assessed_amounts ls)) = Inr self_total"
  shows "dec_finite D subtotal" "dec_finite D tax_total"
    "dec_finite D (dec_minus D (dec_plus D subtotal tax_total) self_total)"
    "val subtotal = sum_list (map fst books)" "val tax_total = sum_list (map (sum_list \<circ> snd) books)"
    "val (dec_minus D (dec_plus D subtotal tax_total) self_total) = document_due ls books"
    "scaled n (sum_list (map fst books))" "scaled n (sum_list (map (sum_list \<circ> snd) books))"
    "scaled n (document_due ls books)"
proof -
  have len: "length books = length ls" using list_all2_lengthD [OF b(1)] by simp
  have one: "\<exists>l. line_books n dir l x" if "x \<in> set books" for x
    using list_all2_set2_ex [OF b(1) that] by blast
  have bb: "ledger_amount (fst x)" "ledger_amount (sum_list (snd x))"
    "a \<in> set (snd x) \<Longrightarrow> ledger_amount a" "scaled n (fst x)" "scaled n (sum_list (snd x))"
    "a \<in> set (snd x) \<Longrightarrow> scaled n a" if "x \<in> set books" for x a
    using one [OF that] line_books_bounds [OF _ b(2)] by blast+
  have led: "\<And>q. q \<in> set (map fst books) \<Longrightarrow> ledger_amount q"
    "\<And>q. q \<in> set (map (sum_list \<circ> snd) books) \<Longrightarrow> ledger_amount q"
    "\<And>q. q \<in> set (self_totals ls books) \<Longrightarrow> ledger_amount q"
    using bb(1-3) by (auto dest: self_totals_in)
  have sca: "scaled n (sum_list (map fst books))" "scaled n (sum_list (map (sum_list \<circ> snd) books))"
    "scaled n (sum_list (self_totals ls books))"
    using bb(4-6) by (auto intro!: scaled_sum_list dest: self_totals_in)
  have lens: "length (map fst books) \<le> 1000" "length (map (sum_list \<circ> snd) books) \<le> 1000"
    "length (self_totals ls books) \<le> 1000"
    using len b(3) self_totals_length [OF b(1)] by auto
  have small: "length xs \<le> 1000 \<Longrightarrow> length xs \<le> 10 ^ 12" for xs :: "rat list" by simp
  have nets: "list_all2 text_amount (map sl_net ls) (map fst books)"
    by (rule list_all2_mapped [OF b(1)]) (simp add: line_books_def case_prod_beta)
  have totals: "list_all2 text_amount (map (\<lambda>l. td_total_tax (sl_decision l)) ls) (map (sum_list \<circ> snd) books)"
    by (rule list_all2_mapped [OF b(1)]) (simp add: line_books_def case_prod_beta)
  have 1: "dec_finite D subtotal \<and> val subtotal = sum_list (map fst books)"
    using sum_exact_texts [OF nets led(1) small [OF lens(1)]] s(1) by (simp add: o_def)
  have 2: "dec_finite D tax_total \<and> val tax_total = sum_list (map (sum_list \<circ> snd) books)"
    using sum_exact_texts [OF totals led(2) small [OF lens(2)]] s(2) by (simp add: o_def)
  have 3: "dec_finite D self_total \<and> val self_total = sum_list (self_totals ls books)"
    using sum_exact_texts [OF self_totals_amounts [OF b(1)] led(3) small [OF lens(3)]] s(3) by simp
  note bounds = sum_ledger_bound [OF led(1) lens(1)] sum_ledger_bound [OF led(2) lens(2)]
    sum_ledger_bound [OF led(3) lens(3)]
  have f1: "fits (val subtotal + val tax_total)"
    using 1 2 bounds by (intro fits_scaled [of 9 _ 33]) (auto intro: scaled_add)
  have p: "val (dec_plus D subtotal tax_total) = val subtotal + val tax_total"
    using 1 2 f1 by (intro plus_exact) auto
  have f2: "fits (val subtotal + val tax_total - val self_total)"
    using 1 2 3 bounds by (intro fits_scaled [of 9 _ 33]) (auto intro: scaled_add scaled_diff)
  show "dec_finite D subtotal" "dec_finite D tax_total"
    "dec_finite D (dec_minus D (dec_plus D subtotal tax_total) self_total)" using 1 2 3 by auto
  show "val subtotal = sum_list (map fst books)" "val tax_total = sum_list (map (sum_list \<circ> snd) books)"
    using 1 2 by auto
  show "val (dec_minus D (dec_plus D subtotal tax_total) self_total) = document_due ls books"
    using 1 2 3 p f2 document_due_sums [of ls books] len by (simp add: minus_exact)
  show "scaled n (sum_list (map fst books))" "scaled n (sum_list (map (sum_list \<circ> snd) books))"
    using sca by auto
  show "scaled n (document_due ls books)"
    using document_due_sums [of ls books] len sca by (auto intro: scaled_add scaled_diff)
qed

end

text \<open>The lines a schema pass returns have the amounts and decisions of the lines it was given.\<close>

lemma parse_snapshot_line_same:
  assumes "parse_snapshot_line F D l = Some m"
  shows "line_books n dir m b = line_books n dir l b" "line_due m = line_due l" "sl_type m = sl_type l"
    "sl_net m = sl_net l" "sl_account m = sl_account l" "sl_number m = sl_number l"
    "sl_description m = sl_description l" "decision_components m = decision_components l"
  using assms
  by (auto simp: parse_snapshot_line_def bind_eq_Some_conv line_books_def line_due_def decision_components_def
      fun_eq_iff)

lemma parse_document_snapshot_Some:
  assumes "parse_document_snapshot F D s = Some t"
  shows "ds_kind t = ds_kind s" "ds_currency t = ds_currency s" "ds_functional t = ds_functional s"
    "ds_subtotal t = ds_subtotal s" "ds_tax_total t = ds_tax_total s" "ds_gross t = ds_gross s"
    "ds_gross_functional t = ds_gross_functional s"
    "list_all2 (\<lambda>l m. parse_snapshot_line F D l = Some m) (ds_lines s) (ds_lines t)"
    "parse_fx_snapshot F D (ds_fx s) = Some (ds_fx t)" "snapshot_refinement D t"
    "ds_tax_account t = ds_tax_account s" "ds_lines t \<noteq> []"
  using assms
  by (cases "ds_tax_account s"; auto simp: parse_document_snapshot_def bind_eq_Some_conv parse_all_Some_iff)+

lemma build_document_Inr:
  assumes "build_document_snapshot F D H unparsed functional = Inr s"
  obtains doc ls subtotal tax_total self_total t gross_shown net_shown tax_shown rate where
    "parse_document_input F D unparsed = Some doc" "upper_code 3 (to_upper (trim functional))"
    "mapE (build_line D H doc) (enumerate 1 (di_lines doc)) = Inr ls"
    "is_quantized_money D (TextIn ''0'') (di_currency doc) = Inr True"
    "is_quantized_money D (TextIn ''0'') (to_upper (trim functional)) = Inr True"
    "sum_exact D (map (\<lambda>l. TextIn (sl_net l)) ls) = Inr subtotal"
    "sum_exact D (map (\<lambda>l. TextIn (td_total_tax (sl_decision l))) ls) = Inr tax_total"
    "sum_exact D (map TextIn (self_assessed_amounts ls)) = Inr self_total"
    "\<not> dec_is_zero D (dec_minus D (dec_plus D subtotal tax_total) self_total)"
    "\<not> dec_is_neg D (dec_minus D (dec_plus D subtotal tax_total) self_total)"
    "money_string D (DecIn subtotal) (di_currency doc) = Inr net_shown"
    "money_string D (DecIn tax_total) (di_currency doc) = Inr tax_shown"
    "money_string D (DecIn (dec_minus D (dec_plus D subtotal tax_total) self_total)) (di_currency doc) = Inr gross_shown"
    "parse_document_snapshot F D t = Some s" "ds_kind t = di_kind doc" "ds_lines t = ls"
    "ds_currency t = di_currency doc" "ds_subtotal t = net_shown" "ds_tax_total t = tax_shown"
    "ds_gross t = gross_shown" "ds_functional t = to_upper (trim functional)"
    "tax_mapping_required ls \<longrightarrow> truthy (di_tax_account doc)" "ds_tax_account t = di_tax_account doc"
    "di_document_date doc \<le> di_due doc" "exact D (TextIn (fx_rate (di_fx doc))) = Inr rate"
    "di_currency doc = to_upper (trim functional) \<longrightarrow> dec_eq D rate (dec_int D 1)"
    "fx_rate (ds_fx t) = dec_plain D rate"
  using assms unfolding build_document_snapshot_def Let_def
  by (elim bindE_Inr_iff [THEN iffD1, THEN exE] conjE)
    (auto simp: throw_if_Inr_iff map_errorE_Inr_iff option_to_result_Inr_iff simp del: exact.simps split: if_splits)

text \<open>
  The amounts of a request are bounded: net amounts by a million million million,
  override amounts by what a \<open>numeric(38,9)\<close> column holds.
\<close>

definition bounded_text :: "rat \<Rightarrow> string \<Rightarrow> bool" where
  "bounded_text b s = (case plain_value (trim s) of None \<Rightarrow> True | Some q \<Rightarrow> \<bar>q\<bar> \<le> b)"

definition line_bounded :: "document_line_input \<Rightarrow> bool" where
  "line_bounded l \<longleftrightarrow> bounded_text (10 ^ 18) (li_net l) \<and>
     (case ti_override (li_tax l) of None \<Rightarrow> True | Some ov \<Rightarrow> bounded_text (10 ^ 29) (ov_amount ov))"

definition amounts_bounded :: "document_input \<Rightarrow> bool" where
  "amounts_bounded i = list_all line_bounded (di_lines i)"

lemma signed_nonzero_trim: "signed_nonzero_amount D s = Some t \<Longrightarrow> t = trim s"
  by (simp add: signed_nonzero_amount_def trimmed_match_def)

lemma parse_tax_override_amount:
  "parse_tax_override F D ov = Some ow \<Longrightarrow> signed_nonzero_amount D (ov_amount ov) = Some (ov_amount ow)"
  by (auto simp: parse_tax_override_def bind_eq_Some_conv)

lemma parse_tax_input_override:
  "parse_tax_input F D t = Some u \<Longrightarrow>
     optional_field (parse_tax_override F D) (ti_override t) = Some (ti_override u)"
  by (auto simp: parse_tax_input_def bind_eq_Some_conv)

lemma parse_line_input_fields:
  assumes "parse_line_input F D l = Some m"
  shows "signed_nonzero_amount D (li_net l) = Some (li_net m)"
    "parse_tax_input F D (li_tax l) = Some (li_tax m)" "li_type m = li_type l"
  using assms by (auto simp: parse_line_input_def bind_eq_Some_conv)

context decimal_lib
begin

text \<open>The amounts of a parsed line, within the bounds of the request.\<close>

lemma parsed_line_amounts:
  assumes "parse_line_input F D l = Some m" "line_bounded l"
  shows "\<exists>q. text_amount (li_net m) q \<and> scaled 9 q \<and> q \<noteq> 0 \<and> \<bar>q\<bar> \<le> 10 ^ 18"
    and "ti_override (li_tax m) = Some ov \<Longrightarrow> \<exists>s. text_amount (ov_amount ov) s \<and> \<bar>s\<bar> \<le> 10 ^ 29"
proof -
  note f = parse_line_input_fields [OF assms(1)]
  show "\<exists>q. text_amount (li_net m) q \<and> scaled 9 q \<and> q \<noteq> 0 \<and> \<bar>q\<bar> \<le> 10 ^ 18"
    using signed_nonzero_value [OF f(1)] signed_nonzero_trim [OF f(1)] assms(2)
    by (auto simp: line_bounded_def bounded_text_def)
  assume "ti_override (li_tax m) = Some ov"
  then obtain ow where o: "ti_override (li_tax l) = Some ow" "parse_tax_override F D ow = Some ov"
    using parse_tax_input_override [OF f(2)] by (cases "ti_override (li_tax l)") auto
  note a = parse_tax_override_amount [OF o(2)]
  show "\<exists>s. text_amount (ov_amount ov) s \<and> \<bar>s\<bar> \<le> 10 ^ 29"
    using signed_nonzero_value [OF a] signed_nonzero_trim [OF a] assms(2) o(1)
    by (auto simp: line_bounded_def bounded_text_def)
qed

lemma build_lines_books:
  assumes ls: "mapE (build_line D H doc) (enumerate k ms) = Inr ls"
    and ps: "list_all2 (\<lambda>l m. parse_line_input F D l = Some m) raw ms" "list_all line_bounded raw"
    and n: "minor_units (di_currency doc) = Inr n"
  shows "\<exists>books. list_all2 (line_books n (dp_direction (document_kind_policy (di_kind doc)))) ls books
    \<and> (di_kind doc = SalesInvoice \<longrightarrow> (\<forall>b \<in> set books. 0 < fst b))
    \<and> list_all2 (\<lambda>l b. fst b < 0 \<longrightarrow> sl_type l = Some AdjustmentLine) ls books"
  using ps(1,2) ls
proof (induction raw ms arbitrary: k ls rule: list_all2_induct)
  case Nil
  then show ?case by (auto intro: exI [where x = "[]"])
next
  case (Cons l raw m ms)
  obtain l' ls' where l': "build_line D H doc (k, m) = Inr l'" "ls = l' # ls'"
    "mapE (build_line D H doc) (enumerate (Suc k) ms) = Inr ls'"
    using Cons.prems(2) by (auto simp: bindE_Inr_iff)
  have lb: "line_bounded l" using Cons.prems(1) by simp
  obtain q where q: "text_amount (li_net m) q" "scaled 9 q" "q \<noteq> 0" "\<bar>q\<bar> \<le> 10 ^ 18"
    using parsed_line_amounts(1) [OF Cons.hyps(1) lb] by blast
  obtain taxes where t: "line_books n (dp_direction (document_kind_policy (di_kind doc))) l' (q, taxes)"
    "sl_type l' = li_type m" "di_kind doc = SalesInvoice \<longrightarrow> 0 < q"
    "q < 0 \<longrightarrow> li_type m = Some AdjustmentLine"
    using build_line_books [OF l'(1) q n parsed_line_amounts(2) [OF Cons.hyps(1) lb]] by blast
  obtain books where "list_all2 (line_books n (dp_direction (document_kind_policy (di_kind doc)))) ls' books"
    "di_kind doc = SalesInvoice \<longrightarrow> (\<forall>b \<in> set books. 0 < fst b)"
    "list_all2 (\<lambda>l b. fst b < 0 \<longrightarrow> sl_type l = Some AdjustmentLine) ls' books"
    using Cons.IH [OF _ l'(3)] Cons.prems(1) by auto
  then show ?case using t l'(2) by (intro exI [where x = "(q, taxes) # books"]) auto
qed

lemma supported_currency:
  "is_quantized_money D (TextIn ''0'') c = Inr b \<Longrightarrow> \<exists>n. minor_units c = Inr n"
  by (auto simp: is_quantized_money_def quantize_money_def bindE_Inr_iff simp del: exact.simps)

lemma money_string_whole:
  assumes "money_string D (DecIn d) c = Inr t" "dec_finite D d" "minor_units c = Inr n" "scaled n (val d)"
  shows "text_amount t (val d)"
  using money_string_text [of "DecIn d" d c n] assms by (simp add: half_up_id)

text \<open>A snapshot that was built has books.\<close>

lemma built_document_books:
  assumes ok: "build_document_snapshot F D H i functional = Inr s" and bounded: "amounts_bounded i"
  shows "\<exists>n books. minor_units (ds_currency s) = Inr n \<and> document_books n s books"
  using ok
proof (cases rule: build_document_Inr)
  case (1 doc ls subtotal tax_total self_total t gross_shown net_shown tax_shown rate)
  let ?dir = "dp_direction (document_kind_policy (di_kind doc))"
  let ?gross = "dec_minus D (dec_plus D subtotal tax_total) self_total"
  obtain n where n: "minor_units (di_currency doc) = Inr n" using supported_currency [OF 1(4)] by blast
  have n9: "n \<le> 9" using minor_units_le_3 [OF n] by simp
  have ps: "list_all2 (\<lambda>l m. parse_line_input F D l = Some m) (di_lines i) (di_lines doc)"
    "length (di_lines doc) \<le> 200"
    using 1(1) by (auto simp: parse_document_input_def parse_document_fields_def bind_eq_Some_conv parse_all_Some_iff)
  obtain books where b: "list_all2 (line_books n ?dir) ls books"
    "di_kind doc = SalesInvoice \<longrightarrow> (\<forall>b \<in> set books. 0 < fst b)"
    "list_all2 (\<lambda>l b. fst b < 0 \<longrightarrow> sl_type l = Some AdjustmentLine) ls books"
    using build_lines_books [OF 1(3) ps(1) _ n] bounded by (auto simp: amounts_bounded_def)
  have len: "length ls \<le> 200" using mapE_Inr_length [OF 1(3)] ps(2) by simp
  note tot = document_totals [OF b(1) n9 len 1(6-8)]
  have due: "0 < document_due ls books" using 1(9,10) tot(3,6) by auto
  note p = parse_document_snapshot_Some [OF 1(14)]
  have same: "list_all2 (\<lambda>l m. parse_snapshot_line F D l = Some m) ls (ds_lines s)" using p(8) 1(16) by simp
  have lb: "list_all2 (line_books n ?dir) (ds_lines s) books"
    using same b(1)
    by (induction arbitrary: books rule: list_all2_induct)
      (auto simp: list_all2_Cons1 parse_snapshot_line_same)
  have dd: "document_due (ds_lines s) books = document_due ls books"
    using same unfolding document_due_def
    by (induction arbitrary: books rule: list_all2_induct)
      (auto simp: zip_Cons1 parse_snapshot_line_same split: list.splits)
  have ty: "list_all2 (\<lambda>l b. fst b < 0 \<longrightarrow> sl_type l = Some AdjustmentLine) (ds_lines s) books"
    using same b(3)
    by (induction arbitrary: books rule: list_all2_induct)
      (auto simp: list_all2_Cons1 parse_snapshot_line_same)
  have "document_books n s books"
    unfolding document_books_def
    using lb dd due ty b(2) p(1-6) 1(15-20) len list_all2_lengthD [OF same] tot
      money_string_whole [OF 1(11) tot(1) n] money_string_whole [OF 1(12) tot(2) n]
      money_string_whole [OF 1(13) tot(3) n] by simp
  then show ?thesis using n p(2) 1(17) by auto
qed

end

lemma parse_snapshot_line_tax:
  assumes "parse_snapshot_line F D l = Some m" "parse_tax_input F D (sl_tax l) = Some (sl_tax l)"
  shows "m = l"
  using assms by (auto simp: parse_snapshot_line_def bind_eq_Some_conv)

context decimal_lib
begin

text \<open>Every line of a built snapshot carries the decision its own tax input and facts give.\<close>

lemma built_line_current:
  assumes b: "build_line D H doc (k, m) = Inr l" and m: "parse_line_input F D raw = Some m" "line_bounded raw"
    and n: "minor_units (di_currency doc) = Inr n"
  shows "decide_line_tax D (sl_tax l) (td_facts (sl_decision l)) = Inr (sl_decision l)
    \<and> sl_hash l = H (sl_decision l) \<and> parse_tax_input F D (sl_tax l) = Some (sl_tax l)"
  using b
proof (cases rule: build_line_Inr)
  case (1 net facts decision shown)
  obtain q where q: "text_amount (li_net m) q" "scaled 9 q" "q \<noteq> 0" "\<bar>q\<bar> \<le> 10 ^ 18"
    using parsed_line_amounts(1) [OF m] by blast
  have v: "val net = q" using exact_text [OF q(1)] 1(2) by auto
  have sc: "scaled n q" using 1(1) is_quantized_iff [OF 1(2) n] v by simp
  note facts = build_tax_facts_Inr [OF 1(5) q(1) sc n]
  have fq: "text_amount (tf_basis facts) q" and fc: "minor_units (tf_currency facts) = Inr n"
    using facts n by simp_all
  have "td_facts decision = facts"
    using decide_line_tax_ok [OF 1(6) fq q(2,4) fc parsed_line_amounts(2) [OF m]] by blast
  moreover have "parse_tax_input F D (li_tax m) = Some (li_tax m)"
    using normalisesD [OF normalises_tax parse_line_input_fields(2) [OF m(1)]] .
  ultimately show ?thesis using 1(6,9) by simp
qed

lemma built_lines_current:
  assumes "mapE (build_line D H doc) (enumerate k ms) = Inr ls"
    and "list_all2 (\<lambda>l m. parse_line_input F D l = Some m) raw ms" "list_all line_bounded raw"
    and "minor_units (di_currency doc) = Inr n" "l \<in> set ls"
  shows "decide_line_tax D (sl_tax l) (td_facts (sl_decision l)) = Inr (sl_decision l)
    \<and> sl_hash l = H (sl_decision l) \<and> parse_tax_input F D (sl_tax l) = Some (sl_tax l)"
  using assms(2,3,1,5)
proof (induction raw ms arbitrary: k ls rule: list_all2_induct)
  case (Cons r raw m ms)
  obtain l' ls' where l': "build_line D H doc (k, m) = Inr l'" "ls = l' # ls'"
    "mapE (build_line D H doc) (enumerate (Suc k) ms) = Inr ls'"
    using Cons.prems(2) by (auto simp: bindE_Inr_iff)
  then show ?case
    using built_line_current [OF l'(1) Cons.hyps(1) _ assms(4)] Cons.IH [OF _ l'(3)] Cons.prems(1,3) by auto
qed auto

lemma built_document_current:
  assumes ok: "build_document_snapshot F D H i functional = Inr s" and bounded: "amounts_bounded i"
  shows "assert_snapshot_tax_current D H s = Inr () \<longleftrightarrow>
    (\<forall>l \<in> set (ds_lines s). td_status (sl_decision l) \<noteq> ManualReviewRequired)"
  using ok
proof (cases rule: build_document_Inr)
  case (1 doc ls subtotal tax_total self_total t gross_shown net_shown tax_shown rate)
  obtain n where n: "minor_units (di_currency doc) = Inr n" using supported_currency [OF 1(4)] by blast
  have ps: "list_all2 (\<lambda>l m. parse_line_input F D l = Some m) (di_lines i) (di_lines doc)"
    using 1(1) by (auto simp: parse_document_input_def parse_document_fields_def bind_eq_Some_conv parse_all_Some_iff)
  note cur = built_lines_current [OF 1(3) ps bounded [unfolded amounts_bounded_def] n]
  have "list_all2 (\<lambda>l m. parse_snapshot_line F D l = Some m) ls (ds_lines s)"
    using parse_document_snapshot_Some(8) [OF 1(14)] 1(16) by simp
  then have "list_all2 (\<lambda>l m. l = m) ls (ds_lines s)"
    by (rule list.rel_mono_strong) (use cur parse_snapshot_line_tax in blast)
  then have "ds_lines s = ls" using list_all2_eq [of ls "ds_lines s"] by simp
  then show ?thesis
    using cur by (auto simp: assert_snapshot_tax_current_def foldE_unit_iff throw_if_def)
qed

end

text \<open>The currencies and the rate of a built snapshot.\<close>

lemma plain_value_trim: "plain_value s = Some q \<Longrightarrow> trim s = s"
proof -
  assume v: "plain_value s = Some q"
  have "list_all (\<lambda>c. is_digit c \<or> c = CHR ''.'' \<or> c = CHR ''-'') s"
  proof (cases s)
    case (Cons c t)
    show ?thesis
    proof (cases "c = CHR ''-''")
      case True
      then obtain r where "unsigned_value t = Some r" using v Cons by (auto simp: plain_value_def)
      from unsigned_value_shape(1) [OF this] show ?thesis using Cons True by (auto simp: list_all_iff)
    next
      case False
      then have "unsigned_value s = Some q" using v Cons by (auto simp: plain_value_def)
      from unsigned_value_shape(1) [OF this] show ?thesis by (auto simp: list_all_iff)
    qed
  qed simp
  moreover have "is_digit c \<or> c = CHR ''.'' \<or> c = CHR ''-'' \<Longrightarrow> \<not> is_space c" for c
    using is_digit_not_space [of c] by (auto simp: is_space_def)
  ultimately have "list_all (\<lambda>c. \<not> is_space c) s" by (auto simp: list_all_iff)
  then show ?thesis by (rule trim_id)
qed

context decimal_lib
begin

lemma built_document_currencies:
  assumes ok: "build_document_snapshot F D H i functional = Inr s"
  shows "\<exists>m r. minor_units (ds_functional s) = Inr m \<and> text_amount (fx_rate (ds_fx s)) r
    \<and> (ds_currency s = ds_functional s \<longrightarrow> r = 1)
    \<and> (tax_mapping_required (ds_lines s) \<longrightarrow> truthy (ds_tax_account s))"
  using ok
proof (cases rule: build_document_Inr)
  case (1 doc ls subtotal tax_total self_total t gross_shown net_shown tax_shown rate)
  note p = parse_document_snapshot_Some [OF 1(14)]
  have fin: "dec_finite D rate" by (rule exact_finite [OF 1(25)])
  have v: "plain_value (dec_plain D rate) = Some (val rate)" by (rule plain_value_plain [OF fin])
  have "fx_rate (ds_fx s) = trim (dec_plain D rate)"
    using p(9) 1(27)
    by (auto simp: parse_fx_snapshot_def parse_fx_fields_def positive_rate_def trimmed_match_def bind_eq_Some_conv)
  then have rate: "text_amount (fx_rate (ds_fx s)) (val rate)" using v plain_value_trim [OF v] by simp
  have one: "ds_currency s = ds_functional s \<longrightarrow> val rate = 1" using 1(17,21,26) p(2,3) fin by auto
  have "list_all2 (\<lambda>l m. parse_snapshot_line F D l = Some m) ls (ds_lines s)" using p(8) 1(16) by simp
  then have "tax_mapping_required (ds_lines s) = tax_mapping_required ls"
    unfolding tax_mapping_required_def
    by (induction rule: list_all2_induct) (auto simp: parse_snapshot_line_same)
  then show ?thesis using supported_currency [OF 1(5)] rate one 1(21-23) p(3,11) by auto
qed

end

section \<open>Properties\<close>

text \<open>
  C27. A document's amounts reconcile.  When a snapshot is built from a request, every
  line has whole minor units of net amount and of each tax component, the components add
  up to the line's tax, the subtotal and tax total are the sums over the lines, and the
  gross total is their sum less the tax the buyer assesses on itself, and positive.
  Sales lines are positive, and a negative bill line is marked as an adjustment.
\<close>

theorem built_document_reconciles:
  assumes "decimal_lib D val rnd" and "build_document_snapshot F D H i functional = Inr s"
    and "amounts_bounded i"
  shows "\<exists>n books. minor_units (ds_currency s) = Inr n \<and> document_books n s books"
  by (rule decimal_lib.built_document_books [OF assms])

text \<open>
  C28. A new document can be issued under the rules it was drafted under.  The check the
  issue command makes of a snapshot's tax decisions (they are recomputed and their hashes
  compared) passes for a snapshot just built exactly when no line awaits a manual review.
\<close>

theorem built_document_is_current:
  assumes "decimal_lib D val rnd" and "build_document_snapshot F D H i functional = Inr s"
    and "amounts_bounded i"
  shows "assert_snapshot_tax_current D H s = Inr () \<longleftrightarrow>
    (\<forall>l \<in> set (ds_lines s). td_status (sl_decision l) \<noteq> ManualReviewRequired)"
  by (rule decimal_lib.built_document_current [OF assms])

section \<open>An example\<close>

definition example_hash :: "tax_decision \<Rightarrow> string" where
  "example_hash d = replicate 64 (CHR ''a'')"

definition example_bill :: document_input where
  "example_bill = example_document\<lparr>di_source_number := ''BILL-7'', di_currency := ''CAD'',
     di_lines := [\<lparr>li_description = ''paper'', li_account = ''acc-1'', li_net = ''100.55'', li_type = None,
       li_tax = example_tax_input\<lparr>ti_rounding := None\<rparr>\<rparr>]\<rparr>"

definition example_line_decision :: tax_decision where
  "example_line_decision = \<lparr>td_status = Applied, td_pack_key = ''ca.on.hst'', td_pack_version = ''2026.08.26'',
     td_rule_key = ''on-hst-input-standard'', td_jurisdiction = ''CA-ON'',
     td_effective_from = ''2016-07-01'', td_effective_to = None,
     td_facts = example_facts\<lparr>tf_tax_point := ''2026-03-02''\<rparr>,
     td_components = [
       \<lparr>tc_key = ''HST_RECOVERABLE'', tc_rate = ''0.13'', tc_amount = ''4.35'', tc_treatment = Recoverable\<rparr>,
       \<lparr>tc_key = ''HST_NONRECOVERABLE'', tc_rate = ''0.13'', tc_amount = ''8.72'', tc_treatment = Nonrecoverable\<rparr>],
     td_total_tax = ''13.07'', td_source = ontario_source, td_review_reason = None, td_source_override = None\<rparr>"

definition example_snapshot :: document_snapshot where
  "example_snapshot = \<lparr>ds_kind = SupplierBill, ds_owner = Payables,
     ds_source_type = ''payables.supplier-bill'', ds_source_number = ''BILL-7'', ds_ledger = ''l'',
     ds_entity = ''e'', ds_party = ''p'', ds_control = ''ap'', ds_tax_account = Some ''tax'',
     ds_rounding_account = Some ''fxr'', ds_document_date = ''2026-03-02'',
     ds_accounting_date = ''2026-03-02'', ds_period = ''per'', ds_due = ''2026-04-01'',
     ds_currency = ''CAD'', ds_functional = ''USD'',
     ds_fx = \<lparr>fx_rate = ''0.729288'', fx_source = ''desk'', fx_effective_at = ''2026-03-02T00:00:00Z'',
       fx_prov = None\<rparr>,
     ds_description = ''stationery'',
     ds_lines = [\<lparr>sl_number = 1, sl_description = ''paper'', sl_account = ''acc-1'', sl_net = ''100.55'',
       sl_type = None, sl_tax = example_tax_input\<lparr>ti_rounding := None\<rparr>,
       sl_decision = example_line_decision, sl_hash = example_hash example_line_decision\<rparr>],
     ds_subtotal = ''100.55'', ds_tax_total = ''13.07'', ds_gross = ''113.62'',
     ds_gross_functional = ''82.86'', ds_evidence = None\<rparr>"

lemma example_snapshot_built:
  "build_document_snapshot example_formats ref_api example_hash example_bill ''usd'' = Inr example_snapshot"
  by code_simp

lemma example_bounded: "amounts_bounded example_bill"
  by code_simp

theorem built_document_reconciles_witness:
  "\<exists>n books. minor_units (ds_currency example_snapshot) = Inr n \<and> document_books n example_snapshot books"
  by (rule built_document_reconciles [OF refdec.decimal_lib_axioms example_snapshot_built example_bounded])

theorem built_document_is_current_witness:
  "assert_snapshot_tax_current ref_api example_hash example_snapshot = Inr ()"
proof -
  have "\<forall>l \<in> set (ds_lines example_snapshot). td_status (sl_decision l) \<noteq> ManualReviewRequired"
    by (simp add: example_snapshot_def example_line_decision_def)
  then show ?thesis
    using built_document_is_current [OF refdec.decimal_lib_axioms example_snapshot_built example_bounded] by simp
qed

end
