(* ===== verification/JournalLines.thy ===== *)
theory JournalLines
  imports DocumentModel
begin

text \<open>
  \<open>subledger/journal-line-builders.ts\<close>: the journal lines of an issued document.  The
  lines carry amounts as the texts that go to the database.  The main lemma is that the
  lines built from the books of a document balance: exactly in the functional currency,
  and, apart from the line that takes up conversion rounding, in the document currency.
\<close>

section \<open>Definitions\<close>

datatype side = Debit | Credit

record journal_line =
  ln_account :: string
  ln_debit_functional :: string
  ln_credit_functional :: string
  ln_currency :: string
  ln_debit_transaction :: string
  ln_credit_transaction :: string
  ln_rate :: string
  ln_rate_source :: string
  ln_rate_effective :: string
  ln_party :: "string option"
  ln_event :: "string option"
  ln_tax_snapshot :: "string option"
  ln_memo :: string

text \<open>The argument object of \<open>transactionLine\<close>; \<open>signedTransactionLine\<close> takes the same without \<open>tr_functional\<close>.\<close>

record 'd line_request =
  tr_side :: side
  tr_account :: string
  tr_amount :: "'d dec_input"
  tr_currency :: string
  tr_rate :: "'d dec_input"
  tr_functional_currency :: string
  tr_rate_source :: string
  tr_rate_effective :: string
  tr_functional :: "'d dec_input option"
  tr_party :: "string option"
  tr_event :: "string option"
  tr_tax_snapshot :: "string option"
  tr_memo :: string

datatype journal_error =
    JournalMoney money_error
  | LineNotPositive
  | RoundingAccountMissing
  | TaxSnapshotMissing nat
  | TaxAccountMissing

abbreviation jrnm :: "money_error + 'a \<Rightarrow> journal_error + 'a" where
  "jrnm \<equiv> map_errorE JournalMoney"

text \<open>\<open>a.times(v)\<close>: the argument is read as \<open>new Decimal(v)\<close>, without a check that it is finite.\<close>

fun times_input :: "'d decimal_api \<Rightarrow> 'd \<Rightarrow> 'd dec_input \<Rightarrow> money_error + 'd" where
  "times_input D a (DecIn b) = Inr (dec_times D a b)"
| "times_input D a (TextIn s) = times_literal D a s"
| "times_input D a (NumIn i) = Inr (dec_times D a (dec_int D i))"

definition tax_treatment_amount ::
  "'d decimal_api \<Rightarrow> snapshot_line \<Rightarrow> tax_treatment \<Rightarrow> money_error + 'd" where
  "tax_treatment_amount D l t =
     sum_exact D (map (\<lambda>c. TextIn (tc_amount c)) (filter (\<lambda>c. tc_treatment c = t) (decision_components l)))"

definition transaction_line :: "'d decimal_api \<Rightarrow> 'd line_request \<Rightarrow> journal_error + journal_line" where
  "transaction_line D r =
     bindE (jrnm (money_string D (tr_amount r) (tr_currency r))) (\<lambda>transaction.
     bindE (jrnm (case tr_functional r of
         None \<Rightarrow> bindE (exact D (TextIn transaction)) (\<lambda>t.
                 bindE (times_input D t (tr_rate r)) (\<lambda>p. money_string D (DecIn p) (tr_functional_currency r)))
       | Some f \<Rightarrow> money_string D f (tr_functional_currency r))) (\<lambda>functional.
     bindE (jrnm (exact D (TextIn transaction))) (\<lambda>t.
     bindE (require (dec_gt D t (dec_int D 0)) LineNotPositive) (\<lambda>_.
     bindE (jrnm (exact D (TextIn functional))) (\<lambda>f.
     bindE (require (dec_gt D f (dec_int D 0)) LineNotPositive) (\<lambda>_.
     bindE (jrnm (exact D (tr_rate r))) (\<lambda>rate.
     Inr \<lparr>ln_account = tr_account r,
       ln_debit_functional = (if tr_side r = Debit then functional else ''0''),
       ln_credit_functional = (if tr_side r = Credit then functional else ''0''),
       ln_currency = tr_currency r,
       ln_debit_transaction = (if tr_side r = Debit then transaction else ''0''),
       ln_credit_transaction = (if tr_side r = Credit then transaction else ''0''),
       ln_rate = dec_plain D rate, ln_rate_source = tr_rate_source r,
       ln_rate_effective = tr_rate_effective r, ln_party = tr_party r, ln_event = tr_event r,
       ln_tax_snapshot = tr_tax_snapshot r, ln_memo = tr_memo r\<rparr>)))))))"

fun other_side :: "side \<Rightarrow> side" where
  "other_side Debit = Credit"
| "other_side Credit = Debit"

definition signed_transaction_line :: "'d decimal_api \<Rightarrow> 'd line_request \<Rightarrow> journal_error + journal_line" where
  "signed_transaction_line D r =
     bindE (jrnm (exact D (tr_amount r))) (\<lambda>amount.
     transaction_line D (r\<lparr>tr_side := (if dec_is_neg D amount then other_side (tr_side r) else tr_side r),
       tr_amount := DecIn (dec_abs D amount)\<rparr>))"

record balance_request =
  br_functional :: string
  br_account :: "string option"
  br_effective :: string
  br_memo :: string

definition balance_journal_lines ::
  "'d decimal_api \<Rightarrow> journal_line list \<Rightarrow> balance_request \<Rightarrow> journal_error + journal_line list" where
  "balance_journal_lines D ls b =
     bindE (jrnm (sum_exact D (map (\<lambda>l. TextIn (ln_debit_functional l)) ls))) (\<lambda>debits.
     bindE (jrnm (sum_exact D (map (\<lambda>l. TextIn (ln_credit_functional l)) ls))) (\<lambda>credits.
     let difference = dec_minus D debits credits in
     if dec_is_zero D difference then Inr ls
     else
       bindE (require (truthy (br_account b)) RoundingAccountMissing) (\<lambda>_.
       bindE (transaction_line D \<lparr>tr_side = (if dec_is_pos D difference then Credit else Debit),
         tr_account = or_else (br_account b) [], tr_amount = DecIn (dec_abs D difference),
         tr_currency = br_functional b, tr_rate = TextIn ''1'', tr_functional_currency = br_functional b,
         tr_rate_source = ''SYSTEM_FX_ROUNDING'', tr_rate_effective = br_effective b,
         tr_functional = None, tr_party = None, tr_event = None, tr_tax_snapshot = None,
         tr_memo = br_memo b\<rparr>) (\<lambda>rounding.
       Inr (ls @ [rounding])))))"

text \<open>\<open>policy.partyRole.toLowerCase()\<close>\<close>

fun party_role_text :: "party_role \<Rightarrow> string" where
  "party_role_text CustomerParty = ''customer''"
| "party_role_text SupplierParty = ''supplier''"

text \<open>What every line of a document shares.\<close>

definition document_line_request ::
  "document_snapshot \<Rightarrow> side \<Rightarrow> string \<Rightarrow> 'd dec_input \<Rightarrow> string option \<Rightarrow> string \<Rightarrow> 'd line_request" where
  "document_line_request s sd account amount tax_snapshot memo =
     \<lparr>tr_side = sd, tr_account = account, tr_amount = amount, tr_currency = ds_currency s,
      tr_rate = TextIn (fx_rate (ds_fx s)), tr_functional_currency = ds_functional s,
      tr_rate_source = fx_source (ds_fx s), tr_rate_effective = fx_effective_at (ds_fx s),
      tr_functional = None, tr_party = None, tr_event = None, tr_tax_snapshot = tax_snapshot,
      tr_memo = memo\<rparr>"

definition control_line ::
  "'d decimal_api \<Rightarrow> document_snapshot \<Rightarrow> string \<Rightarrow> journal_error + journal_line" where
  "control_line D s event =
     transaction_line D
       ((document_line_request s (if ds_kind s = SalesInvoice then Debit else Credit) (ds_control s)
          (TextIn (ds_gross s)) None
          (ds_source_number s @ '' '' @ party_role_text (dp_role (document_kind_policy (ds_kind s))) @ '' control''))
        \<lparr>tr_party := Some (ds_party s), tr_event := Some event\<rparr>)"

text \<open>The body of the loop over the source lines: the lines it pushes.\<close>

definition sales_line_entries ::
  "'d decimal_api \<Rightarrow> document_snapshot \<Rightarrow> string \<Rightarrow> snapshot_line \<Rightarrow> 'd \<Rightarrow> journal_error + journal_line list" where
  "sales_line_entries D s tax_snapshot l payable =
     bindE (transaction_line D (document_line_request s Credit (sl_account l) (TextIn (sl_net l)) None
       (sl_description l))) (\<lambda>revenue.
     if dec_gt D payable (dec_int D 0) then
       bindE (require (truthy (ds_tax_account s)) TaxAccountMissing) (\<lambda>_.
       bindE (transaction_line D (document_line_request s Credit (or_else (ds_tax_account s) [])
         (DecIn payable) (Some tax_snapshot) (sl_description l @ '' tax payable''))) (\<lambda>tax.
       Inr [revenue, tax]))
     else Inr [revenue])"

definition signed_tax_entry ::
  "'d decimal_api \<Rightarrow> document_snapshot \<Rightarrow> string \<Rightarrow> side \<Rightarrow> 'd \<Rightarrow> string \<Rightarrow> journal_error + journal_line list" where
  "signed_tax_entry D s tax_snapshot sd amount memo =
     (if dec_is_zero D amount then Inr []
      else
        bindE (require (truthy (ds_tax_account s)) TaxAccountMissing) (\<lambda>_.
        bindE (signed_transaction_line D (document_line_request s sd (or_else (ds_tax_account s) [])
          (DecIn amount) (Some tax_snapshot) memo)) (\<lambda>tax. Inr [tax])))"

definition bill_line_entries ::
  "'d decimal_api \<Rightarrow> document_snapshot \<Rightarrow> string \<Rightarrow> snapshot_line \<Rightarrow> 'd \<Rightarrow> 'd \<Rightarrow> 'd \<Rightarrow> journal_error + journal_line list" where
  "bill_line_entries D s tax_snapshot l recoverable nonrecoverable self_assessed =
     bindE (jrnm (exact D (TextIn (sl_net l)))) (\<lambda>net.
     bindE (signed_transaction_line D (document_line_request s Debit (sl_account l)
       (DecIn (dec_plus D (dec_plus D net nonrecoverable) self_assessed))
       (if \<not> dec_is_zero D (dec_plus D nonrecoverable self_assessed) then Some tax_snapshot else None)
       (sl_description l))) (\<lambda>cost.
     bindE (signed_tax_entry D s tax_snapshot Debit recoverable (sl_description l @ '' recoverable tax''))
       (\<lambda>recovered.
     bindE (signed_tax_entry D s tax_snapshot Credit self_assessed
       (sl_description l @ '' self-assessed use tax payable'')) (\<lambda>assessed.
     Inr (cost # recovered @ assessed)))))"

definition source_line_entries ::
  "'d decimal_api \<Rightarrow> document_snapshot \<Rightarrow> (nat \<Rightarrow> string option) \<Rightarrow> snapshot_line \<Rightarrow> journal_error + journal_line list" where
  "source_line_entries D s tax_snapshots l =
     (let tax_snapshot = tax_snapshots (sl_number l) in
      bindE (require (truthy tax_snapshot) (TaxSnapshotMissing (sl_number l))) (\<lambda>_.
      bindE (jrnm (tax_treatment_amount D l Payable)) (\<lambda>payable.
      bindE (jrnm (tax_treatment_amount D l Recoverable)) (\<lambda>recoverable.
      bindE (jrnm (tax_treatment_amount D l Nonrecoverable)) (\<lambda>nonrecoverable.
      bindE (jrnm (tax_treatment_amount D l SelfAssessedPayable)) (\<lambda>self_assessed.
      if ds_kind s = SalesInvoice then sales_line_entries D s (or_else tax_snapshot []) l payable
      else bill_line_entries D s (or_else tax_snapshot []) l recoverable nonrecoverable self_assessed))))))"

definition build_issue_journal_lines ::
  "'d decimal_api \<Rightarrow> document_snapshot \<Rightarrow> string \<Rightarrow> (nat \<Rightarrow> string option) \<Rightarrow> journal_error + journal_line list" where
  "build_issue_journal_lines D s event tax_snapshots =
     bindE (control_line D s event) (\<lambda>control.
     bindE (mapE (source_line_entries D s tax_snapshots) (ds_lines s)) (\<lambda>entries.
     balance_journal_lines D (control # concat entries)
       \<lparr>br_functional = ds_functional s, br_account = ds_rounding_account s,
        br_effective = fx_effective_at (ds_fx s), br_memo = ds_source_number s @ '' FX conversion rounding''\<rparr>))"

section \<open>What the lines promise\<close>

text \<open>The value of an amount text, and the signed amounts of a line.\<close>

definition text_value :: "string \<Rightarrow> rat" where
  "text_value s = (case plain_value s of None \<Rightarrow> 0 | Some q \<Rightarrow> q)"

definition line_functional :: "journal_line \<Rightarrow> rat" where
  "line_functional l = text_value (ln_debit_functional l) - text_value (ln_credit_functional l)"

definition line_transaction :: "journal_line \<Rightarrow> rat" where
  "line_transaction l = text_value (ln_debit_transaction l) - text_value (ln_credit_transaction l)"

text \<open>
  One side of the line is zero, the other is positive in both currencies, and the
  functional amount is the transaction amount at the line's rate, rounded to the
  functional currency's \<open>m\<close> places.
\<close>

definition line_converts :: "(rat \<Rightarrow> rat) \<Rightarrow> nat \<Rightarrow> journal_line \<Rightarrow> bool" where
  "line_converts rnd m l \<longleftrightarrow> (\<exists>t f r. 0 < t \<and> 0 < f \<and> text_amount (ln_rate l) r \<and> f = half_up m (rnd (t * r))
     \<and> ((text_amount (ln_debit_transaction l) t \<and> text_amount (ln_debit_functional l) f
           \<and> ln_credit_transaction l = ''0'' \<and> ln_credit_functional l = ''0'')
      \<or> (text_amount (ln_credit_transaction l) t \<and> text_amount (ln_credit_functional l) f
           \<and> ln_debit_transaction l = ''0'' \<and> ln_debit_functional l = ''0'')))"

definition side_sign :: "side \<Rightarrow> rat" where
  "side_sign s = (if s = Debit then 1 else - 1)"

section \<open>Lemmas\<close>

lemma side_sign_simps [simp]: "side_sign Debit = 1" "side_sign Credit = - 1" "side_sign (other_side s) = - side_sign s"
  by (cases s; simp add: side_sign_def)+

lemma text_value [simp]: "text_amount s q \<Longrightarrow> text_value s = q"
  by (simp add: text_value_def)

lemma zero_text: "text_amount ''0'' 0"
  by code_simp

lemma plain_one: "text_amount ''1'' 1"
  by code_simp

lemma text_value_zero [simp]: "text_value ''0'' = 0"
  using zero_text by simp

text \<open>A line that converts has numbers on both sides.\<close>

lemma line_converts_texts:
  assumes "line_converts rnd m l"
  shows "text_amount (ln_debit_functional l) (text_value (ln_debit_functional l))"
    "text_amount (ln_credit_functional l) (text_value (ln_credit_functional l))"
    "scaled m (text_value (ln_debit_functional l))" "scaled m (text_value (ln_credit_functional l))"
    "text_value (ln_debit_functional l) = max 0 (line_functional l)"
    "text_value (ln_credit_functional l) = max 0 (- line_functional l)"
  using assms zero_text unfolding line_converts_def line_functional_def
  by (elim exE conjE disjE; force)+

lemma self_component_sum:
  "sum_list (map snd (filter (\<lambda>(c, a). tc_treatment c = t) (zip cs as))) = treatment_total t cs as"
  by (simp add: treatment_total_def)

context decimal_lib
begin

lemma times_input_val:
  assumes "exact D v = Inr b" shows "times_input D a v = Inr (dec_times D a b)"
  using assms by (cases v) (auto simp: check_finite_def times_literal_def split: if_splits option.splits)

lemma transaction_line_Inr:
  assumes "transaction_line D r = Inr l"
  obtains transaction functional t f rate where
    "money_string D (tr_amount r) (tr_currency r) = Inr transaction"
    "(case tr_functional r of
         None \<Rightarrow> bindE (exact D (TextIn transaction)) (\<lambda>t.
                 bindE (times_input D t (tr_rate r)) (\<lambda>p. money_string D (DecIn p) (tr_functional_currency r)))
       | Some f \<Rightarrow> money_string D f (tr_functional_currency r)) = Inr functional"
    "exact D (TextIn transaction) = Inr t" "dec_gt D t (dec_int D 0)"
    "exact D (TextIn functional) = Inr f" "dec_gt D f (dec_int D 0)" "exact D (tr_rate r) = Inr rate"
    "l = \<lparr>ln_account = tr_account r,
       ln_debit_functional = (if tr_side r = Debit then functional else ''0''),
       ln_credit_functional = (if tr_side r = Credit then functional else ''0''),
       ln_currency = tr_currency r,
       ln_debit_transaction = (if tr_side r = Debit then transaction else ''0''),
       ln_credit_transaction = (if tr_side r = Credit then transaction else ''0''),
       ln_rate = dec_plain D rate, ln_rate_source = tr_rate_source r,
       ln_rate_effective = tr_rate_effective r, ln_party = tr_party r, ln_event = tr_event r,
       ln_tax_snapshot = tr_tax_snapshot r, ln_memo = tr_memo r\<rparr>"
  using assms unfolding transaction_line_def
  by (elim bindE_Inr_iff [THEN iffD1, THEN exE] conjE)
    (auto simp: throw_if_Inr_iff map_errorE_Inr_iff simp del: exact.simps)

text \<open>
  A line without a given functional amount: it is worth its amount on its side, converted
  at its rate.
\<close>

lemma transaction_line_ok:
  assumes ok: "transaction_line D r = Inr l"
    and a: "exact D (tr_amount r) = Inr a" "scaled n (val a)" "minor_units (tr_currency r) = Inr n"
    and m: "minor_units (tr_functional_currency r) = Inr m"
    and f: "tr_functional r = None \<or> (\<exists>g fd rd. tr_functional r = Some g \<and> exact D g = Inr fd \<and> scaled m (val fd)
          \<and> exact D (tr_rate r) = Inr rd \<and> val fd = half_up m (rnd (val a * val rd)))"
  shows "line_converts rnd m l" "line_transaction l = side_sign (tr_side r) * val a"
    "ln_currency l = tr_currency r" "0 < val a"
    "\<exists>rd. exact D (tr_rate r) = Inr rd \<and> line_functional l = side_sign (tr_side r) * half_up m (rnd (val a * val rd))"
proof -
  from ok have "line_converts rnd m l \<and> line_transaction l = side_sign (tr_side r) * val a
    \<and> ln_currency l = tr_currency r \<and> 0 < val a \<and> (\<exists>rd. exact D (tr_rate r) = Inr rd \<and> line_functional l = side_sign (tr_side r) * half_up m (rnd (val a * val rd)))"
  proof (cases rule: transaction_line_Inr)
    case (1 transaction functional t fv rate)
    have tx: "text_amount transaction (val a)"
      using money_string_text [OF a(1,3)] 1(1) half_up_id [OF a(2)] by auto
    have t: "dec_finite D t" "val t = val a" using exact_text [OF tx] 1(3) by auto
    have fin: "dec_finite D rate" by (rule exact_finite [OF 1(7)])
    have fn: "text_amount functional (half_up m (rnd (val a * val rate)))"
    proof (cases "tr_functional r")
      case None
      let ?p = "dec_times D t rate"
      have "money_string D (DecIn ?p) (tr_functional_currency r) = Inr functional"
        using 1(2) None 1(3) times_input_val [OF 1(7)] by (simp del: exact.simps)
      then show ?thesis
        using money_string_text [of "DecIn ?p" ?p "tr_functional_currency r" m] t fin m by (simp add: times_val)
    next
      case (Some g)
      then obtain fd where g: "exact D g = Inr fd" "scaled m (val fd)" "val fd = half_up m (rnd (val a * val rate))"
        using f 1(7) by auto
      then show ?thesis
        using money_string_text [OF g(1) m] 1(2) Some half_up_id [OF g(2)] by auto
    qed
    have fv: "dec_finite D fv" "val fv = half_up m (rnd (val a * val rate))" using exact_text [OF fn] 1(5) by auto
    have pos: "0 < val a" "0 < half_up m (rnd (val a * val rate))" using 1(4,6) t fv by auto
    have "text_amount (ln_rate l) (val rate)" using 1(8) plain_value_plain [OF fin] by simp
    then have "line_converts rnd m l"
      unfolding line_converts_def using tx fn pos 1(8)
      by (intro exI [where x = "val a"] exI [where x = "half_up m (rnd (val a * val rate))"] exI [where x = "val rate"])
        (cases "tr_side r"; simp)
    moreover have "line_transaction l = side_sign (tr_side r) * val a"
      "line_functional l = side_sign (tr_side r) * half_up m (rnd (val a * val rate))"
      using tx fn 1(8) by (cases "tr_side r"; simp add: line_transaction_def line_functional_def)+
    moreover have "ln_currency l = tr_currency r" using 1(8) by simp
    ultimately show ?thesis using pos(1) 1(7) by blast
  qed
  then show "line_converts rnd m l" "line_transaction l = side_sign (tr_side r) * val a"
    "ln_currency l = tr_currency r" "0 < val a"
    "\<exists>rd. exact D (tr_rate r) = Inr rd \<and> line_functional l = side_sign (tr_side r) * half_up m (rnd (val a * val rd))"
    by blast+
qed

lemma signed_transaction_line_ok:
  assumes ok: "signed_transaction_line D r = Inr l"
    and a: "exact D (tr_amount r) = Inr a" "scaled n (val a)" "minor_units (tr_currency r) = Inr n"
    and m: "minor_units (tr_functional_currency r) = Inr m" and f: "tr_functional r = None"
  shows "line_converts rnd m l \<and> line_transaction l = side_sign (tr_side r) * val a \<and> ln_currency l = tr_currency r"
proof -
  have fin: "dec_finite D a" by (rule exact_finite [OF a(1)])
  let ?r = "r\<lparr>tr_side := (if dec_is_neg D a then other_side (tr_side r) else tr_side r),
       tr_amount := DecIn (dec_abs D a)\<rparr>"
  have t: "transaction_line D ?r = Inr l"
    using ok a(1) by (simp add: signed_transaction_line_def del: exact.simps)
  have "line_converts rnd m l" "line_transaction l = side_sign (tr_side ?r) * val (dec_abs D a)"
    "ln_currency l = tr_currency ?r" "0 < val (dec_abs D a)"
    by (rule transaction_line_ok [OF t, where a = "dec_abs D a" and n = n and m = m]; use fin a m f in auto)+
  then show ?thesis using fin by (auto simp: abs_if split: if_splits)
qed

lemma tax_treatment_amount_val:
  assumes "line_books n dir l b" "n \<le> 9"
  shows "\<exists>d. tax_treatment_amount D l t = Inr d \<and> dec_finite D d
    \<and> val d = treatment_total t (decision_components l) (snd b)"
proof -
  have ca: "component_amounts (decision_components l) (snd b)"
    using assms(1) by (simp add: line_books_def case_prod_beta)
  let ?as = "map snd (filter (\<lambda>(c, a). tc_treatment c = t) (zip (decision_components l) (snd b)))"
  have "length ?as \<le> 2"
    by (simp, rule order_trans [OF length_filter_le])
      (use assms(1) in \<open>auto simp: line_books_def case_prod_beta treatments_fit_def\<close>)
  then have "length ?as \<le> 10 ^ 12" by simp
  moreover have "ledger_amount a" if "a \<in> set ?as" for a
    using that line_books_bounds(3) [OF assms] by (auto dest: set_zip_rightD)
  ultimately show ?thesis
    using sum_exact_texts [OF self_component_amounts [OF ca]]
    by (simp add: tax_treatment_amount_def self_component_sum o_def)
qed

end

lemma line_due_scaled:
  assumes "line_books n dir l b" "n \<le> 9" shows "scaled n (line_due l b)"
proof -
  have "length (decision_components l) = length (snd b)" "\<forall>a \<in> set (snd b). scaled n a \<and> same_sign (fst b) a"
    using assms(1) component_amounts_length by (auto simp: line_books_def)
  from treatment_total_props [OF this, of SelfAssessedPayable] show ?thesis
    using line_books_bounds(4,5) [OF assms] by (auto simp: line_due_def case_prod_beta intro: scaled_add scaled_diff)
qed

text \<open>What a list of lines of a document is worth: lines that convert, all in the document's currency.\<close>

definition lines_worth :: "(rat \<Rightarrow> rat) \<Rightarrow> nat \<Rightarrow> string \<Rightarrow> rat \<Rightarrow> journal_line list \<Rightarrow> bool" where
  "lines_worth rnd m currency w ls \<longleftrightarrow>
     (\<forall>l \<in> set ls. line_converts rnd m l \<and> ln_currency l = currency) \<and> sum_list (map line_transaction ls) = w"

lemma lines_worth_Nil [simp]: "lines_worth rnd m c w [] \<longleftrightarrow> w = 0"
  by (auto simp: lines_worth_def)

lemma lines_worth_append:
  "lines_worth rnd m c v xs \<Longrightarrow> lines_worth rnd m c w ys \<Longrightarrow> lines_worth rnd m c (v + w) (xs @ ys)"
  by (auto simp: lines_worth_def)

lemma lines_worth_single:
  "line_converts rnd m l \<Longrightarrow> ln_currency l = c \<Longrightarrow> line_transaction l = w \<Longrightarrow> lines_worth rnd m c w [l]"
  by (auto simp: lines_worth_def)

lemma document_line_request_simps [simp]:
  "tr_side (document_line_request s sd ac am tx me) = sd"
  "tr_amount (document_line_request s sd ac am tx me) = am"
  "tr_currency (document_line_request s sd ac am tx me) = ds_currency s"
  "tr_functional_currency (document_line_request s sd ac am tx me) = ds_functional s"
  "tr_functional (document_line_request s sd ac am tx me) = None"
  by (simp_all add: document_line_request_def)

context decimal_lib
begin

lemma document_line_worth:
  assumes "transaction_line D r = Inr l" "exact D (tr_amount r) = Inr a" "scaled n (val a)"
    and "tr_currency r = ds_currency s" "tr_functional_currency r = ds_functional s" "tr_functional r = None"
    and "minor_units (ds_currency s) = Inr n" "minor_units (ds_functional s) = Inr m"
  shows "lines_worth rnd m (ds_currency s) (side_sign (tr_side r) * val a) [l]"
  using transaction_line_ok [OF assms(1-3), of m] assms(4-8) by (intro lines_worth_single) auto

lemma signed_line_worth:
  assumes "signed_transaction_line D (document_line_request s sd ac (DecIn a) tx me) = Inr l"
    and "dec_finite D a" "scaled n (val a)"
    and "minor_units (ds_currency s) = Inr n" "minor_units (ds_functional s) = Inr m"
  shows "lines_worth rnd m (ds_currency s) (side_sign sd * val a) [l]"
  using signed_transaction_line_ok [OF assms(1), of a n m] assms(2-5) by (intro lines_worth_single) auto

lemma signed_tax_entry_worth:
  assumes "signed_tax_entry D s tx sd a me = Inr ls" "dec_finite D a" "scaled n (val a)"
    and "minor_units (ds_currency s) = Inr n" "minor_units (ds_functional s) = Inr m"
  shows "lines_worth rnd m (ds_currency s) (side_sign sd * val a) ls"
proof (cases "dec_is_zero D a")
  case True
  then show ?thesis using assms(1,2) by (simp add: signed_tax_entry_def)
next
  case False
  then obtain l where "signed_transaction_line D
      (document_line_request s sd (or_else (ds_tax_account s) []) (DecIn a) (Some tx) me) = Inr l" "ls = [l]"
    using assms(1) by (auto simp: signed_tax_entry_def bindE_Inr_iff)
  then show ?thesis using signed_line_worth assms(2-5) by blast
qed

lemma sales_entries_worth:
  assumes ok: "sales_line_entries D s tx l payable = Inr ls"
    and b: "line_books n Sale l b" "0 < fst b" and pay: "dec_finite D payable"
      "val payable = treatment_total Payable (decision_components l) (snd b)"
    and c: "minor_units (ds_currency s) = Inr n" "minor_units (ds_functional s) = Inr m"
  shows "lines_worth rnd m (ds_currency s) (- line_due l b) ls"
proof -
  let ?cs = "decision_components l"
  have len: "length ?cs = length (snd b)" and fit: "treatments_fit Sale ?cs"
    and net: "text_amount (sl_net l) (fst b)" "scaled n (fst b)"
    and taxes: "\<forall>a \<in> set (snd b). scaled n a \<and> same_sign (fst b) a"
    using b(1) component_amounts_length by (auto simp: line_books_def)
  have t: "sum_list (snd b) = val payable"
    using treatment_partition [OF len treatments_fit_disclosure [OF fit]] fit pay(2)
      treatment_total_absent [OF len, of Recoverable] treatment_total_absent [OF len, of Nonrecoverable]
      treatment_total_absent [OF len, of SelfAssessedPayable]
    by (auto simp: treatments_fit_def list_all_iff)
  have due: "line_due l b = fst b + val payable"
    using t treatment_total_absent [OF len, of SelfAssessedPayable] fit
    by (auto simp: line_due_def case_prod_beta treatments_fit_def list_all_iff)
  have pn: "0 \<le> val payable" "scaled n (val payable)"
    using treatment_total_props [OF len taxes, of Payable] pay(2) b(2) by (auto simp: same_sign_def)
  obtain d where d: "exact D (TextIn (sl_net l)) = Inr d" "val d = fst b" using exact_text [OF net(1)] .
  obtain revenue where r: "transaction_line D (document_line_request s Credit (sl_account l)
      (TextIn (sl_net l)) None (sl_description l)) = Inr revenue"
    using ok by (auto simp: sales_line_entries_def bindE_Inr_iff)
  have rw: "lines_worth rnd m (ds_currency s) (- fst b) [revenue]"
    using document_line_worth [OF r, of d n s m] d net(2) c by simp
  show ?thesis
  proof (cases "dec_gt D payable (dec_int D 0)")
    case True
    then obtain taxl where tl: "transaction_line D (document_line_request s Credit (or_else (ds_tax_account s) [])
        (DecIn payable) (Some tx) (sl_description l @ '' tax payable'')) = Inr taxl" "ls = [revenue, taxl]"
      using ok r by (auto simp: sales_line_entries_def bindE_Inr_iff)
    have "lines_worth rnd m (ds_currency s) (- val payable) [taxl]"
      using document_line_worth [OF tl(1), of payable n s m] pay(1) pn(2) c by simp
    from lines_worth_append [OF rw this] show ?thesis using tl(2) due by simp
  next
    case False
    then have "val payable = 0" "ls = [revenue]" using ok r pay(1) pn(1) by (auto simp: sales_line_entries_def)
    then show ?thesis using rw due by simp
  qed
qed

lemma bill_entries_worth:
  assumes ok: "bill_line_entries D s tx l recoverable nonrecoverable assessed = Inr ls"
    and b: "line_books n Purchase l b"
    and fin: "dec_finite D recoverable" "dec_finite D nonrecoverable" "dec_finite D assessed"
    and v: "val recoverable = treatment_total Recoverable (decision_components l) (snd b)"
      "val nonrecoverable = treatment_total Nonrecoverable (decision_components l) (snd b)"
      "val assessed = treatment_total SelfAssessedPayable (decision_components l) (snd b)"
    and c: "minor_units (ds_currency s) = Inr n" "minor_units (ds_functional s) = Inr m"
  shows "lines_worth rnd m (ds_currency s) (line_due l b) ls"
proof -
  let ?cs = "decision_components l"
  have len: "length ?cs = length (snd b)" and fit: "treatments_fit Purchase ?cs"
    and net: "text_amount (sl_net l) (fst b)" "scaled n (fst b)" "\<bar>fst b\<bar> \<le> 10 ^ 18"
    and taxes: "\<forall>a \<in> set (snd b). scaled n a \<and> same_sign (fst b) a" and total: "\<bar>sum_list (snd b)\<bar> \<le> 10 ^ 29"
    using b(1) component_amounts_length by (auto simp: line_books_def)
  have n9: "n \<le> 9" using minor_units_le_3 [OF c(1)] by simp
  have sc: "scaled n (val recoverable)" "scaled n (val nonrecoverable)" "scaled n (val assessed)"
    and sg: "same_sign (fst b) (val recoverable)" "same_sign (fst b) (val nonrecoverable)" "same_sign (fst b) (val assessed)"
    using treatment_total_props [OF len taxes] v by auto
  have "\<forall>c \<in> set ?cs. tc_treatment c \<noteq> Payable"
    using fit by (auto simp: treatments_fit_def list_all_iff)
  then have sum: "sum_list (snd b) = val recoverable + val nonrecoverable + val assessed"
    using treatment_partition [OF len treatments_fit_disclosure [OF fit]] v
      treatment_total_absent [OF len, of Payable] by simp
  then have small: "\<bar>val nonrecoverable\<bar> \<le> 10 ^ 29" "\<bar>val assessed\<bar> \<le> 10 ^ 29"
    using sg total by (auto simp: same_sign_def abs_if split: if_splits)
  obtain d where d: "exact D (TextIn (sl_net l)) = Inr d" "dec_finite D d" "val d = fst b" using exact_text [OF net(1)] .
  let ?cost = "dec_plus D (dec_plus D d nonrecoverable) assessed"
  obtain cost rec_lines as_lines where e:
    "signed_transaction_line D (document_line_request s Debit (sl_account l) (DecIn ?cost)
       (if \<not> dec_is_zero D (dec_plus D nonrecoverable assessed) then Some tx else None) (sl_description l)) = Inr cost"
    "signed_tax_entry D s tx Debit recoverable (sl_description l @ '' recoverable tax'') = Inr rec_lines"
    "signed_tax_entry D s tx Credit assessed (sl_description l @ '' self-assessed use tax payable'') = Inr as_lines"
    "ls = cost # rec_lines @ as_lines"
    using ok d(1) unfolding bill_line_entries_def
    by (elim bindE_Inr_iff [THEN iffD1, THEN exE] conjE) (simp add: map_errorE_Inr_iff del: exact.simps)
  have pw: "(10::rat) ^ 18 \<le> 10 ^ 30" "(10::rat) ^ 29 \<le> 10 ^ 30" by (rule power_increasing; simp)+
  have f1: "fits (fst b + val nonrecoverable)"
    by (rule fits_scaled [of n _ 31]) (use net sc small n9 in \<open>auto intro: scaled_add\<close>)
  have p1: "val (dec_plus D d nonrecoverable) = fst b + val nonrecoverable"
    using d fin f1 by (simp add: plus_exact)
  have f2: "fits (fst b + val nonrecoverable + val assessed)"
    by (rule fits_scaled [of n _ 31]) (use net sc small n9 in \<open>auto intro: scaled_add\<close>)
  have cost: "val ?cost = fst b + val nonrecoverable + val assessed" "scaled n (val ?cost)"
    using d fin f2 p1 net(2) sc by (auto simp: plus_exact intro: scaled_add)
  have w: "lines_worth rnd m (ds_currency s) (val ?cost) [cost]"
    "lines_worth rnd m (ds_currency s) (val recoverable) rec_lines"
    "lines_worth rnd m (ds_currency s) (- val assessed) as_lines"
    using signed_line_worth [OF e(1) _ cost(2) c] signed_tax_entry_worth [OF e(2) fin(1) sc(1) c]
      signed_tax_entry_worth [OF e(3) fin(3) sc(3) c] d fin by simp_all
  have "line_due l b = val ?cost + (val recoverable + - val assessed)"
    using cost(1) sum v(3) by (simp add: line_due_def case_prod_beta)
  then show ?thesis using lines_worth_append [OF w(1) lines_worth_append [OF w(2,3)]] e(4) by simp
qed

end

lemma sales_entries_length: "sales_line_entries D s tx l p = Inr ls \<Longrightarrow> length ls \<le> 3"
  by (auto simp: sales_line_entries_def bindE_Inr_iff split: if_splits)

lemma signed_tax_entry_length: "signed_tax_entry D s tx sd a me = Inr ls \<Longrightarrow> length ls \<le> 1"
  by (auto simp: signed_tax_entry_def bindE_Inr_iff split: if_splits)

lemma bill_entries_length: "bill_line_entries D s tx l r n a = Inr ls \<Longrightarrow> length ls \<le> 3"
  by (auto simp: bill_line_entries_def bindE_Inr_iff dest!: signed_tax_entry_length)

lemma source_entries_length: "source_line_entries D s txs l = Inr ls \<Longrightarrow> length ls \<le> 3"
  by (auto simp: source_line_entries_def Let_def bindE_Inr_iff split: if_splits
      dest: sales_entries_length bill_entries_length)

lemma concat_length_le: "list_all (\<lambda>xs. length xs \<le> k) xss \<Longrightarrow> length (concat xss) \<le> k * length xss"
  by (induction xss) auto

lemma text_value_fit:
  assumes "line_converts rnd m l" "m \<le> 9" "\<bar>line_functional l\<bar> \<le> 10 ^ 33"
  shows "scaled 9 (text_value (ln_debit_functional l)) \<and> \<bar>text_value (ln_debit_functional l)\<bar> \<le> 10 ^ 33"
    "scaled 9 (text_value (ln_credit_functional l)) \<and> \<bar>text_value (ln_credit_functional l)\<bar> \<le> 10 ^ 33"
  using line_converts_texts(3-6) [OF assms(1)] assms(2,3) scaled_le [OF _ assms(2)]
  by (auto simp: max_def abs_if split: if_splits)

lemma wide_sum_bound:
  fixes qs :: "rat list"
  assumes "\<And>q. q \<in> set qs \<Longrightarrow> scaled 9 q \<and> \<bar>q\<bar> \<le> 10 ^ 33" "length qs \<le> 1000"
  shows "\<bar>sum_list qs\<bar> \<le> 10 ^ 36"
proof -
  have "\<bar>sum_list qs\<bar> \<le> of_nat (length qs) * 10 ^ 33"
    using assms(1) by (intro abs_sum_list_bound) blast
  also have "\<dots> \<le> 1000 * 10 ^ 33" using assms(2) by (intro mult_right_mono) auto
  finally show ?thesis by simp
qed

context decimal_lib
begin

text \<open>
  Balancing: the lines come back unchanged, followed by at most one line that takes up the
  difference, and then the debits are the credits.
\<close>

lemma balance_ok:
  assumes ok: "balance_journal_lines D ls b = Inr out"
    and conv: "\<forall>l \<in> set ls. line_converts rnd m l \<and> \<bar>line_functional l\<bar> \<le> 10 ^ 33" "length ls \<le> 1000"
    and m: "minor_units (br_functional b) = Inr m"
  shows "\<exists>rounding. out = ls @ rounding \<and> length rounding \<le> 1 \<and> sum_list (map line_functional out) = 0
    \<and> (\<forall>l \<in> set rounding. line_converts rnd m l \<and> ln_currency l = br_functional b
         \<and> ln_rate_source l = ''SYSTEM_FX_ROUNDING'' \<and> Some (ln_account l) = br_account b)"
proof -
  have m9: "m \<le> 9" and m3: "m \<le> 3" using minor_units_le_3 [OF m] by simp_all
  let ?ds = "map (text_value \<circ> ln_debit_functional) ls" and ?cs = "map (text_value \<circ> ln_credit_functional) ls"
  have texts: "list_all2 text_amount (map ln_debit_functional ls) ?ds" "list_all2 text_amount (map ln_credit_functional ls) ?cs"
    using conv(1) by (auto simp: list_all2_map1 list_all2_map2 list_all2_same dest: line_converts_texts(1,2))
  have led: "\<And>q. q \<in> set ?ds \<Longrightarrow> scaled 9 q \<and> \<bar>q\<bar> \<le> 10 ^ 33"
    "\<And>q. q \<in> set ?cs \<Longrightarrow> scaled 9 q \<and> \<bar>q\<bar> \<le> 10 ^ 33"
    using conv(1) text_value_fit [OF _ m9] by auto
  have lens: "length ?ds \<le> 1000" "length ?cs \<le> 1000"
    using conv(2) by auto
  obtain debits credits where dc: "sum_exact D (map (\<lambda>l. TextIn (ln_debit_functional l)) ls) = Inr debits"
    "dec_finite D debits" "val debits = sum_list ?ds"
    "sum_exact D (map (\<lambda>l. TextIn (ln_credit_functional l)) ls) = Inr credits"
    "dec_finite D credits" "val credits = sum_list ?cs"
    using sum_exact_texts_wide [OF texts(1) led(1) lens(1)] sum_exact_texts_wide [OF texts(2) led(2) lens(2)]
    by (auto simp: o_def)
  note bd = wide_sum_bound [OF led(1) lens(1)] wide_sum_bound [OF led(2) lens(2)]
  let ?diff = "sum_list ?ds - sum_list ?cs" and ?d = "dec_minus D debits credits"
  have sc: "scaled m ?diff"
    using conv(1) line_converts_texts(3,4) by (intro scaled_diff scaled_sum_list) auto
  have small: "\<bar>?diff\<bar> \<le> 10 ^ 37" using bd by simp
  have fit: "fits ?diff" "fits \<bar>?diff\<bar>"
    by (rule fits_scaled [of m _ 37]; use sc small m3 in auto)+
  have d: "dec_finite D ?d" "val ?d = ?diff" using dc fit(1) by (simp_all add: minus_exact)
  have total: "sum_list (map line_functional ls) = ?diff"
    by (induction ls) (simp_all add: line_functional_def algebra_simps)
  show ?thesis
  proof (cases "dec_is_zero D ?d")
    case True
    then have "out = ls" "?diff = 0" using ok dc(1,4) d by (simp_all add: balance_journal_lines_def Let_def)
    then show ?thesis using total by simp
  next
    case False
    let ?r = "\<lparr>tr_side = (if dec_is_pos D ?d then Credit else Debit),
         tr_account = or_else (br_account b) [], tr_amount = DecIn (dec_abs D ?d),
         tr_currency = br_functional b, tr_rate = TextIn ''1'', tr_functional_currency = br_functional b,
         tr_rate_source = ''SYSTEM_FX_ROUNDING'', tr_rate_effective = br_effective b,
         tr_functional = None, tr_party = None, tr_event = None, tr_tax_snapshot = None,
         tr_memo = br_memo b\<rparr>"
    obtain l where l: "transaction_line D ?r = Inr l" "out = ls @ [l]" "truthy (br_account b)"
      using False ok dc(1,4) by (auto simp: balance_journal_lines_def bindE_Inr_iff throw_if_Inr_iff Let_def)
    have ne: "?diff \<noteq> 0" using False d by simp
    have ab: "exact D (tr_amount ?r) = Inr (dec_abs D ?d)" "scaled m (val (dec_abs D ?d))"
      using d sc by (auto intro: scaled_abs)
    obtain one where one: "exact D (TextIn ''1'') = Inr one" "val one = 1"
      using exact_text [of "''1''" 1] plain_one by blast
    note t = transaction_line_ok [OF l(1) ab]
    have f: "line_functional l = side_sign (tr_side ?r) * half_up m (rnd (\<bar>?diff\<bar> * 1))"
      using t(5) [of m] one m d by (auto simp del: exact.simps)
    have "half_up m (rnd (\<bar>?diff\<bar> * 1)) = \<bar>?diff\<bar>"
      using rnd_fits [OF fit(2)] half_up_id [OF scaled_abs [OF sc]] by simp
    then have "line_functional l = - ?diff"
      using f d ne by (auto simp: abs_if)
    moreover have "line_converts rnd m l" using t(1) [of m] m by simp
    moreover have "ln_currency l = br_functional b" "ln_rate_source l = ''SYSTEM_FX_ROUNDING''"
      "Some (ln_account l) = br_account b"
      using l(1,3) by (auto elim!: transaction_line_Inr simp: truthy_def split: option.splits)
    ultimately show ?thesis using l(2) total by simp
  qed
qed

end

context decimal_lib
begin

lemma source_entries_worth:
  assumes ok: "source_line_entries D s txs l = Inr ls"
    and b: "line_books n (dp_direction (document_kind_policy (ds_kind s))) l b"
    and pos: "ds_kind s = SalesInvoice \<Longrightarrow> 0 < fst b"
    and c: "minor_units (ds_currency s) = Inr n" "minor_units (ds_functional s) = Inr m"
  shows "lines_worth rnd m (ds_currency s) ((if ds_kind s = SalesInvoice then - 1 else 1) * line_due l b) ls"
proof -
  have n9: "n \<le> 9" using minor_units_le_3 [OF c(1)] by simp
  obtain p where p: "tax_treatment_amount D l Payable = Inr p" "dec_finite D p"
      "val p = treatment_total Payable (decision_components l) (snd b)"
    using tax_treatment_amount_val [OF b n9] by blast
  obtain r where r: "tax_treatment_amount D l Recoverable = Inr r" "dec_finite D r"
      "val r = treatment_total Recoverable (decision_components l) (snd b)"
    using tax_treatment_amount_val [OF b n9] by blast
  obtain k where k: "tax_treatment_amount D l Nonrecoverable = Inr k" "dec_finite D k"
      "val k = treatment_total Nonrecoverable (decision_components l) (snd b)"
    using tax_treatment_amount_val [OF b n9] by blast
  obtain a where a: "tax_treatment_amount D l SelfAssessedPayable = Inr a" "dec_finite D a"
      "val a = treatment_total SelfAssessedPayable (decision_components l) (snd b)"
    using tax_treatment_amount_val [OF b n9] by blast
  show ?thesis
  proof (cases "ds_kind s")
    case SalesInvoice
    then have "sales_line_entries D s (or_else (txs (sl_number l)) []) l p = Inr ls"
      using ok p(1) r(1) k(1) a(1) by (auto simp: source_line_entries_def Let_def bindE_Inr_iff)
    from sales_entries_worth [OF this _ pos [OF SalesInvoice] p(2,3) c] b SalesInvoice show ?thesis by simp
  next
    case SupplierBill
    then have "bill_line_entries D s (or_else (txs (sl_number l)) []) l r k a = Inr ls"
      using ok p(1) r(1) k(1) a(1) by (auto simp: source_line_entries_def Let_def bindE_Inr_iff)
    from bill_entries_worth [OF this _ r(2) k(2) a(2) r(3) k(3) a(3) c] b SupplierBill show ?thesis by simp
  qed
qed

lemma all_entries_worth:
  assumes "mapE (source_line_entries D s txs) ls = Inr ess"
    and "list_all2 (line_books n (dp_direction (document_kind_policy (ds_kind s)))) ls books"
    and "ds_kind s = SalesInvoice \<longrightarrow> (\<forall>b \<in> set books. 0 < fst b)"
    and c: "minor_units (ds_currency s) = Inr n" "minor_units (ds_functional s) = Inr m"
  shows "lines_worth rnd m (ds_currency s)
     ((if ds_kind s = SalesInvoice then - 1 else 1) * document_due ls books) (concat ess)
     \<and> length (concat ess) \<le> 3 * length ls"
  using assms(2,3,1)
proof (induction ls books arbitrary: ess rule: list_all2_induct)
  case Nil
  then show ?case by (simp add: document_due_def)
next
  case (Cons l ls b books)
  obtain es ess' where e: "source_line_entries D s txs l = Inr es" "ess = es # ess'"
    "mapE (source_line_entries D s txs) ls = Inr ess'"
    using Cons.prems(2) by (auto simp: bindE_Inr_iff)
  have "lines_worth rnd m (ds_currency s) ((if ds_kind s = SalesInvoice then - 1 else 1) * line_due l b) es"
    by (rule source_entries_worth [OF e(1) Cons.hyps(1) _ c]) (use Cons.prems(1) in simp)
  moreover have "lines_worth rnd m (ds_currency s)
     ((if ds_kind s = SalesInvoice then - 1 else 1) * document_due ls books) (concat ess')"
    "length (concat ess') \<le> 3 * length ls"
    using Cons.IH [OF _ e(3)] Cons.prems(1) by auto
  ultimately show ?case
    using lines_worth_append source_entries_length [OF e(1)] e(2)
    by (fastforce simp: document_due_def algebra_simps)
qed

lemma issue_lines_ok:
  assumes ok: "build_issue_journal_lines D s event txs = Inr out"
    and b: "document_books n s books"
    and c: "minor_units (ds_currency s) = Inr n" "minor_units (ds_functional s) = Inr m"
    and small: "\<forall>l \<in> set out. \<bar>line_functional l\<bar> \<le> 10 ^ 33"
  shows "\<exists>control entries rounding. out = control # entries @ rounding \<and> length rounding \<le> 1
    \<and> sum_list (map line_functional out) = 0
    \<and> sum_list (map line_transaction (control # entries)) = 0
    \<and> line_transaction control = (if ds_kind s = SalesInvoice then 1 else - 1) * document_due (ds_lines s) books
    \<and> (\<forall>l \<in> set (control # entries). line_converts rnd m l \<and> ln_currency l = ds_currency s)
    \<and> (\<forall>l \<in> set rounding. line_converts rnd m l \<and> ln_currency l = ds_functional s
         \<and> ln_rate_source l = ''SYSTEM_FX_ROUNDING'' \<and> Some (ln_account l) = ds_rounding_account s)"
proof -
  let ?sg = "if ds_kind s = SalesInvoice then 1 else - 1 :: rat" and ?due = "document_due (ds_lines s) books"
  obtain control ess where e: "control_line D s event = Inr control"
    "mapE (source_line_entries D s txs) (ds_lines s) = Inr ess"
    "balance_journal_lines D (control # concat ess) \<lparr>br_functional = ds_functional s,
       br_account = ds_rounding_account s, br_effective = fx_effective_at (ds_fx s),
       br_memo = ds_source_number s @ '' FX conversion rounding''\<rparr> = Inr out"
    using ok by (auto simp: build_issue_journal_lines_def bindE_Inr_iff)
  have bk: "list_all2 (line_books n (dp_direction (document_kind_policy (ds_kind s)))) (ds_lines s) books"
    "text_amount (ds_gross s) ?due" "ds_kind s = SalesInvoice \<longrightarrow> (\<forall>b \<in> set books. 0 < fst b)"
    "length (ds_lines s) \<le> 200"
    using b by (auto simp: document_books_def)
  have n9: "n \<le> 9" using minor_units_le_3 [OF c(1)] by simp
  obtain g where g: "exact D (TextIn (ds_gross s)) = Inr g" "dec_finite D g" "val g = ?due" using exact_text [OF bk(2)] .
  have sc: "scaled n ?due"
    using bk(1) unfolding document_due_def
    by (induction rule: list_all2_induct) (auto simp: line_due_scaled [OF _ n9] intro!: scaled_add)
  have cw: "lines_worth rnd m (ds_currency s) (?sg * ?due) [control]"
    using document_line_worth [OF e(1) [unfolded control_line_def], of g n s m] g sc c
    by (cases "ds_kind s") (auto simp: document_line_request_def)
  note ew = all_entries_worth [OF e(2) bk(1,3) c]
  have w: "lines_worth rnd m (ds_currency s) 0 (control # concat ess)"
    using lines_worth_append [OF cw conjunct1 [OF ew]] by (cases "ds_kind s") simp_all
  have len: "length (control # concat ess) \<le> 1000" using conjunct2 [OF ew] bk(4) by simp
  have sub: "set (control # concat ess) \<subseteq> set out"
    using e(3) by (auto simp: balance_journal_lines_def bindE_Inr_iff Let_def split: if_splits)
  have conv: "\<forall>l \<in> set (control # concat ess). line_converts rnd m l \<and> \<bar>line_functional l\<bar> \<le> 10 ^ 33"
    using w small sub unfolding lines_worth_def by blast
  obtain rounding where r: "out = (control # concat ess) @ rounding" "length rounding \<le> 1"
    "sum_list (map line_functional out) = 0"
    "\<forall>l \<in> set rounding. line_converts rnd m l \<and> ln_currency l = ds_functional s
       \<and> ln_rate_source l = ''SYSTEM_FX_ROUNDING'' \<and> Some (ln_account l) = ds_rounding_account s"
    using balance_ok [OF e(3) conv len] c(2) by auto
  have "line_transaction control = ?sg * ?due" using cw by (simp add: lines_worth_def)
  then show ?thesis
    using r w by (intro exI [where x = control] exI [where x = "concat ess"] exI [where x = rounding])
      (simp add: lines_worth_def)
qed

end

section \<open>When lines can be built\<close>

text \<open>
  In the functional currency nothing can go wrong: at the rate one, a positive amount of
  whole minor units makes a line, worth exactly itself.
\<close>

text \<open>A document in the functional currency: its rate is one, and its tax account is there when needed.\<close>

definition domestic :: "document_snapshot \<Rightarrow> nat \<Rightarrow> bool" where
  "domestic s n \<longleftrightarrow> ds_functional s = ds_currency s \<and> minor_units (ds_currency s) = Inr n
     \<and> text_amount (fx_rate (ds_fx s)) 1 \<and> (tax_mapping_required (ds_lines s) \<longrightarrow> truthy (ds_tax_account s))"

definition unconverted :: "journal_line \<Rightarrow> bool" where
  "unconverted l \<longleftrightarrow> line_functional l = line_transaction l \<and> \<bar>line_functional l\<bar> \<le> 10 ^ 33"

context decimal_lib
begin

lemma transaction_line_total:
  assumes a: "exact D (tr_amount r) = Inr a" "scaled n (val a)" "0 < val a" "\<bar>val a\<bar> \<le> 10 ^ 33"
    and c: "minor_units (tr_currency r) = Inr n" "tr_functional_currency r = tr_currency r" "tr_functional r = None"
    and rate: "exact D (tr_rate r) = Inr one" "val one = 1"
  shows "\<exists>l. transaction_line D r = Inr l \<and> unconverted l"
proof -
  obtain tx where tx: "money_string D (tr_amount r) (tr_currency r) = Inr tx" "text_amount tx (val a)"
    using money_string_text [OF a(1) c(1)] half_up_id [OF a(2)] by auto
  obtain t where t: "exact D (TextIn tx) = Inr t" "dec_finite D t" "val t = val a" using exact_text [OF tx(2)] .
  have fin: "dec_finite D one" by (rule exact_finite [OF rate(1)])
  have n9: "n \<le> 9" using minor_units_le_3 [OF c(1)] by simp
  have "fits (val a)" by (rule fits_scaled [of n _ 33]) (use a n9 in auto)
  then have p: "val (dec_times D t one) = val a" using t fin rate(2) by (simp add: times_val rnd_fits)
  obtain fx where fx: "money_string D (DecIn (dec_times D t one)) (tr_currency r) = Inr fx" "text_amount fx (val a)"
    using money_string_text [of "DecIn (dec_times D t one)" "dec_times D t one" "tr_currency r" n] t fin c(1) p
      half_up_id [OF a(2)] by auto
  obtain f where f: "exact D (TextIn fx) = Inr f" "dec_finite D f" "val f = val a" using exact_text [OF fx(2)] .
  have "\<exists>l. transaction_line D r = Inr l"
    using tx(1) t f fx(1) times_input_val [OF rate(1)] c(2,3) rate(1) a(3)
    by (simp add: transaction_line_def throw_if_def del: exact.simps)
  then obtain l where l: "transaction_line D r = Inr l" by blast
  have "line_transaction l = side_sign (tr_side r) * val a"
    "\<exists>rd. exact D (tr_rate r) = Inr rd \<and> line_functional l = side_sign (tr_side r) * half_up n (rnd (val a * val rd))"
    using transaction_line_ok [OF l a(1,2) c(1), of n] c by auto
  then show ?thesis using l rate a(4) rnd_fits [OF \<open>fits (val a)\<close>] half_up_id [OF a(2)]
    by (cases "tr_side r") (auto simp: unconverted_def)
qed

lemma signed_line_total:
  assumes a: "exact D (tr_amount r) = Inr a" "scaled n (val a)" "val a \<noteq> 0" "\<bar>val a\<bar> \<le> 10 ^ 33"
    and c: "minor_units (tr_currency r) = Inr n" "tr_functional_currency r = tr_currency r" "tr_functional r = None"
    and rate: "exact D (tr_rate r) = Inr one" "val one = 1"
  shows "\<exists>l. signed_transaction_line D r = Inr l \<and> unconverted l"
proof -
  have fin: "dec_finite D a" by (rule exact_finite [OF a(1)])
  let ?r = "r\<lparr>tr_side := (if dec_is_neg D a then other_side (tr_side r) else tr_side r),
       tr_amount := DecIn (dec_abs D a)\<rparr>"
  have "\<exists>l. transaction_line D ?r = Inr l \<and> unconverted l"
    by (rule transaction_line_total [where a = "dec_abs D a" and n = n and one = one])
      (use fin a c rate in auto)
  then show ?thesis using a(1) by (simp add: signed_transaction_line_def del: exact.simps)
qed

lemma domestic_rate:
  assumes "domestic s n"
  obtains one where "exact D (TextIn (fx_rate (ds_fx s))) = Inr one" "val one = 1"
  using assms exact_text [of "fx_rate (ds_fx s)" 1] by (auto simp: domestic_def)

lemma domestic_line:
  assumes s: "domestic s n" and a: "exact D am = Inr a" "scaled n (val a)" "\<bar>val a\<bar> \<le> 10 ^ 33"
  shows "0 < val a \<Longrightarrow> \<exists>l. transaction_line D (document_line_request s sd ac am tx me) = Inr l
      \<and> unconverted l"
    and "val a \<noteq> 0 \<Longrightarrow> \<exists>l. signed_transaction_line D (document_line_request s sd ac am tx me) = Inr l
      \<and> unconverted l"
proof -
  obtain one where o: "exact D (TextIn (fx_rate (ds_fx s))) = Inr one" "val one = 1" using domestic_rate [OF s] .
  let ?r = "document_line_request s sd ac am tx me"
  have r: "exact D (tr_amount ?r) = Inr a" "minor_units (tr_currency ?r) = Inr n"
    "tr_functional_currency ?r = tr_currency ?r" "tr_functional ?r = None" "exact D (tr_rate ?r) = Inr one"
    using s a(1) o(1) by (simp_all add: document_line_request_def domestic_def del: exact.simps)
  show "\<exists>l. transaction_line D ?r = Inr l \<and> unconverted l" if "0 < val a"
    by (rule transaction_line_total [OF r(1) a(2) that a(3) r(2-5) o(2)])
  show "\<exists>l. signed_transaction_line D ?r = Inr l \<and> unconverted l" if "val a \<noteq> 0"
    by (rule signed_line_total [OF r(1) a(2) that a(3) r(2-5) o(2)])
qed

lemma signed_tax_entry_total:
  assumes s: "domestic s n" and a: "dec_finite D a" "scaled n (val a)" "\<bar>val a\<bar> \<le> 10 ^ 33"
    and acc: "val a \<noteq> 0 \<Longrightarrow> truthy (ds_tax_account s)"
  shows "\<exists>ls. signed_tax_entry D s tx sd a me = Inr ls \<and> (\<forall>l \<in> set ls. unconverted l)"
proof (cases "val a = 0")
  case True
  then show ?thesis using a(1) by (simp add: signed_tax_entry_def)
next
  case False
  obtain l where "signed_transaction_line D (document_line_request s sd (or_else (ds_tax_account s) [])
      (DecIn a) (Some tx) me) = Inr l" "unconverted l"
    using domestic_line(2) [OF s _ a(2,3) False] a(1) by force
  then show ?thesis using False a(1) acc by (simp add: signed_tax_entry_def throw_if_def)
qed

end

lemma treatment_total_bound:
  assumes "length cs = length as" "\<forall>a \<in> set as. same_sign q a"
  shows "\<bar>treatment_total t cs as\<bar> \<le> \<bar>sum_list as\<bar>"
proof -
  have "(0 \<le> q \<longrightarrow> 0 \<le> treatment_total t cs as \<and> treatment_total t cs as \<le> sum_list as)
      \<and> (q \<le> 0 \<longrightarrow> treatment_total t cs as \<le> 0 \<and> sum_list as \<le> treatment_total t cs as)"
    using assms by (induction cs as rule: list_induct2) (auto simp: same_sign_def)
  then show ?thesis by (cases "0 \<le> q") auto
qed

lemma treatment_needs_mapping:
  assumes "length (decision_components l) = length as" "treatment_total t (decision_components l) as \<noteq> 0"
    and "t \<in> {Payable, Recoverable, SelfAssessedPayable}" "l \<in> set ls"
  shows "tax_mapping_required ls"
proof -
  obtain c where "c \<in> set (decision_components l)" "tc_treatment c = t"
    using treatment_total_absent [OF assms(1)] assms(2) by blast
  then show ?thesis using assms(3,4) unfolding tax_mapping_required_def list_ex_iff by blast
qed

lemma line_books_signs:
  assumes "line_books n dir l b"
  shows "length (decision_components l) = length (snd b)"
    "\<forall>a \<in> set (snd b). scaled n a \<and> same_sign (fst b) a" "\<forall>a \<in> set (snd b). same_sign (fst b) a"
    "\<bar>treatment_total t (decision_components l) (snd b)\<bar> \<le> 10 ^ 29"
    "scaled n (treatment_total t (decision_components l) (snd b))"
    "same_sign (fst b) (treatment_total t (decision_components l) (snd b))"
    "text_amount (sl_net l) (fst b)" "scaled n (fst b)" "fst b \<noteq> 0" "\<bar>fst b\<bar> \<le> 10 ^ 18"
proof -
  show len: "length (decision_components l) = length (snd b)"
    using assms component_amounts_length by (auto simp: line_books_def)
  show s: "\<forall>a \<in> set (snd b). scaled n a \<and> same_sign (fst b) a" and s2: "\<forall>a \<in> set (snd b). same_sign (fst b) a"
    using assms by (auto simp: line_books_def)
  have "\<bar>sum_list (snd b)\<bar> \<le> 10 ^ 29" using assms by (auto simp: line_books_def)
  then show "\<bar>treatment_total t (decision_components l) (snd b)\<bar> \<le> 10 ^ 29"
    using treatment_total_bound [OF len s2, of t] by linarith
  show "scaled n (treatment_total t (decision_components l) (snd b))"
    "same_sign (fst b) (treatment_total t (decision_components l) (snd b))"
    using treatment_total_props [OF len s] by auto
  show "text_amount (sl_net l) (fst b)" "scaled n (fst b)" "fst b \<noteq> 0" "\<bar>fst b\<bar> \<le> 10 ^ 18"
    using assms by (auto simp: line_books_def)
qed

context decimal_lib
begin

lemma sales_entries_total:
  assumes s: "domestic s n" and b: "line_books n Sale l b" "0 < fst b" "l \<in> set (ds_lines s)"
    and p: "dec_finite D p" "val p = treatment_total Payable (decision_components l) (snd b)"
  shows "\<exists>ls. sales_line_entries D s tx l p = Inr ls \<and> (\<forall>l \<in> set ls. unconverted l)"
proof -
  note f = line_books_signs [OF b(1)]
  have pw: "(10::rat) ^ 18 \<le> 10 ^ 33" "(10::rat) ^ 29 \<le> 10 ^ 33" by (rule power_increasing; simp)+
  obtain d where d: "exact D (TextIn (sl_net l)) = Inr d" "dec_finite D d" "val d = fst b" using exact_text [OF f(7)] .
  obtain rev_line where r: "transaction_line D (document_line_request s Credit (sl_account l)
      (TextIn (sl_net l)) None (sl_description l)) = Inr rev_line" "unconverted rev_line"
    using domestic_line(1) [OF s d(1)] d(3) f(8,10) b(2) pw by fastforce
  show ?thesis
  proof (cases "0 < val p")
    case True
    then have "truthy (ds_tax_account s)"
      using treatment_needs_mapping [OF f(1), of Payable "ds_lines s"] p(2) b(3) s by (auto simp: domestic_def)
    moreover obtain tl where "transaction_line D (document_line_request s Credit (or_else (ds_tax_account s) [])
        (DecIn p) (Some tx) (sl_description l @ '' tax payable'')) = Inr tl" "unconverted tl"
      using domestic_line(1) [OF s, of "DecIn p" p] p f(4,5) [of Payable] pw True by fastforce
    ultimately show ?thesis using r True p(1) by (simp add: sales_line_entries_def throw_if_def)
  next
    case False
    then show ?thesis using r p(1) by (simp add: sales_line_entries_def)
  qed
qed

lemma bill_entries_total:
  assumes s: "domestic s n" and b: "line_books n Purchase l b" "l \<in> set (ds_lines s)"
    and fin: "dec_finite D r" "dec_finite D k" "dec_finite D a"
    and v: "val r = treatment_total Recoverable (decision_components l) (snd b)"
      "val k = treatment_total Nonrecoverable (decision_components l) (snd b)"
      "val a = treatment_total SelfAssessedPayable (decision_components l) (snd b)"
  shows "\<exists>ls. bill_line_entries D s tx l r k a = Inr ls \<and> (\<forall>l \<in> set ls. unconverted l)"
proof -
  note f = line_books_signs [OF b(1)]
  have n9: "n \<le> 9" using s minor_units_le_3 by (fastforce simp: domestic_def)
  have pw: "(10::rat) ^ 18 \<le> 10 ^ 30" "(10::rat) ^ 29 \<le> 10 ^ 30" "(10::rat) ^ 31 \<le> 10 ^ 33"
    by (rule power_increasing; simp)+
  have vs: "\<bar>val r\<bar> \<le> 10 ^ 29" "\<bar>val k\<bar> \<le> 10 ^ 29" "\<bar>val a\<bar> \<le> 10 ^ 29"
    "scaled n (val r)" "scaled n (val k)" "scaled n (val a)" "same_sign (fst b) (val k)" "same_sign (fst b) (val a)"
    using f(4-6) v by auto
  have acc: "truthy (ds_tax_account s)" if "val r \<noteq> 0 \<or> val a \<noteq> 0"
    using that treatment_needs_mapping [OF f(1), of Recoverable "ds_lines s"] b(2) s v
      treatment_needs_mapping [OF f(1), of SelfAssessedPayable "ds_lines s"] by (auto simp: domestic_def)
  obtain d where d: "exact D (TextIn (sl_net l)) = Inr d" "dec_finite D d" "val d = fst b" using exact_text [OF f(7)] .
  let ?c1 = "dec_plus D d k" and ?c = "dec_plus D (dec_plus D d k) a"
  have "fits (fst b + val k)" by (rule fits_scaled [of n _ 31]) (use f(8,10) vs pw n9 in \<open>auto intro: scaled_add\<close>)
  then have c1: "val ?c1 = fst b + val k" using d fin by (simp add: plus_exact)
  have "fits (fst b + val k + val a)" by (rule fits_scaled [of n _ 31]) (use f(8,10) vs pw n9 in \<open>auto intro: scaled_add\<close>)
  then have c: "val ?c = fst b + val k + val a" using d fin c1 by (simp add: plus_exact)
  have ne: "val ?c \<noteq> 0" using c f(9) vs(7,8) by (auto simp: same_sign_def)
  have small: "\<bar>val ?c\<bar> \<le> 10 ^ 33" "\<bar>val r\<bar> \<le> 10 ^ 33" "\<bar>val a\<bar> \<le> 10 ^ 33" using c f(10) vs(1-3) by auto
  have sc: "scaled n (val ?c)" using c f(8) vs by (auto intro: scaled_add)
  obtain cost where "signed_transaction_line D (document_line_request s Debit (sl_account l) (DecIn ?c)
      (if \<not> dec_is_zero D (dec_plus D k a) then Some tx else None) (sl_description l)) = Inr cost"
      "unconverted cost"
    using domestic_line(2) [OF s, of "DecIn ?c" ?c] d fin sc small(1) ne by fastforce
  moreover obtain rl where "signed_tax_entry D s tx Debit r (sl_description l @ '' recoverable tax'') = Inr rl"
      "\<forall>l \<in> set rl. unconverted l"
    using signed_tax_entry_total [OF s fin(1) vs(4) small(2)] acc by blast
  moreover obtain al where "signed_tax_entry D s tx Credit a (sl_description l @ '' self-assessed use tax payable'') = Inr al"
      "\<forall>l \<in> set al. unconverted l"
    using signed_tax_entry_total [OF s fin(3) vs(6) small(3)] acc by blast
  ultimately show ?thesis using d(1) by (auto simp: bill_line_entries_def simp del: exact.simps)
qed

end

lemma line_due_bound:
  assumes "line_books n dir l b" shows "\<bar>line_due l b\<bar> \<le> 10 ^ 30"
proof -
  have "\<bar>sum_list (snd b)\<bar> \<le> 10 ^ 29" using assms by (auto simp: line_books_def)
  moreover note line_books_signs(4) [OF assms, of SelfAssessedPayable] line_books_signs(10) [OF assms]
  ultimately show ?thesis by (simp add: line_due_def case_prod_beta)
qed

lemma document_due_bound:
  assumes "list_all2 (line_books n dir) ls books" "length ls \<le> 200"
  shows "\<bar>document_due ls books\<bar> \<le> 10 ^ 33"
proof -
  have "\<bar>document_due ls books\<bar> \<le> of_nat (length (map2 line_due ls books)) * 10 ^ 30"
    unfolding document_due_def
  proof (rule abs_sum_list_bound)
    fix x assume "x \<in> set (map2 line_due ls books)"
    then obtain l b where lb: "(l, b) \<in> set (zip ls books)" "x = line_due l b" by auto
    then have "line_books n dir l b" using assms(1) by (auto simp: list_all2_iff)
    then show "\<bar>x\<bar> \<le> 10 ^ 30" using line_due_bound lb(2) by simp
  qed
  also have "\<dots> \<le> 1000 * 10 ^ 30" using assms(2) by (intro mult_right_mono) auto
  finally show ?thesis by simp
qed

context decimal_lib
begin

lemma source_entries_total:
  assumes s: "domestic s n" and b: "line_books n (dp_direction (document_kind_policy (ds_kind s))) l b"
    and pos: "ds_kind s = SalesInvoice \<Longrightarrow> 0 < fst b" and l: "l \<in> set (ds_lines s)" "truthy (txs (sl_number l))"
  shows "\<exists>ls. source_line_entries D s txs l = Inr ls \<and> (\<forall>l \<in> set ls. unconverted l)"
proof -
  have n9: "n \<le> 9" using s minor_units_le_3 by (fastforce simp: domestic_def)
  obtain p where p: "tax_treatment_amount D l Payable = Inr p" "dec_finite D p"
      "val p = treatment_total Payable (decision_components l) (snd b)"
    using tax_treatment_amount_val [OF b n9] by blast
  obtain r where r: "tax_treatment_amount D l Recoverable = Inr r" "dec_finite D r"
      "val r = treatment_total Recoverable (decision_components l) (snd b)"
    using tax_treatment_amount_val [OF b n9] by blast
  obtain k where k: "tax_treatment_amount D l Nonrecoverable = Inr k" "dec_finite D k"
      "val k = treatment_total Nonrecoverable (decision_components l) (snd b)"
    using tax_treatment_amount_val [OF b n9] by blast
  obtain a where a: "tax_treatment_amount D l SelfAssessedPayable = Inr a" "dec_finite D a"
      "val a = treatment_total SelfAssessedPayable (decision_components l) (snd b)"
    using tax_treatment_amount_val [OF b n9] by blast
  show ?thesis
  proof (cases "ds_kind s")
    case SalesInvoice
    from sales_entries_total [OF s _ pos [OF SalesInvoice] l(1) p(2,3), of "or_else (txs (sl_number l)) []"]
    show ?thesis using b p(1) r(1) k(1) a(1) l(2) SalesInvoice
      by (auto simp: source_line_entries_def Let_def throw_if_def)
  next
    case SupplierBill
    from bill_entries_total [OF s _ l(1) r(2) k(2) a(2) r(3) k(3) a(3), of "or_else (txs (sl_number l)) []"]
    show ?thesis using b p(1) r(1) k(1) a(1) l(2) SupplierBill
      by (auto simp: source_line_entries_def Let_def throw_if_def)
  qed
qed

lemma all_entries_total:
  assumes "domestic s n" "set ls \<subseteq> set (ds_lines s)" "\<forall>l \<in> set ls. truthy (txs (sl_number l))"
    and "list_all2 (line_books n (dp_direction (document_kind_policy (ds_kind s)))) ls books"
    and "ds_kind s = SalesInvoice \<longrightarrow> (\<forall>b \<in> set books. 0 < fst b)"
  shows "\<exists>ess. mapE (source_line_entries D s txs) ls = Inr ess \<and> (\<forall>l \<in> set (concat ess). unconverted l)"
  using assms(4,2,3,5)
proof (induction ls books rule: list_all2_induct)
  case (Cons l ls b books)
  obtain es where "source_line_entries D s txs l = Inr es" "\<forall>l \<in> set es. unconverted l"
    using source_entries_total [OF assms(1) Cons.hyps(1), of txs] Cons.prems by auto
  moreover obtain ess where "mapE (source_line_entries D s txs) ls = Inr ess" "\<forall>l \<in> set (concat ess). unconverted l"
    using Cons.IH Cons.prems by auto
  ultimately show ?case by auto
qed simp

lemma balance_total:
  assumes conv: "\<forall>l \<in> set ls. line_converts rnd m l \<and> \<bar>line_functional l\<bar> \<le> 10 ^ 33" "length ls \<le> 1000"
    and m: "m \<le> 9" and z: "sum_list (map line_functional ls) = 0"
  shows "balance_journal_lines D ls b = Inr ls"
proof -
  let ?ds = "map (text_value \<circ> ln_debit_functional) ls" and ?cs = "map (text_value \<circ> ln_credit_functional) ls"
  have texts: "list_all2 text_amount (map ln_debit_functional ls) ?ds" "list_all2 text_amount (map ln_credit_functional ls) ?cs"
    using conv(1) by (auto simp: list_all2_map1 list_all2_map2 list_all2_same dest: line_converts_texts(1,2))
  have led: "\<And>q. q \<in> set ?ds \<Longrightarrow> scaled 9 q \<and> \<bar>q\<bar> \<le> 10 ^ 33"
    "\<And>q. q \<in> set ?cs \<Longrightarrow> scaled 9 q \<and> \<bar>q\<bar> \<le> 10 ^ 33"
    using conv(1) text_value_fit [OF _ m] by auto
  obtain debits credits where dc: "sum_exact D (map (\<lambda>l. TextIn (ln_debit_functional l)) ls) = Inr debits"
    "dec_finite D debits" "val debits = sum_list ?ds"
    "sum_exact D (map (\<lambda>l. TextIn (ln_credit_functional l)) ls) = Inr credits"
    "dec_finite D credits" "val credits = sum_list ?cs"
    using sum_exact_texts_wide [OF texts(1) led(1)] sum_exact_texts_wide [OF texts(2) led(2)] conv(2)
    by (auto simp: o_def)
  have "sum_list (map line_functional ls) = sum_list ?ds - sum_list ?cs"
    by (induction ls) (simp_all add: line_functional_def algebra_simps)
  then have "val (dec_minus D debits credits) = 0" using z dc by (simp add: minus_val)
  then show ?thesis using dc by (simp add: balance_journal_lines_def Let_def)
qed

lemma domestic_issue:
  assumes s: "domestic s n" and b: "document_books n s books"
    and txs: "\<forall>l \<in> set (ds_lines s). truthy (txs (sl_number l))"
  shows "\<exists>out. build_issue_journal_lines D s event txs = Inr out
    \<and> (\<forall>l \<in> set out. ln_currency l = ds_currency s \<and> line_functional l = line_transaction l)"
proof -
  have bk: "list_all2 (line_books n (dp_direction (document_kind_policy (ds_kind s)))) (ds_lines s) books"
    "text_amount (ds_gross s) (document_due (ds_lines s) books)" "0 < document_due (ds_lines s) books"
    "ds_kind s = SalesInvoice \<longrightarrow> (\<forall>b \<in> set books. 0 < fst b)" "length (ds_lines s) \<le> 200"
    using b by (auto simp: document_books_def)
  have c: "minor_units (ds_currency s) = Inr n" "minor_units (ds_functional s) = Inr n" "ds_functional s = ds_currency s"
    using s by (auto simp: domestic_def)
  have n9: "n \<le> 9" using minor_units_le_3 [OF c(1)] by simp
  let ?due = "document_due (ds_lines s) books"
  obtain g where g: "exact D (TextIn (ds_gross s)) = Inr g" "dec_finite D g" "val g = ?due" using exact_text [OF bk(2)] .
  have sc: "scaled n ?due"
    using bk(1) unfolding document_due_def
    by (induction rule: list_all2_induct) (auto simp: line_due_scaled [OF _ n9] intro!: scaled_add)
  obtain one where o: "exact D (TextIn (fx_rate (ds_fx s))) = Inr one" "val one = 1" using domestic_rate [OF s] .
  let ?memo = "ds_source_number s @ '' '' @ party_role_text (dp_role (document_kind_policy (ds_kind s))) @ '' control''"
  let ?r = "(document_line_request s (if ds_kind s = SalesInvoice then Debit else Credit) (ds_control s)
      (TextIn (ds_gross s)) None ?memo)\<lparr>tr_party := Some (ds_party s), tr_event := Some event\<rparr>"
  have "\<exists>l. transaction_line D ?r = Inr l \<and> unconverted l"
    by (rule transaction_line_total [where a = g and n = n and one = one])
      (use g sc bk(3) document_due_bound [OF bk(1,5)] c o in \<open>simp_all add: document_line_request_def del: exact.simps\<close>)
  then obtain control where control: "control_line D s event = Inr control" "unconverted control"
    by (auto simp: control_line_def)
  obtain ess where ess: "mapE (source_line_entries D s txs) (ds_lines s) = Inr ess" "\<forall>l \<in> set (concat ess). unconverted l"
    using all_entries_total [OF s _ txs bk(1,4)] by blast
  have cw: "lines_worth rnd n (ds_currency s) ((if ds_kind s = SalesInvoice then 1 else - 1) * ?due) [control]"
    using document_line_worth [OF control(1) [unfolded control_line_def], of g n s n] g sc c
    by (cases "ds_kind s") (auto simp: document_line_request_def)
  note ew = all_entries_worth [OF ess(1) bk(1,4) c(1,2)]
  have w: "lines_worth rnd n (ds_currency s) 0 (control # concat ess)"
    using lines_worth_append [OF cw conjunct1 [OF ew]] by (cases "ds_kind s") simp_all
  have len: "length (control # concat ess) \<le> 1000" using conjunct2 [OF ew] bk(5) by simp
  have un: "\<forall>l \<in> set (control # concat ess). unconverted l" using control(2) ess(2) by simp
  have "map line_functional (control # concat ess) = map line_transaction (control # concat ess)"
    using un by (intro map_cong) (auto simp: unconverted_def)
  then have z: "sum_list (map line_functional (control # concat ess)) = 0"
    using w unfolding lines_worth_def by (simp only:)
  have conv: "\<forall>l \<in> set (control # concat ess). line_converts rnd n l \<and> \<bar>line_functional l\<bar> \<le> 10 ^ 33"
    using w un unfolding lines_worth_def unconverted_def by blast
  have "build_issue_journal_lines D s event txs = Inr (control # concat ess)"
    using control(1) ess(1) balance_total [OF conv len n9 z] by (simp add: build_issue_journal_lines_def)
  then show ?thesis using w un unfolding lines_worth_def unconverted_def by blast
qed

end

section \<open>Properties\<close>

text \<open>
  C29. The journal of a document balances.  When a document is built and its journal
  lines are, the debits equal the credits in the functional currency, to the last digit.
  The first line carries the whole gross total, on the debit side for a sales invoice;
  without the line that takes up conversion rounding, at most one, on the configured
  account and in the functional currency, the lines are in the document's own currency and
  balance in it too; and every line is one-sided, positive, and its functional amount is
  its own amount converted at its rate.
\<close>

theorem issued_journal_balances:
  assumes "decimal_lib D val rnd" and "build_document_snapshot F D H i functional = Inr s"
    and "amounts_bounded i" and "build_issue_journal_lines D s event txs = Inr out"
    and "\<forall>l \<in> set out. \<bar>line_functional l\<bar> \<le> 10 ^ 33"
  shows "\<exists>m control entries rounding gross. minor_units (ds_functional s) = Inr m
    \<and> out = control # entries @ rounding \<and> length rounding \<le> 1
    \<and> sum_list (map line_functional out) = 0
    \<and> sum_list (map line_transaction (control # entries)) = 0
    \<and> text_amount (ds_gross s) gross
    \<and> line_transaction control = (if ds_kind s = SalesInvoice then 1 else - 1) * gross
    \<and> (\<forall>l \<in> set (control # entries). line_converts rnd m l \<and> ln_currency l = ds_currency s)
    \<and> (\<forall>l \<in> set rounding. line_converts rnd m l \<and> ln_currency l = ds_functional s
         \<and> ln_rate_source l = ''SYSTEM_FX_ROUNDING'' \<and> Some (ln_account l) = ds_rounding_account s)"
proof -
  obtain n books where b: "minor_units (ds_currency s) = Inr n" "document_books n s books"
    using decimal_lib.built_document_books [OF assms(1-3)] by blast
  obtain m where m: "minor_units (ds_functional s) = Inr m"
    using decimal_lib.built_document_currencies [OF assms(1,2)] by blast
  have g: "text_amount (ds_gross s) (document_due (ds_lines s) books)" using b(2) by (simp add: document_books_def)
  from decimal_lib.issue_lines_ok [OF assms(1,4) b(2,1) m assms(5)] g m show ?thesis by blast
qed

text \<open>
  C30. A document in the functional currency can always be booked.  When a document whose
  currency is the ledger's is built and its tax snapshots are recorded, its journal lines
  can be built: no line is refused and no rounding account is needed, all lines are in
  that currency, and every line's functional amount is its transaction amount.
\<close>

theorem domestic_document_issues:
  assumes "decimal_lib D val rnd" and "build_document_snapshot F D H i functional = Inr s"
    and "amounts_bounded i" and "ds_functional s = ds_currency s"
    and "\<forall>l \<in> set (ds_lines s). truthy (txs (sl_number l))"
  shows "\<exists>out. build_issue_journal_lines D s event txs = Inr out
    \<and> (\<forall>l \<in> set out. ln_currency l = ds_currency s \<and> line_functional l = line_transaction l)"
proof -
  obtain n books where b: "minor_units (ds_currency s) = Inr n" "document_books n s books"
    using decimal_lib.built_document_books [OF assms(1-3)] by blast
  have "domestic s n"
    using decimal_lib.built_document_currencies [OF assms(1,2)] b(1) assms(4) by (auto simp: domestic_def)
  from decimal_lib.domestic_issue [OF assms(1) this b(2) assms(5)] show ?thesis .
qed

section \<open>An example\<close>

definition example_tax_snapshots :: "nat \<Rightarrow> string option" where
  "example_tax_snapshots k = Some ''tax-1''"

definition example_issue_lines :: "journal_line list" where
  "example_issue_lines = (case build_issue_journal_lines ref_api example_snapshot ''event'' example_tax_snapshots of
     Inr ls \<Rightarrow> ls | Inl _ \<Rightarrow> [])"

lemma example_lines_built:
  "build_issue_journal_lines ref_api example_snapshot ''event'' example_tax_snapshots = Inr example_issue_lines"
proof -
  have "is_ok (build_issue_journal_lines ref_api example_snapshot ''event'' example_tax_snapshots)" by code_simp
  then show ?thesis by (auto simp: is_ok_iff example_issue_lines_def)
qed

theorem issued_journal_balances_witness:
  "map line_functional example_issue_lines = [- 8286 / 100, 7969 / 100, 317 / 100]
   \<and> (\<exists>m control entries rounding gross. minor_units (ds_functional example_snapshot) = Inr m
    \<and> example_issue_lines = control # entries @ rounding \<and> length rounding \<le> 1
    \<and> sum_list (map line_functional example_issue_lines) = 0
    \<and> sum_list (map line_transaction (control # entries)) = 0
    \<and> text_amount (ds_gross example_snapshot) gross
    \<and> line_transaction control = (if ds_kind example_snapshot = SalesInvoice then 1 else - 1) * gross
    \<and> (\<forall>l \<in> set (control # entries). line_converts rnd50 m l \<and> ln_currency l = ds_currency example_snapshot)
    \<and> (\<forall>l \<in> set rounding. line_converts rnd50 m l \<and> ln_currency l = ds_functional example_snapshot
         \<and> ln_rate_source l = ''SYSTEM_FX_ROUNDING'' \<and> Some (ln_account l) = ds_rounding_account example_snapshot))"
proof
  show m: "map line_functional example_issue_lines = [- 8286 / 100, 7969 / 100, 317 / 100]" by code_simp
  have "list_all (\<lambda>q. \<bar>q\<bar> \<le> 10 ^ 33) (map line_functional example_issue_lines)" unfolding m by simp
  then show "\<exists>m control entries rounding gross. minor_units (ds_functional example_snapshot) = Inr m
    \<and> example_issue_lines = control # entries @ rounding \<and> length rounding \<le> 1
    \<and> sum_list (map line_functional example_issue_lines) = 0
    \<and> sum_list (map line_transaction (control # entries)) = 0
    \<and> text_amount (ds_gross example_snapshot) gross
    \<and> line_transaction control = (if ds_kind example_snapshot = SalesInvoice then 1 else - 1) * gross
    \<and> (\<forall>l \<in> set (control # entries). line_converts rnd50 m l \<and> ln_currency l = ds_currency example_snapshot)
    \<and> (\<forall>l \<in> set rounding. line_converts rnd50 m l \<and> ln_currency l = ds_functional example_snapshot
         \<and> ln_rate_source l = ''SYSTEM_FX_ROUNDING'' \<and> Some (ln_account l) = ds_rounding_account example_snapshot)"
    by (intro issued_journal_balances [OF refdec.decimal_lib_axioms example_snapshot_built example_bounded
          example_lines_built]) (simp add: list_all_iff)
qed

text \<open>The same bill in a ledger of its own currency, at the rate one.\<close>

definition example_domestic_bill :: document_input where
  "example_domestic_bill = example_bill\<lparr>di_fx := example_explicit_fx\<lparr>fx_rate := ''1.0''\<rparr>\<rparr>"

definition example_domestic_snapshot :: document_snapshot where
  "example_domestic_snapshot = example_snapshot\<lparr>ds_functional := ''CAD'', ds_gross_functional := ''113.62'',
     ds_fx := \<lparr>fx_rate = ''1'', fx_source = ''desk'', fx_effective_at = ''2026-03-02T00:00:00Z'',
       fx_prov = None\<rparr>\<rparr>"

lemma example_domestic_built:
  "build_document_snapshot example_formats ref_api example_hash example_domestic_bill ''CAD''
   = Inr example_domestic_snapshot"
  by code_simp

theorem domestic_document_issues_witness:
  "\<exists>out. build_issue_journal_lines ref_api example_domestic_snapshot ''event'' example_tax_snapshots = Inr out
    \<and> (\<forall>l \<in> set out. ln_currency l = ds_currency example_domestic_snapshot
         \<and> line_functional l = line_transaction l)"
proof (rule domestic_document_issues [OF refdec.decimal_lib_axioms example_domestic_built])
  show "amounts_bounded example_domestic_bill" by code_simp
qed (simp_all add: example_domestic_snapshot_def example_snapshot_def example_tax_snapshots_def truthy_def)

end
