(* ===== verification/Settlement.thy ===== *)
theory Settlement
  imports JournalLines
begin

text \<open>
  \<open>subledger/ar-ap-line-building.ts\<close>: how a settlement is allocated to open items, its
  snapshot and its journal lines, the amount checks of the command, and the reversal of
  a journal.  The map of open items is a partial function from ids to locked rows, and
  \<open>T\<close> says of an effective time that \<open>Date.parse\<close> reads it.
\<close>

section \<open>Definitions\<close>

record open_item =
  oi_id :: string
  oi_ledger :: string
  oi_party :: string
  oi_currency :: string
  oi_original_transaction :: string
  oi_original_functional :: string
  oi_allocated_transaction :: string
  oi_allocated_carrying :: string
  oi_source_type :: string
  oi_fx_source :: "string option"
  oi_fx_effective :: "string option"
  oi_void_event :: "string option"

record calculated_allocation =
  ca_item :: string
  ca_transaction :: string
  ca_carrying :: string
  ca_settlement :: string
  ca_realized :: string
  ca_rate :: string
  ca_source :: string
  ca_effective :: string

datatype settlement_error =
    SettlementMoney money_error
  | SettlementFxUnresolved
  | AllocationMismatch
  | AllocationPrecision
  | ExceedsBalance
  | ZeroFunctional
  | CarryingRateInexact
  | EffectiveTimeMissing
  | FundingRejected funding_error
  | InvalidSettlementSnapshot
  | AmountPrecision
  | NotFullyAllocated
  | DuplicateAllocations
  | SettlementLine journal_error

abbreviation setm :: "money_error + 'a \<Rightarrow> settlement_error + 'a" where
  "setm \<equiv> map_errorE SettlementMoney"

text \<open>\<open>a.equals(text)\<close>\<close>

definition equals_literal :: "'d decimal_api \<Rightarrow> 'd \<Rightarrow> string \<Rightarrow> money_error + bool" where
  "equals_literal D a s = bindE (option_to_result InvalidDecimal (dec_new D s)) (\<lambda>b. Inr (dec_eq D a b))"

text \<open>The row an allocation names, when it belongs to the payment.\<close>

definition matching_item ::
  "(string \<Rightarrow> open_item option) \<Rightarrow> 'm settlement_fields_scheme \<Rightarrow> allocation_input \<Rightarrow> open_item option" where
  "matching_item items c a =
     (case items (al_open_item a) of
        None \<Rightarrow> None
      | Some i \<Rightarrow>
          if oi_ledger i = sc_ledger c \<and> oi_party i = sc_party c \<and> oi_currency i = sc_currency c
             \<and> oi_source_type i = sp_invoice_source_type (settlement_kind_policy (sc_kind c))
             \<and> oi_void_event i = None
          then Some i else None)"

definition carrying_amount ::
  "'d decimal_api \<Rightarrow> 'd \<Rightarrow> 'd \<Rightarrow> 'd \<Rightarrow> 'd \<Rightarrow> 'd \<Rightarrow> string \<Rightarrow> money_error + 'd" where
  "carrying_amount D amount original_transaction original_functional remaining_transaction remaining_carrying functional =
     (if dec_eq D amount remaining_transaction then Inr remaining_carrying
      else quantize_money D
        (DecIn (dec_div D (dec_times D amount original_functional) original_transaction)) functional)"

definition realized_fx :: "'d decimal_api \<Rightarrow> position \<Rightarrow> 'd \<Rightarrow> 'd \<Rightarrow> 'd" where
  "realized_fx D p settlement carrying =
     (if p = ReceivablePosition then dec_minus D settlement carrying else dec_minus D carrying settlement)"

definition calculate_allocation ::
  "'d decimal_api \<Rightarrow> (string \<Rightarrow> bool) \<Rightarrow> settlement_command \<Rightarrow> string \<Rightarrow> (string \<Rightarrow> open_item option) \<Rightarrow> string
     \<Rightarrow> allocation_input \<Rightarrow> settlement_error + calculated_allocation" where
  "calculate_allocation D T c rate items functional a =
     bindE (option_to_result AllocationMismatch (matching_item items c a)) (\<lambda>item.
     bindE (setm (quantize_money D (TextIn (al_amount a)) (sc_currency c))) (\<lambda>amount.
     bindE (setm (equals_literal D amount (al_amount a))) (\<lambda>precise.
     bindE (require precise AllocationPrecision) (\<lambda>_.
     bindE (setm (exact D (TextIn (oi_original_transaction item)))) (\<lambda>original_transaction.
     bindE (setm (exact D (TextIn (oi_original_functional item)))) (\<lambda>original_functional.
     bindE (setm (exact D (TextIn (oi_allocated_transaction item)))) (\<lambda>allocated_transaction.
     bindE (setm (exact D (TextIn (oi_allocated_carrying item)))) (\<lambda>allocated_carrying.
     let remaining_transaction = dec_minus D original_transaction allocated_transaction;
         remaining_carrying = dec_minus D original_functional allocated_carrying in
     bindE (throw_if (\<not> dec_gt D remaining_transaction (dec_int D 0) \<or> \<not> dec_gt D remaining_carrying (dec_int D 0)
         \<or> dec_gt D amount remaining_transaction) ExceedsBalance) (\<lambda>_.
     bindE (setm (carrying_amount D amount original_transaction original_functional
         remaining_transaction remaining_carrying functional)) (\<lambda>carrying.
     bindE (setm (bindE (times_literal D amount rate) (\<lambda>p. quantize_money D (DecIn p) functional))) (\<lambda>settlement.
     bindE (throw_if (\<not> dec_gt D carrying (dec_int D 0) \<or> \<not> dec_gt D settlement (dec_int D 0))
         ZeroFunctional) (\<lambda>_.
     let carrying_rate = dec_places D 18 (dec_div D carrying amount) in
     bindE (setm (quantize_money D (DecIn (dec_times D amount carrying_rate)) functional)) (\<lambda>check.
     bindE (require (dec_eq D check carrying) CarryingRateInexact) (\<lambda>_.
     let realized = realized_fx D (sp_position (settlement_kind_policy (sc_kind c))) settlement carrying in
     bindE (require (truthy (oi_fx_effective item) \<and> T (or_else (oi_fx_effective item) []))
         EffectiveTimeMissing) (\<lambda>_.
     bindE (setm (money_string D (DecIn amount) (sc_currency c))) (\<lambda>amount_text.
     bindE (setm (money_string D (DecIn carrying) functional)) (\<lambda>carrying_text.
     bindE (setm (money_string D (DecIn settlement) functional)) (\<lambda>settlement_text.
     bindE (setm (money_string D (DecIn realized) functional)) (\<lambda>realized_text.
     Inr \<lparr>ca_item = oi_id item, ca_transaction = amount_text, ca_carrying = carrying_text,
       ca_settlement = settlement_text, ca_realized = realized_text, ca_rate = dec_plain D carrying_rate,
       ca_source = or_else (oi_fx_source item) ''OPEN_ITEM_CARRYING_SNAPSHOT'',
       ca_effective = or_else (oi_fx_effective item) []\<rparr>)))))))))))))))))))"

definition calculate_settlement_allocations ::
  "'d decimal_api \<Rightarrow> (string \<Rightarrow> bool) \<Rightarrow> settlement_command \<Rightarrow> (string \<Rightarrow> open_item option) \<Rightarrow> string
     \<Rightarrow> settlement_error + calculated_allocation list" where
  "calculate_settlement_allocations D T c items functional =
     (case sc_fx c of
        None \<Rightarrow> Inl SettlementFxUnresolved
      | Some x \<Rightarrow> mapE (calculate_allocation D T c (fx_rate x) items functional) (sc_allocations c))"

definition assert_allocation_precision ::
  "'d decimal_api \<Rightarrow> string \<Rightarrow> allocation_input \<Rightarrow> settlement_error + unit" where
  "assert_allocation_precision D currency a =
     bindE (setm (quantize_money D (TextIn (al_amount a)) currency)) (\<lambda>q.
     bindE (setm (equals_literal D q (al_amount a))) (\<lambda>precise. require precise AllocationPrecision))"

definition assert_settlement_command_amounts ::
  "'d decimal_api \<Rightarrow> 'm settlement_fields_scheme \<Rightarrow> settlement_error + unit" where
  "assert_settlement_command_amounts D c =
     bindE (setm (quantize_money D (TextIn (sc_amount c)) (sc_currency c))) (\<lambda>amount.
     bindE (setm (equals_literal D amount (sc_amount c))) (\<lambda>precise.
     bindE (require precise AmountPrecision) (\<lambda>_.
     bindE (mapE (assert_allocation_precision D (sc_currency c)) (sc_allocations c)) (\<lambda>_.
     bindE (setm (sum_exact D (map (\<lambda>a. TextIn (al_amount a)) (sc_allocations c)))) (\<lambda>total.
     bindE (require (dec_eq D total amount) NotFullyAllocated) (\<lambda>_.
     require (distinct (map al_open_item (sc_allocations c))) DuplicateAllocations))))))"

subsection \<open>The snapshot\<close>

record snapshot_allocation =
  sa_item :: string
  sa_transaction :: string
  sa_carrying :: string
  sa_settlement :: string
  sa_realized :: string
  sa_rate :: string

record settlement_snapshot =
  ss_kind :: settlement_kind
  ss_owner :: owner_module
  ss_source_type :: string
  ss_source_number :: string
  ss_ledger :: string
  ss_entity :: string
  ss_party :: string
  ss_control :: string
  ss_period :: string
  ss_accounting_date :: string
  ss_settlement_date :: string
  ss_currency :: string
  ss_functional :: string
  ss_amount :: string
  ss_settlement_functional :: string
  ss_fx :: fx_snapshot
  ss_bank :: "string option"
  ss_settlement :: "string option"
  ss_method :: "settlement_method option"
  ss_gain :: string
  ss_loss :: string
  ss_rounding_account :: "string option"
  ss_description :: string
  ss_allocations :: "snapshot_allocation list"

definition snapshot_funding :: "settlement_snapshot \<Rightarrow> funding_selection" where
  "snapshot_funding s = \<lparr>fs_kind = Some (ss_kind s), fs_bank = ss_bank s, fs_settlement = ss_settlement s,
     fs_method = ss_method s\<rparr>"

definition parse_settlement_snapshot ::
  "schema_formats \<Rightarrow> 'd decimal_api \<Rightarrow> settlement_snapshot \<Rightarrow> settlement_snapshot option" where
  "parse_settlement_snapshot F D s = do {
     num \<leftarrow> source_number (ss_source_number s);
     ledger \<leftarrow> accept (is_uuid F) (ss_ledger s);
     entity \<leftarrow> accept (is_uuid F) (ss_entity s);
     party \<leftarrow> accept (is_uuid F) (ss_party s);
     control \<leftarrow> accept (is_uuid F) (ss_control s);
     period \<leftarrow> accept (is_uuid F) (ss_period s);
     accounting_date \<leftarrow> accept (is_iso_date F) (ss_accounting_date s);
     settlement_date \<leftarrow> accept (is_iso_date F) (ss_settlement_date s);
     currency \<leftarrow> accept (upper_code 3) (ss_currency s);
     functional \<leftarrow> accept (upper_code 3) (ss_functional s);
     x \<leftarrow> parse_fx_snapshot F D (ss_fx s);
     bank \<leftarrow> optional_field (accept (is_uuid F)) (ss_bank s);
     settlement \<leftarrow> optional_field (accept (is_uuid F)) (ss_settlement s);
     gain \<leftarrow> accept (is_uuid F) (ss_gain s);
     loss \<leftarrow> accept (is_uuid F) (ss_loss s);
     rounding \<leftarrow> optional_field (accept (is_uuid F)) (ss_rounding_account s);
     allocations \<leftarrow> parse_all (accept (\<lambda>a. is_uuid F (sa_item a))) (ss_allocations s);
     accept (\<lambda>s. ss_allocations s \<noteq> [] \<and> validate_settlement_funding (snapshot_funding s)
         \<and> validate_snapshot_provider_pair (ss_accounting_date s) (Some (ss_settlement_date s))
             (ss_currency s) (ss_functional s) (ss_fx s))
       (s\<lparr>ss_source_number := num, ss_ledger := ledger, ss_entity := entity, ss_party := party,
          ss_control := control, ss_period := period, ss_accounting_date := accounting_date,
          ss_settlement_date := settlement_date, ss_currency := currency, ss_functional := functional,
          ss_fx := x, ss_bank := bank, ss_settlement := settlement, ss_gain := gain, ss_loss := loss,
          ss_rounding_account := rounding, ss_allocations := allocations\<rparr>) }"

definition snapshot_allocation_of :: "calculated_allocation \<Rightarrow> snapshot_allocation" where
  "snapshot_allocation_of a = \<lparr>sa_item = ca_item a, sa_transaction = ca_transaction a, sa_carrying = ca_carrying a,
     sa_settlement = ca_settlement a, sa_realized = ca_realized a, sa_rate = ca_rate a\<rparr>"

definition build_settlement_snapshot ::
  "schema_formats \<Rightarrow> 'd decimal_api \<Rightarrow> settlement_command \<Rightarrow> string \<Rightarrow> calculated_allocation list
     \<Rightarrow> settlement_error + settlement_snapshot" where
  "build_settlement_snapshot F D c functional as =
     (case sc_fx c of
        None \<Rightarrow> Inl SettlementFxUnresolved
      | Some x \<Rightarrow>
          let policy = settlement_kind_policy (sc_kind c) in
          bindE (map_errorE FundingRejected (resolve_settlement_funding (funding_of c))) (\<lambda>(funding, account, _).
          bindE (setm (money_string D (TextIn (sc_amount c)) (sc_currency c))) (\<lambda>amount.
          bindE (setm (bindE (exact D (TextIn (sc_amount c))) (\<lambda>a.
              bindE (times_literal D a (fx_rate x)) (\<lambda>p. money_string D (DecIn p) functional)))) (\<lambda>worth.
          bindE (setm (exact D (TextIn (fx_rate x)))) (\<lambda>rate.
          option_to_result InvalidSettlementSnapshot (parse_settlement_snapshot F D
            \<lparr>ss_kind = sc_kind c, ss_owner = sp_owner policy, ss_source_type = sp_source_type policy,
             ss_source_number = sc_source_number c, ss_ledger = sc_ledger c, ss_entity = sc_entity c,
             ss_party = sc_party c, ss_control = sc_control c, ss_period = sc_period c,
             ss_accounting_date = sc_accounting_date c, ss_settlement_date = sc_settlement_date c,
             ss_currency = sc_currency c, ss_functional = functional, ss_amount = amount,
             ss_settlement_functional = worth, ss_fx = x\<lparr>fx_rate := dec_plain D rate\<rparr>,
             ss_bank = (if funding = Bank then Some account else None),
             ss_settlement = (if funding = Bank then None else Some account),
             ss_method = (if funding = Bank then None else Some funding),
             ss_gain = sc_gain c, ss_loss = sc_loss c, ss_rounding_account = sc_rounding_account c,
             ss_description = sc_description c, ss_allocations = map snapshot_allocation_of as\<rparr>))))))"

subsection \<open>The journal\<close>

fun settlement_method_label :: "settlement_method \<Rightarrow> string" where
  "settlement_method_label Bank = ''Bank / cash''"
| "settlement_method_label CorporateCard = ''Corporate card''"
| "settlement_method_label ShareholderAdvance = ''Shareholder advance''"
| "settlement_method_label EmployeeReimbursement = ''Employee reimbursement''"
| "settlement_method_label OtherNonCash = ''Other non-cash liability''"

definition funding_side :: "settlement_kind \<Rightarrow> side" where
  "funding_side k = (if k = CustomerReceipt then Debit else Credit)"

definition funding_line ::
  "'d decimal_api \<Rightarrow> settlement_snapshot \<Rightarrow> settlement_method \<Rightarrow> string \<Rightarrow> journal_error + journal_line" where
  "funding_line D s funding account =
     transaction_line D \<lparr>tr_side = funding_side (ss_kind s), tr_account = account,
       tr_amount = TextIn (ss_amount s), tr_currency = ss_currency s, tr_rate = TextIn (fx_rate (ss_fx s)),
       tr_functional_currency = ss_functional s, tr_rate_source = fx_source (ss_fx s),
       tr_rate_effective = fx_effective_at (ss_fx s), tr_functional = None, tr_party = None, tr_event = None,
       tr_tax_snapshot = None,
       tr_memo = ss_source_number s @ '' '' @
         (if funding = Bank then ''bank'' else settlement_method_label funding) @ '' settlement''\<rparr>"

definition open_item_line ::
  "'d decimal_api \<Rightarrow> settlement_snapshot \<Rightarrow> string \<Rightarrow> calculated_allocation \<Rightarrow> journal_error + journal_line" where
  "open_item_line D s event a =
     transaction_line D \<lparr>tr_side = other_side (funding_side (ss_kind s)), tr_account = ss_control s,
       tr_amount = TextIn (ca_transaction a), tr_currency = ss_currency s, tr_rate = TextIn (ca_rate a),
       tr_functional_currency = ss_functional s, tr_rate_source = ca_source a,
       tr_rate_effective = ca_effective a, tr_functional = Some (TextIn (ca_carrying a)),
       tr_party = Some (ss_party s), tr_event = Some event, tr_tax_snapshot = None,
       tr_memo = ss_source_number s @ '' settlement of open item '' @ ca_item a\<rparr>"

definition realized_fx_line ::
  "'d decimal_api \<Rightarrow> settlement_snapshot \<Rightarrow> 'd \<Rightarrow> journal_error + journal_line list" where
  "realized_fx_line D s realized =
     (if dec_is_zero D realized then Inr []
      else
        let gain = dec_is_pos D realized in
        bindE (transaction_line D \<lparr>tr_side = (if gain then Credit else Debit),
          tr_account = (if gain then ss_gain s else ss_loss s), tr_amount = DecIn (dec_abs D realized),
          tr_currency = ss_functional s, tr_rate = TextIn ''1'', tr_functional_currency = ss_functional s,
          tr_rate_source = ''SYSTEM_REALIZED_FX'', tr_rate_effective = fx_effective_at (ss_fx s),
          tr_functional = None, tr_party = None, tr_event = None, tr_tax_snapshot = None,
          tr_memo = ss_source_number s @ '' realized FX '' @ (if gain then ''gain'' else ''loss'')\<rparr>) (\<lambda>l.
        Inr [l]))"

definition build_settlement_journal_lines ::
  "'d decimal_api \<Rightarrow> settlement_snapshot \<Rightarrow> calculated_allocation list \<Rightarrow> string
     \<Rightarrow> settlement_error + journal_line list" where
  "build_settlement_journal_lines D s as event =
     bindE (map_errorE FundingRejected (resolve_settlement_funding (snapshot_funding s))) (\<lambda>(funding, account, _).
     bindE (map_errorE SettlementLine (funding_line D s funding account)) (\<lambda>paid.
     bindE (map_errorE SettlementLine (mapE (open_item_line D s event) as)) (\<lambda>items.
     bindE (setm (sum_exact D (map (\<lambda>a. TextIn (ca_realized a)) as))) (\<lambda>realized.
     bindE (map_errorE SettlementLine (realized_fx_line D s realized)) (\<lambda>gain_or_loss.
     map_errorE SettlementLine (balance_journal_lines D (paid # items @ gain_or_loss)
       \<lparr>br_functional = ss_functional s, br_account = ss_rounding_account s,
        br_effective = fx_effective_at (ss_fx s), br_memo = ss_source_number s @ '' settlement FX rounding''\<rparr>))))))"

subsection \<open>Reversal\<close>

text \<open>A row of the original journal; \<open>to_iso t\<close> is \<open>new Date(t).toISOString()\<close>.\<close>

record original_line =
  ol_account :: string
  ol_debit_functional :: string
  ol_credit_functional :: string
  ol_currency :: string
  ol_debit_transaction :: string
  ol_credit_transaction :: string
  ol_rate :: string
  ol_rate_source :: string
  ol_rate_effective :: string
  ol_party :: "string option"
  ol_event :: "string option"
  ol_tax_snapshot :: "string option"
  ol_memo :: "string option"

definition reversal_memo :: "string option \<Rightarrow> string" where
  "reversal_memo memo =
     (if truthy memo then or_else memo [] @ '' '' @ [CHR 0xB7] @ '' '' else []) @ ''Document void reversal''"

definition reverse_line :: "(string \<Rightarrow> string) \<Rightarrow> original_line \<Rightarrow> journal_line" where
  "reverse_line to_iso l =
     \<lparr>ln_account = ol_account l, ln_debit_functional = ol_credit_functional l,
      ln_credit_functional = ol_debit_functional l, ln_currency = ol_currency l,
      ln_debit_transaction = ol_credit_transaction l, ln_credit_transaction = ol_debit_transaction l,
      ln_rate = ol_rate l, ln_rate_source = ol_rate_source l, ln_rate_effective = to_iso (ol_rate_effective l),
      ln_party = ol_party l, ln_event = ol_event l, ln_tax_snapshot = ol_tax_snapshot l,
      ln_memo = reversal_memo (ol_memo l)\<rparr>"

definition reverse_journal_lines :: "(string \<Rightarrow> string) \<Rightarrow> original_line list \<Rightarrow> journal_line list" where
  "reverse_journal_lines to_iso ls = map (reverse_line to_iso) ls"

section \<open>What an allocation and a settlement promise\<close>

definition numeric_text :: "string \<Rightarrow> bool" where
  "numeric_text s \<longleftrightarrow> text_amount s (text_value s)"

text \<open>
  An open item as the database keeps it: positive original amounts in the minor units of
  its two currencies, up to \<open>10 ^ 20\<close>, and what earlier settlements took.
\<close>

definition open_item_valued :: "nat \<Rightarrow> nat \<Rightarrow> open_item \<Rightarrow> bool" where
  "open_item_valued n m i \<longleftrightarrow>
     (\<forall>t \<in> {oi_original_transaction i, oi_original_functional i, oi_allocated_transaction i,
         oi_allocated_carrying i}. numeric_text t \<and> 0 \<le> text_value t \<and> text_value t \<le> 10 ^ 20)
     \<and> scaled n (text_value (oi_original_transaction i)) \<and> scaled n (text_value (oi_allocated_transaction i))
     \<and> scaled m (text_value (oi_original_functional i)) \<and> scaled m (text_value (oi_allocated_carrying i))"

definition remaining_transaction :: "open_item \<Rightarrow> rat" where
  "remaining_transaction i = text_value (oi_original_transaction i) - text_value (oi_allocated_transaction i)"

definition remaining_carrying :: "open_item \<Rightarrow> rat" where
  "remaining_carrying i = text_value (oi_original_functional i) - text_value (oi_allocated_carrying i)"

text \<open>
  The amounts of an allocation at the settlement rate \<open>r\<close>: the carrying amount is the
  transaction amount at the carrying rate, the settlement amount is it at \<open>r\<close>, and the
  realized result is their difference, positive for a gain.
\<close>

definition allocation_valued ::
  "(rat \<Rightarrow> rat) \<Rightarrow> nat \<Rightarrow> nat \<Rightarrow> position \<Rightarrow> rat \<Rightarrow> calculated_allocation \<Rightarrow> bool" where
  "allocation_valued rnd n m p r x \<longleftrightarrow>
     numeric_text (ca_transaction x) \<and> numeric_text (ca_carrying x) \<and> numeric_text (ca_settlement x)
     \<and> numeric_text (ca_realized x) \<and> numeric_text (ca_rate x)
     \<and> 0 < text_value (ca_transaction x) \<and> scaled n (text_value (ca_transaction x))
     \<and> 0 < text_value (ca_carrying x) \<and> text_value (ca_carrying x) \<le> 10 ^ 20
     \<and> scaled m (text_value (ca_carrying x))
     \<and> text_value (ca_carrying x) = half_up m (rnd (text_value (ca_transaction x) * text_value (ca_rate x)))
     \<and> 0 < text_value (ca_settlement x)
     \<and> text_value (ca_settlement x) = half_up m (rnd (text_value (ca_transaction x) * r))
     \<and> text_value (ca_realized x) = (if p = ReceivablePosition
          then text_value (ca_settlement x) - text_value (ca_carrying x)
          else text_value (ca_carrying x) - text_value (ca_settlement x))"

text \<open>What is taken off the item: all that is left of it, or its share.\<close>

definition allocation_takes ::
  "(rat \<Rightarrow> rat) \<Rightarrow> nat \<Rightarrow> open_item \<Rightarrow> calculated_allocation \<Rightarrow> bool" where
  "allocation_takes rnd m i x \<longleftrightarrow>
     text_value (ca_transaction x) \<le> remaining_transaction i \<and> 0 < remaining_carrying i
     \<and> (text_value (ca_transaction x) = remaining_transaction i \<longrightarrow>
          text_value (ca_carrying x) = remaining_carrying i)
     \<and> (text_value (ca_transaction x) \<noteq> remaining_transaction i \<longrightarrow>
          text_value (ca_carrying x) = half_up m (rnd (text_value (ca_transaction x)
            * text_value (oi_original_functional i) / text_value (oi_original_transaction i))))"

section \<open>Lemmas\<close>

lemma numeric_text_amount: "text_amount s q \<Longrightarrow> numeric_text s \<and> text_value s = q"
  by (simp add: numeric_text_def)

lemma open_item_remaining:
  assumes "open_item_valued n m i" "n \<le> 3" "m \<le> 3"
  shows "scaled n (remaining_transaction i)" "scaled m (remaining_carrying i)"
    "fits (remaining_transaction i)" "fits (remaining_carrying i)" "\<bar>remaining_carrying i\<bar> \<le> 10 ^ 20"
proof -
  show sc: "scaled n (remaining_transaction i)" "scaled m (remaining_carrying i)"
    using assms(1) by (auto simp: open_item_valued_def remaining_transaction_def remaining_carrying_def)
  have "\<bar>remaining_transaction i\<bar> \<le> 10 ^ 20" and b: "\<bar>remaining_carrying i\<bar> \<le> 10 ^ 20"
    using assms(1) by (auto simp: open_item_valued_def remaining_transaction_def remaining_carrying_def abs_le_iff)
  then show "fits (remaining_transaction i)" "fits (remaining_carrying i)"
    using fits_scaled [OF sc(1), of 20] fits_scaled [OF sc(2), of 20] assms(2,3) by simp_all
  show "\<bar>remaining_carrying i\<bar> \<le> 10 ^ 20" by (rule b)
qed

lemma open_item_share:
  assumes "open_item_valued n m i" "n \<le> 3" "m \<le> 3" "scaled n a" "0 < a" "a \<le> remaining_transaction i"
  shows "fits (a * text_value (oi_original_functional i))"
    "\<bar>a * text_value (oi_original_functional i) / text_value (oi_original_transaction i)\<bar> \<le> 10 ^ 20"
    "0 < text_value (oi_original_transaction i)"
proof -
  let ?of = "text_value (oi_original_functional i)" and ?ot = "text_value (oi_original_transaction i)"
  have i: "0 \<le> ?of" "?of \<le> 10 ^ 20" "scaled m ?of" "0 \<le> ?ot" "?ot \<le> 10 ^ 20"
    and at: "0 \<le> text_value (oi_allocated_transaction i)"
    using assms(1) by (auto simp: open_item_valued_def)
  have a: "a \<le> ?ot" using assms(6) at by (simp add: remaining_transaction_def)
  show ot: "0 < ?ot" using a assms(5) by simp
  have "a * ?of \<le> 10 ^ 20 * 10 ^ 20"
    by (rule mult_mono) (use assms(5) a i in linarith)+
  moreover have "0 \<le> a * ?of" using assms(5) i by simp
  ultimately have b: "\<bar>a * ?of\<bar> \<le> 10 ^ 40" by simp
  show "fits (a * ?of)" using fits_scaled [OF scaled_mult [OF assms(4) i(3)] b] assms(2,3) by simp
  have "a * ?of \<le> ?ot * 10 ^ 20" using a i assms(5) by (intro mult_mono) auto
  then show "\<bar>a * ?of / ?ot\<bar> \<le> 10 ^ 20" using ot i assms(5) by (simp add: abs_mult divide_le_eq mult.commute)
qed

context decimal_lib
begin

lemma equals_literal_iff:
  assumes "exact D (TextIn s) = Inr d" "dec_finite D a"
  shows "equals_literal D a s = Inr (val a = val d)"
  using assms by (auto simp: equals_literal_def check_finite_def split: if_splits option.splits)

lemma quantized_precise:
  assumes "quantize_money D (TextIn s) c = Inr q" "equals_literal D q s = Inr True"
  shows "\<exists>d n. exact D (TextIn s) = Inr d \<and> dec_finite D d \<and> minor_units c = Inr n \<and> scaled n (val d)
    \<and> dec_finite D q \<and> val q = val d"
proof -
  obtain d n where q: "exact D (TextIn s) = Inr d" "minor_units c = Inr n" "q = dec_places D n d"
    using assms(1) by (auto simp: quantize_money_Inr_iff simp del: exact.simps)
  have d: "dec_finite D d" by (rule exact_finite [OF q(1)])
  then have "val q = val d" using equals_literal_iff [OF q(1)] assms(2) q(3) by simp
  then have "scaled n (val d)" using d q(3) by (metis half_up_scaled places_val)
  then show ?thesis using q d \<open>val q = val d\<close> by auto
qed

lemma numeric_exact:
  assumes "numeric_text s" "exact D (TextIn s) = Inr d"
  shows "dec_finite D d" "val d = text_value s"
  using exact_text [OF assms(1) [unfolded numeric_text_def]] assms(2) by auto

lemma money_string_numeric:
  assumes "money_string D (DecIn d) c = Inr t" "dec_finite D d" "minor_units c = Inr n"
  shows "numeric_text t" "text_value t = half_up n (val d)"
  using money_string_text [of "DecIn d" d c n] assms by (auto simp: numeric_text_def)

lemma calculate_allocation_Inr:
  assumes "calculate_allocation D T c rate items functional a = Inr x"
  obtains item amount ot og gone ac carrying settlement p check where
    "matching_item items c a = Some item"
    "quantize_money D (TextIn (al_amount a)) (sc_currency c) = Inr amount"
    "equals_literal D amount (al_amount a) = Inr True"
    "exact D (TextIn (oi_original_transaction item)) = Inr ot"
    "exact D (TextIn (oi_original_functional item)) = Inr og"
    "exact D (TextIn (oi_allocated_transaction item)) = Inr gone"
    "exact D (TextIn (oi_allocated_carrying item)) = Inr ac"
    "dec_gt D (dec_minus D ot gone) (dec_int D 0)" "dec_gt D (dec_minus D og ac) (dec_int D 0)"
    "\<not> dec_gt D amount (dec_minus D ot gone)"
    "carrying_amount D amount ot og (dec_minus D ot gone) (dec_minus D og ac) functional = Inr carrying"
    "times_literal D amount rate = Inr p" "quantize_money D (DecIn p) functional = Inr settlement"
    "dec_gt D carrying (dec_int D 0)" "dec_gt D settlement (dec_int D 0)"
    "quantize_money D (DecIn (dec_times D amount (dec_places D 18 (dec_div D carrying amount)))) functional = Inr check"
    "dec_eq D check carrying" "truthy (oi_fx_effective item)" "T (or_else (oi_fx_effective item) [])"
    "ca_item x = oi_id item" "money_string D (DecIn amount) (sc_currency c) = Inr (ca_transaction x)"
    "money_string D (DecIn carrying) functional = Inr (ca_carrying x)"
    "money_string D (DecIn settlement) functional = Inr (ca_settlement x)"
    "money_string D (DecIn (realized_fx D (sp_position (settlement_kind_policy (sc_kind c))) settlement carrying))
       functional = Inr (ca_realized x)"
    "ca_rate x = dec_plain D (dec_places D 18 (dec_div D carrying amount))"
    "ca_source x = or_else (oi_fx_source item) ''OPEN_ITEM_CARRYING_SNAPSHOT''"
    "ca_effective x = or_else (oi_fx_effective item) []"
  using assms unfolding calculate_allocation_def Let_def
  by (elim bindE_Inr_iff [THEN iffD1, THEN exE] conjE)
    (auto simp: throw_if_Inr_iff map_errorE_Inr_iff bindE_Inr_iff option_to_result_Inr_iff simp del: exact.simps)


lemma converted_bound:
  assumes "q \<le> 10 ^ 20" "0 < half_up m (rnd q)" shows "0 < q" "half_up m (rnd q) \<le> 10 ^ 20"
proof -
  show pos: "0 < q"
  proof (rule ccontr)
    assume "\<not> 0 < q"
    then have "rnd q \<le> 0" by (intro rnd_nonpos) simp
    then have "half_up m (rnd q) \<le> half_up m 0" by (rule half_up_mono)
    with assms(2) show False by simp
  qed
  then have "\<bar>rnd q\<bar> \<le> 10 ^ 20" using assms(1) by (intro rnd_pow_bound) simp_all
  from half_up_pow_bound [OF this, of m] show "half_up m (rnd q) \<le> 10 ^ 20" by (simp only: abs_le_iff)
qed

lemma carrying_amount_ok:
  assumes "carrying_amount D amount ot og rt rc functional = Inr k"
    and fin: "dec_finite D amount" "dec_finite D ot" "dec_finite D og" "dec_finite D rt" "dec_finite D rc"
    and m: "minor_units functional = Inr m" and ot: "val ot \<noteq> 0" and f: "fits (val amount * val og)"
  shows "dec_finite D k" "val amount = val rt \<Longrightarrow> val k = val rc"
    "val amount \<noteq> val rt \<Longrightarrow> val k = half_up m (rnd (val amount * val og / val ot))"
proof -
  let ?q = "dec_div D (dec_times D amount og) ot"
  have q: "dec_finite D ?q" "val ?q = rnd (val amount * val og / val ot)"
    using fin ot f by (auto simp: div_val times_exact)
  show "dec_finite D k" "val amount = val rt \<Longrightarrow> val k = val rc"
    "val amount \<noteq> val rt \<Longrightarrow> val k = half_up m (rnd (val amount * val og / val ot))"
    using assms(1) fin m q by (auto simp: carrying_amount_def quantize_money_Inr_iff split: if_splits)
qed

lemma calculate_allocation_ok:
  assumes ok: "calculate_allocation D T c rate items functional a = Inr x"
    and rate: "exact D (TextIn rate) = Inr rd" "0 < val rd"
    and units: "minor_units (sc_currency c) = Inr n" "minor_units functional = Inr m"
    and items: "\<And>k i. items k = Some i \<Longrightarrow> open_item_valued n m i"
    and a: "numeric_text (al_amount a)" "text_value (al_amount a) * val rd \<le> 10 ^ 20"
  shows "\<exists>i. matching_item items c a = Some i \<and> ca_item x = oi_id i
    \<and> text_value (ca_transaction x) = text_value (al_amount a)
    \<and> allocation_valued rnd n m (sp_position (settlement_kind_policy (sc_kind c))) (val rd) x
    \<and> allocation_takes rnd m i x"
  using ok
proof (cases rule: calculate_allocation_Inr)
  case (1 item amount ot og gone ac carrying settlement p check)
  let ?a = "text_value (al_amount a)" and ?r = "val rd"
  have n3: "n \<le> 3" "m \<le> 3" using units minor_units_le_3 by auto
  have item: "open_item_valued n m item"
    using 1(1) items by (auto simp: matching_item_def split: option.splits if_splits)
  have am: "dec_finite D amount" "val amount = ?a" "scaled n ?a"
    using quantized_precise [OF 1(2,3)] numeric_exact [OF a(1)] units(1) by auto
  have row: "dec_finite D ot" "val ot = text_value (oi_original_transaction item)"
    "dec_finite D og" "val og = text_value (oi_original_functional item)"
    "dec_finite D gone" "val gone = text_value (oi_allocated_transaction item)"
    "dec_finite D ac" "val ac = text_value (oi_allocated_carrying item)"
    using item numeric_exact 1(4-7) by (auto simp: open_item_valued_def)
  note left = open_item_remaining [OF item]
  have rt: "dec_finite D (dec_minus D ot gone)" "val (dec_minus D ot gone) = remaining_transaction item"
    and rc: "dec_finite D (dec_minus D og ac)" "val (dec_minus D og ac) = remaining_carrying item"
    using row left(3,4) n3 by (simp_all add: minus_exact remaining_transaction_def remaining_carrying_def)
  have rem: "0 < remaining_transaction item" "0 < remaining_carrying item" "?a \<le> remaining_transaction item"
    using 1(8-10) rt rc am by auto
  have p: "dec_finite D p" "val p = rnd (?a * ?r)"
    using 1(12) times_input_val [OF rate(1), of amount] am exact_finite [OF rate(1)] by (simp_all add: times_val)
  have st: "dec_finite D settlement" "val settlement = half_up m (rnd (?a * ?r))"
    using 1(13) p units(2) by (auto simp: quantize_money_Inr_iff)
  have s_pos: "0 < half_up m (rnd (?a * ?r))" using 1(15) st by simp
  note sb = converted_bound [OF a(2) s_pos]
  have a_pos: "0 < ?a" using sb(1) rate(2) by (simp add: zero_less_mult_iff)
  note share = open_item_share [OF item n3 am(3) a_pos rem(3)]
  have ot0: "val ot \<noteq> 0" and prod: "fits (val amount * val og)" using share row am by simp_all
  note carried = carrying_amount_ok [OF 1(11) am(1) row(1,3) rt(1) rc(1) units(2) ot0 prod]
  have k_sc: "scaled m (val carrying)" and k_b: "\<bar>val carrying\<bar> \<le> 10 ^ 20"
  proof -
    have "val carrying = remaining_carrying item
      \<or> val carrying = half_up m (rnd (?a * val og / val ot))" using carried(2,3) rc am by auto
    moreover have "\<bar>half_up m (rnd (?a * val og / val ot))\<bar> \<le> 10 ^ 20"
      using share(2) row by (intro half_up_pow_bound rnd_pow_bound) simp_all
    ultimately show "scaled m (val carrying)" "\<bar>val carrying\<bar> \<le> 10 ^ 20"
      using left(2,5) n3 by auto
  qed
  have k_pos: "0 < val carrying" using 1(14) carried(1) by simp
  let ?q = "dec_places D 18 (dec_div D carrying amount)"
  have q: "dec_finite D ?q" using carried(1) am a_pos by auto
  have ck: "val carrying = half_up m (rnd (?a * val ?q))"
    using 1(16,17) q am carried(1) units(2) by (auto simp: quantize_money_Inr_iff times_val)
  let ?pos = "sp_position (settlement_kind_policy (sc_kind c))"
  have rz: "dec_finite D (realized_fx D ?pos settlement carrying)"
    "val (realized_fx D ?pos settlement carrying) = (if ?pos = ReceivablePosition
       then val settlement - val carrying else val carrying - val settlement)"
    "scaled m (val (realized_fx D ?pos settlement carrying))"
  proof -
    have sc: "scaled m (val settlement - val carrying)" using st k_sc by auto
    have "\<bar>val settlement - val carrying\<bar> \<le> 10 ^ 21"
      using st sb(2) s_pos k_b by (auto simp: abs_le_iff)
    then have f: "fits (val settlement - val carrying)" using fits_scaled [OF sc, of 21] n3 by simp
    then have f': "fits (val carrying - val settlement)" using fits_uminus [of "val settlement - val carrying"] by simp
    show "dec_finite D (realized_fx D ?pos settlement carrying)"
      "val (realized_fx D ?pos settlement carrying) = (if ?pos = ReceivablePosition
         then val settlement - val carrying else val carrying - val settlement)"
      "scaled m (val (realized_fx D ?pos settlement carrying))"
      using st(1) carried(1) f f' sc scaled_uminus [OF sc]
      by (auto simp: realized_fx_def minus_exact)
  qed
  note texts = money_string_numeric [OF 1(21) am(1) units(1)] money_string_numeric [OF 1(22) carried(1) units(2)]
    money_string_numeric [OF 1(23) st(1) units(2)] money_string_numeric [OF 1(24) rz(1) units(2)]
  have vals: "text_value (ca_transaction x) = ?a" "text_value (ca_carrying x) = val carrying"
    "text_value (ca_settlement x) = val settlement"
    "text_value (ca_realized x) = val (realized_fx D ?pos settlement carrying)"
    using texts am k_sc st rz(3) by (simp_all add: half_up_id)
  have rate_text: "numeric_text (ca_rate x)" "text_value (ca_rate x) = val ?q"
    using numeric_text_amount [OF plain_value_plain [OF q]] 1(25) by auto
  have "allocation_valued rnd n m ?pos ?r x"
    unfolding allocation_valued_def vals rate_text(2)
    using texts(1,3,5,7) rate_text(1) a_pos am(3) k_pos k_b k_sc ck s_pos st(2) rz(2) by auto
  moreover have "allocation_takes rnd m item x"
    unfolding allocation_takes_def vals using rem carried(2,3) rt rc am row by auto
  ultimately show ?thesis using 1(1,20) vals(1) by blast
qed


lemma calculate_settlement_allocations_ok:
  assumes ok: "calculate_settlement_allocations D T c items functional = Inr xs"
    and rate: "sc_fx c = Some x" "exact D (TextIn (fx_rate x)) = Inr rd" "0 < val rd"
    and units: "minor_units (sc_currency c) = Inr n" "minor_units functional = Inr m"
    and items: "\<And>k i. items k = Some i \<Longrightarrow> open_item_valued n m i"
    and amounts: "\<And>a. a \<in> set (sc_allocations c) \<Longrightarrow>
      numeric_text (al_amount a) \<and> text_value (al_amount a) * val rd \<le> 10 ^ 20"
  shows "list_all2 (\<lambda>a x. \<exists>i. matching_item items c a = Some i \<and> ca_item x = oi_id i
      \<and> text_value (ca_transaction x) = text_value (al_amount a)
      \<and> allocation_valued rnd n m (sp_position (settlement_kind_policy (sc_kind c))) (val rd) x
      \<and> allocation_takes rnd m i x) (sc_allocations c) xs"
proof -
  have "list_all2 (\<lambda>a x'. calculate_allocation D T c (fx_rate x) items functional a = Inr x') (sc_allocations c) xs"
    using ok rate(1) by (simp add: calculate_settlement_allocations_def mapE_Inr_iff)
  then show ?thesis
    by (rule list.rel_mono_strong) (rule calculate_allocation_ok [OF _ rate(2,3) units items]; use amounts in blast)
qed

lemma assert_amounts_ok:
  assumes ok: "assert_settlement_command_amounts D c = Inr u"
    and a: "exact D (TextIn (sc_amount c)) = Inr A" and n: "minor_units (sc_currency c) = Inr n"
    and amounts: "\<And>a. a \<in> set (sc_allocations c) \<Longrightarrow> numeric_text (al_amount a) \<and> ledger_amount (text_value (al_amount a))"
    and len: "length (sc_allocations c) \<le> 10 ^ 12"
  shows "scaled n (val A)" "sum_list (map (text_value \<circ> al_amount) (sc_allocations c)) = val A"
    "distinct (map al_open_item (sc_allocations c))"
proof -
  obtain amount total where o:
    "quantize_money D (TextIn (sc_amount c)) (sc_currency c) = Inr amount"
    "equals_literal D amount (sc_amount c) = Inr True"
    "sum_exact D (map (\<lambda>a. TextIn (al_amount a)) (sc_allocations c)) = Inr total"
    "dec_eq D total amount" "distinct (map al_open_item (sc_allocations c))"
    using ok by (auto simp: assert_settlement_command_amounts_def bindE_Inr_iff throw_if_Inr_iff map_errorE_Inr_iff)
  show "distinct (map al_open_item (sc_allocations c))" by (rule o(5))
  have am: "dec_finite D amount" "val amount = val A" "scaled n (val A)"
    using quantized_precise [OF o(1,2)] a n by auto
  show "scaled n (val A)" by (rule am(3))
  have "list_all2 text_amount (map al_amount (sc_allocations c)) (map (text_value \<circ> al_amount) (sc_allocations c))"
    using amounts unfolding numeric_text_def list_all2_map1 list_all2_map2 list_all2_same o_def by blast
  from sum_exact_texts [OF this] amounts len
  obtain r where "sum_exact D (map (\<lambda>a. TextIn (al_amount a)) (sc_allocations c)) = Inr r"
    "dec_finite D r" "val r = sum_list (map (text_value \<circ> al_amount) (sc_allocations c))"
    by (auto simp: o_def)
  then show "sum_list (map (text_value \<circ> al_amount) (sc_allocations c)) = val A"
    using o(3,4) am by auto
qed

end

lemma optional_accept_Some:
  "optional_field (accept p) m = Some r \<longleftrightarrow> r = m \<and> (\<forall>x. m = Some x \<longrightarrow> p x)"
  by (cases m) (auto simp: accept_Some_iff)

lemma parse_settlement_snapshot_Some:
  assumes "parse_settlement_snapshot F D s = Some t"
  shows "ss_kind t = ss_kind s" "ss_currency t = ss_currency s" "ss_functional t = ss_functional s"
    "ss_amount t = ss_amount s" "ss_control t = ss_control s" "ss_gain t = ss_gain s" "ss_loss t = ss_loss s"
    "ss_rounding_account t = ss_rounding_account s" "snapshot_funding t = snapshot_funding s"
    "parse_fx_snapshot F D (ss_fx s) = Some (ss_fx t)" "ss_party t = ss_party s"
  using assms
  by (auto simp: parse_settlement_snapshot_def snapshot_funding_def bind_eq_Some_conv optional_accept_Some)

context decimal_lib
begin

lemma settlement_snapshot_ok:
  assumes ok: "build_settlement_snapshot F D c functional as = Inr s"
    and x: "sc_fx c = Some x" "exact D (TextIn (fx_rate x)) = Inr rd"
    and A: "exact D (TextIn (sc_amount c)) = Inr A" "minor_units (sc_currency c) = Inr n"
  shows "ss_kind s = sc_kind c" "ss_currency s = sc_currency c" "ss_functional s = functional"
    "ss_control s = sc_control c" "ss_party s = sc_party c" "ss_gain s = sc_gain c" "ss_loss s = sc_loss c"
    "ss_rounding_account s = sc_rounding_account c"
    "text_amount (ss_amount s) (half_up n (val A))" "text_amount (fx_rate (ss_fx s)) (val rd)"
    "0 < val rd" "scaled 18 (val rd)"
proof -
  obtain amount t where t: "parse_settlement_snapshot F D t = Some s"
    "money_string D (TextIn (sc_amount c)) (sc_currency c) = Inr amount"
    "ss_kind t = sc_kind c" "ss_currency t = sc_currency c" "ss_functional t = functional"
    "ss_control t = sc_control c" "ss_party t = sc_party c" "ss_gain t = sc_gain c" "ss_loss t = sc_loss c"
    "ss_rounding_account t = sc_rounding_account c" "ss_amount t = amount"
    "fx_rate (ss_fx t) = dec_plain D rd"
    using ok x
    by (auto simp: build_settlement_snapshot_def Let_def bindE_Inr_iff map_errorE_Inr_iff
        option_to_result_Inr_iff case_prod_beta simp del: exact.simps)
  note p = parse_settlement_snapshot_Some [OF t(1)]
  show "ss_kind s = sc_kind c" "ss_currency s = sc_currency c" "ss_functional s = functional"
    "ss_control s = sc_control c" "ss_party s = sc_party c" "ss_gain s = sc_gain c" "ss_loss s = sc_loss c"
    "ss_rounding_account s = sc_rounding_account c"
    using p t(3-10) by simp_all
  show "text_amount (ss_amount s) (half_up n (val A))"
    using money_string_text [OF A] t(2,11) p(4) by auto
  have v: "plain_value (dec_plain D rd) = Some (val rd)" by (rule plain_value_plain [OF exact_finite [OF x(2)]])
  have "positive_rate D (dec_plain D rd) = Some (fx_rate (ss_fx s))"
    using p(10) t(12) by (auto simp: parse_fx_snapshot_def parse_fx_fields_def bind_eq_Some_conv)
  then obtain q where q: "text_amount (fx_rate (ss_fx s)) q" "scaled 18 q" "0 < q"
    and "fx_rate (ss_fx s) = trim (dec_plain D rd)"
    using positive_rate_value [of "dec_plain D rd" "fx_rate (ss_fx s)"]
    by (auto simp: positive_rate_def trimmed_match_def)
  then have "q = val rd" using v plain_value_trim [OF v] by simp
  then show "text_amount (fx_rate (ss_fx s)) (val rd)" "0 < val rd" "scaled 18 (val rd)" using q by simp_all
qed


lemma funding_line_ok:
  assumes ok: "funding_line D s funding account = Inr l"
    and A: "text_amount (ss_amount s) A" "scaled n A" and r: "text_amount (fx_rate (ss_fx s)) r"
    and units: "minor_units (ss_currency s) = Inr n" "minor_units (ss_functional s) = Inr m"
  shows "line_converts rnd m l" "line_transaction l = side_sign (funding_side (ss_kind s)) * A"
    "ln_currency l = ss_currency s" "ln_account l = account"
    "line_functional l = side_sign (funding_side (ss_kind s)) * half_up m (rnd (A * r))" "0 < A"
proof -
  obtain d where d: "exact D (TextIn (ss_amount s)) = Inr d" "val d = A" using exact_text [OF A(1)] by blast
  obtain e where e: "exact D (TextIn (fx_rate (ss_fx s))) = Inr e" "val e = r" using exact_text [OF r] by blast
  note t = transaction_line_ok [OF ok [unfolded funding_line_def], where a = d and n = n and m = m]
  show "line_converts rnd m l" "line_transaction l = side_sign (funding_side (ss_kind s)) * A"
    "ln_currency l = ss_currency s"
    "line_functional l = side_sign (funding_side (ss_kind s)) * half_up m (rnd (A * r))" "0 < A"
    using t d e A(2) units by (simp_all del: exact.simps)
  show "ln_account l = account"
    using ok by (auto simp: funding_line_def elim!: transaction_line_Inr)
qed

lemma open_item_line_ok:
  assumes ok: "open_item_line D s event x = Inr l" and v: "allocation_valued rnd n m p r x"
    and units: "minor_units (ss_currency s) = Inr n" "minor_units (ss_functional s) = Inr m"
  shows "line_converts rnd m l"
    "line_transaction l = - side_sign (funding_side (ss_kind s)) * text_value (ca_transaction x)"
    "line_functional l = - side_sign (funding_side (ss_kind s)) * text_value (ca_carrying x)"
    "ln_currency l = ss_currency s" "ln_account l = ss_control s" "ln_party l = Some (ss_party s)"
proof -
  have texts: "text_amount (ca_transaction x) (text_value (ca_transaction x))"
    "text_amount (ca_carrying x) (text_value (ca_carrying x))" "text_amount (ca_rate x) (text_value (ca_rate x))"
    and sc: "scaled n (text_value (ca_transaction x))" "scaled m (text_value (ca_carrying x))"
    and k: "text_value (ca_carrying x) = half_up m (rnd (text_value (ca_transaction x) * text_value (ca_rate x)))"
    using v unfolding allocation_valued_def numeric_text_def by blast+
  obtain d where d: "exact D (TextIn (ca_transaction x)) = Inr d" "val d = text_value (ca_transaction x)"
    using exact_text [OF texts(1)] by blast
  obtain e where e: "exact D (TextIn (ca_carrying x)) = Inr e" "val e = text_value (ca_carrying x)"
    using exact_text [OF texts(2)] by blast
  obtain q where q: "exact D (TextIn (ca_rate x)) = Inr q" "val q = text_value (ca_rate x)"
    using exact_text [OF texts(3)] by blast
  note t = transaction_line_ok [OF ok [unfolded open_item_line_def], where a = d and n = n and m = m]
  have f: "\<exists>g fd rd. Some (TextIn (ca_carrying x)) = Some g \<and> exact D g = Inr fd \<and> scaled m (val fd)
      \<and> exact D (TextIn (ca_rate x)) = Inr rd \<and> val fd = half_up m (rnd (val d * val rd))"
    by (rule exI [where x = "TextIn (ca_carrying x)"]) (use d e q sc k in \<open>simp del: exact.simps\<close>)
  show "line_converts rnd m l"
    "line_transaction l = - side_sign (funding_side (ss_kind s)) * text_value (ca_transaction x)"
    "ln_currency l = ss_currency s"
    using t(1-3) f d sc(1) units by (simp_all del: exact.simps)
  show "line_functional l = - side_sign (funding_side (ss_kind s)) * text_value (ca_carrying x)"
    using t(5) f d q sc(1) units k by (simp del: exact.simps)
  show "ln_account l = ss_control s" "ln_party l = Some (ss_party s)"
    using ok by (auto simp: open_item_line_def elim!: transaction_line_Inr)
qed

lemma realized_fx_line_ok:
  assumes ok: "realized_fx_line D s d = Inr ls" and d: "dec_finite D d" "scaled m (val d)" "\<bar>val d\<bar> \<le> 10 ^ 24"
    and m: "minor_units (ss_functional s) = Inr m"
  shows "length ls \<le> 1" "sum_list (map line_functional ls) = - val d"
    "\<forall>l \<in> set ls. line_converts rnd m l \<and> ln_currency l = ss_functional s
       \<and> ln_account l = (if 0 < val d then ss_gain s else ss_loss s)"
proof -
  have "length ls \<le> 1 \<and> sum_list (map line_functional ls) = - val d
    \<and> (\<forall>l \<in> set ls. line_converts rnd m l \<and> ln_currency l = ss_functional s
       \<and> ln_account l = (if 0 < val d then ss_gain s else ss_loss s))"
  proof (cases "val d = 0")
    case True
    then show ?thesis using ok d(1) by (simp add: realized_fx_line_def)
  next
    case False
    have gain: "dec_is_pos D d \<longleftrightarrow> 0 < val d" using False d(1) by simp
    obtain l where l: "ls = [l]" "transaction_line D \<lparr>tr_side = (if 0 < val d then Credit else Debit),
          tr_account = (if 0 < val d then ss_gain s else ss_loss s), tr_amount = DecIn (dec_abs D d),
          tr_currency = ss_functional s, tr_rate = TextIn ''1'', tr_functional_currency = ss_functional s,
          tr_rate_source = ''SYSTEM_REALIZED_FX'', tr_rate_effective = fx_effective_at (ss_fx s),
          tr_functional = None, tr_party = None, tr_event = None, tr_tax_snapshot = None,
          tr_memo = ss_source_number s @ '' realized FX '' @ (if 0 < val d then ''gain'' else ''loss'')\<rparr> = Inr l"
      using ok False d(1) by (auto simp: realized_fx_line_def Let_def bindE_Inr_iff gain)
    have ab: "dec_finite D (dec_abs D d)" "val (dec_abs D d) = \<bar>val d\<bar>" "scaled m \<bar>val d\<bar>" using d by auto
    obtain one where one: "exact D (TextIn ''1'') = Inr one" "val one = 1"
      using exact_text [of "''1''" 1] plain_one by blast
    have fit: "fits \<bar>val d\<bar>" using fits_scaled [OF ab(3), of 24] d(3) minor_units_le_3 [OF m] by simp
    note t = transaction_line_ok [OF l(2), where a = "dec_abs D d" and n = m and m = m]
    have "line_functional l = - val d"
      using t(5) ab m one fit False by (auto simp: rnd_fits half_up_id abs_if simp del: exact.simps split: if_splits)
    moreover have "line_converts rnd m l" "ln_currency l = ss_functional s" using t(1,3) ab m by simp_all
    moreover have "ln_account l = (if 0 < val d then ss_gain s else ss_loss s)"
      using l(2) by (auto elim!: transaction_line_Inr)
    ultimately show ?thesis using l(1) by simp
  qed
  then show "length ls \<le> 1" "sum_list (map line_functional ls) = - val d"
    "\<forall>l \<in> set ls. line_converts rnd m l \<and> ln_currency l = ss_functional s
       \<and> ln_account l = (if 0 < val d then ss_gain s else ss_loss s)"
    by blast+
qed

end

text \<open>Rounding the parts and rounding the whole differ by half a unit for each.\<close>

lemma rounded_sum_error:
  "\<bar>sum_list (map (half_up m) qs) - sum_list qs\<bar> \<le> of_nat (length qs) / (2 * 10 ^ m)"
proof (induction qs)
  case (Cons q qs)
  have "\<bar>sum_list (map (half_up m) (q # qs)) - sum_list (q # qs)\<bar>
    \<le> \<bar>half_up m q - q\<bar> + \<bar>sum_list (map (half_up m) qs) - sum_list qs\<bar>" by simp
  also have "\<dots> \<le> 1 / (2 * 10 ^ m) + of_nat (length qs) / (2 * 10 ^ m)"
    by (intro add_mono half_up_error Cons.IH)
  finally show ?case by (simp add: add_divide_distrib)
qed simp

text \<open>The value of the lines of a settlement, and what may be left over for the rounding account.\<close>

definition settlement_lines ::
  "(rat \<Rightarrow> rat) \<Rightarrow> nat \<Rightarrow> settlement_snapshot \<Rightarrow> calculated_allocation list \<Rightarrow> journal_line list \<Rightarrow> bool" where
  "settlement_lines rnd m s as out \<longleftrightarrow>
     (\<exists>paid cleared realized rounding. out = paid # cleared @ realized @ rounding
        \<and> length realized \<le> 1 \<and> length rounding \<le> 1
        \<and> text_amount (ss_amount s) (side_sign (funding_side (ss_kind s)) * line_transaction paid)
        \<and> list_all2 (\<lambda>x l. ln_account l = ss_control s \<and> ln_party l = Some (ss_party s)
             \<and> ln_currency l = ss_currency s
             \<and> line_transaction l = - side_sign (funding_side (ss_kind s)) * text_value (ca_transaction x)
             \<and> line_functional l = - side_sign (funding_side (ss_kind s)) * text_value (ca_carrying x)) as cleared
        \<and> sum_list (map line_functional realized) = - sum_list (map (text_value \<circ> ca_realized) as)
        \<and> \<bar>sum_list (map line_functional rounding)\<bar> \<le> (1 + of_nat (length as)) / (2 * 10 ^ m))"

context decimal_lib
begin

lemma converted_exact:
  assumes "scaled n a" "scaled 18 r" "n \<le> 3" "0 \<le> a * r" "a * r \<le> 10 ^ 20"
  shows "rnd (a * r) = a * r"
  using assms fits_scaled [OF scaled_mult [OF assms(1,2)], of 20] by (intro rnd_fits) simp

lemma settlement_lines_ok:
  assumes ok: "build_settlement_journal_lines D s as event = Inr out"
    and A: "text_amount (ss_amount s) A" "scaled n A" and r: "text_amount (fx_rate (ss_fx s)) r" "scaled 18 r" "0 < r"
    and units: "minor_units (ss_currency s) = Inr n" "minor_units (ss_functional s) = Inr m"
    and worth: "A * r \<le> 10 ^ 20"
    and vals: "\<forall>x \<in> set as. allocation_valued rnd n m (sp_position (settlement_kind_policy (ss_kind s))) r x"
    and total: "sum_list (map (text_value \<circ> ca_transaction) as) = A" and len: "length as \<le> 200"
  shows "settlement_lines rnd m s as out \<and> sum_list (map line_functional out) = 0
    \<and> (\<forall>l \<in> set out. line_converts rnd m l)"
proof -
  let ?sg = "side_sign (funding_side (ss_kind s))"
  let ?tx = "text_value \<circ> ca_transaction" and ?k = "text_value \<circ> ca_carrying"
    and ?s = "text_value \<circ> ca_settlement" and ?z = "text_value \<circ> ca_realized"
  have n3: "n \<le> 3" "m \<le> 3" using units minor_units_le_3 by auto
  obtain funding account cls paid cleared d gain where o:
    "funding_line D s funding account = Inr paid" "mapE (open_item_line D s event) as = Inr cleared"
    "sum_exact D (map (\<lambda>a. TextIn (ca_realized a)) as) = Inr d" "realized_fx_line D s d = Inr gain"
    "balance_journal_lines D (paid # cleared @ gain)
       \<lparr>br_functional = ss_functional s, br_account = ss_rounding_account s,
        br_effective = fx_effective_at (ss_fx s), br_memo = ss_source_number s @ '' settlement FX rounding''\<rparr> = Inr out"
    using ok by (auto simp: build_settlement_journal_lines_def bindE_Inr_iff map_errorE_Inr_iff)
  note f = funding_line_ok [OF o(1) A r(1) units]
  have tx_le: "?tx x \<le> A" if "x \<in> set as" for x
    unfolding total [symmetric]
    by (rule member_le_sum_list) (use that vals in \<open>auto simp: allocation_valued_def intro: less_imp_le\<close>)
  have each: "0 < ?tx x" "rnd (?tx x * r) = ?tx x * r" "?s x = half_up m (?tx x * r)" "0 < ?k x" "?k x \<le> 10 ^ 20"
    "0 < ?s x" "?s x \<le> 10 ^ 20" "scaled m (?k x)" "numeric_text (ca_realized x)" "?z x = ?sg * (?s x - ?k x)"
    if x: "x \<in> set as" for x
  proof -
    have v: "allocation_valued rnd n m (sp_position (settlement_kind_policy (ss_kind s))) r x" using vals x by blast
    then show pos: "0 < ?tx x" "0 < ?k x" "?k x \<le> 10 ^ 20" "scaled m (?k x)" "numeric_text (ca_realized x)" "0 < ?s x"
      by (simp_all add: allocation_valued_def)
    have "?tx x * r \<le> A * r" using tx_le [OF x] r(3) by (intro mult_right_mono) auto
    then have b: "?tx x * r \<le> 10 ^ 20" "0 \<le> ?tx x * r" using worth pos(1) r(3) by (linarith, simp)
    show e: "rnd (?tx x * r) = ?tx x * r"
      using v r(2) n3(1) b by (intro converted_exact [of n]) (auto simp: allocation_valued_def)
    show s: "?s x = half_up m (?tx x * r)" using v e by (simp add: allocation_valued_def)
    show "?s x \<le> 10 ^ 20" using converted_bound(2) [OF b(1), of m] pos(6) e s by simp
    show "?z x = ?sg * (?s x - ?k x)" using v
      by (cases "ss_kind s") (simp_all add: allocation_valued_def funding_side_def)
  qed
  have cl: "list_all2 (\<lambda>x l. open_item_line D s event x = Inr l) as cleared" using o(2) by (simp add: mapE_Inr_iff)
  have cleared: "list_all2 (\<lambda>x l. line_converts rnd m l \<and> ln_account l = ss_control s \<and> ln_party l = Some (ss_party s)
      \<and> ln_currency l = ss_currency s \<and> line_transaction l = - ?sg * ?tx x \<and> line_functional l = - ?sg * ?k x
      \<and> \<bar>line_functional l\<bar> \<le> 10 ^ 20) as cleared"
    using cl
  proof (rule list.rel_mono_strong)
    fix x l assume x: "x \<in> set as" and l: "open_item_line D s event x = Inr l"
    have v: "allocation_valued rnd n m (sp_position (settlement_kind_policy (ss_kind s))) r x" using vals x by blast
    note p = open_item_line_ok [OF l v units]
    have "\<bar>line_functional l\<bar> \<le> 10 ^ 20"
      using p(3) each(4,5) [OF x] by (auto simp: side_sign_def)
    then show "line_converts rnd m l \<and> ln_account l = ss_control s \<and> ln_party l = Some (ss_party s)
      \<and> ln_currency l = ss_currency s \<and> line_transaction l = - ?sg * ?tx x \<and> line_functional l = - ?sg * ?k x
      \<and> \<bar>line_functional l\<bar> \<le> 10 ^ 20"
      using p by simp
  qed
  have z: "ledger_amount (?z x)" "\<bar>?z x\<bar> \<le> 10 ^ 20" "scaled m (?z x)" if x: "x \<in> set as" for x
  proof -
    have "scaled m (?s x - ?k x)" using each(3,8) [OF x] by (auto intro: scaled_diff)
    then show sc: "scaled m (?z x)" using each(10) [OF x] scaled_uminus [of m "?s x - ?k x"]
      by (auto simp: side_sign_def)
    show b: "\<bar>?z x\<bar> \<le> 10 ^ 20" using each(4-7,10) [OF x] by (auto simp: side_sign_def abs_le_iff)
    have "(10::rat) ^ 20 \<le> 10 ^ 29" by (rule power_increasing) simp_all
    then show "ledger_amount (?z x)" using b scaled_le [OF sc, of 9] n3 by (simp add: ledger_amount_def)
  qed
  have texts: "list_all2 text_amount (map ca_realized as) (map ?z as)"
    using each(9) unfolding numeric_text_def list_all2_map1 list_all2_map2 list_all2_same o_def by blast
  have d: "dec_finite D d" "val d = sum_list (map ?z as)"
    using sum_exact_texts [OF texts] z(1) len o(3) by (auto simp: o_def)
  have d_sc: "scaled m (val d)" using z(3) unfolding d(2) by (intro scaled_sum_list) auto
  have "\<bar>val d\<bar> \<le> of_nat (length (map ?z as)) * 10 ^ 20"
    unfolding d(2) using z(2) by (intro abs_sum_list_bound) auto
  also have "\<dots> \<le> 200 * 10 ^ 20" using len by (intro mult_right_mono) auto
  finally have d_b: "\<bar>val d\<bar> \<le> 10 ^ 24" by simp
  note g = realized_fx_line_ok [OF o(4) d(1) d_sc d_b units(2)]
  have g_b: "\<bar>line_functional l\<bar> \<le> 10 ^ 24" if "l \<in> set gain" for l
  proof -
    have "gain = [l]" using that g(1) by (cases gain) auto
    then show ?thesis using g(2) d_b by simp
  qed
  have ar: "0 \<le> A * r" using f(6) r(3) by simp
  have whole: "rnd (A * r) = A * r" by (rule converted_exact [OF A(2) r(2) n3(1) ar worth])
  have f_b: "\<bar>line_functional paid\<bar> \<le> 10 ^ 20"
    using half_up_pow_bound [of "A * r" 20 m] ar worth unfolding f(5) whole by (simp add: abs_mult side_sign_def)
  have big: "(10::rat) ^ 20 \<le> 10 ^ 33" "(10::rat) ^ 24 \<le> 10 ^ 33" by (rule power_increasing; simp)+
  have conv: "\<forall>l \<in> set (paid # cleared @ gain). line_converts rnd m l \<and> \<bar>line_functional l\<bar> \<le> 10 ^ 33"
  proof -
    have "line_converts rnd m l \<and> \<bar>line_functional l\<bar> \<le> 10 ^ 33" if "l \<in> set cleared" for l
      using list_all2_set2_ex [OF cleared that] order_trans [OF _ big(1)] by blast
    moreover have "line_converts rnd m l \<and> \<bar>line_functional l\<bar> \<le> 10 ^ 33" if "l \<in> set gain" for l
      using g(3) that order_trans [OF g_b [OF that] big(2)] by blast
    moreover have "\<bar>line_functional paid\<bar> \<le> 10 ^ 33" by (rule order_trans [OF f_b big(1)])
    ultimately show ?thesis using f(1) by auto
  qed
  have "length (paid # cleared @ gain) \<le> 1000"
    using g(1) len list_all2_lengthD [OF cleared] by simp
  from balance_ok [OF o(5) conv this] units(2) obtain rounding where rd:
    "out = (paid # cleared @ gain) @ rounding" "length rounding \<le> 1" "sum_list (map line_functional out) = 0"
    "\<forall>l \<in> set rounding. line_converts rnd m l" by auto
  have paid_value: "line_functional paid = ?sg * half_up m (A * r)" using f(5) whole by simp
  have cleared_value: "sum_list (map line_functional cleared) = - ?sg * sum_list (map ?k as)"
    using cleared by (induction rule: list_all2_induct) (simp_all add: algebra_simps)
  have parts: "map (half_up m) (map (\<lambda>x. ?tx x * r) as) = map ?s as"
    using each(3) by simp
  have "sum_list (map (\<lambda>x. ?tx x * r) as) = A * r"
    unfolding total [symmetric] by (induction as) (simp_all add: algebra_simps)
  then have split: "\<bar>sum_list (map ?s as) - A * r\<bar> \<le> of_nat (length as) / (2 * 10 ^ m)"
    using rounded_sum_error [of m "map (\<lambda>x. ?tx x * r) as"] unfolding parts by simp
  have zsum: "sum_list (map ?z as) = ?sg * (sum_list (map ?s as) - sum_list (map ?k as))"
    using each(10) by (induction as) (simp_all add: algebra_simps)
  have "sum_list (map line_functional rounding)
      = - (line_functional paid + sum_list (map line_functional cleared) + sum_list (map line_functional gain))"
    using rd(1,3) by simp
  also have "\<dots> = - ?sg * (half_up m (A * r) - sum_list (map ?s as))"
    unfolding paid_value cleared_value g(2) d(2) zsum by (simp add: algebra_simps)
  finally have left: "\<bar>sum_list (map line_functional rounding)\<bar> = \<bar>half_up m (A * r) - sum_list (map ?s as)\<bar>"
    by (simp add: abs_mult side_sign_def)
  have "\<bar>half_up m (A * r) - sum_list (map ?s as)\<bar> \<le> 1 / (2 * 10 ^ m) + of_nat (length as) / (2 * 10 ^ m)"
    using half_up_error [of m "A * r"] split by linarith
  then have "\<bar>sum_list (map line_functional rounding)\<bar> \<le> (1 + of_nat (length as)) / (2 * 10 ^ m)"
    using left by (simp add: add_divide_distrib)
  moreover have "?sg * line_transaction paid = A" using f(2) by (simp add: side_sign_def)
  moreover have "list_all2 (\<lambda>x l. ln_account l = ss_control s \<and> ln_party l = Some (ss_party s)
      \<and> ln_currency l = ss_currency s \<and> line_transaction l = - ?sg * text_value (ca_transaction x)
      \<and> line_functional l = - ?sg * text_value (ca_carrying x)) as cleared"
    using cleared by (rule list.rel_mono_strong) auto
  ultimately have "settlement_lines rnd m s as out"
    unfolding settlement_lines_def using rd(1,2) g(1,2) d(2) A(1)
    by (intro exI [where x = paid] exI [where x = cleared] exI [where x = gain] exI [where x = rounding]) simp
  moreover have "\<forall>l \<in> set out. line_converts rnd m l" using conv rd(1,4) by auto
  ultimately show ?thesis using rd(3) by blast
qed

end

section \<open>Properties\<close>

text \<open>What the open items and the amounts of a settlement are taken to be: see \<open>open_item_valued\<close>.\<close>

definition settlement_bounded ::
  "settlement_command \<Rightarrow> string \<Rightarrow> (string \<Rightarrow> open_item option) \<Rightarrow> rat \<Rightarrow> bool" where
  "settlement_bounded c functional items r \<longleftrightarrow> 0 < r
     \<and> (\<forall>k i. items k = Some i \<longrightarrow> (\<exists>n m. minor_units (sc_currency c) = Inr n
          \<and> minor_units functional = Inr m \<and> open_item_valued n m i))
     \<and> length (sc_allocations c) \<le> 200
     \<and> list_all (\<lambda>a. numeric_text (al_amount a) \<and> ledger_amount (text_value (al_amount a))
          \<and> text_value (al_amount a) * r \<le> 10 ^ 20) (sc_allocations c)"

definition allocation_matches ::
  "(rat \<Rightarrow> rat) \<Rightarrow> nat \<Rightarrow> nat \<Rightarrow> settlement_command \<Rightarrow> (string \<Rightarrow> open_item option) \<Rightarrow> rat
     \<Rightarrow> allocation_input \<Rightarrow> calculated_allocation \<Rightarrow> bool" where
  "allocation_matches rnd n m c items r a x \<longleftrightarrow>
     (\<exists>i. matching_item items c a = Some i \<and> ca_item x = oi_id i
        \<and> text_value (ca_transaction x) = text_value (al_amount a)
        \<and> allocation_valued rnd n m (sp_position (settlement_kind_policy (sc_kind c))) r x
        \<and> allocation_takes rnd m i x)"

lemma allocations_match:
  assumes "decimal_lib D val rnd" and "calculate_settlement_allocations D T c items functional = Inr xs"
    and "sc_fx c = Some x" and "text_amount (fx_rate x) r" and "settlement_bounded c functional items r"
    and "minor_units (sc_currency c) = Inr n" and "minor_units functional = Inr m"
  shows "list_all2 (allocation_matches rnd n m c items r) (sc_allocations c) xs"
proof -
  obtain rd where rd: "exact D (TextIn (fx_rate x)) = Inr rd" "val rd = r"
    using decimal_lib.exact_text [OF assms(1,4)] by blast
  have b: "0 < val rd" "\<And>k i. items k = Some i \<Longrightarrow> open_item_valued n m i"
    "\<And>a. a \<in> set (sc_allocations c) \<Longrightarrow> numeric_text (al_amount a) \<and> text_value (al_amount a) * val rd \<le> 10 ^ 20"
    using assms(5-7) rd(2) by (auto simp: settlement_bounded_def list_all_iff)
  show ?thesis
    unfolding allocation_matches_def rd(2) [symmetric]
    by (rule decimal_lib.calculate_settlement_allocations_ok [OF assms(1-3) rd(1) b(1) assms(6,7)])
      (use b(2,3) in blast)+
qed

text \<open>
  C31. An allocation takes what it pays for.  Every allocation of a settlement names an open
  item of the payment's ledger, party, currency and kind that is not void, in the order of
  the command.  It never exceeds what is left of the item.  If it pays all of that, it takes
  the whole remaining carrying amount, so that nothing is left over; if it pays a part, it
  takes the proportional share in minor units.  The carrying amount is the paid amount at
  the stored carrying rate, and the realized result is the difference to the payment at the
  settlement rate.
\<close>

theorem allocations_take_what_they_pay:
  assumes "decimal_lib D val rnd" and "calculate_settlement_allocations D T c items functional = Inr xs"
    and "sc_fx c = Some x" and "text_amount (fx_rate x) r" and "settlement_bounded c functional items r"
    and "minor_units (sc_currency c) = Inr n" and "minor_units functional = Inr m"
  shows "list_all2 (allocation_matches rnd n m c items r) (sc_allocations c) xs"
  by (rule allocations_match [OF assms])

text \<open>
  C32. A settlement's journal balances and clears exactly what was allocated.  When the
  amounts of the command pass their check, the allocations are calculated, and snapshot and
  journal lines are built, the lines are the payment for the whole amount, one line on the
  control account per allocation for its transaction and carrying amount and its party, at
  most one line for the sum of the realized results and at most one for rounding.  All
  lines convert, they add up to zero, and no more than half a minor unit for the payment
  and for each allocation goes to the rounding account.
\<close>

theorem settlement_journal_balances:
  assumes "decimal_lib D val rnd" and "assert_settlement_command_amounts D c = Inr u"
    and "calculate_settlement_allocations D T c items functional = Inr xs"
    and "build_settlement_snapshot F D c functional xs = Inr s"
    and "build_settlement_journal_lines D s xs event = Inr out"
    and "sc_fx c = Some x" and "text_amount (fx_rate x) r" and "settlement_bounded c functional items r"
    and "text_amount (sc_amount c) a" and "a * r \<le> 10 ^ 20"
  shows "\<exists>m. minor_units functional = Inr m \<and> settlement_lines rnd m s xs out
    \<and> sum_list (map line_functional out) = 0 \<and> (\<forall>l \<in> set out. line_converts rnd m l)
    \<and> sum_list (map (text_value \<circ> ca_transaction) xs) = a \<and> text_amount (ss_amount s) a"
proof -
  obtain rd where rd: "exact D (TextIn (fx_rate x)) = Inr rd" "val rd = r"
    using decimal_lib.exact_text [OF assms(1,7)] by blast
  obtain A where A: "exact D (TextIn (sc_amount c)) = Inr A" "val A = a"
    using decimal_lib.exact_text [OF assms(1,9)] by blast
  obtain n where n: "minor_units (sc_currency c) = Inr n"
    using assms(2) by (auto simp: assert_settlement_command_amounts_def quantize_money_def bindE_Inr_iff map_errorE_Inr_iff)
  have b: "\<And>a. a \<in> set (sc_allocations c) \<Longrightarrow> numeric_text (al_amount a) \<and> ledger_amount (text_value (al_amount a))"
    "length (sc_allocations c) \<le> 200" "length (sc_allocations c) \<le> 10 ^ 12"
    using assms(8) by (auto simp: settlement_bounded_def list_all_iff)
  note sums = decimal_lib.assert_amounts_ok [OF assms(1,2) A(1) n b(1,3)]
  note sn = decimal_lib.settlement_snapshot_ok [OF assms(1,4,6) rd(1) A(1) n]
  obtain m where m: "minor_units functional = Inr m"
    using assms(4) unfolding build_settlement_snapshot_def
    by (auto simp: money_string_def bindE_Inr_iff map_errorE_Inr_iff Let_def split: option.splits)
  have al: "list_all2 (allocation_matches rnd n m c items r) (sc_allocations c) xs"
    by (rule allocations_match [OF assms(1,3,6-8) n m])
  have tx: "map (text_value \<circ> ca_transaction) xs = map (text_value \<circ> al_amount) (sc_allocations c)"
    using al by (induction rule: list_all2_induct) (auto simp: allocation_matches_def)
  have total: "sum_list (map (text_value \<circ> ca_transaction) xs) = a"
    using sums(2) A(2) unfolding tx by simp
  have vals: "\<forall>y \<in> set xs. allocation_valued rnd n m (sp_position (settlement_kind_policy (ss_kind s))) r y"
    using list_all2_set2_ex [OF al] sn(1) by (auto simp: allocation_matches_def)
  have amount: "text_amount (ss_amount s) a" "scaled n a"
    using sn(9) sums(1) A(2) half_up_id [OF sums(1)] by simp_all
  have rate: "text_amount (fx_rate (ss_fx s)) r" "scaled 18 r" "0 < r" using sn(10-12) rd(2) by simp_all
  have units: "minor_units (ss_currency s) = Inr n" "minor_units (ss_functional s) = Inr m" using sn(2,3) n m by simp_all
  have len: "length xs \<le> 200" using list_all2_lengthD [OF al] b(2) by simp
  from decimal_lib.settlement_lines_ok [OF assms(1,5) amount rate units assms(10) vals total len] m total amount(1)
  show ?thesis by blast
qed

text \<open>A stored line read as a journal line.\<close>

definition stored_as_line :: "original_line \<Rightarrow> journal_line" where
  "stored_as_line l =
     \<lparr>ln_account = ol_account l, ln_debit_functional = ol_debit_functional l,
      ln_credit_functional = ol_credit_functional l, ln_currency = ol_currency l,
      ln_debit_transaction = ol_debit_transaction l, ln_credit_transaction = ol_credit_transaction l,
      ln_rate = ol_rate l, ln_rate_source = ol_rate_source l, ln_rate_effective = ol_rate_effective l,
      ln_party = ol_party l, ln_event = ol_event l, ln_tax_snapshot = ol_tax_snapshot l,
      ln_memo = or_else (ol_memo l) []\<rparr>"

text \<open>A stored line converts as \<open>line_converts\<close> says; its zero side may be any text of zero.\<close>

definition stored_converts :: "(rat \<Rightarrow> rat) \<Rightarrow> nat \<Rightarrow> journal_line \<Rightarrow> bool" where
  "stored_converts rnd m l \<longleftrightarrow> (\<exists>t f r. 0 < t \<and> 0 < f \<and> text_amount (ln_rate l) r \<and> f = half_up m (rnd (t * r))
     \<and> ((text_amount (ln_debit_transaction l) t \<and> text_amount (ln_debit_functional l) f
           \<and> text_amount (ln_credit_transaction l) 0 \<and> text_amount (ln_credit_functional l) 0)
      \<or> (text_amount (ln_credit_transaction l) t \<and> text_amount (ln_credit_functional l) f
           \<and> text_amount (ln_debit_transaction l) 0 \<and> text_amount (ln_debit_functional l) 0)))"

text \<open>The functional balance of the lines of an account and party.\<close>

definition line_balance :: "string \<Rightarrow> string option \<Rightarrow> journal_line list \<Rightarrow> rat" where
  "line_balance account party ls =
     sum_list (map line_functional (filter (\<lambda>l. ln_account l = account \<and> ln_party l = party) ls))"

lemma reverse_line_values:
  "line_functional (reverse_line to_iso l) = - line_functional (stored_as_line l)"
  "line_transaction (reverse_line to_iso l) = - line_transaction (stored_as_line l)"
  "ln_account (reverse_line to_iso l) = ln_account (stored_as_line l)"
  "ln_party (reverse_line to_iso l) = ln_party (stored_as_line l)"
  "stored_converts rnd m (stored_as_line l) \<Longrightarrow> stored_converts rnd m (reverse_line to_iso l)"
  by (simp_all add: reverse_line_def stored_as_line_def line_functional_def line_transaction_def)
    (force simp: stored_converts_def)

text \<open>
  C33. A void cancels the journal it reverses.  The reversal has a line for every line of
  the original with the opposite amount.  Its lines convert when those of the original do,
  every account and party is left at zero by the two journals together, and its functional
  total is the opposite of the original's.
\<close>

theorem reversal_cancels:
  assumes "\<forall>l \<in> set ls. stored_converts rnd m (stored_as_line l)"
  shows "(\<forall>l \<in> set (reverse_journal_lines to_iso ls). stored_converts rnd m l)
    \<and> map line_transaction (reverse_journal_lines to_iso ls) = map (uminus \<circ> line_transaction \<circ> stored_as_line) ls
    \<and> (\<forall>account party. line_balance account party (map stored_as_line ls)
         + line_balance account party (reverse_journal_lines to_iso ls) = 0)
    \<and> sum_list (map line_functional (reverse_journal_lines to_iso ls))
        = - sum_list (map line_functional (map stored_as_line ls))"
proof -
  have "line_balance account party (map stored_as_line ls)
      + line_balance account party (reverse_journal_lines to_iso ls) = 0" for account party
    by (induction ls) (simp_all add: line_balance_def reverse_journal_lines_def reverse_line_values)
  moreover have "sum_list (map line_functional (reverse_journal_lines to_iso ls))
      = - sum_list (map line_functional (map stored_as_line ls))"
    by (induction ls) (simp_all add: reverse_journal_lines_def reverse_line_values)
  ultimately show ?thesis
    using assms by (auto simp: reverse_journal_lines_def reverse_line_values intro: reverse_line_values(5))
qed

text \<open>What the row of an item is after an allocation to it.\<close>

definition item_after :: "open_item \<Rightarrow> calculated_allocation \<Rightarrow> open_item \<Rightarrow> bool" where
  "item_after i x j \<longleftrightarrow> oi_original_transaction j = oi_original_transaction i
     \<and> oi_original_functional j = oi_original_functional i
     \<and> text_amount (oi_allocated_transaction j)
         (text_value (oi_allocated_transaction i) + text_value (ca_transaction x))
     \<and> text_amount (oi_allocated_carrying j)
         (text_value (oi_allocated_carrying i) + text_value (ca_carrying x))"

context decimal_lib
begin

lemma exhausted_item_rejects:
  assumes j: "open_item_valued n m j" "n \<le> 3" "m \<le> 3" "remaining_carrying j \<le> 0"
    and item: "matching_item items c a = Some j"
  shows "calculate_allocation D T c rate items functional a \<noteq> Inr x"
proof
  assume "calculate_allocation D T c rate items functional a = Inr x"
  then show False
  proof (cases rule: calculate_allocation_Inr)
    case (1 i amount ot og gone ac carrying settlement p check)
    have i: "i = j" using 1(1) item by simp
    have row: "dec_finite D og" "val og = text_value (oi_original_functional j)"
      "dec_finite D ac" "val ac = text_value (oi_allocated_carrying j)"
      using j(1) numeric_exact 1(5,7) i by (auto simp: open_item_valued_def)
    have "val (dec_minus D og ac) = remaining_carrying j"
      using row open_item_remaining(4) [OF j(1-3)] by (simp add: minus_exact remaining_carrying_def)
    then show False using 1(9) row j(4) by simp
  qed
qed

end

text \<open>
  C34. A part payment can leave an item that cannot be settled.  When the proportional
  share of a part payment rounds to all that is left of the carrying amount, the item
  keeps an unpaid transaction amount, but no later allocation to it, of any command, is
  accepted.
\<close>

theorem part_payment_can_strand:
  assumes "decimal_lib D val rnd" and "item_after i x j" and "open_item_valued n m j" "n \<le> 3" "m \<le> 3"
    and "text_value (ca_transaction x) < remaining_transaction i"
    and "remaining_carrying i \<le> text_value (ca_carrying x)"
  shows "0 < remaining_transaction j
    \<and> (\<forall>T c rate items functional a y. \<not> (matching_item items c a = Some j
         \<and> calculate_allocation D T c rate items functional a = Inr y))"
proof -
  have "remaining_carrying j \<le> 0" "0 < remaining_transaction j"
    using assms(2,6,7) by (auto simp: item_after_def remaining_transaction_def remaining_carrying_def)
  then show ?thesis using decimal_lib.exhausted_item_rejects [OF assms(1,3-5)] by blast
qed

section \<open>Examples\<close>

definition example_row :: open_item where
  "example_row = \<lparr>oi_id = ''item'', oi_ledger = ''l'', oi_party = ''p'', oi_currency = ''CAD'',
     oi_original_transaction = ''100.000000000'', oi_original_functional = ''73.000000000'',
     oi_allocated_transaction = ''0'', oi_allocated_carrying = ''0'',
     oi_source_type = ''payables.supplier-bill'', oi_fx_source = Some ''desk'',
     oi_fx_effective = Some ''2026-03-02T00:00:00Z'', oi_void_event = None\<rparr>"

definition example_rest :: open_item where
  "example_rest = example_row\<lparr>oi_id := ''rest'', oi_original_transaction := ''30.00'', oi_original_functional := ''21.90'',
     oi_allocated_transaction := ''10.00'', oi_allocated_carrying := ''7.30''\<rparr>"

definition example_items :: "string \<Rightarrow> open_item option" where
  "example_items = map_of [(''item'', example_row), (''rest'', example_rest)]"

definition example_payment :: settlement_command where
  "example_payment = example_command\<lparr>sc_amount := ''70.00'',
     sc_allocations := [\<lparr>al_open_item = ''item'', al_amount = ''50.00''\<rparr>, \<lparr>al_open_item = ''rest'', al_amount = ''20.00''\<rparr>],
     sc_fx := Some (example_explicit_fx\<lparr>fx_rate := ''0.75''\<rparr>)\<rparr>"

definition example_allocations :: "calculated_allocation list" where
  "example_allocations = [
     \<lparr>ca_item = ''item'', ca_transaction = ''50.00'', ca_carrying = ''36.50'', ca_settlement = ''37.50'',
      ca_realized = ''-1.00'', ca_rate = ''0.73'', ca_source = ''desk'', ca_effective = ''2026-03-02T00:00:00Z''\<rparr>,
     \<lparr>ca_item = ''rest'', ca_transaction = ''20.00'', ca_carrying = ''14.60'', ca_settlement = ''15.00'',
      ca_realized = ''-0.40'', ca_rate = ''0.73'', ca_source = ''desk'', ca_effective = ''2026-03-02T00:00:00Z''\<rparr>]"

definition example_settled :: settlement_snapshot where
  "example_settled = \<lparr>ss_kind = SupplierPayment, ss_owner = Payables, ss_source_type = ''payables.supplier-payment'',
     ss_source_number = ''PAY-1'', ss_ledger = ''l'', ss_entity = ''e'', ss_party = ''p'', ss_control = ''ap'',
     ss_period = ''per'', ss_accounting_date = ''2026-03-20'', ss_settlement_date = ''2026-03-20'',
     ss_currency = ''CAD'', ss_functional = ''USD'', ss_amount = ''70.00'', ss_settlement_functional = ''52.50'',
     ss_fx = \<lparr>fx_rate = ''0.75'', fx_source = ''desk'', fx_effective_at = ''2026-03-02T00:00:00Z'', fx_prov = None\<rparr>,
     ss_bank = Some ''bank'', ss_settlement = None, ss_method = None, ss_gain = ''gain'', ss_loss = ''loss'',
     ss_rounding_account = Some ''fxr'', ss_description = ''part payment'',
     ss_allocations = map snapshot_allocation_of example_allocations\<rparr>"

definition example_settlement_lines :: "journal_line list" where
  "example_settlement_lines =
     (case build_settlement_journal_lines ref_api example_settled example_allocations ''event'' of
       Inl _ \<Rightarrow> [] | Inr ls \<Rightarrow> ls)"

lemma example_allocated:
  "calculate_settlement_allocations ref_api (\<lambda>_. True) example_payment example_items ''USD'' = Inr example_allocations"
  by code_simp

lemma example_settled_built:
  "build_settlement_snapshot example_formats ref_api example_payment ''USD'' example_allocations = Inr example_settled"
  by code_simp

lemma example_settlement_booked:
  "build_settlement_journal_lines ref_api example_settled example_allocations ''event'' = Inr example_settlement_lines"
  by code_simp

lemma example_rows_valued: "open_item_valued 2 2 example_row" "open_item_valued 2 2 example_rest"
  by (simp_all add: open_item_valued_def numeric_text_def flip: half_up_eq_iff) code_simp+

lemma example_settlement_bounded: "settlement_bounded example_payment ''USD'' example_items (3 / 4)"
proof -
  have "open_item_valued 2 2 i" if "example_items k = Some i" for k i
    using that example_rows_valued by (auto simp: example_items_def split: if_splits)
  moreover have "list_all (\<lambda>a. numeric_text (al_amount a) \<and> half_up 9 (text_value (al_amount a)) = text_value (al_amount a)
      \<and> \<bar>text_value (al_amount a)\<bar> \<le> 10 ^ 29 \<and> text_value (al_amount a) * (3 / 4) \<le> 10 ^ 20)
      (sc_allocations example_payment)" by code_simp
  moreover have "sc_currency example_payment = ''CAD''" "length (sc_allocations example_payment) \<le> 200" by code_simp+
  ultimately show ?thesis
    by (auto simp: settlement_bounded_def ledger_amount_def list_all_iff half_up_eq_iff)
qed

theorem allocations_take_what_they_pay_witness:
  "list_all2 (allocation_matches rnd50 2 2 example_payment example_items (3 / 4))
     (sc_allocations example_payment) example_allocations"
proof (rule allocations_take_what_they_pay [OF refdec.decimal_lib_axioms example_allocated _ _ example_settlement_bounded])
  show "sc_fx example_payment = Some (example_explicit_fx\<lparr>fx_rate := ''0.75''\<rparr>)" by (simp add: example_payment_def)
  show "text_amount (fx_rate (example_explicit_fx\<lparr>fx_rate := ''0.75''\<rparr>)) (3 / 4)"
    "minor_units (sc_currency example_payment) = Inr 2" "minor_units ''USD'' = Inr 2"
    by code_simp+
qed

theorem settlement_journal_balances_witness:
  "map line_functional example_settlement_lines = [- 105 / 2, 73 / 2, 73 / 5, 7 / 5]
   \<and> (\<exists>m. minor_units ''USD'' = Inr m \<and> settlement_lines rnd50 m example_settled example_allocations example_settlement_lines
    \<and> sum_list (map line_functional example_settlement_lines) = 0
    \<and> (\<forall>l \<in> set example_settlement_lines. line_converts rnd50 m l)
    \<and> sum_list (map (text_value \<circ> ca_transaction) example_allocations) = 70 \<and> text_amount (ss_amount example_settled) 70)"
proof
  show "map line_functional example_settlement_lines = [- 105 / 2, 73 / 2, 73 / 5, 7 / 5]" by code_simp
  have "sc_fx example_payment = Some (example_explicit_fx\<lparr>fx_rate := ''0.75''\<rparr>)" by (simp add: example_payment_def)
  moreover have "assert_settlement_command_amounts ref_api example_payment = Inr ()" by code_simp
  moreover have "text_amount (fx_rate (example_explicit_fx\<lparr>fx_rate := ''0.75''\<rparr>)) (3 / 4)"
    "text_amount (sc_amount example_payment) 70" by code_simp+
  ultimately show "\<exists>m. minor_units ''USD'' = Inr m \<and> settlement_lines rnd50 m example_settled example_allocations example_settlement_lines
    \<and> sum_list (map line_functional example_settlement_lines) = 0
    \<and> (\<forall>l \<in> set example_settlement_lines. line_converts rnd50 m l)
    \<and> sum_list (map (text_value \<circ> ca_transaction) example_allocations) = 70 \<and> text_amount (ss_amount example_settled) 70"
    using settlement_journal_balances [OF refdec.decimal_lib_axioms _ example_allocated example_settled_built
        example_settlement_booked _ _ example_settlement_bounded] by simp
qed

definition example_stored :: "original_line list" where
  "example_stored = [
     \<lparr>ol_account = ''ap'', ol_debit_functional = ''0.000000000'', ol_credit_functional = ''36.500000000'',
      ol_currency = ''CAD'', ol_debit_transaction = ''0.000000000'', ol_credit_transaction = ''50.000000000'',
      ol_rate = ''0.730000000000000000'', ol_rate_source = ''desk'', ol_rate_effective = ''2026-03-02T00:00:00Z'',
      ol_party = Some ''p'', ol_event = Some ''event'', ol_tax_snapshot = None, ol_memo = Some ''BILL-7''\<rparr>,
     \<lparr>ol_account = ''cost'', ol_debit_functional = ''36.500000000'', ol_credit_functional = ''0.000000000'',
      ol_currency = ''CAD'', ol_debit_transaction = ''50.000000000'', ol_credit_transaction = ''0.000000000'',
      ol_rate = ''0.730000000000000000'', ol_rate_source = ''desk'', ol_rate_effective = ''2026-03-02T00:00:00Z'',
      ol_party = None, ol_event = None, ol_tax_snapshot = None, ol_memo = None\<rparr>]"

theorem reversal_cancels_witness:
  "map line_functional (reverse_journal_lines (\<lambda>t. t) example_stored) = [73 / 2, - 73 / 2]
   \<and> stored_converts rnd50 2 (hd (reverse_journal_lines (\<lambda>t. t) example_stored))
   \<and> line_balance ''ap'' (Some ''p'') (map stored_as_line example_stored)
       + line_balance ''ap'' (Some ''p'') (reverse_journal_lines (\<lambda>t. t) example_stored) = 0"
proof -
  have rnd: "rnd50 (50 * (73 / 100)) = 73 / 2" by code_simp
  have up: "half_up 2 (73 / 2) = 73 / 2" by code_simp
  have ap: "text_amount (ln_rate (stored_as_line (example_stored ! 0))) (73 / 100)"
    "text_amount (ln_credit_transaction (stored_as_line (example_stored ! 0))) 50"
    "text_amount (ln_credit_functional (stored_as_line (example_stored ! 0))) (73 / 2)"
    "text_amount (ln_debit_transaction (stored_as_line (example_stored ! 0))) 0"
    "text_amount (ln_debit_functional (stored_as_line (example_stored ! 0))) 0"
    by code_simp+
  have cost: "text_amount (ln_rate (stored_as_line (example_stored ! 1))) (73 / 100)"
    "text_amount (ln_debit_transaction (stored_as_line (example_stored ! 1))) 50"
    "text_amount (ln_debit_functional (stored_as_line (example_stored ! 1))) (73 / 2)"
    "text_amount (ln_credit_transaction (stored_as_line (example_stored ! 1))) 0"
    "text_amount (ln_credit_functional (stored_as_line (example_stored ! 1))) 0"
    by code_simp+
  have "stored_converts rnd50 2 (stored_as_line (example_stored ! 0))"
    unfolding stored_converts_def
    by (intro exI [where x = 50] exI [where x = "73 / 2"] exI [where x = "73 / 100"]) (simp only: ap rnd up, simp)
  moreover have "stored_converts rnd50 2 (stored_as_line (example_stored ! 1))"
    unfolding stored_converts_def
    by (intro exI [where x = 50] exI [where x = "73 / 2"] exI [where x = "73 / 100"]) (simp only: cost rnd up, simp)
  ultimately have all: "\<forall>l \<in> set example_stored. stored_converts rnd50 2 (stored_as_line l)"
    by (simp add: example_stored_def)
  have "hd (reverse_journal_lines (\<lambda>t. t) example_stored) \<in> set (reverse_journal_lines (\<lambda>t. t) example_stored)"
    by (simp add: example_stored_def reverse_journal_lines_def)
  moreover have "map line_functional (reverse_journal_lines (\<lambda>t. t) example_stored) = [73 / 2, - 73 / 2]" by code_simp
  ultimately show ?thesis using reversal_cancels [OF all, of "\<lambda>t. t"] by blast
qed

text \<open>A cent of carrying amount, taken by a payment of sixty per cent of the item.\<close>

definition example_small :: open_item where
  "example_small = example_row\<lparr>oi_original_transaction := ''1.00'', oi_original_functional := ''0.01''\<rparr>"

definition example_small_after :: open_item where
  "example_small_after = example_small\<lparr>oi_allocated_transaction := ''0.60'', oi_allocated_carrying := ''0.01''\<rparr>"

definition example_small_payment :: settlement_command where
  "example_small_payment = example_payment\<lparr>sc_allocations := [\<lparr>al_open_item = ''item'', al_amount = ''0.60''\<rparr>]\<rparr>"

definition example_small_allocation :: calculated_allocation where
  "example_small_allocation = \<lparr>ca_item = ''item'', ca_transaction = ''0.60'', ca_carrying = ''0.01'',
     ca_settlement = ''0.01'', ca_realized = ''0.00'', ca_rate = ''0.016666666666666667'', ca_source = ''desk'',
     ca_effective = ''2026-03-02T00:00:00Z''\<rparr>"

theorem part_payment_can_strand_witness:
  "calculate_allocation ref_api (\<lambda>_. True) example_small_payment ''0.0125'' [''item'' \<mapsto> example_small] ''USD''
       \<lparr>al_open_item = ''item'', al_amount = ''0.60''\<rparr> = Inr example_small_allocation
   \<and> 0 < remaining_transaction example_small_after
   \<and> \<not> (matching_item [''item'' \<mapsto> example_small_after] example_payment \<lparr>al_open_item = ''item'', al_amount = ''0.40''\<rparr>
          = Some example_small_after
        \<and> calculate_allocation ref_api (\<lambda>_. True) example_payment ''0.0125'' [''item'' \<mapsto> example_small_after] ''USD''
            \<lparr>al_open_item = ''item'', al_amount = ''0.40''\<rparr> = Inr example_small_allocation)"
proof
  show "calculate_allocation ref_api (\<lambda>_. True) example_small_payment ''0.0125'' [''item'' \<mapsto> example_small] ''USD''
       \<lparr>al_open_item = ''item'', al_amount = ''0.60''\<rparr> = Inr example_small_allocation" by code_simp
  have "item_after example_small example_small_allocation example_small_after"
    unfolding item_after_def by code_simp
  moreover have "open_item_valued 2 2 example_small_after"
    by (simp add: open_item_valued_def numeric_text_def flip: half_up_eq_iff) code_simp
  moreover have "text_value (ca_transaction example_small_allocation) < remaining_transaction example_small"
    "remaining_carrying example_small \<le> text_value (ca_carrying example_small_allocation)" by code_simp+
  ultimately show "0 < remaining_transaction example_small_after
   \<and> \<not> (matching_item [''item'' \<mapsto> example_small_after] example_payment \<lparr>al_open_item = ''item'', al_amount = ''0.40''\<rparr>
          = Some example_small_after
        \<and> calculate_allocation ref_api (\<lambda>_. True) example_payment ''0.0125'' [''item'' \<mapsto> example_small_after] ''USD''
            \<lparr>al_open_item = ''item'', al_amount = ''0.40''\<rparr> = Inr example_small_allocation)"
    using part_payment_can_strand [OF refdec.decimal_lib_axioms, of example_small example_small_allocation
        example_small_after 2 2] by simp
qed

end
