(* ===== verification/CommandFingerprint.thy ===== *)
theory CommandFingerprint
  imports DecimalRef "HOL-Library.Multiset"
begin

text \<open>
  \<open>kernel/command-fingerprint.ts\<close> and the canonical JSON of \<open>subledger/document-model.ts\<close>:
  the texts whose hashes identify commands and snapshots.  A value is the tree a command
  or snapshot is made of; a tree has no cycle, so the cycle check of the code has nothing
  to find.  \<open>Omitted\<close> stands for \<open>undefined\<close>, functions and symbols, which the code
  treats alike, \<open>ExoticObj\<close> for an object of a class with its enumerable fields.  Numbers
  are the integers the schemas admit.  \<open>String.prototype.localeCompare\<close>, the order of the
  older canonical form, is a parameter, and so is the hash function; that two names which
  compare equal are the same holds of the names the code uses (letters and digits).
\<close>

section \<open>Definitions\<close>

datatype js_value =
    Omitted
  | NullVal
  | BoolVal bool
  | NumVal int
  | TextVal string
  | BigintVal int
  | ArrayVal "js_value list"
  | PlainObj "(string \<times> js_value) list"
  | ExoticObj "(string \<times> js_value) list"

datatype fingerprint_error = BigintUnsupported | NotPlainObject | NotSerializable | BadDomain | BadVersion

text \<open>\<open>JSON.stringify\<close> of a text and of an integer.\<close>

definition hex_char :: "nat \<Rightarrow> char" where
  "hex_char n = (if n < 10 then char_of (48 + n) else char_of (87 + n))"

definition quote_char :: "char \<Rightarrow> string" where
  "quote_char c =
     (let n = of_char c :: nat in
      if n = 34 then [CHR 0x5C, CHR 0x22]
      else if n = 92 then [CHR 0x5C, CHR 0x5C]
      else if n = 8 then [CHR 0x5C, CHR ''b'']
      else if n = 12 then [CHR 0x5C, CHR ''f'']
      else if n = 10 then [CHR 0x5C, CHR ''n'']
      else if n = 13 then [CHR 0x5C, CHR ''r'']
      else if n = 9 then [CHR 0x5C, CHR ''t'']
      else if n < 32 then [CHR 0x5C, CHR ''u'', CHR ''0'', CHR ''0'', hex_char (n div 16), hex_char (n mod 16)]
      else [c])"

definition quote_text :: "string \<Rightarrow> string" where
  "quote_text s = CHR 0x22 # concat (map quote_char s) @ [CHR 0x22]"

definition int_text :: "int \<Rightarrow> string" where
  "int_text i = (if i < 0 then CHR ''-'' # nat_text (- i) else nat_text i)"

text \<open>
  \<open>sort\<close> of the fields with a comparator: stable insertion by \<open>le\<close>, which says that the
  first key is not greater.
\<close>

fun insert_field :: "(string \<Rightarrow> string \<Rightarrow> bool) \<Rightarrow> string \<times> 'a \<Rightarrow> (string \<times> 'a) list \<Rightarrow> (string \<times> 'a) list" where
  "insert_field le f [] = [f]"
| "insert_field le f (g # gs) = (if le (fst f) (fst g) then f # g # gs else g # insert_field le f gs)"

definition sort_fields :: "(string \<Rightarrow> string \<Rightarrow> bool) \<Rightarrow> (string \<times> 'a) list \<Rightarrow> (string \<times> 'a) list" where
  "sort_fields le fs = foldr (insert_field le) fs []"

text \<open>\<open>compareKeys\<close> on code units\<close>

definition compare_keys :: "string \<Rightarrow> string \<Rightarrow> bool" where
  "compare_keys left right \<longleftrightarrow> left \<le> right"

lemma mapE_cong [fundef_cong]:
  "xs = ys \<Longrightarrow> (\<And>x. x \<in> set ys \<Longrightarrow> f x = g x) \<Longrightarrow> mapE f xs = mapE g ys"
  by (induction xs arbitrary: ys) (auto intro!: arg_cong2 [where f = bindE])

lemma mset_insert_field [simp]: "mset (insert_field le f gs) = add_mset f (mset gs)"
  by (induction gs) auto

lemma mset_sort_fields [simp]: "mset (sort_fields le fs) = mset fs"
  by (induction fs) (auto simp: sort_fields_def)

lemma set_sort_fields [simp]: "set (sort_fields le fs) = set fs"
  by (metis mset_sort_fields set_mset_mset)

lemma field_size: "f \<in> set fs \<Longrightarrow> size (snd f) < Suc (size_list (size_prod (\<lambda>_. 0) size) fs)"
  by (induction fs) auto

text \<open>The fields of an object as they are written: those that are not omitted.\<close>

definition field_text :: "string \<Rightarrow> string option \<Rightarrow> string list" where
  "field_text key t = (case t of None \<Rightarrow> [] | Some s \<Rightarrow> [quote_text key @ '':'' @ s])"

function serialize_canonical_value :: "js_value \<Rightarrow> fingerprint_error + string option" where
  "serialize_canonical_value Omitted = Inr None"
| "serialize_canonical_value NullVal = Inr (Some ''null'')"
| "serialize_canonical_value (BoolVal b) = Inr (Some (if b then ''true'' else ''false''))"
| "serialize_canonical_value (NumVal i) = Inr (Some (int_text i))"
| "serialize_canonical_value (TextVal s) = Inr (Some (quote_text s))"
| "serialize_canonical_value (BigintVal i) = Inl BigintUnsupported"
| "serialize_canonical_value (ArrayVal xs) =
     bindE (mapE serialize_canonical_value xs) (\<lambda>ts.
     Inr (Some (''['' @ join '','' (map (\<lambda>t. or_else t ''null'') ts) @ '']'')))"
| "serialize_canonical_value (PlainObj fs) =
     bindE (mapE (\<lambda>f. bindE (serialize_canonical_value (snd f)) (\<lambda>t. Inr (field_text (fst f) t)))
       (sort_fields compare_keys fs)) (\<lambda>ts.
     Inr (Some (''{'' @ join '','' (concat ts) @ ''}'')))"
| "serialize_canonical_value (ExoticObj fs) = Inl NotPlainObject"
  by pat_completeness auto
termination
  by (relation "measure size") (auto simp: less_Suc_eq_le size_list_estimation' dest!: field_size)

definition canonical_command_serialization :: "js_value \<Rightarrow> fingerprint_error + string" where
  "canonical_command_serialization v =
     bindE (serialize_canonical_value v) (option_to_result NotSerializable)"

text \<open>\<open>/^[a-z0-9][a-z0-9._/-]{0,127}$/\<close>\<close>

definition component_pattern :: "string \<Rightarrow> bool" where
  "component_pattern s \<longleftrightarrow> s \<noteq> [] \<and> length s \<le> 128 \<and> (is_lower (hd s) \<or> is_digit (hd s))
     \<and> list_all (\<lambda>c. is_lower c \<or> is_digit c \<or> c \<in> set ''._/-'') s"

definition fingerprint_namespace :: string where
  "fingerprint_namespace = ''business-finlynq.command-fingerprint''"

definition fingerprint_preimage :: "string \<Rightarrow> js_value \<Rightarrow> string \<Rightarrow> fingerprint_error + string" where
  "fingerprint_preimage domain payload version =
     bindE (throw_if (\<not> component_pattern domain) BadDomain) (\<lambda>_.
     bindE (throw_if (\<not> component_pattern version) BadVersion) (\<lambda>_.
     bindE (canonical_command_serialization payload) (\<lambda>t.
     Inr (join [CHR 0x0A] [fingerprint_namespace, ''version='' @ version, ''domain='' @ domain, ''payload='' @ t]))))"

definition create_command_fingerprint ::
  "(string \<Rightarrow> string) \<Rightarrow> string \<Rightarrow> js_value \<Rightarrow> string \<Rightarrow> fingerprint_error + string" where
  "create_command_fingerprint hash domain payload version =
     bindE (fingerprint_preimage domain payload version) (\<lambda>p. Inr (hash p))"

record transitional_fingerprints =
  tfp_current :: string
  tfp_legacy :: string

definition matches_stored_command_fingerprint :: "string option \<Rightarrow> transitional_fingerprints \<Rightarrow> bool" where
  "matches_stored_command_fingerprint stored f \<longleftrightarrow> stored = Some (tfp_current f) \<or> stored = Some (tfp_legacy f)"

text \<open>
  The older canonical form: fields sorted by \<open>localeCompare\<close> (\<open>le\<close>), then
  \<open>JSON.stringify\<close>.  \<open>Object.fromEntries\<close> keeps the sorted order except that names
  which are array indices come first, by their number: sorting by \<open>le\<close> and enumerating
  the new object is sorting by \<open>enumeration_order le\<close>.
\<close>

definition array_index :: "string \<Rightarrow> bool" where
  "array_index s \<longleftrightarrow> s \<noteq> [] \<and> list_all is_digit s \<and> (hd s = CHR ''0'' \<longrightarrow> s = ''0'')
     \<and> digits_value s \<le> 4294967294"

text \<open>Of two numerals without leading zeros the shorter is the smaller.\<close>

definition numeral_le :: "string \<Rightarrow> string \<Rightarrow> bool" where
  "numeral_le a b \<longleftrightarrow> length a < length b \<or> (length a = length b \<and> a \<le> b)"

definition enumeration_order :: "(string \<Rightarrow> string \<Rightarrow> bool) \<Rightarrow> string \<Rightarrow> string \<Rightarrow> bool" where
  "enumeration_order le a b =
     (if array_index a then array_index b \<longrightarrow> numeral_le a b else \<not> array_index b \<and> le a b)"

function canonical_value :: "(string \<Rightarrow> string \<Rightarrow> bool) \<Rightarrow> js_value \<Rightarrow> js_value" where
  "canonical_value le (ArrayVal xs) = ArrayVal (map (canonical_value le) xs)"
| "canonical_value le (PlainObj fs) = PlainObj (map (\<lambda>f. (fst f, canonical_value le (snd f)))
     (sort_fields le (filter (\<lambda>f. snd f \<noteq> Omitted) fs)))"
| "canonical_value le (ExoticObj fs) = PlainObj (map (\<lambda>f. (fst f, canonical_value le (snd f)))
     (sort_fields le (filter (\<lambda>f. snd f \<noteq> Omitted) fs)))"
| "canonical_value le Omitted = Omitted"
| "canonical_value le NullVal = NullVal"
| "canonical_value le (BoolVal b) = BoolVal b"
| "canonical_value le (NumVal i) = NumVal i"
| "canonical_value le (TextVal s) = TextVal s"
| "canonical_value le (BigintVal i) = BigintVal i"
  by pat_completeness auto
termination
  by (relation "measure (size \<circ> snd)") (auto simp: less_Suc_eq_le size_list_estimation' dest!: field_size)

function json_stringify :: "js_value \<Rightarrow> fingerprint_error + string option" where
  "json_stringify Omitted = Inr None"
| "json_stringify NullVal = Inr (Some ''null'')"
| "json_stringify (BoolVal b) = Inr (Some (if b then ''true'' else ''false''))"
| "json_stringify (NumVal i) = Inr (Some (int_text i))"
| "json_stringify (TextVal s) = Inr (Some (quote_text s))"
| "json_stringify (BigintVal i) = Inl BigintUnsupported"
| "json_stringify (ArrayVal xs) =
     bindE (mapE json_stringify xs) (\<lambda>ts.
     Inr (Some (''['' @ join '','' (map (\<lambda>t. or_else t ''null'') ts) @ '']'')))"
| "json_stringify (PlainObj fs) =
     bindE (mapE (\<lambda>f. bindE (json_stringify (snd f)) (\<lambda>t. Inr (field_text (fst f) t))) fs) (\<lambda>ts.
     Inr (Some (''{'' @ join '','' (concat ts) @ ''}'')))"
| "json_stringify (ExoticObj fs) = Inl NotPlainObject"
  by pat_completeness auto
termination
  by (relation "measure size") (auto simp: less_Suc_eq_le size_list_estimation' dest!: field_size)

definition canonical_json :: "(string \<Rightarrow> string \<Rightarrow> bool) \<Rightarrow> js_value \<Rightarrow> fingerprint_error + string option" where
  "canonical_json le v = json_stringify (canonical_value (enumeration_order le) v)"

section \<open>What the texts stand for\<close>

text \<open>
  Two payloads are the same when they differ only in the order of fields, in fields that
  are omitted, and in array items that are omitted or null.
\<close>

definition field_of :: "(string \<times> js_value) list \<Rightarrow> string \<Rightarrow> js_value option" where
  "field_of fs k = map_of (filter (\<lambda>f. snd f \<noteq> Omitted) fs) k"

fun array_item :: "js_value \<Rightarrow> js_value" where
  "array_item Omitted = NullVal"
| "array_item v = v"

fun object_fields :: "js_value \<Rightarrow> (string \<times> js_value) list option" where
  "object_fields (PlainObj fs) = Some fs"
| "object_fields (ExoticObj fs) = Some fs"
| "object_fields _ = None"

inductive same_payload :: "js_value \<Rightarrow> js_value \<Rightarrow> bool" where
  same_omitted: "same_payload Omitted Omitted"
| same_null: "same_payload NullVal NullVal"
| same_bool: "same_payload (BoolVal b) (BoolVal b)"
| same_num: "same_payload (NumVal i) (NumVal i)"
| same_text: "same_payload (TextVal s) (TextVal s)"
| same_bigint: "same_payload (BigintVal i) (BigintVal i)"
| same_array: "list_all2 (\<lambda>x y. same_payload (array_item x) (array_item y)) xs ys \<Longrightarrow>
    same_payload (ArrayVal xs) (ArrayVal ys)"
| same_object: "object_fields v = Some fs \<Longrightarrow> object_fields w = Some gs \<Longrightarrow>
    (\<forall>k. rel_option same_payload (field_of fs k) (field_of gs k)) \<Longrightarrow> same_payload v w"

inductive_cases same_payload_cases:
  "same_payload v Omitted" "same_payload Omitted v" "same_payload NullVal v" "same_payload (BoolVal b) v"
  "same_payload (NumVal i) v" "same_payload (TextVal s) v" "same_payload (BigintVal i) v"
  "same_payload (ArrayVal xs) v" "same_payload (PlainObj fs) v" "same_payload (ExoticObj fs) v"

text \<open>A field name occurs once in an object.\<close>

fun distinct_keys :: "js_value \<Rightarrow> bool" where
  "distinct_keys (ArrayVal xs) = list_all distinct_keys xs"
| "distinct_keys (PlainObj fs) = (distinct (map fst fs) \<and> list_all (\<lambda>f. distinct_keys (snd f)) fs)"
| "distinct_keys (ExoticObj fs) = (distinct (map fst fs) \<and> list_all (\<lambda>f. distinct_keys (snd f)) fs)"
| "distinct_keys _ = True"

text \<open>The representative of a payload, and its text.\<close>

function normal :: "(string \<Rightarrow> string \<Rightarrow> bool) \<Rightarrow> js_value \<Rightarrow> js_value" where
  "normal le (ArrayVal xs) = ArrayVal (map (\<lambda>x. normal le (array_item x)) xs)"
| "normal le (PlainObj fs) = PlainObj (sort_fields le (map (\<lambda>f. (fst f, normal le (snd f)))
     (filter (\<lambda>f. snd f \<noteq> Omitted) fs)))"
| "normal le (ExoticObj fs) = PlainObj (sort_fields le (map (\<lambda>f. (fst f, normal le (snd f)))
     (filter (\<lambda>f. snd f \<noteq> Omitted) fs)))"
| "normal le Omitted = Omitted"
| "normal le NullVal = NullVal"
| "normal le (BoolVal b) = BoolVal b"
| "normal le (NumVal i) = NumVal i"
| "normal le (TextVal s) = TextVal s"
| "normal le (BigintVal i) = BigintVal i"
  by pat_completeness auto

lemma array_item_size: "x \<in> set xs \<Longrightarrow> size (array_item x) < Suc (size_list size xs)"
  by (induction xs; cases x) auto

termination normal
  by (relation "measure (size \<circ> snd)") (auto dest: array_item_size field_size)

fun writable :: "js_value \<Rightarrow> bool" where
  "writable (ArrayVal xs) = list_all writable xs"
| "writable (PlainObj fs) = list_all (\<lambda>f. writable (snd f)) fs"
| "writable v = (case v of Omitted \<Rightarrow> False | BigintVal _ \<Rightarrow> False | ExoticObj _ \<Rightarrow> False | _ \<Rightarrow> True)"

fun json_text :: "js_value \<Rightarrow> string" where
  "json_text NullVal = ''null''"
| "json_text (BoolVal b) = (if b then ''true'' else ''false'')"
| "json_text (NumVal i) = int_text i"
| "json_text (TextVal s) = quote_text s"
| "json_text (ArrayVal xs) = ''['' @ join '','' (map json_text xs) @ '']''"
| "json_text (PlainObj fs) =
     ''{'' @ join '','' (map (\<lambda>f. quote_text (fst f) @ '':'' @ json_text (snd f)) fs) @ ''}''"
| "json_text v = []"

section \<open>Sorting fields\<close>

lemma sort_fields_Nil [simp]: "sort_fields le [] = []"
  by (simp add: sort_fields_def)

lemma sort_fields_Cons: "sort_fields le (f # fs) = insert_field le f (sort_fields le fs)"
  by (simp add: sort_fields_def)

lemma insert_field_map:
  "insert_field le (fst f, g (snd f)) (map (\<lambda>f. (fst f, g (snd f))) fs) = map (\<lambda>f. (fst f, g (snd f))) (insert_field le f fs)"
  by (induction fs) auto

lemma sort_fields_map: "sort_fields le (map (\<lambda>f. (fst f, g (snd f))) fs) = map (\<lambda>f. (fst f, g (snd f))) (sort_fields le fs)"
  by (induction fs) (simp_all add: sort_fields_Cons insert_field_map)

text \<open>The laws of a comparator, and what they give: one order for one set of fields.\<close>

locale key_order =
  fixes le :: "string \<Rightarrow> string \<Rightarrow> bool"
  assumes le_total: "le a b \<or> le b a"
    and le_trans: "le a b \<Longrightarrow> le b c \<Longrightarrow> le a c"
    and le_antisym: "le a b \<Longrightarrow> le b a \<Longrightarrow> a = b"
begin

abbreviation sorted_fields :: "(string \<times> 'a) list \<Rightarrow> bool" where
  "sorted_fields fs \<equiv> sorted_wrt (\<lambda>f g. le (fst f) (fst g)) fs"

lemma sorted_insert: "sorted_fields fs \<Longrightarrow> sorted_fields (insert_field le f fs)"
proof (induction fs)
  case (Cons g gs)
  have "set (insert_field le f gs) = insert f (set gs)" by (metis mset_insert_field set_mset_add_mset_insert set_mset_mset)
  then show ?case using Cons le_total [of "fst f" "fst g"] le_trans by auto
qed simp

lemma sorted_sort: "sorted_fields (sort_fields le fs)"
  by (induction fs) (simp_all add: sort_fields_Cons sorted_insert)

lemma insert_first: "\<forall>g \<in> set gs. le (fst f) (fst g) \<Longrightarrow> insert_field le f gs = f # gs"
  by (cases gs) auto

lemma filter_insert: "sorted_fields gs \<Longrightarrow>
    filter P (insert_field le f gs) = (if P f then insert_field le f (filter P gs) else filter P gs)"
proof (induction gs)
  case (Cons g gs)
  show ?case
  proof (cases "le (fst f) (fst g)")
    case True
    then have "\<forall>h \<in> set (filter P (g # gs)). le (fst f) (fst h)" using Cons.prems le_trans by auto
    then show ?thesis using True insert_first [of "filter P (g # gs)" f] by auto
  qed (use Cons in auto)
qed simp

lemma filter_sort: "filter P (sort_fields le fs) = sort_fields le (filter P fs)"
  by (induction fs) (simp_all add: sort_fields_Cons filter_insert sorted_sort)

lemma sorted_unique:
  "sorted_fields fs \<Longrightarrow> sorted_fields gs \<Longrightarrow> mset fs = mset gs \<Longrightarrow> distinct (map fst fs) \<Longrightarrow> fs = gs"
proof (induction fs arbitrary: gs)
  case (Cons f fs)
  then obtain g gs' where gs: "gs = g # gs'" by (cases gs) auto
  have "f \<in> set gs" "g \<in> set (f # fs)" using Cons.prems(3) gs by (metis list.set_intros(1) mset_eq_setD)+
  then have "le (fst f) (fst g)" "le (fst g) (fst f)"
    using Cons.prems(1,2) gs le_total [of "fst f" "fst f"] by auto
  then have "fst f = fst g" by (rule le_antisym)
  then have "f = g" using \<open>g \<in> set (f # fs)\<close> Cons.prems(4) by auto
  then show ?case using Cons gs by auto
qed simp

lemma sort_fields_eq_iff:
  assumes "distinct (map fst fs)" "distinct (map fst gs)"
  shows "sort_fields le fs = sort_fields le gs \<longleftrightarrow> map_of fs = map_of gs"
proof -
  have d: "distinct fs" "distinct gs" using assms by (simp_all add: distinct_map)
  have "sort_fields le fs = sort_fields le gs \<longleftrightarrow> mset fs = mset gs"
  proof
    assume "mset fs = mset gs"
    moreover have "mset (map fst (sort_fields le fs)) = mset (map fst fs)" by simp
    then have "distinct (map fst (sort_fields le fs))" using assms(1) mset_eq_imp_distinct_iff by blast
    ultimately show "sort_fields le fs = sort_fields le gs" by (intro sorted_unique sorted_sort) simp_all
  qed (metis mset_sort_fields)
  also have "\<dots> \<longleftrightarrow> set fs = set gs" using set_eq_iff_mset_eq_distinct [OF d] by auto
  also have "\<dots> \<longleftrightarrow> map_of fs = map_of gs" by (rule map_of_inject_set [OF assms, symmetric])
  finally show ?thesis .
qed

end

interpretation keys: key_order compare_keys
  by unfold_locales (auto simp: compare_keys_def)

section \<open>Payloads and their representatives\<close>

lemma distinct_filter_keys: "distinct (map fst fs) \<Longrightarrow> distinct (map fst (filter P fs))"
  by (induction fs) auto

lemma normal_eq_Omitted [simp]: "normal le v = Omitted \<longleftrightarrow> v = Omitted"
  by (cases v) auto

lemma normal_object: "object_fields v = Some fs \<Longrightarrow> normal le v = PlainObj (sort_fields le
    (map (\<lambda>f. (fst f, normal le (snd f))) (filter (\<lambda>f. snd f \<noteq> Omitted) fs)))"
  by (cases v) auto

lemma field_of_normal:
  "map_of (map (\<lambda>f. (fst f, normal le (snd f))) (filter (\<lambda>f. snd f \<noteq> Omitted) fs)) k
   = map_option (normal le) (field_of fs k)"
  unfolding field_of_def by (induction fs) auto

lemma field_of_mem: "field_of fs k = Some v \<Longrightarrow> (k, v) \<in> set fs \<and> v \<noteq> Omitted"
  unfolding field_of_def by (auto dest: map_of_SomeD)

lemma distinct_keys_item: "distinct_keys x \<Longrightarrow> distinct_keys (array_item x)"
  by (cases x) auto

context key_order
begin

lemma same_payload_normal:
  "distinct_keys v \<Longrightarrow> distinct_keys w \<Longrightarrow> same_payload v w \<longleftrightarrow> normal le v = normal le w"
proof (induction v arbitrary: w rule: measure_induct_rule [of size])
  case (less v)
  have objects: "same_payload v w \<longleftrightarrow> normal le v = normal le w"
    if fs: "object_fields v = Some fs" and gs: "object_fields w = Some gs" for fs gs
  proof -
    have d: "distinct (map fst fs)" "distinct (map fst gs)"
      and sub: "\<forall>f \<in> set fs. distinct_keys (snd f)" "\<forall>f \<in> set gs. distinct_keys (snd f)"
      using less.prems fs gs by (cases v; cases w; auto simp: list_all_iff)+
    have small: "size x < size v" if "(k, x) \<in> set fs" for k x
      using field_size [OF that] fs by (cases v) auto
    have "normal le v = normal le w \<longleftrightarrow>
        (\<forall>k. map_option (normal le) (field_of fs k) = map_option (normal le) (field_of gs k))"
      unfolding normal_object [OF fs] normal_object [OF gs] js_value.inject
      by (subst sort_fields_eq_iff) (use d in \<open>auto simp: o_def distinct_filter_keys field_of_normal fun_eq_iff\<close>)
    also have "\<dots> \<longleftrightarrow> (\<forall>k. rel_option same_payload (field_of fs k) (field_of gs k))"
    proof -
      have "map_option (normal le) (field_of fs k) = map_option (normal le) (field_of gs k)
          \<longleftrightarrow> rel_option same_payload (field_of fs k) (field_of gs k)" for k
      proof (cases "field_of fs k"; cases "field_of gs k")
        fix x y assume xy: "field_of fs k = Some x" "field_of gs k = Some y"
        then have "(k, x) \<in> set fs" "(k, y) \<in> set gs" using field_of_mem by auto
        then show ?thesis using xy less.IH [OF small [of k x], of y] sub by fastforce
      qed auto
      then show ?thesis by simp
    qed
    also have "\<dots> \<longleftrightarrow> same_payload v w"
      using fs gs by (cases v; cases w) (auto intro: same_object elim: same_payload_cases)
    finally show ?thesis by simp
  qed
  show ?case
  proof (cases v)
    case (ArrayVal xs)
    show ?thesis
    proof (cases w)
      case w: (ArrayVal ys)
      have item: "same_payload (array_item x) (array_item y) \<longleftrightarrow> normal le (array_item x) = normal le (array_item y)"
        if "x \<in> set xs" "y \<in> set ys" for x y
      proof (rule less.IH)
        show "size (array_item x) < size v" using array_item_size [OF that(1)] ArrayVal by simp
        show "distinct_keys (array_item x)" "distinct_keys (array_item y)"
          using that less.prems ArrayVal w by (simp_all add: list_all_iff distinct_keys_item)
      qed
      have "same_payload v w \<longleftrightarrow> list_all2 (\<lambda>x y. same_payload (array_item x) (array_item y)) xs ys"
        using ArrayVal w by (auto intro: same_array elim: same_payload_cases)
      also have "\<dots> \<longleftrightarrow> list_all2 (\<lambda>x y. normal le (array_item x) = normal le (array_item y)) xs ys"
        using item by (auto intro: list.rel_mono_strong)
      also have "\<dots> \<longleftrightarrow> normal le v = normal le w"
        using ArrayVal w by (auto simp: list_all2_conv_all_nth list_eq_iff_nth_eq)
      finally show ?thesis .
    qed (use ArrayVal in \<open>auto elim: same_payload_cases\<close>)
  next
    case (PlainObj fs)
    then show ?thesis using objects by (cases w) (auto elim: same_payload_cases)
  next
    case (ExoticObj fs)
    then show ?thesis using objects by (cases w) (auto elim: same_payload_cases)
  qed (cases w; auto elim: same_payload_cases intro: same_payload.intros)+
qed

end

section \<open>The text determines the representative\<close>

definition hex_value :: "char \<Rightarrow> nat" where
  "hex_value c = (if is_digit c then of_char c - 48 else of_char c - 87)"

definition short_escape :: "char \<Rightarrow> char" where
  "short_escape e =
     (if e = CHR ''b'' then CHR 0x08 else if e = CHR ''f'' then CHR 0x0C else if e = CHR ''n'' then CHR 0x0A
      else if e = CHR ''r'' then CHR 0x0D else if e = CHR ''t'' then CHR 0x09 else e)"

text \<open>Reading one character of a quoted text back.\<close>

fun unescape :: "string \<Rightarrow> (char \<times> string) option" where
  "unescape [] = None"
| "unescape (b # t) =
     (if b \<noteq> CHR 0x5C then Some (b, t)
      else case t of
          [] \<Rightarrow> None
        | e # r \<Rightarrow>
            if e = CHR ''u''
            then (case r of _ # _ # x # y # z \<Rightarrow> Some (char_of (16 * hex_value x + hex_value y), z) | _ \<Rightarrow> None)
            else Some (short_escape e, r))"

lemma hex_value: "n < 16 \<Longrightarrow> hex_value (hex_char n) = n"
  by (auto simp: hex_char_def hex_value_def is_digit_def char_between_def)

lemma quote_char_special:
  "quote_char (CHR 0x22) = [CHR 0x5C, CHR 0x22]" "quote_char (CHR 0x5C) = [CHR 0x5C, CHR 0x5C]"
  "quote_char (CHR 0x08) = [CHR 0x5C, CHR ''b'']" "quote_char (CHR 0x0C) = [CHR 0x5C, CHR ''f'']"
  "quote_char (CHR 0x0A) = [CHR 0x5C, CHR ''n'']" "quote_char (CHR 0x0D) = [CHR 0x5C, CHR ''r'']"
  "quote_char (CHR 0x09) = [CHR 0x5C, CHR ''t'']"
  by code_simp+

lemma short_escapes:
  "short_escape (CHR 0x22) = CHR 0x22" "short_escape (CHR 0x5C) = CHR 0x5C" "short_escape (CHR ''b'') = CHR 0x08"
  "short_escape (CHR ''f'') = CHR 0x0C" "short_escape (CHR ''n'') = CHR 0x0A" "short_escape (CHR ''r'') = CHR 0x0D"
  "short_escape (CHR ''t'') = CHR 0x09"
  by code_simp+

lemma quote_char_cases:
  obtains "c \<in> {CHR 0x22, CHR 0x5C, CHR 0x08, CHR 0x0C, CHR 0x0A, CHR 0x0D, CHR 0x09}"
  | "quote_char c = [c]" "c \<noteq> CHR 0x22" "c \<noteq> CHR 0x5C"
  | "quote_char c = [CHR 0x5C, CHR ''u'', CHR ''0'', CHR ''0'', hex_char (of_char c div 16), hex_char (of_char c mod 16)]"
    "(of_char c :: nat) < 32"
proof (cases "c \<in> {CHR 0x22, CHR 0x5C, CHR 0x08, CHR 0x0C, CHR 0x0A, CHR 0x0D, CHR 0x09}")
  case True
  then show thesis by (rule that(1))
next
  case False
  then have "(of_char c :: nat) \<noteq> 34" "(of_char c :: nat) \<noteq> 92" "(of_char c :: nat) \<noteq> 8" "(of_char c :: nat) \<noteq> 12"
    "(of_char c :: nat) \<noteq> 10" "(of_char c :: nat) \<noteq> 13" "(of_char c :: nat) \<noteq> 9"
    by (simp_all add: char_eq_iff_nat)
  then have "quote_char c = (if (of_char c :: nat) < 32 then
      [CHR 0x5C, CHR ''u'', CHR ''0'', CHR ''0'', hex_char (of_char c div 16), hex_char (of_char c mod 16)] else [c])"
    by (simp add: quote_char_def Let_def)
  then show thesis using that(2,3) False by (cases "(of_char c :: nat) < 32") auto
qed

lemma unescape_simps:
  "b \<noteq> CHR 0x5C \<Longrightarrow> unescape (b # t) = Some (b, t)"
  "e \<noteq> CHR ''u'' \<Longrightarrow> unescape (CHR 0x5C # e # t) = Some (short_escape e, t)"
  "unescape (CHR 0x5C # CHR ''u'' # a # b # x # y # t) = Some (char_of (16 * hex_value x + hex_value y), t)"
  by simp_all

lemma unescape_quote_char: "unescape (quote_char c @ r) = Some (c, r)"
proof (cases c rule: quote_char_cases)
  case 1
  then show ?thesis
    by (elim insertE emptyE) (simp_all add: quote_char_special short_escapes unescape_simps del: unescape.simps)
next
  case 2
  then show ?thesis by (simp add: unescape_simps del: unescape.simps)
next
  case 3
  have "16 * hex_value (hex_char (of_char c div 16)) + hex_value (hex_char (of_char c mod 16)) = of_char c"
    using 3(2) by (simp add: hex_value)
  then show ?thesis using 3(1) by (simp add: unescape_simps del: unescape.simps)
qed

lemma quote_char_inject: assumes "quote_char c @ r = quote_char d @ u" shows "c = d \<and> r = u"
proof -
  have "Some (c, r) = Some (d, u)" using unescape_quote_char [of c r] unescape_quote_char [of d u] unfolding assms by (rule trans [OF sym])
  then show ?thesis by blast
qed

lemma hd_quote_char: "\<exists>b bs. quote_char c = b # bs \<and> b \<noteq> CHR 0x22"
  by (cases c rule: quote_char_cases) (auto simp: quote_char_special)

lemma quote_text_inject: "quote_text s @ r = quote_text t @ u \<Longrightarrow> s = t \<and> r = u"
proof -
  have "concat (map quote_char s) @ CHR 0x22 # r = concat (map quote_char t) @ CHR 0x22 # u \<Longrightarrow> s = t \<and> r = u"
  proof (induction s arbitrary: t)
    case Nil
    then show ?case using hd_quote_char [of "hd t"] by (cases t) auto
  next
    case (Cons c s)
    then obtain d t' where t: "t = d # t'" using hd_quote_char [of c] by (cases t) auto
    then have "c = d \<and> concat (map quote_char s) @ CHR 0x22 # r = concat (map quote_char t') @ CHR 0x22 # u"
      using Cons.prems by (intro quote_char_inject) simp
    then show ?case using Cons.IH [of t'] t by simp
  qed
  then show "quote_text s @ r = quote_text t @ u \<Longrightarrow> s = t \<and> r = u" by (simp add: quote_text_def)
qed

text \<open>What may follow a value: nothing, or one of the marks of JSON.\<close>

definition mark :: "string \<Rightarrow> bool" where
  "mark r \<longleftrightarrow> r = [] \<or> hd r \<in> {CHR '','', CHR '']'', CHR ''}''}"

lemma mark_not_digit: "mark r \<Longrightarrow> takeWhile is_digit r = []"
  by (cases r) (auto simp: mark_def is_digit_def char_between_def)

lemma nat_text_inject:
  assumes "nat_text i @ r = nat_text j @ u" "0 \<le> i" "0 \<le> j" "mark r" "mark u" shows "i = j \<and> r = u"
proof -
  have "takeWhile is_digit (nat_text k @ t) = nat_text k" if "mark t" for k t
    using nat_text_digits [of k] mark_not_digit [OF that] by (simp add: takeWhile_append2 list_all_iff)
  then have "nat_text i = nat_text j" using assms by metis
  then show ?thesis using assms digits_value_nat_text by (metis append_same_eq same_append_eq)
qed

lemma hd_nat_text: "\<exists>c cs. nat_text i = c # cs \<and> is_digit c"
  using nat_text_digits [of i] by (cases "nat_text i") auto

lemma int_text_inject:
  assumes "int_text i @ r = int_text j @ u" "mark r" "mark u" shows "i = j \<and> r = u"
proof -
  have "\<not> is_digit (CHR ''-'')" by (simp add: is_digit_def char_between_def)
  then have sign: "i < 0 \<longleftrightarrow> j < 0"
    using assms(1) hd_nat_text [of i] hd_nat_text [of j] by (auto simp: int_text_def split: if_splits)
  then show ?thesis
    using assms nat_text_inject [of "- i" r "- j" u] nat_text_inject [of i r j u]
    by (cases "i < 0") (auto simp: int_text_def)
qed

text \<open>The first character of a text says which kind of value it is.\<close>

datatype json_kind = KNull | KBool | KNum | KText | KArray | KObject

fun kind_of :: "js_value \<Rightarrow> json_kind" where
  "kind_of NullVal = KNull" | "kind_of (BoolVal b) = KBool" | "kind_of (NumVal i) = KNum"
| "kind_of (TextVal s) = KText" | "kind_of (ArrayVal xs) = KArray" | "kind_of v = KObject"

definition first_kind :: "char \<Rightarrow> json_kind" where
  "first_kind c = (if c = CHR ''n'' then KNull else if c = CHR ''t'' \<or> c = CHR ''f'' then KBool
     else if c = CHR 0x22 then KText else if c = CHR ''['' then KArray else if c = CHR ''{'' then KObject else KNum)"

lemma not_digits:
  "\<not> is_digit (CHR ''n'')" "\<not> is_digit (CHR ''t'')" "\<not> is_digit (CHR ''f'')" "\<not> is_digit (CHR 0x22)"
  "\<not> is_digit (CHR ''['')" "\<not> is_digit (CHR ''{'')" "\<not> is_digit (CHR '']'')" "\<not> is_digit (CHR ''}'')"
  by code_simp+

lemma first_kind_int: "\<exists>c cs. int_text i = c # cs \<and> first_kind c = KNum \<and> c \<notin> {CHR '']'', CHR ''}''}"
proof -
  obtain c cs where "nat_text (if i < 0 then - i else i) = c # cs" "is_digit c" using hd_nat_text by blast
  moreover have "first_kind c = KNum \<and> c \<notin> {CHR '']'', CHR ''}''}" if "is_digit c" for c
    using that not_digits by (auto simp: first_kind_def)
  moreover have "first_kind (CHR ''-'') = KNum \<and> CHR ''-'' \<notin> {CHR '']'', CHR ''}''}" by code_simp
  ultimately show ?thesis by (auto simp: int_text_def)
qed

lemma first_of_text:
  "writable v \<Longrightarrow> \<exists>c cs. json_text v = c # cs \<and> first_kind c = kind_of v \<and> c \<notin> {CHR '']'', CHR ''}''}"
  using first_kind_int by (cases v) (auto simp: first_kind_def quote_text_def)

text \<open>A list of texts that are told apart by what follows is told apart by its joined text.\<close>

lemma join_Cons: "join '','' (x # xs) = x @ (if xs = [] then [] else '','' @ join '','' xs)"
  by (cases xs) auto

lemma join_inject:
  assumes "\<And>x y r u. x \<in> set xs \<Longrightarrow> y \<in> set ys \<Longrightarrow> mark r \<Longrightarrow> mark u \<Longrightarrow> f x @ r = f y @ u \<Longrightarrow> x = y \<and> r = u"
    and "\<And>x. x \<in> set xs \<union> set ys \<Longrightarrow> \<exists>c cs. f x = c # cs \<and> c \<noteq> e"
    and "e \<in> {CHR '']'', CHR ''}''}" and "join '','' (map f xs) @ e # r = join '','' (map f ys) @ e # u"
  shows "xs = ys \<and> r = u"
  using assms(1,2,4)
proof (induction xs arbitrary: ys)
  case Nil
  show ?case
  proof (cases ys)
    case (Cons y ys')
    then obtain c cs where "f y = c # cs" "c \<noteq> e" using Nil.prems(2) [of y] by auto
    then show ?thesis using Nil.prems(3) Cons by (simp add: join_Cons)
  qed (use Nil in auto)
next
  case (Cons x xs)
  obtain c cs where c: "f x = c # cs" "c \<noteq> e" using Cons.prems(2) [of x] by auto
  obtain y ys' where ys: "ys = y # ys'" using Cons.prems(3) c by (cases ys) (auto simp: join_Cons)
  let ?r = "(if xs = [] then [] else '','' @ join '','' (map f xs)) @ e # r"
  let ?u = "(if ys' = [] then [] else '','' @ join '','' (map f ys')) @ e # u"
  have "mark ?r" "mark ?u" using assms(3) by (auto simp: mark_def)
  moreover have "f x @ ?r = f y @ ?u" using Cons.prems(3) ys by (simp add: join_Cons)
  ultimately have xy: "x = y" and rest: "?r = ?u" using Cons.prems(1) [of x y] ys by auto
  have ne: "e \<noteq> CHR '',''" using assms(3) by auto
  have both: "xs = [] \<longleftrightarrow> ys' = []" using rest ne by (auto split: if_splits)
  show ?case
  proof (cases "xs = []")
    case True
    then show ?thesis using xy ys both rest by simp
  next
    case False
    then have "join '','' (map f xs) @ e # r = join '','' (map f ys') @ e # u" using rest both by simp
    then have "xs = ys' \<and> r = u" using Cons.prems(1,2) ys by (intro Cons.IH) auto
    then show ?thesis using xy ys by simp
  qed
qed

lemma json_text_inject:
  "writable v \<Longrightarrow> writable w \<Longrightarrow> mark r \<Longrightarrow> mark u \<Longrightarrow> json_text v @ r = json_text w @ u \<Longrightarrow> v = w \<and> r = u"
proof (induction v arbitrary: w r u rule: measure_induct_rule [of size])
  case (less v)
  have kind: "kind_of v = kind_of w"
    using first_of_text [OF less.prems(1)] first_of_text [OF less.prems(2)] less.prems(5) by auto
  show ?case
  proof (cases v)
    case (ArrayVal xs)
    then obtain ys where w: "w = ArrayVal ys" using kind less.prems(2) by (cases w) auto
    have eq: "join '','' (map json_text xs) @ CHR '']'' # r = join '','' (map json_text ys) @ CHR '']'' # u"
      using less.prems(5) ArrayVal w by simp
    have "xs = ys \<and> r = u"
    proof (rule join_inject [OF _ _ _ eq])
      fix x y r u assume x: "x \<in> set xs" "y \<in> set ys" "mark r" "mark u" "json_text x @ r = json_text y @ u"
      have "size x < size v" using x(1) ArrayVal by (auto simp: less_Suc_eq_le intro: size_list_estimation')
      then show "x = y \<and> r = u" using x less.IH less.prems(1,2) ArrayVal w by (auto simp: list_all_iff)
    next
      fix x assume "x \<in> set xs \<union> set ys"
      then have "writable x" using less.prems(1,2) ArrayVal w by (auto simp: list_all_iff)
      then show "\<exists>c cs. json_text x = c # cs \<and> c \<noteq> CHR '']''" using first_of_text by blast
    qed simp
    then show ?thesis using ArrayVal w by simp
  next
    case (PlainObj fs)
    then obtain gs where w: "w = PlainObj gs" using kind less.prems(2) by (cases w) auto
    let ?f = "\<lambda>f. quote_text (fst f) @ '':'' @ json_text (snd f)"
    have eq: "join '','' (map ?f fs) @ CHR ''}'' # r = join '','' (map ?f gs) @ CHR ''}'' # u"
      using less.prems(5) PlainObj w by simp
    have "fs = gs \<and> r = u"
    proof (rule join_inject [OF _ _ _ eq])
      fix x y r u assume x: "x \<in> set fs" "y \<in> set gs" "mark r" "mark u" "?f x @ r = ?f y @ u"
      have "fst x = fst y \<and> '':'' @ json_text (snd x) @ r = '':'' @ json_text (snd y) @ u"
        by (rule quote_text_inject) (use x(5) in simp)
      moreover have "size (snd x) < size v" using field_size [OF x(1)] PlainObj by simp
      ultimately show "x = y \<and> r = u"
        using x less.IH [of "snd x" "snd y" r u] less.prems(1,2) PlainObj w by (auto simp: list_all_iff prod_eq_iff)
    next
      fix x :: "string \<times> js_value" assume "x \<in> set fs \<union> set gs"
      show "\<exists>c cs. ?f x = c # cs \<and> c \<noteq> CHR ''}''" by (simp add: quote_text_def)
    qed simp
    then show ?thesis using PlainObj w by simp
  next
    case (TextVal s)
    then obtain t where "w = TextVal t" using kind less.prems(2) by (cases w) auto
    then show ?thesis using less.prems(5) TextVal quote_text_inject [of s r t u] by simp
  next
    case (NumVal i)
    then obtain j where "w = NumVal j" using kind less.prems(2) by (cases w) auto
    then show ?thesis using less.prems(3-5) NumVal int_text_inject [of i r j u] by simp
  next
    case (BoolVal b)
    then obtain c where "w = BoolVal c" using kind less.prems(2) by (cases w) auto
    then show ?thesis using less.prems(5) BoolVal by (auto split: if_splits)
  next
    case NullVal
    then show ?thesis using kind less.prems(2,5) by (cases w) auto
  qed (use less.prems(1) in simp_all)
qed

section \<open>The code writes the text of the representative\<close>

definition text_of :: "(js_value \<Rightarrow> js_value) \<Rightarrow> js_value \<Rightarrow> string option" where
  "text_of n v = (if v = Omitted then None else Some (json_text (n v)))"

lemma item_texts:
  assumes "mapE ser xs = Inr ts" and "\<And>x t. x \<in> set xs \<Longrightarrow> ser x = Inr t \<Longrightarrow> t = text_of n x" and "n NullVal = NullVal"
  shows "map (\<lambda>t. or_else t ''null'') ts = map json_text (map (\<lambda>x. n (array_item x)) xs)"
proof -
  have "list_all2 (\<lambda>x t. ser x = Inr t) xs ts" using assms(1) by (simp add: mapE_Inr_iff)
  then have "list_all2 (\<lambda>x t. t = text_of n x) xs ts" by (rule list.rel_mono_strong) (rule assms(2))
  then show ?thesis
  proof (induction rule: list_all2_induct)
    case (Cons x xs t ts)
    have "or_else t ''null'' = json_text (n (array_item x))"
      using Cons(1) assms(3) by (cases x) (simp_all add: text_of_def)
    then show ?case using Cons.IH by simp
  qed simp
qed

lemma field_texts:
  assumes "mapE (\<lambda>f. bindE (ser (snd f)) (\<lambda>t. Inr (field_text (fst f) t))) fs = Inr ts"
    and "\<And>f t. f \<in> set fs \<Longrightarrow> ser (snd f) = Inr t \<Longrightarrow> t = text_of n (snd f)"
  shows "concat ts = map (\<lambda>f. quote_text (fst f) @ '':'' @ json_text (snd f))
      (map (\<lambda>f. (fst f, n (snd f))) (filter (\<lambda>f. snd f \<noteq> Omitted) fs))"
proof -
  have "list_all2 (\<lambda>f t. t = field_text (fst f) (text_of n (snd f))) fs ts"
    using assms(1) unfolding mapE_Inr_iff
    by (rule list.rel_mono_strong) (use assms(2) in \<open>fastforce simp: bindE_Inr_iff\<close>)
  then show ?thesis
    by (induction rule: list_all2_induct) (simp_all add: text_of_def field_text_def)
qed

lemma normal_fields:
  "normal compare_keys (PlainObj fs) = PlainObj (map (\<lambda>f. (fst f, normal compare_keys (snd f)))
     (filter (\<lambda>f. snd f \<noteq> Omitted) (sort_fields compare_keys fs)))"
  by (simp add: sort_fields_map keys.filter_sort)

lemma serialize_text:
  "serialize_canonical_value v = Inr t \<Longrightarrow> t = text_of (normal compare_keys) v
    \<and> (v \<noteq> Omitted \<longrightarrow> writable (normal compare_keys v))"
proof (induction v arbitrary: t rule: measure_induct_rule [of size])
  case (less v)
  show ?case
  proof (cases v)
    case (ArrayVal xs)
    then obtain ts where ts: "mapE serialize_canonical_value xs = Inr ts"
      and t: "t = Some (''['' @ join '','' (map (\<lambda>t. or_else t ''null'') ts) @ '']'')"
      using less.prems by (auto simp: bindE_Inr_iff)
    have small: "size x < size v" if "x \<in> set xs" for x
      using that ArrayVal by (auto simp: less_Suc_eq_le intro: size_list_estimation')
    have "\<exists>u. serialize_canonical_value x = Inr u" if "x \<in> set xs" for x using mapE_Inr_set [OF ts that] by blast
    then have "writable (normal compare_keys (array_item x))" if "x \<in> set xs" for x
      using less.IH [OF small [OF that]] that by (cases x) fastforce+
    then have "writable (normal compare_keys v)" using ArrayVal by (auto simp: list_all_iff)
    moreover have "map (\<lambda>t. or_else t ''null'') ts = map json_text (map (\<lambda>x. normal compare_keys (array_item x)) xs)"
      by (rule item_texts [OF ts]) (use less.IH small in auto)
    ultimately show ?thesis using t ArrayVal by (simp add: text_of_def)
  next
    case (PlainObj fs)
    then obtain ts where ts: "mapE (\<lambda>f. bindE (serialize_canonical_value (snd f)) (\<lambda>t. Inr (field_text (fst f) t)))
        (sort_fields compare_keys fs) = Inr ts" and t: "t = Some (''{'' @ join '','' (concat ts) @ ''}'')"
      using less.prems by (auto simp: bindE_Inr_iff)
    have small: "size (snd f) < size v" if "f \<in> set fs" for f using field_size [OF that] PlainObj by simp
    have "\<exists>u. serialize_canonical_value (snd f) = Inr u" if "f \<in> set fs" for f
      using mapE_Inr_set [OF ts, of f] that by (auto simp: bindE_Inr_iff)
    then have "writable (normal compare_keys (snd f))" if "f \<in> set fs" "snd f \<noteq> Omitted" for f
      using less.IH [OF small [OF that(1)]] that by blast
    then have "writable (normal compare_keys v)"
      unfolding PlainObj normal_fields by (auto simp: list_all_iff)
    moreover have "concat ts = map (\<lambda>f. quote_text (fst f) @ '':'' @ json_text (snd f))
        (map (\<lambda>f. (fst f, normal compare_keys (snd f))) (filter (\<lambda>f. snd f \<noteq> Omitted) (sort_fields compare_keys fs)))"
      by (rule field_texts [OF ts]) (use less.IH small in auto)
    ultimately show ?thesis using t unfolding PlainObj normal_fields text_of_def by simp
  qed (use less.prems in \<open>auto simp: text_of_def\<close>)
qed

lemma stringify_text:
  "json_stringify (canonical_value le v) = Inr t \<Longrightarrow> t = text_of (normal le) v \<and> (v \<noteq> Omitted \<longrightarrow> writable (normal le v))"
proof (induction v arbitrary: t rule: measure_induct_rule [of size])
  case (less v)
  have object: "t = text_of (normal le) v \<and> (v \<noteq> Omitted \<longrightarrow> writable (normal le v))"
    if fs: "object_fields v = Some fs" and c: "canonical_value le v = PlainObj (map (\<lambda>f. (fst f, canonical_value le (snd f)))
      (sort_fields le (filter (\<lambda>f. snd f \<noteq> Omitted) fs)))" for fs
  proof -
    let ?gs = "sort_fields le (filter (\<lambda>f. snd f \<noteq> Omitted) fs)"
    have n: "normal le v = PlainObj (map (\<lambda>f. (fst f, normal le (snd f))) ?gs)"
      by (simp add: normal_object [OF fs] sort_fields_map)
    obtain ts where ts: "mapE (\<lambda>f. bindE (json_stringify (canonical_value le (snd f))) (\<lambda>t. Inr (field_text (fst f) t))) ?gs = Inr ts"
      and t: "t = Some (''{'' @ join '','' (concat ts) @ ''}'')"
      using less.prems unfolding c by (auto simp: bindE_Inr_iff mapE_Inr_iff list_all2_map1)
    have small: "size (snd f) < size v" if "f \<in> set ?gs" for f
      using that field_size [of f fs] fs by (cases v) auto
    have "writable (normal le (snd f))" if f: "f \<in> set ?gs" for f
    proof -
      obtain u where "json_stringify (canonical_value le (snd f)) = Inr u"
        using mapE_Inr_set [OF ts f] by (auto simp: bindE_Inr_iff)
      then show ?thesis using less.IH [OF small [OF f]] f by auto
    qed
    then have "writable (normal le v)" unfolding n by (simp add: list_all_iff)
    moreover have "concat ts = map (\<lambda>f. quote_text (fst f) @ '':'' @ json_text (snd f))
        (map (\<lambda>f. (fst f, normal le (snd f))) (filter (\<lambda>f. snd f \<noteq> Omitted) ?gs))"
      by (rule field_texts [OF ts]) (use less.IH small in auto)
    moreover have "filter (\<lambda>f. snd f \<noteq> Omitted) ?gs = ?gs" by (rule filter_True) simp
    moreover have "v \<noteq> Omitted" using fs by auto
    ultimately show ?thesis using t unfolding n text_of_def by simp
  qed
  show ?case
  proof (cases v)
    case (ArrayVal xs)
    then obtain ts where ts: "mapE (\<lambda>x. json_stringify (canonical_value le x)) xs = Inr ts"
      and t: "t = Some (''['' @ join '','' (map (\<lambda>t. or_else t ''null'') ts) @ '']'')"
      using less.prems by (auto simp: bindE_Inr_iff mapE_Inr_iff list_all2_map1)
    have small: "size x < size v" if "x \<in> set xs" for x
      using that ArrayVal by (auto simp: less_Suc_eq_le intro: size_list_estimation')
    have "\<exists>u. json_stringify (canonical_value le x) = Inr u" if "x \<in> set xs" for x using mapE_Inr_set [OF ts that] by blast
    then have "writable (normal le (array_item x))" if "x \<in> set xs" for x
      using less.IH [OF small [OF that]] that by (cases x) fastforce+
    then have "writable (normal le v)" using ArrayVal by (auto simp: list_all_iff)
    moreover have "map (\<lambda>t. or_else t ''null'') ts = map json_text (map (\<lambda>x. normal le (array_item x)) xs)"
      by (rule item_texts [OF ts]) (use less.IH small in auto)
    ultimately show ?thesis using t ArrayVal by (simp add: text_of_def)
  next
    case (PlainObj fs)
    then show ?thesis using object by simp
  next
    case (ExoticObj fs)
    then show ?thesis using object by simp
  qed (use less.prems in \<open>auto simp: text_of_def\<close>)
qed

lemma key_order_enumeration:
  assumes "key_order le"
  shows "key_order (enumeration_order le)"
proof unfold_locales
  note le = key_order.le_total [OF assms] key_order.le_trans [OF assms] key_order.le_antisym [OF assms]
  have total: "numeral_le a b \<or> numeral_le b a" for a b by (auto simp: numeral_le_def)
  have trans: "numeral_le a b \<Longrightarrow> numeral_le b c \<Longrightarrow> numeral_le a c" for a b c
    by (auto simp: numeral_le_def)
  fix a b c
  show "enumeration_order le a b \<or> enumeration_order le b a"
    using le(1) [of a b] total [of a b] by (auto simp: enumeration_order_def)
  show "enumeration_order le a c" if "enumeration_order le a b" "enumeration_order le b c"
    using that le(2) [of a b c] trans [of a b c] by (auto simp: enumeration_order_def split: if_splits)
  show "a = b" if "enumeration_order le a b" "enumeration_order le b a"
    using that le(3) [of a b] by (auto simp: enumeration_order_def numeral_le_def split: if_splits)
qed

section \<open>Properties\<close>

lemma split_at_mark: "x \<notin> set xs \<Longrightarrow> x \<notin> set ys \<Longrightarrow> xs @ x # r = ys @ x # u \<Longrightarrow> xs = ys \<and> r = u"
proof (induction xs arbitrary: ys)
  case Nil
  then show ?case by (cases ys) auto
next
  case (Cons y xs)
  then show ?case by (cases ys) auto
qed

lemma component_no_newline: "component_pattern s \<Longrightarrow> CHR 0x0A \<notin> set s"
  unfolding component_pattern_def list_all_iff by (auto simp: is_lower_def is_digit_def char_between_def)

lemma text_of_inject:
  assumes "serialize_canonical_value v = Inr (Some s)" "serialize_canonical_value w = Inr (Some t)"
  shows "s = t \<longleftrightarrow> normal compare_keys v = normal compare_keys w"
  using serialize_text [OF assms(1)] serialize_text [OF assms(2)]
    json_text_inject [of "normal compare_keys v" "normal compare_keys w" "[]" "[]"]
  by (auto simp: text_of_def mark_def split: if_splits)

lemma preimage_Inr:
  assumes "fingerprint_preimage domain v version = Inr p"
  obtains t where "component_pattern domain" "component_pattern version" "serialize_canonical_value v = Inr (Some t)"
    "p = fingerprint_namespace @ CHR 0x0A # ''version='' @ version @ CHR 0x0A # ''domain='' @ domain
       @ CHR 0x0A # ''payload='' @ t"
  using assms
  by (auto simp: fingerprint_preimage_def canonical_command_serialization_def bindE_Inr_iff throw_if_Inr_iff
      option_to_result_Inr_iff)

text \<open>
  C35. Canonical texts identify commands.  The text whose hash is a command's fingerprint
  is the same for two commands exactly when version, domain and payload are the same,
  where a payload may list its fields in another order, leave omitted fields out and write
  an omitted array item as null; so commands that are the same have the same fingerprint
  whatever the hash function, and different ones only by a collision of it.  The canonical
  JSON of snapshots and tax decisions identifies them in the same way for every order of
  the field names.
\<close>

theorem canonical_texts_identify_payloads:
  assumes "fingerprint_preimage domain v version = Inr p" and "fingerprint_preimage domain' w version' = Inr q"
    and "key_order le" and "canonical_json le v = Inr s" and "canonical_json le w = Inr t"
    and "distinct_keys v" and "distinct_keys w"
  shows "(p = q \<longleftrightarrow> version = version' \<and> domain = domain' \<and> same_payload v w)
    \<and> (s = t \<longleftrightarrow> same_payload v w)
    \<and> (create_command_fingerprint hash domain v version = create_command_fingerprint hash domain' w version'
        \<longleftrightarrow> hash p = hash q)"
proof -
  from preimage_Inr [OF assms(1)] obtain x where x: "component_pattern domain" "component_pattern version"
    "serialize_canonical_value v = Inr (Some x)"
    "p = fingerprint_namespace @ CHR 0x0A # ''version='' @ version @ CHR 0x0A # ''domain='' @ domain
       @ CHR 0x0A # ''payload='' @ x" .
  from preimage_Inr [OF assms(2)] obtain y where y: "component_pattern domain'" "component_pattern version'"
    "serialize_canonical_value w = Inr (Some y)"
    "q = fingerprint_namespace @ CHR 0x0A # ''version='' @ version' @ CHR 0x0A # ''domain='' @ domain'
       @ CHR 0x0A # ''payload='' @ y" .
  have nl: "CHR 0x0A \<notin> set domain" "CHR 0x0A \<notin> set version" "CHR 0x0A \<notin> set domain'" "CHR 0x0A \<notin> set version'"
    using x y component_no_newline by blast+
  have "p = q \<longleftrightarrow> version = version' \<and> domain = domain' \<and> x = y"
  proof
    assume "p = q"
    then have e: "version @ CHR 0x0A # ''domain='' @ domain @ CHR 0x0A # ''payload='' @ x
        = version' @ CHR 0x0A # ''domain='' @ domain' @ CHR 0x0A # ''payload='' @ y"
      using x(4) y(4) by simp
    from split_at_mark [OF nl(2,4) e] have v: "version = version'"
      and d: "domain @ CHR 0x0A # ''payload='' @ x = domain' @ CHR 0x0A # ''payload='' @ y" by auto
    from split_at_mark [OF nl(1,3) d] v show "version = version' \<and> domain = domain' \<and> x = y" by auto
  qed (use x(4) y(4) in simp)
  moreover have "x = y \<longleftrightarrow> same_payload v w"
    using text_of_inject [OF x(3) y(3)] keys.same_payload_normal [OF assms(6,7)] by simp
  moreover have "s = t \<longleftrightarrow> same_payload v w"
  proof -
    have ne: "v \<noteq> Omitted" "w \<noteq> Omitted" using x(3) y(3) by auto
    let ?le = "enumeration_order le"
    have st: "s = Some (json_text (normal ?le v))" "writable (normal ?le v)"
      "t = Some (json_text (normal ?le w))" "writable (normal ?le w)"
      using stringify_text [of ?le v s] stringify_text [of ?le w t] assms(4,5) ne
      by (auto simp: canonical_json_def text_of_def)
    then have "s = t \<longleftrightarrow> normal ?le v = normal ?le w"
      using json_text_inject [of "normal ?le v" "normal ?le w" "[]" "[]"] by (auto simp: mark_def)
    then show ?thesis
      using key_order.same_payload_normal [OF key_order_enumeration [OF assms(3)] assms(6,7)] by simp
  qed
  moreover have "create_command_fingerprint hash domain v version = create_command_fingerprint hash domain' w version'
      \<longleftrightarrow> hash p = hash q"
    using assms(1,2) by (simp add: create_command_fingerprint_def)
  ultimately show ?thesis by blast
qed

definition example_payload :: js_value where
  "example_payload = PlainObj [(''ledgerId'', TextVal ''l''), (''amount'', TextVal ''10.50''), (''memo'', Omitted),
     (''lines'', ArrayVal [NumVal (- 3), Omitted, BoolVal True])]"

definition example_reordered :: js_value where
  "example_reordered = PlainObj [(''amount'', TextVal ''10.50''),
     (''lines'', ArrayVal [NumVal (- 3), NullVal, BoolVal True]), (''ledgerId'', TextVal ''l'')]"

definition example_preimage :: string where
  "example_preimage = (case fingerprint_preimage ''ledger.journal'' example_payload ''v1'' of Inl _ \<Rightarrow> [] | Inr p \<Rightarrow> p)"

lemma example_preimages:
  "fingerprint_preimage ''ledger.journal'' example_payload ''v1'' = Inr example_preimage"
  "fingerprint_preimage ''ledger.journal'' example_reordered ''v1'' = Inr example_preimage"
  "canonical_json compare_keys example_payload = canonical_json compare_keys example_reordered"
  "is_ok (canonical_json compare_keys example_payload)"
  by code_simp+

theorem canonical_texts_identify_payloads_witness:
  "same_payload example_payload example_reordered \<and> example_preimage \<noteq> []"
proof -
  obtain s where s: "canonical_json compare_keys example_payload = Inr s"
    using example_preimages(4) by (auto simp: is_ok_iff)
  have "distinct_keys example_payload" "distinct_keys example_reordered" "example_preimage \<noteq> []" by code_simp+
  then show ?thesis
    using canonical_texts_identify_payloads [OF example_preimages(1,2) keys.key_order_axioms s, of s "\<lambda>x. x"]
      example_preimages(3) s by simp
qed

end
