(* ===== verification/JournalWorkflow.thy ===== *)
theory JournalWorkflow
  imports PostingEngine CommandFingerprint
begin

text \<open>
  The maker-checker workflow of manual journals: \<open>ledger/journal-workflow-eligibility.ts\<close>
  (what the screens offer) and \<open>ledger/journal-workflow-service.ts\<close> (submit, approve,
  withdraw, reject), over the tables they read and write.  The updates run through the
  triggers of the repository's migrations, modelled with them: 0053
  \<open>guard_posted_journal_entry\<close>, 0004 \<open>validate_posting_approval\<close> and
  \<open>guard_journal_approval_insert\<close>, 0078 \<open>journal_workflow_recovery_replayed\<close>, 0086
  \<open>guard_independent_journal_decision\<close>, \<open>guard_journal_workflow_transition\<close> and
  \<open>mcp_agent_self_approval_allowed\<close>.  A submission, withdrawal or rejection writes an audit
  event through \<open>append_tenant_business_audit\<close> (0030), under the unique index of 0011 and the
  request check of 0032; an approval writes none.  Identifiers are the canonical lower-case texts the
  database stores, dates are day numbers, ledger amounts integers of \<open>10^-9\<close> units
  (\<open>numeric(38,9)\<close>).  The hash functions and the identifier formats of the schema library
  are parameters, gathered in a record.  A failing command is \<open>Inl\<close> and leaves the tables
  as they were (rollback).
\<close>

section \<open>Tables\<close>

text \<open>A journal line: the columns the workflow reads, the other hashed columns as one text.\<close>

record workflow_line =
  el_combination :: string
  el_debit :: int
  el_credit :: int
  el_party :: bool
  el_subledger_event :: bool
  el_tax_snapshot :: bool
  el_other :: string

record workflow_entry =
  en_id :: string
  en_organization :: string
  en_ledger :: string
  en_entity :: string
  en_period :: string
  en_owner_module :: string
  en_type_key :: string
  en_source_document :: "string option"
  en_purpose :: posting_purpose
  en_date :: int
  en_other :: string
  en_created_by :: "string option"
  en_lines :: "workflow_line list"
  en_status :: journal_status
  en_content_hash :: "string option"
  en_approval_version :: "int option"
  en_approved_by :: "string option"

datatype approval_decision = Approved | Rejected

record approval_row =
  ap_organization :: string
  ap_ledger :: string
  ap_journal :: string
  ap_version :: int
  ap_hash :: string
  ap_decision :: approval_decision
  ap_actor :: string
  ap_self_connection :: "string option"
  ap_reason :: string

datatype workflow_action = SubmitAction | ApproveAction | PostAction | RejectAction | WithdrawAction

text \<open>The workflow events among the \<open>audit_events\<close>.\<close>

record workflow_event =
  ev_organization :: string
  ev_journal :: string
  ev_action :: workflow_action
  ev_request :: string
  ev_actor :: string
  ev_hash :: string
  ev_version :: int
  ev_key :: "string option"
  ev_command_hash :: "string option"

record workflow_ledger =
  le_id :: string
  le_organization :: string
  le_active :: bool
  le_auto_post :: "bool option"

record workflow_combination =
  cb_id :: string
  cb_organization :: string
  cb_entity :: string
  cb_active :: bool
  cb_account_active :: bool
  cb_account_postable :: bool
  cb_valid_from :: int
  cb_valid_to :: "int option"

record mcp_connection =
  mc_id :: string
  mc_organization :: string
  mc_user :: string
  mc_revoked :: bool

record workflow_tables =
  wt_entries :: "workflow_entry list"
  wt_approvals :: "approval_row list"
  wt_events :: "workflow_event list"
  wt_ledgers :: "workflow_ledger list"
  wt_periods :: "period_row list"
  wt_combinations :: "workflow_combination list"
  wt_deleted :: "(string \<times> string) list"
  wt_related :: "(string \<times> string) list"
  wt_matched :: "(string \<times> string) list"
  wt_self_approval :: "(string \<times> bool) list"
  wt_connections :: "mcp_connection list"
  wt_access :: access_tables

text \<open>What the canonical content hash covers: the business columns and the lines.\<close>

definition content_of :: "workflow_entry \<Rightarrow> workflow_entry" where
  "content_of e = e\<lparr>en_status := JDraft, en_content_hash := None, en_approval_version := None,
     en_approved_by := None\<rparr>"

record workflow_platform =
  wp_hash :: "workflow_entry \<Rightarrow> string"
  wp_digest :: "string \<Rightarrow> string"
  wp_uuid :: "string \<Rightarrow> bool"
  wp_uuid4 :: "string \<Rightarrow> bool"

definition compute_journal_content_hash :: "workflow_platform \<Rightarrow> workflow_entry \<Rightarrow> string" where
  "compute_journal_content_hash P e = wp_hash P (content_of e)"

definition find_entry :: "workflow_tables \<Rightarrow> string \<Rightarrow> string \<Rightarrow> workflow_entry option" where
  "find_entry T org jid = List.find (\<lambda>e. en_organization e = org \<and> en_id e = jid) (wt_entries T)"

definition put_entry :: "workflow_entry \<Rightarrow> workflow_tables \<Rightarrow> workflow_tables" where
  "put_entry e T = T\<lparr>wt_entries := map (\<lambda>r. if en_organization r = en_organization e \<and> en_id r = en_id e
                                         then e else r) (wt_entries T)\<rparr>"

section \<open>Eligibility\<close>

datatype workflow_reason =
    MissingPermission | WritesDisabled | InvalidState | CreatorCannotApprove | CreatorRequired
  | WorkflowPeriodClosed | StaleVersionReason | PolicyRestriction | HasDependencies
  | InvalidContent | ApprovalRequired

record workflow_facts =
  wf_id :: string
  wf_status :: journal_status
  wf_content_hash :: "string option"
  wf_canonical_hash :: "string option"
  wf_approval_version :: "int option"
  wf_created_by :: "string option"
  wf_owner_module :: string
  wf_type_key :: string
  wf_auto_post :: bool
  wf_period_state :: period_state
  wf_purpose :: posting_purpose
  wf_ledger_active :: bool
  wf_has_dependencies :: bool
  wf_valid_lines :: bool
  wf_has_approval :: bool
  wf_deleted :: bool

record workflow_actor =
  wa_actor :: string
  wa_can_write :: bool
  wa_permissions :: "permission list"
  wa_self_approval :: bool

text \<open>An action is refused with its reason code or allowed (\<open>None\<close>).\<close>

record workflow_eligibility =
  eg_status :: journal_status
  eg_content_hash :: "string option"
  eg_approval_version :: "int option"
  eg_auto_post :: bool
  eg_actor_is_creator :: bool
  eg_independent_approval :: bool
  eg_actions :: "workflow_action \<Rightarrow> workflow_reason option"

fun action_permission :: "workflow_action \<Rightarrow> permission" where
  "action_permission SubmitAction = SubmitJournal"
| "action_permission ApproveAction = ApproveJournal"
| "action_permission PostAction = PostJournal"
| "action_permission RejectAction = ApproveJournal"
| "action_permission WithdrawAction = SubmitJournal"

definition action_state_ok :: "workflow_action \<Rightarrow> journal_status \<Rightarrow> bool" where
  "action_state_ok a s =
     (if a = SubmitAction then s = JDraft
      else if a = PostAction then s \<in> {JDraft, JSubmitted, JApproved}
      else s = JSubmitted)"

definition period_admits :: "period_state \<Rightarrow> posting_purpose \<Rightarrow> bool" where
  "period_admits state purpose \<longleftrightarrow>
     state \<in> {PeriodOpen, AdjustmentOnly}
     \<and> (state = AdjustmentOnly \<longrightarrow> purpose \<in> set adjustment_purposes)"

definition action_eligibility ::
  "workflow_facts \<Rightarrow> workflow_actor \<Rightarrow> workflow_action \<Rightarrow> workflow_reason option" where
  "action_eligibility j a act =
     (let frozen = wf_status j \<in> {JSubmitted, JApproved};
          creator = wf_created_by j = Some (wa_actor a)
      in
      if \<not> wa_can_write a then Some WritesDisabled
      else if action_permission act \<notin> set (wa_permissions a) then Some MissingPermission
      else if wf_owner_module j \<noteq> ''ledger'' \<or> wf_type_key j \<noteq> ''ledger.manual'' \<or> \<not> wf_ledger_active j
        then Some PolicyRestriction
      else if wf_deleted j \<or> \<not> action_state_ok act (wf_status j) then Some InvalidState
      else if \<not> period_admits (wf_period_state j) (wf_purpose j) then Some WorkflowPeriodClosed
      else if act = PostAction \<and> wf_period_state j = AdjustmentOnly
          \<and> PostAdjustment \<notin> set (wa_permissions a) then Some MissingPermission
      else if \<not> truthy (wf_canonical_hash j)
          \<or> (frozen \<and> (wf_approval_version j \<in> {None, Some 0}
                       \<or> wf_content_hash j \<noteq> wf_canonical_hash j)) then Some StaleVersionReason
      else if (act = RejectAction \<or> (act = ApproveAction \<and> \<not> wa_self_approval a)) \<and> creator
        then Some CreatorCannotApprove
      else if act = WithdrawAction \<and> \<not> creator then Some CreatorRequired
      else if act = WithdrawAction \<or> act = RejectAction
        then (if wf_has_dependencies j then Some HasDependencies else None)
      else if \<not> wf_valid_lines j then Some InvalidContent
      else if act = PostAction \<and> (wf_status j = JSubmitted \<or> (wf_status j = JApproved \<and> \<not> wf_has_approval j))
        then Some ApprovalRequired
      else None)"

definition evaluate_journal_workflow :: "workflow_facts \<Rightarrow> workflow_actor \<Rightarrow> workflow_eligibility" where
  "evaluate_journal_workflow j a =
     \<lparr>eg_status = wf_status j,
      eg_content_hash = (if wf_status j \<in> {JSubmitted, JApproved} then wf_content_hash j
                         else wf_canonical_hash j),
      eg_approval_version = wf_approval_version j, eg_auto_post = wf_auto_post j,
      eg_actor_is_creator = (wf_created_by j = Some (wa_actor a)),
      eg_independent_approval =
        (wf_status j = JSubmitted \<and> \<not> (wf_created_by j = Some (wa_actor a) \<and> wa_self_approval a)),
      eg_actions = action_eligibility j a\<rparr>"

section \<open>Reading the facts\<close>

definition find_ledger :: "workflow_tables \<Rightarrow> workflow_entry \<Rightarrow> workflow_ledger option" where
  "find_ledger T e =
     List.find (\<lambda>l. le_organization l = en_organization e \<and> le_id l = en_ledger e) (wt_ledgers T)"

definition find_workflow_period :: "workflow_tables \<Rightarrow> workflow_entry \<Rightarrow> period_row option" where
  "find_workflow_period T e =
     List.find (\<lambda>p. per_organization p = en_organization e \<and> per_id p = en_period e) (wt_periods T)"

definition has_dependencies :: "workflow_tables \<Rightarrow> workflow_entry \<Rightarrow> bool" where
  "has_dependencies T e \<longleftrightarrow>
     en_source_document e \<noteq> None
     \<or> (en_organization e, en_id e) \<in> set (wt_related T)
     \<or> list_ex (\<lambda>l. el_party l \<or> el_subledger_event l \<or> el_tax_snapshot l) (en_lines e)
     \<or> (en_organization e, en_id e) \<in> set (wt_matched T)"

text \<open>The lines joined with their account combinations.\<close>

definition joined_lines :: "workflow_tables \<Rightarrow> workflow_entry \<Rightarrow> (workflow_line \<times> workflow_combination) list" where
  "joined_lines T e =
     [(l, k). l \<leftarrow> en_lines e,
              k \<leftarrow> wt_combinations T, cb_organization k = en_organization e \<and> cb_id k = el_combination l]"

definition valid_lines :: "workflow_tables \<Rightarrow> workflow_entry \<Rightarrow> bool" where
  "valid_lines T e =
     (let js = joined_lines T e; debits = sum_list (map (el_debit \<circ> fst) js) in
      length js \<ge> 2 \<and> debits > 0 \<and> debits = sum_list (map (el_credit \<circ> fst) js)
      \<and> list_all (\<lambda>(l, k). cb_active k \<and> cb_account_active k \<and> cb_account_postable k
           \<and> cb_entity k = en_entity e \<and> cb_valid_from k \<le> en_date e
           \<and> (case cb_valid_to k of None \<Rightarrow> True | Some d \<Rightarrow> d \<ge> en_date e)) js)"

text \<open>An approval of exactly this version and hash, by someone else or by a permitted agent.\<close>

definition binds_approval :: "workflow_entry \<Rightarrow> approval_row \<Rightarrow> bool" where
  "binds_approval e a \<longleftrightarrow>
     ap_organization a = en_organization e \<and> ap_journal a = en_id e
     \<and> Some (ap_version a) = en_approval_version e \<and> Some (ap_hash a) = en_content_hash e
     \<and> ap_decision a = Approved
     \<and> (Some (ap_actor a) \<noteq> en_created_by e \<or> ap_self_connection a \<noteq> None)"

definition entry_facts ::
  "workflow_platform \<Rightarrow> workflow_tables \<Rightarrow> workflow_entry \<Rightarrow> workflow_facts option" where
  "entry_facts P T e =
     (case (find_ledger T e, find_workflow_period T e) of
        (Some l, Some p) \<Rightarrow>
          Some \<lparr>wf_id = en_id e, wf_status = en_status e, wf_content_hash = en_content_hash e,
            wf_canonical_hash = Some (compute_journal_content_hash P e),
            wf_approval_version = en_approval_version e, wf_created_by = en_created_by e,
            wf_owner_module = en_owner_module e, wf_type_key = en_type_key e,
            wf_auto_post = or_else (le_auto_post l) False, wf_period_state = per_state p,
            wf_purpose = en_purpose e, wf_ledger_active = le_active l,
            wf_has_dependencies = has_dependencies T e, wf_valid_lines = valid_lines T e,
            wf_has_approval = list_ex (binds_approval e) (wt_approvals T),
            wf_deleted = ((en_organization e, en_id e) \<in> set (wt_deleted T))\<rparr>
      | _ \<Rightarrow> None)"

definition read_journal_workflow_facts ::
  "workflow_platform \<Rightarrow> workflow_tables \<Rightarrow> string \<Rightarrow> string list \<Rightarrow> workflow_facts list" where
  "read_journal_workflow_facts P T org ids =
     List.map_filter (entry_facts P T)
       (filter (\<lambda>e. en_organization e = org \<and> en_id e \<in> set ids) (wt_entries T))"

text \<open>\<open>getJournalWorkflowEligibility\<close>: what the screens show, by journal.\<close>

definition get_journal_workflow_eligibility ::
  "workflow_platform \<Rightarrow> environment \<Rightarrow> workflow_tables \<Rightarrow> session_principal \<Rightarrow> string list
     \<Rightarrow> (string \<times> workflow_eligibility) list" where
  "get_journal_workflow_eligibility P env T p ids =
     (if ids = [] then []
      else
        let rows = read_journal_workflow_facts P T (pr_organization p) ids;
            actor = \<lparr>wa_actor = pr_user p, wa_can_write = principal_can_write env p,
                     wa_permissions = filter (actor_has_active_permission (wt_access T)
                        (pr_organization p) (pr_user p)) all_permissions,
                     wa_self_approval = False\<rparr>
        in map (\<lambda>r. (wf_id r, evaluate_journal_workflow r actor)) rows)"

section \<open>Triggers\<close>

datatype workflow_rejection =
    EntryImmutable | ContentChanged | InvalidStatusChange | StatusPermission | ApprovalMissing
  | PeriodIneligible | FrozenContentChanged | IndependentApprover | ApprovedIsFinal
  | RecoveryContext | RecoveryMismatch | RecoveryDependencies | RecoveryActor | RecoveryDecision
  | RecoveryKeyUsed | DecisionDuplicate | AuditDuplicate | RequestNotBounded

datatype workflow_error =
    WorkflowAccess access_error
  | WorkflowRefused workflow_reason
  | MalformedWorkflowCommand
  | WorkflowReasonNotBound
  | WorkflowRejected workflow_rejection

abbreviation reject_if :: "bool \<Rightarrow> workflow_rejection \<Rightarrow> workflow_error + unit" where
  "reject_if b r \<equiv> throw_if b (WorkflowRejected r)"

text \<open>
  Self-approval by agents: the policy of the organization, an unrevoked connection of
  the actor, and an active organization that is no demo.
\<close>

definition mcp_agent_self_approval_allowed :: "workflow_tables \<Rightarrow> tenant_context \<Rightarrow> bool" where
  "mcp_agent_self_approval_allowed T c \<longleftrightarrow>
     ctx_surface c = SurfaceMCP \<and> ctx_session_mode c = Some RealSession
     \<and> list_ex (\<lambda>(org, enabled). org = ctx_organization c \<and> enabled) (wt_self_approval T)
     \<and> list_ex (\<lambda>m. mc_organization m = ctx_organization c \<and> Some (mc_id m) = ctx_session c
          \<and> mc_user m = ctx_actor c \<and> \<not> mc_revoked m) (wt_connections T)
     \<and> list_ex (\<lambda>g. org_id g = ctx_organization c \<and> org_active g \<and> \<not> org_is_demo g)
          (organizations (wt_access T))"

definition current_actor_has_permission :: "workflow_tables \<Rightarrow> tenant_context \<Rightarrow> permission \<Rightarrow> bool" where
  "current_actor_has_permission T c =
     actor_has_active_permission (wt_access T) (ctx_organization c) (ctx_actor c)"

definition is_approval_of :: "workflow_entry \<Rightarrow> int option \<Rightarrow> string option \<Rightarrow> approval_row \<Rightarrow> bool" where
  "is_approval_of e v h a \<longleftrightarrow>
     ap_organization a = en_organization e \<and> ap_ledger a = en_ledger e \<and> ap_journal a = en_id e
     \<and> Some (ap_version a) = v \<and> Some (ap_hash a) = h \<and> ap_decision a = Approved"

text \<open>
  \<open>guard_posted_journal_entry\<close> on an update of the status.  Its branch for the owner-run
  \<open>UNPOST\<close> command is the step \<open>unposted\<close> of the histories below.
\<close>

definition guard_posted_journal_entry ::
  "workflow_platform \<Rightarrow> workflow_tables \<Rightarrow> tenant_context \<Rightarrow> workflow_entry \<Rightarrow> workflow_entry
     \<Rightarrow> workflow_error + workflow_entry" where
  "guard_posted_journal_entry P T c old new =
     bindE (reject_if ((en_organization old, en_id old) \<in> set (wt_deleted T)) EntryImmutable) (\<lambda>_.
     bindE (reject_if (en_status old \<in> {JPosted, JReversed} \<or> en_status new = JReversed)
       EntryImmutable) (\<lambda>_.
     bindE (reject_if (en_status new \<in> {JSubmitted, JApproved, JPosted}
         \<and> content_of new \<noteq> content_of old) ContentChanged) (\<lambda>_.
     bindE (reject_if ((en_status old = JSubmitted \<and> en_status new \<notin> {JDraft, JApproved, JPosted})
         \<or> (en_status old = JApproved \<and> en_status new \<notin> {JDraft, JPosted})
         \<or> (en_status old = JDraft \<and> en_status new \<notin> {JDraft, JSubmitted, JPosted}))
       InvalidStatusChange) (\<lambda>_.
     bindE (reject_if ((en_status old = JSubmitted \<and> en_status new = JApproved
           \<and> \<not> current_actor_has_permission T c ApproveJournal)
         \<or> (en_status old = JDraft \<and> en_status new = JSubmitted
           \<and> \<not> current_actor_has_permission T c SubmitJournal)) StatusPermission) (\<lambda>_.
     let new1 = (if en_status old = JDraft \<and> en_status new = JSubmitted
           then new\<lparr>en_content_hash := Some (compute_journal_content_hash P old),
                    en_approval_version := Some (fold max (map ap_version (filter (\<lambda>a.
                       ap_organization a = en_organization old \<and> ap_ledger a = en_ledger old
                       \<and> ap_journal a = en_id old) (wt_approvals T))) 0 + 1)\<rparr>
           else new)
     in bindE (reject_if (en_status old = JSubmitted \<and> en_status new1 = JApproved
           \<and> \<not> list_ex (is_approval_of old (en_approval_version new1) (en_content_hash old))
                 (wt_approvals T)) ApprovalMissing) (\<lambda>_.
     Inr (if en_status new1 = JDraft \<and> en_status old \<in> {JSubmitted, JApproved}
          then new1\<lparr>en_content_hash := None, en_approval_version := None, en_approved_by := None\<rparr>
          else new1)))))))"

definition validate_posting_approval ::
  "workflow_tables \<Rightarrow> workflow_entry \<Rightarrow> workflow_entry \<Rightarrow> workflow_error + unit" where
  "validate_posting_approval T old new =
     (if en_status new \<noteq> JPosted \<or> en_status old = JPosted then Inr ()
      else bindE (reject_if (en_status old = JApproved \<and> en_approval_version new = None) ApprovalMissing) (\<lambda>_.
           reject_if (en_approval_version new \<noteq> None
             \<and> \<not> list_ex (is_approval_of new (en_approval_version new) (en_content_hash new))
                   (wt_approvals T)) ApprovalMissing))"

text \<open>The command the recovery leaves in the session for the trigger.\<close>

record recovery_setting =
  rs_action :: workflow_action
  rs_hash :: string
  rs_version :: int
  rs_key :: string
  rs_command_hash :: string

definition lower_hex :: "char \<Rightarrow> bool" where
  "lower_hex c \<longleftrightarrow> is_digit c \<or> char_between (CHR ''a'') (CHR ''f'') c"

definition digest_pattern :: "string \<Rightarrow> bool" where
  "digest_pattern s \<longleftrightarrow> length s = 64 \<and> list_all lower_hex s"

text \<open>\<open>^[0-9a-f]{8}-[0-9a-f]{4}-[v][0-9a-f]{3}-[89ab][0-9a-f]{3}-[0-9a-f]{12}$\<close>\<close>

definition uuid_pattern :: "string \<Rightarrow> string \<Rightarrow> bool" where
  "uuid_pattern versions s \<longleftrightarrow> length s = 36
     \<and> list_all (\<lambda>(i, c).
          if i \<in> {8, 13, 18, 23} then c = CHR ''-''
          else if i = 14 then c \<in> set versions
          else if i = 19 then c \<in> set ''89ab''
          else lower_hex c) (enumerate (0::nat) s)"

definition is_control :: "char \<Rightarrow> bool" where
  "is_control c \<longleftrightarrow> (of_char c :: nat) < 32 \<or> (of_char c :: nat) = 127"

definition recovery_receipt :: "workflow_tables \<Rightarrow> string \<Rightarrow> string \<Rightarrow> workflow_event option" where
  "recovery_receipt T org key =
     List.find (\<lambda>v. ev_organization v = org \<and> ev_action v \<in> {WithdrawAction, RejectAction}
                    \<and> ev_key v = Some key) (wt_events T)"

definition append_event :: "workflow_event \<Rightarrow> workflow_tables \<Rightarrow> workflow_tables" where
  "append_event v T = T\<lparr>wt_events := wt_events T @ [v]\<rparr>"

text \<open>
  \<open>append_tenant_business_audit\<close>, called with the actor and request of the session: the
  audit events are unique by organization, request, action and entity, and the outbox
  event written beside it takes only request identifiers without line breaks.
\<close>

definition one_line :: "string \<Rightarrow> bool" where
  "one_line s \<longleftrightarrow> list_all (\<lambda>x. (of_char x :: nat) \<noteq> 10 \<and> (of_char x :: nat) \<noteq> 13) s"

definition audited :: "workflow_tables \<Rightarrow> string \<Rightarrow> string \<Rightarrow> workflow_action \<Rightarrow> string \<Rightarrow> bool" where
  "audited T org request act jid \<longleftrightarrow>
     list_ex (\<lambda>v. ev_organization v = org \<and> ev_request v = request \<and> ev_action v = act \<and> ev_journal v = jid)
       (wt_events T)"

definition append_tenant_business_audit ::
  "workflow_event \<Rightarrow> workflow_tables \<Rightarrow> workflow_error + workflow_tables" where
  "append_tenant_business_audit v T =
     bindE (reject_if (audited T (ev_organization v) (ev_request v) (ev_action v) (ev_journal v))
       AuditDuplicate) (\<lambda>_.
     bindE (reject_if (\<not> one_line (ev_request v)) RequestNotBounded) (\<lambda>_.
     Inr (append_event v T)))"

text \<open>The period check at the head of \<open>guard_journal_workflow_transition\<close>.\<close>

definition transition_period_check ::
  "workflow_tables \<Rightarrow> workflow_entry \<Rightarrow> workflow_entry \<Rightarrow> workflow_error + unit" where
  "transition_period_check T old new =
     (if (en_status old = JDraft \<and> en_status new = JSubmitted)
         \<or> (en_status old = JSubmitted \<and> en_status new \<in> {JApproved, JDraft})
      then (case find_workflow_period T old of
              None \<Rightarrow> Inl (WorkflowRejected PeriodIneligible)
            | Some p \<Rightarrow> reject_if (per_state p \<in> {HardClosed, Sealed}
                \<or> (per_state p = AdjustmentOnly \<and> en_purpose old \<notin> set adjustment_purposes))
                PeriodIneligible)
      else Inr ())"

definition frozen_transition_check ::
  "workflow_platform \<Rightarrow> workflow_tables \<Rightarrow> tenant_context \<Rightarrow> workflow_entry \<Rightarrow> workflow_entry
     \<Rightarrow> workflow_error + unit" where
  "frozen_transition_check P T c old new =
     (if en_status old \<in> {JSubmitted, JApproved} \<and> en_status new \<in> {JApproved, JPosted}
      then
        bindE (reject_if (en_approval_version new \<noteq> en_approval_version old
            \<or> en_approval_version old = None \<or> en_content_hash new \<noteq> en_content_hash old
            \<or> en_content_hash old \<noteq> Some (compute_journal_content_hash P old)) FrozenContentChanged) (\<lambda>_.
        bindE (reject_if (en_status new = JApproved
            \<and> (en_approved_by new \<noteq> Some (ctx_actor c)
               \<or> (en_created_by old = Some (ctx_actor c) \<and> \<not> mcp_agent_self_approval_allowed T c)))
          IndependentApprover) (\<lambda>_.
        reject_if (\<not> list_ex (\<lambda>a. binds_approval old a
            \<and> (en_status new = JPosted \<or> Some (ap_actor a) = en_approved_by new)) (wt_approvals T))
          ApprovalMissing))
      else Inr ())"

text \<open>The submission: the version exceeds every version an event has used.\<close>

definition submission_version :: "workflow_tables \<Rightarrow> workflow_entry \<Rightarrow> workflow_entry \<Rightarrow> int" where
  "submission_version T old new =
     max (or_else (en_approval_version new) 0)
       (fold max (map ev_version (filter (\<lambda>v. ev_organization v = en_organization old
          \<and> ev_journal v = en_id old) (wt_events T))) 0 + 1)"

text \<open>The recovery: \<open>s\<close> is the command in the session, if any.\<close>

definition recovery_check ::
  "workflow_platform \<Rightarrow> workflow_tables \<Rightarrow> tenant_context \<Rightarrow> recovery_setting option
     \<Rightarrow> workflow_entry \<Rightarrow> workflow_entry \<Rightarrow> workflow_error + recovery_setting" where
  "recovery_check P T c s old new =
     bindE (option_to_result (WorkflowRejected RecoveryContext) s) (\<lambda>r.
     bindE (reject_if (rs_action r \<notin> {WithdrawAction, RejectAction}
         \<or> \<not> truthy (ctx_reason c)
         \<or> \<not> (5 \<le> length (trim (or_else (ctx_reason c) [])) \<and> length (trim (or_else (ctx_reason c) [])) \<le> 500)
         \<or> list_ex is_control (or_else (ctx_reason c) [])
         \<or> \<not> uuid_pattern ''12345'' (rs_key r) \<or> \<not> digest_pattern (rs_command_hash r)
         \<or> ctx_request c = []) RecoveryContext) (\<lambda>_.
     bindE (reject_if (Some (rs_hash r) \<noteq> en_content_hash old \<or> Some (rs_version r) \<noteq> en_approval_version old
         \<or> en_content_hash old \<noteq> Some (compute_journal_content_hash P old)) RecoveryMismatch) (\<lambda>_.
     bindE (reject_if (content_of new \<noteq> content_of old) ContentChanged) (\<lambda>_.
     bindE (reject_if (en_type_key old \<noteq> ''ledger.manual'' \<or> en_owner_module old \<noteq> ''ledger''
         \<or> has_dependencies T old) RecoveryDependencies) (\<lambda>_.
     bindE (if rs_action r = WithdrawAction
            then reject_if (en_created_by old \<noteq> Some (ctx_actor c)
                   \<or> \<not> current_actor_has_permission T c SubmitJournal) RecoveryActor
            else bindE (reject_if (en_created_by old = Some (ctx_actor c)
                   \<or> \<not> current_actor_has_permission T c ApproveJournal) RecoveryActor) (\<lambda>_.
                 reject_if (\<not> list_ex (\<lambda>a. ap_organization a = en_organization old
                     \<and> ap_journal a = en_id old \<and> Some (ap_version a) = en_approval_version old
                     \<and> Some (ap_hash a) = en_content_hash old \<and> ap_decision a = Rejected
                     \<and> ap_actor a = ctx_actor c) (wt_approvals T)) RecoveryDecision)) (\<lambda>_.
     bindE (reject_if (recovery_receipt T (en_organization old) (rs_key r) \<noteq> None) RecoveryKeyUsed) (\<lambda>_.
     Inr r)))))))"

text \<open>\<open>guard_journal_workflow_transition\<close>: the row to store and the event it records.\<close>

definition guard_journal_workflow_transition ::
  "workflow_platform \<Rightarrow> workflow_tables \<Rightarrow> tenant_context \<Rightarrow> recovery_setting option
     \<Rightarrow> workflow_entry \<Rightarrow> workflow_entry \<Rightarrow> workflow_error + workflow_entry \<times> workflow_event option" where
  "guard_journal_workflow_transition P T c s old new =
     bindE (transition_period_check T old new) (\<lambda>_.
     bindE (frozen_transition_check P T c old new) (\<lambda>_.
     if en_status old = JDraft \<and> en_status new = JSubmitted then
       let v = submission_version T old new
       in Inr (new\<lparr>en_approval_version := Some v\<rparr>,
            Some \<lparr>ev_organization = en_organization old, ev_journal = en_id old, ev_action = SubmitAction,
              ev_request = ctx_request c, ev_actor = ctx_actor c, ev_hash = or_else (en_content_hash new) [], ev_version = v,
              ev_key = None, ev_command_hash = None\<rparr>)
     else if en_status old = JApproved \<and> en_status new = JDraft then Inl (WorkflowRejected ApprovedIsFinal)
     else if en_status old \<noteq> JSubmitted \<or> en_status new \<noteq> JDraft then Inr (new, None)
     else
       bindE (recovery_check P T c s old new) (\<lambda>r.
       Inr (new, Some \<lparr>ev_organization = en_organization old, ev_journal = en_id old,
              ev_action = rs_action r, ev_request = ctx_request c, ev_actor = ctx_actor c, ev_hash = or_else (en_content_hash old) [],
              ev_version = or_else (en_approval_version old) 0, ev_key = Some (rs_key r),
              ev_command_hash = Some (rs_command_hash r)\<rparr>))))"

text \<open>\<open>UPDATE journal_entries SET status ...\<close> of one row, through its triggers.\<close>

definition update_journal_status ::
  "workflow_platform \<Rightarrow> tenant_context \<Rightarrow> recovery_setting option \<Rightarrow> workflow_entry \<Rightarrow> workflow_entry
     \<Rightarrow> workflow_tables \<Rightarrow> workflow_error + workflow_entry \<times> workflow_tables" where
  "update_journal_status P c s old new T =
     bindE (guard_posted_journal_entry P T c old new) (\<lambda>new1.
     bindE (validate_posting_approval T old new1) (\<lambda>_.
     bindE (guard_journal_workflow_transition P T c s old new1) (\<lambda>(row, event).
     let T1 = put_entry row T
     in bindE (case event of None \<Rightarrow> Inr T1 | Some v \<Rightarrow> append_tenant_business_audit v T1) (\<lambda>T2.
        Inr (row, T2)))))"

text \<open>
  \<open>INSERT INTO journal_approvals\<close> with its triggers; a row of the same journal, version
  and actor is a conflict, which an approval ignores and a rejection reports.
\<close>

definition insert_decision ::
  "workflow_platform \<Rightarrow> tenant_context \<Rightarrow> bool \<Rightarrow> approval_row \<Rightarrow> workflow_tables
     \<Rightarrow> workflow_error + workflow_tables" where
  "insert_decision P c ignore_conflict a T =
     bindE (reject_if (ap_actor a \<noteq> ctx_actor c \<or> \<not> current_actor_has_permission T c ApproveJournal)
       StatusPermission) (\<lambda>_.
     case List.find (\<lambda>e. en_organization e = ap_organization a \<and> en_ledger e = ap_ledger a
            \<and> en_id e = ap_journal a) (wt_entries T) of
       None \<Rightarrow> Inl (WorkflowRejected InvalidStatusChange)
     | Some e \<Rightarrow>
         bindE (reject_if (en_status e \<noteq> JSubmitted) InvalidStatusChange) (\<lambda>_.
         bindE (reject_if (ap_version a < 1 \<or> Some (ap_version a) \<noteq> en_approval_version e
             \<or> ap_hash a \<noteq> compute_journal_content_hash P e
             \<or> en_content_hash e \<noteq> Some (compute_journal_content_hash P e)) FrozenContentChanged) (\<lambda>_.
         let own = en_created_by e = Some (ap_actor a)
         in bindE (reject_if (own \<and> (ap_decision a \<noteq> Approved \<or> \<not> mcp_agent_self_approval_allowed T c))
              IndependentApprover) (\<lambda>_.
            let a1 = a\<lparr>ap_self_connection := (if own then ctx_session c else None)\<rparr>
            in if list_ex (\<lambda>b. ap_journal b = ap_journal a \<and> ap_version b = ap_version a
                   \<and> ap_actor b = ap_actor a) (wt_approvals T)
               then (if ignore_conflict then Inr T else Inl (WorkflowRejected DecisionDuplicate))
               else Inr (T\<lparr>wt_approvals := wt_approvals T @ [a1]\<rparr>)))))"

section \<open>Commands\<close>

record submit_command =
  sc_journal :: string
  sc_expected_hash :: "string option"

record approve_command =
  ac_journal :: string
  ac_expected_hash :: string
  ac_expected_version :: int
  ac_reason :: string

record recover_command = approve_command +
  rc_key :: string

record workflow_result =
  wr_journal :: string
  wr_status :: journal_status
  wr_content_hash :: "string option"
  wr_approval_version :: "int option"
  wr_replay :: bool

definition parse_submit :: "workflow_platform \<Rightarrow> submit_command \<Rightarrow> workflow_error + submit_command" where
  "parse_submit P cmd =
     bindE (throw_if (\<not> wp_uuid P (sc_journal cmd)
         \<or> (case sc_expected_hash cmd of None \<Rightarrow> False | Some h \<Rightarrow> \<not> content_hash_pattern h))
       MalformedWorkflowCommand) (\<lambda>_. Inr cmd)"

definition parse_approve ::
  "workflow_platform \<Rightarrow> 'a approve_command_scheme \<Rightarrow> workflow_error + 'a approve_command_scheme" where
  "parse_approve P cmd =
     (case trimmed_text 5 500 (ac_reason cmd) of
        None \<Rightarrow> Inl MalformedWorkflowCommand
      | Some r \<Rightarrow>
          bindE (throw_if (\<not> wp_uuid P (ac_journal cmd) \<or> \<not> content_hash_pattern (ac_expected_hash cmd)
              \<or> ac_expected_version cmd \<le> 0) MalformedWorkflowCommand) (\<lambda>_.
          Inr (cmd\<lparr>ac_reason := r\<rparr>)))"

definition parse_recover :: "workflow_platform \<Rightarrow> recover_command \<Rightarrow> workflow_error + recover_command" where
  "parse_recover P cmd =
     bindE (parse_approve P cmd) (\<lambda>c.
     bindE (throw_if (\<not> wp_uuid4 P (rc_key c)) MalformedWorkflowCommand) (\<lambda>_.
     Inr (c\<lparr>ac_journal := to_lower (ac_journal c), rc_key := to_lower (rc_key c)\<rparr>)))"

text \<open>\<open>assertWorkflowPermission\<close>: a missing permission becomes its reason code.\<close>

definition assert_workflow_permission ::
  "workflow_tables \<Rightarrow> tenant_context \<Rightarrow> permission \<Rightarrow> workflow_error + unit" where
  "assert_workflow_permission T c p =
     (case assert_actor_has_active_permission (wt_access T) (ctx_organization c) (ctx_actor c) p of
        Inl _ \<Rightarrow> Inl (WorkflowRefused MissingPermission)
      | Inr u \<Rightarrow> Inr u)"

definition refuse_if :: "bool \<Rightarrow> workflow_reason \<Rightarrow> workflow_error + unit" where
  "refuse_if b r = throw_if b (WorkflowRefused r)"

text \<open>
  \<open>c0\<close> is the context the caller passed, \<open>c\<close> the validated context of the database
  session.
\<close>

definition assert_workflow_action ::
  "workflow_platform \<Rightarrow> workflow_tables \<Rightarrow> tenant_context \<Rightarrow> tenant_context \<Rightarrow> string \<Rightarrow> workflow_action
     \<Rightarrow> workflow_error + unit" where
  "assert_workflow_action P T c0 c jid act =
     (case read_journal_workflow_facts P T (ctx_organization c0) [jid] of
        [] \<Rightarrow> Inl (WorkflowRefused InvalidState)
      | j # _ \<Rightarrow>
          let self_approval = act = ApproveAction \<and> wf_created_by j = Some (ctx_actor c0)
                \<and> ctx_surface c0 = SurfaceMCP \<and> mcp_agent_self_approval_allowed T c
          in case eg_actions (evaluate_journal_workflow j
                \<lparr>wa_actor = ctx_actor c0, wa_can_write = True,
                 wa_permissions = [if act \<in> {ApproveAction, RejectAction} then ApproveJournal
                                   else SubmitJournal],
                 wa_self_approval = self_approval\<rparr>) act of
               None \<Rightarrow> Inr ()
             | Some r \<Rightarrow> Inl (WorkflowRefused r))"

definition fresh_result :: "workflow_entry \<Rightarrow> workflow_result" where
  "fresh_result e = \<lparr>wr_journal = en_id e, wr_status = en_status e, wr_content_hash = en_content_hash e,
     wr_approval_version = en_approval_version e, wr_replay = False\<rparr>"

definition replay_result :: "workflow_entry \<Rightarrow> workflow_result" where
  "replay_result e = (fresh_result e)\<lparr>wr_replay := True\<rparr>"

text \<open>\<open>lower(content_hash) = lower(expected)\<close> of the services.\<close>

definition same_hash :: "string option \<Rightarrow> string \<Rightarrow> bool" where
  "same_hash stored expected \<longleftrightarrow> map_option to_lower stored = Some (to_lower expected)"

text \<open>The beginning all commands share.\<close>

definition begin_workflow ::
  "environment \<Rightarrow> transaction_gate \<Rightarrow> tenant_context \<Rightarrow> workflow_tables \<Rightarrow> permission
     \<Rightarrow> workflow_error + tenant_context" where
  "begin_workflow env gate c0 T p =
     bindE (map_errorE WorkflowAccess (begin_tenant_transaction gate c0)) (\<lambda>c.
     bindE (map_errorE WorkflowAccess (assert_writable_organization env (wt_access T) c0)) (\<lambda>_.
     bindE (assert_workflow_permission T c0 p) (\<lambda>_. Inr c)))"

definition submit_entry ::
  "workflow_platform \<Rightarrow> tenant_context \<Rightarrow> tenant_context \<Rightarrow> submit_command \<Rightarrow> workflow_entry
     \<Rightarrow> workflow_tables \<Rightarrow> workflow_error + workflow_result \<times> workflow_tables" where
  "submit_entry P c0 c cmd e T =
     (let stale = (\<lambda>h. truthy (sc_expected_hash cmd) \<and> \<not> same_hash h (or_else (sc_expected_hash cmd) []))
      in
      bindE (refuse_if (en_owner_module e \<noteq> ''ledger'' \<or> en_type_key e \<noteq> ''ledger.manual'')
        PolicyRestriction) (\<lambda>_.
      if en_status e = JSubmitted then
        bindE (refuse_if (\<not> truthy (en_content_hash e) \<or> en_approval_version e \<in> {None, Some 0}
            \<or> stale (en_content_hash e)) StaleVersionReason) (\<lambda>_. Inr (replay_result e, T))
      else
        bindE (refuse_if (en_status e \<noteq> JDraft) InvalidState) (\<lambda>_.
        bindE (assert_workflow_action P T c0 c (en_id e) SubmitAction) (\<lambda>_.
        bindE (refuse_if (stale (Some (compute_journal_content_hash P e))) StaleVersionReason) (\<lambda>_.
        bindE (update_journal_status P c None e (e\<lparr>en_status := JSubmitted\<rparr>) T) (\<lambda>(row, T1).
        Inr (fresh_result row, T1)))))))"

definition submit_journal_for_approval ::
  "workflow_platform \<Rightarrow> environment \<Rightarrow> transaction_gate \<Rightarrow> tenant_context \<Rightarrow> submit_command
     \<Rightarrow> workflow_tables \<Rightarrow> workflow_error + workflow_result \<times> workflow_tables" where
  "submit_journal_for_approval P env gate c0 cmd0 T =
     bindE (map_errorE WorkflowAccess (assert_tenant_writes_enabled env c0)) (\<lambda>_.
     bindE (parse_submit P cmd0) (\<lambda>cmd.
     bindE (begin_workflow env gate c0 T SubmitJournal) (\<lambda>c.
     case find_entry T (ctx_organization c0) (to_lower (sc_journal cmd)) of
       None \<Rightarrow> Inl (WorkflowRefused PolicyRestriction)
     | Some e \<Rightarrow> submit_entry P c0 c cmd e T)))"

text \<open>The row the services insert into \<open>journal_approvals\<close>.\<close>

definition decision_row ::
  "tenant_context \<Rightarrow> workflow_entry \<Rightarrow> int \<Rightarrow> approval_decision \<Rightarrow> string \<Rightarrow> approval_row" where
  "decision_row c0 e version decision reason =
     \<lparr>ap_organization = ctx_organization c0, ap_ledger = en_ledger e, ap_journal = en_id e,
      ap_version = version, ap_hash = or_else (en_content_hash e) [], ap_decision = decision,
      ap_actor = ctx_actor c0, ap_self_connection = None, ap_reason = reason\<rparr>"

definition approve_entry ::
  "workflow_platform \<Rightarrow> tenant_context \<Rightarrow> tenant_context \<Rightarrow> approve_command \<Rightarrow> workflow_entry
     \<Rightarrow> workflow_tables \<Rightarrow> workflow_error + workflow_result \<times> workflow_tables" where
  "approve_entry P c0 c cmd e T =
     (let stale = \<not> same_hash (en_content_hash e) (ac_expected_hash cmd)
                  \<or> en_approval_version e \<noteq> Some (ac_expected_version cmd)
      in
      if en_status e = JApproved then
        bindE (refuse_if stale StaleVersionReason) (\<lambda>_. Inr (replay_result e, T))
      else
        bindE (refuse_if (en_status e \<noteq> JSubmitted \<or> \<not> truthy (en_content_hash e)
            \<or> en_approval_version e \<in> {None, Some 0}) InvalidState) (\<lambda>_.
        bindE (refuse_if (en_created_by e = Some (ctx_actor c0)
            \<and> \<not> mcp_agent_self_approval_allowed T c) CreatorCannotApprove) (\<lambda>_.
        bindE (refuse_if stale StaleVersionReason) (\<lambda>_.
        bindE (assert_workflow_action P T c0 c (en_id e) ApproveAction) (\<lambda>_.
        bindE (insert_decision P c True
            (decision_row c0 e (or_else (en_approval_version e) 0) Approved (ac_reason cmd)) T) (\<lambda>T1.
        bindE (update_journal_status P c None e
            (e\<lparr>en_status := JApproved, en_approved_by := Some (ctx_actor c0)\<rparr>) T1) (\<lambda>(row, T2).
        Inr (fresh_result row, T2))))))))"

definition approve_submitted_journal ::
  "workflow_platform \<Rightarrow> environment \<Rightarrow> transaction_gate \<Rightarrow> tenant_context \<Rightarrow> approve_command
     \<Rightarrow> workflow_tables \<Rightarrow> workflow_error + workflow_result \<times> workflow_tables" where
  "approve_submitted_journal P env gate c0 cmd0 T =
     bindE (map_errorE WorkflowAccess (assert_tenant_writes_enabled env c0)) (\<lambda>_.
     bindE (parse_approve P cmd0) (\<lambda>cmd.
     bindE (throw_if (ctx_reason c0 \<noteq> Some (ac_reason cmd)) WorkflowReasonNotBound) (\<lambda>_.
     bindE (begin_workflow env gate c0 T ApproveJournal) (\<lambda>c.
     case find_entry T (ctx_organization c0) (to_lower (ac_journal cmd)) of
       None \<Rightarrow> Inl (WorkflowRefused InvalidState)
     | Some e \<Rightarrow> approve_entry P c0 c cmd e T))))"

text \<open>\<open>JSON.stringify\<close> of what a recovery command stands for, hashed.\<close>

fun action_text :: "workflow_action \<Rightarrow> string" where
  "action_text SubmitAction = ''submit''"
| "action_text ApproveAction = ''approve''"
| "action_text PostAction = ''post''"
| "action_text RejectAction = ''reject''"
| "action_text WithdrawAction = ''withdraw''"

definition recovery_command_hash ::
  "workflow_platform \<Rightarrow> workflow_action \<Rightarrow> string \<Rightarrow> recover_command \<Rightarrow> string" where
  "recovery_command_hash P act actor cmd =
     wp_digest P (case json_stringify (PlainObj
        [(''action'', TextVal (action_text act)), (''actorId'', TextVal actor),
         (''journalId'', TextVal (ac_journal cmd)),
         (''contentHash'', TextVal (to_lower (ac_expected_hash cmd))),
         (''approvalVersion'', NumVal (ac_expected_version cmd)),
         (''reason'', TextVal (ac_reason cmd))]) of Inr (Some t) \<Rightarrow> t | _ \<Rightarrow> [])"

text \<open>\<open>app.journal_workflow_recovery_replayed\<close>, its errors as the service reports them.\<close>

definition recovery_replayed ::
  "workflow_tables \<Rightarrow> tenant_context \<Rightarrow> string \<Rightarrow> workflow_action \<Rightarrow> string \<Rightarrow> string
     \<Rightarrow> workflow_error + bool" where
  "recovery_replayed T c jid act key h =
     bindE (throw_if (act \<notin> {WithdrawAction, RejectAction} \<or> \<not> uuid_pattern ''4'' key
         \<or> \<not> digest_pattern h) (WorkflowRejected RecoveryContext)) (\<lambda>_.
     bindE (refuse_if (\<not> current_actor_has_permission T c
           (if act = RejectAction then ApproveJournal else SubmitJournal)
         \<or> find_entry T (ctx_organization c) jid = None) MissingPermission) (\<lambda>_.
     case recovery_receipt T (ctx_organization c) key of
       None \<Rightarrow> Inr False
     | Some v \<Rightarrow>
         bindE (refuse_if (ev_journal v \<noteq> jid \<or> ev_actor v \<noteq> ctx_actor c \<or> ev_action v \<noteq> act
             \<or> ev_command_hash v \<noteq> Some h) StaleVersionReason) (\<lambda>_. Inr True)))"

definition recover_entry ::
  "workflow_platform \<Rightarrow> workflow_action \<Rightarrow> tenant_context \<Rightarrow> tenant_context \<Rightarrow> recover_command \<Rightarrow> string
     \<Rightarrow> workflow_entry \<Rightarrow> workflow_tables \<Rightarrow> workflow_error + workflow_result \<times> workflow_tables" where
  "recover_entry P act c0 c cmd h e T =
     bindE (recovery_replayed T c (ac_journal cmd) act (rc_key cmd) h) (\<lambda>replayed.
     if replayed then Inr (replay_result e, T)
     else
       bindE (refuse_if (en_status e \<noteq> JSubmitted) InvalidState) (\<lambda>_.
       bindE (refuse_if (\<not> same_hash (en_content_hash e) (ac_expected_hash cmd)
           \<or> en_approval_version e \<noteq> Some (ac_expected_version cmd)) StaleVersionReason) (\<lambda>_.
       bindE (assert_workflow_action P T c0 c (en_id e) act) (\<lambda>_.
       bindE (if act = RejectAction
              then insert_decision P c False
                (decision_row c0 e (ac_expected_version cmd) Rejected (ac_reason cmd)) T
              else Inr T) (\<lambda>T1.
       bindE (update_journal_status P c
           (Some \<lparr>rs_action = act, rs_hash = to_lower (ac_expected_hash cmd),
                  rs_version = ac_expected_version cmd, rs_key = rc_key cmd, rs_command_hash = h\<rparr>)
           e (e\<lparr>en_status := JDraft\<rparr>) T1) (\<lambda>(row, T2).
       Inr (fresh_result row, T2)))))))"

definition recover_submitted_journal ::
  "workflow_platform \<Rightarrow> environment \<Rightarrow> transaction_gate \<Rightarrow> workflow_action \<Rightarrow> tenant_context
     \<Rightarrow> recover_command \<Rightarrow> workflow_tables \<Rightarrow> workflow_error + workflow_result \<times> workflow_tables" where
  "recover_submitted_journal P env gate act c0 cmd0 T =
     bindE (map_errorE WorkflowAccess (assert_tenant_writes_enabled env c0)) (\<lambda>_.
     bindE (parse_recover P cmd0) (\<lambda>cmd.
     bindE (throw_if (ctx_reason c0 \<noteq> Some (ac_reason cmd)) WorkflowReasonNotBound) (\<lambda>_.
     bindE (begin_workflow env gate c0 T (if act = RejectAction then ApproveJournal else SubmitJournal)) (\<lambda>c.
     case find_entry T (ctx_organization c0) (ac_journal cmd) of
       None \<Rightarrow> Inl (WorkflowRefused InvalidState)
     | Some e \<Rightarrow>
         recover_entry P act c0 c cmd (recovery_command_hash P act (ctx_actor c0) cmd) e T))))"

definition withdraw_submitted_journal ::
  "workflow_platform \<Rightarrow> environment \<Rightarrow> transaction_gate \<Rightarrow> tenant_context
     \<Rightarrow> recover_command \<Rightarrow> workflow_tables \<Rightarrow> workflow_error + workflow_result \<times> workflow_tables" where
  "withdraw_submitted_journal P env gate = recover_submitted_journal P env gate WithdrawAction"

definition reject_submitted_journal ::
  "workflow_platform \<Rightarrow> environment \<Rightarrow> transaction_gate \<Rightarrow> tenant_context
     \<Rightarrow> recover_command \<Rightarrow> workflow_tables \<Rightarrow> workflow_error + workflow_result \<times> workflow_tables" where
  "reject_submitted_journal P env gate = recover_submitted_journal P env gate RejectAction"

section \<open>Histories\<close>

text \<open>
  Everything that happens to the tables: the four commands, a posting (the status update
  with its triggers; \<open>PostingEngine\<close> is the command around it), the creation and editing of
  drafts, the administrative unposting of a posted journal, and changes to all the other
  tables.  The line trigger freezes the lines of a journal that is no draft; approvals and
  audit events are append-only tables.
\<close>

inductive workflow_step :: "workflow_platform \<Rightarrow> workflow_tables \<Rightarrow> workflow_tables \<Rightarrow> bool" for P where
  submit: "submit_journal_for_approval P env gate c scmd T = Inr (res, T') \<Longrightarrow> workflow_step P T T'"
| approve: "approve_submitted_journal P env gate c acmd T = Inr (res, T') \<Longrightarrow> workflow_step P T T'"
| withdraw: "withdraw_submitted_journal P env gate c rcmd T = Inr (res, T') \<Longrightarrow> workflow_step P T T'"
| reject: "reject_submitted_journal P env gate c rcmd T = Inr (res, T') \<Longrightarrow> workflow_step P T T'"
| posted: "e \<in> set (wt_entries T) \<Longrightarrow>
    update_journal_status P c None e (e\<lparr>en_status := JPosted,
      en_content_hash := Some (compute_journal_content_hash P e)\<rparr>) T = Inr (row, T') \<Longrightarrow>
    workflow_step P T T'"
| drafted: "en_status e = JDraft \<Longrightarrow> en_content_hash e = None \<Longrightarrow> en_approval_version e = None \<Longrightarrow>
    en_id e \<notin> en_id ` set (wt_entries T) \<Longrightarrow>
    workflow_step P T (T\<lparr>wt_entries := wt_entries T @ [e]\<rparr>)"
| edited: "e \<in> set (wt_entries T) \<Longrightarrow> en_status e = JDraft \<Longrightarrow>
    en_id e' = en_id e \<Longrightarrow> en_organization e' = en_organization e \<Longrightarrow> en_status e' = JDraft \<Longrightarrow>
    en_content_hash e' = None \<Longrightarrow> en_approval_version e' = None \<Longrightarrow>
    workflow_step P T (put_entry e' T)"
| unposted: "e \<in> set (wt_entries T) \<Longrightarrow> en_status e = JPosted \<Longrightarrow>
    workflow_step P T (put_entry (content_of e) T)"
| elsewhere: "wt_entries T' = wt_entries T \<Longrightarrow> wt_approvals T' = wt_approvals T \<Longrightarrow>
    wt_events T' = wt_events T \<Longrightarrow> workflow_step P T T'"

definition empty_workflow :: "workflow_tables \<Rightarrow> bool" where
  "empty_workflow T \<longleftrightarrow> wt_entries T = [] \<and> wt_approvals T = [] \<and> wt_events T = []"

section \<open>What the updates do\<close>

lemma fold_max_less [simp]: "fold max xs a < (b::int) \<longleftrightarrow> a < b \<and> (\<forall>x \<in> set xs. x < b)"
  by (induction xs arbitrary: a) auto

lemma content_of_simps [simp]:
  "content_of (e\<lparr>en_status := s\<rparr>) = content_of e" "content_of (e\<lparr>en_content_hash := h\<rparr>) = content_of e"
  "content_of (e\<lparr>en_approval_version := v\<rparr>) = content_of e"
  "content_of (e\<lparr>en_approved_by := b\<rparr>) = content_of e" "content_of (content_of e) = content_of e"
  "en_id (content_of e) = en_id e" "en_organization (content_of e) = en_organization e"
  "en_created_by (content_of e) = en_created_by e" "en_status (content_of e) = JDraft"
  "en_content_hash (content_of e) = None" "en_approval_version (content_of e) = None"
  by (simp_all add: content_of_def)

lemma compute_hash_simps [simp]:
  "compute_journal_content_hash P (e\<lparr>en_status := s\<rparr>) = compute_journal_content_hash P e"
  "compute_journal_content_hash P (e\<lparr>en_content_hash := h\<rparr>) = compute_journal_content_hash P e"
  "compute_journal_content_hash P (e\<lparr>en_approval_version := v\<rparr>) = compute_journal_content_hash P e"
  "compute_journal_content_hash P (e\<lparr>en_approved_by := b\<rparr>) = compute_journal_content_hash P e"
  by (simp_all add: compute_journal_content_hash_def)

lemma put_entry_simps [simp]:
  "wt_approvals (put_entry e T) = wt_approvals T" "wt_events (put_entry e T) = wt_events T"
  "wt_approvals (append_event v T) = wt_approvals T" "wt_entries (append_event v T) = wt_entries T"
  "wt_events (append_event v T) = wt_events T @ [v]"
  by (simp_all add: put_entry_def append_event_def)

text \<open>When the audit of a request may be written.\<close>

definition audit_admits :: "workflow_tables \<Rightarrow> tenant_context \<Rightarrow> workflow_action \<Rightarrow> string \<Rightarrow> bool" where
  "audit_admits T c act jid \<longleftrightarrow>
     one_line (ctx_request c) \<and> \<not> audited T (ctx_organization c) (ctx_request c) act jid"

lemma append_audit_Inr_iff [monad_simps]:
  "append_tenant_business_audit v T = Inr T' \<longleftrightarrow> one_line (ev_request v)
     \<and> \<not> audited T (ev_organization v) (ev_request v) (ev_action v) (ev_journal v) \<and> T' = append_event v T"
  by (auto simp: append_tenant_business_audit_def monad_simps)

lemma audited_other_tables [simp]:
  "audited (put_entry e T) = audited T" "audited (T\<lparr>wt_approvals := as\<rparr>) = audited T"
  by (simp_all add: audited_def fun_eq_iff)

lemmas update_defs = update_journal_status_def guard_posted_journal_entry_def
  validate_posting_approval_def guard_journal_workflow_transition_def

lemma submission_version_greater:
  assumes "v = submission_version T e new" "en_approval_version new = Some w"
  shows "w \<le> v \<and> (\<forall>ev \<in> set (wt_events T). ev_organization ev = en_organization e
    \<and> ev_journal ev = en_id e \<longrightarrow> ev_version ev < v)"
proof -
  let ?m = "fold max (map ev_version (filter (\<lambda>v. ev_organization v = en_organization e
          \<and> ev_journal v = en_id e) (wt_events T))) 0"
  have "?m < ?m + 1" by simp
  then have "\<forall>ev \<in> set (wt_events T). ev_organization ev = en_organization e
    \<and> ev_journal ev = en_id e \<longrightarrow> ev_version ev < ?m + 1" by (subst (asm) fold_max_less) auto
  then show ?thesis using assms by (auto simp: submission_version_def)
qed

lemma update_submit:
  assumes "update_journal_status P c s e (e\<lparr>en_status := JSubmitted\<rparr>) T = Inr (row, T')"
    and "en_status e = JDraft"
  obtains v where "row = e\<lparr>en_status := JSubmitted,
      en_content_hash := Some (compute_journal_content_hash P e), en_approval_version := Some v\<rparr>"
    "v \<ge> 1" "\<forall>ev \<in> set (wt_events T). ev_organization ev = en_organization e
        \<and> ev_journal ev = en_id e \<longrightarrow> ev_version ev < v"
    "T' = append_event \<lparr>ev_organization = en_organization e, ev_journal = en_id e,
        ev_action = SubmitAction, ev_request = ctx_request c, ev_actor = ctx_actor c, ev_hash = compute_journal_content_hash P e,
        ev_version = v, ev_key = None, ev_command_hash = None\<rparr> (put_entry row T)"
proof -
  let ?m = "fold max (map ap_version (filter (\<lambda>a. ap_organization a = en_organization e
     \<and> ap_ledger a = en_ledger e \<and> ap_journal a = en_id e) (wt_approvals T))) 0"
  let ?n = "e\<lparr>en_status := JSubmitted, en_content_hash := Some (compute_journal_content_hash P e),
     en_approval_version := Some (?m + 1)\<rparr>"
  let ?v = "submission_version T e ?n"
  have "?m < ?m + 1" by simp
  then have "0 < ?m + 1" by (subst (asm) fold_max_less) simp
  moreover note submission_version_greater [OF HOL.refl, of ?n "?m + 1" T e]
  ultimately have "?v \<ge> 1" by simp
  moreover have "row = ?n\<lparr>en_approval_version := Some ?v\<rparr>
     \<and> T' = append_event \<lparr>ev_organization = en_organization e, ev_journal = en_id e,
        ev_action = SubmitAction, ev_request = ctx_request c, ev_actor = ctx_actor c, ev_hash = compute_journal_content_hash P e,
        ev_version = ?v, ev_key = None, ev_command_hash = None\<rparr> (put_entry row T)"
    using assms by (auto simp: update_defs monad_simps Let_def)
  ultimately show thesis
    using submission_version_greater [OF HOL.refl, of ?n "?m + 1" T e] by (intro that [of ?v]) auto
qed

lemma frozen_transition_Inr:
  assumes "frozen_transition_check P T c old new = Inr u"
    "en_status old \<in> {JSubmitted, JApproved}" "en_status new \<in> {JApproved, JPosted}"
  shows "\<exists>v. en_approval_version old = Some v \<and> en_approval_version new = Some v
    \<and> en_content_hash new = en_content_hash old
    \<and> en_content_hash old = Some (compute_journal_content_hash P old)
    \<and> (\<exists>a \<in> set (wt_approvals T). binds_approval old a
         \<and> (en_status new = JPosted \<or> Some (ap_actor a) = en_approved_by new))"
  using assms by (auto simp: frozen_transition_check_def monad_simps list_ex_iff)

lemma update_approve:
  assumes "update_journal_status P c s e (e\<lparr>en_status := JApproved, en_approved_by := b\<rparr>) T = Inr (row, T')"
    and "en_status e = JSubmitted"
  shows "row = e\<lparr>en_status := JApproved, en_approved_by := b\<rparr> \<and> T' = put_entry row T
    \<and> (\<exists>a \<in> set (wt_approvals T). binds_approval e a \<and> Some (ap_actor a) = b)"
  using assms
  by (auto simp: update_defs monad_simps Let_def dest!: frozen_transition_Inr)

lemma recovery_check_Inr:
  assumes "recovery_check P T c s old new = Inr r"
  shows "s = Some r \<and> recovery_receipt T (en_organization old) (rs_key r) = None"
  using assms by (auto simp: recovery_check_def monad_simps)

lemma update_recover:
  assumes "update_journal_status P c (Some r) e (e\<lparr>en_status := JDraft\<rparr>) T = Inr (row, T')"
    and "en_status e = JSubmitted"
  shows "row = e\<lparr>en_status := JDraft, en_content_hash := None, en_approval_version := None,
      en_approved_by := None\<rparr>
    \<and> recovery_receipt T (en_organization e) (rs_key r) = None
    \<and> T' = append_event \<lparr>ev_organization = en_organization e, ev_journal = en_id e,
        ev_action = rs_action r, ev_request = ctx_request c, ev_actor = ctx_actor c, ev_hash = or_else (en_content_hash e) [],
        ev_version = or_else (en_approval_version e) 0, ev_key = Some (rs_key r),
        ev_command_hash = Some (rs_command_hash r)\<rparr> (put_entry row T)
    \<and> rs_action r \<in> {WithdrawAction, RejectAction}"
  using assms
  by (auto simp: update_defs monad_simps Let_def recovery_check_def)

lemma update_posted_journal:
  assumes "update_journal_status P c s e (e\<lparr>en_status := JPosted,
      en_content_hash := Some (compute_journal_content_hash P e)\<rparr>) T = Inr (row, T')"
  shows "row = e\<lparr>en_status := JPosted, en_content_hash := Some (compute_journal_content_hash P e)\<rparr>
    \<and> T' = put_entry row T \<and> en_status e \<in> {JDraft, JSubmitted, JApproved}
    \<and> (en_status e \<noteq> JDraft \<longrightarrow>
        en_content_hash e = Some (compute_journal_content_hash P e)
        \<and> (\<exists>a \<in> set (wt_approvals T). binds_approval e a))"
proof -
  have "en_status e \<in> {JDraft, JSubmitted, JApproved}"
    using assms by (cases "en_status e") (auto simp: update_defs monad_simps)
  with assms show ?thesis
    by (auto simp: update_defs monad_simps Let_def dest!: frozen_transition_Inr)
qed

text \<open>What an inserted decision is: bound to the frozen version and hash of its journal.\<close>

lemma insert_decision_Inr:
  assumes "insert_decision P c k a T = Inr T'"
  obtains "T' = T"
  | e d where "e \<in> set (wt_entries T)" "en_id e = ap_journal a" "en_organization e = ap_organization a"
    "en_status e = JSubmitted" "en_approval_version e = Some (ap_version a)"
    "ap_hash a = compute_journal_content_hash P e" "d = a\<lparr>ap_self_connection := ap_self_connection d\<rparr>"
    "en_content_hash e = Some (compute_journal_content_hash P e)"
    "T' = T\<lparr>wt_approvals := wt_approvals T @ [d]\<rparr>"
proof -
  obtain e where e: "List.find (\<lambda>e. en_organization e = ap_organization a \<and> en_ledger e = ap_ledger a
        \<and> en_id e = ap_journal a) (wt_entries T) = Some e"
    using assms by (auto simp: insert_decision_def monad_simps split: option.splits)
  then have "e \<in> set (wt_entries T)" "en_id e = ap_journal a" "en_organization e = ap_organization a"
    by (auto simp: find_Some_iff)
  moreover define d where "d = a\<lparr>ap_self_connection :=
      (if en_created_by e = Some (ap_actor a) then ctx_session c else None)\<rparr>"
  then have "d = a\<lparr>ap_self_connection := ap_self_connection d\<rparr>" by simp
  moreover have "en_status e = JSubmitted \<and> en_approval_version e = Some (ap_version a)
      \<and> ap_hash a = compute_journal_content_hash P e
      \<and> en_content_hash e = Some (compute_journal_content_hash P e)
      \<and> (T' = T \<or> T' = T\<lparr>wt_approvals := wt_approvals T @ [d]\<rparr>)"
    using assms e by (auto simp: insert_decision_def monad_simps Let_def d_def split: if_splits)
  ultimately show thesis using that by blast
qed

section \<open>What the commands do\<close>

lemma find_entry_Some:
  "find_entry T org jid = Some e \<Longrightarrow> e \<in> set (wt_entries T) \<and> en_organization e = org \<and> en_id e = jid"
  by (auto simp: find_entry_def find_Some_iff)

lemmas command_simps = monad_simps refuse_if_def Let_def fresh_result_def replay_result_def

lemma submit_entry_Inr:
  assumes "submit_entry P c0 c cmd e T = Inr (res, T')"
  shows "T' = T \<and> wr_replay res \<or> (\<exists>row. en_status e = JDraft \<and> \<not> wr_replay res
    \<and> update_journal_status P c None e (e\<lparr>en_status := JSubmitted\<rparr>) T = Inr (row, T'))"
  using assms unfolding submit_entry_def by (auto simp: command_simps split: if_splits)

lemma submit_effect:
  assumes "submit_journal_for_approval P env gate c0 cmd T = Inr (res, T')"
  obtains "T' = T" "wr_replay res"
  | c e row where "e \<in> set (wt_entries T)" "en_status e = JDraft" "\<not> wr_replay res"
    "update_journal_status P c None e (e\<lparr>en_status := JSubmitted\<rparr>) T = Inr (row, T')"
proof -
  obtain cmd' c e where "find_entry T (ctx_organization c0) (to_lower (sc_journal cmd')) = Some e"
    "submit_entry P c0 c cmd' e T = Inr (res, T')"
    using assms unfolding submit_journal_for_approval_def by (auto simp: monad_simps split: option.splits)
  then show thesis using that by (blast dest: find_entry_Some submit_entry_Inr)
qed

lemma decision_row_simps [simp]:
  "ap_journal (decision_row c0 e v d r) = en_id e" "ap_organization (decision_row c0 e v d r) = ctx_organization c0"
  "ap_version (decision_row c0 e v d r) = v" "ap_decision (decision_row c0 e v d r) = d"
  "ap_actor (decision_row c0 e v d r) = ctx_actor c0" "ap_ledger (decision_row c0 e v d r) = en_ledger e"
  "ap_hash (decision_row c0 e v d r) = or_else (en_content_hash e) []"
  "ap_self_connection (decision_row c0 e v d r) = None"
  by (simp_all add: decision_row_def)

lemma approve_entry_Inr:
  assumes "approve_entry P c0 c cmd e T = Inr (res, T')"
  shows "T' = T \<and> wr_replay res \<or> (\<exists>T1 row. en_status e = JSubmitted \<and> \<not> wr_replay res
    \<and> insert_decision P c True
        (decision_row c0 e (or_else (en_approval_version e) 0) Approved (ac_reason cmd)) T = Inr T1
    \<and> update_journal_status P c None e
        (e\<lparr>en_status := JApproved, en_approved_by := Some (ctx_actor c0)\<rparr>) T1 = Inr (row, T'))"
  using assms unfolding approve_entry_def by (auto simp: command_simps split: if_splits)

lemma approve_effect:
  assumes "approve_submitted_journal P env gate c0 cmd T = Inr (res, T')"
  obtains "T' = T" "wr_replay res"
  | c e v r T1 row where "e \<in> set (wt_entries T)" "en_status e = JSubmitted" "\<not> wr_replay res"
    "en_organization e = ctx_organization c0"
    "insert_decision P c True (decision_row c0 e v Approved r) T = Inr T1"
    "update_journal_status P c None e
       (e\<lparr>en_status := JApproved, en_approved_by := Some (ctx_actor c0)\<rparr>) T1 = Inr (row, T')"
proof -
  obtain cmd' c e where "find_entry T (ctx_organization c0) (to_lower (ac_journal cmd')) = Some e"
    "approve_entry P c0 c cmd' e T = Inr (res, T')"
    using assms unfolding approve_submitted_journal_def by (auto simp: monad_simps split: option.splits)
  then show thesis using that by (blast dest: find_entry_Some approve_entry_Inr)
qed

lemma recover_entry_Inr:
  assumes "recover_entry P act c0 c cmd h e T = Inr (res, T')"
  shows "T' = T \<and> wr_replay res \<or> (\<exists>T1 row. en_status e = JSubmitted \<and> \<not> wr_replay res
    \<and> recovery_replayed T c (ac_journal cmd) act (rc_key cmd) h = Inr False
    \<and> (if act = RejectAction then insert_decision P c False
          (decision_row c0 e (ac_expected_version cmd) Rejected (ac_reason cmd)) T else Inr T) = Inr T1
    \<and> update_journal_status P c
        (Some \<lparr>rs_action = act, rs_hash = to_lower (ac_expected_hash cmd),
               rs_version = ac_expected_version cmd, rs_key = rc_key cmd, rs_command_hash = h\<rparr>)
        e (e\<lparr>en_status := JDraft\<rparr>) T1 = Inr (row, T'))"
  using assms unfolding recover_entry_def by (auto simp: command_simps split: if_splits)

lemma recover_effect:
  assumes "recover_submitted_journal P env gate act c0 cmd T = Inr (res, T')"
  obtains "T' = T" "wr_replay res"
  | c e cmd' rs T1 row where "en_status e = JSubmitted" "\<not> wr_replay res"
    "parse_recover P cmd = Inr cmd'" "begin_tenant_transaction gate c0 = Inr c"
    "find_entry T (ctx_organization c0) (ac_journal cmd') = Some e" "ctx_reason c0 = Some (ac_reason cmd')"
    "recovery_replayed T c (ac_journal cmd') act (rc_key cmd')
       (recovery_command_hash P act (ctx_actor c0) cmd') = Inr False"
    "(if act = RejectAction then insert_decision P c False
        (decision_row c0 e (ac_expected_version cmd') Rejected (ac_reason cmd')) T else Inr T) = Inr T1"
    "rs_key rs = rc_key cmd'" "rs_action rs = act"
    "rs_command_hash rs = recovery_command_hash P act (ctx_actor c0) cmd'"
    "update_journal_status P c (Some rs) e (e\<lparr>en_status := JDraft\<rparr>) T1 = Inr (row, T')"
proof -
  obtain cmd' c e where "parse_recover P cmd = Inr cmd'" "begin_tenant_transaction gate c0 = Inr c"
    "ctx_reason c0 = Some (ac_reason cmd')" "find_entry T (ctx_organization c0) (ac_journal cmd') = Some e"
    and e: "recover_entry P act c0 c cmd' (recovery_command_hash P act (ctx_actor c0) cmd') e T = Inr (res, T')"
    using assms unfolding recover_submitted_journal_def begin_workflow_def
    by (auto simp: monad_simps split: option.splits)
  with recover_entry_Inr [OF e] show thesis
    by (elim disjE exE conjE) (rule that(1), assumption+, rule that(2), assumption+, simp_all)
qed

section \<open>The invariant of the tables\<close>

definition submissions :: "workflow_tables \<Rightarrow> string \<Rightarrow> string \<Rightarrow> workflow_event list" where
  "submissions T org jid = filter (\<lambda>v. ev_action v = SubmitAction \<and> ev_organization v = org
     \<and> ev_journal v = jid) (wt_events T)"

text \<open>
  A frozen journal carries the hash of its present content and a version some
  submission was given; an approved one an approval of exactly that; a posted one the
  hash it was posted with.
\<close>

definition frozen_exactly :: "workflow_platform \<Rightarrow> workflow_tables \<Rightarrow> workflow_entry \<Rightarrow> bool" where
  "frozen_exactly P T e \<longleftrightarrow>
     (\<exists>v \<ge> 1. en_approval_version e = Some v
        \<and> en_content_hash e = Some (compute_journal_content_hash P e)
        \<and> (\<exists>ev \<in> set (submissions T (en_organization e) (en_id e)).
             ev_version ev = v \<and> ev_hash ev = compute_journal_content_hash P e))"

fun entry_ok :: "workflow_platform \<Rightarrow> workflow_tables \<Rightarrow> workflow_entry \<Rightarrow> journal_status \<Rightarrow> bool" where
  "entry_ok P T e JDraft \<longleftrightarrow> en_approval_version e = None \<and> en_content_hash e = None"
| "entry_ok P T e JSubmitted \<longleftrightarrow> frozen_exactly P T e"
| "entry_ok P T e JApproved \<longleftrightarrow> frozen_exactly P T e
     \<and> (\<exists>a \<in> set (wt_approvals T). binds_approval e a \<and> Some (ap_actor a) = en_approved_by e)"
| "entry_ok P T e JPosted \<longleftrightarrow> en_content_hash e = Some (compute_journal_content_hash P e)
     \<and> (en_approval_version e \<noteq> None \<longrightarrow> (\<exists>a \<in> set (wt_approvals T). binds_approval e a))"
| "entry_ok P T e JReversed \<longleftrightarrow> False"

text \<open>
  Every decision belongs to the one submission of its version; \<open>X\<close> are journals whose
  decision on the pending submission has just been recorded.
\<close>

definition workflow_ok :: "workflow_platform \<Rightarrow> string set \<Rightarrow> workflow_tables \<Rightarrow> bool" where
  "workflow_ok P X T \<longleftrightarrow>
     distinct (map en_id (wt_entries T))
     \<and> (\<forall>e \<in> set (wt_entries T). entry_ok P T e (en_status e))
     \<and> (\<forall>a \<in> set (wt_approvals T).
          (\<exists>e \<in> set (wt_entries T). en_id e = ap_journal a \<and> en_organization e = ap_organization a)
          \<and> (\<exists>ev \<in> set (submissions T (ap_organization a) (ap_journal a)).
               ev_version ev = ap_version a \<and> ev_hash ev = ap_hash a))
     \<and> (\<forall>org jid. sorted_wrt (<) (map ev_version (submissions T org jid)))
     \<and> (\<forall>e \<in> set (wt_entries T). en_status e = JSubmitted \<and> en_id e \<notin> X \<longrightarrow>
          (\<forall>a \<in> set (wt_approvals T). ap_journal a = en_id e \<longrightarrow> Some (ap_version a) \<noteq> en_approval_version e))"

lemma workflow_okD:
  assumes "workflow_ok P X T"
  shows "distinct (map en_id (wt_entries T))"
    and "e \<in> set (wt_entries T) \<Longrightarrow> entry_ok P T e (en_status e)"
    and "a \<in> set (wt_approvals T) \<Longrightarrow> \<exists>e \<in> set (wt_entries T). en_id e = ap_journal a
        \<and> en_organization e = ap_organization a"
    and "a \<in> set (wt_approvals T) \<Longrightarrow> \<exists>ev \<in> set (submissions T (ap_organization a) (ap_journal a)).
        ev_version ev = ap_version a \<and> ev_hash ev = ap_hash a"
    and "sorted_wrt (<) (map ev_version (submissions T org jid))"
    and "e \<in> set (wt_entries T) \<Longrightarrow> en_status e = JSubmitted \<Longrightarrow> en_id e \<notin> X \<Longrightarrow>
        a \<in> set (wt_approvals T) \<Longrightarrow> ap_journal a = en_id e \<Longrightarrow> Some (ap_version a) \<noteq> en_approval_version e"
  using assms unfolding workflow_ok_def by blast+

lemma submissions_put_entry [simp]: "submissions (put_entry e T) org jid = submissions T org jid"
  by (simp add: submissions_def)

lemma submissions_append_event:
  "submissions (append_event v T) org jid = submissions T org jid @
     (if ev_action v = SubmitAction \<and> ev_organization v = org \<and> ev_journal v = jid then [v] else [])"
  by (simp add: submissions_def)

text \<open>An entry keeps its standing when approvals and submissions are only added to.\<close>

lemma entry_ok_mono:
  assumes "entry_ok P T e s" "set (wt_approvals T) \<subseteq> set (wt_approvals T')"
    and "set (submissions T (en_organization e) (en_id e)) \<subseteq> set (submissions T' (en_organization e) (en_id e))"
  shows "entry_ok P T' e s"
  using assms by (cases s) (auto simp: frozen_exactly_def; blast)+

lemma put_entry_set:
  assumes "r \<in> set (wt_entries (put_entry e T))"
  shows "r = e \<or> (r \<in> set (wt_entries T) \<and> \<not> (en_organization r = en_organization e \<and> en_id r = en_id e))"
  using assms by (auto simp: put_entry_def split: if_splits)

lemma put_entry_ids: "map en_id (wt_entries (put_entry e T)) = map en_id (wt_entries T)"
  by (simp add: put_entry_def)

lemma put_entry_keeps_keys:
  assumes "\<exists>r \<in> set (wt_entries T). en_id r = i \<and> en_organization r = g"
  shows "\<exists>r \<in> set (wt_entries (put_entry e T)). en_id r = i \<and> en_organization r = g"
proof -
  let ?f = "\<lambda>r. if en_organization r = en_organization e \<and> en_id r = en_id e then e else r"
  obtain r where "r \<in> set (wt_entries T)" "en_id r = i" "en_organization r = g" using assms by blast
  then have "?f r \<in> set (wt_entries (put_entry e T))" "en_id (?f r) = i" "en_organization (?f r) = g"
    by (auto simp: put_entry_def)
  then show ?thesis by blast
qed

text \<open>Storing a row whose standing is right, without or with an event.\<close>

lemma workflow_ok_put:
  assumes ok: "workflow_ok P X T" and "entry_ok P T e (en_status e)"
    and "en_status e = JSubmitted \<Longrightarrow> \<forall>a \<in> set (wt_approvals T). ap_journal a = en_id e \<longrightarrow>
           Some (ap_version a) \<noteq> en_approval_version e"
    and "Y = X \<or> Y = X - {en_id e} \<and> (\<exists>r \<in> set (wt_entries T). en_id r = en_id e
           \<and> en_organization r = en_organization e)"
  shows "workflow_ok P Y (put_entry e T)"
proof -
  have old: "entry_ok P (put_entry e T) r (en_status r)" if "entry_ok P T r (en_status r)" for r
    using that by (rule entry_ok_mono) auto
  have other: "en_id r \<noteq> en_id e" if r: "r \<in> set (wt_entries T)"
    "\<not> (en_organization r = en_organization e \<and> en_id r = en_id e)" "Y \<noteq> X" for r
  proof
    assume "en_id r = en_id e"
    moreover obtain q where "q \<in> set (wt_entries T)" "en_id q = en_id e" "en_organization q = en_organization e"
      using assms(4) r(3) by blast
    ultimately have "r = q" using workflow_okD(1) [OF ok] r(1) by (metis distinct_map inj_on_eq_iff)
    with \<open>en_organization q = _\<close> \<open>en_id q = _\<close> r(2) show False by simp
  qed
  show ?thesis unfolding workflow_ok_def
  proof (intro conjI ballI allI impI)
    show "distinct (map en_id (wt_entries (put_entry e T)))"
      using workflow_okD(1) [OF ok] by (simp add: put_entry_ids)
    show "entry_ok P (put_entry e T) r (en_status r)" if "r \<in> set (wt_entries (put_entry e T))" for r
      using put_entry_set [OF that] assms(2) workflow_okD(2) [OF ok] old by blast
    show "\<exists>r \<in> set (wt_entries (put_entry e T)). en_id r = ap_journal a \<and> en_organization r = ap_organization a"
      if "a \<in> set (wt_approvals (put_entry e T))" for a
      using workflow_okD(3) [OF ok] that put_entry_keeps_keys by simp
    show "\<exists>ev \<in> set (submissions (put_entry e T) (ap_organization a) (ap_journal a)).
        ev_version ev = ap_version a \<and> ev_hash ev = ap_hash a"
      if "a \<in> set (wt_approvals (put_entry e T))" for a
      using workflow_okD(4) [OF ok] that by simp
    show "sorted_wrt (<) (map ev_version (submissions (put_entry e T) org jid))" for org jid
      using workflow_okD(5) [OF ok] by simp
    fix r a assume "r \<in> set (wt_entries (put_entry e T))" "a \<in> set (wt_approvals (put_entry e T))"
      "en_status r = JSubmitted \<and> en_id r \<notin> Y" "ap_journal a = en_id r"
    then have "a \<in> set (wt_approvals T)" "en_status r = JSubmitted" "en_id r \<notin> Y" "ap_journal a = en_id r"
      and "r = e \<or> (r \<in> set (wt_entries T) \<and> \<not> (en_organization r = en_organization e \<and> en_id r = en_id e))"
      by (auto dest: put_entry_set)
    moreover from this have "en_id r \<notin> X" if "r \<noteq> e" using that assms(4) other [of r] by blast
    ultimately show "Some (ap_version a) \<noteq> en_approval_version r"
      using assms(3) workflow_okD(6) [OF ok, of r a] by blast
  qed
qed

lemma workflow_ok_event:
  assumes ok: "workflow_ok P X T"
    and new: "ev_action v = SubmitAction \<Longrightarrow>
      \<forall>u \<in> set (submissions T (ev_organization v) (ev_journal v)). ev_version u < ev_version v"
  shows "workflow_ok P X (append_event v T)"
  unfolding workflow_ok_def
proof (intro conjI ballI allI impI)
  show "distinct (map en_id (wt_entries (append_event v T)))" using workflow_okD(1) [OF ok] by simp
  show "entry_ok P (append_event v T) e (en_status e)" if "e \<in> set (wt_entries (append_event v T))" for e
    using that by (intro entry_ok_mono [OF workflow_okD(2) [OF ok, of e]]) (auto simp: submissions_append_event)
  show "\<exists>e \<in> set (wt_entries (append_event v T)). en_id e = ap_journal a \<and> en_organization e = ap_organization a"
    if "a \<in> set (wt_approvals (append_event v T))" for a
    using workflow_okD(3) [OF ok] that by simp
  show "\<exists>ev \<in> set (submissions (append_event v T) (ap_organization a) (ap_journal a)).
      ev_version ev = ap_version a \<and> ev_hash ev = ap_hash a"
    if "a \<in> set (wt_approvals (append_event v T))" for a
    using workflow_okD(4) [OF ok] that by (auto simp: submissions_append_event)
  show "sorted_wrt (<) (map ev_version (submissions (append_event v T) org jid))" for org jid
    using workflow_okD(5) [OF ok] new by (auto simp: submissions_append_event sorted_wrt_append)
  fix e a assume "e \<in> set (wt_entries (append_event v T))" "a \<in> set (wt_approvals (append_event v T))"
    "en_status e = JSubmitted \<and> en_id e \<notin> X" "ap_journal a = en_id e"
  then show "Some (ap_version a) \<noteq> en_approval_version e" using workflow_okD(6) [OF ok] by simp
qed

lemma workflow_ok_insert:
  assumes ok: "workflow_ok P {} T" and "insert_decision P c k a T = Inr T'"
  shows "workflow_ok P {ap_journal a} T' \<and> wt_entries T' = wt_entries T"
  using assms(2)
proof (cases rule: insert_decision_Inr)
  case 1
  then show ?thesis using ok by (auto simp: workflow_ok_def)
next
  case (2 e d)
  note d = 2(1-6) and T' = 2(9)
  have d_fields: "ap_journal d = en_id e" "ap_organization d = en_organization e"
    "ap_version d = ap_version a" "ap_hash d = ap_hash a"
    using 2(2,3) by (subst 2(7); simp)+
  have sub [simp]: "submissions T' = submissions T" by (simp add: T' submissions_def fun_eq_iff)
  have "frozen_exactly P T e" using workflow_okD(2) [OF ok d(1)] d(4) by simp
  then have ev: "\<exists>ev \<in> set (submissions T (ap_organization d) (ap_journal d)).
      ev_version ev = ap_version d \<and> ev_hash ev = ap_hash d"
    using d d_fields by (auto simp: frozen_exactly_def)
  have "workflow_ok P {ap_journal a} T'" unfolding workflow_ok_def
  proof (intro conjI ballI allI impI)
    show "distinct (map en_id (wt_entries T'))" using workflow_okD(1) [OF ok] by (simp add: T')
    show "entry_ok P T' r (en_status r)" if "r \<in> set (wt_entries T')" for r
      using that by (intro entry_ok_mono [OF workflow_okD(2) [OF ok, of r]]) (auto simp: T' submissions_def)
    show "\<exists>r \<in> set (wt_entries T'). en_id r = ap_journal b \<and> en_organization r = ap_organization b"
      if "b \<in> set (wt_approvals T')" for b
      using workflow_okD(3) [OF ok] that d(1) d_fields by (auto simp: T')
    show "\<exists>ev \<in> set (submissions T' (ap_organization b) (ap_journal b)).
        ev_version ev = ap_version b \<and> ev_hash ev = ap_hash b" if "b \<in> set (wt_approvals T')" for b
      using workflow_okD(4) [OF ok] ev that by (auto simp: T' submissions_def)
    show "sorted_wrt (<) (map ev_version (submissions T' org jid))" for org jid
      using workflow_okD(5) [OF ok] by simp
    fix r b assume "r \<in> set (wt_entries T')" "b \<in> set (wt_approvals T')"
      "en_status r = JSubmitted \<and> en_id r \<notin> {ap_journal a}" "ap_journal b = en_id r"
    then show "Some (ap_version b) \<noteq> en_approval_version r"
      using workflow_okD(6) [OF ok] d(2) d_fields by (auto simp: T')
  qed
  then show ?thesis by (simp add: T')
qed

lemma put_append_event: "append_event v (put_entry e T) = put_entry e (append_event v T)"
  by (simp add: put_entry_def append_event_def)

lemma ids_identify:
  assumes "workflow_ok P X T" "e \<in> set (wt_entries T)" "r \<in> set (wt_entries T)" "en_id r = en_id e"
  shows "r = e"
  using workflow_okD(1) [OF assms(1)] assms(2-4) by (auto simp: distinct_map dest: inj_onD)

lemma submit_keeps_ok:
  assumes ok: "workflow_ok P {} T" and e: "e \<in> set (wt_entries T)" "en_status e = JDraft"
    and "update_journal_status P c s e (e\<lparr>en_status := JSubmitted\<rparr>) T = Inr (row, T')"
  shows "workflow_ok P {} T'"
  using assms(4) e(2)
proof (rule update_submit)
  fix v assume row: "row = e\<lparr>en_status := JSubmitted,
      en_content_hash := Some (compute_journal_content_hash P e), en_approval_version := Some v\<rparr>"
    and "v \<ge> 1" and new: "\<forall>ev \<in> set (wt_events T). ev_organization ev = en_organization e
        \<and> ev_journal ev = en_id e \<longrightarrow> ev_version ev < v"
    and T': "T' = append_event \<lparr>ev_organization = en_organization e, ev_journal = en_id e,
        ev_action = SubmitAction, ev_request = ctx_request c, ev_actor = ctx_actor c, ev_hash = compute_journal_content_hash P e,
        ev_version = v, ev_key = None, ev_command_hash = None\<rparr> (put_entry row T)" (is "_ = append_event ?v _")
  have "workflow_ok P {} (append_event ?v T)"
    using new by (intro workflow_ok_event [OF ok]) (auto simp: submissions_def)
  moreover have "ap_version a < v" if a: "a \<in> set (wt_approvals T)" "ap_journal a = en_id e" for a
  proof -
    obtain r where "r \<in> set (wt_entries T)" "en_id r = ap_journal a" "en_organization r = ap_organization a"
      using workflow_okD(3) [OF ok a(1)] by blast
    moreover from this have "r = e" using ids_identify [OF ok e(1)] a(2) by simp
    ultimately have "ap_organization a = en_organization e" by simp
    then show ?thesis using workflow_okD(4) [OF ok a(1)] a(2) new by (auto simp: submissions_def)
  qed
  ultimately show ?thesis unfolding T' put_append_event
    by (intro workflow_ok_put) (use \<open>v \<ge> 1\<close> in \<open>auto simp: row frozen_exactly_def submissions_append_event\<close>)
qed

lemma binds_approval_update [simp]:
  "binds_approval (e\<lparr>en_status := s\<rparr>) a = binds_approval e a"
  "binds_approval (e\<lparr>en_approved_by := b\<rparr>) a = binds_approval e a"
  by (simp_all add: binds_approval_def)

lemma frozen_exactly_update [simp]:
  "frozen_exactly P T (e\<lparr>en_status := s\<rparr>) = frozen_exactly P T e"
  "frozen_exactly P T (e\<lparr>en_approved_by := b\<rparr>) = frozen_exactly P T e"
  by (simp_all add: frozen_exactly_def)

lemma approve_keeps_ok:
  assumes ok: "workflow_ok P {} T" and e: "e \<in> set (wt_entries T)" "en_status e = JSubmitted"
    and i: "insert_decision P c k (decision_row c0 e v d r) T = Inr T1"
    and u: "update_journal_status P c s e (e\<lparr>en_status := JApproved, en_approved_by := b\<rparr>) T1 = Inr (row, T')"
  shows "workflow_ok P {} T'"
proof -
  have ok1: "workflow_ok P {en_id e} T1" "wt_entries T1 = wt_entries T"
    using workflow_ok_insert [OF ok i] by simp_all
  have "frozen_exactly P T1 e" using workflow_okD(2) [OF ok1(1), of e] e ok1(2) by simp
  with update_approve [OF u e(2)] show ?thesis
    using e(1) ok1(2) by (auto intro!: workflow_ok_put [OF ok1(1)])
qed

lemma recover_keeps_ok:
  assumes ok: "workflow_ok P {} T" and e: "e \<in> set (wt_entries T)" "en_status e = JSubmitted"
    and i: "(if act = RejectAction then insert_decision P c k (decision_row c0 e v d r) T else Inr T) = Inr T1"
    and u: "update_journal_status P c (Some rs) e (e\<lparr>en_status := JDraft\<rparr>) T1 = Inr (row, T')"
  shows "workflow_ok P {} T'"
proof -
  have ok1: "workflow_ok P (if act = RejectAction then {en_id e} else {}) T1" "wt_entries T1 = wt_entries T"
    using workflow_ok_insert [OF ok, of c k "decision_row c0 e v d r" T1] i ok by (auto split: if_splits)
  have "workflow_ok P {} (put_entry row T1)"
    using update_recover [OF u e(2)] e(1) ok1(2) by (intro workflow_ok_put [OF ok1(1)]) auto
  then show ?thesis using update_recover [OF u e(2)] by (auto intro!: workflow_ok_event)
qed

lemma posted_keeps_ok:
  assumes ok: "workflow_ok P {} T" and e: "e \<in> set (wt_entries T)"
    and u: "update_journal_status P c s e (e\<lparr>en_status := JPosted,
      en_content_hash := Some (compute_journal_content_hash P e)\<rparr>) T = Inr (row, T')"
  shows "workflow_ok P {} T'"
proof -
  have "\<exists>a \<in> set (wt_approvals T). binds_approval row a" if "en_approval_version row \<noteq> None"
  proof -
    have "en_status e \<noteq> JDraft"
      using that workflow_okD(2) [OF ok e] update_posted_journal [OF u] by auto
    then show ?thesis using update_posted_journal [OF u] by (auto simp: binds_approval_def)
  qed
  then show ?thesis using update_posted_journal [OF u] by (auto intro!: workflow_ok_put [OF ok])
qed

lemma workflow_ok_add:
  assumes ok: "workflow_ok P {} T" and e: "en_status e = JDraft" "en_content_hash e = None"
    "en_approval_version e = None" "en_id e \<notin> en_id ` set (wt_entries T)"
  shows "workflow_ok P {} (T\<lparr>wt_entries := wt_entries T @ [e]\<rparr>)" (is "workflow_ok P {} ?T")
  unfolding workflow_ok_def
proof (intro conjI ballI allI impI)
  have sub [simp]: "submissions ?T = submissions T" by (simp add: submissions_def fun_eq_iff)
  show "distinct (map en_id (wt_entries ?T))" using workflow_okD(1) [OF ok] e by simp
  show "entry_ok P ?T r (en_status r)" if "r \<in> set (wt_entries ?T)" for r
    using that e by (cases "r = e") (auto intro: entry_ok_mono [OF workflow_okD(2) [OF ok, of r]])
  show "\<exists>r \<in> set (wt_entries ?T). en_id r = ap_journal a \<and> en_organization r = ap_organization a"
    if "a \<in> set (wt_approvals ?T)" for a using workflow_okD(3) [OF ok, of a] that by auto
  show "\<exists>ev \<in> set (submissions ?T (ap_organization a) (ap_journal a)).
      ev_version ev = ap_version a \<and> ev_hash ev = ap_hash a" if "a \<in> set (wt_approvals ?T)" for a
    using workflow_okD(4) [OF ok, of a] that by simp
  show "sorted_wrt (<) (map ev_version (submissions ?T org jid))" for org jid
    using workflow_okD(5) [OF ok] by simp
  fix r a assume "r \<in> set (wt_entries ?T)" "a \<in> set (wt_approvals ?T)"
    "en_status r = JSubmitted \<and> en_id r \<notin> {}" "ap_journal a = en_id r"
  then show "Some (ap_version a) \<noteq> en_approval_version r" using workflow_okD(6) [OF ok, of r a] e by auto
qed

lemma workflow_step_ok:
  assumes "workflow_step P T T'" and ok: "workflow_ok P {} T"
  shows "workflow_ok P {} T'"
  using assms(1)
proof cases
  case submit
  then show ?thesis using ok by (elim submit_effect) (auto intro: submit_keeps_ok)
next
  case approve
  then show ?thesis using ok by (elim approve_effect) (auto intro: approve_keeps_ok)
next
  case (withdraw env gate c rcmd res)
  then show ?thesis using ok unfolding withdraw_submitted_journal_def
    by (elim recover_effect) (auto dest!: find_entry_Some intro: recover_keeps_ok [where act = WithdrawAction])
next
  case (reject env gate c rcmd res)
  then show ?thesis using ok unfolding reject_submitted_journal_def
    by (elim recover_effect) (auto dest!: find_entry_Some intro: recover_keeps_ok [where act = RejectAction])
next
  case posted
  then show ?thesis using ok by (blast intro: posted_keeps_ok)
next
  case (drafted e)
  then show ?thesis using workflow_ok_add [OF ok] by simp
next
  case (edited e e')
  then show ?thesis by (auto intro!: workflow_ok_put [OF ok])
next
  case (unposted e)
  then show ?thesis by (auto intro!: workflow_ok_put [OF ok])
next
  case elsewhere
  then have "submissions T' = submissions T" by (simp add: submissions_def fun_eq_iff)
  then have "frozen_exactly P T' = frozen_exactly P T" by (simp add: frozen_exactly_def fun_eq_iff)
  with elsewhere have "entry_ok P T' e s = entry_ok P T e s" for e s by (cases s) simp_all
  with ok elsewhere \<open>submissions T' = submissions T\<close> show ?thesis by (simp add: workflow_ok_def)
qed

lemma workflow_history_ok:
  assumes "(workflow_step P)\<^sup>*\<^sup>* T0 T" "empty_workflow T0"
  shows "workflow_ok P {} T"
  using assms
proof (induction rule: rtranclp_induct)
  case base
  then show ?case by (simp add: empty_workflow_def workflow_ok_def submissions_def)
next
  case step
  then show ?case by (blast intro: workflow_step_ok)
qed

section \<open>Replays\<close>

lemma find_append: "List.find p xs = Some x \<Longrightarrow> List.find p (xs @ ys) = Some x"
  by (induction xs) auto

lemma recovery_receipt_prefix:
  "recovery_receipt T org key = Some v \<Longrightarrow> wt_events T' = wt_events T @ vs \<Longrightarrow>
     recovery_receipt T' org key = Some v"
  by (simp add: recovery_receipt_def find_append)

lemma insert_decision_events:
  "insert_decision P c k a T = Inr T' \<Longrightarrow> wt_events T' = wt_events T \<and> wt_entries T' = wt_entries T"
  by (erule insert_decision_Inr) auto

lemma find_None_append: "List.find p xs = None \<Longrightarrow> List.find p (xs @ [x]) = (if p x then Some x else None)"
  by (induction xs) auto

text \<open>Events are only appended, and journals never disappear.\<close>

definition extends :: "workflow_tables \<Rightarrow> workflow_tables \<Rightarrow> bool" where
  "extends T T' \<longleftrightarrow> (\<exists>vs. wt_events T' = wt_events T @ vs)
     \<and> (\<forall>org i. (\<exists>r \<in> set (wt_entries T). en_id r = i \<and> en_organization r = org)
          \<longrightarrow> (\<exists>r \<in> set (wt_entries T'). en_id r = i \<and> en_organization r = org))"

lemma extends_refl [simp]: "extends T T"
  by (simp add: extends_def)

lemma extends_trans: "extends T T' \<Longrightarrow> extends T' T'' \<Longrightarrow> extends T T''"
  by (force simp: extends_def)

lemma extends_put: "extends T (put_entry e T)" and extends_append: "extends T (append_event v T)"
  by (simp_all add: extends_def put_entry_keeps_keys)

lemma extends_update: "update_journal_status P c s e new T = Inr (row, T') \<Longrightarrow> extends T T'"
  unfolding update_journal_status_def
  by (auto simp: monad_simps Let_def intro: extends_put extends_trans [OF extends_put extends_append]
      split: option.splits)

lemma extends_insert: "insert_decision P c k a T = Inr T' \<Longrightarrow> extends T T'"
  using insert_decision_events [of P c k a T T'] by (simp add: extends_def)

lemma extends_recover:
  "recover_submitted_journal P env gate act c0 cmd T = Inr (res, T') \<Longrightarrow> extends T T'"
  by (elim recover_effect) (auto split: if_splits intro: extends_trans extends_update extends_insert)

lemma workflow_step_extends:
  assumes "workflow_step P T T'"
  shows "extends T T'"
  using assms
proof cases
  case submit
  then show ?thesis by (elim submit_effect) (auto intro: extends_update)
next
  case approve
  then show ?thesis by (elim approve_effect) (auto intro: extends_trans extends_update extends_insert)
next
  case withdraw
  then show ?thesis unfolding withdraw_submitted_journal_def by (rule extends_recover)
next
  case reject
  then show ?thesis unfolding reject_submitted_journal_def by (rule extends_recover)
next
  case posted
  then show ?thesis by (blast intro: extends_update)
qed (auto simp: extends_def put_entry_keeps_keys)

lemma workflow_history_extends: "(workflow_step P)\<^sup>*\<^sup>* T T' \<Longrightarrow> extends T T'"
  by (induction rule: rtranclp_induct) (auto intro: extends_trans workflow_step_extends)

lemma begin_tenant_transaction_keeps:
  assumes "begin_tenant_transaction gate c0 = Inr c"
  shows "ctx_organization c = ctx_organization c0 \<and> ctx_actor c = ctx_actor c0 \<and> ctx_session c = ctx_session c0
    \<and> ctx_surface c = ctx_surface c0"
  using assms by (auto simp: begin_tenant_transaction_def validate_tenant_context_def monad_simps Let_def
      split: option.splits if_splits)

text \<open>What a recovery leaves behind.\<close>

lemma recover_leaves_receipt:
  assumes "recover_submitted_journal P env gate act c0 cmd T = Inr (res, T')" "\<not> wr_replay res"
  obtains cmd' v where "parse_recover P cmd = Inr cmd'" "ctx_reason c0 = Some (ac_reason cmd')"
    "recovery_receipt T' (ctx_organization c0) (rc_key cmd') = Some v"
    "ev_journal v = ac_journal cmd'" "ev_actor v = ctx_actor c0" "ev_action v = act"
    "ev_command_hash v = Some (recovery_command_hash P act (ctx_actor c0) cmd')"
    "act \<in> {WithdrawAction, RejectAction}" "uuid_pattern ''4'' (rc_key cmd')"
    "digest_pattern (recovery_command_hash P act (ctx_actor c0) cmd')"
    "\<exists>e \<in> set (wt_entries T'). en_id e = ac_journal cmd' \<and> en_organization e = ctx_organization c0"
  using assms(1)
proof (cases rule: recover_effect)
  case 1
  then show thesis using assms(2) by simp
next
  case (2 c e cmd' rs T1 row)
  note e = find_entry_Some [OF 2(5)] and keeps = begin_tenant_transaction_keeps [OF 2(4)]
    and u = update_recover [OF 2(12) 2(1)]
  define v where "v = \<lparr>ev_organization = en_organization e, ev_journal = en_id e,
        ev_action = rs_action rs, ev_request = ctx_request c, ev_actor = ctx_actor c, ev_hash = or_else (en_content_hash e) [],
        ev_version = or_else (en_approval_version e) 0, ev_key = Some (rs_key rs),
        ev_command_hash = Some (rs_command_hash rs)\<rparr>"
  have T': "T' = append_event v (put_entry row T1)" using u by (simp add: v_def)
  have "recovery_receipt T1 (ctx_organization c0) (rc_key cmd') = None"
    using u e 2(9) by simp
  then have "recovery_receipt T' (ctx_organization c0) (rc_key cmd') = Some v"
    using e u 2(9) by (simp add: T' recovery_receipt_def find_None_append v_def)
  moreover have "\<exists>e \<in> set (wt_entries T'). en_id e = ac_journal cmd' \<and> en_organization e = ctx_organization c0"
    using extends_recover [OF assms(1)] e by (auto simp: extends_def)
  moreover have "act \<in> {WithdrawAction, RejectAction}" "uuid_pattern ''4'' (rc_key cmd')"
    "digest_pattern (recovery_command_hash P act (ctx_actor c0) cmd')"
    using 2(7) by (auto simp: recovery_replayed_def command_simps)
  ultimately show thesis using 2(3,6,10,11) e keeps by (intro that) (auto simp: v_def)
qed

text \<open>
  A recovery that has been done is answered from its receipt, whatever has happened
  since.
\<close>

lemma recovery_answered:
  assumes "recover_submitted_journal P env gate act c0 cmd T = Inr (res, T')" "\<not> wr_replay res"
    and "extends T' T''"
    and "assert_tenant_writes_enabled env' c0 = Inr ()"
    and "begin_workflow env' gate' c0 T'' (action_permission act) = Inr c"
  shows "\<exists>e cmd'. parse_recover P cmd = Inr cmd' \<and> find_entry T'' (ctx_organization c0) (ac_journal cmd') = Some e
    \<and> recover_submitted_journal P env' gate' act c0 cmd T'' = Inr (replay_result e, T'')"
  using assms(1,2)
proof (cases rule: recover_leaves_receipt)
  case (1 cmd' v)
  obtain e where e: "find_entry T'' (ctx_organization c0) (ac_journal cmd') = Some e"
    using assms(3) 1(11) unfolding extends_def find_entry_def
    by (cases "List.find (\<lambda>e. en_organization e = ctx_organization c0 \<and> en_id e = ac_journal cmd') (wt_entries T'')")
      (auto simp: find_None_iff)
  obtain vs where "wt_events T'' = wt_events T' @ vs" using assms(3) by (auto simp: extends_def)
  with 1(3) have v: "recovery_receipt T'' (ctx_organization c0) (rc_key cmd') = Some v"
    by (rule recovery_receipt_prefix)
  have act: "action_permission act = (if act = RejectAction then ApproveJournal else SubmitJournal)"
    using 1(8) by auto
  have c: "ctx_organization c = ctx_organization c0" "ctx_actor c = ctx_actor c0"
    and "actor_has_active_permission (wt_access T'') (ctx_organization c0) (ctx_actor c0) (action_permission act)"
    using assms(5) begin_tenant_transaction_keeps [of gate' c0 c]
    by (auto simp: begin_workflow_def command_simps assert_workflow_permission_def split: sum.splits)
  then have "recovery_replayed T'' c (ac_journal cmd') act (rc_key cmd')
      (recovery_command_hash P act (ctx_actor c0) cmd') = Inr True"
    using 1 e v by (simp add: recovery_replayed_def current_actor_has_permission_def act refuse_if_def throw_if_def)
  then have "recover_submitted_journal P env' gate' act c0 cmd T'' = Inr (replay_result e, T'')"
    using 1(1,2) e assms(4,5)
    by (simp add: recover_submitted_journal_def recover_entry_def act throw_if_def)
  then show ?thesis using 1(1) e by blast
qed

section \<open>What the screens offer is what the commands do\<close>

definition carried_out :: "workflow_error + workflow_result \<times> workflow_tables \<Rightarrow> bool" where
  "carried_out m = (case m of Inl _ \<Rightarrow> False | Inr (res, _) \<Rightarrow> \<not> wr_replay res)"

lemma carried_out_simps [simp]:
  "carried_out (Inl e) = False" "carried_out (Inr r) \<longleftrightarrow> \<not> wr_replay (fst r)"
  by (auto simp: carried_out_def split: prod.splits)

lemma carried_out_bindE: "carried_out (bindE m f) \<longleftrightarrow> (\<exists>x. m = Inr x \<and> carried_out (f x))"
  by (cases m) auto

lemma throw_if_ex [simp]: "(\<exists>u. throw_if b e = Inr u \<and> Q u) \<longleftrightarrow> \<not> b \<and> Q ()"
  by (auto simp: throw_if_def)

lemma refuse_if_Inr [simp]: "refuse_if b e = Inr u \<longleftrightarrow> \<not> b"
  by (simp add: refuse_if_def monad_simps)

lemma fresh_result_replay [simp]: "\<not> wr_replay (fresh_result e)" "wr_replay (replay_result e)"
  by (simp_all add: fresh_result_def replay_result_def)

text \<open>One journal, read back.\<close>

lemma filter_one: "distinct xs \<Longrightarrow> x \<in> set xs \<Longrightarrow> filter (\<lambda>y. y = x) xs = [x]"
  by (induction xs) (auto simp: filter_empty_conv)

lemma find_filter: "List.find Q xs = (case filter Q xs of [] \<Rightarrow> None | x # _ \<Rightarrow> Some x)"
  by (induction xs) auto

lemma entries_of_key:
  assumes ok: "workflow_ok P X T" and e: "e \<in> set (wt_entries T)"
    and Q: "Q e" "\<And>r. Q r \<Longrightarrow> en_id r = en_id e"
  shows "filter Q (wt_entries T) = [e]" "List.find Q (wt_entries T) = Some e"
proof -
  have "distinct (wt_entries T)" using workflow_okD(1) [OF ok] by (simp add: distinct_map)
  then have "\<forall>r \<in> set (wt_entries T). Q r \<longleftrightarrow> r = e"
    using ids_identify [OF ok e] Q by blast
  then have *: "filter Q (wt_entries T) = filter (\<lambda>r. r = e) (wt_entries T)" by (auto intro: filter_cong)
  also have "\<dots> = [e]" using filter_one \<open>distinct (wt_entries T)\<close> e by fast
  finally show "filter Q (wt_entries T) = [e]" .
  then show "List.find Q (wt_entries T) = Some e" by (simp add: find_filter)
qed

lemma all_permissions_complete: "set all_permissions = UNIV"
proof -
  have "p \<in> set all_permissions" for p by (cases p) (simp_all add: all_permissions_def)
  then show ?thesis by blast
qed

lemma facts_of_key:
  assumes ok: "workflow_ok P X T" and e: "e \<in> set (wt_entries T)"
  shows "read_journal_workflow_facts P T (en_organization e) [en_id e]
      = (case entry_facts P T e of None \<Rightarrow> [] | Some f \<Rightarrow> [f])"
    and "find_entry T (en_organization e) (en_id e) = Some e"
  using entries_of_key [OF ok e, of "\<lambda>r. en_organization r = en_organization e \<and> en_id r = en_id e"]
  by (auto simp: read_journal_workflow_facts_def find_entry_def List.map_filter_def split: option.splits)

text \<open>
  What a screen shows for a journal, and what the commands evaluate: the screen knows all
  permissions of the user, a command only the one it has just checked.
\<close>

lemma screen_of_journal:
  assumes ok: "workflow_ok P X T" and "get_journal_workflow_eligibility P env T p [jid] = [(jid, g)]"
  obtains e f where "e \<in> set (wt_entries T)" "en_organization e = pr_organization p" "en_id e = jid"
    "entry_facts P T e = Some f"
    "g = evaluate_journal_workflow f \<lparr>wa_actor = pr_user p, wa_can_write = principal_can_write env p,
       wa_permissions = filter (actor_has_active_permission (wt_access T) (pr_organization p) (pr_user p))
         all_permissions, wa_self_approval = False\<rparr>"
proof -
  obtain f where f: "f \<in> set (read_journal_workflow_facts P T (pr_organization p) [jid])"
    and g: "g = evaluate_journal_workflow f \<lparr>wa_actor = pr_user p, wa_can_write = principal_can_write env p,
       wa_permissions = filter (actor_has_active_permission (wt_access T) (pr_organization p) (pr_user p))
         all_permissions, wa_self_approval = False\<rparr>"
    using assms(2) by (auto simp: get_journal_workflow_eligibility_def Let_def)
  then obtain e where "e \<in> set (wt_entries T)" "en_organization e = pr_organization p" "en_id e = jid"
    "entry_facts P T e = Some f"
    by (auto simp: read_journal_workflow_facts_def List.map_filter_def)
  with g show thesis using that by blast
qed

lemma eligibility_of_command:
  assumes "act \<in> {SubmitAction, ApproveAction, RejectAction, WithdrawAction}"
    and "action_permission act \<in> set perms" and "wa_can_write a" "wa_permissions a = perms"
  shows "action_eligibility f a act = action_eligibility f (a\<lparr>wa_permissions := [action_permission act]\<rparr>) act"
proof -
  have "(action_permission act \<notin> set (wa_permissions a)) = False"
    "(action_permission act \<notin> set [action_permission act]) = False" "(act = PostAction) = False"
    using assms by auto
  moreover have "wa_can_write (a\<lparr>wa_permissions := q\<rparr>) = wa_can_write a" "wa_actor (a\<lparr>wa_permissions := q\<rparr>) = wa_actor a"
    "wa_self_approval (a\<lparr>wa_permissions := q\<rparr>) = wa_self_approval a" "wa_permissions (a\<lparr>wa_permissions := q\<rparr>) = q" for q
    by simp_all
  ultimately show ?thesis by (simp only: action_eligibility_def Let_def simp_thms if_False)
qed

lemma assert_action_of_key:
  assumes ok: "workflow_ok P X T" and e: "e \<in> set (wt_entries T)" "en_organization e = ctx_organization c0"
    and f: "entry_facts P T e = Some f" and "ctx_surface c0 \<noteq> SurfaceMCP"
    and act: "act \<in> {SubmitAction, ApproveAction, RejectAction, WithdrawAction}"
    and a: "wa_actor a = ctx_actor c0" "wa_can_write a" "\<not> wa_self_approval a"
      "action_permission act \<in> set (wa_permissions a)"
  shows "assert_workflow_action P T c0 c (en_id e) act = Inr () \<longleftrightarrow> action_eligibility f a act = None"
proof -
  have "a\<lparr>wa_permissions := [action_permission act]\<rparr> = \<lparr>wa_actor = ctx_actor c0, wa_can_write = True,
      wa_permissions = [if act \<in> {ApproveAction, RejectAction} then ApproveJournal else SubmitJournal],
      wa_self_approval = False\<rparr>"
    using a act by (cases a) auto
  then have "action_eligibility f a act = action_eligibility f \<lparr>wa_actor = ctx_actor c0, wa_can_write = True,
      wa_permissions = [if act \<in> {ApproveAction, RejectAction} then ApproveJournal else SubmitJournal],
      wa_self_approval = False\<rparr> act"
    using eligibility_of_command [OF act a(4) a(2) HOL.refl, of f] by simp
  then show ?thesis
    using facts_of_key(1) [OF ok e(1)] e(2) f assms(5)
    by (simp add: assert_workflow_action_def Let_def evaluate_journal_workflow_def split: option.splits)
qed

lemma eligible_entry:
  assumes "entry_facts P T e = Some f" "action_eligibility f a act = None"
  obtains pd where "find_workflow_period T e = Some pd" "period_admits (per_state pd) (en_purpose e)"
    "en_owner_module e = ''ledger''" "en_type_key e = ''ledger.manual''"
    "(en_organization e, en_id e) \<notin> set (wt_deleted T)" "action_state_ok act (en_status e)"
    "en_status e = JSubmitted \<longrightarrow> en_content_hash e = Some (compute_journal_content_hash P e)"
    "act = RejectAction \<or> act = ApproveAction \<and> \<not> wa_self_approval a \<longrightarrow> en_created_by e \<noteq> Some (wa_actor a)"
    "act = WithdrawAction \<longrightarrow> en_created_by e = Some (wa_actor a)"
    "act \<in> {WithdrawAction, RejectAction} \<longrightarrow> \<not> has_dependencies T e"
proof -
  obtain l pd where l: "find_ledger T e = Some l" "find_workflow_period T e = Some pd"
    using assms(1) by (auto simp: entry_facts_def split: option.splits)
  with assms(1) have f: "wf_status f = en_status e" "wf_content_hash f = en_content_hash e"
    "wf_canonical_hash f = Some (compute_journal_content_hash P e)" "wf_created_by f = en_created_by e"
    "wf_owner_module f = en_owner_module e" "wf_type_key f = en_type_key e" "wf_period_state f = per_state pd"
    "wf_purpose f = en_purpose e" "wf_has_dependencies f = has_dependencies T e"
    "wf_deleted f = ((en_organization e, en_id e) \<in> set (wt_deleted T))"
    by (auto simp: entry_facts_def)
  show thesis
    using assms(2) l(2) unfolding action_eligibility_def Let_def f
    by (intro that [of pd]) (auto split: if_splits)
qed

lemma period_check_passes:
  assumes "find_workflow_period T e = Some pd" "period_admits (per_state pd) (en_purpose e)"
  shows "transition_period_check T e new = Inr ()"
  using assms by (auto simp: transition_period_check_def period_admits_def throw_if_def)

lemma throw_if_False [simp]: "throw_if False e = Inr ()"
  by (simp add: throw_if_def)

lemma update_submit_passes:
  assumes "en_status e = JDraft" "(en_organization e, en_id e) \<notin> set (wt_deleted T)"
    and "current_actor_has_permission T c SubmitJournal" "\<And>new. transition_period_check T e new = Inr ()"
    and "en_organization e = ctx_organization c"
  shows "(\<exists>row T'. update_journal_status P c s e (e\<lparr>en_status := JSubmitted\<rparr>) T = Inr (row, T'))
    \<longleftrightarrow> audit_admits T c SubmitAction (en_id e)"
  using assms by (auto simp: update_defs frozen_transition_check_def Let_def audit_admits_def monad_simps)

lemma update_approve_passes:
  assumes "en_status e = JSubmitted" "(en_organization e, en_id e) \<notin> set (wt_deleted T)"
    and "current_actor_has_permission T c ApproveJournal" "\<And>new. transition_period_check T e new = Inr ()"
    and "en_content_hash e = Some (compute_journal_content_hash P e)" "en_approval_version e = Some v"
    and a: "a \<in> set (wt_approvals T)" "is_approval_of e (Some v) (en_content_hash e) a" "binds_approval e a"
      "ap_actor a = ctx_actor c"
    and "en_created_by e \<noteq> Some (ctx_actor c)"
  shows "\<exists>row T'. update_journal_status P c s e
      (e\<lparr>en_status := JApproved, en_approved_by := Some (ctx_actor c)\<rparr>) T = Inr (row, T')"
proof -
  have "list_ex (is_approval_of e (Some v) (en_content_hash e)) (wt_approvals T)"
    "list_ex (\<lambda>b. binds_approval e b \<and> ap_actor b = ctx_actor c) (wt_approvals T)"
    using a by (auto simp: list_ex_iff)
  then show ?thesis
    using assms by (auto simp: update_defs frozen_transition_check_def Let_def)
qed

lemma update_recover_passes:
  assumes "en_status e = JSubmitted" "(en_organization e, en_id e) \<notin> set (wt_deleted T)"
    and "\<And>new. transition_period_check T e new = Inr ()"
    and "\<And>new. content_of new = content_of e \<Longrightarrow> recovery_check P T c s e new = Inr r"
    and "en_organization e = ctx_organization c"
  shows "(\<exists>row T'. update_journal_status P c s e (e\<lparr>en_status := JDraft\<rparr>) T = Inr (row, T'))
    \<longleftrightarrow> audit_admits T c (rs_action r) (en_id e)"
  using assms by (auto simp: update_defs frozen_transition_check_def Let_def audit_admits_def monad_simps)

lemma insert_decision_passes:
  assumes ok: "workflow_ok P {} T" and e: "e \<in> set (wt_entries T)" "en_status e = JSubmitted"
    and "en_organization e = ctx_organization c0" "ctx_actor c = ctx_actor c0"
    and "current_actor_has_permission T c ApproveJournal" "en_created_by e \<noteq> Some (ctx_actor c0)"
    and v: "en_approval_version e = Some v"
  shows "insert_decision P c k (decision_row c0 e v d r) T
      = Inr (T\<lparr>wt_approvals := wt_approvals T @ [decision_row c0 e v d r]\<rparr>)"
proof -
  have "frozen_exactly P T e" using workflow_okD(2) [OF ok e(1)] e(2) by simp
  then have "v \<ge> 1" "en_content_hash e = Some (compute_journal_content_hash P e)"
    using v by (auto simp: frozen_exactly_def)
  moreover have "\<not> list_ex (\<lambda>b. ap_journal b = en_id e \<and> ap_version b = v \<and> ap_actor b = ctx_actor c0)
      (wt_approvals T)"
    using workflow_okD(6) [OF ok e] v by (auto simp: list_ex_iff)
  moreover have "List.find (\<lambda>x. en_organization x = ctx_organization c0 \<and> en_ledger x = en_ledger e
      \<and> en_id x = en_id e) (wt_entries T) = Some e"
    using entries_of_key(2) [OF ok e(1), of "\<lambda>x. en_organization x = ctx_organization c0
      \<and> en_ledger x = en_ledger e \<and> en_id x = en_id e"] assms(4) by simp
  ultimately show ?thesis using assms
    by (simp add: insert_decision_def Let_def decision_row_def)
qed

text \<open>The situation of a screen and the commands it offers.\<close>

definition on_screen ::
  "workflow_platform \<Rightarrow> workflow_tables \<Rightarrow> tenant_context \<Rightarrow> tenant_context \<Rightarrow> workflow_actor
     \<Rightarrow> workflow_entry \<Rightarrow> workflow_facts \<Rightarrow> bool" where
  "on_screen P T c0 c a e f \<longleftrightarrow>
     workflow_ok P {} T \<and> e \<in> set (wt_entries T) \<and> en_organization e = ctx_organization c0
     \<and> entry_facts P T e = Some f \<and> ctx_surface c0 \<noteq> SurfaceMCP
     \<and> ctx_organization c = ctx_organization c0 \<and> ctx_actor c = ctx_actor c0 \<and> ctx_surface c \<noteq> SurfaceMCP
     \<and> wa_actor a = ctx_actor c0 \<and> wa_can_write a \<and> \<not> wa_self_approval a
     \<and> set (wa_permissions a) = {q. actor_has_active_permission (wt_access T) (ctx_organization c0) (ctx_actor c0) q}"

lemma on_screen_assert:
  assumes "on_screen P T c0 c a e f"
    and "act \<in> {SubmitAction, ApproveAction, RejectAction, WithdrawAction}"
    and "current_actor_has_permission T c (action_permission act)"
  shows "assert_workflow_action P T c0 c (en_id e) act = Inr () \<longleftrightarrow> action_eligibility f a act = None"
  using assms by (intro assert_action_of_key) (auto simp: on_screen_def current_actor_has_permission_def)

lemma on_screen_frozen:
  assumes "on_screen P T c0 c a e f" "en_status e = JSubmitted"
  obtains v where "v \<ge> 1" "en_approval_version e = Some v"
    "en_content_hash e = Some (compute_journal_content_hash P e)"
  using workflow_okD(2) [of P "{}" T e] assms by (auto simp: on_screen_def frozen_exactly_def)

lemma same_hash_refl [simp]: "same_hash (Some h) h"
  by (simp add: same_hash_def)

lemma not_self_approval: "ctx_surface c \<noteq> SurfaceMCP \<Longrightarrow> \<not> mcp_agent_self_approval_allowed T c"
  by (simp add: mcp_agent_self_approval_allowed_def)

lemma submit_as_shown:
  assumes S: "on_screen P T c0 c a e f" and perm: "current_actor_has_permission T c SubmitJournal"
    and h: "sc_expected_hash cmd = Some (compute_journal_content_hash P e)"
  shows "carried_out (submit_entry P c0 c cmd e T)
    \<longleftrightarrow> action_eligibility f a SubmitAction = None \<and> audit_admits T c SubmitAction (en_id e)"
proof (cases "action_eligibility f a SubmitAction = None")
  case True
  then obtain pd where pd: "find_workflow_period T e = Some pd"
    "period_admits (per_state pd) (en_purpose e)" "en_owner_module e = ''ledger''"
    "en_type_key e = ''ledger.manual''" "(en_organization e, en_id e) \<notin> set (wt_deleted T)"
    "en_status e = JDraft"
    using S by (elim eligible_entry [rotated]) (auto simp: on_screen_def action_state_ok_def)
  then have "(\<exists>row T'. update_journal_status P c None e (e\<lparr>en_status := JSubmitted\<rparr>) T = Inr (row, T'))
      \<longleftrightarrow> audit_admits T c SubmitAction (en_id e)"
    using S period_check_passes [of T e pd] perm by (intro update_submit_passes) (auto simp: on_screen_def)
  moreover have "assert_workflow_action P T c0 c (en_id e) SubmitAction = Inr ()"
    using True on_screen_assert [OF S, of SubmitAction] perm by simp
  ultimately show ?thesis
    using True pd by (simp add: submit_entry_def refuse_if_def h carried_out_bindE)
next
  case False
  then have "assert_workflow_action P T c0 c (en_id e) SubmitAction \<noteq> Inr ()"
    using on_screen_assert [OF S, of SubmitAction] perm by simp
  then show ?thesis
    using False by (auto simp: submit_entry_def Let_def carried_out_bindE split: if_splits)
qed

lemma approve_as_shown:
  assumes S: "on_screen P T c0 c a e f" and perm: "current_actor_has_permission T c ApproveJournal"
    and h: "en_status e = JSubmitted \<Longrightarrow> Some (ac_expected_hash cmd) = en_content_hash e
              \<and> Some (ac_expected_version cmd) = en_approval_version e"
    and hash: "compute_journal_content_hash P e \<noteq> []"
  shows "carried_out (approve_entry P c0 c cmd e T) \<longleftrightarrow> action_eligibility f a ApproveAction = None"
proof
  assume el: "action_eligibility f a ApproveAction = None"
  then obtain pd where pd: "find_workflow_period T e = Some pd"
    "period_admits (per_state pd) (en_purpose e)" "(en_organization e, en_id e) \<notin> set (wt_deleted T)"
    and st: "en_status e = JSubmitted" "en_created_by e \<noteq> Some (ctx_actor c0)"
    using S by (elim eligible_entry [rotated]) (auto simp: on_screen_def action_state_ok_def)
  obtain v where v: "v \<ge> 1" "en_approval_version e = Some v"
    "en_content_hash e = Some (compute_journal_content_hash P e)"
    using on_screen_frozen [OF S st(1)] .
  let ?d = "decision_row c0 e v Approved (ac_reason cmd)"
  let ?T = "T\<lparr>wt_approvals := wt_approvals T @ [?d]\<rparr>"
  have "insert_decision P c True ?d T = Inr ?T"
    using S perm st v by (intro insert_decision_passes) (auto simp: on_screen_def)
  moreover have "\<exists>row T'. update_journal_status P c None e
      (e\<lparr>en_status := JApproved, en_approved_by := Some (ctx_actor c)\<rparr>) ?T = Inr (row, T')"
    using S perm st v pd period_check_passes [of ?T e pd]
    by (intro update_approve_passes [where a = ?d])
      (auto simp: on_screen_def current_actor_has_permission_def find_workflow_period_def
        is_approval_of_def binds_approval_def)
  moreover have "assert_workflow_action P T c0 c (en_id e) ApproveAction = Inr ()"
    using el on_screen_assert [OF S, of ApproveAction] perm by simp
  ultimately show "carried_out (approve_entry P c0 c cmd e T)"
    using S st v h hash by (auto simp: approve_entry_def refuse_if_def on_screen_def truthy_def)
next
  assume "carried_out (approve_entry P c0 c cmd e T)"
  then have "assert_workflow_action P T c0 c (en_id e) ApproveAction = Inr ()"
    by (auto simp: approve_entry_def Let_def carried_out_bindE split: if_splits)
  then show "action_eligibility f a ApproveAction = None"
    using on_screen_assert [OF S, of ApproveAction] perm by simp
qed

lemma uuid4_is_uuid: "uuid_pattern ''4'' s \<Longrightarrow> uuid_pattern ''12345'' s"
  by (auto simp: uuid_pattern_def list_all_iff split: if_splits)

lemma recovery_check_passes:
  assumes "act \<in> {WithdrawAction, RejectAction}" "content_of new = content_of e"
    and "en_content_hash e = Some (compute_journal_content_hash P e)" "en_approval_version e = Some v"
    and "ctx_reason c = Some r" "trimmed_text 5 500 r = Some r" "list_all (\<lambda>x. \<not> is_control x) r"
    and "uuid_pattern ''4'' key" "digest_pattern h" "ctx_request c \<noteq> []"
    and "en_type_key e = ''ledger.manual''" "en_owner_module e = ''ledger''" "\<not> has_dependencies T e"
    and "act = WithdrawAction \<longrightarrow> en_created_by e = Some (ctx_actor c)"
    and "act = RejectAction \<longrightarrow> en_created_by e \<noteq> Some (ctx_actor c)
      \<and> (\<exists>a \<in> set (wt_approvals T). ap_organization a = en_organization e \<and> ap_journal a = en_id e
           \<and> ap_version a = v \<and> Some (ap_hash a) = en_content_hash e \<and> ap_decision a = Rejected
           \<and> ap_actor a = ctx_actor c)"
    and "current_actor_has_permission T c (action_permission act)"
    and "recovery_receipt T (en_organization e) key = None"
  shows "recovery_check P T c (Some \<lparr>rs_action = act, rs_hash = compute_journal_content_hash P e,
      rs_version = v, rs_key = key, rs_command_hash = h\<rparr>) e new
    = Inr \<lparr>rs_action = act, rs_hash = compute_journal_content_hash P e,
      rs_version = v, rs_key = key, rs_command_hash = h\<rparr>"
proof -
  have r: "r \<noteq> []" "5 \<le> length (trim r)" "length (trim r) \<le> 500" "\<not> list_ex is_control r"
    using assms(6,7) by (auto simp: trimmed_text_def Let_def list_ex_iff list_all_iff split: if_splits)
  show ?thesis
    using assms(1)
  proof (cases "act = RejectAction")
    case True
    then have "list_ex (\<lambda>a. ap_organization a = en_organization e \<and> ap_journal a = en_id e
        \<and> ap_version a = v \<and> Some (ap_hash a) = en_content_hash e \<and> ap_decision a = Rejected
        \<and> ap_actor a = ctx_actor c) (wt_approvals T)"
      using assms(15) by (auto simp: list_ex_iff)
    then show ?thesis using True assms r
      by (simp add: recovery_check_def truthy_def uuid4_is_uuid)
  next
    case False
    then show ?thesis using assms r
      by (simp add: recovery_check_def truthy_def uuid4_is_uuid)
  qed
qed

lemma recover_as_shown:
  assumes S: "on_screen P T c0 c a e f" and act: "act \<in> {WithdrawAction, RejectAction}"
    and perm: "current_actor_has_permission T c (action_permission act)"
    and h: "en_status e = JSubmitted \<Longrightarrow> Some (ac_expected_hash cmd) = en_content_hash e
              \<and> Some (ac_expected_version cmd) = en_approval_version e"
    and hash: "to_lower (compute_journal_content_hash P e) = compute_journal_content_hash P e"
    and jid: "ac_journal cmd = en_id e"
    and reason: "ctx_reason c = Some r" "trimmed_text 5 500 r = Some r" "list_all (\<lambda>x. \<not> is_control x) r"
    and key: "uuid_pattern ''4'' (rc_key cmd)" "recovery_receipt T (ctx_organization c0) (rc_key cmd) = None"
    and dig: "digest_pattern ch" and request: "ctx_request c \<noteq> []"
  shows "carried_out (recover_entry P act c0 c cmd ch e T)
    \<longleftrightarrow> action_eligibility f a act = None \<and> audit_admits T c act (en_id e)"
proof (cases "action_eligibility f a act = None")
  case el: True
  have "find_entry T (ctx_organization c) (ac_journal cmd) = Some e"
    using S facts_of_key(2) [of P "{}" T e] jid by (auto simp: on_screen_def)
  then have new: "recovery_replayed T c (ac_journal cmd) act (rc_key cmd) ch = Inr False"
    using S act perm key dig by (auto simp: recovery_replayed_def on_screen_def refuse_if_def)
  obtain pd where pd: "find_workflow_period T e = Some pd"
    "period_admits (per_state pd) (en_purpose e)" "(en_organization e, en_id e) \<notin> set (wt_deleted T)"
    and st: "en_status e = JSubmitted" "act = RejectAction \<longrightarrow> en_created_by e \<noteq> Some (ctx_actor c0)"
      "act = WithdrawAction \<longrightarrow> en_created_by e = Some (ctx_actor c0)"
    and manual: "en_type_key e = ''ledger.manual''" "en_owner_module e = ''ledger''" "\<not> has_dependencies T e"
    using el S act by (elim eligible_entry [rotated]) (auto simp: on_screen_def action_state_ok_def)
  obtain v where v: "v \<ge> 1" "en_approval_version e = Some v"
    "en_content_hash e = Some (compute_journal_content_hash P e)"
    using on_screen_frozen [OF S st(1)] .
  let ?d = "decision_row c0 e v Rejected (ac_reason cmd)"
  define T1 where "T1 = (if act = RejectAction then T\<lparr>wt_approvals := wt_approvals T @ [?d]\<rparr> else T)"
  have ins: "(if act = RejectAction then insert_decision P c False ?d T else Inr T) = Inr T1"
    unfolding T1_def
    using S perm st v by (auto simp: on_screen_def intro!: insert_decision_passes)
  have same: "has_dependencies T1 e = has_dependencies T e" "wt_deleted T1 = wt_deleted T"
    "find_workflow_period T1 e = find_workflow_period T e" "recovery_receipt T1 = recovery_receipt T"
    "current_actor_has_permission T1 c = current_actor_has_permission T c"
    by (auto simp: T1_def has_dependencies_def find_workflow_period_def recovery_receipt_def
        current_actor_has_permission_def fun_eq_iff)
  let ?rs = "\<lparr>rs_action = act, rs_hash = compute_journal_content_hash P e, rs_version = v,
      rs_key = rc_key cmd, rs_command_hash = ch\<rparr>"
  have upd: "(\<exists>row T'. update_journal_status P c (Some ?rs) e (e\<lparr>en_status := JDraft\<rparr>) T1 = Inr (row, T'))
      \<longleftrightarrow> audit_admits T1 c (rs_action ?rs) (en_id e)"
  proof (rule update_recover_passes)
    show "recovery_check P T1 c (Some ?rs) e new = Inr ?rs" if "content_of new = content_of e" for new
      using that S act perm st v manual reason key dig request same
      by (intro recovery_check_passes) (auto simp: T1_def on_screen_def)
  qed (use S st pd same period_check_passes [of T1 e pd] in \<open>auto simp: on_screen_def\<close>)
  have "assert_workflow_action P T c0 c (en_id e) act = Inr ()"
    using el act on_screen_assert [OF S, of act] perm by auto
  then have "recover_entry P act c0 c cmd ch e T
      = bindE (update_journal_status P c (Some ?rs) e (e\<lparr>en_status := JDraft\<rparr>) T1)
          (\<lambda>(row, T2). Inr (fresh_result row, T2))"
    using new st(1) v h hash ins by (cases "act = RejectAction") (simp_all add: recover_entry_def refuse_if_def)
  moreover have "audit_admits T1 = audit_admits T"
    by (simp add: T1_def audit_admits_def fun_eq_iff)
  ultimately show ?thesis using el upd by (simp add: carried_out_bindE)
next
  case False
  then have "assert_workflow_action P T c0 c (en_id e) act \<noteq> Inr ()"
    using act on_screen_assert [OF S, of act] perm by auto
  moreover have "assert_workflow_action P T c0 c (en_id e) act = Inr ()"
    if "carried_out (recover_entry P act c0 c cmd ch e T)"
    using that by (auto simp: recover_entry_def Let_def carried_out_bindE split: if_splits)
  ultimately show ?thesis using False by blast
qed

lemma lower_hex_lower [simp]: "lower_hex x \<Longrightarrow> lower_char x = x"
  by (auto simp: lower_hex_def lower_char_def is_digit_def char_between_def is_upper_def)

lemma digest_pattern_facts:
  assumes "digest_pattern s"
  shows "content_hash_pattern s" "to_lower s = s" "s \<noteq> []"
  using assms
  by (auto simp: digest_pattern_def content_hash_pattern_def lower_hex_def list_all_iff to_lower_def
      intro!: map_idI lower_hex_lower)

lemma begin_workflow_iff:
  assumes "begin_tenant_transaction gate c0 = Inr c" "is_ok (assert_writable_organization env (wt_access T) c0)"
    and "ctx_organization c = ctx_organization c0" "ctx_actor c = ctx_actor c0"
  shows "begin_workflow env gate c0 T q = Inr c' \<longleftrightarrow> c' = c \<and> current_actor_has_permission T c q"
  using assms by (auto simp: begin_workflow_def assert_workflow_permission_def current_actor_has_permission_def
      assert_actor_has_active_permission_def throw_if_def monad_simps split: sum.splits)

text \<open>What a screen stands for: the facts of its journal, evaluated for its user.\<close>

lemma screen_situation:
  assumes ok: "workflow_ok P {} T" and shown: "get_journal_workflow_eligibility P env T p [jid] = [(jid, g)]"
    and c0: "ctx_organization c0 = pr_organization p" "ctx_actor c0 = pr_user p" "ctx_surface c0 \<noteq> SurfaceMCP"
    and "principal_can_write env p" and c: "begin_tenant_transaction gate c0 = Inr c"
  obtains e f a where "on_screen P T c0 c a e f" "en_id e = jid" "eg_actions g = action_eligibility f a"
    "find_entry T (ctx_organization c0) jid = Some e"
    "eg_content_hash g = Some (compute_journal_content_hash P e)"
    "eg_approval_version g = en_approval_version e"
proof -
  let ?a = "\<lparr>wa_actor = pr_user p, wa_can_write = principal_can_write env p,
       wa_permissions = filter (actor_has_active_permission (wt_access T) (pr_organization p) (pr_user p))
         all_permissions, wa_self_approval = False\<rparr>"
  obtain e f where e: "e \<in> set (wt_entries T)" "en_organization e = pr_organization p" "en_id e = jid"
    and f: "entry_facts P T e = Some f" and g: "g = evaluate_journal_workflow f ?a"
    using screen_of_journal [OF ok shown] .
  have "on_screen P T c0 c ?a e f"
    using ok e f assms(6) c0 begin_tenant_transaction_keeps [OF c]
    by (auto simp: on_screen_def all_permissions_complete)
  moreover have "find_entry T (ctx_organization c0) jid = Some e"
    using facts_of_key(2) [OF ok e(1)] e c0 by simp
  moreover have "wf_content_hash f = en_content_hash e" "wf_status f = en_status e"
    "wf_canonical_hash f = Some (compute_journal_content_hash P e)" "wf_approval_version f = en_approval_version e"
    using f by (auto simp: entry_facts_def split: option.splits)
  moreover have "en_content_hash e = Some (compute_journal_content_hash P e)"
    if "en_status e \<in> {JSubmitted, JApproved}"
    using workflow_okD(2) [OF ok e(1)] that by (auto simp: frozen_exactly_def)
  ultimately show thesis using that [of ?a e f] e(3) g by (simp add: evaluate_journal_workflow_def)
qed

lemma no_permission_no_action:
  assumes "on_screen P T c0 c a e f" "\<not> current_actor_has_permission T c (action_permission act)"
  shows "action_eligibility f a act \<noteq> None"
  using assms by (auto simp: on_screen_def current_actor_has_permission_def action_eligibility_def Let_def)

lemma begun_transaction:
  assumes "begin_tenant_transaction gate c0 = Inr c" "ctx_reason c0 = Some r" "trimmed_text 5 500 r = Some r"
  shows "ctx_reason c = Some r \<and> ctx_request c \<noteq> []"
proof -
  have "ctx_request c \<noteq> []"
    using assms(1) by (auto simp: begin_tenant_transaction_def validate_tenant_context_def trimmed_text_def
        monad_simps Let_def split: option.splits if_splits)
  then show ?thesis
    using assms validate_tenant_context_Inr [of "tg_uuid gate" c0 c] by (auto simp: monad_simps trimmed_text_def Let_def split: if_splits)
qed

lemma filter_sorted_one:
  assumes "sorted_wrt (<) (map (ev_version :: workflow_event \<Rightarrow> int) xs)" "x \<in> set xs"
  shows "filter (\<lambda>v. ev_version v = ev_version x) xs = [x]"
  using assms by (induction xs) (auto simp: filter_empty_conv)

lemma state_of_eligible:
  assumes "on_screen P T c0 c a e f" "action_eligibility f a act = None"
  shows "action_state_ok act (en_status e)"
proof -
  have "entry_facts P T e = Some f" using assms(1) by (simp add: on_screen_def)
  then show ?thesis using assms(2) by (rule eligible_entry)
qed

section \<open>An example\<close>

definition example_workflow_platform :: workflow_platform where
  "example_workflow_platform = \<lparr>wp_hash = (\<lambda>e. replicate 64 (if en_other e = [] then CHR ''a'' else CHR ''b'')),
     wp_digest = (\<lambda>t. replicate 64 CHR ''c''), wp_uuid = (\<lambda>s. length s = 36),
     wp_uuid4 = (\<lambda>s. uuid_pattern ''4'' (to_lower s))\<rparr>"

definition example_journal_id :: string where
  "example_journal_id = ''00000000-0000-4000-8000-00000000000a''"

definition example_key :: string where
  "example_key = ''00000000-0000-4000-8000-00000000000b''"

definition example_draft :: workflow_entry where
  "example_draft = \<lparr>en_id = example_journal_id, en_organization = example_org, en_ledger = ''l'', en_entity = ''n'',
     en_period = ''p'', en_owner_module = ''ledger'', en_type_key = ''ledger.manual'',
     en_source_document = None, en_purpose = Routine, en_date = 20000, en_other = ''rent'',
     en_created_by = Some example_user,
     en_lines = [\<lparr>el_combination = ''k'', el_debit = 5, el_credit = 0, el_party = False,
                  el_subledger_event = False, el_tax_snapshot = False, el_other = []\<rparr>,
                 \<lparr>el_combination = ''k'', el_debit = 0, el_credit = 5, el_party = False,
                  el_subledger_event = False, el_tax_snapshot = False, el_other = []\<rparr>],
     en_status = JDraft, en_content_hash = None, en_approval_version = None, en_approved_by = None\<rparr>"

definition example_empty_workflow :: workflow_tables where
  "example_empty_workflow = \<lparr>wt_entries = [], wt_approvals = [], wt_events = [],
     wt_ledgers = [\<lparr>le_id = ''l'', le_organization = example_org, le_active = True, le_auto_post = None\<rparr>],
     wt_periods = [\<lparr>per_id = ''p'', per_organization = example_org, per_state = PeriodOpen, per_version = 1\<rparr>],
     wt_combinations = [\<lparr>cb_id = ''k'', cb_organization = example_org, cb_entity = ''n'', cb_active = True,
       cb_account_active = True, cb_account_postable = True, cb_valid_from = 0, cb_valid_to = None\<rparr>],
     wt_deleted = [], wt_related = [], wt_matched = [], wt_self_approval = [], wt_connections = [],
     wt_access = example_tables\<lparr>memberships := memberships example_tables @
         [\<lparr>mem_id = ''m2'', mem_organization = example_org, mem_user = example_colleague, mem_active = True\<rparr>],
       membership_roles := membership_roles example_tables @
         [\<lparr>mr_organization = example_org, mr_membership = ''m2'', mr_role = ''r''\<rparr>],
       role_permissions := map (\<lambda>q. \<lparr>rp_organization = example_org, rp_role = ''r'', rp_key = permission_key q\<rparr>)
         [SubmitJournal, ApproveJournal]\<rparr>\<rparr>"


definition example_drafted :: workflow_tables where
  "example_drafted = example_empty_workflow\<lparr>wt_entries := [example_draft]\<rparr>"

definition example_submit ::
  "string \<Rightarrow> workflow_tables \<Rightarrow> workflow_error + workflow_result \<times> workflow_tables" where
  "example_submit request = submit_journal_for_approval example_workflow_platform example_environment example_gate
     (example_context\<lparr>ctx_request := request\<rparr>) \<lparr>sc_journal = example_journal_id, sc_expected_hash = None\<rparr>"

definition example_frozen :: "int \<Rightarrow> workflow_entry" where
  "example_frozen v = example_draft\<lparr>en_status := JSubmitted,
     en_content_hash := Some (replicate 64 CHR ''b''), en_approval_version := Some v\<rparr>"

definition example_event :: "string \<Rightarrow> workflow_action \<Rightarrow> int \<Rightarrow> workflow_event" where
  "example_event request act v = \<lparr>ev_organization = example_org, ev_journal = example_journal_id, ev_action = act,
     ev_request = request, ev_actor = example_user, ev_hash = replicate 64 CHR ''b'', ev_version = v,
     ev_key = (if act = SubmitAction then None else Some example_key),
     ev_command_hash = (if act = SubmitAction then None else Some (replicate 64 CHR ''c''))\<rparr>"

definition example_submitted :: workflow_tables where
  "example_submitted = example_empty_workflow\<lparr>wt_entries := [example_frozen 1],
     wt_events := [example_event ''req-1'' SubmitAction 1]\<rparr>"

definition example_approve_command :: approve_command where
  "example_approve_command = \<lparr>ac_journal = example_journal_id, ac_expected_hash = replicate 64 CHR ''b'',
     ac_expected_version = 1, ac_reason = ''month end''\<rparr>"

definition example_approver :: tenant_context where
  "example_approver = example_context\<lparr>ctx_actor := example_colleague\<rparr>"

definition example_approve :: "workflow_tables \<Rightarrow> workflow_error + workflow_result \<times> workflow_tables" where
  "example_approve = approve_submitted_journal example_workflow_platform example_environment example_gate
     example_approver example_approve_command"

definition example_approved :: workflow_tables where
  "example_approved = example_submitted\<lparr>
     wt_entries := [(example_frozen 1)\<lparr>en_status := JApproved, en_approved_by := Some example_colleague\<rparr>],
     wt_approvals := [decision_row example_approver (example_frozen 1) 1 Approved ''month end'']\<rparr>"

definition example_recover_command :: recover_command where
  "example_recover_command = \<lparr>ac_journal = example_journal_id, ac_expected_hash = replicate 64 CHR ''b'',
     ac_expected_version = 1, ac_reason = ''month end'', rc_key = example_key\<rparr>"

definition example_withdraw :: "workflow_tables \<Rightarrow> workflow_error + workflow_result \<times> workflow_tables" where
  "example_withdraw = recover_submitted_journal example_workflow_platform example_environment example_gate
     WithdrawAction example_context example_recover_command"

definition example_withdrawn :: workflow_tables where
  "example_withdrawn = example_empty_workflow\<lparr>wt_entries := [example_draft],
     wt_events := [example_event ''req-1'' SubmitAction 1, example_event ''req-1'' WithdrawAction 1]\<rparr>"

definition example_resubmitted :: workflow_tables where
  "example_resubmitted = example_withdrawn\<lparr>wt_entries := [example_frozen 2],
     wt_events := wt_events example_withdrawn @ [example_event ''req-2'' SubmitAction 2]\<rparr>"

lemma example_steps:
  "example_submit ''req-1'' example_drafted = Inr (fresh_result (example_frozen 1), example_submitted)"
  "example_approve example_submitted
     = Inr (fresh_result (hd (wt_entries example_approved)), example_approved)"
  "example_withdraw example_submitted = Inr (fresh_result example_draft, example_withdrawn)"
  "example_submit ''req-2'' example_withdrawn = Inr (fresh_result (example_frozen 2), example_resubmitted)"
  subgoal by code_simp
  subgoal by code_simp
  subgoal by code_simp
  subgoal by code_simp
  done

text \<open>Under the request of the first submission the resubmission is refused.\<close>

lemma example_request_reused:
  "example_submit ''req-1'' example_withdrawn = Inl (WorkflowRejected AuditDuplicate)"
  by code_simp

lemma example_history:
  "(workflow_step example_workflow_platform)\<^sup>*\<^sup>* example_empty_workflow example_submitted"
  "workflow_step example_workflow_platform example_submitted example_approved"
  "workflow_step example_workflow_platform example_withdrawn example_resubmitted"
proof -
  have "workflow_step example_workflow_platform example_empty_workflow
      (example_empty_workflow\<lparr>wt_entries := wt_entries example_empty_workflow @ [example_draft]\<rparr>)"
    by (rule workflow_step.drafted) code_simp+
  then have "workflow_step example_workflow_platform example_empty_workflow example_drafted"
    by (simp add: example_drafted_def example_empty_workflow_def)
  moreover have "workflow_step example_workflow_platform example_drafted example_submitted"
    using example_steps(1) unfolding example_submit_def by (rule workflow_step.submit)
  ultimately show "(workflow_step example_workflow_platform)\<^sup>*\<^sup>* example_empty_workflow example_submitted"
    by (meson converse_rtranclp_into_rtranclp r_into_rtranclp)
  show "workflow_step example_workflow_platform example_submitted example_approved"
    using example_steps(2) unfolding example_approve_def by (rule workflow_step.approve)
  show "workflow_step example_workflow_platform example_withdrawn example_resubmitted"
    using example_steps(4) unfolding example_submit_def by (rule workflow_step.submit)
qed

section \<open>Properties\<close>

text \<open>
  C36. Segregation of duties.  Whatever has happened to the tables since they were empty,
  every approved journal, and every posted journal that went through an approval, has an
  approval of exactly its version, bound to the hash of the content it has now, given by
  someone other than its creator or through a recorded agent connection; exactly one
  submission ever had that version, and it froze that same content.
\<close>

theorem approvals_are_independent_and_exact:
  assumes "(workflow_step P)\<^sup>*\<^sup>* T0 T" "empty_workflow T0" and "e \<in> set (wt_entries T)"
    and "en_status e = JApproved \<or> en_status e = JPosted \<and> en_approval_version e \<noteq> None"
  shows "\<exists>a \<in> set (wt_approvals T). ap_journal a = en_id e \<and> ap_organization a = en_organization e
    \<and> ap_decision a = Approved \<and> en_approval_version e = Some (ap_version a)
    \<and> ap_hash a = compute_journal_content_hash P e
    \<and> (en_created_by e = Some (ap_actor a) \<longrightarrow> ap_self_connection a \<noteq> None)
    \<and> (\<exists>ev. filter (\<lambda>v. ev_version v = ap_version a) (submissions T (en_organization e) (en_id e)) = [ev]
          \<and> ev_hash ev = ap_hash a)"
proof -
  note ok = workflow_history_ok [OF assms(1,2)]
  have "en_content_hash e = Some (compute_journal_content_hash P e)"
    "\<exists>a \<in> set (wt_approvals T). binds_approval e a"
    using workflow_okD(2) [OF ok assms(3)] assms(4) by (auto simp: frozen_exactly_def)
  then obtain a where a: "a \<in> set (wt_approvals T)" "binds_approval e a"
    "ap_hash a = compute_journal_content_hash P e"
    by (auto simp: binds_approval_def)
  then obtain ev where ev: "ev \<in> set (submissions T (en_organization e) (en_id e))"
    "ev_version ev = ap_version a" "ev_hash ev = ap_hash a"
    using workflow_okD(4) [OF ok a(1)] by (auto simp: binds_approval_def)
  have "filter (\<lambda>v. ev_version v = ap_version a) (submissions T (en_organization e) (en_id e)) = [ev]"
    using filter_sorted_one [OF workflow_okD(5) [OF ok] ev(1)] ev(2) by simp
  then show ?thesis using a ev(3) by (intro bexI [of _ a]) (auto simp: binds_approval_def)
qed

theorem approvals_are_independent_and_exact_witness:
  "\<exists>a \<in> set (wt_approvals example_approved). ap_journal a = en_id (hd (wt_entries example_approved))
    \<and> ap_organization a = en_organization (hd (wt_entries example_approved))
    \<and> ap_decision a = Approved \<and> en_approval_version (hd (wt_entries example_approved)) = Some (ap_version a)
    \<and> ap_hash a = compute_journal_content_hash example_workflow_platform (hd (wt_entries example_approved))
    \<and> (en_created_by (hd (wt_entries example_approved)) = Some (ap_actor a) \<longrightarrow> ap_self_connection a \<noteq> None)
    \<and> (\<exists>ev. filter (\<lambda>v. ev_version v = ap_version a) (submissions example_approved
            (en_organization (hd (wt_entries example_approved))) (en_id (hd (wt_entries example_approved)))) = [ev]
          \<and> ev_hash ev = ap_hash a)"
  by (rule approvals_are_independent_and_exact
      [OF rtranclp.rtrancl_into_rtrancl [OF example_history(1,2)], of "hd (wt_entries example_approved)"])
    (simp_all add: empty_workflow_def example_empty_workflow_def example_approved_def)

text \<open>
  C37. Recoveries run once.  When a withdrawal or rejection has been carried out, sending
  the same command again, after any further history and under whatever gates then let it
  begin, is answered as a replay with the journal's current state and changes nothing: a
  newer submission is never withdrawn or rejected by an old command.
\<close>

theorem recovery_runs_once:
  assumes "recover_submitted_journal P env gate act c0 cmd T = Inr (res, T')" "\<not> wr_replay res"
    and "(workflow_step P)\<^sup>*\<^sup>* T' T''"
    and "assert_tenant_writes_enabled env' c0 = Inr ()"
    and "begin_workflow env' gate' c0 T'' (action_permission act) = Inr c"
  shows "\<exists>e. find_entry T'' (ctx_organization c0) (to_lower (ac_journal cmd)) = Some e
    \<and> recover_submitted_journal P env' gate' act c0 cmd T'' = Inr (replay_result e, T'')"
proof -
  have "ac_journal cmd' = to_lower (ac_journal cmd)" if "parse_recover P cmd = Inr cmd'" for cmd'
    using that by (auto simp: parse_recover_def parse_approve_def monad_simps split: option.splits)
  then show ?thesis
    using recovery_answered [OF assms(1,2) workflow_history_extends [OF assms(3)] assms(4,5)] by auto
qed

theorem recovery_runs_once_witness:
  "\<exists>e. find_entry example_resubmitted (ctx_organization example_context)
      (to_lower (ac_journal example_recover_command)) = Some e
    \<and> recover_submitted_journal example_workflow_platform example_environment example_gate WithdrawAction
        example_context example_recover_command example_resubmitted = Inr (replay_result e, example_resubmitted)"
proof (rule recovery_runs_once)
  show "recover_submitted_journal example_workflow_platform example_environment example_gate WithdrawAction
      example_context example_recover_command example_submitted
    = Inr (fresh_result example_draft, example_withdrawn)"
    using example_steps(3) by (simp add: example_withdraw_def)
  show "(workflow_step example_workflow_platform)\<^sup>*\<^sup>* example_withdrawn example_resubmitted"
    using example_history(3) by blast
  show "begin_workflow example_environment example_gate example_context example_resubmitted
      (action_permission WithdrawAction) = Inr example_context"
    by code_simp
qed (code_simp+)

text \<open>
  C38. Screens and commands agree.  For a user in the interface whose writes are enabled,
  the command built from what the screen shows (content hash and version, with a reason
  of printable text and, for a recovery, an unused key) is carried out exactly when the
  screen offers its action and, for the three actions that write an audit event, the
  request identifier has no line break and has not been audited for that action on that
  journal before.  An approval writes no audit event and needs no fresh request.  The
  hash functions are SHA-256 in hexadecimal.
\<close>

theorem screens_and_commands_agree:
  assumes "(workflow_step P)\<^sup>*\<^sup>* T0 T" "empty_workflow T0"
    and "get_journal_workflow_eligibility P env T p [jid] = [(jid, g)]"
    and "ctx_organization c0 = pr_organization p" "ctx_actor c0 = pr_user p" "ctx_surface c0 \<noteq> SurfaceMCP"
    and "principal_can_write env p" "assert_tenant_writes_enabled env c0 = Inr ()"
    and "begin_tenant_transaction gate c0 = Inr c"
    and "is_ok (assert_writable_organization env (wt_access T) c0)"
    and "ctx_reason c0 = Some r" "trimmed_text 5 500 r = Some r" "list_all (\<lambda>x. \<not> is_control x) r"
    and "wp_uuid P jid" "to_lower jid = jid" "wp_uuid4 P key" "uuid_pattern ''4'' (to_lower key)"
    and "recovery_receipt T (pr_organization p) (to_lower key) = None"
    and "\<forall>x. digest_pattern (wp_hash P x)" "\<forall>t. digest_pattern (wp_digest P t)"
    and "scmd = \<lparr>sc_journal = jid, sc_expected_hash = eg_content_hash g\<rparr>"
    and "acmd = \<lparr>ac_journal = jid, ac_expected_hash = or_else (eg_content_hash g) [],
      ac_expected_version = or_else (eg_approval_version g) 1, ac_reason = r\<rparr>"
    and "rcmd = \<lparr>ac_journal = jid, ac_expected_hash = or_else (eg_content_hash g) [],
      ac_expected_version = or_else (eg_approval_version g) 1, ac_reason = r, rc_key = key\<rparr>"
  shows "carried_out (submit_journal_for_approval P env gate c0 scmd T)
      = (eg_actions g SubmitAction = None \<and> audit_admits T c SubmitAction jid)
    \<and> carried_out (approve_submitted_journal P env gate c0 acmd T) = (eg_actions g ApproveAction = None)
    \<and> carried_out (withdraw_submitted_journal P env gate c0 rcmd T)
      = (eg_actions g WithdrawAction = None \<and> audit_admits T c WithdrawAction jid)
    \<and> carried_out (reject_submitted_journal P env gate c0 rcmd T)
      = (eg_actions g RejectAction = None \<and> audit_admits T c RejectAction jid)"
proof -
  obtain e f a where S: "on_screen P T c0 c a e f" and jid: "en_id e = jid"
    and find: "find_entry T (ctx_organization c0) jid = Some e"
    and g: "eg_actions g = action_eligibility f a" "eg_content_hash g = Some (compute_journal_content_hash P e)"
      "eg_approval_version g = en_approval_version e"
    using screen_situation [OF workflow_history_ok [OF assms(1,2)] assms(3-7,9)] .
  note digest = digest_pattern_facts [of "compute_journal_content_hash P e"]
    and begun = begin_tenant_transaction_keeps [OF assms(9)] begun_transaction [OF assms(9,11,12)]
  have hash: "digest_pattern (compute_journal_content_hash P e)"
    using assms(19) by (simp only: compute_journal_content_hash_def)
  have version: "0 < or_else (en_approval_version e) 1" "Some (or_else (en_approval_version e) 1) = en_approval_version e"
    if "en_status e = JSubmitted" by (rule on_screen_frozen [OF S that]; simp)+
  have shown: "en_content_hash e = Some (compute_journal_content_hash P e)" if "en_status e = JSubmitted"
    by (rule on_screen_frozen [OF S that]) simp
  have perm: "begin_workflow env gate c0 T q = Inr c' \<longleftrightarrow> c' = c \<and> current_actor_has_permission T c q" for q c'
    using begun by (intro begin_workflow_iff [OF assms(9,10)]) auto
  have submit: "carried_out (submit_journal_for_approval P env gate c0 scmd T)
      \<longleftrightarrow> action_eligibility f a SubmitAction = None \<and> audit_admits T c SubmitAction (en_id e)"
  proof -
    have "carried_out (submit_journal_for_approval P env gate c0 scmd T)
      \<longleftrightarrow> current_actor_has_permission T c SubmitJournal \<and> carried_out (submit_entry P c0 c scmd e T)"
      using assms(8,14,15) hash digest find perm
      by (auto simp: submit_journal_for_approval_def carried_out_bindE parse_submit_def assms(21) g)
    moreover have "carried_out (submit_entry P c0 c scmd e T)
        \<longleftrightarrow> action_eligibility f a SubmitAction = None \<and> audit_admits T c SubmitAction (en_id e)"
      if "current_actor_has_permission T c SubmitJournal"
      by (rule submit_as_shown [OF S that]) (simp add: assms(21) g)
    moreover have "current_actor_has_permission T c SubmitJournal" if "action_eligibility f a SubmitAction = None"
      using no_permission_no_action [OF S, of SubmitAction] that by fastforce
    ultimately show ?thesis by blast
  qed
  have approve: "carried_out (approve_submitted_journal P env gate c0 acmd T)
      \<longleftrightarrow> action_eligibility f a ApproveAction = None"
  proof -
    have "carried_out (approve_submitted_journal P env gate c0 acmd T)
      \<longleftrightarrow> 0 < or_else (en_approval_version e) 1 \<and> current_actor_has_permission T c ApproveJournal
        \<and> carried_out (approve_entry P c0 c acmd e T)"
      using assms(8,11,12,14,15) hash digest find perm
      by (auto simp: approve_submitted_journal_def carried_out_bindE parse_approve_def monad_simps assms(22) g)
    moreover have "carried_out (approve_entry P c0 c acmd e T) \<longleftrightarrow> action_eligibility f a ApproveAction = None"
      if "current_actor_has_permission T c ApproveJournal"
      using version shown digest hash
      by (intro approve_as_shown [OF S that]) (simp_all add: assms(22) g)
    moreover have "0 < or_else (en_approval_version e) 1" if "action_eligibility f a ApproveAction = None"
      using state_of_eligible [OF S that] version by (simp add: action_state_ok_def)
    moreover have "current_actor_has_permission T c ApproveJournal" if "action_eligibility f a ApproveAction = None"
      using no_permission_no_action [OF S, of ApproveAction] that by fastforce
    ultimately show ?thesis by blast
  qed
  have recover: "carried_out (recover_submitted_journal P env gate act c0 rcmd T)
      \<longleftrightarrow> action_eligibility f a act = None \<and> audit_admits T c act (en_id e)" if act: "act \<in> {WithdrawAction, RejectAction}" for act
  proof -
    let ?c = "rcmd\<lparr>rc_key := to_lower key\<rparr>"
    let ?h = "recovery_command_hash P act (ctx_actor c0) ?c"
    have "digest_pattern ?h" using assms(20) by (simp add: recovery_command_hash_def)
    have "carried_out (recover_submitted_journal P env gate act c0 rcmd T)
      \<longleftrightarrow> 0 < or_else (en_approval_version e) 1 \<and> current_actor_has_permission T c (action_permission act)
        \<and> carried_out (recover_entry P act c0 c ?c ?h e T)"
      using assms(8,11,12,14,15,16) act hash digest find perm
      by (auto simp: recover_submitted_journal_def carried_out_bindE parse_recover_def parse_approve_def monad_simps assms(23) g)
    moreover have "carried_out (recover_entry P act c0 c ?c ?h e T)
        \<longleftrightarrow> action_eligibility f a act = None \<and> audit_admits T c act (en_id e)"
      if "current_actor_has_permission T c (action_permission act)"
    proof (rule recover_as_shown [OF S act that])
      show "Some (ac_expected_hash ?c) = en_content_hash e \<and> Some (ac_expected_version ?c) = en_approval_version e"
        if "en_status e = JSubmitted" using version [OF that] shown [OF that] by (simp add: assms(23) g)
    qed (use digest hash jid begun assms(4,11-13,17,18) \<open>digest_pattern ?h\<close> in \<open>simp_all add: assms(23)\<close>)
    moreover have "0 < or_else (en_approval_version e) 1" if "action_eligibility f a act = None"
      using state_of_eligible [OF S that] act version by (auto simp: action_state_ok_def)
    ultimately show ?thesis using no_permission_no_action [OF S, of act] by blast
  qed
  show ?thesis
    using submit approve recover [of WithdrawAction] recover [of RejectAction] g(1) jid
    by (simp add: withdraw_submitted_journal_def reject_submitted_journal_def)
qed

definition example_reviewer :: session_principal where
  "example_reviewer = \<lparr>pr_session = example_session, pr_user = example_colleague, pr_organization = example_org,
     pr_mode = RealSession, pr_oidc = False, pr_step_up_expires_at = None, pr_mcp_connection = None,
     pr_organization_writes_enabled = Some True\<rparr>"

definition example_screen :: workflow_eligibility where
  "example_screen = snd (hd (get_journal_workflow_eligibility example_workflow_platform example_environment
     example_submitted example_reviewer [example_journal_id]))"

lemma example_screen_shown:
  "get_journal_workflow_eligibility example_workflow_platform example_environment example_submitted
     example_reviewer [example_journal_id] = [(example_journal_id, example_screen)]"
proof -
  have "map fst (get_journal_workflow_eligibility example_workflow_platform example_environment
      example_submitted example_reviewer [example_journal_id]) = [example_journal_id]"
    by code_simp
  then show ?thesis by (auto simp: example_screen_def)
qed

theorem screens_and_commands_agree_witness:
  "carried_out (submit_journal_for_approval example_workflow_platform example_environment example_gate
        example_approver \<lparr>sc_journal = example_journal_id, sc_expected_hash = eg_content_hash example_screen\<rparr>
        example_submitted) = (eg_actions example_screen SubmitAction = None
          \<and> audit_admits example_submitted example_approver SubmitAction example_journal_id)
    \<and> carried_out (approve_submitted_journal example_workflow_platform example_environment example_gate
        example_approver \<lparr>ac_journal = example_journal_id,
          ac_expected_hash = or_else (eg_content_hash example_screen) [],
          ac_expected_version = or_else (eg_approval_version example_screen) 1, ac_reason = ''month end''\<rparr>
        example_submitted) = (eg_actions example_screen ApproveAction = None)
    \<and> carried_out (withdraw_submitted_journal example_workflow_platform example_environment example_gate
        example_approver \<lparr>ac_journal = example_journal_id,
          ac_expected_hash = or_else (eg_content_hash example_screen) [],
          ac_expected_version = or_else (eg_approval_version example_screen) 1, ac_reason = ''month end'',
          rc_key = example_key\<rparr> example_submitted) = (eg_actions example_screen WithdrawAction = None
            \<and> audit_admits example_submitted example_approver WithdrawAction example_journal_id)
    \<and> carried_out (reject_submitted_journal example_workflow_platform example_environment example_gate
        example_approver \<lparr>ac_journal = example_journal_id,
          ac_expected_hash = or_else (eg_content_hash example_screen) [],
          ac_expected_version = or_else (eg_approval_version example_screen) 1, ac_reason = ''month end'',
          rc_key = example_key\<rparr> example_submitted) = (eg_actions example_screen RejectAction = None
            \<and> audit_admits example_submitted example_approver RejectAction example_journal_id)"
proof (rule screens_and_commands_agree
    [OF example_history(1) _ example_screen_shown, where key = example_key and r = "''month end''"])
  show "empty_workflow example_empty_workflow" by code_simp
  show "begin_tenant_transaction example_gate example_approver = Inr example_approver" by code_simp
  have "digest_pattern (replicate 64 CHR ''a'')" "digest_pattern (replicate 64 CHR ''b'')"
    "digest_pattern (replicate 64 CHR ''c'')" by code_simp+
  then show "\<forall>x. digest_pattern (wp_hash example_workflow_platform x)"
    "\<forall>t. digest_pattern (wp_digest example_workflow_platform t)"
    unfolding example_workflow_platform_def by simp_all
qed (rule HOL.refl | code_simp)+

end
