(* ===== verification/Calendar.thy ===== *)
theory Calendar
  imports DecimalApi
begin

text \<open>
  The dates the program computes with: a \<open>Date\<close> of the language at midnight UTC, as the
  number of days since the first of January of the year 0, and the functions of the
  standard library on it: \<open>Date.UTC\<close>, \<open>getUTCFullYear\<close>, \<open>getUTCMonth\<close>, the reading of
  an ISO date text and \<open>toISOString\<close>.  \<open>Date.UTC\<close> takes a year from 0 to 99 to be in the
  twentieth century, as the standard says.  The lemmas are about months: a month is its
  number since the year 0, and every day lies in exactly one.
\<close>

section \<open>Definitions\<close>

definition leap_day :: "int \<Rightarrow> int" where
  "leap_day y = (if y mod 4 = 0 \<and> (y mod 100 \<noteq> 0 \<or> y mod 400 = 0) then 1 else 0)"

definition days_before_year :: "int \<Rightarrow> int" where
  "days_before_year y = 365 * y + (y + 3) div 4 - (y + 99) div 100 + (y + 399) div 400"

text \<open>The days of a year before its month \<open>m\<close> (January is 0), for a year with \<open>l\<close> leap days.\<close>

definition days_before_month :: "int \<Rightarrow> int \<Rightarrow> int" where
  "days_before_month l m =
     (if m \<le> 0 then 0 else if m = 1 then 31 else l + (
      if m = 2 then 59 else if m = 3 then 90 else if m = 4 then 120 else if m = 5 then 151
      else if m = 6 then 181 else if m = 7 then 212 else if m = 8 then 243 else if m = 9 then 273
      else if m = 10 then 304 else if m = 11 then 334 else 365))"

text \<open>The first day of the month number \<open>n\<close>.\<close>

definition month_start :: "int \<Rightarrow> int" where
  "month_start n = days_before_year (n div 12) + days_before_month (leap_day (n div 12)) (n mod 12)"

definition full_year :: "int \<Rightarrow> int" where
  "full_year d =
     (let y = (400 * d) div 146097
      in if days_before_year (y + 1) \<le> d then y + 1 else if d < days_before_year y then y - 1 else y)"

definition month_of_year_day :: "int \<Rightarrow> int \<Rightarrow> int" where
  "month_of_year_day l k =
     (if k < 31 then 0 else if k < l + 59 then 1 else if k < l + 90 then 2 else if k < l + 120 then 3
      else if k < l + 151 then 4 else if k < l + 181 then 5 else if k < l + 212 then 6
      else if k < l + 243 then 7 else if k < l + 273 then 8 else if k < l + 304 then 9
      else if k < l + 334 then 10 else 11)"

definition month_of :: "int \<Rightarrow> int" where
  "month_of d = month_of_year_day (leap_day (full_year d)) (d - days_before_year (full_year d))"

definition day_of_month :: "int \<Rightarrow> int" where
  "day_of_month d = d - month_start (12 * full_year d + month_of d) + 1"

definition date_utc :: "int \<Rightarrow> int \<Rightarrow> int \<Rightarrow> int" where
  "date_utc y m d = month_start (12 * (if 0 \<le> y \<and> y \<le> 99 then 1900 + y else y) + m) + d - 1"

text \<open>\<open>month_index d\<close> is the number of the month of \<open>d\<close>.\<close>

definition month_index :: "int \<Rightarrow> int" where
  "month_index d = 12 * full_year d + month_of d"

definition digit_char :: "nat \<Rightarrow> char" where
  "digit_char n = char_of (48 + n)"

fun padded :: "nat \<Rightarrow> nat \<Rightarrow> string" where
  "padded 0 n = []"
| "padded (Suc w) n = padded w (n div 10) @ [digit_char (n mod 10)]"

text \<open>The part of \<open>toISOString()\<close> before the time, for a year that is not negative.\<close>

definition iso_date :: "int \<Rightarrow> string" where
  "iso_date d =
     (let y = nat (full_year d)
      in (if y \<le> 9999 then padded 4 y else ''+'' @ padded 6 y)
         @ ''-'' @ padded 2 (nat (month_of d + 1)) @ ''-'' @ padded 2 (nat (day_of_month d)))"

text \<open>
  \<open>new Date(text + "T00:00:00.000Z")\<close> for a text \<open>YYYY-MM-DD\<close>, and for the text
  \<open>+YYYYYY-MM\<close> that \<open>toISOString().slice(0, 10)\<close> makes of a year above 9999.  The result
  is \<open>None\<close> for a date that is not in the calendar; other formats do not pass
  \<open>z.iso.date\<close> and are taken as invalid.
\<close>

definition parse_number :: "nat \<Rightarrow> string \<Rightarrow> int option" where
  "parse_number w s = (if length s = w \<and> list_all is_digit s then Some (digits_value s) else None)"

definition date_of :: "int \<Rightarrow> int \<Rightarrow> int \<Rightarrow> int option" where
  "date_of y m d =
     (if 1 \<le> m \<and> m \<le> 12 \<and> 1 \<le> d \<and> d \<le> month_start (12 * y + m) - month_start (12 * y + m - 1)
      then Some (month_start (12 * y + m - 1) + d - 1) else None)"

definition parse_date :: "string \<Rightarrow> int option" where
  "parse_date s =
     (if starts_with ''+'' s then
        (case (parse_number 6 (take 6 (drop 1 s)), drop 7 s) of
           (Some y, c # m) \<Rightarrow>
             (if c = CHR ''-'' then
                (case parse_number 2 m of Some k \<Rightarrow> date_of y k 1 | None \<Rightarrow> None)
              else None)
         | _ \<Rightarrow> None)
      else if length s = 10 \<and> s ! 4 = CHR ''-'' \<and> s ! 7 = CHR ''-'' then
        (case (parse_number 4 (take 4 s), parse_number 2 (take 2 (drop 5 s)), parse_number 2 (drop 8 s)) of
           (Some y, Some m, Some d) \<Rightarrow> date_of y m d
         | _ \<Rightarrow> None)
      else None)"

section \<open>Years\<close>

lemma leap_day_range: "0 \<le> leap_day y" "leap_day y \<le> 1"
  by (simp_all add: leap_day_def)

lemma div_bounds:
  fixes x n :: int
  assumes "0 < n" shows "n * (x div n) \<le> x" "x < n * (x div n) + n"
  using mult_div_mod_eq [of n x] pos_mod_sign [OF assms, of x] pos_mod_bound [OF assms, of x]
  by linarith+

lemma div_unique:
  fixes x n q :: int
  assumes "n * q \<le> x" "x < n * q + n" shows "x div n = q"
proof (rule int_div_pos_eq)
  show "x = n * q + (x - n * q)" by simp
qed (use assms in auto)

lemma div_round_up_Suc:
  fixes y n m :: int
  assumes "0 < n" "m = n - 1"
  shows "(y + 1 + m) div n = (y + m) div n + (if y mod n = 0 then 1 else 0)"
proof -
  define q r where "q = y div n" and "r = y mod n"
  have y: "y = n * q + r" and r: "0 \<le> r" "r < n" using assms by (simp_all add: q_def r_def)
  have n: "n * (q + 1) = n * q + n" by (simp add: distrib_left)
  have 1: "(y + 1 + m) div n = q + 1" using assms by (simp add: q_def)
  have "(y + m) div n = (if r = 0 then q else q + 1)"
    using y r n assms(2) by (intro div_unique) auto
  then have "(y + m) div n = q + (if y mod n = 0 then 0 else 1)" by (simp add: r_def)
  then show ?thesis using 1 by simp
qed

lemma int_strict_mono:
  fixes f :: "int \<Rightarrow> int"
  assumes "\<And>n. f n < f (n + 1)" "x < y" shows "f x < f y"
  using assms(2)
proof (induction y rule: int_gr_induct)
  case (step i)
  then show ?case using assms(1) [of i] by linarith
qed (rule assms(1))

lemma days_before_year_Suc: "days_before_year (y + 1) = days_before_year y + 365 + leap_day y"
proof -
  have 4: "(y + 1 + 3) div 4 = (y + 3) div 4 + (if y mod 4 = 0 then 1 else 0)"
    and 100: "(y + 1 + 99) div 100 = (y + 99) div 100 + (if y mod 100 = 0 then 1 else 0)"
    and 400: "(y + 1 + 399) div 400 = (y + 399) div 400 + (if y mod 400 = 0 then 1 else 0)"
    by (rule div_round_up_Suc; simp)+
  have dvd: "y mod 400 = 0 \<Longrightarrow> y mod 100 = 0" "y mod 100 = 0 \<Longrightarrow> y mod 4 = 0"
    unfolding mod_eq_0_iff_dvd by (rule dvd_trans [of 100 400 y], simp_all, rule dvd_trans [of 4 100 y], simp_all)
  have "(R \<Longrightarrow> Q) \<Longrightarrow> (Q \<Longrightarrow> P) \<Longrightarrow> (if P \<and> (\<not> Q \<or> R) then 1 else 0)
      = (if P then 1 else 0) - (if Q then 1 else 0) + (if R then 1 else 0 :: int)" for P Q R
    by auto
  from this [OF dvd] have "leap_day y = (if y mod 4 = 0 then 1 else 0) - (if y mod 100 = 0 then 1 else 0)
      + (if y mod 400 = 0 then 1 else 0)"
    by (simp only: leap_day_def)
  then show ?thesis
    unfolding days_before_year_def 4 100 400 by (simp only:) (simp split del: if_split)
qed

lemma days_before_year_mono: "x < y \<Longrightarrow> days_before_year x < days_before_year y"
proof (erule int_strict_mono [rotated])
  show "days_before_year n < days_before_year (n + 1)" for n
    using leap_day_range [of n] by (simp add: days_before_year_Suc)
qed

lemma days_before_year_approx:
  "146097 * y - 396 \<le> 400 * days_before_year y" "400 * days_before_year y \<le> 146097 * y + 699"
proof -
  let ?a = "(y + 3) div 4" and ?b = "(y + 99) div 100" and ?c = "(y + 399) div 400"
  have a: "100 * y \<le> 400 * ?a" "400 * ?a \<le> 100 * y + 300"
    and b: "4 * y \<le> 400 * ?b" "400 * ?b \<le> 4 * y + 396"
    and c: "y \<le> 400 * ?c" "400 * ?c \<le> y + 399"
    using div_bounds [of 4 "y + 3"] div_bounds [of 100 "y + 99"] div_bounds [of 400 "y + 399"]
    by simp_all
  have d: "400 * days_before_year y = 146000 * y + 400 * ?a - 400 * ?b + 400 * ?c"
    by (simp add: days_before_year_def algebra_simps)
  show "146097 * y - 396 \<le> 400 * days_before_year y" "400 * days_before_year y \<le> 146097 * y + 699"
    unfolding d using a b c by linarith+
qed

text \<open>\<open>getUTCFullYear\<close> is the year the day lies in.\<close>

lemma full_year_unique:
  assumes "days_before_year y \<le> d" "d < days_before_year (y + 1)" shows "full_year d = y"
proof -
  let ?q = "(400 * d) div 146097"
  note q = div_bounds [of 146097 "400 * d"]
  have "400 * days_before_year y \<le> 400 * d" using assms(1) by simp
  then have "146097 * (y - 1) \<le> 400 * d"
    using days_before_year_approx(1) [of y] by (simp add: algebra_simps)
  then have 1: "146097 * (y - 1) < 146097 * (?q + 1)" using q(2) by (simp add: algebra_simps)
  have "400 * d < 400 * days_before_year (y + 1)" using assms(2) by simp
  then have "400 * d < 146097 * (y + 2)"
    using days_before_year_approx(2) [of "y + 1"] by (simp add: algebra_simps)
  then have 2: "146097 * ?q < 146097 * (y + 2)" using q(1) by (simp add: algebra_simps)
  have "y - 1 < ?q + 1" "?q < y + 2"
    using 1 2 by (simp_all only: mult_less_cancel_left_pos zero_less_numeral)
  then consider "?q = y - 1" | "?q = y" | "?q = y + 1" by linarith
  then show ?thesis
  proof cases
    case 3
    have "d < days_before_year (y + 1 + 1)"
      using assms(2) days_before_year_mono [of "y + 1" "y + 1 + 1"] by simp
    then show ?thesis using 3 assms(2) by (simp add: full_year_def)
  qed (use assms in \<open>auto simp: full_year_def Let_def\<close>)
qed

lemma full_year_bounds: "days_before_year (full_year d) \<le> d" "d < days_before_year (full_year d + 1)"
proof -
  let ?q = "(400 * d) div 146097"
  have q: "146097 * ?q \<le> 400 * d" "400 * d < 146097 * ?q + 146097"
    using div_bounds [of 146097 "400 * d"] by simp_all
  have "400 * days_before_year (?q - 1) \<le> 400 * d"
    using q(1) days_before_year_approx(2) [of "?q - 1"] by (simp add: algebra_simps)
  then have lo: "days_before_year (?q - 1) \<le> d" by simp
  have "400 * d < 400 * days_before_year (?q + 2)"
    using q(2) days_before_year_approx(1) [of "?q + 2"] by (simp add: algebra_simps)
  then have hi: "d < days_before_year (?q + 2)" by simp
  consider "days_before_year (?q + 1) \<le> d" | "d < days_before_year (?q + 1)" "d < days_before_year ?q"
    | "d < days_before_year (?q + 1)" "days_before_year ?q \<le> d" by linarith
  then have "days_before_year (full_year d) \<le> d \<and> d < days_before_year (full_year d + 1)"
    by cases (use lo hi in \<open>simp_all add: full_year_def add.assoc\<close>)
  then show "days_before_year (full_year d) \<le> d" "d < days_before_year (full_year d + 1)" by simp_all
qed

section \<open>Months\<close>

lemma days_before_month_step:
  assumes "0 \<le> m" "m < 12" "0 \<le> l" "l \<le> 1"
  shows "days_before_month l m < days_before_month l (m + 1)"
    and "days_before_month l (m + 1) - days_before_month l m \<le> 31"
proof -
  have "m \<in> set [0..11]" using assms by simp
  moreover have "[0..11] = [0, 1, 2, 3, 4, 5, 6, 7, 8, 9, 10, 11 :: int]" by (simp add: upto.simps)
  ultimately have "m = 0 \<or> m = 1 \<or> m = 2 \<or> m = 3 \<or> m = 4 \<or> m = 5 \<or> m = 6 \<or> m = 7 \<or> m = 8
      \<or> m = 9 \<or> m = 10 \<or> m = 11" by simp
  then show "days_before_month l m < days_before_month l (m + 1)"
    "days_before_month l (m + 1) - days_before_month l m \<le> 31"
    using assms(3,4) by (elim disjE, simp_all add: days_before_month_def)+
qed

lemma days_before_month_12: "days_before_month l 12 = l + 365"
  by (simp add: days_before_month_def)

lemma month_start_Suc:
  "month_start (n + 1) = days_before_year (n div 12) + days_before_month (leap_day (n div 12)) (n mod 12 + 1)"
proof (cases "n mod 12 = 11")
  case True
  then have n: "(n + 1) div 12 = n div 12 + 1" "(n + 1) mod 12 = 0"
  proof -
    have n: "n + 1 = 12 * (n div 12 + 1)" using True mult_div_mod_eq [of 12 n] by simp
    show "(n + 1) div 12 = n div 12 + 1" "(n + 1) mod 12 = 0" by (subst n, simp)+
  qed
  show ?thesis unfolding month_start_def n True
    by (simp add: days_before_year_Suc days_before_month_def)
next
  case False
  have n: "n = 12 * (n div 12) + n mod 12" "0 \<le> n mod 12" "n mod 12 < 12" by simp_all
  have d: "(n + 1) div 12 = n div 12"
    by (rule div_unique) (use n False in linarith)+
  moreover have "(n + 1) mod 12 = n mod 12 + 1"
    using n(1) mult_div_mod_eq [of 12 "n + 1"] unfolding d by linarith
  ultimately show ?thesis by (simp add: month_start_def)
qed

lemma month_start_less_Suc: "month_start n < month_start (n + 1)"
  using days_before_month_step(1) [OF _ _ leap_day_range, of "n mod 12" "n div 12"]
  unfolding month_start_Suc by (simp add: month_start_def)

lemma month_start_mono: "m < n \<Longrightarrow> month_start m < month_start n"
  by (erule int_strict_mono [rotated]) (rule month_start_less_Suc)

lemma month_start_le: "m \<le> n \<Longrightarrow> month_start m \<le> month_start n"
  using month_start_mono [of m n] by (cases "m = n") auto

lemma month_start_less_iff [simp]: "month_start m < month_start n \<longleftrightarrow> m < n"
  using month_start_mono [of m n] month_start_le [of n m] by (cases "m < n") auto

lemma month_of_year_day_range: "0 \<le> month_of_year_day l k \<and> month_of_year_day l k < 12"
  by (simp add: month_of_year_day_def)

lemma month_of_year_day_bounds:
  assumes "0 \<le> l" "l \<le> 1" "0 \<le> k" "k < 365 + l"
  shows "days_before_month l (month_of_year_day l k) \<le> k
    \<and> k < days_before_month l (month_of_year_day l k + 1)"
  unfolding month_of_year_day_def
  by (intro conjI; (split if_split; intro conjI impI)+; use assms in \<open>simp add: days_before_month_def\<close>)

lemma month_of_range: "0 \<le> month_of d" "month_of d < 12"
  using month_of_year_day_range by (auto simp: month_of_def)

lemma month_index_div [simp]: "month_index d div 12 = full_year d" "month_index d mod 12 = month_of d"
  unfolding month_index_def using month_of_range [of d] by simp_all

text \<open>Every day lies in the month of its number.\<close>

lemma month_index_bounds: "month_start (month_index d) \<le> d" "d < month_start (month_index d + 1)"
proof -
  let ?y = "full_year d" and ?k = "d - days_before_year (full_year d)"
  have k: "0 \<le> ?k" "?k < 365 + leap_day ?y"
    using full_year_bounds [of d] by (simp_all add: days_before_year_Suc)
  note b = month_of_year_day_bounds [OF leap_day_range [of ?y] k]
  show "month_start (month_index d) \<le> d" "d < month_start (month_index d + 1)"
    using b unfolding month_start_Suc by (simp_all add: month_start_def month_of_def)
qed

lemma month_index_unique:
  assumes "month_start n \<le> d" "d < month_start (n + 1)" shows "month_index d = n"
proof -
  have "month_start n < month_start (month_index d + 1)" "month_start (month_index d) < month_start (n + 1)"
    using assms month_index_bounds [of d] by linarith+
  then show ?thesis by simp
qed

lemma month_index_start [simp]: "month_index (month_start n) = n"
  by (rule month_index_unique) (simp_all add: month_start_less_Suc)

lemma month_index_mono: "d \<le> e \<Longrightarrow> month_index d \<le> month_index e"
proof (rule ccontr)
  assume *: "d \<le> e" "\<not> month_index d \<le> month_index e"
  then have "month_start (month_index e + 1) \<le> month_start (month_index d)" by (intro month_start_le) simp
  then show False using * month_index_bounds [of d] month_index_bounds [of e] by linarith
qed

lemma date_utc_month: "y < 0 \<or> 99 < y \<Longrightarrow> date_utc y m d = month_start (12 * y + m) + d - 1"
  by (auto simp: date_utc_def)

section \<open>Texts of dates\<close>

lemma digits_value_snoc: "digits_value (s @ [c]) = 10 * digits_value s + digit_value c"
  by (simp add: digits_value_def)

lemma length_padded [simp]: "length (padded w n) = w"
  by (induction w arbitrary: n) auto

lemma digit_char_value: "n < 10 \<Longrightarrow> is_digit (digit_char n) \<and> digit_value (digit_char n) = int n"
  by (auto simp: digit_char_def is_digit_def char_between_def digit_value_def)

lemma padded_digits: "list_all is_digit (padded w n)"
  by (induction w arbitrary: n) (auto simp: digit_char_value)

lemma digits_value_padded: "n < 10 ^ w \<Longrightarrow> digits_value (padded w n) = int n"
proof (induction w arbitrary: n)
  case (Suc w)
  have "n div 10 < 10 ^ w" using Suc.prems by (simp add: less_mult_imp_div_less mult.commute)
  then have "digits_value (padded (Suc w) n) = 10 * int (n div 10) + int (n mod 10)"
    using Suc.IH by (simp add: digits_value_snoc digit_char_value)
  then show ?case using mult_div_mod_eq [of 10 "int n"] by (simp only: zdiv_int zmod_int of_nat_numeral)
qed (simp add: digits_value_def)

lemma parse_number_padded: "n < 10 ^ w \<Longrightarrow> parse_number w (padded w n) = Some (int n)"
  by (simp add: parse_number_def padded_digits digits_value_padded)

lemma date_of_parts: "date_of (full_year d) (month_of d + 1) (day_of_month d) = Some d"
proof -
  have i: "12 * full_year d + (month_of d + 1) = month_index d + 1" by (simp add: month_index_def)
  then show ?thesis
    unfolding date_of_def i using month_of_range [of d] month_index_bounds [of d]
    by (simp add: day_of_month_def flip: month_index_def)
qed

lemma month_length: "month_start (n + 1) - month_start n \<le> 31"
  using days_before_month_step(2) [OF _ _ leap_day_range, of "n mod 12" "n div 12"]
  unfolding month_start_Suc by (simp add: month_start_def)

lemma day_of_month_range: "1 \<le> day_of_month d" "day_of_month d \<le> 31"
  using month_index_bounds [of d] month_length [of "month_index d"]
  by (simp_all add: day_of_month_def flip: month_index_def)

text \<open>A date survives being written and read.\<close>

lemma parse_iso_date:
  assumes "0 \<le> full_year d" "full_year d \<le> 9999" shows "parse_date (iso_date d) = Some d"
proof -
  let ?y = "padded 4 (nat (full_year d))" and ?m = "padded 2 (nat (month_of d + 1))"
    and ?d = "padded 2 (nat (day_of_month d))"
  have t: "iso_date d = ?y @ ''-'' @ ?m @ ''-'' @ ?d"
    using assms nat_le_iff [of "full_year d" 9999] by (simp add: iso_date_def Let_def del: padded.simps)
  have n: "parse_number 4 ?y = Some (full_year d)" "parse_number 2 ?m = Some (month_of d + 1)"
    "parse_number 2 ?d = Some (day_of_month d)"
    using assms month_of_range [of d] day_of_month_range [of d] by (simp_all add: parse_number_padded)
  obtain c cs where y: "?y = c # cs" "length cs = 3" by (cases ?y) (auto simp del: padded.simps dest: arg_cong [of _ _ length])
  have "is_digit c" using padded_digits [of 4 "nat (full_year d)"] y by simp
  then have "\<not> starts_with ''+'' (iso_date d)"
    unfolding t y(1) by (auto simp: starts_with_def is_digit_def char_between_def)
  moreover have "iso_date d ! 4 = CHR ''-''" "iso_date d ! 7 = CHR ''-''" "length (iso_date d) = 10"
    "take 4 (iso_date d) = ?y" "take 2 (drop 5 (iso_date d)) = ?m" "drop 8 (iso_date d) = ?d"
    unfolding t by (simp_all add: nth_append del: padded.simps)
  ultimately show ?thesis
    unfolding parse_date_def by (simp add: n date_of_parts del: padded.simps)
qed

lemma take_iso_date:
  assumes "0 \<le> full_year d" "full_year d \<le> 9999" shows "take 10 (iso_date d) = iso_date d"
proof -
  have "length (iso_date d) = 10" using assms by (simp add: iso_date_def Let_def del: padded.simps)
  then show ?thesis by simp
qed

end
