(* ===== verification/AssetSchedule.thy ===== *)
theory AssetSchedule
  imports Calendar Money
begin

text \<open>
  The depreciation and amortization schedules of \<open>assets/model.ts\<close>: the months an asset
  is recognised over and the amount of each.  The loop over months is a function with a
  termination proof.  The lemmas say that the months tile the life of the asset and that
  the amounts add up to its depreciable basis.
\<close>

section \<open>Definitions\<close>

datatype asset_kind = Tangible | Intangible | Prepaid

datatype asset_classification = FiniteLife | IndefiniteLife

datatype asset_error =
    OnlyIntangibleIndefinite
  | NoScheduleEnd
  | BasisNotPositive
  | BadDecimal
  | InvalidDate
  | ScheduleMoney money_error

record schedule_input =
  si_kind :: asset_kind
  si_classification :: asset_classification
  si_in_service :: string
  si_end :: "string option"
  si_life :: "int option"
  si_cost :: string
  si_residual :: string
  si_currency :: string

record schedule_line =
  sl_sequence :: nat
  sl_start :: string
  sl_end :: string
  sl_due :: string
  sl_amount :: string

text \<open>The helpers on dates, for a valid date; \<open>isoDate\<close> cuts the text after ten characters.\<close>

definition iso_text :: "int \<Rightarrow> string" where
  "iso_text d = take 10 (iso_date d)"

definition days_inclusive :: "int \<Rightarrow> int \<Rightarrow> int" where
  "days_inclusive s e = (e - s) + 1"

definition end_of_month :: "int \<Rightarrow> int" where
  "end_of_month d = date_utc (full_year d) (month_of d + 1) 0"

definition add_months :: "int \<Rightarrow> int \<Rightarrow> int" where
  "add_months d months = date_utc (full_year d) (month_of d + months) 1"

text \<open>An invalid date propagates to \<open>toISOString\<close>, which throws.\<close>

definition finite_schedule_end :: "string \<Rightarrow> int \<Rightarrow> asset_error + string" where
  "finite_schedule_end start_on life =
     bindE (option_to_result InvalidDate (parse_date start_on)) (\<lambda>s.
     Inr (iso_text (add_months s life - 1)))"

text \<open>
  The end date of the schedule: \<open>None\<close> where the expression is not truthy, \<open>Some None\<close> for
  an invalid date.
\<close>

definition schedule_end :: "schedule_input \<Rightarrow> asset_error + int option option" where
  "schedule_end i =
     (if si_kind i = Prepaid
      then Inr (if truthy (si_end i) then Some (parse_date (the (si_end i))) else None)
      else case si_life i of
        None \<Rightarrow> Inr None
      | Some life \<Rightarrow>
          if life = 0 then Inr None
          else bindE (finite_schedule_end (si_in_service i) life) (\<lambda>t. Inr (Some (parse_date t))))"

text \<open>Comparing with an invalid date is false.\<close>

definition date_before :: "int option \<Rightarrow> int option \<Rightarrow> bool" where
  "date_before a b = (case (a, b) of (Some x, Some y) \<Rightarrow> x < y | _ \<Rightarrow> False)"

record 'd asset_period =
  pd_start :: int
  pd_end :: int
  pd_weight :: 'd

lemma add_months_later: "d < add_months d 1"
proof -
  have "month_index d + 1 \<le> 12 * (if 0 \<le> full_year d \<and> full_year d \<le> 99 then 1900 + full_year d
      else full_year d) + (month_of d + 1)"
    by (simp add: month_index_def)
  from month_start_le [OF this] show ?thesis
    using month_index_bounds(2) [of d] by (simp add: add_months_def date_utc_def)
qed

lemma add_months_step: "1 + (d - add_months d 1) \<le> 0"
  using add_months_later [of d] by simp

function asset_periods ::
  "'d decimal_api \<Rightarrow> asset_kind \<Rightarrow> int \<Rightarrow> int \<Rightarrow> int \<Rightarrow> 'd asset_period list" where
  "asset_periods D kind days fin cursor =
     (if cursor \<le> fin then
        let period_end = (if end_of_month cursor < fin then end_of_month cursor else fin);
            weight = (if kind = Prepaid
              then dec_div D (dec_int D (days_inclusive cursor period_end)) (dec_int D days)
              else dec_int D 1)
        in \<lparr>pd_start = cursor, pd_end = period_end, pd_weight = weight\<rparr>
             # asset_periods D kind days fin (add_months cursor 1)
      else [])"
  by pat_completeness auto
termination
  by (relation "measure (\<lambda>(D, kind, total, fin, cursor). nat (fin + 1 - cursor))")
    (auto simp: add_months_later add_months_step)

declare asset_periods.simps [simp del]

text \<open>The amount of the period at an index, of \<open>n\<close> periods, when \<open>allocated\<close> went before.\<close>

definition period_amount ::
  "'d decimal_api \<Rightarrow> schedule_input \<Rightarrow> 'd \<Rightarrow> nat \<Rightarrow> nat \<Rightarrow> 'd \<Rightarrow> 'd asset_period \<Rightarrow> asset_error + 'd" where
  "period_amount D i depreciable n index allocated p =
     (if index = n - 1 then Inr (dec_minus D depreciable allocated)
      else map_errorE ScheduleMoney (quantize_money D (DecIn
        (if si_kind i = Prepaid then dec_times D depreciable (pd_weight p)
         else dec_div D depreciable (dec_int D (int n)))) (si_currency i)))"

fun schedule_lines ::
  "'d decimal_api \<Rightarrow> schedule_input \<Rightarrow> 'd \<Rightarrow> nat \<Rightarrow> nat \<Rightarrow> 'd \<Rightarrow> 'd asset_period list
     \<Rightarrow> asset_error + schedule_line list" where
  "schedule_lines D i depreciable n index allocated [] = Inr []"
| "schedule_lines D i depreciable n index allocated (p # ps) =
     bindE (period_amount D i depreciable n index allocated p) (\<lambda>amount.
     bindE (map_errorE ScheduleMoney (minor_units (si_currency i))) (\<lambda>k.
     bindE (schedule_lines D i depreciable n (index + 1) (dec_plus D allocated amount) ps) (\<lambda>ls.
     Inr (\<lparr>sl_sequence = index + 1, sl_start = iso_text (pd_start p), sl_end = iso_text (pd_end p),
       sl_due = iso_text (pd_end p), sl_amount = dec_fixed D k amount\<rparr> # ls))))"

definition calculate_asset_schedule ::
  "'d decimal_api \<Rightarrow> schedule_input \<Rightarrow> asset_error + schedule_line list" where
  "calculate_asset_schedule D i =
     (if si_classification i = IndefiniteLife then
        (if si_kind i \<noteq> Intangible then Inl OnlyIntangibleIndefinite else Inr [])
      else
        let start = parse_date (si_in_service i) in
        bindE (schedule_end i) (\<lambda>fin.
        case fin of None \<Rightarrow> Inl NoScheduleEnd | Some e \<Rightarrow>
          bindE (throw_if (date_before e start) NoScheduleEnd) (\<lambda>_.
          bindE (option_to_result BadDecimal (dec_new D (si_cost i))) (\<lambda>cost.
          bindE (option_to_result BadDecimal (dec_new D (si_residual i))) (\<lambda>residual.
          let depreciable = dec_minus D cost residual in
          bindE (throw_if (\<not> dec_gt D depreciable (dec_int D 0)) BasisNotPositive) (\<lambda>_.
          case (start, e) of
            (Some s, Some t) \<Rightarrow>
              let periods = asset_periods D (si_kind i) (days_inclusive s t) t s
              in schedule_lines D i depreciable (length periods) 0 (dec_int D 0) periods
          | _ \<Rightarrow> Inr []))))))"

section \<open>The months of a schedule\<close>

lemma add_months_year: "100 \<le> full_year d \<Longrightarrow> add_months d k = month_start (month_index d + k)"
  by (simp add: add_months_def date_utc_def month_index_def add.assoc)

lemma end_of_month_year: "100 \<le> full_year d \<Longrightarrow> end_of_month d = month_start (month_index d + 1) - 1"
  by (simp add: end_of_month_def date_utc_def month_index_def add.assoc)

lemma full_year_mono: "d \<le> e \<Longrightarrow> full_year d \<le> full_year e"
  using month_index_mono [of d e] zdiv_mono1 [of "month_index d" "month_index e" 12] by simp

text \<open>
  \<open>months_tile s t ps\<close>: the periods \<open>ps\<close> follow each other from the day \<open>s\<close> to the day \<open>t\<close>,
  each within one month.
\<close>

fun months_tile :: "int \<Rightarrow> int \<Rightarrow> (int \<times> int) list \<Rightarrow> bool" where
  "months_tile s t [] \<longleftrightarrow> s = t + 1"
| "months_tile s t ((a, b) # ps) \<longleftrightarrow>
     a = s \<and> a \<le> b \<and> month_index a = month_index b \<and> months_tile (b + 1) t ps"

definition period_days :: "'d asset_period \<Rightarrow> int \<times> int" where
  "period_days p = (pd_start p, pd_end p)"

lemma period_days_simps [simp]: "period_days \<lparr>pd_start = a, pd_end = b, pd_weight = w\<rparr> = (a, b)"
  by (simp add: period_days_def)

lemma end_of_month_same:
  assumes "100 \<le> full_year d"
  shows "d \<le> end_of_month d" "month_index (end_of_month d) = month_index d"
    "end_of_month d + 1 = add_months d 1"
proof -
  note e = end_of_month_year [OF assms]
  show "d \<le> end_of_month d" using month_index_bounds(2) [of d] by (simp add: e)
  show "month_index (end_of_month d) = month_index d"
    using month_index_bounds [of d] by (intro month_index_unique) (simp_all add: e)
  show "end_of_month d + 1 = add_months d 1" by (simp add: e add_months_year [OF assms])
qed

lemma month_index_add_months:
  "100 \<le> full_year d \<Longrightarrow> month_index (add_months d k) = month_index d + k"
  by (simp add: add_months_year)

lemma asset_periods_tile:
  "cursor \<le> fin \<Longrightarrow> 100 \<le> full_year cursor \<Longrightarrow>
     months_tile cursor fin (map period_days (asset_periods D kind days fin cursor))
     \<and> int (length (asset_periods D kind days fin cursor)) = month_index fin - month_index cursor + 1"
proof (induction D kind days fin cursor rule: asset_periods.induct)
  case (1 D kind days fin cursor)
  let ?e = "end_of_month cursor" and ?c = "add_months cursor 1"
  note e = end_of_month_same [OF "1.prems"(2)]
  have y: "100 \<le> full_year ?c"
    using full_year_mono [of cursor ?c] add_months_later [of cursor] "1.prems"(2) by simp
  have m: "month_index ?c = month_index cursor + 1" by (rule month_index_add_months [OF "1.prems"(2)])
  show ?case
  proof (cases "?e < fin")
    case True
    then have "?c \<le> fin" using e(3) by simp
    then show ?thesis
      using "1.IH" [OF "1.prems"(1) HOL.refl HOL.refl _ y] True "1.prems" e m
      by (subst (1 2) asset_periods.simps) (simp add: Let_def)
  next
    case False
    have "month_index fin = month_index cursor"
      using month_index_mono [OF "1.prems"(1)] month_index_mono [of fin ?e] False e(2) by simp
    moreover have "asset_periods D kind days fin ?c = []"
      using False e(3) by (subst asset_periods.simps) simp
    ultimately show ?thesis
      using False "1.prems" by (subst (1 2) asset_periods.simps) (simp add: Let_def)
  qed
qed

lemma end_of_month_next: "end_of_month d + 1 = add_months d 1"
  by (simp add: end_of_month_def add_months_def date_utc_def)

lemma asset_periods_set:
  "p \<in> set (asset_periods D kind days fin cursor) \<Longrightarrow>
     \<exists>c e. cursor \<le> c \<and> c \<le> e \<and> e \<le> fin \<and> p = \<lparr>pd_start = c, pd_end = e,
       pd_weight = (if kind = Prepaid
         then dec_div D (dec_int D (days_inclusive c e)) (dec_int D days) else dec_int D 1)\<rparr>"
proof (induction D kind days fin cursor rule: asset_periods.induct)
  case (1 D kind days fin cursor)
  have le: "cursor \<le> end_of_month cursor" "cursor \<le> add_months cursor 1"
    using end_of_month_next [of cursor] add_months_later [of cursor] by simp_all
  show ?case
  proof (cases "cursor \<le> fin")
    case True
    let ?e = "if end_of_month cursor < fin then end_of_month cursor else fin"
    have e: "cursor \<le> ?e" "?e \<le> fin" using True le(1) by auto
    from "1.prems" True consider
      "p = \<lparr>pd_start = cursor, pd_end = ?e, pd_weight = (if kind = Prepaid
        then dec_div D (dec_int D (days_inclusive cursor ?e)) (dec_int D days) else dec_int D 1)\<rparr>"
      | "p \<in> set (asset_periods D kind days fin (add_months cursor 1))"
      by (subst (asm) asset_periods.simps) (auto simp: Let_def)
    then show ?thesis
    proof cases
      case 1
      then show ?thesis using e by blast
    next
      case 2
      from "1.IH" [OF True HOL.refl HOL.refl this] obtain c e where
        c: "add_months cursor 1 \<le> c" "c \<le> e" "e \<le> fin" and p: "p = \<lparr>pd_start = c, pd_end = e,
          pd_weight = (if kind = Prepaid
            then dec_div D (dec_int D (days_inclusive c e)) (dec_int D days) else dec_int D 1)\<rparr>"
        by blast
      show ?thesis using order_trans [OF le(2) c(1)] c(2,3) p by blast
    qed
  next
    case False
    then show ?thesis using "1.prems" by (subst (asm) asset_periods.simps) simp
  qed
qed

section \<open>The amounts of a schedule\<close>

context decimal_lib
begin

lemma rnd_fraction: assumes "0 \<le> q" "q \<le> b" "fits b" shows "0 \<le> rnd q \<and> rnd q \<le> b"
  using rnd_mono [OF assms(1)] rnd_mono [OF assms(2)] rnd_fits [OF assms(3)] by simp

lemma period_weight_range:
  assumes "p \<in> set (asset_periods D kind (days_inclusive s t) t s)" "s \<le> t"
  shows "dec_finite D (pd_weight p) \<and> 0 \<le> val (pd_weight p) \<and> val (pd_weight p) \<le> 1"
proof -
  obtain c e where c: "s \<le> c" "c \<le> e" "e \<le> t" and p: "pd_weight p = (if kind = Prepaid
      then dec_div D (dec_int D (days_inclusive c e)) (dec_int D (days_inclusive s t)) else dec_int D 1)"
    using asset_periods_set [OF assms(1)] by force
  let ?q = "of_int (days_inclusive c e) / of_int (days_inclusive s t) :: rat"
  have "0 \<le> ?q" "?q \<le> 1" using c by (simp_all add: days_inclusive_def)
  then have "0 \<le> rnd ?q \<and> rnd ?q \<le> 1"
    using fits_int [of 1] by (intro rnd_fraction) simp_all
  then show ?thesis using p assms(2) by (auto simp: div_val days_inclusive_def)
qed

text \<open>A share of the basis, before the last period, is between nothing and all of it.\<close>

lemma period_amount_share:
  assumes b: "dec_finite D dep" "val dep = b" "ledger_amount b" "0 \<le> b" "scaled k b"
    and k: "minor_units (si_currency i) = Inr k"
    and w: "dec_finite D (pd_weight p)" "0 \<le> val (pd_weight p)" "val (pd_weight p) \<le> 1"
    and n: "index < n - 1"
  shows "\<exists>a. period_amount D i dep n index alloc p = Inr a \<and> dec_finite D a
      \<and> scaled k (val a) \<and> 0 \<le> val a \<and> val a \<le> b
      \<and> (si_kind i \<noteq> Prepaid \<longrightarrow> val a = half_up k (rnd (b / of_nat n)))"
proof -
  let ?x = "if si_kind i = Prepaid then dec_times D dep (pd_weight p) else dec_div D dep (dec_int D (int n))"
  have n0: "(of_nat n :: rat) \<noteq> 0" "1 \<le> (of_nat n :: rat)" using n by simp_all
  have fb: "fits b" by (rule ledger_amount_fits [OF b(3)])
  have "b * val (pd_weight p) \<le> b * 1" using b(4) w(3) by (intro mult_left_mono) simp_all
  moreover have "b / of_nat n \<le> b / 1" using b(4) n0(2) by (intro divide_left_mono) simp_all
  ultimately have "0 \<le> rnd (b * val (pd_weight p)) \<and> rnd (b * val (pd_weight p)) \<le> b"
    "0 \<le> rnd (b / of_nat n) \<and> rnd (b / of_nat n) \<le> b"
    using b(4) w(2) fb by (intro rnd_fraction; simp)+
  then have x: "dec_finite D ?x" "0 \<le> val ?x" "val ?x \<le> b"
    "si_kind i \<noteq> Prepaid \<longrightarrow> val ?x = rnd (b / of_nat n)"
    using b(1,2) w(1) n0(1) by (simp_all add: times_val div_val)
  have "period_amount D i dep n index alloc p = Inr (dec_places D k ?x)"
    using x(1) k n by (simp add: period_amount_def quantize_money_def del: exact.simps)
  moreover have "half_up k (val ?x) \<le> half_up k b" using x(3) by (rule half_up_mono)
  ultimately show ?thesis using x b(5) half_up_nonneg [OF x(2)] by (auto simp: half_up_id)
qed

end

context decimal_lib
begin

lemma allocated_fits:
  assumes "scaled k q" "k \<le> 3" "\<bar>q\<bar> \<le> 10 ^ 36" shows "fits q"
  by (rule fits_scaled [OF scaled_le [OF assms(1)] assms(3)]) (use assms(2) in auto)

lemma allocated_bound:
  assumes "(x::rat) \<le> of_nat index * b" "index \<le> 10 ^ 6" "0 \<le> b" "b \<le> 10 ^ 29"
  shows "x \<le> 10 ^ 35"
proof -
  have "of_nat index * b \<le> (10 ^ 6) * 10 ^ 29"
    using assms(2-4) by (intro mult_mono) (simp_all add: of_nat_le_iff [of index "10 ^ 6", simplified])
  then show ?thesis using assms(1) by simp
qed

lemma schedule_lines_amounts:
  assumes b: "dec_finite D dep" "val dep = b" "ledger_amount b" "0 \<le> b" "scaled k b"
    and k: "minor_units (si_currency i) = Inr k" and n: "n \<le> 10 ^ 6"
  shows "index + length ps = n \<Longrightarrow> dec_finite D alloc \<Longrightarrow> scaled k (val alloc) \<Longrightarrow> 0 \<le> val alloc
    \<Longrightarrow> val alloc \<le> of_nat index * b
    \<Longrightarrow> (\<And>p. p \<in> set ps \<Longrightarrow> dec_finite D (pd_weight p) \<and> 0 \<le> val (pd_weight p) \<and> val (pd_weight p) \<le> 1)
    \<Longrightarrow> \<exists>ls qs. schedule_lines D i dep n index alloc ps = Inr ls
      \<and> list_all2 text_amount (map sl_amount ls) qs
      \<and> (ps \<noteq> [] \<longrightarrow> val alloc + sum_list qs = b)
      \<and> (\<forall>q \<in> set (butlast qs). 0 \<le> q \<and> q \<le> b
            \<and> (si_kind i \<noteq> Prepaid \<longrightarrow> q = half_up k (rnd (b / of_nat n))))
      \<and> map sl_sequence ls = [index + 1..<n + 1]
      \<and> map (\<lambda>l. (sl_start l, sl_end l)) ls = map (\<lambda>p. (iso_text (pd_start p), iso_text (pd_end p))) ps
      \<and> map sl_due ls = map sl_end ls"
proof (induction ps arbitrary: index alloc)
  case Nil
  then show ?case by auto
next
  case (Cons p ps)
  have k3: "k \<le> 3" by (rule minor_units_le_3 [OF k])
  have b29: "b \<le> 10 ^ 29" using b(3,4) by (simp add: ledger_amount_def)
  have index: "index \<le> 10 ^ 6" using Cons.prems(1) n by simp
  have alloc: "val alloc \<le> 10 ^ 35" by (rule allocated_bound [OF Cons.prems(5) index b(4) b29])
  note w = Cons.prems(6) [of p]
  show ?case
  proof (cases "ps = []")
    case True
    then have i: "n = index + 1" using Cons.prems(1) by simp
    let ?a = "dec_minus D dep alloc"
    have "scaled k (b - val alloc)" by (rule scaled_diff [OF b(5) Cons.prems(3)])
    moreover have "\<bar>b - val alloc\<bar> \<le> 10 ^ 36"
      using b(4) b29 alloc Cons.prems(4) by (simp add: abs_le_iff)
    ultimately have a: "dec_finite D ?a" "val ?a = b - val alloc" "scaled k (val ?a)"
      using allocated_fits [OF _ k3] b(1,2) Cons.prems(2) by (auto simp: minus_exact)
    have "text_amount (dec_fixed D k ?a) (b - val alloc)"
      using fixed_value [OF a(1), of k] half_up_id [OF a(3)] a(2) by simp
    moreover have "schedule_lines D i dep n index alloc (p # ps) = Inr [\<lparr>sl_sequence = index + 1,
        sl_start = iso_text (pd_start p), sl_end = iso_text (pd_end p), sl_due = iso_text (pd_end p),
        sl_amount = dec_fixed D k ?a\<rparr>]" (is "_ = Inr [?l]")
      using True i k by (simp add: period_amount_def)
    ultimately show ?thesis using True i
      by (intro exI [where x = "[?l]"] exI [where x = "[b - val alloc]"]) simp
  next
    case False
    then have i: "index < n - 1" "index + 1 + length ps = n" using Cons.prems(1) by (cases ps; simp)+
    obtain a where a: "period_amount D i dep n index alloc p = Inr a" "dec_finite D a"
      "scaled k (val a)" "0 \<le> val a" "val a \<le> b"
      "si_kind i \<noteq> Prepaid \<longrightarrow> val a = half_up k (rnd (b / of_nat n))"
      using period_amount_share [OF b k _ _ _ i(1)] w by force
    let ?alloc = "dec_plus D alloc a"
    have "scaled k (val alloc + val a)" by (rule scaled_add [OF Cons.prems(3) a(3)])
    moreover have "\<bar>val alloc + val a\<bar> \<le> 10 ^ 36"
      using a(4,5) b29 alloc Cons.prems(4) by (simp add: abs_le_iff)
    ultimately have al: "dec_finite D ?alloc" "val ?alloc = val alloc + val a" "scaled k (val ?alloc)"
      using allocated_fits [OF _ k3] a(2) Cons.prems(2) by (auto simp: plus_exact)
    have "0 \<le> val ?alloc" "val ?alloc \<le> of_nat (index + 1) * b"
      using al(2) a(4,5) Cons.prems(4,5) by (simp_all add: distrib_right)
    from Cons.IH [OF i(2) al(1,3) this Cons.prems(6)] obtain ls qs where
      ls: "schedule_lines D i dep n (index + 1) ?alloc ps = Inr ls"
      and qs: "list_all2 text_amount (map sl_amount ls) qs" "val ?alloc + sum_list qs = b"
        "\<forall>q \<in> set (butlast qs). 0 \<le> q \<and> q \<le> b
            \<and> (si_kind i \<noteq> Prepaid \<longrightarrow> q = half_up k (rnd (b / of_nat n)))"
      and m: "map sl_sequence ls = [index + 2..<n + 1]"
        "map (\<lambda>l. (sl_start l, sl_end l)) ls = map (\<lambda>p. (iso_text (pd_start p), iso_text (pd_end p))) ps"
        "map sl_due ls = map sl_end ls"
      using False by (auto simp: numeral_2_eq_2)
    have ne: "qs \<noteq> []" using m(2) qs(1) False by (auto dest: list_all2_lengthD arg_cong [of _ _ length])
    have t: "text_amount (dec_fixed D k a) (val a)"
      using fixed_value [OF a(2), of k] half_up_id [OF a(3)] by simp
    have u: "[index + 1..<n + 1] = (index + 1) # [index + 2..<n + 1]"
      using i(1) by (simp add: upt_conv_Cons)
    let ?l = "\<lparr>sl_sequence = index + 1, sl_start = iso_text (pd_start p), sl_end = iso_text (pd_end p),
       sl_due = iso_text (pd_end p), sl_amount = dec_fixed D k a\<rparr>"
    have "schedule_lines D i dep n index alloc (p # ps) = Inr (?l # ls)" using a(1) ls k by simp
    moreover have "list_all2 text_amount (map sl_amount (?l # ls)) (val a # qs)" using t qs(1) by simp
    moreover have "val alloc + sum_list (val a # qs) = b" using qs(2) al(2) by simp
    moreover have "\<forall>q \<in> set (butlast (val a # qs)). 0 \<le> q \<and> q \<le> b
            \<and> (si_kind i \<noteq> Prepaid \<longrightarrow> q = half_up k (rnd (b / of_nat n)))" using ne qs(3) a(4-6) by simp
    moreover have "map sl_sequence (?l # ls) = [index + 1..<n + 1]" using m(1) u by simp
    ultimately show ?thesis using m(2,3) by (intro exI [where x = "?l # ls"] exI [where x = "val a # qs"]) auto
  qed
qed

end

section \<open>The life of an asset\<close>

text \<open>
  \<open>schedulable i s t\<close>: a finite-life input whose schedule runs from the day \<open>s\<close> to the day
  \<open>t\<close>: a prepaid to its stated end, another asset for its useful life in months, the month
  it is put in service being the first.
\<close>

definition schedulable :: "schedule_input \<Rightarrow> int \<Rightarrow> int \<Rightarrow> bool" where
  "schedulable i s t \<longleftrightarrow>
     si_classification i = FiniteLife \<and> parse_date (si_in_service i) = Some s
     \<and> 100 \<le> full_year s \<and> s \<le> t \<and> full_year t \<le> 9999
     \<and> (if si_kind i = Prepaid then (case si_end i of None \<Rightarrow> False | Some e \<Rightarrow> parse_date e = Some t)
        else (case si_life i of None \<Rightarrow> False
              | Some life \<Rightarrow> 1 \<le> life \<and> t = month_start (month_index s + life) - 1))"

lemma parse_date_empty [simp]: "parse_date [] = None"
  by (simp add: parse_date_def starts_with_def)

lemma iso_text_parse: "0 \<le> full_year d \<Longrightarrow> full_year d \<le> 9999 \<Longrightarrow> parse_date (iso_text d) = Some d"
  by (simp add: iso_text_def take_iso_date parse_iso_date)

lemma schedulable_end:
  assumes "schedulable i s t" shows "schedule_end i = Inr (Some (Some t))"
proof (cases "si_kind i = Prepaid")
  case True
  then obtain e where e: "si_end i = Some e" "parse_date e = Some t"
    using assms by (auto simp: schedulable_def split: option.splits)
  then have "e \<noteq> []" by auto
  then show ?thesis using True e by (simp add: schedule_end_def truthy_iff)
next
  case False
  then obtain life where l: "si_life i = Some life" "1 \<le> life" "t = add_months s life - 1"
    using assms by (auto simp: schedulable_def add_months_year split: option.splits)
  have s: "parse_date (si_in_service i) = Some s" "100 \<le> full_year s" "s \<le> t" "full_year t \<le> 9999"
    using assms by (simp_all add: schedulable_def)
  have "parse_date (iso_text t) = Some t"
    using s full_year_mono [OF s(3)] by (intro iso_text_parse) simp_all
  then show ?thesis using False l s(1) by (simp add: schedule_end_def finite_schedule_end_def)
qed

lemma months_tile_range:
  "months_tile s t ps \<Longrightarrow> (a, b) \<in> set ps \<Longrightarrow> s \<le> a \<and> a \<le> b \<and> b \<le> t"
proof (induction ps arbitrary: s)
  case (Cons p ps)
  obtain c d where p: "p = (c, d)" by fastforce
  have *: "months_tile u t qs \<Longrightarrow> u \<le> t + 1" for u qs
    by (induction u t qs rule: months_tile.induct) auto
  from Cons.prems p have t: "c = s" "c \<le> d" "months_tile (d + 1) t ps" by simp_all
  from Cons.prems(2) p consider "a = c" "b = d" | "(a, b) \<in> set ps" by auto
  then show ?case using Cons.IH [OF t(3)] t * [OF t(3)] by cases auto
qed simp

lemma months_tile_texts:
  assumes "months_tile s t ps" "0 \<le> full_year s" "full_year t \<le> 9999"
    and "map (\<lambda>l. (sl_start l, sl_end l)) ls = map (\<lambda>(a, b). (iso_text a, iso_text b)) ps"
  shows "list_all2 (\<lambda>l (a, b). parse_date (sl_start l) = Some a \<and> parse_date (sl_end l) = Some b) ls ps"
proof -
  have *: "parse_date (iso_text a) = Some a \<and> parse_date (iso_text b) = Some b" if "(a, b) \<in> set ps" for a b
  proof -
    have r: "s \<le> a" "a \<le> b" "b \<le> t" using months_tile_range [OF assms(1) that] by simp_all
    then have "full_year s \<le> full_year a" "full_year a \<le> full_year b" "full_year b \<le> full_year t"
      by (simp_all add: full_year_mono)
    then show ?thesis using assms(2,3) by (simp add: iso_text_parse)
  qed
  have l: "length ls = length ps" using arg_cong [OF assms(4), of length] by simp
  show ?thesis
  proof (rule list_all2_all_nthI [OF l])
    fix n assume n: "n < length ls"
    obtain a b where ab: "ps ! n = (a, b)" by fastforce
    then have "(a, b) \<in> set ps" using n l by (metis nth_mem)
    moreover have "(sl_start (ls ! n), sl_end (ls ! n)) = (iso_text a, iso_text b)"
      using arg_cong [OF assms(4), of "\<lambda>xs. xs ! n"] n l ab by simp
    ultimately show "(\<lambda>(a, b). parse_date (sl_start (ls ! n)) = Some a \<and> parse_date (sl_end (ls ! n)) = Some b) (ps ! n)"
      using * ab by simp
  qed
qed

context decimal_lib
begin

lemma asset_schedule_complete:
  assumes i: "schedulable i s t" and k: "minor_units (si_currency i) = Inr k"
    and c: "text_amount (si_cost i) c" "ledger_amount c" "scaled k c"
    and r: "text_amount (si_residual i) r" "0 \<le> r" "r < c" "scaled k r"
  shows "\<exists>ls ps qs. calculate_asset_schedule D i = Inr ls
      \<and> map sl_sequence ls = [1..<length ls + 1]
      \<and> int (length ls) = month_index t - month_index s + 1
      \<and> months_tile s t ps
      \<and> list_all2 (\<lambda>l (a, b). parse_date (sl_start l) = Some a \<and> parse_date (sl_end l) = Some b) ls ps
      \<and> map sl_due ls = map sl_end ls
      \<and> list_all2 text_amount (map sl_amount ls) qs
      \<and> sum_list qs = c - r
      \<and> (\<forall>q \<in> set (butlast qs). 0 \<le> q \<and> q \<le> c - r
            \<and> (si_kind i \<noteq> Prepaid \<longrightarrow> q = half_up k (rnd ((c - r) / of_nat (length ls)))))"
proof -
  obtain dc where dc: "dec_new D (si_cost i) = Some dc" "dec_finite D dc" "val dc = c"
    using new_plain [OF c(1)] by blast
  obtain dr where dr: "dec_new D (si_residual i) = Some dr" "dec_finite D dr" "val dr = r"
    using new_plain [OF r(1)] by blast
  have k3: "k \<le> 3" by (rule minor_units_le_3 [OF k])
  have b: "scaled k (c - r)" "0 < c - r" "c - r \<le> 10 ^ 29"
    using scaled_diff [OF c(3) r(4)] r c(2) by (simp_all add: ledger_amount_def)
  then have bl: "ledger_amount (c - r)"
    using scaled_le [OF b(1), of 9] k3 by (simp add: ledger_amount_def)
  let ?dep = "dec_minus D dc dr"
  have dep: "dec_finite D ?dep" "val ?dep = c - r"
    using dc dr ledger_amount_fits [OF bl] by (simp_all add: minus_exact)
  have s: "si_classification i = FiniteLife" "parse_date (si_in_service i) = Some s"
    "100 \<le> full_year s" "s \<le> t" "full_year t \<le> 9999"
    using i by (simp_all add: schedulable_def)
  let ?ps = "asset_periods D (si_kind i) (days_inclusive s t) t s"
  note tile = asset_periods_tile [OF s(4,3), of D "si_kind i" "days_inclusive s t"]
  have "month_index t < 12 * 10000" using s(5) month_of_range [of t] by (simp add: month_index_def)
  moreover have "0 \<le> month_index s" using s(3) month_of_range [of s] by (simp add: month_index_def)
  ultimately have n: "length ?ps \<le> 10 ^ 6" "?ps \<noteq> []"
    using tile month_index_mono [OF s(4)] by auto
  have calc: "calculate_asset_schedule D i
      = schedule_lines D i ?dep (length ?ps) 0 (dec_int D 0) ?ps"
    using s dc dr dep b(2) schedulable_end [OF i]
    by (simp add: calculate_asset_schedule_def date_before_def throw_if_def Let_def)
  have "\<exists>ls qs. schedule_lines D i ?dep (length ?ps) 0 (dec_int D 0) ?ps = Inr ls
      \<and> list_all2 text_amount (map sl_amount ls) qs
      \<and> (?ps \<noteq> [] \<longrightarrow> val (dec_int D 0) + sum_list qs = c - r)
      \<and> (\<forall>q \<in> set (butlast qs). 0 \<le> q \<and> q \<le> c - r
            \<and> (si_kind i \<noteq> Prepaid \<longrightarrow> q = half_up k (rnd ((c - r) / of_nat (length ?ps)))))
      \<and> map sl_sequence ls = [0 + 1..<length ?ps + 1]
      \<and> map (\<lambda>l. (sl_start l, sl_end l)) ls = map (\<lambda>p. (iso_text (pd_start p), iso_text (pd_end p))) ?ps
      \<and> map sl_due ls = map sl_end ls"
    by (rule schedule_lines_amounts [OF dep bl _ b(1) k n(1)])
      (use b(2) s(4) in \<open>auto dest: period_weight_range\<close>)
  then obtain ls qs where ls: "schedule_lines D i ?dep (length ?ps) 0 (dec_int D 0) ?ps = Inr ls"
    "list_all2 text_amount (map sl_amount ls) qs" "sum_list qs = c - r"
    "\<forall>q \<in> set (butlast qs). 0 \<le> q \<and> q \<le> c - r
       \<and> (si_kind i \<noteq> Prepaid \<longrightarrow> q = half_up k (rnd ((c - r) / of_nat (length ?ps))))" "map sl_sequence ls = [1..<length ?ps + 1]"
    and m: "map (\<lambda>l. (sl_start l, sl_end l)) ls = map (\<lambda>p. (iso_text (pd_start p), iso_text (pd_end p))) ?ps"
    "map sl_due ls = map sl_end ls"
    using n(2) by auto
  have len: "length ls = length ?ps" using arg_cong [OF m(1), of length] by simp
  have "map (\<lambda>l. (sl_start l, sl_end l)) ls = map (\<lambda>(a, b). (iso_text a, iso_text b)) (map period_days ?ps)"
    using m(1) by (simp add: period_days_def comp_def)
  from months_tile_texts [OF conjunct1 [OF tile] _ s(5) this] s(3)
  show ?thesis using calc ls m(2) len tile
    by (intro exI [where x = ls] exI [where x = "map period_days ?ps"] exI [where x = qs]) simp
qed

end

section \<open>Properties\<close>

text \<open>
  C39. Asset schedules are complete.  \<open>calculateAssetSchedule\<close> returns: for every finite-life asset whose life runs from
  the day \<open>s\<close> to the day \<open>t\<close> (in the years 100 to 9999), with a cost and a smaller residual
  value that are whole minor units of a supported currency, the loop over the months ends and
  no call throws.  The result has one line for every calendar month the life touches, numbered
  from 1; the dates on the lines tile the days from \<open>s\<close> to \<open>t\<close> without gap or overlap, each
  line within one month and due on its last day; the amounts add up exactly to cost less
  residual value, and every line but the last is between nothing and that basis;
  unless the asset is prepaid these lines are equal, the basis divided by their number and
  rounded half up.
\<close>

theorem asset_schedule_terminates:
  assumes "decimal_lib D val rnd"
    and "schedulable i s t" and "minor_units (si_currency i) = Inr k"
    and "text_amount (si_cost i) c" and "ledger_amount c" and "scaled k c"
    and "text_amount (si_residual i) r" and "0 \<le> r" and "r < c" and "scaled k r"
  shows "\<exists>ls ps qs. calculate_asset_schedule D i = Inr ls
      \<and> map sl_sequence ls = [1..<length ls + 1]
      \<and> int (length ls) = month_index t - month_index s + 1
      \<and> months_tile s t ps
      \<and> list_all2 (\<lambda>l (a, b). parse_date (sl_start l) = Some a \<and> parse_date (sl_end l) = Some b) ls ps
      \<and> map sl_due ls = map sl_end ls
      \<and> list_all2 text_amount (map sl_amount ls) qs
      \<and> sum_list qs = c - r
      \<and> (\<forall>q \<in> set (butlast qs). 0 \<le> q \<and> q \<le> c - r
            \<and> (si_kind i \<noteq> Prepaid \<longrightarrow> q = half_up k (rnd ((c - r) / of_nat (length ls)))))"
  by (rule decimal_lib.asset_schedule_complete [OF assms])

definition example_asset :: schedule_input where
  "example_asset = \<lparr>si_kind = Tangible, si_classification = FiniteLife,
     si_in_service = ''2026-01-15'', si_end = None, si_life = Some 3, si_cost = ''100.00'',
     si_residual = ''10.00'', si_currency = ''CAD''\<rparr>"

lemma asset_schedule_terminates_witness:
  "\<exists>ls ps qs. calculate_asset_schedule ref_api example_asset = Inr ls
      \<and> map sl_sequence ls = [1..<length ls + 1]
      \<and> int (length ls) = month_index 740071 - month_index 739996 + 1
      \<and> months_tile 739996 740071 ps
      \<and> list_all2 (\<lambda>l (a, b). parse_date (sl_start l) = Some a \<and> parse_date (sl_end l) = Some b) ls ps
      \<and> map sl_due ls = map sl_end ls
      \<and> list_all2 text_amount (map sl_amount ls) qs
      \<and> sum_list qs = 100 - 10
      \<and> (\<forall>q \<in> set (butlast qs). 0 \<le> q \<and> q \<le> 100 - 10
            \<and> (si_kind example_asset \<noteq> Prepaid
                  \<longrightarrow> q = half_up 2 (rnd50 ((100 - 10) / of_nat (length ls)))))"
proof (rule asset_schedule_terminates [OF refdec.decimal_lib_axioms])
  show "schedulable example_asset 739996 740071" by code_simp
  show "minor_units (si_currency example_asset) = Inr 2" by code_simp
  show "text_amount (si_cost example_asset) 100" by code_simp
  show "text_amount (si_residual example_asset) 10" by code_simp
qed (simp_all add: ledger_amount_def)

text \<open>
  Rounding goes to the last line, which it can make negative: two cents over four months
  are three times one cent and minus one.  The table of schedule entries admits positive
  amounts only, so such an asset cannot be stored.
\<close>

definition small_asset :: schedule_input where
  "small_asset = example_asset\<lparr>si_life := Some 4, si_cost := ''0.02'', si_residual := ''0''\<rparr>"

lemma last_line_can_be_negative:
  "\<exists>ls. calculate_asset_schedule ref_api small_asset = Inr ls
     \<and> list_all2 text_amount (map sl_amount ls) [1 / 100, 1 / 100, 1 / 100, - 1 / 100]"
proof -
  have s: "schedulable small_asset 739996 740101" by code_simp
  have "\<exists>ls ps qs. calculate_asset_schedule ref_api small_asset = Inr ls
      \<and> map sl_sequence ls = [1..<length ls + 1]
      \<and> int (length ls) = month_index 740101 - month_index 739996 + 1
      \<and> months_tile 739996 740101 ps
      \<and> list_all2 (\<lambda>l (a, b). parse_date (sl_start l) = Some a \<and> parse_date (sl_end l) = Some b) ls ps
      \<and> map sl_due ls = map sl_end ls
      \<and> list_all2 text_amount (map sl_amount ls) qs
      \<and> sum_list qs = 1 / 50 - 0
      \<and> (\<forall>q \<in> set (butlast qs). 0 \<le> q \<and> q \<le> 1 / 50 - 0
            \<and> (si_kind small_asset \<noteq> Prepaid
                  \<longrightarrow> q = half_up 2 (rnd50 ((1 / 50 - 0) / of_nat (length ls)))))"
  proof (rule refdec.asset_schedule_complete [OF s])
    show "minor_units (si_currency small_asset) = Inr 2" by code_simp
    show "text_amount (si_cost small_asset) (1 / 50)" by code_simp
    show "text_amount (si_residual small_asset) 0" by code_simp
    show "scaled 2 (1 / 50)" by (rule scaledI [where c = 2]) simp
    then show "ledger_amount (1 / 50)" by (auto simp: ledger_amount_def intro: scaled_le)
  qed simp_all
  then obtain ls qs where ls: "calculate_asset_schedule ref_api small_asset = Inr ls"
    "list_all2 text_amount (map sl_amount ls) qs" "sum_list qs = 1 / 50"
    and l: "int (length ls) = month_index 740101 - month_index 739996 + 1"
    and q: "\<forall>q \<in> set (butlast qs). si_kind small_asset \<noteq> Prepaid
        \<longrightarrow> q = half_up 2 (rnd50 ((1 / 50) / of_nat (length ls)))"
    by auto
  have "month_index 740101 - month_index 739996 + 1 = 4" by code_simp
  then have 4: "length ls = 4" using l by simp
  then have "length qs = 4" using list_all2_lengthD [OF ls(2)] by simp
  then obtain a b c d where abcd: "qs = [a, b, c, d]"
    by (auto simp: numeral_eq_Suc length_Suc_conv)
  have "fits (1 / 200)" by (rule fits_scaled [of 3 _ 0]) (auto intro: scaledI [where c = 5])
  then have "rnd50 ((1 / 50) / of_nat (length ls)) = 1 / 200" using 4 by (simp add: refdec.rnd_fits)
  then have "half_up 2 (rnd50 ((1 / 50) / of_nat (length ls))) = 1 / 100"
    by (simp only:) (simp add: half_up_def)
  then have "a = 1 / 100" "b = 1 / 100" "c = 1 / 100"
    using q abcd by (simp_all add: small_asset_def example_asset_def)
  moreover from this have "d = - 1 / 100" using ls(3) abcd by simp
  ultimately show ?thesis using ls(1,2) abcd by blast
qed

end
