(* ===== verification/SubledgerSetup.thy ===== *)
theory SubledgerSetup
  imports Settlement PeriodControl CommandFingerprint
begin

text \<open>
  \<open>subledger/ar-ap-accounting.ts\<close> (with \<open>tax/registration-scope.ts\<close> and
  \<open>subledger/source-tax-review.ts\<close>): the configuration a subledger command is checked
  against.  The tables are the rows of one organization, the one of the transaction: every
  query filters on it and row level security hides the others.  Dates are ISO texts, which
  the code compares as texts.  Locks are not modelled: a command runs alone.
\<close>

section \<open>Tables\<close>

datatype ledger_class = AssetAccount | LiabilityAccount | EquityAccount | RevenueAccount | ExpenseAccount

datatype account_control = NoControl | ReceivableControl | PayableControl

record ledger_row =
  lg_id :: string
  lg_entity :: string
  lg_currency :: string
  lg_active :: bool

record entity_row =
  ey_id :: string
  ey_active :: bool

record fiscal_period_row =
  fr_id :: string
  fr_ledger :: string
  fr_state :: period_state
  fr_starts :: string
  fr_ends :: string

record party_account_row =
  pa_id :: string
  pa_entity :: string
  pa_ledger :: string
  pa_role :: party_role
  pa_control_account :: string
  pa_currency :: "string option"
  pa_active :: bool

record gl_account_row =
  gl_id :: string
  gl_code :: string
  gl_name :: string
  gl_class :: ledger_class
  gl_control :: account_control
  gl_postable :: bool
  gl_active :: bool
  gl_valid_from :: string
  gl_valid_to :: "string option"

record combination_row =
  cm_id :: string
  cm_ledger :: string
  cm_entity :: string
  cm_account :: string
  cm_active :: bool

record registration_row =
  rg_id :: string
  rg_entity :: string
  rg_regime :: string
  rg_country :: "string option"
  rg_region :: "string option"
  rg_city :: "string option"
  rg_location :: "string option"
  rg_valid_from :: string
  rg_valid_to :: "string option"

record registration_scope_row =
  gs_registration :: string
  gs_version :: int
  gs_city :: "string option"
  gs_location :: "string option"

record pack_version_row =
  pv_id :: string
  pv_key :: string
  pv_version :: string
  pv_from :: string
  pv_to :: "string option"

record setup_tables =
  st_ledgers :: "ledger_row list"
  st_entities :: "entity_row list"
  st_periods :: "fiscal_period_row list"
  st_party_accounts :: "party_account_row list"
  st_accounts :: "gl_account_row list"
  st_combinations :: "combination_row list"
  st_registrations :: "registration_row list"
  st_scopes :: "registration_scope_row list"
  st_packs :: "pack_version_row list"

section \<open>The accounting setup\<close>

record accounting_setup =
  as_functional :: string
  as_period_state :: period_state
  as_starts :: string
  as_ends :: string
  as_role :: party_role
  as_control_account :: string
  as_party_currency :: "string option"

datatype combination_failure_code =
    NotFoundOrUnauthorized | WrongLedger | WrongEntity | CombinationInactive | AccountInactive
  | AccountNotPostable | FutureDated | Expired | WrongControlKind | WrongAccountClass
  | PartyControlMismatch

record combination_failure =
  cf_field :: string
  cf_line :: "nat option"
  cf_combination :: string
  cf_code :: "string option"
  cf_name :: "string option"
  cf_active :: "bool option"
  cf_combination_active :: "bool option"
  cf_account_active :: "bool option"
  cf_postable :: "bool option"
  cf_valid_from :: "string option"
  cf_valid_to :: "string option"
  cf_ledger_mismatch :: "bool option"
  cf_entity_mismatch :: "bool option"
  cf_evaluated :: string
  cf_codes :: "combination_failure_code list"

datatype setup_error =
    SetupNotFound
  | PeriodNotOpen
  | DateOutsidePeriod
  | PartyRoleMismatch
  | PartyCurrencyMismatch
  | CombinationsInvalid "combination_failure list"
  | ControlCombinationMismatch
  | LineOnControlAccount
  | LineAccountClass
  | TaxOnControlAccount
  | TaxAccountClass
  | SharedTaxMapping
  | RoundingOnControlAccount
  | FunctionalCurrencyMismatch
  | TaxFactsMismatch nat
  | RegistrationRequired nat
  | RegistrationReferenceInvalid nat
  | RegistrationMissing nat
  | RegistrationPackMismatch nat
  | RegistrationDestinationMismatch nat
  | RegistrationNotActive nat
  | PackVersionsNotInstalled
  | PackNotApproved nat
  | SetupFunding funding_error
  | FundingAccountMismatch
  | GainAccountMismatch
  | LossAccountMismatch

definition load_accounting_setup ::
  "setup_tables \<Rightarrow> string \<Rightarrow> string \<Rightarrow> string \<Rightarrow> string \<Rightarrow> setup_error + accounting_setup" where
  "load_accounting_setup S ledger entity period party =
     (case [\<lparr>as_functional = lg_currency l, as_period_state = fr_state p, as_starts = fr_starts p,
             as_ends = fr_ends p, as_role = pa_role a, as_control_account = pa_control_account a,
             as_party_currency = pa_currency a\<rparr>.
            l \<leftarrow> st_ledgers S, lg_id l = ledger \<and> lg_active l,
            e \<leftarrow> st_entities S, ey_id e = lg_entity l \<and> ey_id e = entity \<and> ey_active e,
            p \<leftarrow> st_periods S, fr_ledger p = lg_id l \<and> fr_id p = period,
            a \<leftarrow> st_party_accounts S, pa_ledger a = lg_id l \<and> pa_entity a = ey_id e \<and> pa_id a = party \<and> pa_active a]
      of [] \<Rightarrow> Inl SetupNotFound | setup # _ \<Rightarrow> Inr setup)"

definition assert_routine_setup ::
  "accounting_setup \<Rightarrow> string \<Rightarrow> string \<Rightarrow> party_role \<Rightarrow> setup_error + unit" where
  "assert_routine_setup s accounting_date currency role =
     bindE (require (as_period_state s = PeriodOpen) PeriodNotOpen) (\<lambda>_.
     bindE (throw_if (accounting_date < as_starts s \<or> accounting_date > as_ends s) DateOutsidePeriod) (\<lambda>_.
     bindE (require (as_role s = role) PartyRoleMismatch) (\<lambda>_.
     throw_if (as_party_currency s \<noteq> None \<and> as_party_currency s \<noteq> Some currency) PartyCurrencyMismatch)))"

section \<open>Account combinations\<close>

text \<open>What a request says about a combination it names.\<close>

record combination_reference =
  cr_field :: string
  cr_line :: "nat option"
  cr_combination :: string
  cr_account :: "string option"
  cr_classes :: "ledger_class list option"
  cr_controls :: "account_control list option"

text \<open>A row of the query: the combination with its account, left joined.\<close>

type_synonym combination_detail = "combination_row \<times> gl_account_row option"

definition combination_codes ::
  "combination_reference \<Rightarrow> combination_detail \<Rightarrow> string \<Rightarrow> string \<Rightarrow> string \<Rightarrow> combination_failure_code list" where
  "combination_codes r = (\<lambda>(c, account) ledger entity accounting_date.
     (if cm_ledger c \<noteq> ledger then [WrongLedger] else [])
     @ (if cm_entity c \<noteq> entity then [WrongEntity] else [])
     @ (if \<not> cm_active c then [CombinationInactive] else [])
     @ (if map_option gl_active account \<noteq> Some True then [AccountInactive] else [])
     @ (if map_option gl_postable account \<noteq> Some True then [AccountNotPostable] else [])
     @ (case map_option gl_valid_from account of
          Some d \<Rightarrow> if d > accounting_date then [FutureDated] else [] | None \<Rightarrow> [])
     @ (case Option.bind account gl_valid_to of
          Some d \<Rightarrow> if d < accounting_date then [Expired] else [] | None \<Rightarrow> [])
     @ (case cr_controls r of
          Some ks \<Rightarrow> (case map_option gl_control account of
              None \<Rightarrow> [WrongControlKind] | Some k \<Rightarrow> if k \<in> set ks then [] else [WrongControlKind])
        | None \<Rightarrow> [])
     @ (case cr_classes r of
          Some ks \<Rightarrow> (case map_option gl_class account of
              None \<Rightarrow> [WrongAccountClass] | Some k \<Rightarrow> if k \<in> set ks then [] else [WrongAccountClass])
        | None \<Rightarrow> [])
     @ (if truthy (cr_account r) \<and> Some (cm_account c) \<noteq> cr_account r then [PartyControlMismatch] else []))"

definition account_combination_failure ::
  "combination_reference \<Rightarrow> combination_detail option \<Rightarrow> string \<Rightarrow> string \<Rightarrow> string \<Rightarrow> combination_failure option" where
  "account_combination_failure r row ledger entity accounting_date =
     (let codes = (case row of
            None \<Rightarrow> [NotFoundOrUnauthorized]
          | Some d \<Rightarrow> combination_codes r d ledger entity accounting_date);
          account = Option.bind row snd
      in if codes = [] then None
         else Some \<lparr>cf_field = cr_field r, cf_line = cr_line r, cf_combination = cr_combination r,
           cf_code = map_option gl_code account, cf_name = map_option gl_name account,
           cf_active = map_option (\<lambda>(c, a). cm_active c \<and> map_option gl_active a = Some True) row,
           cf_combination_active = map_option (\<lambda>(c, a). cm_active c) row,
           cf_account_active = map_option gl_active account,
           cf_postable = map_option gl_postable account,
           cf_valid_from = map_option gl_valid_from account,
           cf_valid_to = Option.bind account gl_valid_to,
           cf_ledger_mismatch = map_option (\<lambda>(c, a). cm_ledger c \<noteq> ledger) row,
           cf_entity_mismatch = map_option (\<lambda>(c, a). cm_entity c \<noteq> entity) row,
           cf_evaluated = accounting_date, cf_codes = codes\<rparr>)"

definition find_combination :: "setup_tables \<Rightarrow> string \<Rightarrow> combination_detail option" where
  "find_combination S cid =
     map_option (\<lambda>c. (c, List.find (\<lambda>a. gl_id a = cm_account c) (st_accounts S)))
       (List.find (\<lambda>c. cm_id c = cid) (st_combinations S))"

record account_combination =
  ac_id :: string
  ac_account :: string
  ac_class :: ledger_class
  ac_control :: account_control

text \<open>The map that is returned, on the combinations the references name.\<close>

definition load_account_combinations ::
  "setup_tables \<Rightarrow> string \<Rightarrow> string \<Rightarrow> string \<Rightarrow> combination_reference list
     \<Rightarrow> setup_error + (string \<Rightarrow> account_combination option)" where
  "load_account_combinations S ledger entity accounting_date references =
     (let failures = List.map_filter (\<lambda>r. account_combination_failure r (find_combination S (cr_combination r))
            ledger entity accounting_date) references
      in bindE (throw_if (failures \<noteq> []) (CombinationsInvalid failures)) (\<lambda>_.
         Inr (\<lambda>cid. if cid \<in> set (map cr_combination references)
                  then (case find_combination S cid of
                          Some (c, Some a) \<Rightarrow> Some \<lparr>ac_id = cm_id c, ac_account = cm_account c,
                            ac_class = gl_class a, ac_control = gl_control a\<rparr>
                        | _ \<Rightarrow> None)
                  else None)))"

fun control_of :: "control_kind \<Rightarrow> account_control" where
  "control_of ControlAr = ReceivableControl"
| "control_of ControlAp = PayableControl"

definition document_treatments :: "document_snapshot \<Rightarrow> tax_treatment list" where
  "document_treatments s = concat (map (\<lambda>l. map tc_treatment (decision_components l)) (ds_lines s))"

definition assert_tax_account ::
  "document_snapshot \<Rightarrow> account_combination option \<Rightarrow> setup_error + unit" where
  "assert_tax_account s tax =
     bindE (require (map_option ac_control tax = Some NoControl) TaxOnControlAccount) (\<lambda>_.
     let class = map_option ac_class tax;
         recoverable = Recoverable \<in> set (document_treatments s);
         self_assessed = SelfAssessedPayable \<in> set (document_treatments s) in
     if ds_kind s = SalesInvoice then require (class = Some LiabilityAccount) TaxAccountClass
     else
       bindE (throw_if (recoverable \<and> self_assessed) SharedTaxMapping) (\<lambda>_.
       bindE (throw_if (self_assessed \<and> class \<noteq> Some LiabilityAccount) TaxAccountClass) (\<lambda>_.
       throw_if (recoverable \<and> class \<noteq> Some AssetAccount \<and> class \<noteq> Some ExpenseAccount) TaxAccountClass)))"

definition assert_business_account_mappings ::
  "document_snapshot \<Rightarrow> accounting_setup \<Rightarrow> (string \<Rightarrow> account_combination option) \<Rightarrow> setup_error + unit" where
  "assert_business_account_mappings s setup combinations =
     (let policy = document_kind_policy (ds_kind s) in
      bindE (case combinations (ds_control s) of
          None \<Rightarrow> Inl ControlCombinationMismatch
        | Some k \<Rightarrow> require (ac_account k = as_control_account setup \<and> ac_control k = control_of (dp_control policy))
                  ControlCombinationMismatch) (\<lambda>_.
      bindE (foldE (\<lambda>_ l. case combinations (sl_account l) of
            None \<Rightarrow> Inl LineOnControlAccount
          | Some k \<Rightarrow>
              bindE (require (ac_control k = NoControl) LineOnControlAccount) (\<lambda>_.
              if ds_kind s = SalesInvoice then require (ac_class k = RevenueAccount) LineAccountClass
              else require (ac_class k = ExpenseAccount \<or> ac_class k = AssetAccount) LineAccountClass))
          () (ds_lines s)) (\<lambda>_.
      bindE (case ds_tax_account s of
          None \<Rightarrow> Inr ()
        | Some t \<Rightarrow> assert_tax_account s (combinations t)) (\<lambda>_.
      case ds_rounding_account s of
        None \<Rightarrow> Inr ()
      | Some r \<Rightarrow> require (map_option ac_control (combinations r) = Some NoControl) RoundingOnControlAccount))))"

section \<open>Tax registrations and packs\<close>

text \<open>\<open>registrationDestinationMatches\<close>; an empty text counts as none.\<close>

definition nonempty :: "string option \<Rightarrow> string option" where
  "nonempty v = (if truthy v then v else None)"

definition registration_destination_matches :: "registration_row \<Rightarrow> tax_facts \<Rightarrow> bool" where
  "registration_destination_matches r f \<longleftrightarrow>
     rg_country r = Some (tf_country f) \<and> rg_region r = Some (tf_region f)
     \<and> ((rg_regime r = ''ca.on.hst'' \<and> rg_country r = Some ''CA'' \<and> rg_region r = Some ''ON'')
        \<or> (rg_city r = nonempty (tf_city f) \<and> rg_location r = nonempty (tf_location f)))"

text \<open>The latest scope of a registration overrides its city and location.\<close>

definition latest_scope :: "setup_tables \<Rightarrow> string \<Rightarrow> registration_scope_row option" where
  "latest_scope S rid =
     (let own = filter (\<lambda>g. gs_registration g = rid) (st_scopes S)
      in List.find (\<lambda>g. list_all (\<lambda>h. gs_version h \<le> gs_version g) own) own)"

definition effective_registration :: "setup_tables \<Rightarrow> registration_row \<Rightarrow> registration_row" where
  "effective_registration S r =
     (case latest_scope S (rg_id r) of
        None \<Rightarrow> r
      | Some g \<Rightarrow> r\<lparr>rg_city := gs_city g, rg_location := gs_location g\<rparr>)"

definition find_registration :: "setup_tables \<Rightarrow> string \<Rightarrow> string \<Rightarrow> registration_row option" where
  "find_registration S entity rid =
     map_option (effective_registration S)
       (List.find (\<lambda>r. rg_entity r = entity \<and> rg_id r = rid) (st_registrations S))"

text \<open>The first loop: the facts of a decision are those of its line, and name a registration.\<close>

definition assert_line_tax_facts :: "schema_formats \<Rightarrow> document_snapshot \<Rightarrow> snapshot_line \<Rightarrow> setup_error + unit" where
  "assert_line_tax_facts F s l =
     (let d = sl_decision l; f = td_facts d; t = sl_tax l in
      bindE (throw_if (td_pack_key d \<noteq> ti_pack t \<or> tf_tax_point f \<noteq> ds_document_date s
          \<or> tf_country f \<noteq> ti_country t \<or> tf_region f \<noteq> ti_region t \<or> tf_city f \<noteq> ti_city t
          \<or> tf_location f \<noteq> ti_location t \<or> tf_registration f \<noteq> ti_registration t)
        (TaxFactsMismatch (sl_number l))) (\<lambda>_.
      if \<not> truthy (tf_registration f) \<and> td_pack_key d = ''generic.unsupported'' then Inr ()
      else
        bindE (require (truthy (tf_registration f)) (RegistrationRequired (sl_number l))) (\<lambda>_.
        require (is_uuid F (or_else (tf_registration f) [])) (RegistrationReferenceInvalid (sl_number l)))))"

definition assert_line_registration ::
  "setup_tables \<Rightarrow> document_snapshot \<Rightarrow> snapshot_line \<Rightarrow> setup_error + unit" where
  "assert_line_registration S s l =
     (let f = td_facts (sl_decision l) in
      if \<not> truthy (tf_registration f) then Inr ()
      else
        bindE (option_to_result (RegistrationMissing (sl_number l))
          (find_registration S (ds_entity s) (or_else (tf_registration f) []))) (\<lambda>r.
        bindE (require (rg_regime r = td_pack_key (sl_decision l)) (RegistrationPackMismatch (sl_number l))) (\<lambda>_.
        bindE (require (registration_destination_matches r f)
          (RegistrationDestinationMismatch (sl_number l))) (\<lambda>_.
        throw_if (ds_document_date s < rg_valid_from r
            \<or> (case rg_valid_to r of None \<Rightarrow> False | Some d \<Rightarrow> ds_document_date s > d))
          (RegistrationNotActive (sl_number l))))))"

definition assert_tax_registration_bindings ::
  "schema_formats \<Rightarrow> setup_tables \<Rightarrow> document_snapshot \<Rightarrow> setup_error + unit" where
  "assert_tax_registration_bindings F S s =
     bindE (foldE (\<lambda>_ l. assert_line_tax_facts F s l) () (ds_lines s)) (\<lambda>_.
     foldE (\<lambda>_ l. assert_line_registration S s l) () (ds_lines s))"

text \<open>The key of a pack version in the maps of the code.\<close>

definition pack_identity :: "string \<Rightarrow> string \<Rightarrow> string" where
  "pack_identity key version = key @ '':'' @ version"

definition line_pack_identity :: "snapshot_line \<Rightarrow> string" where
  "line_pack_identity l = pack_identity (td_pack_key (sl_decision l)) (td_pack_version (sl_decision l))"

definition load_tax_pack_versions ::
  "setup_tables \<Rightarrow> document_snapshot \<Rightarrow> setup_error + (string \<Rightarrow> pack_version_row option)" where
  "load_tax_pack_versions S s =
     (let identities = map_of (map (\<lambda>l. (line_pack_identity l,
            (td_pack_key (sl_decision l), td_pack_version (sl_decision l)))) (rev (ds_lines s)));
          rows = filter (\<lambda>r. list_ex (\<lambda>l. identities (line_pack_identity l) = Some (pv_key r, pv_version r))
            (ds_lines s)) (st_packs S);
          versions = map_of (map (\<lambda>r. (pack_identity (pv_key r) (pv_version r), r)) (rev rows));
          installed = length (remdups (map (\<lambda>r. pack_identity (pv_key r) (pv_version r)) rows));
          wanted = length (remdups (map line_pack_identity (ds_lines s)))
      in bindE (require (installed = wanted) PackVersionsNotInstalled) (\<lambda>_.
         bindE (foldE (\<lambda>_ l. case versions (line_pack_identity l) of
               None \<Rightarrow> Inl (PackNotApproved (sl_number l))
             | Some v \<Rightarrow> throw_if (ds_document_date s < pv_from v
                   \<or> (case pv_to v of None \<Rightarrow> False | Some d \<Rightarrow> ds_document_date s > d))
                 (PackNotApproved (sl_number l))) () (ds_lines s)) (\<lambda>_.
         Inr versions)))"

section \<open>The checks of a document and of a settlement\<close>

definition tax_account_classes :: "document_snapshot \<Rightarrow> ledger_class list option" where
  "tax_account_classes s =
     (if ds_kind s = SalesInvoice then Some [LiabilityAccount]
      else if SelfAssessedPayable \<in> set (document_treatments s) then Some [LiabilityAccount]
      else if Recoverable \<in> set (document_treatments s) then Some [AssetAccount, ExpenseAccount]
      else None)"

definition document_references :: "document_snapshot \<Rightarrow> accounting_setup \<Rightarrow> combination_reference list" where
  "document_references s setup =
     \<lparr>cr_field = ''controlAccountCombinationId'', cr_line = None, cr_combination = ds_control s,
      cr_account = Some (as_control_account setup), cr_classes = None,
      cr_controls = Some [control_of (dp_control (document_kind_policy (ds_kind s)))]\<rparr>
     # map (\<lambda>l. \<lparr>cr_field = ''lines['' @ int_text (int (sl_number l) - 1) @ ''].accountCombinationId'',
          cr_line = Some (sl_number l), cr_combination = sl_account l, cr_account = None,
          cr_classes = Some (if ds_kind s = SalesInvoice then [RevenueAccount] else [ExpenseAccount, AssetAccount]),
          cr_controls = Some [NoControl]\<rparr>) (ds_lines s)
     @ (if truthy (ds_tax_account s)
        then [\<lparr>cr_field = ''taxAccountCombinationId'', cr_line = None,
               cr_combination = or_else (ds_tax_account s) [], cr_account = None,
               cr_classes = tax_account_classes s, cr_controls = Some [NoControl]\<rparr>] else [])
     @ (if truthy (ds_rounding_account s)
        then [\<lparr>cr_field = ''fxRoundingAccountCombinationId'', cr_line = None,
               cr_combination = or_else (ds_rounding_account s) [], cr_account = None,
               cr_classes = None, cr_controls = Some [NoControl]\<rparr>] else [])"

definition validate_draft_configuration ::
  "schema_formats \<Rightarrow> setup_tables \<Rightarrow> document_snapshot \<Rightarrow> setup_error + accounting_setup" where
  "validate_draft_configuration F S s =
     bindE (load_accounting_setup S (ds_ledger s) (ds_entity s) (ds_period s) (ds_party s)) (\<lambda>setup.
     bindE (assert_routine_setup setup (ds_accounting_date s) (ds_currency s)
       (dp_role (document_kind_policy (ds_kind s)))) (\<lambda>_.
     bindE (require (as_functional setup = ds_functional s) FunctionalCurrencyMismatch) (\<lambda>_.
     bindE (load_account_combinations S (ds_ledger s) (ds_entity s) (ds_accounting_date s)
       (document_references s setup)) (\<lambda>combinations.
     bindE (assert_business_account_mappings s setup combinations) (\<lambda>_.
     bindE (assert_tax_registration_bindings F S s) (\<lambda>_.
     bindE (load_tax_pack_versions S s) (\<lambda>_.
     Inr setup)))))))"

fun class_of :: "funding_class \<Rightarrow> ledger_class" where
  "class_of AssetClass = AssetAccount"
| "class_of LiabilityClass = LiabilityAccount"

definition role_control :: "party_role \<Rightarrow> account_control" where
  "role_control r = (if r = CustomerParty then ReceivableControl else PayableControl)"

definition settlement_references ::
  "'m settlement_fields_scheme \<Rightarrow> accounting_setup \<Rightarrow> settlement_method \<times> string \<times> funding_class
     \<Rightarrow> combination_reference list" where
  "settlement_references c setup = (\<lambda>(funding, account, class).
     [\<lparr>cr_field = ''controlAccountCombinationId'', cr_line = None, cr_combination = sc_control c,
       cr_account = Some (as_control_account setup), cr_classes = None,
       cr_controls = Some [role_control (sp_role (settlement_kind_policy (sc_kind c)))]\<rparr>,
      \<lparr>cr_field = (if funding = Bank then ''bankAccountCombinationId'' else ''settlementAccountCombinationId''),
       cr_line = None, cr_combination = account, cr_account = None,
       cr_classes = Some [class_of class], cr_controls = Some [NoControl]\<rparr>,
      \<lparr>cr_field = ''realizedFxGainAccountCombinationId'', cr_line = None, cr_combination = sc_gain c,
       cr_account = None, cr_classes = Some [RevenueAccount], cr_controls = Some [NoControl]\<rparr>,
      \<lparr>cr_field = ''realizedFxLossAccountCombinationId'', cr_line = None, cr_combination = sc_loss c,
       cr_account = None, cr_classes = Some [ExpenseAccount], cr_controls = Some [NoControl]\<rparr>]
     @ (if truthy (sc_rounding_account c)
        then [\<lparr>cr_field = ''fxRoundingAccountCombinationId'', cr_line = None,
               cr_combination = or_else (sc_rounding_account c) [], cr_account = None,
               cr_classes = None, cr_controls = Some [NoControl]\<rparr>] else []))"

definition assert_settlement_mappings ::
  "'m settlement_fields_scheme \<Rightarrow> accounting_setup \<Rightarrow> (string \<Rightarrow> account_combination option)
     \<Rightarrow> setup_error + unit" where
  "assert_settlement_mappings c setup combinations =
     (let holds = (\<lambda>cid p. case combinations cid of None \<Rightarrow> False | Some k \<Rightarrow> p k) in
      bindE (require (holds (sc_control c) (\<lambda>k. ac_account k = as_control_account setup
          \<and> ac_control k = role_control (sp_role (settlement_kind_policy (sc_kind c))))) ControlCombinationMismatch) (\<lambda>_.
      bindE (map_errorE SetupFunding (resolve_settlement_funding (funding_of c))) (\<lambda>(funding, account, class).
      bindE (require (holds account (\<lambda>k. ac_control k = NoControl \<and> ac_class k = class_of class))
        FundingAccountMismatch) (\<lambda>_.
      bindE (require (holds (sc_gain c) (\<lambda>k. ac_control k = NoControl \<and> ac_class k = RevenueAccount))
        GainAccountMismatch) (\<lambda>_.
      bindE (require (holds (sc_loss c) (\<lambda>k. ac_control k = NoControl \<and> ac_class k = ExpenseAccount))
        LossAccountMismatch) (\<lambda>_.
      throw_if (truthy (sc_rounding_account c)
          \<and> \<not> holds (or_else (sc_rounding_account c) []) (\<lambda>k. ac_control k = NoControl))
        RoundingOnControlAccount))))))"

text \<open>\<open>draftRequiresSourceTaxReviewPermission\<close>\<close>

definition draft_requires_source_tax_review :: "document_line_input list \<Rightarrow> bool" where
  "draft_requires_source_tax_review ls =
     list_ex (\<lambda>l. ti_rounding (li_tax l) \<noteq> None \<or> Option.bind (ti_override (li_tax l)) ov_reviewed \<noteq> None) ls"

end
