(* ===== verification/DecimalText.thy ===== *)
theory DecimalText
  imports DecimalRef
begin

text \<open>
  The text \<open>toFixed()\<close> gives of a decimal: plain digits with no more decimal places than
  the value needs.  The interface \<open>decimal_text\<close> adds this law to \<open>decimal_lib\<close>; the
  reference arithmetic satisfies it.
\<close>

locale decimal_text = decimal_lib +
  assumes plain_shape: "dec_finite D a \<Longrightarrow> 0 < val a \<Longrightarrow> scaled n (val a) \<Longrightarrow>
    unsigned_decimal n (dec_plain D a)"

section \<open>The reference arithmetic\<close>

lemma strip_zeros_least: "strip_zeros c k = (m, n) \<Longrightarrow> n = 0 \<or> m mod 10 \<noteq> 0"
  by (induction c k rule: strip_zeros.induct) (auto split: if_splits)

lemma unsigned_text_shape:
  assumes "0 \<le> m" "k \<le> n"
  shows "unsigned_decimal n (unsigned_text k m)"
proof (cases "k = 0")
  case True
  then show ?thesis
    using takeWhile_digits [of "nat_text m" "[]"] nat_text_digits [of m]
    by (simp add: unsigned_text_def unsigned_decimal_def del: takeWhile_eq_all_conv dropWhile_eq_Nil_conv)
next
  case False
  let ?w = "nat_text (m div 10 ^ k)" and ?f = "padded_text k (m mod 10 ^ k)"
  have "length ?f = k" "all_digits ?f"
    using padded_text [of "m mod 10 ^ k" k] False by simp_all
  moreover have "\<not> is_digit (CHR ''.'')" by (simp add: is_digit_def char_between_def)
  ultimately show ?thesis
    using takeWhile_digits [of ?w "''.'' @ ?f"] nat_text_digits [of "m div 10 ^ k"] False assms(2)
    by (auto simp: unsigned_text_def unsigned_decimal_def Let_def all_digits_def)
qed

lemma least_places:
  assumes "of_int m / 10 ^ k = (q :: rat)" "scaled n q" "k = 0 \<or> m mod 10 \<noteq> 0"
  shows "k \<le> n"
proof (rule ccontr)
  assume "\<not> k \<le> n"
  then obtain j where k: "k = n + Suc j" using less_imp_Suc_add [of n k] by auto
  obtain c where "q = of_int c / 10 ^ n" using assms(2) by (auto simp: scaled_def)
  with assms(1) have "of_int m = (of_int (c * 10 ^ Suc j) :: rat)"
    by (simp add: k power_add field_simps)
  then have "m = c * 10 ^ Suc j" by (simp only: of_int_eq_iff)
  then have "m mod 10 = 0" by simp
  then show False using assms(3) k by simp
qed

lemma ref_plain_shape:
  assumes "0 < ref_val (Fin c k)" "scaled n (ref_val (Fin c k))"
  shows "unsigned_decimal n (ref_plain (Fin c k))"
proof -
  obtain m j where s: "strip_zeros c k = (m, j)" by (cases "strip_zeros c k")
  have v: "of_int m / 10 ^ j = ref_val (Fin c k)" using strip_zeros_val [OF s] by simp
  then have "0 < m" using assms(1) by (metis of_int_0_less_iff zero_less_divide_iff zero_less_power
      zero_less_numeral order_less_asym)
  moreover have "j \<le> n" by (rule least_places [OF v assms(2) strip_zeros_least [OF s]])
  ultimately show ?thesis using unsigned_text_shape [of m j n] s by (simp add: fixed_text_def)
qed

interpretation reftext: decimal_text ref_api ref_val rnd50
proof
  fix a n
  assume a: "dec_finite ref_api a" "0 < ref_val a" "scaled n (ref_val a)"
  show "unsigned_decimal n (dec_plain ref_api a)"
  proof (cases a)
    case (Fin c k)
    then show ?thesis using a ref_plain_shape [of c k n]
      by (simp add: ref_api_def del: ref_plain.simps ref_val.simps)
  qed (use a in \<open>simp add: ref_api_def\<close>)
qed

end
