(* ===== verification/FxResolver.thy ===== *)
theory FxResolver
  imports DocumentSchemas DecimalText
begin

text \<open>
  \<open>fx/rate-resolver.ts\<close>: which exchange rate a document or settlement gets, and the
  evidence recorded with it.  The tables it reads are the organization's stored rates,
  its enabled currencies and the versions of its provider policy
  (\<open>fx/provider-policy.ts\<close>).  What the provider adapters return for a request is a
  parameter: they fetch over the network, and the resolver trusts nothing they return
  without checking it.  Instants are integers of milliseconds; \<open>Date.parse\<close>,
  \<open>toISOString\<close> and the clock are parameters.  The lemmas show that the check between the
  fields of the snapshot schema (\<open>fx_snapshot_issues\<close>) finds nothing in a resolved rate, and
  when the whole schema (\<open>parse_fx_snapshot\<close>) takes it; \<open>toFixed()\<close> is the interface
  \<open>decimal_text\<close>.
\<close>

section \<open>Definitions\<close>

record fx_clock =
  fc_parse :: "string \<Rightarrow> int option"
  fc_iso :: "int \<Rightarrow> string"
  fc_start :: int
  fc_statement :: int
  fc_now :: int

record quote_leg =
  ql_currency :: string
  ql_rate :: string
  ql_observed_date :: string
  ql_series :: string

record central_observation =
  co_rate :: string
  co_observed_at :: string
  co_source :: string
  co_target :: string
  co_calculation :: fx_calculation
  co_formula :: fx_formula
  co_legs :: "quote_leg list"
  co_retrieved_at :: string
  co_sha :: string

record yahoo_observation =
  yo_rate :: string
  yo_observed_at :: string
  yo_symbol :: string
  yo_retrieved_at :: string
  yo_sha :: string

text \<open>The adapters on source currency, target currency and date; \<open>None\<close>: they throw.\<close>

record fx_providers =
  pv_boc :: "string \<Rightarrow> string \<Rightarrow> string \<Rightarrow> central_observation option"
  pv_ecb :: "string \<Rightarrow> string \<Rightarrow> string \<Rightarrow> central_observation option"
  pv_yahoo :: "string \<Rightarrow> string \<Rightarrow> string \<Rightarrow> yahoo_observation option"
  pv_yahoo_enabled :: bool

datatype provider_mode = StoredOnly | BankOfCanadaMode | EuropeanCentralBankMode | YahooExperimentalMode

record provider_policy =
  pp_id :: "string option"
  pp_version :: int
  pp_mode :: provider_mode
  pp_lookback :: int
  pp_acknowledged :: bool

record rate_row =
  rt_id :: string
  rt_source_currency :: string
  rt_target_currency :: string
  rt_rate :: string
  rt_effective :: int
  rt_source :: string
  rt_created :: int

record fx_tables =
  xt_rates :: "rate_row list"
  xt_enabled :: "string list"
  xt_policies :: "provider_policy list"

datatype fx_resolution_error =
    FxRateUnavailable
  | FxMoney money_error
  | FxDateInvalid
  | FxRequestInvalid

definition default_provider_policy :: provider_policy where
  "default_provider_policy = \<lparr>pp_id = None, pp_version = 0, pp_mode = StoredOnly, pp_lookback = 7,
     pp_acknowledged = False\<rparr>"

text \<open>\<open>ORDER BY ... LIMIT 1\<close>: the first row no other row precedes.\<close>

definition first_by :: "('a \<Rightarrow> 'a \<Rightarrow> bool) \<Rightarrow> 'a list \<Rightarrow> 'a option" where
  "first_by before rows = List.find (\<lambda>r. list_all (\<lambda>s. \<not> before s r) rows) rows"

definition read_provider_policy :: "fx_tables \<Rightarrow> provider_policy" where
  "read_provider_policy T =
     or_else (first_by (\<lambda>p q. pp_version p > pp_version q
         \<or> (pp_version p = pp_version q \<and> or_else (pp_id p) [] > or_else (pp_id q) [])) (xt_policies T))
       default_provider_policy"

text \<open>The query of the stored rate; dates compare by their UTC day.\<close>

definition later_rate :: "rate_row \<Rightarrow> rate_row \<Rightarrow> bool" where
  "later_rate a b \<longleftrightarrow> rt_effective a > rt_effective b
     \<or> (rt_effective a = rt_effective b \<and> (rt_created a > rt_created b
        \<or> (rt_created a = rt_created b \<and> rt_id a > rt_id b)))"

definition applicable_rates :: "fx_tables \<Rightarrow> string \<Rightarrow> string \<Rightarrow> int \<Rightarrow> rate_row list" where
  "applicable_rates T source target as_of =
     filter (\<lambda>r. rt_source_currency r = source \<and> rt_target_currency r = target
         \<and> source \<in> set (xt_enabled T) \<and> target \<in> set (xt_enabled T)
         \<and> rt_effective r div day_ms \<le> as_of div day_ms) (xt_rates T)"

definition stored_rate :: "fx_tables \<Rightarrow> string \<Rightarrow> string \<Rightarrow> int \<Rightarrow> rate_row option" where
  "stored_rate T source target as_of = first_by later_rate (applicable_rates T source target as_of)"

definition core_provenance :: "fx_mode \<Rightarrow> string \<Rightarrow> string \<Rightarrow> fx_provenance" where
  "core_provenance mode as_of resolved =
     \<lparr>fp_mode = mode, fp_as_of_date = as_of, fp_resolved_at = resolved,
      fp_policy_key = (if mode = FunctionalRate then ''FUNCTIONAL_IDENTITY'' else ''CALLER_EXPLICIT''),
      fp_policy_version = 1, fp_organization_rate = None, fp_rate_recorded_at = None, fp_provider = None,
      fp_symbol = None, fp_source_currency = None, fp_target_currency = None, fp_observed_at = None,
      fp_retrieved_at = None, fp_response_sha = None, fp_max_lookback = None, fp_calculation = None,
      fp_formula = None, fp_legs = None\<rparr>"

definition stored_provenance :: "fx_clock \<Rightarrow> string \<Rightarrow> rate_row \<Rightarrow> fx_provenance" where
  "stored_provenance C as_of r =
     (core_provenance OrganizationRate as_of (fc_iso C (fc_statement C)))
       \<lparr>fp_policy_key := ''STORED_DIRECT_LATEST_EFFECTIVE_UTC_DATE'',
        fp_organization_rate := Some (rt_id r), fp_rate_recorded_at := Some (fc_iso C (rt_created r))\<rparr>"

subsection \<open>Checks on provider observations\<close>

definition canonical_timestamp :: "fx_clock \<Rightarrow> string \<Rightarrow> bool" where
  "canonical_timestamp C s = (case fc_parse C s of None \<Rightarrow> False | Some t \<Rightarrow> fc_iso C t = s)"

definition positive_decimal :: "'d decimal_api \<Rightarrow> string \<Rightarrow> bool" where
  "positive_decimal D s = (case exact D (TextIn s) of Inl _ \<Rightarrow> False | Inr d \<Rightarrow> dec_gt D d (dec_int D 0))"

text \<open>\<open>/^[a-f0-9]{64}$/\<close>\<close>

definition sha_text :: "string \<Rightarrow> bool" where
  "sha_text s \<longleftrightarrow> length s = 64 \<and> list_all (\<lambda>c. is_digit c \<or> char_between (CHR ''a'') (CHR ''f'') c) s"

definition midnight :: "fx_clock \<Rightarrow> string \<Rightarrow> int option" where
  "midnight C d = fc_parse C (d @ ''T00:00:00.000Z'')"

definition valid_provider_window ::
  "'d decimal_api \<Rightarrow> fx_clock \<Rightarrow> string \<Rightarrow> string \<Rightarrow> string \<Rightarrow> string \<Rightarrow> string \<Rightarrow> int \<Rightarrow> bool" where
  "valid_provider_window D C observed_at retrieved_at sha rate as_of lookback =
     (case (midnight C as_of, fc_parse C observed_at, fc_parse C retrieved_at) of
        (Some start, Some observed, Some retrieved) \<Rightarrow>
          1 \<le> lookback \<and> lookback \<le> 7 \<and> canonical_timestamp C observed_at \<and> canonical_timestamp C retrieved_at
          \<and> sha_text sha \<and> positive_decimal D rate \<and> observed \<le> retrieved \<and> retrieved \<le> fc_now C
          \<and> start - lookback * day_ms \<le> observed \<and> observed < start + day_ms
      | _ \<Rightarrow> False)"

text \<open>\<open>yahooDirectFxSymbol\<close> throws for equal or malformed codes.\<close>

definition yahoo_direct_symbol :: "string \<Rightarrow> string \<Rightarrow> string option" where
  "yahoo_direct_symbol source target =
     (let s = to_upper (trim source); t = to_upper (trim target) in
      if upper_code 3 s \<and> upper_code 3 t \<and> s \<noteq> t
      then Some (if s = ''USD'' then t @ ''=X'' else s @ t @ ''=X'') else None)"

definition valid_yahoo_observation ::
  "'d decimal_api \<Rightarrow> fx_clock \<Rightarrow> yahoo_observation \<Rightarrow> string \<Rightarrow> string \<Rightarrow> string \<Rightarrow> int
     \<Rightarrow> fx_resolution_error + bool" where
  "valid_yahoo_observation D C x source target as_of lookback =
     (if valid_provider_window D C (yo_observed_at x) (yo_retrieved_at x) (yo_sha x) (yo_rate x) as_of lookback
      then bindE (option_to_result FxRequestInvalid (yahoo_direct_symbol source target)) (\<lambda>s.
           Inr (yo_symbol x = s))
      else Inr False)"

definition bank_of_canada_expectation :: "string \<Rightarrow> string \<Rightarrow> fx_calculation \<times> fx_formula \<times> string list" where
  "bank_of_canada_expectation source target =
     (if target = ''CAD'' then (DirectToCad, CadPerSource, [source])
      else if source = ''CAD'' then (InverseFromCad, OneOverCadPerTarget, [target])
      else (CrossViaCad, CadPerSourceOverCadPerTarget, [source, target]))"

definition ecb_expectation :: "string \<Rightarrow> string \<Rightarrow> fx_calculation \<times> fx_formula \<times> string list" where
  "ecb_expectation source target =
     (if source = ''EUR'' then (DirectFromEur, TargetPerEur, [target])
      else if target = ''EUR'' then (InverseToEur, OneOverSourcePerEur, [source])
      else (CrossViaEur, TargetPerEurOverSourcePerEur, [source, target]))"

definition bank_of_canada_currencies :: "string list" where
  "bank_of_canada_currencies = [
     ''AUD'', ''BRL'', ''CHF'', ''CNY'', ''EUR'', ''GBP'', ''HKD'', ''IDR'', ''INR'',
     ''JPY'', ''KRW'', ''MXN'', ''MYR'', ''NOK'', ''NZD'', ''PEN'', ''PLN'', ''RUB'',
     ''SAR'', ''SEK'', ''SGD'', ''THB'', ''TRY'', ''TWD'', ''USD'', ''VND'', ''ZAR'']"

text \<open>\<open>bankOfCanadaFxSeriesKey\<close>; \<open>None\<close>: it throws.\<close>

definition bank_of_canada_series_key :: "string \<Rightarrow> string option" where
  "bank_of_canada_series_key currency =
     (let c = to_upper (trim currency) in
      if upper_code 3 c \<and> c \<noteq> ''CAD'' \<and> c \<in> set bank_of_canada_currencies then Some (boc_series c) else None)"

text \<open>The rate the legs give; \<open>None\<close>: a leg is missing and the calculation throws.\<close>

definition leg_calculation :: "'d decimal_api \<Rightarrow> fx_calculation \<Rightarrow> 'd list \<Rightarrow> 'd option" where
  "leg_calculation D calculation rates =
     (case rates of
        [] \<Rightarrow> None
      | a # rest \<Rightarrow>
          if calculation \<in> {DirectToCad, DirectFromEur} then Some a
          else if calculation \<in> {InverseFromCad, InverseToEur} then Some (dec_div D (dec_int D 1) a)
          else (case rest of
                  [] \<Rightarrow> None
                | b # _ \<Rightarrow> Some (if calculation = CrossViaCad then dec_div D a b else dec_div D b a)))"

text \<open>The body both central banks share: a throw inside the \<open>try\<close> counts as invalid.\<close>

definition valid_central_observation ::
  "'d decimal_api \<Rightarrow> fx_clock \<Rightarrow> fx_calculation \<times> fx_formula \<times> string list \<Rightarrow> (string \<Rightarrow> string option)
     \<Rightarrow> central_observation \<Rightarrow> string \<Rightarrow> string \<Rightarrow> string \<Rightarrow> int \<Rightarrow> bool" where
  "valid_central_observation D C = (\<lambda>(calculation, formula, currencies) series x source target as_of lookback.
     (case mapE (\<lambda>l. exact D (TextIn (ql_rate l))) (co_legs x) of
        Inl _ \<Rightarrow> False
      | Inr rates \<Rightarrow>
          (case (leg_calculation D calculation rates, exact D (TextIn (co_rate x))) of
             (Some calculated, Inr rate) \<Rightarrow>
               dec_eq D (dec_places D 18 rate) (dec_places D 18 calculated)
               \<and> co_source x = source \<and> co_target x = target
               \<and> co_calculation x = calculation \<and> co_formula x = formula
               \<and> length (co_legs x) = length currencies
               \<and> list_all2 (\<lambda>l c. ql_currency l = c \<and> Some (ql_series l) = series (ql_currency l)
                     \<and> ql_observed_date l = take 10 (co_observed_at x) \<and> positive_decimal D (ql_rate l))
                   (co_legs x) currencies
               \<and> valid_provider_window D C (co_observed_at x) (co_retrieved_at x) (co_sha x) (co_rate x)
                   as_of lookback
           | _ \<Rightarrow> False)))"

definition valid_bank_of_canada_observation ::
  "'d decimal_api \<Rightarrow> fx_clock \<Rightarrow> central_observation \<Rightarrow> string \<Rightarrow> string \<Rightarrow> string \<Rightarrow> int \<Rightarrow> bool" where
  "valid_bank_of_canada_observation D C x source target =
     valid_central_observation D C (bank_of_canada_expectation source target) bank_of_canada_series_key
       x source target"

definition valid_ecb_observation ::
  "'d decimal_api \<Rightarrow> fx_clock \<Rightarrow> central_observation \<Rightarrow> string \<Rightarrow> string \<Rightarrow> string \<Rightarrow> int \<Rightarrow> bool" where
  "valid_ecb_observation D C x source target =
     valid_central_observation D C (ecb_expectation source target) (\<lambda>c. Some (ecb_series c)) x source target"

subsection \<open>Resolution\<close>

text \<open>What is recorded of a provider's rate, apart from a central bank's legs.\<close>

definition provider_provenance ::
  "fx_clock \<Rightarrow> provider_policy \<Rightarrow> fx_provider \<Rightarrow> string \<Rightarrow> string \<Rightarrow> string \<Rightarrow> string \<Rightarrow> string \<Rightarrow> string \<Rightarrow> string
     \<Rightarrow> string \<Rightarrow> fx_provenance" where
  "provider_provenance C p provider policy symbol source target as_of observed retrieved sha =
     (core_provenance ProviderRate as_of (fc_iso C (fc_now C)))
       \<lparr>fp_policy_key := policy, fp_policy_version := pp_version p, fp_provider := Some provider,
        fp_symbol := Some symbol, fp_source_currency := Some source, fp_target_currency := Some target,
        fp_observed_at := Some observed, fp_retrieved_at := Some retrieved, fp_response_sha := Some sha,
        fp_max_lookback := Some (pp_lookback p)\<rparr>"

definition provider_leg :: "leg_convention \<Rightarrow> quote_leg \<Rightarrow> fx_leg" where
  "provider_leg convention l = \<lparr>leg_currency = ql_currency l, leg_rate = ql_rate l, leg_convention = convention,
     leg_observed_date = ql_observed_date l, leg_series_key = ql_series l\<rparr>"

definition central_bank_rate ::
  "'d decimal_api \<Rightarrow> fx_clock \<Rightarrow> provider_policy \<Rightarrow> fx_provider \<Rightarrow> string \<Rightarrow> leg_convention
     \<Rightarrow> central_observation \<Rightarrow> string \<Rightarrow> string \<Rightarrow> string \<Rightarrow> fx_resolution_error + fx_snapshot" where
  "central_bank_rate D C p provider policy convention x source target as_of =
     bindE (map_errorE FxMoney (exact D (TextIn (co_rate x)))) (\<lambda>rate.
     Inr \<lparr>fx_rate = dec_plain D (dec_places D 18 rate), fx_source = provider_attribution provider,
       fx_effective_at = co_observed_at x,
       fx_prov = Some ((provider_provenance C p provider policy (join ''+'' (map ql_series (co_legs x)))
           source target as_of (co_observed_at x) (co_retrieved_at x) (co_sha x))
         \<lparr>fp_calculation := Some (co_calculation x), fp_formula := Some (co_formula x),
          fp_legs := Some (map (provider_leg convention) (co_legs x))\<rparr>)\<rparr>)"

definition provider_rate ::
  "'d decimal_api \<Rightarrow> fx_clock \<Rightarrow> fx_providers \<Rightarrow> provider_policy \<Rightarrow> string \<Rightarrow> string \<Rightarrow> string
     \<Rightarrow> fx_resolution_error + fx_snapshot" where
  "provider_rate D C V p source target as_of =
     bindE (throw_if (pp_version p \<le> 0) FxRateUnavailable) (\<lambda>_.
     if pp_mode p = BankOfCanadaMode then
       bindE (option_to_result FxRateUnavailable (pv_boc V source target as_of)) (\<lambda>x.
       bindE (throw_if (\<not> valid_bank_of_canada_observation D C x source target as_of (pp_lookback p))
         FxRateUnavailable) (\<lambda>_.
       central_bank_rate D C p BankOfCanada ''BANK_OF_CANADA_DAILY_REFERENCE_RATE'' CadPerCurrencyUnit
         x source target as_of))
     else if pp_mode p = EuropeanCentralBankMode then
       bindE (option_to_result FxRateUnavailable (pv_ecb V source target as_of)) (\<lambda>x.
       bindE (throw_if (\<not> valid_ecb_observation D C x source target as_of (pp_lookback p))
         FxRateUnavailable) (\<lambda>_.
       central_bank_rate D C p EuropeanCentralBank ''EUROPEAN_CENTRAL_BANK_REFERENCE_RATE'' CurrencyUnitsPerEur
         x source target as_of))
     else
       bindE (throw_if (pp_mode p \<noteq> YahooExperimentalMode \<or> \<not> pp_acknowledged p) FxRateUnavailable) (\<lambda>_.
       bindE (throw_if (\<not> pv_yahoo_enabled V) FxRateUnavailable) (\<lambda>_.
       bindE (option_to_result FxRateUnavailable (pv_yahoo V source target as_of)) (\<lambda>x.
       bindE (valid_yahoo_observation D C x source target as_of (pp_lookback p)) (\<lambda>valid.
       bindE (throw_if (\<not> valid) FxRateUnavailable) (\<lambda>_.
       bindE (map_errorE FxMoney (exact D (TextIn (yo_rate x)))) (\<lambda>rate.
       Inr \<lparr>fx_rate = dec_plain D (dec_places D 18 rate), fx_source = provider_attribution YahooFinance,
         fx_effective_at = yo_observed_at x,
         fx_prov = Some (provider_provenance C p YahooFinance
           ''YAHOO_FINANCE_EXPERIMENTAL_DIRECT_DAILY_CLOSE'' (yo_symbol x) source target as_of
           (yo_observed_at x) (yo_retrieved_at x) (yo_sha x))\<rparr>)))))))"

definition resolve_fx ::
  "'d decimal_api \<Rightarrow> fx_clock \<Rightarrow> fx_providers \<Rightarrow> fx_tables \<Rightarrow> string \<Rightarrow> string \<Rightarrow> string \<Rightarrow> fx_snapshot option
     \<Rightarrow> fx_resolution_error + fx_snapshot" where
  "resolve_fx D C V T transaction_currency functional_currency as_of explicit =
     (let source = to_upper (trim transaction_currency); target = to_upper (trim functional_currency);
          resolved = fc_iso C (fc_start C) in
      bindE (case explicit of
          None \<Rightarrow> Inr None
        | Some x \<Rightarrow> map_errorE (\<lambda>_. FxRateUnavailable) (bindE (exact D (TextIn (fx_rate x))) (\<lambda>r. Inr (Some r))))
        (\<lambda>explicit_rate.
      if source = target then
        bindE (throw_if (\<exists>r \<in> set_option explicit_rate. \<not> dec_eq D r (dec_int D 1)) FxRateUnavailable) (\<lambda>_.
        Inr \<lparr>fx_rate = ''1'', fx_source = ''FUNCTIONAL'', fx_effective_at = as_of @ ''T00:00:00.000Z'',
          fx_prov = Some (core_provenance FunctionalRate as_of resolved)\<rparr>)
      else
        (case (explicit, explicit_rate) of
           (Some x, Some r) \<Rightarrow>
             bindE (throw_if (\<not> dec_gt D r (dec_int D 0)
                 \<or> (case (midnight C as_of, fc_parse C (fx_effective_at x)) of
                      (Some start, Some effective) \<Rightarrow> effective \<ge> start + day_ms
                    | _ \<Rightarrow> True)) FxRateUnavailable) (\<lambda>_.
             Inr (x\<lparr>fx_rate := dec_plain D r,
               fx_prov := Some (core_provenance ExplicitRate as_of resolved)\<rparr>))
         | _ \<Rightarrow>
             bindE (option_to_result FxDateInvalid (midnight C as_of)) (\<lambda>start.
             (case stored_rate T source target start of
                Some r \<Rightarrow>
                  bindE (map_errorE FxMoney (exact D (TextIn (rt_rate r)))) (\<lambda>rate.
                  Inr \<lparr>fx_rate = dec_plain D rate, fx_source = rt_source r,
                    fx_effective_at = fc_iso C (rt_effective r),
                    fx_prov = Some (stored_provenance C as_of r)\<rparr>)
              | None \<Rightarrow> provider_rate D C V (read_provider_policy T) source target as_of)))))"

section \<open>Lemmas\<close>

lemma first_by_in: "first_by before rows = Some r \<Longrightarrow> r \<in> set rows"
  by (auto simp: first_by_def find_Some_iff)

lemma first_by_first: "first_by before rows = Some r \<Longrightarrow> s \<in> set rows \<Longrightarrow> \<not> before s r"
  by (auto simp: first_by_def find_Some_iff list_all_iff)

lemma first_by_exists:
  assumes trans: "\<And>a b c. \<not> before a b \<Longrightarrow> \<not> before b c \<Longrightarrow> \<not> before a c"
    and asym: "\<And>a b. before a b \<Longrightarrow> \<not> before b a"
    and none: "first_by before rows = None"
  shows "rows = []"
proof (rule ccontr)
  assume "rows \<noteq> []"
  then have "\<exists>r \<in> set rows. \<forall>s \<in> set rows. \<not> before s r"
  proof (induction rows rule: list_nonempty_induct)
    case (single x)
    then show ?case using asym by auto
  next
    case (cons x xs)
    then obtain r where r: "r \<in> set xs" "\<forall>s \<in> set xs. \<not> before s r" by blast
    show ?case
    proof (cases "before x r")
      case True
      then have "\<forall>s \<in> set xs. \<not> before s x" using r(2) asym trans by blast
      then show ?thesis using asym by auto
    next
      case False
      then show ?thesis using r by auto
    qed
  qed
  then show False using none by (auto simp: first_by_def find_None_iff list_all_iff)
qed

lemma not_later_rate:
  "\<not> later_rate a b \<longleftrightarrow> rt_effective a < rt_effective b
     \<or> rt_effective a = rt_effective b \<and> (rt_created a < rt_created b
        \<or> rt_created a = rt_created b \<and> rt_id a \<le> rt_id b)"
  unfolding later_rate_def not_less [symmetric] by linarith

lemma later_rate_trans: "\<not> later_rate a b \<Longrightarrow> \<not> later_rate b c \<Longrightarrow> \<not> later_rate a c"
  unfolding not_later_rate by (elim disjE conjE) (auto dest: order_trans)

lemma later_rate_asym: "later_rate a b \<Longrightarrow> \<not> later_rate b a"
  unfolding later_rate_def by (elim disjE conjE) auto

lemma stored_rate_Some:
  assumes "stored_rate T s t d = Some r"
  shows "r \<in> set (applicable_rates T s t d)"
    and "r' \<in> set (applicable_rates T s t d) \<Longrightarrow> rt_effective r' \<le> rt_effective r"
  using first_by_in [OF assms [unfolded stored_rate_def]]
    first_by_first [OF assms [unfolded stored_rate_def], of r']
  by (auto simp: later_rate_def)

lemma stored_rate_None: "stored_rate T s t d = None \<Longrightarrow> applicable_rates T s t d = []"
  unfolding stored_rate_def by (rule first_by_exists [OF later_rate_trans later_rate_asym])

lemma expectations:
  "bank_of_canada_expectation s t = (c, f, cs) \<Longrightarrow> s \<noteq> t \<Longrightarrow> s \<noteq> [] \<Longrightarrow> t \<noteq> [] \<Longrightarrow>
     boc_expected (Some s) (Some t) = Some (c, f, cs)"
  "ecb_expectation s t = (c, f, cs) \<Longrightarrow> s \<noteq> t \<Longrightarrow> s \<noteq> [] \<Longrightarrow> t \<noteq> [] \<Longrightarrow>
     ecb_expected (Some s) (Some t) = Some (c, f, cs)"
  by (auto simp: bank_of_canada_expectation_def boc_expected_def ecb_expectation_def ecb_expected_def truthy_def
      split: if_splits)

lemma valid_window:
  assumes "valid_provider_window D C obs ret sha rate as_of k"
  obtains start o' r' where "midnight C as_of = Some start" "fc_parse C obs = Some o'" "fc_parse C ret = Some r'"
    "1 \<le> k" "k \<le> 7" "o' \<le> r'" "r' \<le> fc_now C" "start - k * day_ms \<le> o'" "o' < start + day_ms"
    "fc_iso C o' = obs" "sha_text sha" "positive_decimal D rate"
  using assms by (auto simp: valid_provider_window_def canonical_timestamp_def split: option.splits)

lemma valid_central:
  assumes "valid_central_observation D C (calculation, formula, currencies) series x source target as_of k"
  obtains rates rate calculated where "mapE (\<lambda>l. exact D (TextIn (ql_rate l))) (co_legs x) = Inr rates"
    "leg_calculation D calculation rates = Some calculated" "exact D (TextIn (co_rate x)) = Inr rate"
    "dec_eq D (dec_places D 18 rate) (dec_places D 18 calculated)"
    "co_calculation x = calculation" "co_formula x = formula" "length (co_legs x) = length currencies"
    "list_all2 (\<lambda>l c. ql_currency l = c \<and> Some (ql_series l) = series (ql_currency l)
       \<and> ql_observed_date l = take 10 (co_observed_at x) \<and> positive_decimal D (ql_rate l)) (co_legs x) currencies"
    "valid_provider_window D C (co_observed_at x) (co_retrieved_at x) (co_sha x) (co_rate x) as_of k"
proof -
  have v: "valid_central_observation D C (calculation, formula, currencies) series x source target as_of k"
    by (rule assms)
  obtain rates where r: "mapE (\<lambda>l. exact D (TextIn (ql_rate l))) (co_legs x) = Inr rates"
    using v by (cases "mapE (\<lambda>l. exact D (TextIn (ql_rate l))) (co_legs x)")
      (simp_all add: valid_central_observation_def del: exact.simps)
  obtain calculated where c: "leg_calculation D calculation rates = Some calculated"
    using v r by (cases "leg_calculation D calculation rates")
      (simp_all add: valid_central_observation_def del: exact.simps)
  obtain rate where "exact D (TextIn (co_rate x)) = Inr rate"
    using v r c by (cases "exact D (TextIn (co_rate x))")
      (simp_all add: valid_central_observation_def del: exact.simps)
  then show ?thesis using v r c
    by (intro that [of rates calculated rate]) (simp_all add: valid_central_observation_def del: exact.simps)
qed

text \<open>The two pairs of constants of a central bank.\<close>

definition central_bank_of ::
  "fx_provider \<Rightarrow> string \<Rightarrow> string \<Rightarrow> fx_calculation \<times> fx_formula \<times> string list \<Rightarrow> string \<Rightarrow> leg_convention
     \<Rightarrow> (string \<Rightarrow> string) \<Rightarrow> bool" where
  "central_bank_of provider source target e policy convention series \<longleftrightarrow>
     (provider = BankOfCanada \<and> boc_expected (Some source) (Some target) = Some e
        \<and> policy = ''BANK_OF_CANADA_DAILY_REFERENCE_RATE'' \<and> convention = CadPerCurrencyUnit
        \<and> series = boc_series)
     \<or> (provider = EuropeanCentralBank \<and> ecb_expected (Some source) (Some target) = Some e
        \<and> policy = ''EUROPEAN_CENTRAL_BANK_REFERENCE_RATE'' \<and> convention = CurrencyUnitsPerEur
        \<and> series = ecb_series)"

lemma central_provenance_accepted:
  assumes b: "central_bank_of provider source target (calculation, formula, currencies) policy convention series"
    and len: "length legs = length currencies"
    and legs: "list_all2 (\<lambda>l c. ql_currency l = c \<and> ql_series l = series (ql_currency l)
       \<and> ql_observed_date l = take 10 observed) legs currencies"
    and t: "time_of retrieved \<le> time_of (fc_iso C (fc_now C))"
  shows "provenance_schema_issues time_of
    ((provider_provenance C p provider policy (join ''+'' (map ql_series legs)) source target as_of observed retrieved sha)
       \<lparr>fp_calculation := Some calculation, fp_formula := Some formula,
        fp_legs := Some (map (provider_leg convention) legs)\<rparr>) = []"
proof -
  have l: "list_all2 (\<lambda>leg currency. leg_currency leg = currency \<and> leg_convention leg = convention
      \<and> leg_series_key leg = series (leg_currency leg) \<and> leg_observed_date leg = take 10 observed)
      (map (provider_leg convention) legs) currencies"
    unfolding list_all2_map1 by (rule list_all2_mono [OF legs]) (simp add: provider_leg_def)
  have m: "leg_series_key \<circ> provider_leg k = ql_series" for k
    by (simp add: fun_eq_iff provider_leg_def)
  show ?thesis using b l m len t
    by (auto simp: central_bank_of_def provenance_schema_issues_def stored_issues_def provider_issues_def
        provider_evidence_def pair_issues_def pair_complete_def yahoo_issues_def central_issues_def
        central_consistent_def foreign_evidence_issues_def provider_provenance_def core_provenance_def Let_def
        truthy_def not_less)
qed

lemma provider_rate_prov:
  "provider_rate D C V p source target as_of = Inr y \<Longrightarrow>
     \<exists>q. fx_prov y = Some q \<and> fp_as_of_date q = as_of \<and> fp_mode q = ProviderRate"
  unfolding provider_rate_def central_bank_rate_def
  by (auto simp: monad_simps provider_provenance_def core_provenance_def simp del: exact.simps split: if_splits)

text \<open>What a provider's rate has passed.\<close>

lemma provider_rate_cases:
  assumes "provider_rate D C V p source target as_of = Inr y"
  obtains (boc) x where "valid_bank_of_canada_observation D C x source target as_of (pp_lookback p)"
      "central_bank_rate D C p BankOfCanada ''BANK_OF_CANADA_DAILY_REFERENCE_RATE'' CadPerCurrencyUnit
         x source target as_of = Inr y"
    | (ecb) x where "valid_ecb_observation D C x source target as_of (pp_lookback p)"
      "central_bank_rate D C p EuropeanCentralBank ''EUROPEAN_CENTRAL_BANK_REFERENCE_RATE'' CurrencyUnitsPerEur
         x source target as_of = Inr y"
    | (yahoo) x rate where "valid_yahoo_observation D C x source target as_of (pp_lookback p) = Inr True"
      "exact D (TextIn (yo_rate x)) = Inr rate"
      "y = \<lparr>fx_rate = dec_plain D (dec_places D 18 rate), fx_source = provider_attribution YahooFinance,
         fx_effective_at = yo_observed_at x,
         fx_prov = Some (provider_provenance C p YahooFinance
           ''YAHOO_FINANCE_EXPERIMENTAL_DIRECT_DAILY_CLOSE'' (yo_symbol x) source target as_of
           (yo_observed_at x) (yo_retrieved_at x) (yo_sha x))\<rparr>"
  using assms unfolding provider_rate_def
  by (auto simp: monad_simps simp del: exact.simps split: if_splits)

context decimal_lib
begin

lemma legs_calculated:
  assumes "mapE (\<lambda>l. exact D (TextIn (ql_rate l))) legs = Inr rates"
    and "leg_calculation D calculation rates = Some calculated"
    and "length legs = (if calculation \<in> {CrossViaCad, CrossViaEur} then 2 else 1)"
    and "\<forall>l \<in> set legs. positive_decimal D (ql_rate l)"
  shows "calculated_rate D calculation (map (provider_leg convention) legs) = Inr (Some calculated)"
    and "dec_finite D calculated"
proof -
  have new: "dec_new D s = Some d \<and> dec_finite D d" if "exact D (TextIn s) = Inr d" for s d
    using that by (auto simp: check_finite_def split: option.splits if_splits)
  have pos: "0 < val d" if "exact D (TextIn s) = Inr d" "positive_decimal D s" for s d
    using that new [OF that(1)] by (simp add: positive_decimal_def del: exact.simps)
  consider a where "legs = [a]" "calculation \<notin> {CrossViaCad, CrossViaEur}"
    | a b where "legs = [a, b]" "calculation \<in> {CrossViaCad, CrossViaEur}"
    using assms(3) by (auto simp: length_Suc_conv numeral_2_eq_2 split: if_splits)
  then have "calculated_rate D calculation (map (provider_leg convention) legs) = Inr (Some calculated)
    \<and> dec_finite D calculated"
  proof cases
    case (1 a)
    then obtain r where r: "exact D (TextIn (ql_rate a)) = Inr r" "rates = [r]"
      using assms(1) by (auto simp: bindE_Inr_iff)
    then show ?thesis using 1 assms(2,4) new [OF r(1)] pos [OF r(1)]
      by (cases calculation)
        (auto simp: leg_calculation_def calculated_rate_def provider_leg_def simp del: exact.simps)
  next
    case (2 a b)
    then obtain r t where r: "exact D (TextIn (ql_rate a)) = Inr r" "exact D (TextIn (ql_rate b)) = Inr t"
      "rates = [r, t]"
      using assms(1) by (auto simp: bindE_Inr_iff)
    then show ?thesis using 2 assms(2,4) new [OF r(1)] new [OF r(2)] pos [OF r(1)] pos [OF r(2)]
      by (auto simp: leg_calculation_def calculated_rate_def provider_leg_def simp del: exact.simps)
  qed
  then show "calculated_rate D calculation (map (provider_leg convention) legs) = Inr (Some calculated)"
    "dec_finite D calculated" by simp_all
qed

lemma central_rate_accepted:
  assumes v: "valid_central_observation D C (calculation, formula, currencies) series' x source target as_of
      (pp_lookback p)"
    and r: "central_bank_rate D C p provider policy convention x source target as_of = Inr y"
    and b: "central_bank_of provider source target (calculation, formula, currencies) policy convention series"
    and s: "\<And>c t. c \<in> set currencies \<Longrightarrow> Some t = series' c \<Longrightarrow> t = series c"
    and clock: "\<And>s t. fc_parse C s = Some t \<Longrightarrow> time_of s = t" "time_of (fc_iso C (fc_now C)) = fc_now C"
  shows "fx_snapshot_issues D time_of y = Inr []"
  using v
proof (rule valid_central)
  fix rates rate calculated
  assume m: "mapE (\<lambda>l. exact D (TextIn (ql_rate l))) (co_legs x) = Inr rates"
    "leg_calculation D calculation rates = Some calculated" "exact D (TextIn (co_rate x)) = Inr rate"
    "dec_eq D (dec_places D 18 rate) (dec_places D 18 calculated)"
    "co_calculation x = calculation" "co_formula x = formula" "length (co_legs x) = length currencies"
    "list_all2 (\<lambda>l c. ql_currency l = c \<and> Some (ql_series l) = series' (ql_currency l)
       \<and> ql_observed_date l = take 10 (co_observed_at x) \<and> positive_decimal D (ql_rate l)) (co_legs x) currencies"
    "valid_provider_window D C (co_observed_at x) (co_retrieved_at x) (co_sha x) (co_rate x) as_of (pp_lookback p)"
  let ?prov = "(provider_provenance C p provider policy (join ''+'' (map ql_series (co_legs x)))
           source target as_of (co_observed_at x) (co_retrieved_at x) (co_sha x))
         \<lparr>fp_calculation := Some calculation, fp_formula := Some formula,
          fp_legs := Some (map (provider_leg convention) (co_legs x))\<rparr>"
  have y: "y = \<lparr>fx_rate = dec_plain D (dec_places D 18 rate), fx_source = provider_attribution provider,
       fx_effective_at = co_observed_at x, fx_prov = Some ?prov\<rparr>"
    using r m(3,5,6) by (simp add: central_bank_rate_def del: exact.simps)
  obtain start o' r' where w: "midnight C as_of = Some start" "fc_parse C (co_observed_at x) = Some o'"
    "fc_parse C (co_retrieved_at x) = Some r'" "1 \<le> pp_lookback p" "o' \<le> r'" "r' \<le> fc_now C"
    "start - pp_lookback p * day_ms \<le> o'" "o' < start + day_ms"
    using valid_window [OF m(9)] by metis
  note times = clock(1) [OF w(2)] clock(1) [OF w(3)] clock(1) [OF w(1) [unfolded midnight_def]]
  have "provenance_schema_issues time_of ?prov = []"
    by (rule central_provenance_accepted [OF b m(7)], rule list.rel_mono_strong [OF m(8)])
      (use s times w clock(2) in auto)
  moreover have "provider_time_issues time_of y ?prov = []"
    using times w by (auto simp: y provider_time_issues_def provider_provenance_def core_provenance_def Let_def)
  moreover have "snapshot_rate_issues D y ?prov = Inr []"
  proof -
    have fin: "dec_finite D rate" using exact_finite [OF m(3)] .
    have len: "length (co_legs x) = (if calculation \<in> {CrossViaCad, CrossViaEur} then 2 else 1)"
      using b m(7) by (auto simp: central_bank_of_def boc_expected_def ecb_expected_def Let_def split: if_splits)
    have "\<forall>l \<in> set (co_legs x). positive_decimal D (ql_rate l)"
      using list_all2_set1_ex [OF m(8)] by blast
    note c = legs_calculated [OF m(1,2) len this]
    obtain e where e: "exact D (TextIn (fx_rate y)) = Inr e" "dec_finite D e" "val e = half_up 18 (val rate)"
      using exact_text [OF plain_value_plain [of "dec_places D 18 rate"]] fin by (auto simp: y simp del: exact.simps)
    have "half_up 18 (half_up 18 (val rate)) = half_up 18 (val calculated)"
      using m(4) fin c(2) by (simp add: half_up_id)
    then show ?thesis using c e
      by (simp add: snapshot_rate_issues_def provider_provenance_def core_provenance_def del: exact.simps)
  qed
  ultimately show ?thesis
    using b by (auto simp: fx_snapshot_issues_def y provider_provenance_def central_bank_of_def)
qed

lemma provider_rate_accepted:
  assumes r: "provider_rate D C V p source target as_of = Inr y"
    and codes: "upper_code 3 source" "upper_code 3 target" "source \<noteq> target"
    and clock: "\<And>s t. fc_parse C s = Some t \<Longrightarrow> time_of s = t" "time_of (fc_iso C (fc_now C)) = fc_now C"
  shows "fx_snapshot_issues D time_of y = Inr []"
proof -
  have ne: "source \<noteq> []" "target \<noteq> []" using codes by (auto simp: upper_code_def)
  show ?thesis
    using r
  proof (cases rule: provider_rate_cases)
    case (boc x)
    obtain c f cs where e: "bank_of_canada_expectation source target = (c, f, cs)"
      by (cases "bank_of_canada_expectation source target") auto
    have plain: "to_upper (trim k) = k" if "upper_code 3 k" for k
      using that trim_id [of k] by (auto simp: upper_code_def list_all_iff is_upper_not_space
          intro!: to_upper_id simp: is_upper_not_lower)
    have "set cs \<subseteq> {source, target}"
      using e by (auto simp: bank_of_canada_expectation_def split: if_splits)
    then have named: "to_upper (trim k) = k" if "k \<in> set cs" for k using that codes plain by auto
    have b: "central_bank_of BankOfCanada source target (c, f, cs) ''BANK_OF_CANADA_DAILY_REFERENCE_RATE''
        CadPerCurrencyUnit boc_series"
      using expectations(1) [OF e codes(3) ne] by (simp add: central_bank_of_def)
    show ?thesis
      by (rule central_rate_accepted [OF boc(1) [unfolded valid_bank_of_canada_observation_def e] boc(2) b])
        (use clock named in \<open>auto simp: bank_of_canada_series_key_def boc_series_def Let_def split: if_splits\<close>)
  next
    case (ecb x)
    obtain c f cs where e: "ecb_expectation source target = (c, f, cs)"
      by (cases "ecb_expectation source target") auto
    have b: "central_bank_of EuropeanCentralBank source target (c, f, cs) ''EUROPEAN_CENTRAL_BANK_REFERENCE_RATE''
        CurrencyUnitsPerEur ecb_series"
      using expectations(2) [OF e codes(3) ne] by (simp add: central_bank_of_def)
    show ?thesis
      by (rule central_rate_accepted [OF ecb(1) [unfolded valid_ecb_observation_def e] ecb(2) b])
        (use clock in auto)
  next
    case (yahoo x rate)
    then have sym: "yahoo_direct_symbol source target = Some (yo_symbol x)"
      and win: "valid_provider_window D C (yo_observed_at x) (yo_retrieved_at x) (yo_sha x) (yo_rate x) as_of
        (pp_lookback p)"
      by (auto simp: valid_yahoo_observation_def monad_simps split: if_splits)
    obtain start o' r' where w: "midnight C as_of = Some start" "fc_parse C (yo_observed_at x) = Some o'"
      "fc_parse C (yo_retrieved_at x) = Some r'" "1 \<le> pp_lookback p" "o' \<le> r'" "r' \<le> fc_now C"
      "start - pp_lookback p * day_ms \<le> o'" "o' < start + day_ms"
      using valid_window [OF win] by metis
    note times = clock(1) [OF w(2)] clock(1) [OF w(3)] clock(1) [OF w(1) [unfolded midnight_def]]
    have plain: "to_upper (trim c) = c" if "upper_code 3 c" for c
      using that trim_id [of c] by (auto simp: upper_code_def list_all_iff is_upper_not_space
          intro!: to_upper_id simp: is_upper_not_lower)
    have symbol: "yo_symbol x = (if source = ''USD'' then target @ ''=X'' else source @ target @ ''=X'')"
      using sym codes plain [OF codes(1)] plain [OF codes(2)]
      by (auto simp: yahoo_direct_symbol_def Let_def split: if_splits)
    have "yahoo_symbol (yo_symbol x)"
      using codes by (auto simp: symbol yahoo_symbol_def ends_with_def upper_code_def)
    then show ?thesis using yahoo(3) symbol times w clock(2) codes(3)
      by (auto simp: fx_snapshot_issues_def snapshot_rate_issues_def provenance_schema_issues_def stored_issues_def
          provider_issues_def provider_evidence_def pair_issues_def pair_complete_def yahoo_issues_def
          central_issues_def foreign_evidence_issues_def provider_time_issues_def provider_provenance_def
          core_provenance_def truthy_def Let_def)
  qed
qed

lemma resolved_cases:
  assumes r: "resolve_fx D C V T transaction_currency functional_currency as_of explicit = Inr y"
  defines "s \<equiv> to_upper (trim transaction_currency)" and "t \<equiv> to_upper (trim functional_currency)"
  obtains (functional) "s = t" "fx_rate y = ''1''" "fx_source y = ''FUNCTIONAL''"
      "fx_effective_at y = as_of @ ''T00:00:00.000Z''"
      "fx_prov y = Some (core_provenance FunctionalRate as_of (fc_iso C (fc_start C)))"
    | (explicit) x d where "s \<noteq> t" "explicit = Some x" "exact D (TextIn (fx_rate x)) = Inr d"
      "0 < val d" "fx_rate y = dec_plain D d" "fx_source y = fx_source x"
      "fx_effective_at y = fx_effective_at x"
      "fx_prov y = Some (core_provenance ExplicitRate as_of (fc_iso C (fc_start C)))"
    | (stored) start w d where "s \<noteq> t" "explicit = None" "midnight C as_of = Some start"
      "stored_rate T s t start = Some w" "exact D (TextIn (rt_rate w)) = Inr d"
      "fx_rate y = dec_plain D d" "fx_source y = rt_source w" "fx_effective_at y = fc_iso C (rt_effective w)"
      "fx_prov y = Some (stored_provenance C as_of w)"
    | (provider) start where "s \<noteq> t" "explicit = None" "midnight C as_of = Some start"
      "stored_rate T s t start = None"
      "provider_rate D C V (read_provider_policy T) s t as_of = Inr y"
proof -
  note r = r [folded s_def t_def]
  obtain er where er: "(case explicit of
        None \<Rightarrow> Inr None
      | Some x \<Rightarrow> map_errorE (\<lambda>_. FxRateUnavailable) (bindE (exact D (TextIn (fx_rate x))) (\<lambda>r. Inr (Some r))))
      = Inr er"
    using r unfolding resolve_fx_def Let_def by (auto simp: bindE_Inr_iff simp del: exact.simps)
  show ?thesis
  proof (cases "s = t")
    case True
    then show ?thesis
      using r er functional unfolding resolve_fx_def Let_def s_def [symmetric] t_def [symmetric]
      by (auto simp: monad_simps simp del: exact.simps)
  next
    case False
    show ?thesis
    proof (cases explicit)
      case (Some x)
      then obtain d where d: "exact D (TextIn (fx_rate x)) = Inr d" "er = Some d"
        using er by (auto simp: monad_simps simp del: exact.simps)
      then show ?thesis
        using exact_finite [OF d(1)] r False Some explicit [of x d] unfolding resolve_fx_def Let_def s_def [symmetric] t_def [symmetric]
        by (auto simp: monad_simps simp del: exact.simps)
    next
      case None
      obtain start where start: "midnight C as_of = Some start"
        using r False None unfolding resolve_fx_def Let_def s_def [symmetric] t_def [symmetric]
        by (auto simp: monad_simps)
      show ?thesis
      proof (cases "stored_rate T s t start")
        case n: None
        then show ?thesis
          using r False None start provider unfolding resolve_fx_def Let_def s_def [symmetric] t_def [symmetric]
          by simp
      next
        case (Some w)
        then show ?thesis
          using r False None start stored [of start w] unfolding resolve_fx_def Let_def
            s_def [symmetric] t_def [symmetric]
          by (auto simp: monad_simps simp del: exact.simps)
      qed
    qed
  qed
qed

lemma resolved_accepted:
  assumes r: "resolve_fx D C V T transaction_currency functional_currency as_of explicit = Inr y"
    and codes: "upper_code 3 (to_upper (trim transaction_currency))"
      "upper_code 3 (to_upper (trim functional_currency))"
    and clock: "\<And>s t. fc_parse C s = Some t \<Longrightarrow> time_of s = t" "time_of (fc_iso C (fc_now C)) = fc_now C"
      "\<And>t. fc_iso C t \<noteq> []"
    and ids: "\<forall>r \<in> set (xt_rates T). rt_id r \<noteq> []"
  shows "fx_snapshot_issues D time_of y = Inr []"
proof -
  have core: "fx_snapshot_issues D time_of y = Inr []"
    if "fx_prov y = Some (core_provenance mode as_of now)" "mode \<in> {FunctionalRate, ExplicitRate}" for mode now
    using that
    by (auto simp: fx_snapshot_issues_def snapshot_rate_issues_def provenance_schema_issues_def stored_issues_def
        provider_issues_def provider_evidence_def pair_issues_def pair_complete_def yahoo_issues_def
        central_issues_def foreign_evidence_issues_def provider_time_issues_def core_provenance_def truthy_def Let_def)
  show ?thesis
    using r
  proof (cases rule: resolved_cases)
    case (stored start w d)
    have "rt_id w \<noteq> []" using ids stored_rate_Some(1) [OF stored(4)] by (auto simp: applicable_rates_def)
    then show ?thesis using stored clock(3)
      by (auto simp: fx_snapshot_issues_def snapshot_rate_issues_def provenance_schema_issues_def stored_issues_def
          provider_issues_def provider_evidence_def pair_issues_def pair_complete_def yahoo_issues_def
          central_issues_def foreign_evidence_issues_def provider_time_issues_def core_provenance_def
          stored_provenance_def truthy_def Let_def)
  next
    case provider
    show ?thesis
      by (rule provider_rate_accepted [OF provider(5) codes provider(1)]) (use clock(1,2) in auto)
  qed (use core in auto)
qed

end

section \<open>The full schema\<close>

text \<open>
  What the schemas of the fields say of a resolved snapshot.  Texts of digits, capital
  letters and a few signs contain no spaces, so trimming leaves them alone.
\<close>

lemma upper_spaceless: "list_all is_upper s \<Longrightarrow> list_all (\<lambda>c. \<not> is_space c) s"
  by (auto simp: list_all_iff is_upper_not_space)

lemma decimal_spaceless:
  assumes "unsigned_decimal k s"
  shows "list_all (\<lambda>c. \<not> is_space c) s"
proof -
  have "\<forall>c \<in> set (takeWhile is_digit s). \<not> is_space c"
    by (auto dest: set_takeWhileD is_digit_not_space)
  moreover have "\<not> is_space (CHR ''.'')" by (simp add: is_space_def)
  then have "\<forall>c \<in> set r. \<not> is_space c"
    if "case r of [] \<Rightarrow> True | c # f \<Rightarrow> c = CHR ''.'' \<and> f \<noteq> [] \<and> length f \<le> k \<and> list_all is_digit f" for r
    using that by (cases r) (auto simp: list_all_iff dest: is_digit_not_space)
  then have "\<forall>c \<in> set (dropWhile is_digit s). \<not> is_space c"
    using assms unfolding unsigned_decimal_def Let_def by blast
  ultimately have "\<forall>c \<in> set (takeWhile is_digit s @ dropWhile is_digit s). \<not> is_space c"
    unfolding set_append by blast
  then show ?thesis by (simp add: list_all_iff)
qed

lemma trimmed_text_id:
  "list_all (\<lambda>c. \<not> is_space c) s \<Longrightarrow> lo \<le> length s \<Longrightarrow> length s \<le> hi \<Longrightarrow> trimmed_text lo hi s = Some s"
  by (simp add: trimmed_text_def trim_id)

lemma upper_text_id: "upper_code 3 c \<Longrightarrow> upper_text (upper_code 3) c = Some c"
  using trim_id [OF upper_spaceless, of c] upper_code_to_upper [of 3 c]
  by (simp add: upper_text_def upper_code_def)

lemma attribution_trimmed: "trimmed_text 1 100 (provider_attribution p) = Some (provider_attribution p)"
proof (cases p)
  case BankOfCanada
  show ?thesis unfolding BankOfCanada by code_simp
next
  case EuropeanCentralBank
  show ?thesis unfolding EuropeanCentralBank by code_simp
next
  case YahooFinance
  show ?thesis unfolding YahooFinance by code_simp
qed

lemma policies_trimmed:
  "trimmed_text 1 100 ''FUNCTIONAL_IDENTITY'' = Some ''FUNCTIONAL_IDENTITY''"
  "trimmed_text 1 100 ''FUNCTIONAL'' = Some ''FUNCTIONAL''"
  "trimmed_text 1 100 ''CALLER_EXPLICIT'' = Some ''CALLER_EXPLICIT''"
  "trimmed_text 1 100 ''STORED_DIRECT_LATEST_EFFECTIVE_UTC_DATE'' = Some ''STORED_DIRECT_LATEST_EFFECTIVE_UTC_DATE''"
  "trimmed_text 1 100 ''BANK_OF_CANADA_DAILY_REFERENCE_RATE'' = Some ''BANK_OF_CANADA_DAILY_REFERENCE_RATE''"
  "trimmed_text 1 100 ''EUROPEAN_CENTRAL_BANK_REFERENCE_RATE'' = Some ''EUROPEAN_CENTRAL_BANK_REFERENCE_RATE''"
  "trimmed_text 1 100 ''YAHOO_FINANCE_EXPERIMENTAL_DIRECT_DAILY_CLOSE''
     = Some ''YAHOO_FINANCE_EXPERIMENTAL_DIRECT_DAILY_CLOSE''"
  by code_simp+

lemma parse_all_id: "parse_all p xs = Some xs \<longleftrightarrow> list_all (\<lambda>x. p x = Some x) xs"
  unfolding parse_all_Some_iff by (induction xs) auto

text \<open>The legs of a calculation pass unchanged when their quotes do.\<close>

lemma legs_parse:
  assumes "\<forall>l \<in> set legs. upper_code 3 (leg_currency l) \<and> is_iso_date F (leg_observed_date l)
      \<and> trimmed_text 1 100 (leg_series_key l) = Some (leg_series_key l)"
    and "1 \<le> length legs" "length legs \<le> 2"
  shows "Option.bind (parse_all (parse_fx_leg F D) legs) (accept (\<lambda>ls. 1 \<le> length ls \<and> length ls \<le> 2)) = Some legs
    \<longleftrightarrow> list_all (\<lambda>l. positive_rate D (leg_rate l) = Some (leg_rate l)) legs"
proof -
  have leg: "parse_fx_leg F D l = Some l \<longleftrightarrow> positive_rate D (leg_rate l) = Some (leg_rate l)"
    if "l \<in> set legs" for l
  proof -
    have "l\<lparr>leg_currency := leg_currency l, leg_rate := r, leg_observed_date := leg_observed_date l,
        leg_series_key := leg_series_key l\<rparr> = l \<longleftrightarrow> r = leg_rate l" for r
      by (cases l) auto
    then show ?thesis using assms(1) that
      by (cases "positive_rate D (leg_rate l)") (simp_all add: parse_fx_leg_def upper_text_id accept_def)
  qed
  have "Option.bind (parse_all (parse_fx_leg F D) legs) (accept (\<lambda>ls. 1 \<le> length ls \<and> length ls \<le> 2)) = Some legs
      \<longleftrightarrow> parse_all (parse_fx_leg F D) legs = Some legs"
    using assms(2,3) by (cases "parse_all (parse_fx_leg F D) legs") auto
  then show ?thesis using leg by (simp add: parse_all_id list_all_iff)
qed

lemma provenance_parses:
  assumes "is_iso_date F (fp_as_of_date p)" "is_iso_datetime F (fp_resolved_at p)"
    and "trimmed_text 1 100 (fp_policy_key p) = Some (fp_policy_key p)" "0 < fp_policy_version p"
    and "optional_field (accept (is_uuid F)) (fp_organization_rate p) = Some (fp_organization_rate p)"
    and "optional_field (accept (is_iso_datetime F)) (fp_rate_recorded_at p) = Some (fp_rate_recorded_at p)"
    and "optional_field (trimmed_text 1 200) (fp_symbol p) = Some (fp_symbol p)"
    and "optional_field (upper_text (upper_code 3)) (fp_source_currency p) = Some (fp_source_currency p)"
    and "optional_field (upper_text (upper_code 3)) (fp_target_currency p) = Some (fp_target_currency p)"
    and "optional_field (accept (is_iso_datetime F)) (fp_observed_at p) = Some (fp_observed_at p)"
    and "optional_field (accept (is_iso_datetime F)) (fp_retrieved_at p) = Some (fp_retrieved_at p)"
    and "optional_field (accept hex_digest) (fp_response_sha p) = Some (fp_response_sha p)"
    and "optional_field (accept (\<lambda>n. 1 \<le> n \<and> n \<le> 7)) (fp_max_lookback p) = Some (fp_max_lookback p)"
    and "provenance_schema_issues (parse_time F) p = []"
  shows "parse_fx_provenance F D p = Some p \<longleftrightarrow> optional_field (\<lambda>ls. Option.bind
      (parse_all (parse_fx_leg F D) ls) (accept (\<lambda>ls. 1 \<le> length ls \<and> length ls \<le> 2))) (fp_legs p) = Some (fp_legs p)"
proof -
  have "accept (is_iso_date F) (fp_as_of_date p) = Some (fp_as_of_date p)"
    "accept (is_iso_datetime F) (fp_resolved_at p) = Some (fp_resolved_at p)"
    "accept (\<lambda>n. 0 < n) (fp_policy_version p) = Some (fp_policy_version p)"
    using assms(1,2,4) by (simp_all add: accept_def)
  note parsed = this assms(3,5-13)
  have same: "p\<lparr>fp_as_of_date := fp_as_of_date p, fp_resolved_at := fp_resolved_at p,
      fp_policy_key := fp_policy_key p, fp_policy_version := fp_policy_version p,
      fp_organization_rate := fp_organization_rate p, fp_rate_recorded_at := fp_rate_recorded_at p,
      fp_symbol := fp_symbol p, fp_source_currency := fp_source_currency p,
      fp_target_currency := fp_target_currency p, fp_observed_at := fp_observed_at p,
      fp_retrieved_at := fp_retrieved_at p, fp_response_sha := fp_response_sha p,
      fp_max_lookback := fp_max_lookback p, fp_legs := l\<rparr> = p\<lparr>fp_legs := l\<rparr>" for l
    by (cases p) simp
  have legs: "p = p\<lparr>fp_legs := l\<rparr> \<longleftrightarrow> l = fp_legs p" for l
    by (cases p) auto
  show ?thesis
    unfolding parse_fx_provenance_def parsed Option.bind.bind_lunit same
    by (cases "optional_field (\<lambda>ls. Option.bind (parse_all (parse_fx_leg F D) ls)
        (accept (\<lambda>ls. 1 \<le> length ls \<and> length ls \<le> 2))) (fp_legs p)") (use assms(14) legs in auto)
qed

lemma snapshot_parses:
  assumes "fx_snapshot_issues D (parse_time F) y = Inr []" "fx_prov y = Some p"
  shows "parse_fx_snapshot F D y = Some y \<longleftrightarrow> positive_rate D (fx_rate y) = Some (fx_rate y)
    \<and> trimmed_text 1 100 (fx_source y) = Some (fx_source y) \<and> is_iso_datetime F (fx_effective_at y)
    \<and> parse_fx_provenance F D p = Some p"
  using assms
  by (cases y; cases "positive_rate D (fx_rate y)"; cases "parse_fx_provenance F D p")
    (auto simp: parse_fx_snapshot_def parse_fx_fields_def accept_def bind_eq_Some_conv)

text \<open>What a snapshot of a provider records.\<close>

definition provider_record ::
  "'d decimal_api \<Rightarrow> fx_clock \<Rightarrow> string \<Rightarrow> string \<Rightarrow> string \<Rightarrow> fx_snapshot \<Rightarrow> fx_provenance \<Rightarrow> bool" where
  "provider_record D C source target as_of y q \<longleftrightarrow>
     fx_prov y = Some q \<and> fp_mode q = ProviderRate \<and> fp_as_of_date q = as_of
     \<and> fp_resolved_at q = fc_iso C (fc_now C) \<and> 0 < fp_policy_version q
     \<and> fp_organization_rate q = None \<and> fp_rate_recorded_at q = None
     \<and> fp_source_currency q = Some source \<and> fp_target_currency q = Some target
     \<and> (\<exists>t. fp_observed_at q = Some (fc_iso C t) \<and> fx_effective_at y = fc_iso C t)
     \<and> (\<exists>t. fp_retrieved_at q = Some (fc_iso C t))
     \<and> (\<exists>sha. fp_response_sha q = Some sha \<and> sha_text sha)
     \<and> (\<exists>k. fp_max_lookback q = Some k \<and> 1 \<le> k \<and> k \<le> 7)
     \<and> (\<exists>provider. fp_provider q = Some provider \<and> fx_source y = provider_attribution provider)
     \<and> (\<exists>rate. dec_finite D rate \<and> fx_rate y = dec_plain D (dec_places D 18 rate))"

text \<open>A central bank's consistent quotes: texts without spaces, within their bounds.\<close>

lemma central_texts:
  assumes "central_consistent q (Some (calculation, formula, currencies)) policy convention series"
    and "\<forall>c \<in> set currencies. upper_code 3 c" "length currencies \<in> {1, 2}"
    and "\<forall>c. upper_code 3 c \<longrightarrow> list_all (\<lambda>x. \<not> is_space x) (series c) \<and> 1 \<le> length (series c) \<and> length (series c) \<le> 20"
    and "fp_observed_at q = Some observed" "is_iso_date F (take 10 observed)"
  shows "fp_policy_key q = policy \<and> optional_field (trimmed_text 1 200) (fp_symbol q) = Some (fp_symbol q)
    \<and> (\<exists>legs. fp_legs q = Some legs \<and> length legs \<in> {1, 2}
      \<and> (\<forall>l \<in> set legs. upper_code 3 (leg_currency l) \<and> is_iso_date F (leg_observed_date l)
          \<and> trimmed_text 1 100 (leg_series_key l) = Some (leg_series_key l)))"
proof -
  obtain legs where legs: "fp_legs q = Some legs" "fp_policy_key q = policy"
    "fp_symbol q = Some (join ''+'' (map leg_series_key legs))"
    and l: "list_all2 (\<lambda>leg currency. leg_currency leg = currency \<and> leg_convention leg = convention
        \<and> leg_series_key leg = series (leg_currency leg) \<and> leg_observed_date leg = take 10 observed) legs currencies"
    using assms(1,5) by (auto simp: central_consistent_def split: option.splits)
  have len: "length legs \<in> {1, 2}" using list_all2_lengthD [OF l] assms(3) by simp
  have each: "upper_code 3 (leg_currency x) \<and> leg_series_key x = series (leg_currency x)
      \<and> leg_observed_date x = take 10 observed" if "x \<in> set legs" for x
    using list_all2_set1_ex [OF l] that assms(2) by (auto simp: list_all2_conv_all_nth in_set_conv_nth)
  have key: "list_all (\<lambda>x. \<not> is_space x) (leg_series_key x) \<and> 1 \<le> length (leg_series_key x)
      \<and> length (leg_series_key x) \<le> 20" if "x \<in> set legs" for x
    using each [OF that] assms(4) by auto
  have plus: "\<not> is_space (CHR ''+'')" by (simp add: is_space_def)
  consider a where "legs = [a]" | a b where "legs = [a, b]"
    using len by (auto simp: length_Suc_conv numeral_2_eq_2)
  then have "trimmed_text 1 200 (join ''+'' (map leg_series_key legs)) = Some (join ''+'' (map leg_series_key legs))"
  proof cases
    case (1 a)
    then show ?thesis using key [of a] by (simp add: trimmed_text_id)
  next
    case (2 a b)
    then show ?thesis using key [of a] key [of b] plus by (intro trimmed_text_id) auto
  qed
  moreover have "trimmed_text 1 100 (leg_series_key x) = Some (leg_series_key x)" if "x \<in> set legs" for x
    using key [OF that] by (intro trimmed_text_id) auto
  ultimately show ?thesis using legs len each assms(6) by auto
qed

lemma series_texts:
  assumes "upper_code 3 c"
  shows "list_all (\<lambda>x. \<not> is_space x) (boc_series c) \<and> 1 \<le> length (boc_series c) \<and> length (boc_series c) \<le> 20"
    and "list_all (\<lambda>x. \<not> is_space x) (ecb_series c) \<and> 1 \<le> length (ecb_series c) \<and> length (ecb_series c) \<le> 20"
  using assms upper_spaceless [of c]
  by (auto simp: upper_code_def boc_series_def ecb_series_def is_space_def)

text \<open>A provider's record passes the schema of its provenance when its quotes do.\<close>

definition quotes_pass :: "'d decimal_api \<Rightarrow> fx_provenance \<Rightarrow> bool" where
  "quotes_pass D q = (case fp_legs q of
       None \<Rightarrow> True
     | Some legs \<Rightarrow> list_all (\<lambda>l. positive_rate D (leg_rate l) = Some (leg_rate l)) legs)"

lemma provider_provenance_parses:
  assumes r: "provider_record D C source target as_of y q"
    and ok: "fx_snapshot_issues D (parse_time F) y = Inr []"
    and codes: "upper_code 3 source" "upper_code 3 target"
    and formats: "is_iso_date F as_of" "\<forall>t. is_iso_datetime F (fc_iso C t)"
      "\<forall>d. is_iso_datetime F d \<longrightarrow> is_iso_date F (take 10 d)"
  shows "parse_fx_provenance F D q = Some q \<longleftrightarrow> quotes_pass D q"
proof -
  have q: "fx_prov y = Some q" "fp_mode q = ProviderRate"
    "fp_source_currency q = Some source" "fp_target_currency q = Some target"
    using r by (auto simp: provider_record_def)
  obtain t where observed: "fp_observed_at q = Some (fc_iso C t)"
    using r by (auto simp: provider_record_def)
  have day: "is_iso_date F (take 10 (fc_iso C t))" using formats by blast
  note issues = snapshot_ok(1) [OF ok q(1)]
  obtain provider where provider: "fp_provider q = Some provider"
    using r by (auto simp: provider_record_def)
  have texts: "trimmed_text 1 100 (fp_policy_key q) = Some (fp_policy_key q)
    \<and> optional_field (trimmed_text 1 200) (fp_symbol q) = Some (fp_symbol q)
    \<and> (fp_legs q = None \<or> (\<exists>legs. fp_legs q = Some legs \<and> length legs \<in> {1, 2}
      \<and> (\<forall>l \<in> set legs. upper_code 3 (leg_currency l) \<and> is_iso_date F (leg_observed_date l)
          \<and> trimmed_text 1 100 (leg_series_key l) = Some (leg_series_key l))))"
  proof (cases provider)
    case BankOfCanada
    then have c: "central_consistent q (boc_expected (Some source) (Some target))
        ''BANK_OF_CANADA_DAILY_REFERENCE_RATE'' CadPerCurrencyUnit boc_series"
      using issues q provider by (simp add: provenance_schema_issues_def central_issues_def)
    then obtain k f cs where e: "boc_expected (Some source) (Some target) = Some (k, f, cs)"
      by (auto simp: central_consistent_def split: option.splits)
    then have "\<forall>c \<in> set cs. upper_code 3 c" "length cs \<in> {1, 2}"
      using codes by (auto simp: boc_expected_def Let_def split: if_splits)
    from central_texts [OF c [unfolded e] this _ observed day] show ?thesis
      using series_texts(1) policies_trimmed(5) by auto
  next
    case EuropeanCentralBank
    then have c: "central_consistent q (ecb_expected (Some source) (Some target))
        ''EUROPEAN_CENTRAL_BANK_REFERENCE_RATE'' CurrencyUnitsPerEur ecb_series"
      using issues q provider by (simp add: provenance_schema_issues_def central_issues_def)
    then obtain k f cs where e: "ecb_expected (Some source) (Some target) = Some (k, f, cs)"
      by (auto simp: central_consistent_def split: option.splits)
    then have "\<forall>c \<in> set cs. upper_code 3 c" "length cs \<in> {1, 2}"
      using codes by (auto simp: ecb_expected_def Let_def split: if_splits)
    from central_texts [OF c [unfolded e] this _ observed day] show ?thesis
      using series_texts(2) policies_trimmed(6) by auto
  next
    case YahooFinance
    then have y: "fp_policy_key q = ''YAHOO_FINANCE_EXPERIMENTAL_DIRECT_DAILY_CLOSE''" "fp_legs q = None"
      "fp_symbol q = Some (if source = ''USD'' then target @ ''=X'' else source @ target @ ''=X'')"
      using issues q provider
      by (auto simp: provenance_schema_issues_def yahoo_issues_def pair_complete_def Let_def)
    have "list_all (\<lambda>x. \<not> is_space x) (the (fp_symbol q))" "length (the (fp_symbol q)) \<in> {5, 8}"
      using codes upper_spaceless [of source] upper_spaceless [of target]
      by (auto simp: y upper_code_def is_space_def)
    then have "trimmed_text 1 200 (the (fp_symbol q)) = Some (the (fp_symbol q))"
      by (intro trimmed_text_id) auto
    then show ?thesis using policies_trimmed(7) by (simp add: y)
  qed
  have "parse_fx_provenance F D q = Some q \<longleftrightarrow> optional_field (\<lambda>ls. Option.bind
      (parse_all (parse_fx_leg F D) ls) (accept (\<lambda>ls. 1 \<le> length ls \<and> length ls \<le> 2))) (fp_legs q) = Some (fp_legs q)"
    using r texts issues formats codes
    by (intro provenance_parses) (auto simp: provider_record_def accept_def upper_text_id hex_digest_def sha_text_def)
  also have "\<dots> \<longleftrightarrow> quotes_pass D q"
    using texts legs_parse [of "the (fp_legs q)" F D] by (auto simp: quotes_pass_def)
  finally show ?thesis .
qed

context decimal_lib
begin

lemma window_record:
  assumes "valid_provider_window D C observed retrieved sha rate as_of (pp_lookback p)" "0 < pp_version p"
    and "exact D (TextIn rate) = Inr d"
    and "fx_prov y = Some q" "fx_rate y = dec_plain D (dec_places D 18 d)"
      "fx_source y = provider_attribution provider" "fx_effective_at y = observed"
    and "q = (provider_provenance C p provider policy symbol source target as_of observed retrieved sha)
       \<lparr>fp_calculation := c, fp_formula := f, fp_legs := l\<rparr>"
  shows "provider_record D C source target as_of y q"
proof -
  obtain start o' r' where "1 \<le> pp_lookback p" "pp_lookback p \<le> 7" "fc_iso C o' = observed" "sha_text sha"
    using valid_window [OF assms(1)] by metis
  moreover obtain r' where "fc_iso C r' = retrieved"
    using assms(1) by (auto simp: valid_provider_window_def canonical_timestamp_def split: option.splits)
  ultimately show ?thesis
    using assms(2,4-8) exact_finite [OF assms(3)]
    unfolding provider_record_def
    by (intro conjI) (auto simp: provider_provenance_def core_provenance_def)
qed

lemma central_record:
  assumes "valid_central_observation D C e series x source target as_of (pp_lookback p)" "0 < pp_version p"
    and "central_bank_rate D C p provider policy convention x source target as_of = Inr y"
  shows "\<exists>q. provider_record D C source target as_of y q"
proof (cases e)
  case (fields k f cs)
  from assms(1) [unfolded fields] obtain rate where
    "exact D (TextIn (co_rate x)) = Inr rate"
    "valid_provider_window D C (co_observed_at x) (co_retrieved_at x) (co_sha x) (co_rate x) as_of (pp_lookback p)"
    by (rule valid_central)
  then show ?thesis using assms(2,3)
    by (intro exI, intro window_record) (auto simp: central_bank_rate_def simp del: exact.simps)
qed

lemma provider_rate_record:
  assumes "provider_rate D C V p source target as_of = Inr y"
  shows "\<exists>q. provider_record D C source target as_of y q"
proof -
  have version: "0 < pp_version p" using assms by (auto simp: provider_rate_def monad_simps)
  show ?thesis
    using assms
  proof (cases rule: provider_rate_cases)
    case (boc x)
    show ?thesis
      by (rule central_record [OF boc(1) [unfolded valid_bank_of_canada_observation_def] version boc(2)])
  next
    case (ecb x)
    show ?thesis
      by (rule central_record [OF ecb(1) [unfolded valid_ecb_observation_def] version ecb(2)])
  next
    case (yahoo x rate)
    then have w: "valid_provider_window D C (yo_observed_at x) (yo_retrieved_at x) (yo_sha x) (yo_rate x) as_of
        (pp_lookback p)"
      by (simp add: valid_yahoo_observation_def split: if_splits)
    show ?thesis
      by (rule exI, rule window_record [OF w version yahoo(2), where provider = YahooFinance])
        (simp_all add: yahoo(3) provider_provenance_def core_provenance_def)
  qed
qed

end

context decimal_text
begin

lemma positive_rate_plain:
  assumes "dec_finite D a"
  shows "positive_rate D (dec_plain D a) = Some (dec_plain D a) \<longleftrightarrow> 0 < val a \<and> scaled 18 (val a)"
proof -
  have v: "plain_value (dec_plain D a) = Some (val a)" using assms by (rule plain_value_plain)
  obtain e where e: "exact D (TextIn (dec_plain D a)) = Inr e" "dec_finite D e" "val e = val a"
    using exact_text [OF v] .
  show ?thesis
  proof
    assume "positive_rate D (dec_plain D a) = Some (dec_plain D a)"
    from positive_rate_value [OF this] show "0 < val a \<and> scaled 18 (val a)" using v by auto
  next
    assume a: "0 < val a \<and> scaled 18 (val a)"
    then have u: "unsigned_decimal 18 (dec_plain D a)" using plain_shape assms by blast
    have "exact_test D (\<lambda>d. dec_gt D d (dec_int D 0)) (dec_plain D a)"
      using a e by (simp add: exact_test_def del: exact.simps)
    then show "positive_rate D (dec_plain D a) = Some (dec_plain D a)"
      using u trim_id [OF decimal_spaceless [OF u]] by (simp add: positive_rate_def trimmed_match_def accept_def)
  qed
qed

text \<open>When each kind of resolved snapshot passes the whole schema.\<close>

lemma core_parses:
  assumes "fx_snapshot_issues D (parse_time F) y = Inr []"
    and "fx_prov y = Some (core_provenance mode as_of now)" "mode \<in> {FunctionalRate, ExplicitRate}"
    and "is_iso_date F as_of" "is_iso_datetime F now"
  shows "parse_fx_snapshot F D y = Some y \<longleftrightarrow> positive_rate D (fx_rate y) = Some (fx_rate y)
    \<and> trimmed_text 1 100 (fx_source y) = Some (fx_source y) \<and> is_iso_datetime F (fx_effective_at y)"
proof -
  have "parse_fx_provenance F D (core_provenance mode as_of now) = Some (core_provenance mode as_of now)"
    using assms snapshot_ok(1) [OF assms(1,2)] policies_trimmed
    by (subst provenance_parses) (auto simp: core_provenance_def)
  then show ?thesis using snapshot_parses [OF assms(1,2)] by simp
qed

lemma stored_parses:
  assumes "fx_snapshot_issues D (parse_time F) y = Inr []" "fx_prov y = Some (stored_provenance C as_of w)"
    and "fx_effective_at y = fc_iso C t" "\<forall>t. is_iso_datetime F (fc_iso C t)" "is_iso_date F as_of"
      "is_uuid F (rt_id w)"
  shows "parse_fx_snapshot F D y = Some y \<longleftrightarrow> positive_rate D (fx_rate y) = Some (fx_rate y)
    \<and> trimmed_text 1 100 (fx_source y) = Some (fx_source y)"
proof -
  have "parse_fx_provenance F D (stored_provenance C as_of w) = Some (stored_provenance C as_of w)"
    using assms snapshot_ok(1) [OF assms(1,2)] policies_trimmed
    by (subst provenance_parses) (auto simp: stored_provenance_def core_provenance_def accept_def)
  then show ?thesis using snapshot_parses [OF assms(1,2)] assms(3,4) by simp
qed

lemma provider_parses:
  assumes "fx_snapshot_issues D (parse_time F) y = Inr []" "provider_record D C source target as_of y q"
    and "upper_code 3 source" "upper_code 3 target" "is_iso_date F as_of" "\<forall>t. is_iso_datetime F (fc_iso C t)"
      "\<forall>d. is_iso_datetime F d \<longrightarrow> is_iso_date F (take 10 d)"
  shows "parse_fx_snapshot F D y = Some y \<longleftrightarrow> (\<exists>r>0. plain_value (fx_rate y) = Some r) \<and> quotes_pass D q"
proof -
  obtain rate t provider where y: "dec_finite D rate" "fx_rate y = dec_plain D (dec_places D 18 rate)"
    "fx_effective_at y = fc_iso C t" "fx_source y = provider_attribution provider" "fx_prov y = Some q"
    using assms(2) by (auto simp: provider_record_def)
  have "plain_value (fx_rate y) = Some (half_up 18 (val rate))"
    using plain_value_plain [of "dec_places D 18 rate"] y(1,2) by simp
  then have "positive_rate D (fx_rate y) = Some (fx_rate y) \<longleftrightarrow> (\<exists>r>0. plain_value (fx_rate y) = Some r)"
    using positive_rate_plain [of "dec_places D 18 rate"] y(1,2) by simp
  then show ?thesis
    using snapshot_parses [OF assms(1) y(5)] provider_provenance_parses [OF assms(2,1,3-7)] attribution_trimmed
      y(3,4) assms(6) by simp
qed

lemma positive_rate_one: "positive_rate D ''1'' = Some ''1''"
proof -
  have "plain_value ''1'' = Some 1" by code_simp
  then obtain e where "exact D (TextIn ''1'') = Inr e" "dec_finite D e" "val e = 1"
    using exact_text by blast
  moreover have "unsigned_decimal 18 ''1''" "trim ''1'' = ''1''" by code_simp+
  ultimately show ?thesis
    by (simp add: positive_rate_def trimmed_match_def accept_def exact_test_def del: exact.simps)
qed

lemma parsed_rate_scaled:
  assumes "parse_fx_input F D x = Some x" "exact D (TextIn (fx_rate x)) = Inr d"
  shows "scaled 18 (val d)" "trimmed_text 1 100 (fx_source x) = Some (fx_source x)"
    "is_iso_datetime F (fx_effective_at x)"
proof -
  have x: "positive_rate D (fx_rate x) = Some (fx_rate x)" "trimmed_text 1 100 (fx_source x) = Some (fx_source x)"
    "is_iso_datetime F (fx_effective_at x)"
    using assms(1) by (cases x; auto simp: parse_fx_input_def parse_fx_fields_def bind_eq_Some_conv)+
  then show "trimmed_text 1 100 (fx_source x) = Some (fx_source x)" "is_iso_datetime F (fx_effective_at x)"
    by simp_all
  obtain q where q: "text_amount (fx_rate x) q" "scaled 18 q" using positive_rate_value [OF x(1)] by blast
  obtain e where "exact D (TextIn (fx_rate x)) = Inr e" "val e = q" using exact_text [OF q(1)] .
  then show "scaled 18 (val d)" using assms(2) q(2) by simp
qed

end

section \<open>Property\<close>

text \<open>
  C40. Every resolved rate is accountable.  Whatever the providers answer, the cross-field
  check of the snapshot schema finds no issue in what \<open>resolveFx\<close> returns, and the
  recorded mode is true: the functional rate is one and used only within the functional
  currency; an explicit rate is the caller's positive rate; an organization rate is the
  latest stored one of the pair not effective after the as-of day; a provider's rate is used
  only when the caller gave none and no stored one applies.  When the whole snapshot schema
  accepts the result unchanged is exact: always for the functional rate; for an explicit rate
  when it has at most 18 decimal places and its attribution and time are in the form of the
  schema, so always when the caller's rate passed its request schema; for a stored rate when
  it is positive with at most 18 places and a trimmed attribution; for a provider's rate when
  it does not round to zero and the quotes it was computed from have at most 18 places.
  Formats are those of the schema library; identifiers of stored rates are database
  identifiers.
\<close>

theorem resolved_rate_is_accountable:
  assumes "decimal_text D val rnd"
    and "resolve_fx D C V T transaction_currency functional_currency as_of explicit = Inr y"
    and "upper_code 3 (to_upper (trim transaction_currency))"
    and "upper_code 3 (to_upper (trim functional_currency))"
    and "\<forall>s t. fc_parse C s = Some t \<longrightarrow> parse_time F s = t" and "parse_time F (fc_iso C (fc_now C)) = fc_now C"
    and "\<forall>t. fc_iso C t \<noteq> [] \<and> is_iso_datetime F (fc_iso C t)"
    and "\<forall>r \<in> set (xt_rates T). rt_id r \<noteq> [] \<and> is_uuid F (rt_id r)"
    and "is_iso_date F as_of" and "\<forall>d. is_iso_date F d \<longrightarrow> is_iso_datetime F (d @ ''T00:00:00.000Z'')"
    and "\<forall>d. is_iso_datetime F d \<longrightarrow> is_iso_date F (take 10 d)"
  defines "s \<equiv> to_upper (trim transaction_currency)" and "t \<equiv> to_upper (trim functional_currency)"
  shows "fx_snapshot_issues D (parse_time F) y = Inr []
    \<and> (\<exists>p. fx_prov y = Some p \<and> fp_as_of_date p = as_of
       \<and> (case fp_mode p of
            FunctionalRate \<Rightarrow> s = t \<and> fx_rate y = ''1'' \<and> parse_fx_snapshot F D y = Some y
          | ExplicitRate \<Rightarrow> s \<noteq> t \<and> (\<exists>x d. explicit = Some x \<and> fx_source y = fx_source x
              \<and> exact D (TextIn (fx_rate x)) = Inr d \<and> 0 < val d \<and> fx_rate y = dec_plain D d
              \<and> (parse_fx_snapshot F D y = Some y \<longleftrightarrow> scaled 18 (val d)
                   \<and> trimmed_text 1 100 (fx_source x) = Some (fx_source x) \<and> is_iso_datetime F (fx_effective_at x))
              \<and> (parse_fx_input F D x = Some x \<longrightarrow> parse_fx_snapshot F D y = Some y))
          | OrganizationRate \<Rightarrow> s \<noteq> t \<and> explicit = None \<and> (\<exists>start r d. midnight C as_of = Some start
              \<and> r \<in> set (applicable_rates T s t start)
              \<and> (\<forall>r' \<in> set (applicable_rates T s t start). rt_effective r' \<le> rt_effective r)
              \<and> fp_organization_rate p = Some (rt_id r) \<and> fx_source y = rt_source r
              \<and> exact D (TextIn (rt_rate r)) = Inr d \<and> fx_rate y = dec_plain D d
              \<and> (parse_fx_snapshot F D y = Some y \<longleftrightarrow> 0 < val d \<and> scaled 18 (val d)
                   \<and> trimmed_text 1 100 (rt_source r) = Some (rt_source r)))
          | ProviderRate \<Rightarrow> s \<noteq> t \<and> explicit = None \<and> (\<exists>start. midnight C as_of = Some start
              \<and> applicable_rates T s t start = [])
              \<and> (parse_fx_snapshot F D y = Some y \<longleftrightarrow>
                   (\<exists>r>0. plain_value (fx_rate y) = Some r) \<and> quotes_pass D p)))" (is "_ \<and> ?choice")
proof
  note lib = decimal_text.axioms(1) [OF assms(1)]
  show issues: "fx_snapshot_issues D (parse_time F) y = Inr []"
    by (rule decimal_lib.resolved_accepted [OF lib assms(2-4)]) (use assms(5-8) in auto)
  have iso: "\<forall>t. is_iso_datetime F (fc_iso C t)" using assms(7) by blast
  note plain = decimal_text.positive_rate_plain [OF assms(1)]
  show ?choice
    using assms(2)
  proof (cases rule: decimal_lib.resolved_cases
      [OF lib, consumes 1, case_names functional explicit stored provider])
    case functional
    have "positive_rate D ''1'' = Some ''1''"
      by (rule decimal_text.positive_rate_one [OF assms(1)])
    then have "parse_fx_snapshot F D y = Some y"
      using functional decimal_text.core_parses [OF assms(1) issues functional(5)] policies_trimmed(2) assms(9,10) iso
      by simp
    then show ?thesis using functional by (auto simp: s_def t_def core_provenance_def)
  next
    case (explicit x d)
    have d: "dec_finite D d" using decimal_lib.exact_finite [OF lib explicit(3)] .
    have "parse_fx_snapshot F D y = Some y \<longleftrightarrow> scaled 18 (val d)
        \<and> trimmed_text 1 100 (fx_source x) = Some (fx_source x) \<and> is_iso_datetime F (fx_effective_at x)"
      using decimal_text.core_parses [OF assms(1) issues explicit(8)] plain [OF d] explicit(4-7) assms(9) iso by simp
    then show ?thesis
      using explicit decimal_text.parsed_rate_scaled [OF assms(1) _ explicit(3), of F]
      by (auto simp: s_def t_def core_provenance_def simp del: exact.simps)
  next
    case (stored start w d)
    have d: "dec_finite D d" using decimal_lib.exact_finite [OF lib stored(5)] .
    have "w \<in> set (xt_rates T)" using stored_rate_Some(1) [OF stored(4)] by (simp add: applicable_rates_def)
    then have "is_uuid F (rt_id w)" using assms(8) by blast
    then have "parse_fx_snapshot F D y = Some y \<longleftrightarrow> 0 < val d \<and> scaled 18 (val d)
        \<and> trimmed_text 1 100 (rt_source w) = Some (rt_source w)"
      using decimal_text.stored_parses [OF assms(1) issues stored(9,8) iso assms(9)] plain [OF d] stored(6,7) by simp
    then show ?thesis using stored stored_rate_Some [OF stored(4)]
      by (auto simp: s_def t_def stored_provenance_def core_provenance_def simp del: exact.simps)
  next
    case (provider start)
    obtain q where q: "provider_record D C s t as_of y q"
      using decimal_lib.provider_rate_record [OF lib provider(5)] by (auto simp: s_def t_def)
    have "parse_fx_snapshot F D y = Some y \<longleftrightarrow> (\<exists>r>0. plain_value (fx_rate y) = Some r) \<and> quotes_pass D q"
      by (rule decimal_text.provider_parses [OF assms(1) issues q]) (use assms(3,4,9,11) iso in \<open>auto simp: s_def t_def\<close>)
    then show ?thesis using provider q stored_rate_None [OF provider(4)]
      by (auto simp: s_def t_def provider_record_def)
  qed
qed

section \<open>An example\<close>

text \<open>
  United States dollars in euros on the second of March 2026, from the Bank of Canada's
  two quotes of the last business day.
\<close>

definition example_clock :: fx_clock where
  "example_clock = \<lparr>fc_parse = map_of [(''2026-02-27T00:00:00.000Z'', 1772150400000),
       (''2026-03-02T00:00:00.000Z'', 1772409600000), (''2026-03-02T14:59:00.000Z'', 1772463540000),
       (''2026-03-02T15:00:00.000Z'', 1772463600000)],
     fc_iso = (\<lambda>t. if t = 1772150400000 then ''2026-02-27T00:00:00.000Z''
       else if t = 1772463540000 then ''2026-03-02T14:59:00.000Z'' else ''2026-03-02T15:00:00.000Z''),
     fc_start = 1772463600000, fc_statement = 1772463600000, fc_now = 1772463600000\<rparr>"

definition example_observation :: central_observation where
  "example_observation = \<lparr>co_rate = ''0.925048910476961479'', co_observed_at = ''2026-02-27T00:00:00.000Z'',
     co_source = ''USD'', co_target = ''EUR'', co_calculation = CrossViaCad,
     co_formula = CadPerSourceOverCadPerTarget,
     co_legs = [\<lparr>ql_currency = ''USD'', ql_rate = ''1.3712'', ql_observed_date = ''2026-02-27'',
                 ql_series = ''FXUSDCAD''\<rparr>,
                \<lparr>ql_currency = ''EUR'', ql_rate = ''1.4823'', ql_observed_date = ''2026-02-27'',
                 ql_series = ''FXEURCAD''\<rparr>],
     co_retrieved_at = ''2026-03-02T14:59:00.000Z'', co_sha = replicate 64 (CHR ''a'')\<rparr>"

definition example_providers :: fx_providers where
  "example_providers = \<lparr>pv_boc = (\<lambda>_ _ _. Some example_observation), pv_ecb = (\<lambda>_ _ _. None),
     pv_yahoo = (\<lambda>_ _ _. None), pv_yahoo_enabled = False\<rparr>"

definition example_fx_tables :: fx_tables where
  "example_fx_tables = \<lparr>xt_rates = [], xt_enabled = [''CAD'', ''USD'', ''EUR''],
     xt_policies = [\<lparr>pp_id = Some ''p'', pp_version = 1, pp_mode = BankOfCanadaMode, pp_lookback = 7,
       pp_acknowledged = False\<rparr>]\<rparr>"

definition example_resolved :: "fx_resolution_error + fx_snapshot" where
  "example_resolved =
     resolve_fx ref_api example_clock example_providers example_fx_tables '' usd'' ''EUR'' ''2026-03-02'' None"

definition example_fx_formats :: schema_formats where
  "example_fx_formats = \<lparr>is_uuid = (\<lambda>s. length s = 36), is_iso_date = (\<lambda>s. length s = 10),
     is_iso_datetime = (\<lambda>s. length s = 24), parse_time = (\<lambda>s. or_else (fc_parse example_clock s) 0)\<rparr>"

lemma example_resolves:
  "\<exists>y p. example_resolved = Inr y \<and> fx_rate y = ''0.925048910476961479'' \<and> fx_prov y = Some p
    \<and> fp_mode p = ProviderRate \<and> quotes_pass ref_api p"
proof -
  have "(case example_resolved of Inl _ \<Rightarrow> False | Inr y \<Rightarrow> fx_rate y = ''0.925048910476961479''
      \<and> (case fx_prov y of None \<Rightarrow> False | Some p \<Rightarrow> fp_mode p = ProviderRate \<and> quotes_pass ref_api p))"
    by code_simp
  then show ?thesis by (auto split: sum.splits option.splits)
qed

text \<open>A rate with nineteen decimal places resolves, but no snapshot can be stored with it.\<close>

lemma example_explicit_too_fine:
  "(case resolve_fx ref_api example_clock example_providers example_fx_tables ''USD'' ''EUR'' ''2026-03-02''
      (Some \<lparr>fx_rate = ''0.0000000000000000001'', fx_source = ''desk'',
         fx_effective_at = ''2026-03-02T14:59:00.000Z'', fx_prov = None\<rparr>) of
      Inl _ \<Rightarrow> False
    | Inr y \<Rightarrow> fx_snapshot_issues ref_api (parse_time example_fx_formats) y = Inr []
        \<and> parse_fx_snapshot example_fx_formats ref_api y = None)"
  by code_simp

theorem resolved_rate_is_accountable_witness:
  "\<exists>y. example_resolved = Inr y \<and> fx_rate y = ''0.925048910476961479''
     \<and> fx_snapshot_issues ref_api (parse_time example_fx_formats) y = Inr []
     \<and> parse_fx_snapshot example_fx_formats ref_api y = Some y"
proof -
  obtain y p where y: "example_resolved = Inr y" "fx_rate y = ''0.925048910476961479''" "fx_prov y = Some p"
    "fp_mode p = ProviderRate" "quotes_pass ref_api p"
    using example_resolves by blast
  have codes: "upper_code 3 (to_upper (trim '' usd''))" "upper_code 3 (to_upper (trim ''EUR''))" by code_simp+
  have clock: "\<forall>s t. fc_parse example_clock s = Some t \<longrightarrow> parse_time example_fx_formats s = t"
    "parse_time example_fx_formats (fc_iso example_clock (fc_now example_clock)) = fc_now example_clock"
    "\<forall>t. fc_iso example_clock t \<noteq> [] \<and> is_iso_datetime example_fx_formats (fc_iso example_clock t)"
    by (simp_all add: example_fx_formats_def example_clock_def)
  have formats: "is_iso_date example_fx_formats ''2026-03-02''"
    "\<forall>d. is_iso_date example_fx_formats d \<longrightarrow> is_iso_datetime example_fx_formats (d @ ''T00:00:00.000Z'')"
    "\<forall>d. is_iso_datetime example_fx_formats d \<longrightarrow> is_iso_date example_fx_formats (take 10 d)"
    by (simp_all add: example_fx_formats_def)
  have "plain_value ''0.925048910476961479'' = Some (925048910476961479 / 1000000000000000000)" by code_simp
  then have positive: "\<exists>r>0. plain_value (fx_rate y) = Some r"
    unfolding y(2) by (intro exI [of _ "925048910476961479 / 1000000000000000000"] conjI) simp_all
  have "\<forall>r \<in> set (xt_rates example_fx_tables). rt_id r \<noteq> [] \<and> is_uuid example_fx_formats (rt_id r)"
    by (simp add: example_fx_tables_def)
  from resolved_rate_is_accountable [OF reftext.decimal_text_axioms y(1) [unfolded example_resolved_def] codes
      clock this formats]
  show ?thesis using y positive by auto
qed

end
