(* ===== verification/SubledgerStore.thy ===== *)
theory SubledgerStore
  imports SubledgerSetup PostingEngine FxResolver
begin

text \<open>
  The tables of the subledger and what \<open>subledger/ar-ap-persistence.ts\<close> and
  \<open>subledger/ar-ap-idempotency.ts\<close> read from and insert into them, with the triggers of
  \<open>migrations/drizzle/0011\<close> that guard each insert.  The rows are those of one organization,
  the one of the transaction.  \<open>numeric\<close> columns hold rationals.  Unique indexes are checked
  by the insert; the length limits of text columns, which the request schemas imply, are
  left out, as are \<open>created_at\<close> and the audit rows the triggers append.
\<close>

section \<open>Rows\<close>

datatype source_status = DraftSource | PostedSource | VoidedSource

datatype source_snapshot = DocumentSnapshot document_snapshot | SettlementSnapshot settlement_snapshot

record source_row =
  so_id :: string
  so_entity :: string
  so_owner :: owner_module
  so_type :: string
  so_number :: string
  so_version :: int
  so_status :: source_status
  so_snapshot :: source_snapshot
  so_content_hash :: string
  so_key :: string
  so_command_hash :: string
  so_supersedes :: "string option"
  so_created_by :: string
  so_void_reason :: "string option"

record tax_row =
  tx_id :: string
  tx_ledger :: string
  tx_entity :: string
  tx_pack_version :: string
  tx_source :: string
  tx_line :: nat
  tx_decision :: tax_decision
  tx_currency :: string
  tx_basis :: rat
  tx_total :: rat
  tx_account :: string
  tx_tax_account :: "string option"
  tx_hash :: string

record subledger_event =
  se_id :: string
  se_ledger :: string
  se_party :: string
  se_source :: string
  se_type :: string
  se_version :: string

text \<open>The columns of an open item that change never: status and balances are derived.\<close>

record item_row =
  it_id :: string
  it_ledger :: string
  it_party :: string
  it_event :: string
  it_currency :: string
  it_original :: rat
  it_functional :: rat
  it_due :: string

datatype allocation_type = ApplyAllocation | ReversalAllocation

record allocation_row =
  at_id :: string
  at_ledger :: string
  at_payment :: string
  at_item :: string
  at_type :: allocation_type
  at_reverses :: "string option"
  at_currency :: string
  at_amount :: rat
  at_carrying :: rat
  at_settlement :: rat
  at_realized :: rat
  at_rate :: rat
  at_rate_source :: string
  at_rate_effective :: string
  at_key :: string
  at_command_hash :: string
  at_created_by :: string
  at_effective_on :: string

record void_row =
  vd_id :: string
  vd_ledger :: string
  vd_item :: string
  vd_source :: string
  vd_effective_on :: string
  vd_reason :: string
  vd_key :: string
  vd_command_hash :: string
  vd_created_by :: string

record stored_line =
  bl_account :: string
  bl_debit_functional :: rat
  bl_credit_functional :: rat
  bl_currency :: string
  bl_debit_transaction :: rat
  bl_credit_transaction :: rat
  bl_rate :: rat
  bl_rate_source :: string
  bl_rate_effective :: string
  bl_party :: "string option"
  bl_event :: "string option"
  bl_tax_snapshot :: "string option"
  bl_memo :: string

datatype entry_purpose = RoutineEntry | ReversalEntry

text \<open>A journal entry with its lines; its status and number are in the posting engine's row.\<close>

record entry_row =
  je_id :: string
  je_ledger :: string
  je_entity :: string
  je_period :: string
  je_type :: string
  je_type_definition :: string
  je_type_version :: int
  je_source :: string
  je_event_key :: string
  je_key :: string
  je_command_hash :: string
  je_purpose :: entry_purpose
  je_date :: string
  je_functional :: string
  je_description :: string
  je_created_by :: string
  je_lines :: "stored_line list"

record books =
  bk_sources :: "source_row list"
  bk_taxes :: "tax_row list"
  bk_events :: "subledger_event list"
  bk_items :: "item_row list"
  bk_allocations :: "allocation_row list"
  bk_voids :: "void_row list"
  bk_journals :: "journal_row list"
  bk_entries :: "entry_row list"
  bk_relations :: "(string \<times> string \<times> string) list"

record journal_type_row =
  jy_id :: string
  jy_key :: string
  jy_owner :: string
  jy_version :: int

record issue_command =
  ic_kind :: document_kind
  ic_number :: string
  ic_version :: int
  ic_key :: string

text \<open>Voiding a document and voiding a settlement differ in the kind only.\<close>

record 'k void_command =
  vc_kind :: 'k
  vc_number :: string
  vc_version :: int
  vc_period :: string
  vc_date :: string
  vc_reason :: string
  vc_description :: string
  vc_key :: string

text \<open>The objects that are hashed.\<close>

datatype command_object =
    CreateObject create_document
  | EditObject edit_document
  | IssueObject issue_command
  | SettleObject settlement_command
  | VoidObject "document_kind void_command"
  | SettlementVoidObject "settlement_kind void_command"
  | EvidenceObject "evidence_reference list"

text \<open>
  What a transaction runs against besides the books: the arithmetic, formats and clock of
  the process, the configuration tables, the functions of the database, and what the
  \<open>n\<close>-th call of \<open>randomUUID\<close> returns.  \<open>pf_object\<close> is a command as the JavaScript object it
  is, \<open>pf_entry_accepted\<close> and \<open>pf_source_accepted\<close> are the triggers on journals and the
  evidence trigger, \<open>pf_quotient\<close> the quotient of \<open>numeric\<close>s, \<open>pf_time_text\<close> the text of a
  stored instant and \<open>pf_instant\<close> the instant a text denotes.
\<close>

record 'd platform =
  pf_decimal :: "'d decimal_api"
  pf_formats :: schema_formats
  pf_environment :: environment
  pf_lease :: "tenant_context \<Rightarrow> bool"
  pf_access :: access_tables
  pf_setup :: setup_tables
  pf_fx :: fx_tables
  pf_clock :: fx_clock
  pf_providers :: fx_providers
  pf_types :: "journal_type_row list"
  pf_currencies :: "(string \<times> nat) list"
  pf_decision_hash :: "tax_decision \<Rightarrow> string"
  pf_content_hash :: "source_snapshot \<Rightarrow> string"
  pf_sha :: "string \<Rightarrow> string"
  pf_locale :: "string \<Rightarrow> string \<Rightarrow> bool"
  pf_journal_hash :: "string \<Rightarrow> string option"
  pf_allocate :: "journal_row \<Rightarrow> int option"
  pf_entry_accepted :: "entry_row \<Rightarrow> bool"
  pf_source_accepted :: "source_row \<Rightarrow> bool"
  pf_demo_session :: bool
  pf_quotient :: "rat \<Rightarrow> rat \<Rightarrow> rat"
  pf_time_text :: "string \<Rightarrow> string"
  pf_instant :: "string \<Rightarrow> int"
  pf_object :: "command_object \<Rightarrow> js_value"
  pf_random :: "nat \<Rightarrow> string"

datatype subledger_error =
    SubledgerAccess access_error
  | SourceTaxAuthorizationRequired
  | InvalidCommand
  | SubledgerFingerprint fingerprint_error
  | SubledgerSetup setup_error
  | SubledgerFx fx_resolution_error
  | SubledgerDocument document_error
  | SubledgerTax current_tax_error
  | SubledgerLines journal_error
  | SubledgerSettlement settlement_error
  | SubledgerPosting posting_error
  | VoidReasonNotBound
  | KeyBoundToOtherCommand
  | NumberInUse
  | NotCurrentVersion
  | SnapshotMismatch
  | InvalidStoredSnapshot
  | FxNotPreservable
  | ExplicitFxRequired
  | PackVersionMissing
  | JournalTypeMissing
  | OpenItemMissing
  | ItemAlreadyVoided
  | AllocationsNotReversed
  | OriginalJournalMissing
  | NoReversibleLines
  | NothingToReverse
  | ReversalNeedsOpenPeriod
  | FunctionalRateMustBeOne
  | ArtifactsMissing
  | NumericOutOfRange
  | UniqueViolation
  | TriggerRefused

section \<open>Columns\<close>

text \<open>
  A text cast to \<open>numeric(38, k)\<close>: rounded half away from zero, and refused beyond the 38
  digits; and the text of such a value.
\<close>

definition numeric_input :: "nat \<Rightarrow> string \<Rightarrow> subledger_error + rat" where
  "numeric_input k s =
     (case plain_value s of
        None \<Rightarrow> Inl NumericOutOfRange
      | Some q \<Rightarrow> let r = half_up k q in
          bindE (require (\<bar>r\<bar> < 10 ^ (38 - k)) NumericOutOfRange) (\<lambda>_. Inr r))"

definition numeric_output :: "rat \<Rightarrow> string" where
  "numeric_output q = fixed_text (q < 0) 9 \<lfloor>\<bar>q\<bar> * 10 ^ 9\<rfloor>"

text \<open>\<open>coalesce(sum(...), 0)::text\<close> over the rows.\<close>

definition sum_output :: "rat list \<Rightarrow> string" where
  "sum_output qs = (if qs = [] then ''0'' else numeric_output (sum_list qs))"

definition permitted :: "'d platform \<Rightarrow> tenant_context \<Rightarrow> permission \<Rightarrow> bool" where
  "permitted P c p = actor_has_active_permission (pf_access P) (ctx_organization c) (ctx_actor c) p"

text \<open>The clause on demo organizations at the end of every trigger.\<close>

definition demo_allowed :: "'d platform \<Rightarrow> tenant_context \<Rightarrow> bool" where
  "demo_allowed P c =
     (case find_organization (pf_access P) (ctx_organization c) of
        None \<Rightarrow> True
      | Some g \<Rightarrow> org_is_demo g \<longrightarrow> pf_demo_session P)"


fun owner_text :: "owner_module \<Rightarrow> string" where
  "owner_text Receivables = ''receivables''"
| "owner_text Payables = ''payables''"

section \<open>Source documents\<close>

definition find_source :: "books \<Rightarrow> string \<Rightarrow> source_row option" where
  "find_source B sid = List.find (\<lambda>r. so_id r = sid) (bk_sources B)"

definition find_source_by_idempotency :: "books \<Rightarrow> string \<Rightarrow> source_row option" where
  "find_source_by_idempotency B key = List.find (\<lambda>r. so_key r = key) (bk_sources B)"

text \<open>The latest version: \<open>ORDER BY version DESC LIMIT 1\<close>.\<close>

definition versions_of :: "books \<Rightarrow> string \<Rightarrow> string \<Rightarrow> source_row list" where
  "versions_of B type num = filter (\<lambda>r. so_type r = type \<and> so_number r = num) (bk_sources B)"

definition current_source_document :: "books \<Rightarrow> string \<Rightarrow> string \<Rightarrow> source_row option" where
  "current_source_document B type num = first_by (\<lambda>a b. so_version a > so_version b) (versions_of B type num)"

text \<open>\<open>recordFromRow\<close>: the row with its snapshot parsed; \<open>None\<close>: the parser throws.\<close>

definition parse_source_snapshot ::
  "schema_formats \<Rightarrow> 'd decimal_api \<Rightarrow> source_snapshot \<Rightarrow> source_snapshot option" where
  "parse_source_snapshot F D s =
     (case s of
        DocumentSnapshot d \<Rightarrow> map_option DocumentSnapshot (parse_document_snapshot F D d)
      | SettlementSnapshot t \<Rightarrow> map_option SettlementSnapshot (parse_settlement_snapshot F D t))"

definition record_from_row :: "'d platform \<Rightarrow> source_row \<Rightarrow> subledger_error + source_row" where
  "record_from_row P r =
     bindE (option_to_result InvalidStoredSnapshot
       (parse_source_snapshot (pf_formats P) (pf_decimal P) (so_snapshot r))) (\<lambda>s.
     Inr (r\<lparr>so_snapshot := s\<rparr>))"

definition source_permission :: "source_row \<Rightarrow> permission" where
  "source_permission r =
     (if so_owner r = Receivables then
        (if so_type r = ''receivables.customer-receipt'' then
           (if so_status r = VoidedSource then VoidReceivables else SettleReceivables)
         else if so_status r = DraftSource then ManageReceivables
         else if so_status r = PostedSource then PostReceivables else VoidReceivables)
      else
        (if so_type r = ''payables.supplier-payment'' then
           (if so_status r = VoidedSource then VoidPayables else SettlePayables)
         else if so_status r = DraftSource then ManagePayables
         else if so_status r = PostedSource then PostPayables else VoidPayables))"

definition guard_source_document_version ::
  "'d platform \<Rightarrow> tenant_context \<Rightarrow> books \<Rightarrow> source_row \<Rightarrow> subledger_error + unit" where
  "guard_source_document_version P c B r =
     bindE (require (so_created_by r = ctx_actor c) TriggerRefused) (\<lambda>_.
     bindE (require (permitted P c (source_permission r)) TriggerRefused) (\<lambda>_.
     bindE (require (demo_allowed P c) TriggerRefused) (\<lambda>_.
     bindE (require
         (if so_version r = 1 then so_supersedes r = None
          else (case Option.bind (so_supersedes r) (find_source B) of
                  None \<Rightarrow> False
                | Some prior \<Rightarrow> so_type prior = so_type r \<and> so_number prior = so_number r
                    \<and> so_version r = so_version prior + 1
                    \<and> list_all (\<lambda>n. so_version n \<le> so_version prior) (versions_of B (so_type r) (so_number r))))
         TriggerRefused) (\<lambda>_.
     throw_if (so_status r = VoidedSource \<and> length (or_else (so_void_reason r) []) < 5) TriggerRefused))))"

definition append_source_document ::
  "'d platform \<Rightarrow> tenant_context \<Rightarrow> books \<Rightarrow> source_row \<Rightarrow> subledger_error + books" where
  "append_source_document P c B r =
     bindE (guard_source_document_version P c B r) (\<lambda>_.
     bindE (require (pf_source_accepted P r) TriggerRefused) (\<lambda>_.
     bindE (throw_if (list_ex (\<lambda>q. so_id q = so_id r \<or> so_key q = so_key r
         \<or> (so_type q = so_type r \<and> so_number q = so_number r \<and> so_version q = so_version r)) (bk_sources B))
       UniqueViolation) (\<lambda>_.
     Inr (B\<lparr>bk_sources := bk_sources B @ [r]\<rparr>))))"

section \<open>Tax snapshots, events and open items\<close>

definition tax_row_of ::
  "document_snapshot \<Rightarrow> string \<Rightarrow> (string \<Rightarrow> pack_version_row option) \<Rightarrow> string \<times> snapshot_line
     \<Rightarrow> subledger_error + tax_row" where
  "tax_row_of s source versions = (\<lambda>(tid, l).
     bindE (option_to_result PackVersionMissing (versions (line_pack_identity l))) (\<lambda>v.
     bindE (numeric_input 9 (sl_net l)) (\<lambda>basis.
     bindE (numeric_input 9 (td_total_tax (sl_decision l))) (\<lambda>tax_total.
     Inr \<lparr>tx_id = tid, tx_ledger = ds_ledger s, tx_entity = ds_entity s, tx_pack_version = pv_id v,
       tx_source = source, tx_line = sl_number l, tx_decision = sl_decision l, tx_currency = ds_currency s,
       tx_basis = basis, tx_total = tax_total, tx_account = sl_account l,
       tx_tax_account = ds_tax_account s, tx_hash = sl_hash l\<rparr>))))"

definition insert_tax_determination_snapshots ::
  "books \<Rightarrow> string list \<Rightarrow> string \<Rightarrow> document_snapshot \<Rightarrow> (string \<Rightarrow> pack_version_row option)
     \<Rightarrow> subledger_error + (nat \<Rightarrow> string option) \<times> books" where
  "insert_tax_determination_snapshots B ids source s versions =
     bindE (mapE (tax_row_of s source versions) (zip ids (ds_lines s))) (\<lambda>rows.
     bindE (require (distinct (map tx_id (bk_taxes B) @ map tx_id rows)) UniqueViolation) (\<lambda>_.
     Inr (map_of (rev (map (\<lambda>r. (tx_line r, tx_id r)) rows)), B\<lparr>bk_taxes := bk_taxes B @ rows\<rparr>)))"

definition find_party_account :: "'d platform \<Rightarrow> string \<Rightarrow> party_account_row option" where
  "find_party_account P pid = List.find (\<lambda>a. pa_id a = pid) (st_party_accounts (pf_setup P))"

definition event_permission :: "string \<Rightarrow> permission option" where
  "event_permission type =
     (if type = ''receivables.sales-invoice'' then Some PostReceivables
      else if type = ''receivables.customer-receipt'' then Some SettleReceivables
      else if type = ''payables.supplier-bill'' then Some PostPayables
      else if type = ''payables.supplier-payment'' then Some SettlePayables else None)"

definition guard_subledger_event_insert ::
  "'d platform \<Rightarrow> tenant_context \<Rightarrow> books \<Rightarrow> subledger_event \<Rightarrow> subledger_error + unit" where
  "guard_subledger_event_insert P c B e =
     bindE (option_to_result TriggerRefused (find_source B (se_source e))) (\<lambda>source.
     bindE (require (so_status source = PostedSource
         \<and> map_option pa_entity (find_party_account P (se_party e)) = Some (so_entity source)) TriggerRefused) (\<lambda>_.
     bindE (option_to_result TriggerRefused (event_permission (so_type source))) (\<lambda>p.
     bindE (require (permitted P c p) TriggerRefused) (\<lambda>_.
     require (demo_allowed P c) TriggerRefused))))"

definition insert_subledger_event ::
  "'d platform \<Rightarrow> tenant_context \<Rightarrow> books \<Rightarrow> subledger_event \<Rightarrow> subledger_error + books" where
  "insert_subledger_event P c B e =
     bindE (guard_subledger_event_insert P c B e) (\<lambda>_.
     bindE (throw_if (list_ex (\<lambda>q. se_id q = se_id e) (bk_events B)) UniqueViolation) (\<lambda>_.
     Inr (B\<lparr>bk_events := bk_events B @ [e]\<rparr>)))"

definition guard_open_item_insert :: "books \<Rightarrow> item_row \<Rightarrow> subledger_error + unit" where
  "guard_open_item_insert B i =
     bindE (require (0 < it_original i \<and> 0 < it_functional i) TriggerRefused) (\<lambda>_.
     require (list_ex (\<lambda>e. se_id e = it_event i \<and> se_ledger e = it_ledger i \<and> se_party e = it_party i)
       (bk_events B)) TriggerRefused)"

definition insert_open_item ::
  "books \<Rightarrow> string \<Rightarrow> document_snapshot \<Rightarrow> string \<Rightarrow> subledger_error + books" where
  "insert_open_item B iid s event =
     bindE (numeric_input 9 (ds_gross s)) (\<lambda>original.
     bindE (numeric_input 9 (ds_gross_functional s)) (\<lambda>functional.
     let i = \<lparr>it_id = iid, it_ledger = ds_ledger s, it_party = ds_party s, it_event = event,
           it_currency = ds_currency s, it_original = original, it_functional = functional, it_due = ds_due s\<rparr> in
     bindE (guard_open_item_insert B i) (\<lambda>_.
     bindE (throw_if (list_ex (\<lambda>q. it_id q = iid) (bk_items B)) UniqueViolation) (\<lambda>_.
     Inr (B\<lparr>bk_items := bk_items B @ [i]\<rparr>)))))"

section \<open>Journals\<close>

definition stored_line_of :: "journal_line \<Rightarrow> subledger_error + stored_line" where
  "stored_line_of l =
     bindE (numeric_input 9 (ln_debit_functional l)) (\<lambda>df.
     bindE (numeric_input 9 (ln_credit_functional l)) (\<lambda>cf.
     bindE (numeric_input 9 (ln_debit_transaction l)) (\<lambda>dt.
     bindE (numeric_input 9 (ln_credit_transaction l)) (\<lambda>ct.
     bindE (numeric_input 18 (ln_rate l)) (\<lambda>rate.
     Inr \<lparr>bl_account = ln_account l, bl_debit_functional = df, bl_credit_functional = cf,
       bl_currency = ln_currency l, bl_debit_transaction = dt, bl_credit_transaction = ct, bl_rate = rate,
       bl_rate_source = ln_rate_source l, bl_rate_effective = ln_rate_effective l, bl_party = ln_party l,
       bl_event = ln_event l, bl_tax_snapshot = ln_tax_snapshot l, bl_memo = ln_memo l\<rparr>)))))"

text \<open>The row read back as texts.\<close>

definition original_line_of :: "stored_line \<Rightarrow> original_line" where
  "original_line_of l =
     \<lparr>ol_account = bl_account l, ol_debit_functional = numeric_output (bl_debit_functional l),
      ol_credit_functional = numeric_output (bl_credit_functional l), ol_currency = bl_currency l,
      ol_debit_transaction = numeric_output (bl_debit_transaction l),
      ol_credit_transaction = numeric_output (bl_credit_transaction l),
      ol_rate = fixed_text (bl_rate l < 0) 18 \<lfloor>\<bar>bl_rate l\<bar> * 10 ^ 18\<rfloor>, ol_rate_source = bl_rate_source l,
      ol_rate_effective = bl_rate_effective l, ol_party = bl_party l, ol_event = bl_event l,
      ol_tax_snapshot = bl_tax_snapshot l, ol_memo = Some (bl_memo l)\<rparr>"

definition find_journal_type :: "'d platform \<Rightarrow> string \<Rightarrow> owner_module \<Rightarrow> journal_type_row option" where
  "find_journal_type P key owner =
     first_by (\<lambda>a b. jy_version a > jy_version b)
       (filter (\<lambda>t. jy_key t = key \<and> jy_owner t = owner_text owner) (pf_types P))"

text \<open>The argument object of \<open>insertAndPostJournal\<close>, apart from the lines.\<close>

record journal_request =
  jq_ledger :: string
  jq_entity :: string
  jq_period :: string
  jq_type :: string
  jq_owner :: owner_module
  jq_source :: string
  jq_event_key :: string
  jq_key :: string
  jq_command_hash :: string
  jq_purpose :: entry_purpose
  jq_date :: string
  jq_functional :: string
  jq_description :: string

definition insert_and_post_journal ::
  "'d platform \<Rightarrow> tenant_context \<Rightarrow> books \<Rightarrow> string \<Rightarrow> journal_request \<Rightarrow> journal_line list
     \<Rightarrow> subledger_error + int \<times> books" where
  "insert_and_post_journal P c B jid q ls =
     bindE (option_to_result JournalTypeMissing (find_journal_type P (jq_type q) (jq_owner q))) (\<lambda>t.
     bindE (throw_if (list_ex (\<lambda>e. je_id e = jid \<or> je_key e = jq_key q) (bk_entries B)
         \<or> list_ex (\<lambda>j. jr_id j = jid) (bk_journals B)) UniqueViolation) (\<lambda>_.
     bindE (mapE stored_line_of ls) (\<lambda>stored.
     let e = \<lparr>je_id = jid, je_ledger = jq_ledger q, je_entity = jq_entity q, je_period = jq_period q,
           je_type = jq_type q, je_type_definition = jy_id t, je_type_version = jy_version t,
           je_source = jq_source q, je_event_key = jq_event_key q, je_key = jq_key q,
           je_command_hash = jq_command_hash q, je_purpose = jq_purpose q, je_date = jq_date q,
           je_functional = jq_functional q, je_description = jq_description q,
           je_created_by = ctx_actor c, je_lines = stored\<rparr>;
         j = \<lparr>jr_id = jid, jr_organization = ctx_organization c, jr_status = JDraft, jr_content_hash = None,
           jr_approval_version = None, jr_journal_number = None, jr_type_key = jq_type q,
           jr_owner_module = owner_text (jq_owner q)\<rparr> in
     bindE (require (pf_entry_accepted P e) TriggerRefused) (\<lambda>_.
     bindE (map_errorE SubledgerPosting (post_journal_in_transaction (pf_journal_hash P) (pf_allocate P)
       (pf_access P) \<lparr>po_context = c, po_journal = jid, po_expected_hash = None, po_expected_approval = None,
         po_required_owner = None, po_required_type = None\<rparr> (bk_journals B @ [j]))) (\<lambda>(posted, journals).
     Inr (por_number posted, B\<lparr>bk_entries := bk_entries B @ [e], bk_journals := journals\<rparr>))))))"

definition posted_journal :: "books \<Rightarrow> entry_row \<Rightarrow> journal_row option" where
  "posted_journal B e = List.find (\<lambda>j. jr_id j = je_id e \<and> jr_status j = JPosted) (bk_journals B)"

definition load_original_posted_journal ::
  "books \<Rightarrow> string \<Rightarrow> string \<Rightarrow> subledger_error + entry_row \<times> original_line list" where
  "load_original_posted_journal B source type =
     bindE (option_to_result OriginalJournalMissing
       (List.find (\<lambda>e. je_source e = source \<and> je_type e = type \<and> posted_journal B e \<noteq> None) (bk_entries B))) (\<lambda>e.
     bindE (throw_if (length (je_lines e) < 2) NoReversibleLines) (\<lambda>_.
     Inr (e, map original_line_of (je_lines e))))"

definition insert_relation :: "books \<Rightarrow> string \<Rightarrow> string \<Rightarrow> string \<Rightarrow> subledger_error + books" where
  "insert_relation B from_id to_id reason =
     bindE (throw_if (list_ex (\<lambda>r. fst r = from_id \<and> fst (snd r) = to_id) (bk_relations B)) UniqueViolation) (\<lambda>_.
     Inr (B\<lparr>bk_relations := bk_relations B @ [(from_id, to_id, reason)]\<rparr>))"

section \<open>Allocations\<close>

definition item_allocations :: "books \<Rightarrow> string \<Rightarrow> allocation_row list" where
  "item_allocations B iid = filter (\<lambda>a. at_item a = iid) (bk_allocations B)"

text \<open>\<open>CASE allocation_type WHEN 'APPLY' THEN x ELSE -x END\<close>\<close>

definition signed_by_type :: "(allocation_row \<Rightarrow> rat) \<Rightarrow> allocation_row \<Rightarrow> rat" where
  "signed_by_type f a = (if at_type a = ApplyAllocation then f a else - f a)"

definition net_amounts :: "books \<Rightarrow> string \<Rightarrow> (allocation_row \<Rightarrow> rat) \<Rightarrow> rat list" where
  "net_amounts B iid f = map (signed_by_type f) (item_allocations B iid)"

definition find_void :: "books \<Rightarrow> string \<Rightarrow> void_row option" where
  "find_void B iid = List.find (\<lambda>v. vd_item v = iid) (bk_voids B)"

definition find_item :: "books \<Rightarrow> string \<Rightarrow> item_row option" where
  "find_item B iid = List.find (\<lambda>i. it_id i = iid) (bk_items B)"

definition find_event :: "books \<Rightarrow> string \<Rightarrow> subledger_event option" where
  "find_event B eid = List.find (\<lambda>e. se_id e = eid) (bk_events B)"

definition snapshot_fx :: "source_snapshot \<Rightarrow> fx_snapshot" where
  "snapshot_fx s = (case s of DocumentSnapshot d \<Rightarrow> ds_fx d | SettlementSnapshot t \<Rightarrow> ss_fx t)"

definition locked_open_item :: "books \<Rightarrow> string \<Rightarrow> open_item option" where
  "locked_open_item B iid = do {
     i \<leftarrow> find_item B iid;
     e \<leftarrow> find_event B (it_event i);
     source \<leftarrow> find_source B (se_source e);
     Some \<lparr>oi_id = it_id i, oi_ledger = it_ledger i, oi_party = it_party i, oi_currency = it_currency i,
       oi_original_transaction = numeric_output (it_original i),
       oi_original_functional = numeric_output (it_functional i),
       oi_allocated_transaction = sum_output (net_amounts B iid at_amount),
       oi_allocated_carrying = sum_output (net_amounts B iid at_carrying),
       oi_source_type = so_type source, oi_fx_source = Some (fx_source (snapshot_fx (so_snapshot source))),
       oi_fx_effective = Some (fx_effective_at (snapshot_fx (so_snapshot source))),
       oi_void_event = map_option vd_id (find_void B iid)\<rparr> }"

definition lock_settlement_open_items ::
  "books \<Rightarrow> string list \<Rightarrow> subledger_error + (string \<Rightarrow> open_item option)" where
  "lock_settlement_open_items B ids =
     bindE (require (list_all (\<lambda>i. locked_open_item B i \<noteq> None) ids) OpenItemMissing) (\<lambda>_.
     Inr (\<lambda>i. if i \<in> set ids then locked_open_item B i else None))"

definition payment_facts :: "source_snapshot \<Rightarrow> string \<times> string" where
  "payment_facts s =
     (case s of DocumentSnapshot d \<Rightarrow> (ds_party d, ds_ledger d)
      | SettlementSnapshot t \<Rightarrow> (ss_party t, ss_ledger t))"

definition allocation_permission :: "party_role \<Rightarrow> allocation_type \<Rightarrow> permission" where
  "allocation_permission role type =
     (if role = CustomerParty then (if type = ReversalAllocation then VoidReceivables else SettleReceivables)
      else (if type = ReversalAllocation then VoidPayables else SettlePayables))"

text \<open>The amounts of an allocation against the item's balance, and of a reversal against its original.\<close>

definition expected_carrying :: "'d platform \<Rightarrow> nat \<Rightarrow> item_row \<Rightarrow> rat \<Rightarrow> rat \<Rightarrow> rat \<Rightarrow> rat" where
  "expected_carrying P m i amount left_transaction left_carrying =
     (if amount = left_transaction then left_carrying
      else half_up m (pf_quotient P (amount * it_functional i) (it_original i)))"

definition same_allocation :: "'d platform \<Rightarrow> allocation_row \<Rightarrow> allocation_row \<Rightarrow> bool" where
  "same_allocation P a b \<longleftrightarrow> at_amount a = at_amount b \<and> at_carrying a = at_carrying b
     \<and> at_settlement a = at_settlement b \<and> at_realized a = at_realized b \<and> at_currency a = at_currency b
     \<and> at_ledger a = at_ledger b \<and> at_rate a = at_rate b \<and> at_rate_source a = at_rate_source b
     \<and> pf_instant P (at_rate_effective a) = pf_instant P (at_rate_effective b)"

definition guard_allocation_amounts ::
  "'d platform \<Rightarrow> books \<Rightarrow> nat \<Rightarrow> item_row \<Rightarrow> allocation_row \<Rightarrow> subledger_error + unit" where
  "guard_allocation_amounts P B m i a =
     (let left_transaction = it_original i - sum_list (net_amounts B (it_id i) at_amount);
          left_carrying = it_functional i - sum_list (net_amounts B (it_id i) at_carrying) in
      if at_type a = ApplyAllocation then
        bindE (throw_if (left_transaction \<le> 0 \<or> left_carrying \<le> 0 \<or> at_amount a > left_transaction)
          TriggerRefused) (\<lambda>_.
        let expected = expected_carrying P m i (at_amount a) left_transaction left_carrying in
        throw_if (expected \<le> 0 \<or> at_carrying a \<noteq> expected) TriggerRefused)
      else
        (case List.find (\<lambda>b. Some (at_id b) = at_reverses a \<and> at_item b = at_item a
            \<and> at_type b = ApplyAllocation) (bk_allocations B) of
           None \<Rightarrow> Inl TriggerRefused
         | Some b \<Rightarrow> require (same_allocation P a b) TriggerRefused))"

definition guard_settlement_allocation_insert ::
  "'d platform \<Rightarrow> tenant_context \<Rightarrow> books \<Rightarrow> allocation_row \<Rightarrow> subledger_error + unit" where
  "guard_settlement_allocation_insert P c B a =
     bindE (require (at_created_by a = ctx_actor c) TriggerRefused) (\<lambda>_.
     bindE (option_to_result TriggerRefused (find_item B (at_item a))) (\<lambda>i.
     bindE (require (it_ledger i = at_ledger a \<and> it_currency i = at_currency a) TriggerRefused) (\<lambda>_.
     bindE (option_to_result TriggerRefused (find_party_account P (it_party i))) (\<lambda>account.
     bindE (option_to_result TriggerRefused
       (List.find (\<lambda>l. lg_id l = pa_ledger account) (st_ledgers (pf_setup P)))) (\<lambda>ledger.
     bindE (option_to_result TriggerRefused (map_of (pf_currencies P) (to_upper (lg_currency ledger)))) (\<lambda>m.
     bindE (option_to_result TriggerRefused (find_source B (at_payment a))) (\<lambda>payment.
     bindE (require (payment_facts (so_snapshot payment) = (it_party i, it_ledger i)) TriggerRefused) (\<lambda>_.
     bindE (require (permitted P c (allocation_permission (pa_role account) (at_type a))) TriggerRefused) (\<lambda>_.
     bindE (require (so_type payment = (if pa_role account = CustomerParty then ''receivables.customer-receipt''
           else ''payables.supplier-payment'')
         \<and> so_status payment = (if at_type a = ApplyAllocation then PostedSource else VoidedSource))
       TriggerRefused) (\<lambda>_.
     bindE (guard_allocation_amounts P B m i a) (\<lambda>_.
     let settled = half_up m (at_amount a * at_rate a) in
     bindE (require (at_settlement a = settled
         \<and> at_realized a = (if pa_role account = CustomerParty then settled - at_carrying a
             else at_carrying a - settled)) TriggerRefused) (\<lambda>_.
     require (demo_allowed P c) TriggerRefused))))))))))))"

text \<open>One row of the statement: its trigger sees the rows inserted before it.\<close>

definition insert_allocation ::
  "'d platform \<Rightarrow> tenant_context \<Rightarrow> books \<Rightarrow> allocation_row \<Rightarrow> subledger_error + books" where
  "insert_allocation P c B a =
     bindE (guard_settlement_allocation_insert P c B a) (\<lambda>_.
     bindE (require (0 < at_amount a \<and> 0 < at_carrying a \<and> 0 < at_settlement a \<and> 0 < at_rate a
         \<and> ((at_type a = ApplyAllocation) = (at_reverses a = None))) TriggerRefused) (\<lambda>_.
     bindE (throw_if (list_ex (\<lambda>b. at_id b = at_id a \<or> at_key b = at_key a
         \<or> (at_reverses a \<noteq> None \<and> at_reverses b = at_reverses a)) (bk_allocations B)) UniqueViolation) (\<lambda>_.
     Inr (B\<lparr>bk_allocations := bk_allocations B @ [a]\<rparr>))))"

definition allocation_of ::
  "settlement_snapshot \<Rightarrow> string \<Rightarrow> string \<Rightarrow> string \<Rightarrow> string \<Rightarrow> nat \<times> string \<times> calculated_allocation
     \<Rightarrow> subledger_error + allocation_row" where
  "allocation_of s source key hash actor = (\<lambda>(n, aid, a).
     bindE (numeric_input 9 (ca_transaction a)) (\<lambda>amount.
     bindE (numeric_input 9 (ca_carrying a)) (\<lambda>carrying.
     bindE (numeric_input 9 (ca_settlement a)) (\<lambda>settlement.
     bindE (numeric_input 9 (ca_realized a)) (\<lambda>realized.
     bindE (numeric_input 18 (fx_rate (ss_fx s))) (\<lambda>rate.
     Inr \<lparr>at_id = aid, at_ledger = ss_ledger s, at_payment = source, at_item = ca_item a,
       at_type = ApplyAllocation, at_reverses = None, at_currency = ss_currency s, at_amount = amount,
       at_carrying = carrying, at_settlement = settlement, at_realized = realized, at_rate = rate,
       at_rate_source = fx_source (ss_fx s), at_rate_effective = fx_effective_at (ss_fx s),
       at_key = key @ '':'' @ nat_text (int n), at_command_hash = hash, at_created_by = actor,
       at_effective_on = ss_settlement_date s\<rparr>))))))"

definition insert_settlement_allocations ::
  "'d platform \<Rightarrow> tenant_context \<Rightarrow> books \<Rightarrow> string list \<Rightarrow> string \<Rightarrow> settlement_snapshot
     \<Rightarrow> calculated_allocation list \<Rightarrow> string \<Rightarrow> string \<Rightarrow> subledger_error + books" where
  "insert_settlement_allocations P c B ids source s as key hash =
     bindE (mapE (allocation_of s source key hash (ctx_actor c)) (zip [1..<Suc (length as)] (zip ids as))) (\<lambda>rows.
     foldE (insert_allocation P c) B rows)"

text \<open>\<open>ORDER BY open_item_id, created_at, id\<close>: rows of one statement share \<open>created_at\<close>.\<close>

definition load_original_settlement_allocations ::
  "books \<Rightarrow> string \<Rightarrow> subledger_error + allocation_row list" where
  "load_original_settlement_allocations B source =
     (let rows = sort_key at_item (sort_key at_id
            (filter (\<lambda>a. at_payment a = source \<and> at_type a = ApplyAllocation) (bk_allocations B))) in
      bindE (throw_if (rows = []) NothingToReverse) (\<lambda>_. Inr rows))"

definition reversal_of ::
  "'d platform \<Rightarrow> tenant_context \<Rightarrow> string \<Rightarrow> string \<Rightarrow> string \<Rightarrow> string \<Rightarrow> string \<Rightarrow> nat \<times> string \<times> allocation_row
     \<Rightarrow> allocation_row" where
  "reversal_of P c ledger source effective_on key hash = (\<lambda>(n, aid, a).
     a\<lparr>at_id := aid, at_ledger := ledger, at_payment := source, at_type := ReversalAllocation,
       at_reverses := Some (at_id a), at_rate_effective := pf_time_text P (at_rate_effective a),
       at_key := key @ '':'' @ nat_text (int n), at_command_hash := hash, at_created_by := ctx_actor c,
       at_effective_on := effective_on\<rparr>)"

definition insert_exact_allocation_reversals ::
  "'d platform \<Rightarrow> tenant_context \<Rightarrow> books \<Rightarrow> string list \<Rightarrow> string \<Rightarrow> string \<Rightarrow> string \<Rightarrow> allocation_row list
     \<Rightarrow> string \<Rightarrow> string \<Rightarrow> subledger_error + books" where
  "insert_exact_allocation_reversals P c B ids ledger source effective_on originals key hash =
     foldE (insert_allocation P c) B (map (reversal_of P c ledger source effective_on key hash)
       (zip [1..<Suc (length originals)] (zip ids originals)))"

section \<open>Voiding an open item\<close>

text \<open>The join of an event of the source with its item, by position: the code takes the first.\<close>

definition source_items :: "books \<Rightarrow> string \<Rightarrow> item_row list" where
  "source_items B source =
     [i. e \<leftarrow> bk_events B, se_source e = source, i \<leftarrow> bk_items B, it_event i = se_id e]"

definition lock_document_open_item_for_void :: "books \<Rightarrow> string \<Rightarrow> subledger_error + string" where
  "lock_document_open_item_for_void B source =
     (case source_items B source of
        [] \<Rightarrow> Inl OpenItemMissing
      | i # _ \<Rightarrow>
          bindE (throw_if (find_void B (it_id i) \<noteq> None) ItemAlreadyVoided) (\<lambda>_.
          bindE (require (sum_list (net_amounts B (it_id i) at_amount) = 0) AllocationsNotReversed) (\<lambda>_.
          Inr (it_id i))))"

definition guard_open_item_void_event_insert ::
  "'d platform \<Rightarrow> tenant_context \<Rightarrow> books \<Rightarrow> void_row \<Rightarrow> subledger_error + unit" where
  "guard_open_item_void_event_insert P c B v =
     bindE (require (vd_created_by v = ctx_actor c) TriggerRefused) (\<lambda>_.
     bindE (option_to_result TriggerRefused (find_item B (vd_item v))) (\<lambda>i.
     bindE (option_to_result TriggerRefused (find_event B (it_event i))) (\<lambda>e.
     bindE (option_to_result TriggerRefused (find_source B (se_source e))) (\<lambda>original.
     bindE (option_to_result TriggerRefused (find_source B (vd_source v))) (\<lambda>voided.
     bindE (require (it_ledger i = vd_ledger v \<and> so_status voided = VoidedSource
         \<and> so_supersedes voided = Some (so_id original) \<and> so_type voided = so_type original
         \<and> so_number voided = so_number original) TriggerRefused) (\<lambda>_.
     bindE (option_to_result TriggerRefused (find_party_account P (se_party e))) (\<lambda>account.
     bindE (require (permitted P c (if pa_role account = CustomerParty then VoidReceivables else VoidPayables))
       TriggerRefused) (\<lambda>_.
     bindE (require (sum_list (net_amounts B (it_id i) at_amount) = 0) TriggerRefused) (\<lambda>_.
     require (demo_allowed P c) TriggerRefused)))))))))"

definition insert_open_item_void ::
  "'d platform \<Rightarrow> tenant_context \<Rightarrow> books \<Rightarrow> void_row \<Rightarrow> subledger_error + books" where
  "insert_open_item_void P c B v =
     bindE (guard_open_item_void_event_insert P c B v) (\<lambda>_.
     bindE (throw_if (list_ex (\<lambda>w. vd_id w = vd_id v \<or> vd_item w = vd_item v \<or> vd_key w = vd_key v) (bk_voids B))
       UniqueViolation) (\<lambda>_.
     Inr (B\<lparr>bk_voids := bk_voids B @ [v]\<rparr>)))"

section \<open>Replayed commands\<close>

datatype subledger_result =
    DraftSaved source_row bool
  | DocumentIssued source_row bool string int string string
  | SettlementRecorded source_row bool string int string "string list"
  | DocumentVoided source_row bool string int string
  | SettlementVoided source_row bool string int "string list"

definition assert_idempotent_source ::
  "source_row \<Rightarrow> transitional_fingerprints \<Rightarrow> source_status \<Rightarrow> subledger_error + unit" where
  "assert_idempotent_source r f status =
     require (matches_stored_command_fingerprint (Some (so_command_hash r)) f \<and> so_status r = status)
       KeyBoundToOtherCommand"

definition first_linked :: "'a list \<Rightarrow> ('a \<Rightarrow> int option) \<Rightarrow> subledger_error + 'a \<times> int" where
  "first_linked rows num =
     (case rows of
        [] \<Rightarrow> Inl ArtifactsMissing
      | r # _ \<Rightarrow> bindE (option_to_result ArtifactsMissing (num r)) (\<lambda>n. Inr (r, n)))"

definition posted_entries :: "books \<Rightarrow> (entry_row \<times> journal_row) list" where
  "posted_entries B = [(e, j). e \<leftarrow> bk_entries B, j \<leftarrow> bk_journals B, jr_id j = je_id e \<and> jr_status j = JPosted]"

definition issued_replay_result :: "'d platform \<Rightarrow> books \<Rightarrow> source_row \<Rightarrow> subledger_error + subledger_result" where
  "issued_replay_result P B r =
     bindE (first_linked [(j, e, i). (n, j) \<leftarrow> posted_entries B, je_source n = so_id r,
         e \<leftarrow> bk_events B, se_source e = so_id r, i \<leftarrow> bk_items B, it_event i = se_id e]
       (\<lambda>(j, e, i). jr_journal_number j)) (\<lambda>((j, e, i), num).
     bindE (record_from_row P r) (\<lambda>document.
     Inr (DocumentIssued document True (jr_id j) num (se_id e) (it_id i))))"

definition settlement_replay_result :: "'d platform \<Rightarrow> books \<Rightarrow> source_row \<Rightarrow> subledger_error + subledger_result" where
  "settlement_replay_result P B r =
     bindE (first_linked [(j, e). (n, j) \<leftarrow> posted_entries B, je_source n = so_id r,
         e \<leftarrow> bk_events B, se_source e = so_id r] (\<lambda>(j, e). jr_journal_number j)) (\<lambda>((j, e), num).
     bindE (record_from_row P r) (\<lambda>document.
     Inr (SettlementRecorded document True (jr_id j) num (se_id e)
       (sort (map at_id (filter (\<lambda>a. at_payment a = so_id r \<and> at_type a = ApplyAllocation) (bk_allocations B)))))))"

definition void_replay_result ::
  "'d platform \<Rightarrow> books \<Rightarrow> source_row \<Rightarrow> string \<Rightarrow> subledger_error + subledger_result" where
  "void_replay_result P B r key =
     bindE (first_linked [(j, v). (n, j) \<leftarrow> posted_entries B, je_key n = key,
         v \<leftarrow> bk_voids B, vd_source v = so_id r] (\<lambda>(j, v). jr_journal_number j)) (\<lambda>((j, v), num).
     bindE (record_from_row P r) (\<lambda>document.
     Inr (DocumentVoided document True (jr_id j) num (vd_id v))))"

definition void_settlement_replay_result ::
  "'d platform \<Rightarrow> books \<Rightarrow> source_row \<Rightarrow> string \<Rightarrow> subledger_error + subledger_result" where
  "void_settlement_replay_result P B r key =
     bindE (first_linked [j. (n, j) \<leftarrow> posted_entries B, je_key n = key] jr_journal_number) (\<lambda>(j, num).
     bindE (record_from_row P r) (\<lambda>document.
     Inr (SettlementVoided document True (jr_id j) num
       (sort (map at_id (filter (\<lambda>a. at_payment a = so_id r \<and> at_type a = ReversalAllocation) (bk_allocations B)))))))"

end
