(* ===== verification/SubledgerBooks.thy ===== *)
theory SubledgerBooks
  imports SubledgerStore
begin

text \<open>
  The subledger against the general ledger.  The commands of \<open>SubledgerCommands\<close>, run one
  after another from empty books, keep the balance of every party's control lines in the
  posted journals equal to what its open items say it owes or is owed.  The proof goes
  through an abstract description of what a command does to the books, \<open>books_move\<close>: each
  command is one such move, and every move keeps the invariant.
\<close>

section \<open>Balances\<close>

text \<open>What the lines of a journal book to a party: debits less credits, functional currency.\<close>

definition line_party_amount :: "string \<Rightarrow> stored_line \<Rightarrow> rat" where
  "line_party_amount p l = (if bl_party l = Some p then bl_debit_functional l - bl_credit_functional l else 0)"

definition party_total :: "string \<Rightarrow> stored_line list \<Rightarrow> rat" where
  "party_total p ls = sum_list (map (line_party_amount p) ls)"

definition control_balance :: "books \<Rightarrow> string \<Rightarrow> rat" where
  "control_balance B p =
     sum_list (map (\<lambda>e. party_total p (je_lines e)) (filter (\<lambda>e. posted_journal B e \<noteq> None) (bk_entries B)))"

text \<open>A sales invoice is owed to the organization, a supplier bill by it.\<close>

definition type_side :: "string \<Rightarrow> rat" where
  "type_side type = (if type = dp_source_type (document_kind_policy SalesInvoice) then 1 else - 1)"

definition item_source :: "books \<Rightarrow> item_row \<Rightarrow> source_row option" where
  "item_source B i = Option.bind (find_event B (it_event i)) (\<lambda>e. find_source B (se_source e))"

definition item_side :: "books \<Rightarrow> item_row \<Rightarrow> rat" where
  "item_side B i = (case item_source B i of None \<Rightarrow> 0 | Some s \<Rightarrow> type_side (so_type s))"

text \<open>The carrying amount of an item: none once it is voided.\<close>

definition item_carrying :: "books \<Rightarrow> item_row \<Rightarrow> rat" where
  "item_carrying B i =
     (if find_void B (it_id i) \<noteq> None then 0 else it_functional i - sum_list (net_amounts B (it_id i) at_carrying))"

definition subledger_balance :: "books \<Rightarrow> string \<Rightarrow> rat" where
  "subledger_balance B p =
     sum_list (map (\<lambda>i. item_side B i * item_carrying B i) (filter (\<lambda>i. it_party i = p) (bk_items B)))"

section \<open>Lists of rows\<close>

lemma find_rows_append: "List.find P (xs @ ys) = (case List.find P xs of None \<Rightarrow> List.find P ys | Some x \<Rightarrow> Some x)"
  by (induction xs) auto

lemma find_fresh:
  assumes "k x \<notin> k ` set xs"
  shows "List.find (\<lambda>y. k y = a) (xs @ [x]) = (if a = k x then Some x else List.find (\<lambda>y. k y = a) xs)"
proof (cases "List.find (\<lambda>y. k y = a) xs")
  case (Some z)
  then have z: "k z = a" "z \<in> set xs" by (auto simp: find_Some_iff)
  have "k z \<in> k ` set xs" using z(2) by blast
  then have "a \<noteq> k x" using assms z(1) by metis
  then show ?thesis using Some by (simp add: find_rows_append)
qed (simp add: find_rows_append)

lemma find_key:
  assumes "distinct (map k xs)" "x \<in> set xs"
  shows "List.find (\<lambda>y. k y = k x) xs = Some x"
  using assms by (induction xs) (auto simp: image_iff)

lemma find_keyD: "List.find (\<lambda>y. k y = a) xs = Some x \<Longrightarrow> x \<in> set xs \<and> k x = a"
  by (auto simp: find_Some_iff)

lemma sum_one_group:
  fixes c :: rat
  assumes "distinct ks" shows "sum_list (map (\<lambda>i. w i * (if j = i then c else 0)) ks) = (if j \<in> set ks then w j * c else 0)"
  using assms by (induction ks) auto

text \<open>A sum over rows by the group a row belongs to is the sum over the groups.\<close>

lemma sum_by_group:
  fixes f w :: "_ \<Rightarrow> rat"
  assumes "distinct ks" "k ` set as \<subseteq> set ks"
  shows "sum_list (map (\<lambda>a. f a * w (k a)) as)
    = sum_list (map (\<lambda>i. w i * sum_list (map f (filter (\<lambda>a. k a = i) as))) ks)"
  using assms(2)
proof (induction as)
  case (Cons a as)
  have one: "sum_list (map (\<lambda>i. w i * (if k a = i then f a else 0)) ks) = w (k a) * f a"
    using sum_one_group [OF assms(1)] Cons.prems by simp
  have "sum_list (map (\<lambda>i. w i * sum_list (map f (filter (\<lambda>a. k a = i) (a # as)))) ks)
    = sum_list (map (\<lambda>i. w i * (if k a = i then f a else 0) + w i * sum_list (map f (filter (\<lambda>a. k a = i) as))) ks)"
    by (rule arg_cong [where f = sum_list], rule map_cong) (auto simp: algebra_simps)
  also have "\<dots> = w (k a) * f a + sum_list (map (\<lambda>i. w i * sum_list (map f (filter (\<lambda>a. k a = i) as))) ks)"
    by (simp add: sum_list_addf one)
  finally show ?case using Cons by (simp add: mult.commute)
qed simp

lemma sum_filter_without:
  fixes f :: "'a \<Rightarrow> rat"
  assumes "distinct xs" "b \<in> set xs" "P b"
  shows "sum_list (map f (filter (\<lambda>x. P x \<and> x \<noteq> b) xs)) = sum_list (map f (filter P xs)) - f b"
  using assms
proof (induction xs)
  case (Cons x xs)
  show ?case
  proof (cases "x = b")
    case True
    then have "filter (\<lambda>x. P x \<and> x \<noteq> b) xs = filter P xs"
      using Cons.prems(1) by (intro filter_cong) auto
    then show ?thesis using True Cons.prems by simp
  next
    case False
    then show ?thesis using Cons by auto
  qed
qed simp

section \<open>Allocations\<close>

text \<open>
  A list of allocations as the inserts let it grow: an application is new, a reversal
  names an application that has none and repeats its item and amounts.
\<close>

inductive allocation_ledger :: "allocation_row list \<Rightarrow> bool" where
  empty: "allocation_ledger []"
| applied: "allocation_ledger as \<Longrightarrow> at_id a \<notin> at_id ` set as \<Longrightarrow> at_type a = ApplyAllocation \<Longrightarrow> at_reverses a = None
    \<Longrightarrow> 0 < at_amount a \<Longrightarrow> 0 < at_carrying a \<Longrightarrow> allocation_ledger (as @ [a])"
| reversed: "allocation_ledger as \<Longrightarrow> at_id a \<notin> at_id ` set as \<Longrightarrow> at_type a = ReversalAllocation
    \<Longrightarrow> b \<in> set as \<Longrightarrow> at_type b = ApplyAllocation \<Longrightarrow> at_reverses a = Some (at_id b)
    \<Longrightarrow> at_item a = at_item b \<Longrightarrow> at_amount a = at_amount b \<Longrightarrow> at_carrying a = at_carrying b
    \<Longrightarrow> \<forall>c \<in> set as. at_reverses c \<noteq> Some (at_id b) \<Longrightarrow> allocation_ledger (as @ [a])"

definition active_in :: "allocation_row list \<Rightarrow> allocation_row \<Rightarrow> bool" where
  "active_in as a \<longleftrightarrow> at_type a = ApplyAllocation \<and> (\<forall>c \<in> set as. at_reverses c \<noteq> Some (at_id a))"

definition item_net :: "allocation_row list \<Rightarrow> (allocation_row \<Rightarrow> rat) \<Rightarrow> string \<Rightarrow> rat" where
  "item_net as f i = sum_list (map (signed_by_type f) (filter (\<lambda>a. at_item a = i) as))"

lemma net_amounts_item_net: "sum_list (net_amounts B i f) = item_net (bk_allocations B) f i"
  by (simp add: net_amounts_def item_allocations_def item_net_def)

lemma ledger_ids: "allocation_ledger as \<Longrightarrow> distinct (map at_id as)"
  by (induction rule: allocation_ledger.induct) auto

lemma ledger_reverses:
  "allocation_ledger as \<Longrightarrow> c \<in> set as \<Longrightarrow> at_reverses c = Some x \<Longrightarrow> x \<in> at_id ` set as"
  by (induction rule: allocation_ledger.induct) auto

lemma ledger_amounts: "allocation_ledger as \<Longrightarrow> \<forall>x \<in> set as. 0 < at_amount x \<and> 0 < at_carrying x"
  by (induction rule: allocation_ledger.induct) auto

lemma ledger_positive: "allocation_ledger as \<Longrightarrow> a \<in> set as \<Longrightarrow> 0 < at_amount a \<and> 0 < at_carrying a"
  using ledger_amounts by blast

text \<open>The allocations of an item net out to those that were not reversed.\<close>

lemma ledger_net:
  assumes "allocation_ledger as" "f = at_amount \<or> f = at_carrying"
  shows "item_net as f i = sum_list (map f (filter (\<lambda>a. at_item a = i \<and> active_in as a) as))"
  using assms(1)
proof (induction rule: allocation_ledger.induct)
  case empty
  then show ?case by (simp add: item_net_def)
next
  case (applied as a)
  have "active_in (as @ [a]) a"
    using applied ledger_reverses [OF applied(1)] by (auto simp: active_in_def)
  moreover have "filter (\<lambda>x. at_item x = i \<and> active_in (as @ [a]) x) as = filter (\<lambda>x. at_item x = i \<and> active_in as x) as"
    using applied(4) by (intro filter_cong) (auto simp: active_in_def)
  ultimately show ?case
    using applied.IH applied(3) by (simp add: item_net_def signed_by_type_def)
next
  case (reversed as a b)
  have d: "distinct as" using ledger_ids [OF reversed(1)] by (simp add: distinct_map)
  have same: "x = b" if "x \<in> set as" "at_id x = at_id b" for x
    using ledger_ids [OF reversed(1)] reversed(4) that unfolding distinct_map inj_on_def by blast
  have act: "active_in (as @ [a]) x \<longleftrightarrow> active_in as x \<and> x \<noteq> b" if "x \<in> set as" for x
    using that same reversed(4,6) by (auto simp: active_in_def)
  have b: "active_in as b" using reversed(5,10) by (auto simp: active_in_def)
  have na: "\<not> active_in (as @ [a]) a" using reversed(3) by (simp add: active_in_def)
  have fa: "f a = f b" using assms(2) reversed(8,9) by auto
  have "sum_list (map f (filter (\<lambda>x. at_item x = i \<and> active_in (as @ [a]) x) (as @ [a])))
    = sum_list (map f (filter (\<lambda>x. (at_item x = i \<and> active_in as x) \<and> x \<noteq> b) as))"
    using na act by (auto intro!: arg_cong [where f = "\<lambda>xs. sum_list (map f xs)"] filter_cong)
  also have "\<dots> = sum_list (map f (filter (\<lambda>x. at_item x = i \<and> active_in as x) as)) - (if at_item b = i then f b else 0)"
  proof (cases "at_item b = i")
    case True
    then show ?thesis using sum_filter_without [OF d reversed(4), of "\<lambda>x. at_item x = i \<and> active_in as x"] b by simp
  next
    case False
    then have "filter (\<lambda>x. (at_item x = i \<and> active_in as x) \<and> x \<noteq> b) as = filter (\<lambda>x. at_item x = i \<and> active_in as x) as"
      by (intro filter_cong) auto
    then show ?thesis using False by simp
  qed
  also have "\<dots> = item_net (as @ [a]) f i"
    using reversed.IH reversed(3,7) fa by (simp add: item_net_def signed_by_type_def)
  finally show ?case by simp
qed

lemma ledger_net_nonneg:
  assumes "allocation_ledger as" "f = at_amount \<or> f = at_carrying" shows "0 \<le> item_net as f i"
  unfolding ledger_net [OF assms]
  using ledger_positive [OF assms(1)] assms(2) by (intro sum_list_nonneg) (auto intro: less_imp_le)

lemma ledger_net_inactive:
  assumes "allocation_ledger as" "f = at_amount \<or> f = at_carrying"
    and "\<forall>a \<in> set as. at_item a = i \<longrightarrow> \<not> active_in as a"
  shows "item_net as f i = 0"
proof -
  have "filter (\<lambda>a. at_item a = i \<and> active_in as a) as = []" using assms(3) by (auto simp: filter_empty_conv)
  then show ?thesis by (simp add: ledger_net [OF assms(1,2)])
qed

text \<open>Amounts are positive, so an item of which nothing is allocated has no application left.\<close>

lemma ledger_net_zero:
  assumes "allocation_ledger as" "item_net as at_amount i = 0" "a \<in> set as" "at_item a = i"
  shows "\<not> active_in as a"
proof
  assume "active_in as a"
  then have "at_amount a \<in> set (map at_amount (filter (\<lambda>a. at_item a = i \<and> active_in as a) as))"
    using assms(3,4) by auto
  moreover have "\<forall>x \<in> set (map at_amount (filter (\<lambda>a. at_item a = i \<and> active_in as a) as)). 0 \<le> x"
    using ledger_positive [OF assms(1)] by (auto intro: less_imp_le)
  ultimately have "at_amount a \<le> 0"
    using member_le_sum_list assms(2) ledger_net [OF assms(1), of at_amount i] by metis
  then show False using ledger_positive [OF assms(1,3)] by simp
qed

section \<open>The invariant\<close>

text \<open>
  A document is priced when its functional gross amount is its gross amount at its rate,
  rounded to the functional currency.
\<close>

definition priced :: "(rat \<Rightarrow> rat) \<Rightarrow> document_snapshot \<Rightarrow> bool" where
  "priced rnd s \<longleftrightarrow> (\<exists>n m g r. minor_units (ds_currency s) = Inr n \<and> minor_units (ds_functional s) = Inr m
     \<and> text_amount (ds_gross s) g \<and> scaled n g \<and> text_amount (fx_rate (ds_fx s)) r
     \<and> text_amount (ds_gross_functional s) (half_up m (rnd (g * r))))"

definition draft_priced :: "(rat \<Rightarrow> rat) \<Rightarrow> source_row \<Rightarrow> bool" where
  "draft_priced rnd r \<longleftrightarrow> (\<exists>s. so_snapshot r = DocumentSnapshot s \<and> priced rnd s)"

definition superseded :: "books \<Rightarrow> string \<Rightarrow> bool" where
  "superseded B sid \<longleftrightarrow> (\<exists>x \<in> set (bk_sources B). so_supersedes x = Some sid)"

definition follows :: "source_row \<Rightarrow> source_row \<Rightarrow> bool" where
  "follows r x \<longleftrightarrow> so_supersedes r = Some (so_id x) \<and> so_type x = so_type r \<and> so_number x = so_number r
     \<and> so_version r = so_version x + 1"

text \<open>Identifiers are unique and what a row refers to exists.\<close>

definition rows_ok :: "books \<Rightarrow> bool" where
  "rows_ok B \<longleftrightarrow> distinct (map so_id (bk_sources B)) \<and> distinct (map se_id (bk_events B))
     \<and> distinct (map it_id (bk_items B))
     \<and> (\<forall>r \<in> set (bk_sources B). so_supersedes r = None \<or> (\<exists>x \<in> set (bk_sources B). follows r x))
     \<and> (\<forall>e \<in> set (bk_events B). se_source e \<in> so_id ` set (bk_sources B))
     \<and> (\<forall>i \<in> set (bk_items B). it_event i \<in> se_id ` set (bk_events B))
     \<and> (\<forall>a \<in> set (bk_allocations B). at_item a \<in> it_id ` set (bk_items B)
          \<and> at_payment a \<in> so_id ` set (bk_sources B))
     \<and> (\<forall>e \<in> set (bk_entries B). je_source e \<in> so_id ` set (bk_sources B))
     \<and> (\<forall>v \<in> set (bk_voids B). vd_item v \<in> it_id ` set (bk_items B))"

lemma rows_okD:
  assumes "rows_ok B"
  shows "a \<in> set (bk_allocations B) \<Longrightarrow> at_item a \<in> it_id ` set (bk_items B)"
    "a \<in> set (bk_allocations B) \<Longrightarrow> at_payment a \<in> so_id ` set (bk_sources B)"
    "e \<in> set (bk_entries B) \<Longrightarrow> je_source e \<in> so_id ` set (bk_sources B)"
    "v \<in> set (bk_voids B) \<Longrightarrow> vd_item v \<in> it_id ` set (bk_items B)"
  using assms by (auto simp: rows_ok_def)

definition drafts_ok :: "(rat \<Rightarrow> rat) \<Rightarrow> books \<Rightarrow> bool" where
  "drafts_ok rnd B \<longleftrightarrow> (\<forall>r \<in> set (bk_sources B). so_status r = DraftSource \<longrightarrow> draft_priced rnd r)"

text \<open>
  Items are allocated up to their amount, and when all of it is allocated all of the carrying
  amount is.  A reversed application belongs to a superseded payment, and a voided item has no
  application left.
\<close>

definition item_within :: "allocation_row list \<Rightarrow> item_row \<Rightarrow> bool" where
  "item_within as i \<longleftrightarrow> item_net as at_amount (it_id i) \<le> it_original i
     \<and> (item_net as at_amount (it_id i) = it_original i \<longrightarrow> item_net as at_carrying (it_id i) = it_functional i)"

definition allocations_ok :: "books \<Rightarrow> bool" where
  "allocations_ok B \<longleftrightarrow> allocation_ledger (bk_allocations B)
     \<and> (\<forall>i \<in> set (bk_items B). item_within (bk_allocations B) i)
     \<and> (\<forall>a \<in> set (bk_allocations B). \<forall>b \<in> set (bk_allocations B).
          at_reverses b = Some (at_id a) \<longrightarrow> superseded B (at_payment a))
     \<and> (\<forall>v \<in> set (bk_voids B). \<forall>a \<in> set (bk_allocations B). at_item a = vd_item v
          \<longrightarrow> \<not> active_in (bk_allocations B) a)"

lemma allocations_reversed:
  "allocations_ok B \<Longrightarrow> a \<in> set (bk_allocations B) \<Longrightarrow> b \<in> set (bk_allocations B)
    \<Longrightarrow> at_reverses b = Some (at_id a) \<Longrightarrow> superseded B (at_payment a)"
  by (auto simp: allocations_ok_def)

text \<open>What an amount of an item counts for a party.\<close>

definition item_weight :: "books \<Rightarrow> string \<Rightarrow> string \<Rightarrow> rat" where
  "item_weight B p iid =
     (case find_item B iid of None \<Rightarrow> 0 | Some i \<Rightarrow> if it_party i = p then item_side B i else 0)"

definition document_journal_type :: "string \<Rightarrow> bool" where
  "document_journal_type t \<longleftrightarrow> (\<exists>k. t = dp_journal_type (document_kind_policy k))"

definition settlement_journal_type :: "string \<Rightarrow> bool" where
  "settlement_journal_type t \<longleftrightarrow> (\<exists>k. t = sp_journal_type (settlement_kind_policy k))"

definition payment_rows :: "books \<Rightarrow> string \<Rightarrow> allocation_row list" where
  "payment_rows B sid = filter (\<lambda>a. at_payment a = sid \<and> at_type a = ApplyAllocation) (bk_allocations B)"

definition weighed :: "books \<Rightarrow> string \<Rightarrow> allocation_row list \<Rightarrow> rat" where
  "weighed B p as = sum_list (map (\<lambda>a. at_carrying a * item_weight B p (at_item a)) as)"

definition scaled_line :: "stored_line \<Rightarrow> bool" where
  "scaled_line l \<longleftrightarrow> scaled 9 (bl_debit_functional l) \<and> scaled 9 (bl_credit_functional l)"

text \<open>
  Every journal is posted.  An issue journal books the item it opened; the journal of a
  payment in force books what the payment took off the items.
\<close>

definition journals_ok :: "books \<Rightarrow> bool" where
  "journals_ok B \<longleftrightarrow> (\<forall>e \<in> set (bk_entries B). posted_journal B e \<noteq> None \<and> list_all scaled_line (je_lines e)
     \<and> (document_journal_type (je_type e) \<longrightarrow> (\<forall>i \<in> set (bk_items B). \<forall>s. item_source B i = Some s
          \<longrightarrow> so_id s = je_source e \<longrightarrow> (\<forall>p. party_total p (je_lines e)
              = item_weight B p (it_id i) * it_functional i)))
     \<and> (settlement_journal_type (je_type e) \<longrightarrow> \<not> superseded B (je_source e) \<longrightarrow>
          (\<forall>p. party_total p (je_lines e) = - weighed B p (payment_rows B (je_source e)))))"

lemma journals_okD:
  assumes "journals_ok B" "e \<in> set (bk_entries B)"
  shows "posted_journal B e \<noteq> None" "list_all scaled_line (je_lines e)"
    "document_journal_type (je_type e) \<Longrightarrow> i \<in> set (bk_items B) \<Longrightarrow> item_source B i = Some s \<Longrightarrow> so_id s = je_source e
      \<Longrightarrow> party_total p (je_lines e) = item_weight B p (it_id i) * it_functional i"
    "settlement_journal_type (je_type e) \<Longrightarrow> \<not> superseded B (je_source e)
      \<Longrightarrow> party_total p (je_lines e) = - weighed B p (payment_rows B (je_source e))"
  using assms by (simp_all add: journals_ok_def)

definition item_base :: "books \<Rightarrow> item_row \<Rightarrow> rat" where
  "item_base B i = (if find_void B (it_id i) \<noteq> None then 0 else it_functional i)"

definition items_total :: "books \<Rightarrow> string \<Rightarrow> rat" where
  "items_total B p = sum_list (map (\<lambda>i. item_weight B p (it_id i) * item_base B i) (bk_items B))"

definition allocations_total :: "books \<Rightarrow> string \<Rightarrow> rat" where
  "allocations_total B p =
     sum_list (map (\<lambda>a. signed_by_type at_carrying a * item_weight B p (at_item a)) (bk_allocations B))"

definition entries_total :: "books \<Rightarrow> string \<Rightarrow> rat" where
  "entries_total B p = sum_list (map (\<lambda>e. party_total p (je_lines e)) (bk_entries B))"

definition balance_ok :: "books \<Rightarrow> bool" where
  "balance_ok B \<longleftrightarrow> (\<forall>p. entries_total B p = items_total B p - allocations_total B p)"

definition books_ok :: "(rat \<Rightarrow> rat) \<Rightarrow> books \<Rightarrow> bool" where
  "books_ok rnd B \<longleftrightarrow> rows_ok B \<and> drafts_ok rnd B \<and> allocations_ok B \<and> journals_ok B \<and> balance_ok B"

text \<open>The invariant gives the agreement of the balances.\<close>

lemma item_weight_row:
  assumes "rows_ok B" "i \<in> set (bk_items B)"
  shows "item_weight B p (it_id i) = (if it_party i = p then item_side B i else 0)"
  using find_key [of it_id "bk_items B" i] assms by (simp add: item_weight_def find_item_def rows_ok_def)

lemma voided_net_zero:
  assumes "allocations_ok B" "find_void B iid = Some v" "f = at_amount \<or> f = at_carrying"
  shows "item_net (bk_allocations B) f iid = 0"
proof (rule ledger_net_inactive [OF _ assms(3)])
  show "allocation_ledger (bk_allocations B)" using assms(1) by (simp add: allocations_ok_def)
  have "v \<in> set (bk_voids B)" "vd_item v = iid"
    using assms(2) unfolding find_void_def by (auto dest: find_keyD)
  then show "\<forall>a \<in> set (bk_allocations B). at_item a = iid \<longrightarrow> \<not> active_in (bk_allocations B) a"
    using assms(1) by (auto simp: allocations_ok_def)
qed

lemma balances_agree:
  assumes "books_ok rnd B" shows "control_balance B p = subledger_balance B p"
proof -
  have rows: "rows_ok B" and allocs: "allocations_ok B" and js: "journals_ok B" and bal: "balance_ok B"
    using assms by (auto simp: books_ok_def)
  have posted: "filter (\<lambda>e. posted_journal B e \<noteq> None) (bk_entries B) = bk_entries B"
    using js by (auto simp: journals_ok_def)
  have group: "allocations_total B p
    = sum_list (map (\<lambda>i. item_weight B p (it_id i) * item_net (bk_allocations B) at_carrying (it_id i)) (bk_items B))"
  proof -
    have "distinct (map it_id (bk_items B))" "at_item ` set (bk_allocations B) \<subseteq> set (map it_id (bk_items B))"
      using rows by (auto simp: rows_ok_def)
    from sum_by_group [OF this, of "signed_by_type at_carrying" "item_weight B p"]
    show ?thesis by (simp add: allocations_total_def item_net_def o_def)
  qed
  have "control_balance B p = items_total B p - allocations_total B p"
    using bal posted by (simp add: balance_ok_def control_balance_def entries_total_def)
  also have "\<dots> = sum_list (map (\<lambda>i. item_weight B p (it_id i) * item_base B i
      - item_weight B p (it_id i) * item_net (bk_allocations B) at_carrying (it_id i)) (bk_items B))"
    by (simp add: group items_total_def sum_list_subtractf)
  also have "\<dots> = sum_list (map (\<lambda>i. if it_party i = p then item_side B i * item_carrying B i else 0) (bk_items B))"
  proof (rule arg_cong [where f = sum_list], rule map_cong, rule HOL.refl)
    fix i assume "i \<in> set (bk_items B)"
    then show "item_weight B p (it_id i) * item_base B i
        - item_weight B p (it_id i) * item_net (bk_allocations B) at_carrying (it_id i)
      = (if it_party i = p then item_side B i * item_carrying B i else 0)"
      using voided_net_zero [OF allocs, of "it_id i"] item_weight_row [OF rows]
      by (auto simp: item_base_def item_carrying_def net_amounts_item_net algebra_simps)
  qed
  also have "\<dots> = subledger_balance B p"
    by (simp add: subledger_balance_def sum_list_map_filter')
  finally show ?thesis .
qed

section \<open>Moves\<close>

definition source_admitted :: "books \<Rightarrow> source_row \<Rightarrow> bool" where
  "source_admitted B r \<longleftrightarrow> so_id r \<notin> so_id ` set (bk_sources B)
     \<and> (so_supersedes r = None \<or> (\<exists>x \<in> set (bk_sources B). follows r x))"

definition entry_posted :: "books \<Rightarrow> entry_row \<Rightarrow> journal_row list \<Rightarrow> bool" where
  "entry_posted B n js \<longleftrightarrow> (\<exists>j. js = bk_journals B @ [j] \<and> jr_id j = je_id n \<and> jr_status j = JPosted)
     \<and> list_all scaled_line (je_lines n)"

text \<open>
  What a command does to the books, as far as the balances are concerned: nothing, save a
  draft, issue a document, record a settlement, void a document, void a settlement.
\<close>

inductive books_move :: "(rat \<Rightarrow> rat) \<Rightarrow> books \<Rightarrow> books \<Rightarrow> bool" for rnd where
  stay: "books_move rnd B B"
| drafted: "source_admitted B r \<Longrightarrow> draft_priced rnd r
    \<Longrightarrow> books_move rnd B (B\<lparr>bk_sources := bk_sources B @ [r]\<rparr>)"
| issued: "source_admitted B r \<Longrightarrow> so_status r \<noteq> DraftSource
    \<Longrightarrow> se_id e \<notin> se_id ` set (bk_events B) \<Longrightarrow> se_source e = so_id r
    \<Longrightarrow> it_id i \<notin> it_id ` set (bk_items B) \<Longrightarrow> it_event i = se_id e \<Longrightarrow> 0 < it_original i
    \<Longrightarrow> entry_posted B n js \<Longrightarrow> je_source n = so_id r \<Longrightarrow> document_journal_type (je_type n)
    \<Longrightarrow> (\<And>p. party_total p (je_lines n) = (if it_party i = p then type_side (so_type r) * it_functional i else 0))
    \<Longrightarrow> books_move rnd B (B\<lparr>bk_sources := bk_sources B @ [r], bk_taxes := tx, bk_events := bk_events B @ [e],
          bk_items := bk_items B @ [i], bk_journals := js, bk_entries := bk_entries B @ [n]\<rparr>)"
| settled: "source_admitted B r \<Longrightarrow> so_status r \<noteq> DraftSource
    \<Longrightarrow> se_id e \<notin> se_id ` set (bk_events B) \<Longrightarrow> se_source e = so_id r
    \<Longrightarrow> allocation_ledger (bk_allocations B @ as)
    \<Longrightarrow> \<forall>i \<in> set (bk_items B). item_within (bk_allocations B @ as) i
    \<Longrightarrow> \<forall>a \<in> set as. at_type a = ApplyAllocation \<and> at_payment a = so_id r \<and> at_reverses a = None
          \<and> at_item a \<in> it_id ` set (bk_items B) \<and> find_void B (at_item a) = None
    \<Longrightarrow> entry_posted B n js \<Longrightarrow> je_source n = so_id r \<Longrightarrow> \<not> document_journal_type (je_type n)
    \<Longrightarrow> (\<And>p. party_total p (je_lines n) = - weighed B p as)
    \<Longrightarrow> books_move rnd B (B\<lparr>bk_sources := bk_sources B @ [r], bk_events := bk_events B @ [e],
          bk_allocations := bk_allocations B @ as, bk_journals := js, bk_entries := bk_entries B @ [n]\<rparr>)"
| voided: "source_admitted B r \<Longrightarrow> so_status r \<noteq> DraftSource
    \<Longrightarrow> i \<in> set (bk_items B) \<Longrightarrow> find_void B (it_id i) = None
    \<Longrightarrow> item_net (bk_allocations B) at_amount (it_id i) = 0 \<Longrightarrow> vd_item v = it_id i
    \<Longrightarrow> o' \<in> set (bk_entries B) \<Longrightarrow> document_journal_type (je_type o')
    \<Longrightarrow> item_source B i = Some s \<Longrightarrow> so_id s = je_source o'
    \<Longrightarrow> entry_posted B n js \<Longrightarrow> je_source n = je_source o'
    \<Longrightarrow> \<not> document_journal_type (je_type n) \<Longrightarrow> \<not> settlement_journal_type (je_type n)
    \<Longrightarrow> (\<And>p. party_total p (je_lines n) = - party_total p (je_lines o'))
    \<Longrightarrow> books_move rnd B (B\<lparr>bk_sources := bk_sources B @ [r], bk_journals := js, bk_entries := bk_entries B @ [n],
          bk_relations := rel, bk_voids := bk_voids B @ [v]\<rparr>)"
| settlement_voided: "source_admitted B r \<Longrightarrow> so_status r \<noteq> DraftSource
    \<Longrightarrow> so_supersedes r = Some (je_source o') \<Longrightarrow> \<not> superseded B (je_source o')
    \<Longrightarrow> allocation_ledger (bk_allocations B @ as)
    \<Longrightarrow> \<forall>i \<in> set (bk_items B). item_within (bk_allocations B @ as) i
    \<Longrightarrow> \<forall>a \<in> set as. at_type a = ReversalAllocation \<and> at_payment a = so_id r
          \<and> (\<exists>b \<in> set (bk_allocations B). at_payment b = je_source o' \<and> at_reverses a = Some (at_id b)
               \<and> at_item a = at_item b)
    \<Longrightarrow> mset (map (\<lambda>a. (at_item a, at_carrying a)) as)
         = mset (map (\<lambda>a. (at_item a, at_carrying a)) (payment_rows B (je_source o')))
    \<Longrightarrow> o' \<in> set (bk_entries B) \<Longrightarrow> settlement_journal_type (je_type o')
    \<Longrightarrow> entry_posted B n js \<Longrightarrow> je_source n = je_source o' \<Longrightarrow> \<not> document_journal_type (je_type n)
    \<Longrightarrow> (\<And>p. party_total p (je_lines n) = - party_total p (je_lines o'))
    \<Longrightarrow> books_move rnd B (B\<lparr>bk_sources := bk_sources B @ [r], bk_allocations := bk_allocations B @ as,
          bk_journals := js, bk_entries := bk_entries B @ [n], bk_relations := rel\<rparr>)"

text \<open>Books that grow: lookups of rows that were there stay.\<close>

definition grows :: "books \<Rightarrow> books \<Rightarrow> bool" where
  "grows B B' \<longleftrightarrow> (\<exists>ss es is. bk_sources B' = bk_sources B @ ss \<and> bk_events B' = bk_events B @ es
     \<and> bk_items B' = bk_items B @ is)"

lemma item_source_grows:
  assumes "rows_ok B" "grows B B'" "i \<in> set (bk_items B)"
  shows "item_source B' i = item_source B i" "item_source B i \<noteq> None"
proof -
  obtain e where e: "e \<in> set (bk_events B)" "se_id e = it_event i"
    using assms(1,3) unfolding rows_ok_def by (metis image_iff)
  have f: "find_event B (it_event i) = Some e"
    using find_key [of se_id "bk_events B" e] assms(1) e by (simp add: rows_ok_def find_event_def)
  obtain s where s: "s \<in> set (bk_sources B)" "so_id s = se_source e"
    using assms(1) e(1) unfolding rows_ok_def by (metis image_iff)
  have g: "find_source B (se_source e) = Some s"
    using find_key [of so_id "bk_sources B" s] assms(1) s by (simp add: rows_ok_def find_source_def)
  show "item_source B' i = item_source B i" "item_source B i \<noteq> None"
    using assms(2) f g by (auto simp: item_source_def find_event_def find_source_def grows_def find_rows_append)
qed

lemma weight_grows:
  assumes "rows_ok B" "grows B B'" "iid \<in> it_id ` set (bk_items B)"
  shows "item_weight B' p iid = item_weight B p iid"
proof -
  obtain i where i: "i \<in> set (bk_items B)" "it_id i = iid" using assms(3) by auto
  then have "find_item B iid = Some i"
    using find_key [of it_id "bk_items B" i] assms(1) by (simp add: rows_ok_def find_item_def)
  moreover from this have "find_item B' iid = Some i"
    using assms(2) by (auto simp: find_item_def grows_def find_rows_append)
  ultimately show ?thesis
    using item_source_grows [OF assms(1,2) i(1)] by (simp add: item_weight_def item_side_def)
qed

lemma weighed_grows:
  assumes "rows_ok B" "grows B B'" "\<forall>a \<in> set as. at_item a \<in> it_id ` set (bk_items B)"
  shows "weighed B' p as = weighed B p as"
  unfolding weighed_def using weight_grows [OF assms(1,2)] assms(3)
  by (intro arg_cong [where f = sum_list] map_cong) auto

lemma weighed_mset:
  assumes "mset (map (\<lambda>a. (at_item a, at_carrying a)) as) = mset (map (\<lambda>a. (at_item a, at_carrying a)) bs)"
  shows "weighed B p as = weighed B p bs"
proof -
  let ?g = "\<lambda>(i, c). c * item_weight B p i"
  have w: "weighed B p xs = sum_mset (image_mset ?g (mset (map (\<lambda>a. (at_item a, at_carrying a)) xs)))" for xs
    by (induction xs) (auto simp: weighed_def)
  show ?thesis unfolding w assms ..
qed

lemma rows_ok_grow:
  assumes "rows_ok B" "source_admitted B r"
    and "bk_sources B' = bk_sources B @ [r]" "bk_events B' = bk_events B @ es" "bk_items B' = bk_items B @ is"
    and "bk_allocations B' = bk_allocations B @ as" "bk_entries B' = bk_entries B @ ns"
    and "bk_voids B' = bk_voids B @ vs"
    and "distinct (map se_id es)" "se_id ` set es \<inter> se_id ` set (bk_events B) = {}" "\<forall>e \<in> set es. se_source e = so_id r"
    and "distinct (map it_id is)" "it_id ` set is \<inter> it_id ` set (bk_items B) = {}"
    and "\<forall>i \<in> set is. it_event i \<in> se_id ` set es"
    and "\<forall>a \<in> set as. at_item a \<in> it_id ` set (bk_items B) \<and> at_payment a = so_id r"
    and "\<forall>n \<in> set ns. je_source n \<in> so_id ` set (bk_sources B) \<union> {so_id r}"
    and "\<forall>v \<in> set vs. vd_item v \<in> it_id ` set (bk_items B)"
  shows "rows_ok B'"
  unfolding rows_ok_def
proof (intro conjI)
  note B = assms(1) [unfolded rows_ok_def]
  show "distinct (map so_id (bk_sources B'))" using B assms(2,3) by (auto simp: source_admitted_def)
  show "distinct (map se_id (bk_events B'))" using B assms(4,9,10) by auto
  show "distinct (map it_id (bk_items B'))" using B assms(5,12,13) by auto
  show "\<forall>r \<in> set (bk_sources B'). so_supersedes r = None \<or> (\<exists>x \<in> set (bk_sources B'). follows r x)"
    using B assms(2,3) by (auto simp: source_admitted_def)
  show "\<forall>e \<in> set (bk_events B'). se_source e \<in> so_id ` set (bk_sources B')"
    using B assms(3,4,11) by auto
  show "\<forall>i \<in> set (bk_items B'). it_event i \<in> se_id ` set (bk_events B')"
    using B assms(4,5,14) by auto
  show "\<forall>a \<in> set (bk_allocations B'). at_item a \<in> it_id ` set (bk_items B') \<and> at_payment a \<in> so_id ` set (bk_sources B')"
    using B assms(3,5,6,15) by auto
  show "\<forall>e \<in> set (bk_entries B'). je_source e \<in> so_id ` set (bk_sources B')"
    using B assms(3,7,16) by auto
  show "\<forall>v \<in> set (bk_voids B'). vd_item v \<in> it_id ` set (bk_items B')"
    using B assms(5,8,17) by auto
qed

text \<open>The totals after appending rows.\<close>

lemma totals_grow:
  assumes ok: "rows_ok B" "balance_ok B" and g: "grows B B'"
    and B': "bk_items B' = bk_items B @ is" "bk_allocations B' = bk_allocations B @ as" "bk_entries B' = bk_entries B @ ns"
    and change: "\<And>p. sum_list (map (\<lambda>n. party_total p (je_lines n)) ns)
        = sum_list (map (\<lambda>i. item_weight B p (it_id i) * (item_base B' i - item_base B i)) (bk_items B))
          + sum_list (map (\<lambda>i. item_weight B' p (it_id i) * item_base B' i) is)
          - sum_list (map (\<lambda>a. signed_by_type at_carrying a * item_weight B' p (at_item a)) as)"
  shows "balance_ok B'"
  unfolding balance_ok_def
proof
  fix p
  let ?w = "item_weight B p" and ?w' = "item_weight B' p"
  have items: "items_total B' p = items_total B p
      + sum_list (map (\<lambda>i. ?w (it_id i) * (item_base B' i - item_base B i)) (bk_items B))
      + sum_list (map (\<lambda>i. ?w' (it_id i) * item_base B' i) is)"
  proof -
    have "sum_list (map (\<lambda>i. ?w' (it_id i) * item_base B' i) (bk_items B))
      = sum_list (map (\<lambda>i. ?w (it_id i) * item_base B i + ?w (it_id i) * (item_base B' i - item_base B i)) (bk_items B))"
      using weight_grows [OF ok(1) g] by (intro arg_cong [where f = sum_list] map_cong) (auto simp: algebra_simps)
    then show ?thesis by (simp add: items_total_def B' sum_list_addf)
  qed
  have allocs: "allocations_total B' p = allocations_total B p
      + sum_list (map (\<lambda>a. signed_by_type at_carrying a * ?w' (at_item a)) as)"
  proof -
    have "sum_list (map (\<lambda>a. signed_by_type at_carrying a * ?w' (at_item a)) (bk_allocations B)) = allocations_total B p"
      unfolding allocations_total_def using weight_grows [OF ok(1) g] ok(1)
      by (intro arg_cong [where f = sum_list] map_cong) (auto simp: rows_ok_def)
    then show ?thesis by (simp add: allocations_total_def B')
  qed
  have "entries_total B' p = entries_total B p + sum_list (map (\<lambda>n. party_total p (je_lines n)) ns)"
    by (simp add: entries_total_def B')
  then show "entries_total B' p = items_total B' p - allocations_total B' p"
    using ok(2) change [of p] items allocs by (simp add: balance_ok_def)
qed

lemma posted_journal_grows:
  assumes "bk_journals B' = bk_journals B @ js" "posted_journal B e \<noteq> None"
  shows "posted_journal B' e \<noteq> None"
  using assms by (auto simp: posted_journal_def find_rows_append)

lemma posted_journal_new:
  assumes "bk_journals B' = js" "entry_posted B n js" shows "posted_journal B' n \<noteq> None"
  using assms by (auto simp: posted_journal_def entry_posted_def find_rows_append split: option.splits)

lemma superseded_grow:
  "bk_sources B' = bk_sources B @ [r] \<Longrightarrow> superseded B' s \<longleftrightarrow> superseded B s \<or> so_supersedes r = Some s"
  by (auto simp: superseded_def)

lemma payment_rows_append:
  "bk_allocations B' = bk_allocations B @ as \<Longrightarrow>
     payment_rows B' s = payment_rows B s @ filter (\<lambda>a. at_payment a = s \<and> at_type a = ApplyAllocation) as"
  by (simp add: payment_rows_def)

text \<open>Journals that were in order stay so when no item of theirs and no allocation of theirs is added.\<close>

lemma old_journals_ok:
  assumes ok: "rows_ok B" "journals_ok B" and g: "grows B B'"
    and B': "bk_sources B' = bk_sources B @ [r]" "bk_journals B' = bk_journals B @ js"
      "bk_items B' = bk_items B @ is" "bk_allocations B' = bk_allocations B @ as"
    and new: "so_id r \<notin> so_id ` set (bk_sources B)"
      "\<forall>i \<in> set is. \<forall>s. item_source B' i = Some s \<longrightarrow> so_id s = so_id r"
      "\<forall>a \<in> set as. at_type a = ApplyAllocation \<longrightarrow> at_payment a = so_id r"
    and e: "e \<in> set (bk_entries B)"
  shows "posted_journal B' e \<noteq> None \<and> list_all scaled_line (je_lines e)
     \<and> (document_journal_type (je_type e) \<longrightarrow> (\<forall>i \<in> set (bk_items B'). \<forall>s. item_source B' i = Some s
          \<longrightarrow> so_id s = je_source e \<longrightarrow> (\<forall>p. party_total p (je_lines e)
              = item_weight B' p (it_id i) * it_functional i)))
     \<and> (settlement_journal_type (je_type e) \<longrightarrow> \<not> superseded B' (je_source e) \<longrightarrow>
          (\<forall>p. party_total p (je_lines e) = - weighed B' p (payment_rows B' (je_source e))))"
proof (intro conjI impI ballI allI)
  note E = journals_okD [OF ok(2) e]
  have src: "je_source e \<in> so_id ` set (bk_sources B)" using ok(1) e by (auto simp: rows_ok_def)
  show "posted_journal B' e \<noteq> None" by (rule posted_journal_grows [OF B'(2) E(1)])
  show "list_all scaled_line (je_lines e)" by (rule E(2))
  show "party_total p (je_lines e) = item_weight B' p (it_id i) * it_functional i"
    if h: "document_journal_type (je_type e)" "i \<in> set (bk_items B')" "item_source B' i = Some s" "so_id s = je_source e"
    for i s p
  proof -
    have i: "i \<in> set (bk_items B)"
    proof (rule ccontr)
      assume "i \<notin> set (bk_items B)"
      then have "i \<in> set is" using h(2) by (simp add: B'(3))
      then have "so_id s = so_id r" using new(2) h(3) by blast
      then show False using new(1) src h(4) by simp
    qed
    have "item_source B i = Some s" using item_source_grows(1) [OF ok(1) g i] h(3) by simp
    then have "party_total p (je_lines e) = item_weight B p (it_id i) * it_functional i"
      by (rule E(3) [OF h(1) i _ h(4)])
    moreover have "item_weight B' p (it_id i) = item_weight B p (it_id i)"
      by (rule weight_grows [OF ok(1) g]) (use i in blast)
    ultimately show ?thesis by simp
  qed
  show "party_total p (je_lines e) = - weighed B' p (payment_rows B' (je_source e))"
    if h: "settlement_journal_type (je_type e)" "\<not> superseded B' (je_source e)" for p
  proof -
    have "filter (\<lambda>a. at_payment a = je_source e \<and> at_type a = ApplyAllocation) as = []"
      using new(1,3) src by (auto simp: filter_empty_conv)
    then have "payment_rows B' (je_source e) = payment_rows B (je_source e)"
      by (simp add: payment_rows_append [OF B'(4)])
    moreover have "\<forall>a \<in> set (payment_rows B (je_source e)). at_item a \<in> it_id ` set (bk_items B)"
      using ok(1) by (auto simp: payment_rows_def rows_ok_def)
    moreover have "\<not> superseded B (je_source e)" using h(2) superseded_grow [OF B'(1)] by blast
    moreover from this have "party_total p (je_lines e) = - weighed B p (payment_rows B (je_source e))"
      by (rule E(4) [OF h(1)])
    ultimately show ?thesis by (simp add: weighed_grows [OF ok(1) g])
  qed
qed

section \<open>Every move keeps the invariant\<close>

lemma journal_types_disjoint: "document_journal_type t \<Longrightarrow> \<not> settlement_journal_type t"
  unfolding document_journal_type_def settlement_journal_type_def
proof
  assume "\<exists>k. t = dp_journal_type (document_kind_policy k)" "\<exists>k. t = sp_journal_type (settlement_kind_policy k)"
  then obtain k l where "dp_journal_type (document_kind_policy k) = sp_journal_type (settlement_kind_policy l)" by auto
  then show False by (cases k; cases l; simp)
qed

lemma active_in_append: "active_in (as @ bs) a \<Longrightarrow> active_in as a"
  by (auto simp: active_in_def)

lemma ledger_append_fresh:
  assumes "allocation_ledger (as @ bs)" "a \<in> set as" "b \<in> set bs" shows "at_id a \<noteq> at_id b"
  using ledger_ids [OF assms(1)] assms(2,3) by auto

lemma find_void_append:
  "bk_voids B' = bk_voids B @ [v] \<Longrightarrow> find_void B iid = None \<Longrightarrow>
     find_void B' iid = (if vd_item v = iid then Some v else None)"
  by (simp add: find_void_def find_rows_append)

lemma item_weight_new:
  assumes "it_id i \<notin> it_id ` set (bk_items B)" "bk_items B' = bk_items B @ [i]"
    and "se_id e \<notin> se_id ` set (bk_events B)" "bk_events B' = bk_events B @ [e]" "it_event i = se_id e"
    and "so_id r \<notin> so_id ` set (bk_sources B)" "bk_sources B' = bk_sources B @ [r]" "se_source e = so_id r"
  shows "item_source B' i = Some r"
    "item_weight B' p (it_id i) = (if it_party i = p then type_side (so_type r) else 0)"
proof -
  show s: "item_source B' i = Some r"
    using find_fresh [OF assms(3), of "se_id e"] find_fresh [OF assms(6), of "so_id r"]
    by (simp add: item_source_def find_event_def find_source_def assms(4,5,7,8))
  have "find_item B' (it_id i) = Some i"
    using find_fresh [OF assms(1), of "it_id i"] by (simp add: find_item_def assms(2))
  then show "item_weight B' p (it_id i) = (if it_party i = p then type_side (so_type r) else 0)"
    using s by (simp add: item_weight_def item_side_def)
qed

lemma drafts_ok_grow:
  "drafts_ok rnd B \<Longrightarrow> bk_sources B' = bk_sources B @ [r] \<Longrightarrow> (so_status r = DraftSource \<Longrightarrow> draft_priced rnd r)
    \<Longrightarrow> drafts_ok rnd B'"
  by (auto simp: drafts_ok_def)

lemma journals_ok_grow:
  assumes ok: "rows_ok B" "journals_ok B" and g: "grows B B'"
    and B': "bk_sources B' = bk_sources B @ [r]" "bk_items B' = bk_items B @ is" "bk_allocations B' = bk_allocations B @ as"
      "bk_entries B' = bk_entries B @ [n]" "bk_journals B' = js" and n: "entry_posted B n js"
    and new: "so_id r \<notin> so_id ` set (bk_sources B)"
      "\<forall>i \<in> set is. \<forall>s. item_source B' i = Some s \<longrightarrow> so_id s = so_id r"
      "\<forall>a \<in> set as. at_type a = ApplyAllocation \<longrightarrow> at_payment a = so_id r"
    and document: "document_journal_type (je_type n) \<Longrightarrow> je_source n = so_id r
      \<and> (\<forall>i \<in> set is. \<forall>p. party_total p (je_lines n) = item_weight B' p (it_id i) * it_functional i)"
    and settlement: "settlement_journal_type (je_type n) \<Longrightarrow> \<not> superseded B' (je_source n) \<Longrightarrow> je_source n = so_id r
      \<and> (\<forall>p. party_total p (je_lines n) = - weighed B' p (filter (\<lambda>a. at_payment a = so_id r \<and> at_type a = ApplyAllocation) as))"
  shows "journals_ok B'"
  unfolding journals_ok_def B'(4)
proof
  fix e assume e: "e \<in> set (bk_entries B @ [n])"
  obtain j where j: "js = bk_journals B @ [j]" using n by (auto simp: entry_posted_def)
  have bj: "bk_journals B' = bk_journals B @ [j]" using B'(5) j by simp
  show "posted_journal B' e \<noteq> None \<and> list_all scaled_line (je_lines e)
     \<and> (document_journal_type (je_type e) \<longrightarrow> (\<forall>i \<in> set (bk_items B'). \<forall>s. item_source B' i = Some s
          \<longrightarrow> so_id s = je_source e \<longrightarrow> (\<forall>p. party_total p (je_lines e)
              = item_weight B' p (it_id i) * it_functional i)))
     \<and> (settlement_journal_type (je_type e) \<longrightarrow> \<not> superseded B' (je_source e) \<longrightarrow>
          (\<forall>p. party_total p (je_lines e) = - weighed B' p (payment_rows B' (je_source e))))"
  proof (cases "e \<in> set (bk_entries B)")
    case True
    show ?thesis by (rule old_journals_ok [OF ok g B'(1) bj B'(2,3) new True])
  next
    case False
    then have en: "e = n" using e by simp
    show ?thesis unfolding en
    proof (intro conjI impI ballI allI)
      show "posted_journal B' n \<noteq> None" by (rule posted_journal_new [OF B'(5) n])
      show "list_all scaled_line (je_lines n)" using n by (simp add: entry_posted_def)
      show "party_total p (je_lines n) = item_weight B' p (it_id i) * it_functional i"
        if h: "document_journal_type (je_type n)" "i \<in> set (bk_items B')" "item_source B' i = Some s" "so_id s = je_source n"
        for i s p
      proof -
        have "i \<notin> set (bk_items B)"
        proof
          assume i: "i \<in> set (bk_items B)"
          have "item_source B i = Some s" using item_source_grows(1) [OF ok(1) g i] h(3) by simp
          then have "s \<in> set (bk_sources B)"
            unfolding item_source_def find_source_def by (auto simp: bind_eq_Some_conv dest: find_keyD)
          then show False using new(1) h(4) document [OF h(1)] by (metis image_eqI)
        qed
        then have "i \<in> set is" using h(2) by (simp add: B'(2))
        then show ?thesis using document [OF h(1)] by blast
      qed
      show "party_total p (je_lines n) = - weighed B' p (payment_rows B' (je_source n))"
        if h: "settlement_journal_type (je_type n)" "\<not> superseded B' (je_source n)" for p
      proof -
        have "payment_rows B (so_id r) = []"
          using rows_okD(2) [OF ok(1)] new(1) unfolding payment_rows_def filter_empty_conv by metis
        then show ?thesis using settlement [OF h] payment_rows_append [OF B'(3)] by simp
      qed
    qed
  qed
qed

lemma drafted_ok:
  assumes ok: "books_ok rnd B" and r: "source_admitted B r" "draft_priced rnd r"
  shows "books_ok rnd (B\<lparr>bk_sources := bk_sources B @ [r]\<rparr>)"
proof -
  let ?B = "B\<lparr>bk_sources := bk_sources B @ [r]\<rparr>"
  have o: "rows_ok B" "drafts_ok rnd B" "allocations_ok B" "journals_ok B" "balance_ok B"
    using ok by (simp_all add: books_ok_def)
  have g: "grows B ?B" by (simp add: grows_def)
  have "rows_ok ?B" by (rule rows_ok_grow [OF o(1) r(1), of _ "[]" "[]" "[]" "[]" "[]"]) simp_all
  moreover have "drafts_ok rnd ?B" by (rule drafts_ok_grow [OF o(2) _ r(2)]) simp
  moreover have "allocations_ok ?B" using o(3) superseded_grow [of ?B B r] by (auto simp: allocations_ok_def)
  moreover have "journals_ok ?B"
    unfolding journals_ok_def
  proof
    fix e assume "e \<in> set (bk_entries ?B)"
    then have "e \<in> set (bk_entries B)" by simp
    from old_journals_ok [OF o(1,4) g _ _ _ _ _ _ _ this, of r "[]" "[]" "[]"] r(1)
    show "posted_journal ?B e \<noteq> None \<and> list_all scaled_line (je_lines e)
       \<and> (document_journal_type (je_type e) \<longrightarrow> (\<forall>i \<in> set (bk_items ?B). \<forall>s. item_source ?B i = Some s
            \<longrightarrow> so_id s = je_source e \<longrightarrow> (\<forall>p. party_total p (je_lines e)
                = item_weight ?B p (it_id i) * it_functional i)))
       \<and> (settlement_journal_type (je_type e) \<longrightarrow> \<not> superseded ?B (je_source e) \<longrightarrow>
            (\<forall>p. party_total p (je_lines e) = - weighed ?B p (payment_rows ?B (je_source e))))"
      by (simp add: source_admitted_def)
  qed
  moreover have "balance_ok ?B"
    by (rule totals_grow [OF o(1,5) g, of "[]" "[]" "[]"]) (simp_all add: item_base_def find_void_def)
  ultimately show ?thesis by (simp add: books_ok_def)
qed


lemma issued_ok:
  assumes ok: "books_ok rnd B" and r: "source_admitted B r" "so_status r \<noteq> DraftSource"
    and e: "se_id e \<notin> se_id ` set (bk_events B)" "se_source e = so_id r"
    and i: "it_id i \<notin> it_id ` set (bk_items B)" "it_event i = se_id e" "0 < it_original i"
    and n: "entry_posted B n js" "je_source n = so_id r" "document_journal_type (je_type n)"
      "\<And>p. party_total p (je_lines n) = (if it_party i = p then type_side (so_type r) * it_functional i else 0)"
    and B': "B' = B\<lparr>bk_sources := bk_sources B @ [r], bk_taxes := tx, bk_events := bk_events B @ [e],
          bk_items := bk_items B @ [i], bk_journals := js, bk_entries := bk_entries B @ [n]\<rparr>"
  shows "books_ok rnd B'"
proof -
  have o: "rows_ok B" "drafts_ok rnd B" "allocations_ok B" "journals_ok B" "balance_ok B"
    using ok by (simp_all add: books_ok_def)
  have g: "grows B B'" by (simp add: grows_def B')
  have fresh: "so_id r \<notin> so_id ` set (bk_sources B)" using r(1) by (simp add: source_admitted_def)
  note new = item_weight_new [OF i(1) _ e(1) _ i(2) fresh _ e(2), of B']
  have w: "item_source B' i = Some r" "\<And>p. item_weight B' p (it_id i) = (if it_party i = p then type_side (so_type r) else 0)"
    using new by (simp_all add: B')
  have "rows_ok B'"
    by (rule rows_ok_grow [OF o(1) r(1), of B' "[e]" "[i]" "[]" "[n]" "[]"]) (use e i n(2) in \<open>auto simp: B'\<close>)
  moreover have "drafts_ok rnd B'" by (rule drafts_ok_grow [OF o(2), of B' r]) (use r(2) in \<open>simp_all add: B'\<close>)
  moreover have "allocations_ok B'"
  proof -
    have "item_net (bk_allocations B) at_amount (it_id i) = 0"
    proof (rule ledger_net_inactive)
      show "allocation_ledger (bk_allocations B)" using o(3) by (simp add: allocations_ok_def)
      show "\<forall>a \<in> set (bk_allocations B). at_item a = it_id i \<longrightarrow> \<not> active_in (bk_allocations B) a"
        using rows_okD(1) [OF o(1)] i(1) by metis
    qed simp
    then have "item_within (bk_allocations B) i" using i(3) by (simp add: item_within_def)
    then show ?thesis
      using o(3) superseded_grow [of B' B r] by (auto simp: allocations_ok_def B')
  qed
  moreover have "journals_ok B'"
    by (rule journals_ok_grow [OF o(1,4) g, of r "[i]" "[]" n js])
      (use fresh n w journal_types_disjoint [OF n(3)] in \<open>simp_all add: B'\<close>)
  moreover have "balance_ok B'"
  proof (rule totals_grow [OF o(1,5) g, of "[i]" "[]" "[n]"])
    fix p
    have same: "item_base B' x = item_base B x" for x by (simp add: item_base_def find_void_def B')
    have "find_void B (it_id i) = None"
      using rows_okD(4) [OF o(1)] i(1) unfolding find_void_def find_None_iff by metis
    then have "item_base B i = it_functional i" by (simp add: item_base_def)
    then show "sum_list (map (\<lambda>n. party_total p (je_lines n)) [n])
        = sum_list (map (\<lambda>i. item_weight B p (it_id i) * (item_base B' i - item_base B i)) (bk_items B))
          + sum_list (map (\<lambda>i. item_weight B' p (it_id i) * item_base B' i) [i])
          - sum_list (map (\<lambda>a. signed_by_type at_carrying a * item_weight B' p (at_item a)) [])"
      using n(4) w(2) by (simp add: same)
  qed (simp_all add: B')
  ultimately show ?thesis by (simp add: books_ok_def)
qed

lemma settled_ok:
  assumes ok: "books_ok rnd B" and r: "source_admitted B r" "so_status r \<noteq> DraftSource"
    and e: "se_id e \<notin> se_id ` set (bk_events B)" "se_source e = so_id r"
    and as: "allocation_ledger (bk_allocations B @ as)"
      "\<forall>i \<in> set (bk_items B). item_within (bk_allocations B @ as) i"
      "\<forall>a \<in> set as. at_type a = ApplyAllocation \<and> at_payment a = so_id r \<and> at_reverses a = None
          \<and> at_item a \<in> it_id ` set (bk_items B) \<and> find_void B (at_item a) = None"
    and n: "entry_posted B n js" "je_source n = so_id r" "\<not> document_journal_type (je_type n)"
      "\<And>p. party_total p (je_lines n) = - weighed B p as"
    and B': "B' = B\<lparr>bk_sources := bk_sources B @ [r], bk_events := bk_events B @ [e],
          bk_allocations := bk_allocations B @ as, bk_journals := js, bk_entries := bk_entries B @ [n]\<rparr>"
  shows "books_ok rnd B'"
proof -
  have o: "rows_ok B" "drafts_ok rnd B" "allocations_ok B" "journals_ok B" "balance_ok B"
    using ok by (simp_all add: books_ok_def)
  have g: "grows B B'" by (simp add: grows_def B')
  have fresh: "so_id r \<notin> so_id ` set (bk_sources B)" using r(1) by (simp add: source_admitted_def)
  have same: "weighed B' p as = weighed B p as" for p
    using weighed_grows [OF o(1) g, of as p] as(3) by blast
  have "rows_ok B'"
    by (rule rows_ok_grow [OF o(1) r(1), of B' "[e]" "[]" as "[n]" "[]"]) (use e as(3) n(2) in \<open>auto simp: B'\<close>)
  moreover have "drafts_ok rnd B'" by (rule drafts_ok_grow [OF o(2), of B' r]) (use r(2) in \<open>simp_all add: B'\<close>)
  moreover have "allocations_ok B'"
    unfolding allocations_ok_def
  proof (intro conjI ballI impI)
    show "allocation_ledger (bk_allocations B')" using as(1) by (simp add: B')
    show "item_within (bk_allocations B') i" if "i \<in> set (bk_items B')" for i
      using as(2) that by (simp add: B')
    fix a assume a: "a \<in> set (bk_allocations B')"
    show "superseded B' (at_payment a)" if b: "b \<in> set (bk_allocations B')" "at_reverses b = Some (at_id a)" for b
    proof -
      have bB: "b \<in> set (bk_allocations B)" using b as(3) by (auto simp: B')
      have led: "allocation_ledger (bk_allocations B)" using o(3) by (simp add: allocations_ok_def)
      have "at_id a \<in> at_id ` set (bk_allocations B)" by (rule ledger_reverses [OF led bB b(2)])
      then obtain x where x: "x \<in> set (bk_allocations B)" "at_id x = at_id a" by auto
      have "a \<notin> set as" using ledger_append_fresh [OF as(1) x(1)] x(2) by auto
      then have "a \<in> set (bk_allocations B)" using a by (simp add: B')
      then have "superseded B (at_payment a)" using o(3) bB b(2) by (auto simp: allocations_ok_def)
      then show ?thesis using superseded_grow [of B' B r] by (simp add: B')
    qed
    show "\<not> active_in (bk_allocations B') a" if v: "v \<in> set (bk_voids B')" "at_item a = vd_item v" for v
    proof (cases "a \<in> set as")
      case True
      then have "find_void B (at_item a) = None" using as(3) by blast
      then show ?thesis using v by (auto simp: find_void_def find_None_iff B')
    next
      case False
      then have "a \<in> set (bk_allocations B)" using a by (simp add: B')
      then have "\<not> active_in (bk_allocations B) a" using o(3) v by (auto simp: allocations_ok_def B')
      then show ?thesis using active_in_append [of "bk_allocations B" as a] by (auto simp: B')
    qed
  qed
  moreover have "journals_ok B'"
  proof (rule journals_ok_grow [OF o(1,4) g, of r "[]" as n js])
    show "je_source n = so_id r \<and> (\<forall>p. party_total p (je_lines n)
        = - weighed B' p (filter (\<lambda>a. at_payment a = so_id r \<and> at_type a = ApplyAllocation) as))"
    proof -
      have "filter (\<lambda>a. at_payment a = so_id r \<and> at_type a = ApplyAllocation) as = as"
        using as(3) by simp
      then show ?thesis using n(2,4) same by simp
    qed
  qed (use fresh n as(3) in \<open>simp_all add: B'\<close>)
  moreover have "balance_ok B'"
  proof (rule totals_grow [OF o(1,5) g, of "[]" as "[n]"])
    fix p
    have base: "item_base B' x = item_base B x" for x by (simp add: item_base_def find_void_def B')
    have "sum_list (map (\<lambda>a. signed_by_type at_carrying a * item_weight B' p (at_item a)) as) = weighed B' p as"
      unfolding weighed_def using as(3)
      by (intro arg_cong [where f = sum_list] map_cong) (auto simp: signed_by_type_def)
    then show "sum_list (map (\<lambda>n. party_total p (je_lines n)) [n])
        = sum_list (map (\<lambda>i. item_weight B p (it_id i) * (item_base B' i - item_base B i)) (bk_items B))
          + sum_list (map (\<lambda>i. item_weight B' p (it_id i) * item_base B' i) [])
          - sum_list (map (\<lambda>a. signed_by_type at_carrying a * item_weight B' p (at_item a)) as)"
      using n(4) same by (simp add: base)
  qed (simp_all add: B')
  ultimately show ?thesis by (simp add: books_ok_def)
qed


lemma voided_ok:
  assumes ok: "books_ok rnd B" and r: "source_admitted B r" "so_status r \<noteq> DraftSource"
    and i: "i \<in> set (bk_items B)" "find_void B (it_id i) = None"
      "item_net (bk_allocations B) at_amount (it_id i) = 0" "vd_item v = it_id i"
    and orig: "e \<in> set (bk_entries B)" "document_journal_type (je_type e)"
      "item_source B i = Some s" "so_id s = je_source e"
    and n: "entry_posted B n js" "je_source n = je_source e"
      "\<not> document_journal_type (je_type n)" "\<not> settlement_journal_type (je_type n)"
      "\<And>p. party_total p (je_lines n) = - party_total p (je_lines e)"
    and B': "B' = B\<lparr>bk_sources := bk_sources B @ [r], bk_journals := js, bk_entries := bk_entries B @ [n],
          bk_relations := rel, bk_voids := bk_voids B @ [v]\<rparr>"
  shows "books_ok rnd B'"
proof -
  have o: "rows_ok B" "drafts_ok rnd B" "allocations_ok B" "journals_ok B" "balance_ok B"
    using ok by (simp_all add: books_ok_def)
  have g: "grows B B'" by (simp add: grows_def B')
  have fresh: "so_id r \<notin> so_id ` set (bk_sources B)" using r(1) by (simp add: source_admitted_def)
  have "rows_ok B'"
    by (rule rows_ok_grow [OF o(1) r(1), of B' "[]" "[]" "[]" "[n]" "[v]"])
      (use n(2) i(1,4) rows_okD(3) [OF o(1) orig(1)] in \<open>simp_all add: B'\<close>)
  moreover have "drafts_ok rnd B'" by (rule drafts_ok_grow [OF o(2), of B' r]) (use r(2) in \<open>simp_all add: B'\<close>)
  moreover have "allocations_ok B'"
  proof -
    have led: "allocation_ledger (bk_allocations B)" using o(3) by (simp add: allocations_ok_def)
    have "\<forall>a \<in> set (bk_allocations B). at_item a = vd_item v \<longrightarrow> \<not> active_in (bk_allocations B) a"
      using ledger_net_zero [OF led i(3)] i(4) by simp
    then show ?thesis using o(3) superseded_grow [of B' B r] by (auto simp: allocations_ok_def B')
  qed
  moreover have "journals_ok B'"
    by (rule journals_ok_grow [OF o(1,4) g, of r "[]" "[]" n js]) (use fresh n in \<open>simp_all add: B'\<close>)
  moreover have "balance_ok B'"
  proof (rule totals_grow [OF o(1,5) g, of "[]" "[]" "[n]"])
    fix p
    have d: "distinct (map it_id (bk_items B))" using o(1) by (simp add: rows_ok_def)
    have "item_base B' x - item_base B x = (if it_id i = it_id x then - it_functional i else 0)"
      if "x \<in> set (bk_items B)" for x
    proof (cases "it_id i = it_id x")
      case True
      then have "x = i" using d that i(1) unfolding distinct_map inj_on_def by blast
      then show ?thesis using i(2,4) find_void_append [of B' B v "it_id i"] by (simp add: item_base_def B')
    next
      case False
      have "find_void B' (it_id x) = None \<longleftrightarrow> find_void B (it_id x) = None"
        using False i(4) by (auto simp: find_void_def find_rows_append B' split: option.splits)
      then show ?thesis using False by (simp add: item_base_def)
    qed
    then have "sum_list (map (\<lambda>x. item_weight B p (it_id x) * (item_base B' x - item_base B x)) (bk_items B))
      = sum_list (map (\<lambda>x. item_weight B p (it_id x) * (if it_id i = it_id x then - it_functional i else 0)) (bk_items B))"
      by (intro arg_cong [where f = sum_list] map_cong) auto
    also have "\<dots> = sum_list (map (\<lambda>x. item_weight B p x * (if it_id i = x then - it_functional i else 0)) (map it_id (bk_items B)))"
      by (simp add: o_def)
    also have "\<dots> = - item_weight B p (it_id i) * it_functional i"
      using sum_one_group [OF d] i(1) by simp
    also have "\<dots> = - party_total p (je_lines e)"
      using journals_okD(3) [OF o(4) orig(1,2) i(1) orig(3,4)] by simp
    finally show "sum_list (map (\<lambda>n. party_total p (je_lines n)) [n])
        = sum_list (map (\<lambda>i. item_weight B p (it_id i) * (item_base B' i - item_base B i)) (bk_items B))
          + sum_list (map (\<lambda>i. item_weight B' p (it_id i) * item_base B' i) [])
          - sum_list (map (\<lambda>a. signed_by_type at_carrying a * item_weight B' p (at_item a)) [])"
      using n(5) by simp
  qed (simp_all add: B')
  ultimately show ?thesis by (simp add: books_ok_def)
qed

lemma settlement_voided_ok:
  assumes ok: "books_ok rnd B" and r: "source_admitted B r" "so_status r \<noteq> DraftSource"
      "so_supersedes r = Some (je_source e)" "\<not> superseded B (je_source e)"
    and as: "allocation_ledger (bk_allocations B @ as)"
      "\<forall>i \<in> set (bk_items B). item_within (bk_allocations B @ as) i"
      "\<forall>a \<in> set as. at_type a = ReversalAllocation \<and> at_payment a = so_id r
          \<and> (\<exists>b \<in> set (bk_allocations B). at_payment b = je_source e \<and> at_reverses a = Some (at_id b)
               \<and> at_item a = at_item b)"
      "mset (map (\<lambda>a. (at_item a, at_carrying a)) as)
         = mset (map (\<lambda>a. (at_item a, at_carrying a)) (payment_rows B (je_source e)))"
    and orig: "e \<in> set (bk_entries B)" "settlement_journal_type (je_type e)"
    and n: "entry_posted B n js" "je_source n = je_source e" "\<not> document_journal_type (je_type n)"
      "\<And>p. party_total p (je_lines n) = - party_total p (je_lines e)"
    and B': "B' = B\<lparr>bk_sources := bk_sources B @ [r], bk_allocations := bk_allocations B @ as,
          bk_journals := js, bk_entries := bk_entries B @ [n], bk_relations := rel\<rparr>"
  shows "books_ok rnd B'"
proof -
  have o: "rows_ok B" "drafts_ok rnd B" "allocations_ok B" "journals_ok B" "balance_ok B"
    using ok by (simp_all add: books_ok_def)
  have g: "grows B B'" by (simp add: grows_def B')
  have fresh: "so_id r \<notin> so_id ` set (bk_sources B)" using r(1) by (simp add: source_admitted_def)
  have led: "allocation_ledger (bk_allocations B)" using o(3) by (simp add: allocations_ok_def)
  have items: "\<forall>a \<in> set as. at_item a \<in> it_id ` set (bk_items B)"
    using as(3) rows_okD(1) [OF o(1)] by metis
  have "rows_ok B'"
    by (rule rows_ok_grow [OF o(1) r(1), of B' "[]" "[]" as "[n]" "[]"])
      (use n(2) rows_okD(3) [OF o(1) orig(1)] as(3) items in \<open>auto simp: B'\<close>)
  moreover have "drafts_ok rnd B'" by (rule drafts_ok_grow [OF o(2), of B' r]) (use r(2) in \<open>simp_all add: B'\<close>)
  moreover have "allocations_ok B'"
    unfolding allocations_ok_def
  proof (intro conjI ballI impI)
    show "allocation_ledger (bk_allocations B')" using as(1) by (simp add: B')
    show "item_within (bk_allocations B') i" if "i \<in> set (bk_items B')" for i
      using as(2) that by (simp add: B')
    fix a assume a: "a \<in> set (bk_allocations B')"
    show "superseded B' (at_payment a)" if b: "b \<in> set (bk_allocations B')" "at_reverses b = Some (at_id a)" for b
    proof -
      obtain x where x: "x \<in> set (bk_allocations B)" "at_id x = at_id a"
        and old: "b \<in> set (bk_allocations B) \<or> at_payment x = je_source e"
      proof (cases "b \<in> set as")
        case True
        then show ?thesis using that as(3) b(2) by force
      next
        case False
        then have bB: "b \<in> set (bk_allocations B)" using b(1) by (simp add: B')
        show ?thesis using that ledger_reverses [OF led bB b(2)] bB by (metis imageE)
      qed
      have "a \<notin> set as" using ledger_append_fresh [OF as(1) x(1)] x(2) by auto
      then have aB: "a \<in> set (bk_allocations B)" using a by (simp add: B')
      then have "x = a" using ledger_ids [OF led] x unfolding distinct_map inj_on_def by blast
      have "superseded B (at_payment a)" if "b \<in> set (bk_allocations B)"
        by (rule allocations_reversed [OF o(3) aB that b(2)])
      then have cases: "superseded B (at_payment a) \<or> at_payment a = je_source e" using old \<open>x = a\<close> by auto
      have "superseded B' (at_payment a) \<longleftrightarrow> superseded B (at_payment a) \<or> so_supersedes r = Some (at_payment a)"
        by (rule superseded_grow) (simp add: B')
      then show ?thesis using cases r(3) by metis
    qed
    show "\<not> active_in (bk_allocations B') a" if v: "v \<in> set (bk_voids B')" "at_item a = vd_item v" for v
    proof (cases "a \<in> set as")
      case True
      then show ?thesis using as(3) by (simp add: active_in_def)
    next
      case False
      then have "a \<in> set (bk_allocations B)" using a by (simp add: B')
      then have "\<not> active_in (bk_allocations B) a" using o(3) v by (auto simp: allocations_ok_def B')
      then show ?thesis using active_in_append [of "bk_allocations B" as a] by (auto simp: B')
    qed
  qed
  moreover have "journals_ok B'"
  proof (rule journals_ok_grow [OF o(1,4) g, of r "[]" as n js])
    show "je_source n = so_id r \<and> (\<forall>p. party_total p (je_lines n)
        = - weighed B' p (filter (\<lambda>a. at_payment a = so_id r \<and> at_type a = ApplyAllocation) as))"
      if "\<not> superseded B' (je_source n)"
      using that superseded_grow [of B' B r] r(3) n(2) by (simp add: B')
  qed (use fresh n as(3) in \<open>auto simp: B'\<close>)
  moreover have "balance_ok B'"
  proof (rule totals_grow [OF o(1,5) g, of "[]" as "[n]"])
    fix p
    have base: "item_base B' x = item_base B x" for x by (simp add: item_base_def find_void_def B')
    have "sum_list (map (\<lambda>a. signed_by_type at_carrying a * item_weight B' p (at_item a)) as) = - weighed B' p as"
    proof -
      have "sum_list (map (\<lambda>a. signed_by_type at_carrying a * item_weight B' p (at_item a)) as)
        = sum_list (map (\<lambda>a. - (at_carrying a * item_weight B' p (at_item a))) as)"
        using as(3) by (intro arg_cong [where f = sum_list] map_cong) (auto simp: signed_by_type_def)
      then show ?thesis by (simp add: weighed_def uminus_sum_list_map o_def)
    qed
    moreover have "weighed B' p as = - party_total p (je_lines e)"
      using weighed_grows [OF o(1) g items] weighed_mset [OF as(4)] journals_okD(4) [OF o(4) orig r(4)] by simp
    ultimately show "sum_list (map (\<lambda>n. party_total p (je_lines n)) [n])
        = sum_list (map (\<lambda>i. item_weight B p (it_id i) * (item_base B' i - item_base B i)) (bk_items B))
          + sum_list (map (\<lambda>i. item_weight B' p (it_id i) * item_base B' i) [])
          - sum_list (map (\<lambda>a. signed_by_type at_carrying a * item_weight B' p (at_item a)) as)"
      using n(4) by (simp add: base)
  qed (simp_all add: B')
  ultimately show ?thesis by (simp add: books_ok_def)
qed

lemma move_keeps_books:
  assumes "books_move rnd B B'" "books_ok rnd B" shows "books_ok rnd B'"
  using assms
proof (induction rule: books_move.cases)
  case (drafted B r)
  then show ?case by (simp add: drafted_ok)
next
  case (issued B r e i n js tx)
  show ?case unfolding issued(2) by (rule issued_ok [where B = B, OF _ _ _ _ _ _ _ _ _ _ _ _ HOL.refl]) (use issued in auto)
next
  case (settled B r e as n js)
  show ?case unfolding settled(2) by (rule settled_ok [where B = B, OF _ _ _ _ _ _ _ _ _ _ _ _ HOL.refl]) (use settled in auto)
next
  case (voided B r i v o' s n js rel)
  show ?case unfolding voided(2) by (rule voided_ok [where B = B, OF _ _ _ _ _ _ _ _ _ _ _ _ _ _ _ _ HOL.refl]) (use voided in auto)
next
  case (settlement_voided B r o' as n js rel)
  show ?case unfolding settlement_voided(2)
    by (rule settlement_voided_ok [where B = B, OF _ _ _ _ _ _ _ _ _ _ _ _ _ _ _ HOL.refl]) (use settlement_voided in auto)
qed simp

end
