(* ===== verification/SubledgerCommands.thy ===== *)
theory SubledgerCommands
  imports SubledgerStore
begin

text \<open>
  The commands of the subledger: \<open>subledger/ar-ap-draft-commands.ts\<close>,
  \<open>ar-ap-issue-command.ts\<close>, \<open>ar-ap-settlement-command.ts\<close> and \<open>ar-ap-void-commands.ts\<close>.  A
  command maps the books to new books and its result, or to an error, and then the books
  stay: the transaction is rolled back.  Advisory locks serialise commands, so a history is
  a list of commands.
\<close>

section \<open>Access and idempotency\<close>

datatype owner_operation = ReadOperation | ManageOperation | PostOperation | SettleOperation | VoidOperation

fun permission_for_owner :: "owner_module \<Rightarrow> owner_operation \<Rightarrow> permission" where
  "permission_for_owner Receivables ReadOperation = ReadReceivables"
| "permission_for_owner Receivables ManageOperation = ManageReceivables"
| "permission_for_owner Receivables PostOperation = PostReceivables"
| "permission_for_owner Receivables SettleOperation = SettleReceivables"
| "permission_for_owner Receivables VoidOperation = VoidReceivables"
| "permission_for_owner Payables ReadOperation = ReadPayables"
| "permission_for_owner Payables ManageOperation = ManagePayables"
| "permission_for_owner Payables PostOperation = PostPayables"
| "permission_for_owner Payables SettleOperation = SettlePayables"
| "permission_for_owner Payables VoidOperation = VoidPayables"

definition assert_permission :: "'d platform \<Rightarrow> tenant_context \<Rightarrow> permission \<Rightarrow> subledger_error + unit" where
  "assert_permission P c p =
     (case assert_actor_has_active_permission (pf_access P) (ctx_organization c) (ctx_actor c) p of
        Inl e \<Rightarrow> Inl (if p = OverrideTaxDeterminations then SourceTaxAuthorizationRequired else SubledgerAccess e)
      | Inr _ \<Rightarrow> Inr ())"

text \<open>\<open>canonicalHash\<close>\<close>

definition canonical_hash :: "'d platform \<Rightarrow> js_value \<Rightarrow> subledger_error + string" where
  "canonical_hash P v =
     bindE (map_errorE SubledgerFingerprint (canonical_json (pf_locale P) v)) (\<lambda>t.
     bindE (option_to_result (SubledgerFingerprint NotSerializable) t) (\<lambda>t. Inr (pf_sha P t)))"

definition subledger_operation_key ::
  "'d platform \<Rightarrow> owner_module \<Rightarrow> string \<Rightarrow> string \<Rightarrow> subledger_error + string" where
  "subledger_operation_key P owner operation key =
     bindE (canonical_hash P (TextVal key)) (\<lambda>h.
     Inr (''subledger:'' @ owner_text owner @ '':'' @ operation @ '':'' @ take 40 h))"

definition subledger_command_fingerprints ::
  "'d platform \<Rightarrow> owner_module \<Rightarrow> string \<Rightarrow> command_object \<Rightarrow> subledger_error + transitional_fingerprints" where
  "subledger_command_fingerprints P owner operation cmd =
     (let payload = PlainObj [(''operation'', TextVal operation), (''command'', pf_object P cmd)] in
      bindE (map_errorE SubledgerFingerprint (create_command_fingerprint (pf_sha P)
        (''subledger.'' @ owner_text owner @ ''.'' @ operation) payload ''v1'')) (\<lambda>current.
      bindE (canonical_hash P payload) (\<lambda>legacy.
      Inr \<lparr>tfp_current = current, tfp_legacy = legacy\<rparr>)))"

definition writes_enabled :: "'d platform \<Rightarrow> tenant_context \<Rightarrow> subledger_error + unit" where
  "writes_enabled P c = map_errorE SubledgerAccess (assert_tenant_writes_enabled (pf_environment P) c)"

definition begin_subledger :: "'d platform \<Rightarrow> tenant_context \<Rightarrow> subledger_error + unit" where
  "begin_subledger P c =
     bindE (map_errorE SubledgerAccess (begin_tenant_transaction
       \<lparr>tg_uuid = is_uuid (pf_formats P), tg_lease = pf_lease P\<rparr> c)) (\<lambda>_. Inr ())"

definition writable_organization :: "'d platform \<Rightarrow> tenant_context \<Rightarrow> subledger_error + unit" where
  "writable_organization P c =
     bindE (map_errorE SubledgerAccess (assert_writable_organization (pf_environment P) (pf_access P) c)) (\<lambda>_. Inr ())"

section \<open>Drafts\<close>

definition same_fx_evidence_for_edit ::
  "'d decimal_api \<Rightarrow> fx_clock \<Rightarrow> fx_snapshot \<Rightarrow> fx_snapshot \<Rightarrow> bool" where
  "same_fx_evidence_for_edit D C supplied frozen \<longleftrightarrow>
     fx_source supplied = fx_source frozen
     \<and> fc_parse C (fx_effective_at supplied) \<noteq> None
     \<and> fc_parse C (fx_effective_at supplied) = fc_parse C (fx_effective_at frozen)
     \<and> (case exact D (TextIn (fx_rate supplied)) of
          Inl _ \<Rightarrow> False
        | Inr r \<Rightarrow> equals_literal D r (fx_rate frozen) = Inr True)"

definition edit_fx_resolution_action ::
  "'d decimal_api \<Rightarrow> fx_clock \<Rightarrow> fx_resolution_mode option \<Rightarrow> fx_snapshot option \<Rightarrow> fx_snapshot option \<Rightarrow> bool
     \<Rightarrow> subledger_error + fx_resolution_mode" where
  "edit_fx_resolution_action D C mode supplied frozen compatible =
     (case mode of
        Some PreserveFx \<Rightarrow>
          bindE (throw_if (frozen = None \<or> \<not> compatible) FxNotPreservable) (\<lambda>_. Inr PreserveFx)
      | Some ResolveFx \<Rightarrow> Inr ResolveFx
      | Some ExplicitFx \<Rightarrow> bindE (throw_if (supplied = None) ExplicitFxRequired) (\<lambda>_. Inr ExplicitFx)
      | None \<Rightarrow>
          (case supplied of
             None \<Rightarrow> Inr ResolveFx
           | Some x \<Rightarrow>
               if (\<exists>f \<in> set_option frozen. same_fx_evidence_for_edit D C x f)
               then bindE (require compatible FxNotPreservable) (\<lambda>_. Inr PreserveFx)
               else Inr ExplicitFx))"

text \<open>\<open>{ ...unresolvedDocumentInput, fx }\<close>\<close>

definition document_of :: "'m document_fields_scheme \<Rightarrow> fx_snapshot \<Rightarrow> document_input" where
  "document_of i fx =
     \<lparr>di_kind = di_kind i, di_source_number = di_source_number i, di_ledger = di_ledger i,
      di_entity = di_entity i, di_party = di_party i, di_control = di_control i,
      di_tax_account = di_tax_account i, di_rounding_account = di_rounding_account i,
      di_document_date = di_document_date i, di_accounting_date = di_accounting_date i,
      di_period = di_period i, di_due = di_due i, di_currency = di_currency i,
      di_description = di_description i, di_lines = di_lines i, di_fx = fx\<rparr>"

text \<open>The row \<open>appendSourceDocument\<close> inserts for a document.\<close>

definition document_version ::
  "'d platform \<Rightarrow> tenant_context \<Rightarrow> document_policy \<Rightarrow> string \<Rightarrow> int \<Rightarrow> source_status \<Rightarrow> document_snapshot
     \<Rightarrow> string \<Rightarrow> string \<Rightarrow> string option \<Rightarrow> string option \<Rightarrow> source_row" where
  "document_version P c policy num version status s key hash supersedes reason =
     \<lparr>so_id = pf_random P 0, so_entity = ds_entity s, so_owner = dp_owner policy,
      so_type = dp_source_type policy, so_number = num, so_version = version, so_status = status,
      so_snapshot = DocumentSnapshot s, so_content_hash = pf_content_hash P (DocumentSnapshot s),
      so_key = key, so_command_hash = hash, so_supersedes = supersedes, so_created_by = ctx_actor c,
      so_void_reason = reason\<rparr>"

text \<open>What creating and editing a draft share: the snapshot is built, validated and stored.\<close>

definition resolve_document_fx ::
  "'d platform \<Rightarrow> string \<Rightarrow> string \<Rightarrow> string \<Rightarrow> fx_snapshot option \<Rightarrow> subledger_error + fx_snapshot" where
  "resolve_document_fx P currency functional as_of explicit =
     map_errorE SubledgerFx (resolve_fx (pf_decimal P) (pf_clock P) (pf_providers P) (pf_fx P)
       currency functional as_of explicit)"

definition save_draft ::
  "'d platform \<Rightarrow> tenant_context \<Rightarrow> books \<Rightarrow> 'm document_fields_scheme \<Rightarrow> fx_snapshot \<Rightarrow> string
     \<Rightarrow> evidence_reference list option \<Rightarrow> int \<Rightarrow> string \<Rightarrow> string \<Rightarrow> string option
     \<Rightarrow> subledger_error + books \<times> subledger_result" where
  "save_draft P c B i fx functional evidence version key hash supersedes =
     bindE (map_errorE SubledgerDocument (build_document_snapshot (pf_formats P) (pf_decimal P)
       (pf_decision_hash P) (document_of i fx) functional)) (\<lambda>built.
     let s = built\<lparr>ds_evidence := evidence\<rparr>;
         row = document_version P c (document_kind_policy (di_kind i)) (di_source_number i) version
           DraftSource s key hash supersedes None in
     bindE (map_errorE SubledgerSetup (validate_draft_configuration (pf_formats P) (pf_setup P) s)) (\<lambda>_.
     bindE (append_source_document P c B row) (\<lambda>B'.
     bindE (record_from_row P row) (\<lambda>document. Inr (B', DraftSaved document False)))))"

definition draft_replay ::
  "'d platform \<Rightarrow> books \<Rightarrow> source_row \<Rightarrow> transitional_fingerprints \<Rightarrow> subledger_error + books \<times> subledger_result" where
  "draft_replay P B r prints =
     bindE (assert_idempotent_source r prints DraftSource) (\<lambda>_.
     bindE (record_from_row P r) (\<lambda>document. Inr (B, DraftSaved document True)))"

definition create_fingerprints ::
  "'d platform \<Rightarrow> owner_module \<Rightarrow> create_document \<Rightarrow> evidence_reference list
     \<Rightarrow> subledger_error + transitional_fingerprints" where
  "create_fingerprints P owner cmd evidence =
     (if evidence = [] then subledger_command_fingerprints P owner ''draft-create'' (CreateObject cmd)
      else bindE (canonical_hash P (PlainObj [(''command'', pf_object P (CreateObject cmd)),
             (''evidence'', pf_object P (EvidenceObject evidence))])) (\<lambda>h.
           Inr \<lparr>tfp_current = h, tfp_legacy = h\<rparr>))"

definition draft_permissions ::
  "'d platform \<Rightarrow> tenant_context \<Rightarrow> owner_module \<Rightarrow> document_line_input list \<Rightarrow> subledger_error + unit" where
  "draft_permissions P c owner ls =
     bindE (assert_permission P c (permission_for_owner owner ManageOperation)) (\<lambda>_.
     if draft_requires_source_tax_review ls then assert_permission P c OverrideTaxDeterminations else Inr ())"

definition create_business_document_draft_in_transaction ::
  "'d platform \<Rightarrow> tenant_context \<Rightarrow> create_document \<Rightarrow> evidence_reference list \<Rightarrow> books
     \<Rightarrow> subledger_error + books \<times> subledger_result" where
  "create_business_document_draft_in_transaction P c unparsed evidence B =
     bindE (writes_enabled P c) (\<lambda>_.
     bindE (option_to_result InvalidCommand (parse_create_document (pf_formats P) (pf_decimal P) unparsed)) (\<lambda>cmd.
     let policy = document_kind_policy (di_kind cmd); owner = dp_owner policy in
     bindE (subledger_operation_key P owner ''draft-create'' (cd_idempotency cmd)) (\<lambda>key.
     bindE (require (evidence_references_ok (pf_formats P) evidence) InvalidCommand) (\<lambda>_.
     bindE (create_fingerprints P owner cmd evidence) (\<lambda>prints.
     bindE (writable_organization P c) (\<lambda>_.
     bindE (draft_permissions P c owner (di_lines cmd)) (\<lambda>_.
     case find_source_by_idempotency B key of
       Some r \<Rightarrow> draft_replay P B r prints
     | None \<Rightarrow>
         bindE (throw_if (current_source_document B (dp_source_type policy) (di_source_number cmd) \<noteq> None)
           NumberInUse) (\<lambda>_.
         bindE (map_errorE SubledgerSetup (load_accounting_setup (pf_setup P) (di_ledger cmd) (di_entity cmd)
           (di_period cmd) (di_party cmd))) (\<lambda>setup.
         bindE (resolve_document_fx P (di_currency cmd) (as_functional setup) (di_accounting_date cmd)
           (dr_fx cmd)) (\<lambda>fx.
         save_draft P c B cmd fx (as_functional setup) (if evidence = [] then None else Some evidence)
           1 key (tfp_current prints) None))))))))))"

definition create_business_document_draft ::
  "'d platform \<Rightarrow> tenant_context \<Rightarrow> create_document \<Rightarrow> books \<Rightarrow> subledger_error + books \<times> subledger_result" where
  "create_business_document_draft P c cmd B =
     bindE (begin_subledger P c) (\<lambda>_. create_business_document_draft_in_transaction P c cmd [] B)"

text \<open>The document snapshot of the current version, when it is one.\<close>

definition prior_document :: "source_row \<Rightarrow> document_snapshot option" where
  "prior_document r = (case so_snapshot r of DocumentSnapshot s \<Rightarrow> Some s | SettlementSnapshot _ \<Rightarrow> None)"

definition edit_fx ::
  "'d platform \<Rightarrow> edit_document \<Rightarrow> string \<Rightarrow> document_snapshot option \<Rightarrow> subledger_error + fx_snapshot" where
  "edit_fx P cmd functional prior =
     bindE (edit_fx_resolution_action (pf_decimal P) (pf_clock P) (ed_fx_mode cmd) (dr_fx cmd)
       (map_option ds_fx prior)
       (\<exists>s \<in> set_option prior. ds_currency s = di_currency cmd \<and> ds_functional s = functional
          \<and> ds_accounting_date s = di_accounting_date cmd)) (\<lambda>action.
     case (action, prior) of
       (PreserveFx, Some s) \<Rightarrow> Inr (ds_fx s)
     | _ \<Rightarrow> resolve_document_fx P (di_currency cmd) functional (di_accounting_date cmd)
              (if action = ExplicitFx then dr_fx cmd else None))"

definition edit_business_document_draft ::
  "'d platform \<Rightarrow> tenant_context \<Rightarrow> edit_document \<Rightarrow> books \<Rightarrow> subledger_error + books \<times> subledger_result" where
  "edit_business_document_draft P c unparsed B =
     bindE (writes_enabled P c) (\<lambda>_.
     bindE (option_to_result InvalidCommand (parse_edit_document (pf_formats P) (pf_decimal P) unparsed)) (\<lambda>cmd.
     let policy = document_kind_policy (di_kind cmd); owner = dp_owner policy in
     bindE (subledger_operation_key P owner ''draft-edit'' (ed_idempotency cmd)) (\<lambda>key.
     bindE (subledger_command_fingerprints P owner ''draft-edit'' (EditObject cmd)) (\<lambda>prints.
     bindE (begin_subledger P c) (\<lambda>_.
     bindE (writable_organization P c) (\<lambda>_.
     bindE (draft_permissions P c owner (di_lines cmd)) (\<lambda>_.
     case find_source_by_idempotency B key of
       Some r \<Rightarrow> draft_replay P B r prints
     | None \<Rightarrow>
         bindE (option_to_result NotCurrentVersion
           (current_source_document B (dp_source_type policy) (di_source_number cmd))) (\<lambda>current.
         bindE (require (so_status current = DraftSource \<and> so_version current = ed_version cmd)
           NotCurrentVersion) (\<lambda>_.
         bindE (map_errorE SubledgerSetup (load_accounting_setup (pf_setup P) (di_ledger cmd) (di_entity cmd)
           (di_period cmd) (di_party cmd))) (\<lambda>setup.
         bindE (record_from_row P current) (\<lambda>prior.
         bindE (edit_fx P cmd (as_functional setup) (prior_document prior)) (\<lambda>fx.
         save_draft P c B cmd fx (as_functional setup) (Option.bind (prior_document prior) ds_evidence)
           (so_version current + 1) key (tfp_current prints) (Some (so_id current))))))))))))))"

section \<open>Issuing\<close>

definition parse_issue_command :: "issue_command \<Rightarrow> issue_command option" where
  "parse_issue_command i = do {
     num \<leftarrow> source_number (ic_number i);
     version \<leftarrow> accept (\<lambda>n. 0 < n) (ic_version i);
     key \<leftarrow> idempotency_key (ic_key i);
     Some (i\<lparr>ic_number := num, ic_version := version, ic_key := key\<rparr>) }"

definition current_document_snapshot ::
  "'d platform \<Rightarrow> source_row \<Rightarrow> document_kind \<Rightarrow> subledger_error + document_snapshot" where
  "current_document_snapshot P current kind =
     (case so_snapshot current of
        SettlementSnapshot _ \<Rightarrow> Inl InvalidStoredSnapshot
      | DocumentSnapshot d \<Rightarrow>
          bindE (option_to_result InvalidStoredSnapshot
            (parse_document_snapshot (pf_formats P) (pf_decimal P) d)) (\<lambda>s.
          bindE (require (ds_kind s = kind \<and> ds_owner s = dp_owner (document_kind_policy kind))
            SnapshotMismatch) (\<lambda>_. Inr s)))"

definition issue_event_type :: "document_kind \<Rightarrow> string" where
  "issue_event_type k = (if k = SalesInvoice then ''SALES_INVOICE_ISSUED'' else ''SUPPLIER_BILL_ISSUED'')"

text \<open>The inserts after the checks: source version, tax snapshots, event, open item, journal.\<close>

definition post_document ::
  "'d platform \<Rightarrow> tenant_context \<Rightarrow> books \<Rightarrow> issue_command \<Rightarrow> source_row \<Rightarrow> document_snapshot
     \<Rightarrow> (string \<Rightarrow> pack_version_row option) \<Rightarrow> string \<Rightarrow> string \<Rightarrow> subledger_error + books \<times> subledger_result" where
  "post_document P c B cmd current s versions key hash =
     (let policy = document_kind_policy (ic_kind cmd); n = length (ds_lines s);
          row = document_version P c policy (ic_number cmd) (so_version current + 1) PostedSource s key hash
            (Some (so_id current)) None;
          source = so_id row; event = pf_random P (n + 1); item = pf_random P (n + 2) in
      bindE (append_source_document P c B row) (\<lambda>B1.
      bindE (insert_tax_determination_snapshots B1 (map (pf_random P) [1..<n + 1]) source s versions) (\<lambda>(taxes, B2).
      bindE (insert_subledger_event P c B2 \<lparr>se_id = event, se_ledger = ds_ledger s, se_party = ds_party s,
        se_source = source, se_type = issue_event_type (ds_kind s), se_version = int_text (so_version row)\<rparr>) (\<lambda>B3.
      bindE (insert_open_item B3 item s event) (\<lambda>B4.
      bindE (map_errorE SubledgerLines (build_issue_journal_lines (pf_decimal P) s event taxes)) (\<lambda>ls.
      bindE (insert_and_post_journal P c B4 (pf_random P (n + 3))
        \<lparr>jq_ledger = ds_ledger s, jq_entity = ds_entity s, jq_period = ds_period s,
         jq_type = dp_journal_type policy, jq_owner = dp_owner policy, jq_source = source,
         jq_event_key = dp_source_type policy @ '':'' @ source @ '':issued'', jq_key = key, jq_command_hash = hash,
         jq_purpose = RoutineEntry, jq_date = ds_accounting_date s, jq_functional = ds_functional s,
         jq_description = ds_description s\<rparr> ls) (\<lambda>(num, B5).
      bindE (record_from_row P row) (\<lambda>document.
      Inr (B5, DocumentIssued document False (pf_random P (n + 3)) num event item)))))))))"

definition issue_business_document ::
  "'d platform \<Rightarrow> tenant_context \<Rightarrow> issue_command \<Rightarrow> books \<Rightarrow> subledger_error + books \<times> subledger_result" where
  "issue_business_document P c unparsed B =
     bindE (writes_enabled P c) (\<lambda>_.
     bindE (option_to_result InvalidCommand (parse_issue_command unparsed)) (\<lambda>cmd.
     let policy = document_kind_policy (ic_kind cmd); owner = dp_owner policy in
     bindE (subledger_operation_key P owner ''issue'' (ic_key cmd)) (\<lambda>key.
     bindE (subledger_command_fingerprints P owner ''issue'' (IssueObject cmd)) (\<lambda>prints.
     bindE (begin_subledger P c) (\<lambda>_.
     bindE (writable_organization P c) (\<lambda>_.
     bindE (assert_permission P c (permission_for_owner owner PostOperation)) (\<lambda>_.
     bindE (assert_permission P c PostJournal) (\<lambda>_.
     case find_source_by_idempotency B key of
       Some r \<Rightarrow>
         bindE (assert_idempotent_source r prints PostedSource) (\<lambda>_.
         bindE (issued_replay_result P B r) (\<lambda>result. Inr (B, result)))
     | None \<Rightarrow>
         bindE (option_to_result NotCurrentVersion
           (current_source_document B (dp_source_type policy) (ic_number cmd))) (\<lambda>current.
         bindE (require (so_status current = DraftSource \<and> so_version current = ic_version cmd)
           NotCurrentVersion) (\<lambda>_.
         bindE (current_document_snapshot P current (ic_kind cmd)) (\<lambda>s.
         bindE (if list_ex (\<lambda>l. ti_override (sl_tax l) \<noteq> None \<or> ti_rounding (sl_tax l) \<noteq> None) (ds_lines s)
           then assert_permission P c OverrideTaxDeterminations else Inr ()) (\<lambda>_.
         bindE (map_errorE SubledgerTax (assert_snapshot_tax_current (pf_decimal P) (pf_decision_hash P) s)) (\<lambda>_.
         bindE (map_errorE SubledgerSetup (validate_draft_configuration (pf_formats P) (pf_setup P) s)) (\<lambda>_.
         bindE (map_errorE SubledgerSetup (load_tax_pack_versions (pf_setup P) s)) (\<lambda>versions.
         post_document P c B cmd current s versions key (tfp_current prints))))))))))))))))"

section \<open>Settlements\<close>

definition with_funding :: "settlement_command \<Rightarrow> settlement_error + settlement_command" where
  "with_funding c =
     bindE (map_errorE FundingRejected (normalize_settlement_funding (funding_of c))) (\<lambda>f.
     Inr (c\<lparr>sc_bank := fs_bank f, sc_settlement := fs_settlement f, sc_method := fs_method f\<rparr>))"

text \<open>\<open>{ ...unresolvedCommand, fx }\<close> before and after it is parsed.\<close>

definition resolved_of :: "settlement_command \<Rightarrow> fx_snapshot \<Rightarrow> resolved_settlement" where
  "resolved_of c x = settlement_fields.extend (settlement_fields.truncate c) (resolved_settlement.fields x)"

definition command_of :: "resolved_settlement \<Rightarrow> settlement_command" where
  "command_of r =
     settlement_fields.extend (settlement_fields.truncate r) (settlement_command.fields (Some (rs_fx r)))"

definition settlement_version ::
  "'d platform \<Rightarrow> tenant_context \<Rightarrow> settlement_policy \<Rightarrow> string \<Rightarrow> int \<Rightarrow> source_status \<Rightarrow> settlement_snapshot
     \<Rightarrow> string \<Rightarrow> string \<Rightarrow> string option \<Rightarrow> string option \<Rightarrow> source_row" where
  "settlement_version P c policy num version status s key hash supersedes reason =
     \<lparr>so_id = pf_random P 0, so_entity = ss_entity s, so_owner = sp_owner policy,
      so_type = sp_source_type policy, so_number = num, so_version = version, so_status = status,
      so_snapshot = SettlementSnapshot s, so_content_hash = pf_content_hash P (SettlementSnapshot s),
      so_key = key, so_command_hash = hash, so_supersedes = supersedes, so_created_by = ctx_actor c,
      so_void_reason = reason\<rparr>"

definition settlement_event_type :: "settlement_kind \<Rightarrow> string" where
  "settlement_event_type k =
     (if k = CustomerReceipt then ''CUSTOMER_RECEIPT_RECORDED'' else ''SUPPLIER_PAYMENT_RECORDED'')"

text \<open>The checks of the resolved command against the configuration.\<close>

definition check_settlement ::
  "'d platform \<Rightarrow> settlement_command \<Rightarrow> accounting_setup \<Rightarrow> subledger_error + unit" where
  "check_settlement P cmd setup =
     bindE (map_errorE SubledgerSetup (assert_routine_setup setup (sc_accounting_date cmd) (sc_currency cmd)
       (sp_role (settlement_kind_policy (sc_kind cmd))))) (\<lambda>_.
     bindE (if sc_currency cmd = as_functional setup
       then bindE (map_errorE (SubledgerSettlement \<circ> SettlementMoney)
              (case sc_fx cmd of None \<Rightarrow> Inl InvalidDecimal | Some x \<Rightarrow> exact (pf_decimal P) (TextIn (fx_rate x)))) (\<lambda>r.
            require (dec_eq (pf_decimal P) r (dec_int (pf_decimal P) 1)) FunctionalRateMustBeOne)
       else Inr ()) (\<lambda>_.
     bindE (map_errorE (SubledgerSetup \<circ> SetupFunding) (resolve_settlement_funding (funding_of cmd))) (\<lambda>funding.
     bindE (map_errorE SubledgerSetup (load_account_combinations (pf_setup P) (sc_ledger cmd) (sc_entity cmd)
       (sc_accounting_date cmd) (settlement_references cmd setup funding))) (\<lambda>combinations.
     map_errorE SubledgerSetup (assert_settlement_mappings cmd setup combinations)))))"

text \<open>The inserts: source, event, allocations, journal.\<close>

definition post_settlement ::
  "'d platform \<Rightarrow> tenant_context \<Rightarrow> books \<Rightarrow> settlement_command \<Rightarrow> string \<Rightarrow> settlement_snapshot
     \<Rightarrow> calculated_allocation list \<Rightarrow> string \<Rightarrow> string \<Rightarrow> subledger_error + books \<times> subledger_result" where
  "post_settlement P c B cmd functional s as key hash =
     (let policy = settlement_kind_policy (sc_kind cmd); n = length as;
          row = settlement_version P c policy (sc_source_number cmd) 1 PostedSource s key hash None None;
          source = so_id row; event = pf_random P 1; ids = map (pf_random P) [2..<n + 2] in
      bindE (append_source_document P c B row) (\<lambda>B1.
      bindE (insert_subledger_event P c B1 \<lparr>se_id = event, se_ledger = sc_ledger cmd, se_party = sc_party cmd,
        se_source = source, se_type = settlement_event_type (sc_kind cmd), se_version = int_text 1\<rparr>) (\<lambda>B2.
      bindE (insert_settlement_allocations P c B2 ids source s as key hash) (\<lambda>B3.
      bindE (map_errorE SubledgerSettlement (build_settlement_journal_lines (pf_decimal P) s as event)) (\<lambda>ls.
      bindE (insert_and_post_journal P c B3 (pf_random P (n + 2))
        \<lparr>jq_ledger = sc_ledger cmd, jq_entity = sc_entity cmd, jq_period = sc_period cmd,
         jq_type = sp_journal_type policy, jq_owner = sp_owner policy, jq_source = source,
         jq_event_key = sp_source_type policy @ '':'' @ source @ '':settled'', jq_key = key, jq_command_hash = hash,
         jq_purpose = RoutineEntry, jq_date = sc_accounting_date cmd, jq_functional = functional,
         jq_description = sc_description cmd\<rparr> ls) (\<lambda>(num, B4).
      bindE (record_from_row P row) (\<lambda>document.
      Inr (B4, SettlementRecorded document False (pf_random P (n + 2)) num event ids))))))))"

definition record_settlement ::
  "'d platform \<Rightarrow> tenant_context \<Rightarrow> settlement_command \<Rightarrow> books \<Rightarrow> subledger_error + books \<times> subledger_result" where
  "record_settlement P c unparsed B =
     (let D = pf_decimal P; F = pf_formats P in
      bindE (writes_enabled P c) (\<lambda>_.
      bindE (option_to_result InvalidCommand (parse_settlement_command F D unparsed)) (\<lambda>parsed.
      bindE (map_errorE SubledgerSettlement (with_funding parsed)) (\<lambda>unresolved.
      bindE (map_errorE SubledgerSettlement (assert_settlement_command_amounts D unresolved)) (\<lambda>_.
      let policy = settlement_kind_policy (sc_kind unresolved); owner = sp_owner policy in
      bindE (subledger_operation_key P owner ''settlement'' (sc_idempotency unresolved)) (\<lambda>key.
      bindE (subledger_command_fingerprints P owner ''settlement'' (SettleObject unresolved)) (\<lambda>prints.
      bindE (begin_subledger P c) (\<lambda>_.
      bindE (writable_organization P c) (\<lambda>_.
      bindE (assert_permission P c (permission_for_owner owner SettleOperation)) (\<lambda>_.
      bindE (assert_permission P c PostJournal) (\<lambda>_.
      case find_source_by_idempotency B key of
        Some r \<Rightarrow>
          bindE (assert_idempotent_source r prints PostedSource) (\<lambda>_.
          bindE (settlement_replay_result P B r) (\<lambda>result. Inr (B, result)))
      | None \<Rightarrow>
          bindE (throw_if (current_source_document B (sp_source_type policy) (sc_source_number unresolved) \<noteq> None)
            NumberInUse) (\<lambda>_.
          bindE (map_errorE SubledgerSetup (load_accounting_setup (pf_setup P) (sc_ledger unresolved)
            (sc_entity unresolved) (sc_period unresolved) (sc_party unresolved))) (\<lambda>setup.
          bindE (resolve_document_fx P (sc_currency unresolved) (as_functional setup)
            (sc_settlement_date unresolved) (sc_fx unresolved)) (\<lambda>fx.
          bindE (option_to_result InvalidCommand (parse_resolved_settlement F D (resolved_of unresolved fx))) (\<lambda>resolved.
          let cmd = command_of resolved in
          bindE (check_settlement P cmd setup) (\<lambda>_.
          bindE (lock_settlement_open_items B (map al_open_item (sc_allocations cmd))) (\<lambda>items.
          bindE (map_errorE SubledgerSettlement (calculate_settlement_allocations D
            (\<lambda>t. fc_parse (pf_clock P) t \<noteq> None) cmd items (as_functional setup))) (\<lambda>as.
          bindE (map_errorE SubledgerSettlement (build_settlement_snapshot F D cmd (as_functional setup) as)) (\<lambda>s.
          post_settlement P c B cmd (as_functional setup) s as key (tfp_current prints))))))))))))))))))))"

section \<open>Voids\<close>

definition parse_void_command :: "schema_formats \<Rightarrow> 'k void_command \<Rightarrow> 'k void_command option" where
  "parse_void_command F v = do {
     num \<leftarrow> source_number (vc_number v);
     version \<leftarrow> accept (\<lambda>n. 0 < n) (vc_version v);
     period \<leftarrow> accept (is_uuid F) (vc_period v);
     date \<leftarrow> accept (is_iso_date F) (vc_date v);
     reason \<leftarrow> trimmed_text 5 500 (vc_reason v);
     description \<leftarrow> trimmed_text 1 500 (vc_description v);
     key \<leftarrow> idempotency_key (vc_key v);
     Some (v\<lparr>vc_number := num, vc_version := version, vc_period := period, vc_date := date,
       vc_reason := reason, vc_description := description, vc_key := key\<rparr>) }"

text \<open>The period of a reversal, and the permission an adjustment period asks for.\<close>

definition check_reversal_period ::
  "'d platform \<Rightarrow> tenant_context \<Rightarrow> accounting_setup \<Rightarrow> string \<Rightarrow> subledger_error + unit" where
  "check_reversal_period P c setup date =
     bindE (throw_if (as_period_state setup = HardClosed \<or> as_period_state setup = Sealed)
       ReversalNeedsOpenPeriod) (\<lambda>_.
     bindE (throw_if (date < as_starts setup \<or> date > as_ends setup) (SubledgerSetup DateOutsidePeriod)) (\<lambda>_.
     if as_period_state setup = AdjustmentOnly then assert_permission P c PostAdjustment else Inr ()))"

definition void_journal_type :: "document_kind \<Rightarrow> string" where
  "void_journal_type k = (if k = SalesInvoice then ''receivables.invoice-void'' else ''payables.bill-void'')"

definition reverse_document ::
  "'d platform \<Rightarrow> tenant_context \<Rightarrow> books \<Rightarrow> source_row \<Rightarrow> document_snapshot \<Rightarrow> document_kind void_command
     \<Rightarrow> string \<Rightarrow> string \<Rightarrow> subledger_error + books \<times> subledger_result" where
  "reverse_document P c B current s cmd key hash =
     (let policy = document_kind_policy (vc_kind cmd);
          row = document_version P c policy (vc_number cmd) (so_version current + 1) VoidedSource s key hash
            (Some (so_id current)) (Some (vc_reason cmd)) in
      bindE (lock_document_open_item_for_void B (so_id current)) (\<lambda>item.
      bindE (load_original_posted_journal B (so_id current) (dp_journal_type policy)) (\<lambda>(original, originals).
      bindE (append_source_document P c B row) (\<lambda>B1.
      bindE (insert_and_post_journal P c B1 (pf_random P 1)
        \<lparr>jq_ledger = ds_ledger s, jq_entity = ds_entity s, jq_period = vc_period cmd,
         jq_type = void_journal_type (vc_kind cmd), jq_owner = dp_owner policy, jq_source = so_id current,
         jq_event_key = dp_source_type policy @ '':'' @ so_id row @ '':void'', jq_key = key,
         jq_command_hash = hash, jq_purpose = ReversalEntry, jq_date = vc_date cmd,
         jq_functional = ds_functional s, jq_description = vc_description cmd\<rparr>
        (reverse_journal_lines (pf_time_text P) originals)) (\<lambda>(num, B2).
      bindE (insert_relation B2 (pf_random P 1) (je_id original) (vc_reason cmd)) (\<lambda>B3.
      bindE (insert_open_item_void P c B3 \<lparr>vd_id = pf_random P (length originals + 2), vd_ledger = ds_ledger s, vd_item = item,
        vd_source = so_id row, vd_effective_on = vc_date cmd, vd_reason = vc_reason cmd, vd_key = key,
        vd_command_hash = hash, vd_created_by = ctx_actor c\<rparr>) (\<lambda>B4.
      bindE (record_from_row P row) (\<lambda>document.
      Inr (B4, DocumentVoided document False (pf_random P 1) num (pf_random P (length originals + 2)))))))))))"

definition void_issued_business_document ::
  "'d platform \<Rightarrow> tenant_context \<Rightarrow> document_kind void_command \<Rightarrow> books
     \<Rightarrow> subledger_error + books \<times> subledger_result" where
  "void_issued_business_document P c unparsed B =
     bindE (writes_enabled P c) (\<lambda>_.
     bindE (option_to_result InvalidCommand (parse_void_command (pf_formats P) unparsed)) (\<lambda>cmd.
     bindE (require (ctx_reason c = Some (vc_reason cmd)) VoidReasonNotBound) (\<lambda>_.
     let policy = document_kind_policy (vc_kind cmd); owner = dp_owner policy in
     bindE (subledger_operation_key P owner ''void'' (vc_key cmd)) (\<lambda>key.
     bindE (subledger_command_fingerprints P owner ''void'' (VoidObject cmd)) (\<lambda>prints.
     bindE (begin_subledger P c) (\<lambda>_.
     bindE (writable_organization P c) (\<lambda>_.
     bindE (assert_permission P c (permission_for_owner owner VoidOperation)) (\<lambda>_.
     bindE (assert_permission P c PostJournal) (\<lambda>_.
     case find_source_by_idempotency B key of
       Some r \<Rightarrow>
         bindE (assert_idempotent_source r prints VoidedSource) (\<lambda>_.
         bindE (void_replay_result P B r key) (\<lambda>result. Inr (B, result)))
     | None \<Rightarrow>
         bindE (option_to_result NotCurrentVersion
           (current_source_document B (dp_source_type policy) (vc_number cmd))) (\<lambda>current.
         bindE (require (so_status current = PostedSource \<and> so_version current = vc_version cmd)
           NotCurrentVersion) (\<lambda>_.
         bindE (current_document_snapshot P current (vc_kind cmd)) (\<lambda>s.
         bindE (map_errorE SubledgerSetup (load_accounting_setup (pf_setup P) (ds_ledger s) (ds_entity s)
           (vc_period cmd) (ds_party s))) (\<lambda>setup.
         bindE (check_reversal_period P c setup (vc_date cmd)) (\<lambda>_.
         reverse_document P c B current s cmd key (tfp_current prints)))))))))))))))"

definition current_settlement_snapshot ::
  "'d platform \<Rightarrow> source_row \<Rightarrow> settlement_kind \<Rightarrow> subledger_error + settlement_snapshot" where
  "current_settlement_snapshot P current kind =
     (case so_snapshot current of
        DocumentSnapshot _ \<Rightarrow> Inl InvalidStoredSnapshot
      | SettlementSnapshot d \<Rightarrow>
          bindE (option_to_result InvalidStoredSnapshot
            (parse_settlement_snapshot (pf_formats P) (pf_decimal P) d)) (\<lambda>s.
          bindE (require (ss_kind s = kind \<and> ss_owner s = sp_owner (settlement_kind_policy kind))
            SnapshotMismatch) (\<lambda>_. Inr s)))"

definition reverse_settlement ::
  "'d platform \<Rightarrow> tenant_context \<Rightarrow> books \<Rightarrow> source_row \<Rightarrow> settlement_snapshot \<Rightarrow> settlement_kind void_command
     \<Rightarrow> string \<Rightarrow> string \<Rightarrow> subledger_error + books \<times> subledger_result" where
  "reverse_settlement P c B current s cmd key hash =
     (let policy = settlement_kind_policy (vc_kind cmd);
          row = settlement_version P c policy (vc_number cmd) (so_version current + 1) VoidedSource s key hash
            (Some (so_id current)) (Some (vc_reason cmd)) in
      bindE (load_original_settlement_allocations B (so_id current)) (\<lambda>allocations.
      bindE (load_original_posted_journal B (so_id current) (sp_journal_type policy)) (\<lambda>(original, originals).
      let n = length allocations; ids = map (pf_random P) [1..<n + 1] in
      bindE (append_source_document P c B row) (\<lambda>B1.
      bindE (insert_exact_allocation_reversals P c B1 ids (ss_ledger s) (so_id row) (vc_date cmd) allocations
        key hash) (\<lambda>B2.
      bindE (insert_and_post_journal P c B2 (pf_random P (n + 1))
        \<lparr>jq_ledger = ss_ledger s, jq_entity = ss_entity s, jq_period = vc_period cmd,
         jq_type = sp_journal_type policy, jq_owner = sp_owner policy, jq_source = so_id current,
         jq_event_key = sp_source_type policy @ '':'' @ so_id row @ '':void'', jq_key = key,
         jq_command_hash = hash, jq_purpose = ReversalEntry, jq_date = vc_date cmd,
         jq_functional = ss_functional s, jq_description = vc_description cmd\<rparr>
        (reverse_journal_lines (pf_time_text P) originals)) (\<lambda>(num, B3).
      bindE (insert_relation B3 (pf_random P (n + 1)) (je_id original) (vc_reason cmd)) (\<lambda>B4.
      bindE (record_from_row P row) (\<lambda>document.
      Inr (B4, SettlementVoided document False (pf_random P (n + 1)) num ids)))))))))"

definition void_settlement_and_reverse_allocations ::
  "'d platform \<Rightarrow> tenant_context \<Rightarrow> settlement_kind void_command \<Rightarrow> books
     \<Rightarrow> subledger_error + books \<times> subledger_result" where
  "void_settlement_and_reverse_allocations P c unparsed B =
     bindE (writes_enabled P c) (\<lambda>_.
     bindE (option_to_result InvalidCommand (parse_void_command (pf_formats P) unparsed)) (\<lambda>cmd.
     bindE (require (ctx_reason c = Some (vc_reason cmd)) VoidReasonNotBound) (\<lambda>_.
     let policy = settlement_kind_policy (vc_kind cmd); owner = sp_owner policy in
     bindE (subledger_operation_key P owner ''settlement-void'' (vc_key cmd)) (\<lambda>key.
     bindE (subledger_command_fingerprints P owner ''settlement-void'' (SettlementVoidObject cmd)) (\<lambda>prints.
     bindE (begin_subledger P c) (\<lambda>_.
     bindE (writable_organization P c) (\<lambda>_.
     bindE (assert_permission P c (permission_for_owner owner VoidOperation)) (\<lambda>_.
     bindE (assert_permission P c PostJournal) (\<lambda>_.
     case find_source_by_idempotency B key of
       Some r \<Rightarrow>
         bindE (assert_idempotent_source r prints VoidedSource) (\<lambda>_.
         bindE (void_settlement_replay_result P B r key) (\<lambda>result. Inr (B, result)))
     | None \<Rightarrow>
         bindE (option_to_result NotCurrentVersion
           (current_source_document B (sp_source_type policy) (vc_number cmd))) (\<lambda>current.
         bindE (require (so_status current = PostedSource \<and> so_version current = vc_version cmd)
           NotCurrentVersion) (\<lambda>_.
         bindE (current_settlement_snapshot P current (vc_kind cmd)) (\<lambda>s.
         bindE (map_errorE SubledgerSetup (load_accounting_setup (pf_setup P) (ss_ledger s) (ss_entity s)
           (vc_period cmd) (ss_party s))) (\<lambda>setup.
         bindE (check_reversal_period P c setup (vc_date cmd)) (\<lambda>_.
         reverse_settlement P c B current s cmd key (tfp_current prints)))))))))))))))"

end
