(* ===== verification/SubledgerHistory.thy ===== *)
theory SubledgerHistory
  imports SubledgerBooks SubledgerCommands
begin

text \<open>
  Histories of the subledger.  Each command of \<open>SubledgerCommands\<close> that succeeds is a
  \<open>books_move\<close>, so the invariant of \<open>SubledgerBooks\<close> holds in every state a history of
  commands reaches from empty books.
\<close>

section \<open>Amounts on their way to the database and back\<close>

lemma numeric_input_text:
  "text_amount s x \<Longrightarrow> numeric_input k s = Inr q \<Longrightarrow> q = half_up k x"
  by (auto simp: numeric_input_def Let_def bindE_Inr_iff throw_if_Inr_iff)

lemma numeric_input_exact:
  "text_amount s x \<Longrightarrow> scaled k x \<Longrightarrow> numeric_input k s = Inr q \<Longrightarrow> q = x"
  using numeric_input_text half_up_id by metis

lemma numeric_input_scaled: "numeric_input k s = Inr q \<Longrightarrow> scaled k q"
  by (auto simp: numeric_input_def Let_def bindE_Inr_iff throw_if_Inr_iff split: option.splits)

lemma numeric_output_text:
  assumes "scaled 9 q" shows "text_amount (numeric_output q) q"
proof -
  have s: "scaled 9 \<bar>q\<bar>" using assms by (rule scaled_abs)
  have "0 \<le> \<lfloor>\<bar>q\<bar> * 10 ^ 9\<rfloor>" by simp
  from plain_value_text [OF this, of "q < 0" 9] show ?thesis
    using scaled_floor_div [OF s] by (auto simp: numeric_output_def)
qed

lemma stored_line_Inr:
  assumes "stored_line_of l = Inr b"
  shows "numeric_input 9 (ln_debit_functional l) = Inr (bl_debit_functional b)"
    "numeric_input 9 (ln_credit_functional l) = Inr (bl_credit_functional b)" "bl_party b = ln_party l" "scaled_line b"
proof -
  show "numeric_input 9 (ln_debit_functional l) = Inr (bl_debit_functional b)"
    "numeric_input 9 (ln_credit_functional l) = Inr (bl_credit_functional b)" "bl_party b = ln_party l"
    using assms by (auto simp: stored_line_of_def bindE_Inr_iff)
  then show "scaled_line b" by (simp add: scaled_line_def numeric_input_scaled)
qed

lemma stored_lines_scaled: "mapE stored_line_of ls = Inr bs \<Longrightarrow> list_all scaled_line bs"
  by (induction ls arbitrary: bs) (auto simp: bindE_Inr_iff intro: stored_line_Inr(4))

lemma party_total_simps [simp]: "party_total p [] = 0" "party_total p (l # ls) = line_party_amount p l + party_total p ls"
  "party_total p (ls @ ms) = party_total p ls + party_total p ms"
  by (simp_all add: party_total_def)

lemma unparty_total:
  "mapE stored_line_of ls = Inr bs \<Longrightarrow> \<forall>l \<in> set ls. ln_party l = None \<Longrightarrow> party_total p bs = 0"
  by (induction ls arbitrary: bs) (auto simp: bindE_Inr_iff line_party_amount_def stored_line_Inr(3))

text \<open>A reversal books the opposite of the journal it reverses.\<close>

lemma reversal_party_total:
  assumes "mapE stored_line_of (reverse_journal_lines f (map original_line_of ls)) = Inr bs" "list_all scaled_line ls"
  shows "party_total p bs = - party_total p ls"
  using assms
proof (induction ls arbitrary: bs)
  case (Cons l ls)
  obtain b bs' where b: "stored_line_of (reverse_line f (original_line_of l)) = Inr b" "bs = b # bs'"
    "mapE stored_line_of (reverse_journal_lines f (map original_line_of ls)) = Inr bs'"
    using Cons.prems(1) by (auto simp: reverse_journal_lines_def bindE_Inr_iff)
  have sc: "scaled 9 (bl_debit_functional l)" "scaled 9 (bl_credit_functional l)"
    using Cons.prems(2) by (auto simp: scaled_line_def)
  have "line_party_amount p b = - line_party_amount p l"
  proof -
    note st = stored_line_Inr [OF b(1)]
    have "bl_debit_functional b = bl_credit_functional l" "bl_credit_functional b = bl_debit_functional l"
      using numeric_input_exact [OF numeric_output_text [OF sc(2)] sc(2)] st(1)
        numeric_input_exact [OF numeric_output_text [OF sc(1)] sc(1)] st(2)
      by (simp_all add: reverse_line_def original_line_of_def)
    then show ?thesis using st(3) by (simp add: line_party_amount_def reverse_line_def original_line_of_def)
  qed
  then show ?case using Cons.IH [OF b(3)] Cons.prems(2) b(2) by simp
qed (simp add: reverse_journal_lines_def)

section \<open>The lines that name a party\<close>

context decimal_lib
begin

lemma transaction_line_party: "transaction_line D r = Inr l \<Longrightarrow> ln_party l = tr_party r"
  by (auto elim!: transaction_line_Inr)

lemma converted_line_amount:
  assumes "line_converts rnd m l" "m \<le> 9" "stored_line_of l = Inr b"
  shows "line_party_amount p b = (if ln_party l = Some p then line_functional l else 0)"
proof -
  note st = stored_line_Inr [OF assms(3)] and t = line_converts_texts [OF assms(1)]
  have "bl_debit_functional b = text_value (ln_debit_functional l)" "bl_credit_functional b = text_value (ln_credit_functional l)"
    using numeric_input_exact [OF t(1) scaled_le [OF t(3) assms(2)] st(1)]
      numeric_input_exact [OF t(2) scaled_le [OF t(4) assms(2)] st(2)] by simp_all
  then show ?thesis using st(3) by (simp add: line_party_amount_def line_functional_def)
qed

lemma unparty_request: "tr_party (document_line_request s sd ac am tx me) = None"
  by (simp add: document_line_request_def)

lemma signed_transaction_line_party: "signed_transaction_line D r = Inr l \<Longrightarrow> ln_party l = tr_party r"
  by (auto simp: signed_transaction_line_def bindE_Inr_iff dest: transaction_line_party)

lemma source_entries_unparty:
  assumes "source_line_entries D s txs l = Inr ls" shows "\<forall>x \<in> set ls. ln_party x = None"
  using assms
  by (auto simp: source_line_entries_def Let_def sales_line_entries_def bill_line_entries_def signed_tax_entry_def
      bindE_Inr_iff unparty_request dest!: transaction_line_party signed_transaction_line_party split: if_splits)

lemma entries_unparty:
  "mapE (source_line_entries D s txs) ls = Inr ess \<Longrightarrow> \<forall>x \<in> set (concat ess). ln_party x = None"
proof (induction ls arbitrary: ess)
  case (Cons l ls)
  then obtain es ess' where e: "source_line_entries D s txs l = Inr es"
    "mapE (source_line_entries D s txs) ls = Inr ess'" "ess = es # ess'"
    by (auto simp: bindE_Inr_iff)
  show ?case using source_entries_unparty [OF e(1)] Cons.IH [OF e(2)] e(3) by auto
qed simp

lemma balance_unparty:
  assumes "balance_journal_lines D ls b = Inr out"
  obtains rounding where "out = ls @ rounding" "\<forall>x \<in> set rounding. ln_party x = None"
  using assms
  by (auto simp: balance_journal_lines_def Let_def bindE_Inr_iff split: if_splits dest!: transaction_line_party)

lemma issue_party_total:
  assumes ok: "build_issue_journal_lines D s event txs = Inr ls" and st: "mapE stored_line_of ls = Inr bs"
    and priced: "priced rnd s" and f: "numeric_input 9 (ds_gross_functional s) = Inr f"
  shows "party_total p bs = (if ds_party s = p then (if ds_kind s = SalesInvoice then 1 else - 1) * f else 0)"
proof -
  obtain control ess rounding where e: "control_line D s event = Inr control" "ls = control # concat ess @ rounding"
    "\<forall>x \<in> set (concat ess). ln_party x = None" "\<forall>x \<in> set rounding. ln_party x = None"
    using ok unfolding build_issue_journal_lines_def
    by (auto simp: bindE_Inr_iff elim!: balance_unparty dest!: entries_unparty)
  obtain b bs' where b: "stored_line_of control = Inr b" "mapE stored_line_of (concat ess @ rounding) = Inr bs'" "bs = b # bs'"
    using st e(2) by (auto simp: bindE_Inr_iff)
  have "party_total p bs' = 0" by (rule unparty_total [OF b(2)]) (use e(3,4) in auto)
  moreover obtain n m g r where pr: "minor_units (ds_currency s) = Inr n" "minor_units (ds_functional s) = Inr m"
    "text_amount (ds_gross s) g" "scaled n g" "text_amount (fx_rate (ds_fx s)) r"
    "text_amount (ds_gross_functional s) (half_up m (rnd (g * r)))"
    using priced by (auto simp: priced_def)
  have m9: "m \<le> 9" using minor_units_le_3 [OF pr(2)] by simp
  have fq: "f = half_up m (rnd (g * r))"
    by (rule numeric_input_exact [OF pr(6) _ f]) (rule scaled_le [OF half_up_scaled m9])
  let ?sd = "if ds_kind s = SalesInvoice then Debit else Credit"
  let ?r = "(document_line_request s ?sd (ds_control s) (TextIn (ds_gross s)) None
      (ds_source_number s @ '' '' @ party_role_text (dp_role (document_kind_policy (ds_kind s))) @ '' control''))
    \<lparr>tr_party := Some (ds_party s), tr_event := Some event\<rparr>"
  have c: "transaction_line D ?r = Inr control" using e(1) by (simp add: control_line_def)
  obtain gd where gd: "exact D (TextIn (ds_gross s)) = Inr gd" "val gd = g" using exact_text [OF pr(3)] by blast
  obtain rd where rd: "exact D (TextIn (fx_rate (ds_fx s))) = Inr rd" "val rd = r" using exact_text [OF pr(5)] by blast
  note t = transaction_line_ok [OF c, of gd n m]
  have "line_functional control = side_sign ?sd * f"
    using t(5) gd rd pr(1,2,4) fq by (auto simp: document_line_request_def simp del: exact.simps)
  moreover have "line_converts rnd m control" using t(1) gd pr(1,2,4) by (simp add: document_line_request_def del: exact.simps)
  moreover have "ln_party control = Some (ds_party s)" using transaction_line_party [OF c] by simp
  ultimately show ?thesis
    using converted_line_amount [OF _ m9 b(1), of p] b(3) by simp
qed

text \<open>A line for an open item books the carrying amount of the allocation to the settlement's party.\<close>

lemma open_item_line_amount:
  assumes ok: "open_item_line D s event a = Inr l" and st: "stored_line_of l = Inr b"
    and k: "money_string D v (ss_functional s) = Inr (ca_carrying a)" and c: "numeric_input 9 (ca_carrying a) = Inr c"
  shows "line_party_amount p b = (if ss_party s = p then (if ss_kind s = CustomerReceipt then - 1 else 1) * c else 0)"
  using ok unfolding open_item_line_def
proof (cases rule: transaction_line_Inr)
  case (1 transaction functional t f rate)
  obtain d m where d: "minor_units (ss_functional s) = Inr m" "text_amount (ca_carrying a) (half_up m (val d))"
    using money_string_Inr [OF k] by metis
  let ?k = "half_up m (val d)"
  have m9: "m \<le> 9" using minor_units_le_3 [OF d(1)] by simp
  have sc: "scaled 9 ?k" by (rule scaled_le [OF half_up_scaled m9])
  have ck: "c = ?k" by (rule numeric_input_exact [OF d(2) sc c])
  obtain e where e: "exact D (TextIn (ca_carrying a)) = Inr e" "val e = ?k" using exact_text [OF d(2)] by blast
  have "money_string D (TextIn (ca_carrying a)) (ss_functional s) = Inr functional" using 1(2) by simp
  then have ft: "text_amount functional ?k"
    using money_string_text [OF e(1) d(1)] half_up_id [OF half_up_scaled, of m "val d"] e(2) by auto
  note num = numeric_input_exact [OF ft sc] numeric_input_exact [OF zero_text]
  have s: "bl_party b = Some (ss_party s)" using stored_line_Inr(3) [OF st] 1(8) by simp
  show ?thesis
  proof (cases "ss_kind s = CustomerReceipt")
    case True
    then have "ln_debit_functional l = ''0''" "ln_credit_functional l = functional"
      using 1(8) by (simp_all add: funding_side_def)
    then have "bl_debit_functional b = 0" "bl_credit_functional b = ?k"
      using num stored_line_Inr(1,2) [OF st] by auto
    then show ?thesis using s ck True by (simp add: line_party_amount_def)
  next
    case False
    then have "ln_debit_functional l = functional" "ln_credit_functional l = ''0''"
      using 1(8) by (simp_all add: funding_side_def)
    then have "bl_debit_functional b = ?k" "bl_credit_functional b = 0"
      using num stored_line_Inr(1,2) [OF st] by auto
    then show ?thesis using s ck False by (simp add: line_party_amount_def)
  qed
qed

lemma open_item_lines_amount:
  assumes "mapE (open_item_line D s event) as = Inr ls" "mapE stored_line_of ls = Inr bs"
    and "\<forall>a \<in> set as. \<exists>v. money_string D v (ss_functional s) = Inr (ca_carrying a)"
    and "list_all2 (\<lambda>a c. numeric_input 9 (ca_carrying a) = Inr c) as cs"
  shows "party_total p bs = (if ss_party s = p then (if ss_kind s = CustomerReceipt then - 1 else 1) * sum_list cs else 0)"
  using assms(4,1,2,3)
proof (induction as cs arbitrary: ls bs rule: list_all2_induct)
  case (Cons a as c cs)
  obtain l ls' where l: "open_item_line D s event a = Inr l" "mapE (open_item_line D s event) as = Inr ls'" "ls = l # ls'"
    using Cons.prems(1) by (auto simp: bindE_Inr_iff)
  obtain b bs' where b: "stored_line_of l = Inr b" "mapE stored_line_of ls' = Inr bs'" "bs = b # bs'"
    using Cons.prems(2) l(3) by (auto simp: bindE_Inr_iff)
  obtain v where v: "money_string D v (ss_functional s) = Inr (ca_carrying a)" using Cons.prems(3) by auto
  have "party_total p bs' = (if ss_party s = p then (if ss_kind s = CustomerReceipt then - 1 else 1) * sum_list cs else 0)"
    by (rule Cons.IH [OF l(2) b(2)]) (use Cons.prems(3) in simp)
  then show ?case
    using open_item_line_amount [OF l(1) b(1) v Cons.hyps(1), of p] b(3) by (simp add: algebra_simps)
qed simp

lemma mapE_append_Inr:
  "mapE f (xs @ ys) = Inr zs \<Longrightarrow> \<exists>us vs. mapE f xs = Inr us \<and> mapE f ys = Inr vs \<and> zs = us @ vs"
  by (induction xs arbitrary: zs) (fastforce simp: bindE_Inr_iff)+

lemma settlement_party_total:
  assumes ok: "build_settlement_journal_lines D s as event = Inr ls" and st: "mapE stored_line_of ls = Inr bs"
    and as: "\<forall>a \<in> set as. \<exists>v. money_string D v (ss_functional s) = Inr (ca_carrying a)"
      "list_all2 (\<lambda>a c. numeric_input 9 (ca_carrying a) = Inr c) as cs"
  shows "party_total p bs = (if ss_party s = p then (if ss_kind s = CustomerReceipt then - 1 else 1) * sum_list cs else 0)"
proof -
  obtain funding account x paid items realized gl where e:
    "funding_line D s funding account = Inr paid" "mapE (open_item_line D s event) as = Inr items"
    "realized_fx_line D s realized = Inr gl"
    "balance_journal_lines D (paid # items @ gl) \<lparr>br_functional = ss_functional s, br_account = ss_rounding_account s,
        br_effective = fx_effective_at (ss_fx s), br_memo = ss_source_number s @ '' settlement FX rounding''\<rparr> = Inr ls"
    using ok unfolding build_settlement_journal_lines_def
    by (auto simp: bindE_Inr_iff map_errorE_Inr_iff simp del: exact.simps)
  have "\<forall>x \<in> set gl. ln_party x = None"
    using e(3) by (auto simp: realized_fx_line_def Let_def bindE_Inr_iff split: if_splits dest!: transaction_line_party)
  moreover obtain rounding where "ls = (paid # items @ gl) @ rounding" "\<forall>x \<in> set rounding. ln_party x = None"
    using balance_unparty [OF e(4)] .
  ultimately obtain rest where ls: "ls = paid # items @ rest" "\<forall>x \<in> set rest. ln_party x = None"
    by (intro that [of "gl @ rounding"]) auto
  have "ln_party paid = None" using e(1) by (auto simp: funding_line_def dest: transaction_line_party)
  moreover obtain b1 bs' where b1: "stored_line_of paid = Inr b1" "mapE stored_line_of (items @ rest) = Inr bs'" "bs = b1 # bs'"
    using st unfolding ls(1) by (auto simp: bindE_Inr_iff)
  moreover obtain b2 b3 where "mapE stored_line_of items = Inr b2" "mapE stored_line_of rest = Inr b3" "bs' = b2 @ b3"
    using mapE_append_Inr [OF b1(2)] by blast
  ultimately have b: "stored_line_of paid = Inr b1" "mapE stored_line_of items = Inr b2"
    "mapE stored_line_of rest = Inr b3" "bs = b1 # b2 @ b3" and "ln_party paid = None" by simp_all
  then have "line_party_amount p b1 = 0" "party_total p b3 = 0"
    using stored_line_Inr(3) [OF b(1)] unparty_total [OF b(3)] ls(2) by (auto simp: line_party_amount_def)
  then show ?thesis using open_item_lines_amount [OF e(2) b(2) as, of p] b(4) by simp
qed

section \<open>Drafts are priced\<close>

lemma priced_parse:
  assumes "parse_document_snapshot F D s = Some t" "priced rnd s" shows "priced rnd t"
proof -
  note p = parse_document_snapshot_Some [OF assms(1)]
  obtain r where r: "text_amount (fx_rate (ds_fx s)) r"
    using assms(2) by (auto simp: priced_def)
  have "fx_rate (ds_fx t) = trim (fx_rate (ds_fx s))"
    using p(9)
    by (auto simp: parse_fx_snapshot_def parse_fx_fields_def positive_rate_def trimmed_match_def bind_eq_Some_conv)
  then have "fx_rate (ds_fx t) = fx_rate (ds_fx s)" using plain_value_trim r by simp
  then show ?thesis using assms(2) by (simp add: priced_def p)
qed

text \<open>The amounts of a built document are whole, and so its functional gross is the rounded product.\<close>

lemma built_document_gross:
  assumes "build_document_snapshot F D H i functional = Inr s" "amounts_bounded i"
  obtains n m rate gross q t where "minor_units (ds_currency t) = Inr n" "scaled n (val gross)" "dec_finite D gross"
    "money_string D (DecIn gross) (ds_currency t) = Inr (ds_gross t)" "dec_finite D rate"
    "q = dec_times D gross rate" "money_string D (DecIn q) (ds_functional t) = Inr (ds_gross_functional t)"
    "minor_units (ds_functional t) = Inr m" "fx_rate (ds_fx t) = dec_plain D rate"
    "parse_document_snapshot F D t = Some s"
proof -
  obtain doc ls subtotal tax_total self_total rate q gross_text functional_text t where b:
    "parse_document_input F D i = Some doc" "mapE (build_line D H doc) (enumerate 1 (di_lines doc)) = Inr ls"
    "is_quantized_money D (TextIn ''0'') (di_currency doc) = Inr True"
    "is_quantized_money D (TextIn ''0'') (to_upper (trim functional)) = Inr True"
    "sum_exact D (map (\<lambda>l. TextIn (sl_net l)) ls) = Inr subtotal"
    "sum_exact D (map (\<lambda>l. TextIn (td_total_tax (sl_decision l))) ls) = Inr tax_total"
    "sum_exact D (map TextIn (self_assessed_amounts ls)) = Inr self_total"
    "exact D (TextIn (fx_rate (di_fx doc))) = Inr rate"
    "money_string D (DecIn (dec_minus D (dec_plus D subtotal tax_total) self_total)) (di_currency doc) = Inr gross_text"
    "times_literal D (dec_minus D (dec_plus D subtotal tax_total) self_total) (fx_rate (di_fx doc)) = Inr q"
    "money_string D (DecIn q) (to_upper (trim functional)) = Inr functional_text"
    "parse_document_snapshot F D t = Some s" "ds_currency t = di_currency doc" "ds_functional t = to_upper (trim functional)"
    "ds_gross t = gross_text" "ds_gross_functional t = functional_text" "fx_rate (ds_fx t) = dec_plain D rate"
    using assms(1) unfolding build_document_snapshot_def Let_def
    by (elim bindE_Inr_iff [THEN iffD1, THEN exE] conjE)
      (auto simp: throw_if_Inr_iff map_errorE_Inr_iff bindE_Inr_iff option_to_result_Inr_iff simp del: exact.simps
        split: if_splits)
  obtain n m where n: "minor_units (di_currency doc) = Inr n" and m: "minor_units (to_upper (trim functional)) = Inr m"
    using supported_currency [OF b(3)] supported_currency [OF b(4)] by blast
  have ps: "list_all2 (\<lambda>l m. parse_line_input F D l = Some m) (di_lines i) (di_lines doc)" "length (di_lines doc) \<le> 200"
    using b(1) by (auto simp: parse_document_input_def parse_document_fields_def bind_eq_Some_conv parse_all_Some_iff)
  obtain books where "list_all2 (line_books n (dp_direction (document_kind_policy (di_kind doc)))) ls books"
    using build_lines_books [OF b(2) ps(1) _ n] assms(2) by (auto simp: amounts_bounded_def)
  moreover have "n \<le> 9" using minor_units_le_3 [OF n] by simp
  moreover have "length ls \<le> 200" using mapE_Inr_length [OF b(2)] ps(2) by simp
  ultimately have tot: "dec_finite D (dec_minus D (dec_plus D subtotal tax_total) self_total)"
    "scaled n (val (dec_minus D (dec_plus D subtotal tax_total) self_total))"
    using document_totals [OF _ _ _ b(5-7)] by simp_all
  have q: "q = dec_times D (dec_minus D (dec_plus D subtotal tax_total) self_total) rate"
    using times_input_val [OF b(8), of "dec_minus D (dec_plus D subtotal tax_total) self_total"] b(10) by simp
  show ?thesis by (rule that [OF _ tot(2,1) _ exact_finite [OF b(8)] q]) (use b n m in simp_all)
qed

lemma built_document_priced:
  assumes "build_document_snapshot F D H i functional = Inr s" "amounts_bounded i" shows "priced rnd s"
proof (rule built_document_gross [OF assms])
  fix n m rate gross q t
  assume t: "minor_units (ds_currency t) = Inr n" "scaled n (val gross)" "dec_finite D gross"
    "money_string D (DecIn gross) (ds_currency t) = Inr (ds_gross t)" "dec_finite D rate"
    "q = dec_times D gross rate" "money_string D (DecIn q) (ds_functional t) = Inr (ds_gross_functional t)"
    "minor_units (ds_functional t) = Inr m" "fx_rate (ds_fx t) = dec_plain D rate"
    "parse_document_snapshot F D t = Some s"
  have "text_amount (ds_gross t) (val gross)" by (rule money_string_whole [OF t(4,3,1,2)])
  moreover have "text_amount (fx_rate (ds_fx t)) (val rate)" using plain_value_plain [OF t(5)] t(9) by simp
  moreover have "text_amount (ds_gross_functional t) (half_up m (rnd (val gross * val rate)))"
    using money_string_text [of "DecIn q" q "ds_functional t" m] t(3,5-8) by (simp add: times_fin times_val)
  ultimately have "priced rnd t" unfolding priced_def using t(1,2,8) by blast
  then show ?thesis by (rule priced_parse [OF t(10)])
qed

end

section \<open>What the inserts do\<close>

lemma append_source_Inr:
  assumes "append_source_document P c B r = Inr B'"
  shows "B' = B\<lparr>bk_sources := bk_sources B @ [r]\<rparr>" "source_admitted B r"
    "rows_ok B \<Longrightarrow> so_supersedes r = Some sid \<Longrightarrow> \<not> superseded B sid"
proof -
  have new: "\<forall>q \<in> set (bk_sources B). so_id q \<noteq> so_id r" and B': "B' = B\<lparr>bk_sources := bk_sources B @ [r]\<rparr>"
    and version: "if so_version r = 1 then so_supersedes r = None
          else (case Option.bind (so_supersedes r) (find_source B) of
                  None \<Rightarrow> False
                | Some prior \<Rightarrow> so_type prior = so_type r \<and> so_number prior = so_number r
                    \<and> so_version r = so_version prior + 1
                    \<and> list_all (\<lambda>n. so_version n \<le> so_version prior) (versions_of B (so_type r) (so_number r)))"
    using assms
    by (auto simp: append_source_document_def guard_source_document_version_def bindE_Inr_iff throw_if_Inr_iff
        list_ex_iff simp del: not_None_eq)
  show "B' = B\<lparr>bk_sources := bk_sources B @ [r]\<rparr>" by (rule B')
  show adm: "source_admitted B r"
    using new version unfolding source_admitted_def
    by (auto simp: follows_def find_source_def bind_eq_Some_conv split: if_splits option.splits dest!: find_keyD)
  show "\<not> superseded B sid" if ok: "rows_ok B" and sid: "so_supersedes r = Some sid"
  proof
    assume "superseded B sid"
    then obtain x where x: "x \<in> set (bk_sources B)" "so_supersedes x = Some sid" by (auto simp: superseded_def)
    obtain prior where prior: "find_source B sid = Some prior" "so_type prior = so_type r" "so_number prior = so_number r"
      "list_all (\<lambda>n. so_version n \<le> so_version prior) (versions_of B (so_type r) (so_number r))"
      using version sid by (auto split: if_splits option.splits)
    obtain y where y: "y \<in> set (bk_sources B)" "follows x y" using ok x by (auto simp: rows_ok_def)
    have "so_id y = sid" using y(2) x(2) by (simp add: follows_def)
    then have "y = prior"
      using find_key [of so_id "bk_sources B" y] ok y(1) prior(1) by (auto simp: rows_ok_def find_source_def)
    then have "so_type x = so_type r" "so_number x = so_number r" "so_version x = so_version prior + 1"
      using y(2) prior(2,3) by (auto simp: follows_def)
    then show False using prior(4) x(1) by (auto simp: versions_of_def list_all_iff)
  qed
qed

lemma insert_subledger_event_Inr:
  "insert_subledger_event P c B e = Inr B' \<Longrightarrow>
     B' = B\<lparr>bk_events := bk_events B @ [e]\<rparr> \<and> se_id e \<notin> se_id ` set (bk_events B)"
  by (auto simp: insert_subledger_event_def bindE_Inr_iff throw_if_Inr_iff list_ex_iff)

lemma insert_tax_snapshots_Inr:
  "insert_tax_determination_snapshots B ids source s versions = Inr (ts, B') \<Longrightarrow> \<exists>tx. B' = B\<lparr>bk_taxes := tx\<rparr>"
  by (auto simp: insert_tax_determination_snapshots_def bindE_Inr_iff)

lemma insert_open_item_Inr:
  assumes "insert_open_item B iid s event = Inr B'"
  obtains i where "B' = B\<lparr>bk_items := bk_items B @ [i]\<rparr>" "it_id i = iid" "it_event i = event" "it_party i = ds_party s"
    "numeric_input 9 (ds_gross_functional s) = Inr (it_functional i)" "0 < it_original i" "iid \<notin> it_id ` set (bk_items B)"
proof -
  obtain x y where xy: "numeric_input 9 (ds_gross_functional s) = Inr y" "0 < x" "\<forall>q \<in> set (bk_items B). it_id q \<noteq> iid"
    "B' = B\<lparr>bk_items := bk_items B @ [\<lparr>it_id = iid, it_ledger = ds_ledger s, it_party = ds_party s, it_event = event,
           it_currency = ds_currency s, it_original = x, it_functional = y, it_due = ds_due s\<rparr>]\<rparr>"
    using assms
    by (auto simp: insert_open_item_def guard_open_item_insert_def Let_def bindE_Inr_iff throw_if_Inr_iff list_ex_iff)
  show ?thesis by (rule that [OF xy(4)]) (use xy in auto)
qed

lemma insert_and_post_journal_Inr:
  assumes "insert_and_post_journal P c B jid q ls = Inr (num, B')"
  obtains n js where "B' = B\<lparr>bk_entries := bk_entries B @ [n], bk_journals := js\<rparr>" "entry_posted B n js"
    "je_source n = jq_source q" "je_type n = jq_type q" "mapE stored_line_of ls = Inr (je_lines n)"
proof -
  obtain t stored where t: "find_journal_type P (jq_type q) (jq_owner q) = Some t" "mapE stored_line_of ls = Inr stored"
    "\<not> list_ex (\<lambda>j. jr_id j = jid) (bk_journals B)"
    using assms by (auto simp: insert_and_post_journal_def Let_def bindE_Inr_iff throw_if_Inr_iff option_to_result_Inr_iff)
  define n where "n = \<lparr>je_id = jid, je_ledger = jq_ledger q, je_entity = jq_entity q,
           je_period = jq_period q, je_type = jq_type q, je_type_definition = jy_id t, je_type_version = jy_version t,
           je_source = jq_source q, je_event_key = jq_event_key q, je_key = jq_key q,
           je_command_hash = jq_command_hash q, je_purpose = jq_purpose q, je_date = jq_date q,
           je_functional = jq_functional q, je_description = jq_description q,
           je_created_by = ctx_actor c, je_lines = stored\<rparr>"
  define j where "j = \<lparr>jr_id = jid, jr_organization = ctx_organization c, jr_status = JDraft, jr_content_hash = None,
           jr_approval_version = None, jr_journal_number = None, jr_type_key = jq_type q,
           jr_owner_module = owner_text (jq_owner q)\<rparr>"
  obtain posted js where g: "post_journal_in_transaction (pf_journal_hash P) (pf_allocate P)
       (pf_access P) \<lparr>po_context = c, po_journal = jid, po_expected_hash = None, po_expected_approval = None,
         po_required_owner = None, po_required_type = None\<rparr> (bk_journals B @ [j]) = Inr (posted, js)"
    "B' = B\<lparr>bk_entries := bk_entries B @ [n], bk_journals := js\<rparr>"
    using assms t unfolding insert_and_post_journal_def Let_def n_def j_def
    by (auto simp: bindE_Inr_iff throw_if_Inr_iff map_errorE_Inr_iff option_to_result_Inr_iff)
  have h: "mapE stored_line_of ls = Inr (je_lines n)" "je_source n = jq_source q" "je_type n = jq_type q" "je_id n = jid"
    "\<not> list_ex (\<lambda>j. jr_id j = jid) (bk_journals B)"
    "jr_id j = jid" "jr_organization j = ctx_organization c" "jr_status j = JDraft"
    using t by (simp_all add: n_def j_def)
  note h = h g
  from h(9) have "\<exists>k. js = bk_journals B @ [k] \<and> jr_id k = jid \<and> jr_status k = JPosted"
  proof (cases rule: post_Inr)
    case (1 journal hash)
    have none: "\<forall>x \<in> set (bk_journals B). jr_id x \<noteq> jid" using h(5) by (simp add: list_ex_iff)
    have "List.find (\<lambda>r. jr_organization r = ctx_organization c \<and> jr_id r = jid) (bk_journals B) = None"
      using none by (auto simp: find_None_iff)
    then have "journal = j" using 1(2) h(6,7) by (simp add: find_rows_append)
    then obtain k where "update_posted (pf_allocate P) (bk_journals B @ [j]) j hash = Some (k, js)"
      using 1(11) h(8) by auto
    then have "js = map (\<lambda>r. if jr_id r = jid \<and> jr_organization r = jr_organization j \<and> jr_status r = jr_status j
        then r\<lparr>jr_status := JPosted, jr_content_hash := Some hash, jr_journal_number := Some k\<rparr> else r) (bk_journals B @ [j])"
      using h(6) by (auto simp: update_posted_def split: option.splits)
    moreover have "map (\<lambda>r. if jr_id r = jid \<and> jr_organization r = jr_organization j \<and> jr_status r = jr_status j
        then r\<lparr>jr_status := JPosted, jr_content_hash := Some hash, jr_journal_number := Some k\<rparr> else r) (bk_journals B)
      = bk_journals B"
      using none by (intro map_idI) auto
    ultimately show ?thesis using h(6) by auto
  qed
  then have "entry_posted B n js" using h(4) stored_lines_scaled [OF h(1)] by (auto simp: entry_posted_def)
  then show ?thesis using that h(1,2,3,10) by blast
qed

lemma insert_relation_Inr: "insert_relation B f t reason = Inr B' \<Longrightarrow> \<exists>rel. B' = B\<lparr>bk_relations := rel\<rparr>"
  by (auto simp: insert_relation_def bindE_Inr_iff)

lemma insert_open_item_void_Inr: "insert_open_item_void P c B v = Inr B' \<Longrightarrow> B' = B\<lparr>bk_voids := bk_voids B @ [v]\<rparr>"
  by (auto simp: insert_open_item_void_def bindE_Inr_iff)

lemma load_original_posted_journal_Inr:
  assumes "load_original_posted_journal B source type = Inr (e, ls)"
  shows "e \<in> set (bk_entries B)" "je_source e = source" "je_type e = type" "ls = map original_line_of (je_lines e)"
  using assms by (auto simp: load_original_posted_journal_def bindE_Inr_iff option_to_result_Inr_iff find_Some_iff)

lemma lock_document_open_item_Inr:
  assumes "lock_document_open_item_for_void B source = Inr iid" "rows_ok B"
  obtains i s where "i \<in> set (bk_items B)" "it_id i = iid" "item_source B i = Some s" "so_id s = source"
    "find_void B iid = None" "item_net (bk_allocations B) at_amount iid = 0"
proof -
  obtain i rest where i: "source_items B source = i # rest" "it_id i = iid" "find_void B iid = None"
    "item_net (bk_allocations B) at_amount iid = 0"
    using assms(1) by (auto simp: lock_document_open_item_for_void_def bindE_Inr_iff throw_if_Inr_iff
        net_amounts_item_net split: list.splits)
  have "i \<in> set (source_items B source)" using i(1) by simp
  then obtain e where e: "e \<in> set (bk_events B)" "se_source e = source" "i \<in> set (bk_items B)" "it_event i = se_id e"
    by (auto simp: source_items_def split: if_splits)
  have fe: "find_event B (it_event i) = Some e"
    using find_key [of se_id "bk_events B" e] assms(2) e(1,4) by (simp add: rows_ok_def find_event_def)
  have "source \<in> so_id ` set (bk_sources B)" using assms(2) e(1,2) by (auto simp: rows_ok_def)
  then obtain s where s: "s \<in> set (bk_sources B)" "so_id s = source" by auto
  then have "find_source B (se_source e) = Some s"
    using find_key [of so_id "bk_sources B" s] assms(2) e(2) by (simp add: rows_ok_def find_source_def)
  then have "item_source B i = Some s" using fe by (simp add: item_source_def)
  then show ?thesis using that e(3) i s by blast
qed

section \<open>Inserting allocations\<close>

definition allocations_fit :: "item_row list \<Rightarrow> allocation_row list \<Rightarrow> bool" where
  "allocations_fit is as \<longleftrightarrow> allocation_ledger as \<and> (\<forall>i \<in> set is. item_within as i)"

lemma item_net_append:
  "item_net (as @ [a]) f i = item_net as f i + (if at_item a = i then signed_by_type f a else 0)"
  by (simp add: item_net_def)

text \<open>The trigger and the unique indexes let the list of allocations grow as a ledger does.\<close>

lemma insert_allocation_Inr:
  assumes ok: "insert_allocation P c B a = Inr B'" and d: "distinct (map it_id (bk_items B))"
    and fit: "allocations_fit (bk_items B) (bk_allocations B)"
  shows "B' = B\<lparr>bk_allocations := bk_allocations B @ [a]\<rparr>"
    "allocations_fit (bk_items B) (bk_allocations B @ [a])" "at_item a \<in> it_id ` set (bk_items B)"
proof -
  obtain i m where i: "find_item B (at_item a) = Some i" and am: "guard_allocation_amounts P B m i a = Inr ()"
    and pos: "0 < at_amount a" "0 < at_carrying a" "(at_type a = ApplyAllocation) = (at_reverses a = None)"
    and new: "\<not> list_ex (\<lambda>b. at_id b = at_id a \<or> at_key b = at_key a
         \<or> (at_reverses a \<noteq> None \<and> at_reverses b = at_reverses a)) (bk_allocations B)"
    and B': "B' = B\<lparr>bk_allocations := bk_allocations B @ [a]\<rparr>"
    using ok unfolding insert_allocation_def guard_settlement_allocation_insert_def Let_def
    by (elim bindE_Inr_iff [THEN iffD1, THEN exE] conjE)
      (auto simp: throw_if_Inr_iff option_to_result_Inr_iff)
  have led: "allocation_ledger (bk_allocations B)"
    and le: "\<And>j. j \<in> set (bk_items B) \<Longrightarrow> item_within (bk_allocations B) j"
    using fit by (auto simp: allocations_fit_def)
  have iB: "i \<in> set (bk_items B)" "it_id i = at_item a"
    using find_keyD [of it_id "at_item a" "bk_items B" i] i by (simp_all add: find_item_def)
  have one: "j = i" if "j \<in> set (bk_items B)" "it_id j = at_item a" for j
    using d that iB unfolding distinct_map inj_on_def by metis
  have fresh: "at_id a \<notin> at_id ` set (bk_allocations B)"
    "\<And>r. at_reverses a = Some r \<Longrightarrow> \<forall>b \<in> set (bk_allocations B). at_reverses b \<noteq> Some r"
    using new by (auto simp: list_ex_iff)
  show "B' = B\<lparr>bk_allocations := bk_allocations B @ [a]\<rparr>" by (rule B')
  show "at_item a \<in> it_id ` set (bk_items B)" using iB by force
  show "allocations_fit (bk_items B) (bk_allocations B @ [a])"
  proof (cases "at_type a")
    case ApplyAllocation
    have "allocation_ledger (bk_allocations B @ [a])"
      using ApplyAllocation pos by (intro allocation_ledger.applied led fresh(1)) auto
    moreover have "item_within (bk_allocations B @ [a]) j" if j: "j \<in> set (bk_items B)" for j
    proof (cases "it_id j = at_item a")
      case True
      then have "j = i" using one [OF j] by simp
      then show ?thesis
        using am ApplyAllocation iB(2)
        by (auto simp: guard_allocation_amounts_def expected_carrying_def Let_def bindE_Inr_iff throw_if_Inr_iff
            net_amounts_item_net item_within_def item_net_append signed_by_type_def split: if_splits)
    next
      case False
      then show ?thesis using le [OF j] by (simp add: item_within_def item_net_append)
    qed
    ultimately show ?thesis by (simp add: allocations_fit_def)
  next
    case ReversalAllocation
    obtain b where b: "List.find (\<lambda>b. Some (at_id b) = at_reverses a \<and> at_item b = at_item a
            \<and> at_type b = ApplyAllocation) (bk_allocations B) = Some b" "same_allocation P a b"
      using am ReversalAllocation
      by (auto simp: guard_allocation_amounts_def Let_def bindE_Inr_iff throw_if_Inr_iff split: option.splits)
    then have bB: "b \<in> set (bk_allocations B)" "at_reverses a = Some (at_id b)" "at_item a = at_item b"
      "at_type b = ApplyAllocation" by (auto simp: find_Some_iff)
    have "allocation_ledger (bk_allocations B @ [a])"
      by (rule allocation_ledger.reversed [OF led fresh(1) ReversalAllocation bB(1,4,2,3)])
        (use b(2) fresh(2) [OF bB(2)] in \<open>auto simp: same_allocation_def\<close>)
    moreover have "item_within (bk_allocations B @ [a]) j" if j: "j \<in> set (bk_items B)" for j
      using le [OF j] pos(1) ReversalAllocation by (simp add: item_within_def item_net_append signed_by_type_def)
    ultimately show ?thesis by (simp add: allocations_fit_def)
  qed
qed

lemma insert_allocations_Inr:
  assumes "foldE (insert_allocation P c) B rows = Inr B'" "distinct (map it_id (bk_items B))"
    and "allocations_fit (bk_items B) (bk_allocations B)"
  shows "B' = B\<lparr>bk_allocations := bk_allocations B @ rows\<rparr>
    \<and> allocations_fit (bk_items B) (bk_allocations B @ rows) \<and> (\<forall>a \<in> set rows. at_item a \<in> it_id ` set (bk_items B))"
  using assms
proof (induction rows arbitrary: B)
  case (Cons a rows)
  obtain B1 where B1: "insert_allocation P c B a = Inr B1" "foldE (insert_allocation P c) B1 rows = Inr B'"
    using Cons.prems(1) by (auto simp: bindE_Inr_iff)
  note one = insert_allocation_Inr [OF B1(1) Cons.prems(2,3)]
  show ?case using Cons.IH [OF B1(2)] one Cons.prems(2) by simp
qed simp

section \<open>Every command is a move\<close>

lemma books_ok_fit: "books_ok rnd B \<Longrightarrow> allocations_fit (bk_items B) (bk_allocations B) \<and> distinct (map it_id (bk_items B))"
  by (simp add: books_ok_def allocations_ok_def allocations_fit_def rows_ok_def)

lemma entry_posted_cong:
  "bk_journals B = bk_journals B' \<Longrightarrow> entry_posted B n js = entry_posted B' n js"
  by (simp add: entry_posted_def)

context decimal_lib
begin

lemma save_draft_moves:
  assumes ok: "save_draft P c B i fx functional evidence version key hash supersedes = Inr (B', res)"
    and D: "pf_decimal P = D" and bounded: "list_all line_bounded (di_lines i)"
  shows "books_move rnd B B'"
proof -
  let ?H = "pf_decision_hash P" and ?F = "pf_formats P"
  obtain built where b: "build_document_snapshot ?F D ?H (document_of i fx) functional = Inr built"
    "append_source_document P c B (document_version P c (document_kind_policy (di_kind i)) (di_source_number i) version
       DraftSource (built\<lparr>ds_evidence := evidence\<rparr>) key hash supersedes None) = Inr B'"
    using ok by (auto simp: save_draft_def Let_def bindE_Inr_iff map_errorE_Inr_iff D)
  have "priced rnd built"
    by (rule built_document_priced [OF b(1)]) (use bounded in \<open>simp add: amounts_bounded_def document_of_def\<close>)
  then have "draft_priced rnd (document_version P c (document_kind_policy (di_kind i)) (di_source_number i) version
       DraftSource (built\<lparr>ds_evidence := evidence\<rparr>) key hash supersedes None)"
    by (simp add: draft_priced_def document_version_def priced_def)
  then show ?thesis
    unfolding append_source_Inr(1) [OF b(2)] by (rule books_move.drafted [OF append_source_Inr(2) [OF b(2)]])
qed

lemma post_document_moves:
  assumes ok: "post_document P c B cmd current s versions key hash = Inr (B', res)"
    and D: "pf_decimal P = D" and pr: "priced rnd s" and k: "ds_kind s = ic_kind cmd"
  shows "books_move rnd B B'"
proof -
  let ?policy = "document_kind_policy (ic_kind cmd)" and ?n = "length (ds_lines s)"
  let ?row = "document_version P c ?policy (ic_number cmd) (so_version current + 1) PostedSource s key hash
            (Some (so_id current)) None"
  let ?event = "pf_random P (?n + 1)" and ?item = "pf_random P (?n + 2)"
  let ?e = "\<lparr>se_id = ?event, se_ledger = ds_ledger s, se_party = ds_party s,
        se_source = so_id ?row, se_type = issue_event_type (ds_kind s), se_version = int_text (so_version ?row)\<rparr>"
  let ?q = "\<lparr>jq_ledger = ds_ledger s, jq_entity = ds_entity s, jq_period = ds_period s,
         jq_type = dp_journal_type ?policy, jq_owner = dp_owner ?policy, jq_source = so_id ?row,
         jq_event_key = dp_source_type ?policy @ '':'' @ so_id ?row @ '':issued'', jq_key = key, jq_command_hash = hash,
         jq_purpose = RoutineEntry, jq_date = ds_accounting_date s, jq_functional = ds_functional s,
         jq_description = ds_description s\<rparr>"
  obtain B1 B2 B3 B4 taxes ls num where st:
    "append_source_document P c B ?row = Inr B1"
    "insert_tax_determination_snapshots B1 (map (pf_random P) [1..<?n + 1]) (so_id ?row) s versions = Inr (taxes, B2)"
    "insert_subledger_event P c B2 ?e = Inr B3" "insert_open_item B3 ?item s ?event = Inr B4"
    "build_issue_journal_lines D s ?event taxes = Inr ls"
    "insert_and_post_journal P c B4 (pf_random P (?n + 3)) ?q ls = Inr (num, B')"
    using ok unfolding post_document_def Let_def D
    by (auto simp: bindE_Inr_iff map_errorE_Inr_iff)
  note B1 = append_source_Inr(1,2) [OF st(1)]
  obtain tx where B2: "B2 = B1\<lparr>bk_taxes := tx\<rparr>" using insert_tax_snapshots_Inr [OF st(2)] by blast
  note B3 = insert_subledger_event_Inr [OF st(3)]
  obtain i where i: "B4 = B3\<lparr>bk_items := bk_items B3 @ [i]\<rparr>" "it_id i = ?item" "it_event i = ?event"
    "it_party i = ds_party s" "numeric_input 9 (ds_gross_functional s) = Inr (it_functional i)" "0 < it_original i"
    "?item \<notin> it_id ` set (bk_items B3)"
    using insert_open_item_Inr [OF st(4)] by blast
  obtain n js where n: "B' = B4\<lparr>bk_entries := bk_entries B4 @ [n], bk_journals := js\<rparr>" "entry_posted B4 n js"
    "je_source n = so_id ?row" "je_type n = dp_journal_type ?policy" "mapE stored_line_of ls = Inr (je_lines n)"
    using insert_and_post_journal_Inr [OF st(6)] by (metis journal_request.simps(4,6))
  have sd: "type_side (so_type ?row) = (if ds_kind s = SalesInvoice then 1 else - 1)"
    using k by (cases "ic_kind cmd") (simp_all add: document_version_def type_side_def)
  have pt: "party_total p (je_lines n) = (if it_party i = p then type_side (so_type ?row) * it_functional i else 0)" for p
    using issue_party_total [OF st(5) n(5) pr i(5), of p] i(4) sd by simp
  have B': "B' = B\<lparr>bk_sources := bk_sources B @ [?row], bk_taxes := tx, bk_events := bk_events B @ [?e],
          bk_items := bk_items B @ [i], bk_journals := js, bk_entries := bk_entries B @ [n]\<rparr>"
    using n(1) i(1) B3 B2 B1(1) by simp
  show ?thesis
    unfolding B'
  proof (rule books_move.issued [OF B1(2)])
    show "entry_posted B n js" using n(2) i(1) B3 B2 B1(1) by (simp add: entry_posted_def)
    show "document_journal_type (je_type n)" using n(4) by (auto simp: document_journal_type_def)
  qed (use pt i n(3) B3 B2 B1(1) in \<open>simp_all add: document_version_def\<close>)
qed

end


section \<open>Settlements and voids\<close>

lemma settlement_snapshot_facts:
  assumes "build_settlement_snapshot F D c functional as = Inr s"
  shows "ss_kind s = sc_kind c" "ss_functional s = functional" "ss_party s = sc_party c"
proof -
  obtain t where t: "parse_settlement_snapshot F D t = Some s" "ss_kind t = sc_kind c" "ss_functional t = functional"
    "ss_party t = sc_party c"
    using assms
    by (auto simp: build_settlement_snapshot_def Let_def bindE_Inr_iff map_errorE_Inr_iff
        option_to_result_Inr_iff case_prod_beta simp del: exact.simps split: option.splits)
  show "ss_kind s = sc_kind c" "ss_functional s = functional" "ss_party s = sc_party c"
    using t parse_settlement_snapshot_Some [OF t(1)] by simp_all
qed

text \<open>What a calculated allocation says of the item it names.\<close>

definition allocates :: "books \<Rightarrow> 'd decimal_api \<Rightarrow> settlement_command \<Rightarrow> string \<Rightarrow> calculated_allocation \<Rightarrow> bool" where
  "allocates B D c functional x \<longleftrightarrow> find_void B (ca_item x) = None \<and> ca_item x \<in> it_id ` set (bk_items B)
     \<and> (\<forall>p. item_weight B p (ca_item x) =
          (if sc_party c = p then (if sc_kind c = CustomerReceipt then 1 else - 1) else 0))
     \<and> (\<exists>v. money_string D v functional = Inr (ca_carrying x))"

lemma locked_open_item_Some:
  assumes "locked_open_item B k = Some x"
  obtains i s where "find_item B k = Some i" "item_source B i = Some s" "oi_id x = it_id i" "oi_party x = it_party i"
    "oi_source_type x = so_type s" "oi_void_event x = map_option vd_id (find_void B k)"
proof -
  obtain i e s where i: "find_item B k = Some i" "find_event B (it_event i) = Some e" "find_source B (se_source e) = Some s"
    "oi_id x = it_id i" "oi_party x = it_party i" "oi_source_type x = so_type s"
    "oi_void_event x = map_option vd_id (find_void B k)"
    using assms by (auto simp: locked_open_item_def bind_eq_Some_conv)
  have "item_source B i = Some s" using i(2,3) by (simp add: item_source_def)
  then show ?thesis using that i by blast
qed

lemma matching_item_allocates:
  assumes "lock_settlement_open_items B ks = Inr items" "matching_item items c a = Some x"
  shows "find_void B (oi_id x) = None" "oi_id x \<in> it_id ` set (bk_items B)"
    "item_weight B p (oi_id x) = (if sc_party c = p then (if sc_kind c = CustomerReceipt then 1 else - 1) else 0)"
proof -
  have x: "locked_open_item B (al_open_item a) = Some x" "oi_party x = sc_party c" "oi_void_event x = None"
    "oi_source_type x = sp_invoice_source_type (settlement_kind_policy (sc_kind c))"
    using assms by (auto simp: lock_settlement_open_items_def bindE_Inr_iff throw_if_Inr_iff matching_item_def
        split: option.splits if_splits)
  obtain i s where i: "find_item B (al_open_item a) = Some i" "item_source B i = Some s" "oi_id x = it_id i"
    "oi_party x = it_party i" "oi_source_type x = so_type s" "oi_void_event x = map_option vd_id (find_void B (al_open_item a))"
    using locked_open_item_Some [OF x(1)] .
  have k: "i \<in> set (bk_items B)" "it_id i = al_open_item a"
    using find_keyD [of it_id "al_open_item a" "bk_items B" i] i(1) by (simp_all add: find_item_def)
  show "find_void B (oi_id x) = None" using x(3) i(3,6) k(2) by simp
  show "oi_id x \<in> it_id ` set (bk_items B)" using i(3) k(1) by simp
  have "type_side (so_type s) = (if sc_kind c = CustomerReceipt then 1 else - 1)"
    using x(4) i(5) by (cases "sc_kind c") (simp_all add: type_side_def)
  then show "item_weight B p (oi_id x) = (if sc_party c = p then (if sc_kind c = CustomerReceipt then 1 else - 1) else 0)"
    using i(1-4) x(2) k(2) by (simp add: item_weight_def item_side_def)
qed

lemma allocation_of_Inr:
  assumes "allocation_of s source key hash actor (n, aid, a) = Inr r"
  shows "at_type r = ApplyAllocation" "at_payment r = source" "at_reverses r = None" "at_item r = ca_item a"
    "numeric_input 9 (ca_carrying a) = Inr (at_carrying r)"
  using assms by (auto simp: allocation_of_def bindE_Inr_iff)

lemma allocation_rows_Inr:
  assumes "mapE (allocation_of s source key hash actor) (zip ns (zip ids as)) = Inr rows"
    and "length ns = length as" "length ids = length as"
  shows "list_all2 (\<lambda>a r. at_type r = ApplyAllocation \<and> at_payment r = source \<and> at_reverses r = None
    \<and> at_item r = ca_item a \<and> numeric_input 9 (ca_carrying a) = Inr (at_carrying r)) as rows"
  using assms allocation_of_Inr unfolding mapE_Inr_iff list_all2_conv_all_nth by (auto simp: nth_zip)

lemma insert_settlement_allocations_Inr:
  assumes "insert_settlement_allocations P c B ids source s as key hash = Inr B'" "length ids = length as"
    and "distinct (map it_id (bk_items B))" "allocations_fit (bk_items B) (bk_allocations B)"
  obtains rows where "B' = B\<lparr>bk_allocations := bk_allocations B @ rows\<rparr>"
    "allocations_fit (bk_items B) (bk_allocations B @ rows)"
    "list_all2 (\<lambda>a r. at_type r = ApplyAllocation \<and> at_payment r = source \<and> at_reverses r = None
      \<and> at_item r = ca_item a \<and> numeric_input 9 (ca_carrying a) = Inr (at_carrying r)) as rows"
proof -
  obtain rows where r: "mapE (allocation_of s source key hash (ctx_actor c)) (zip [1..<Suc (length as)] (zip ids as)) = Inr rows"
    "foldE (insert_allocation P c) B rows = Inr B'"
    using assms(1) by (auto simp: insert_settlement_allocations_def bindE_Inr_iff)
  have "length [1..<Suc (length as)] = length as" by (simp del: upt_Suc)
  from that [OF _ _ allocation_rows_Inr [OF r(1) this assms(2)]] show ?thesis
    using insert_allocations_Inr [OF r(2) assms(3,4)] by blast
qed

lemma list_all2_right: "list_all2 P xs ys \<Longrightarrow> y \<in> set ys \<Longrightarrow> \<exists>x \<in> set xs. P x y"
  by (induction rule: list_all2_induct) auto

lemma list_all2_map_eq: "list_all2 (\<lambda>x y. f x = g y) xs ys \<Longrightarrow> map f xs = map g ys"
  by (induction rule: list_all2_induct) auto

lemma weighed_rows:
  assumes "list_all2 (\<lambda>a r. at_item r = ca_item a \<and> numeric_input 9 (ca_carrying a) = Inr (at_carrying r)) as rows"
    and "\<forall>a \<in> set as. item_weight B p (ca_item a) = w"
  shows "weighed B p rows = w * sum_list (map at_carrying rows)"
  using assms by (induction rule: list_all2_induct) (simp_all add: weighed_def algebra_simps)

context decimal_lib
begin

lemma calculated_allocates:
  assumes "lock_settlement_open_items B ks = Inr items" "calculate_settlement_allocations D T c items functional = Inr as"
    and "x \<in> set as"
  shows "allocates B D c functional x"
proof -
  obtain rate a where "calculate_allocation D T c rate items functional a = Inr x"
    using assms(2,3) mapE_Inr_set_result
    by (fastforce simp: calculate_settlement_allocations_def split: option.splits)
  then show ?thesis
  proof (cases rule: calculate_allocation_Inr)
    case (1 item amount ot og gone ac carrying settlement p check)
    then show ?thesis using matching_item_allocates [OF assms(1) 1(1)] unfolding allocates_def by metis
  qed
qed


lemma post_settlement_moves:
  assumes ok: "post_settlement P c B cmd functional s as key hash = Inr (B', res)" and D: "pf_decimal P = D"
    and inv: "books_ok rnd B"
    and s: "ss_kind s = sc_kind cmd" "ss_functional s = functional" "ss_party s = sc_party cmd"
    and as: "\<forall>x \<in> set as. allocates B D cmd functional x"
  shows "books_move rnd B B'"
proof -
  let ?policy = "settlement_kind_policy (sc_kind cmd)" and ?n = "length as"
  let ?row = "settlement_version P c ?policy (sc_source_number cmd) 1 PostedSource s key hash None None"
  let ?event = "pf_random P 1" and ?ids = "map (pf_random P) [2..<length as + 2]"
  let ?e = "\<lparr>se_id = ?event, se_ledger = sc_ledger cmd, se_party = sc_party cmd,
        se_source = so_id ?row, se_type = settlement_event_type (sc_kind cmd), se_version = int_text 1\<rparr>"
  let ?q = "\<lparr>jq_ledger = sc_ledger cmd, jq_entity = sc_entity cmd, jq_period = sc_period cmd,
         jq_type = sp_journal_type ?policy, jq_owner = sp_owner ?policy, jq_source = so_id ?row,
         jq_event_key = sp_source_type ?policy @ '':'' @ so_id ?row @ '':settled'', jq_key = key, jq_command_hash = hash,
         jq_purpose = RoutineEntry, jq_date = sc_accounting_date cmd, jq_functional = functional,
         jq_description = sc_description cmd\<rparr>"
  let ?sgn = "if sc_kind cmd = CustomerReceipt then 1 else - 1 :: rat"
  obtain B1 B2 B3 ls num where st:
    "append_source_document P c B ?row = Inr B1" "insert_subledger_event P c B1 ?e = Inr B2"
    "insert_settlement_allocations P c B2 ?ids (so_id ?row) s as key hash = Inr B3"
    "build_settlement_journal_lines D s as ?event = Inr ls"
    "insert_and_post_journal P c B3 (pf_random P (?n + 2)) ?q ls = Inr (num, B')"
    using ok unfolding post_settlement_def Let_def D
    by (auto simp: bindE_Inr_iff map_errorE_Inr_iff)
  note B1 = append_source_Inr(1,2) [OF st(1)] and B2 = insert_subledger_event_Inr [OF st(2)]
  have ids: "length ?ids = ?n" by (simp del: upt_Suc)
  obtain rows where rows: "B3 = B2\<lparr>bk_allocations := bk_allocations B2 @ rows\<rparr>"
    "allocations_fit (bk_items B2) (bk_allocations B2 @ rows)"
    "list_all2 (\<lambda>a r. at_type r = ApplyAllocation \<and> at_payment r = so_id ?row \<and> at_reverses r = None
      \<and> at_item r = ca_item a \<and> numeric_input 9 (ca_carrying a) = Inr (at_carrying r)) as rows"
    by (rule insert_settlement_allocations_Inr [OF st(3) ids])
      (use books_ok_fit [OF inv] B1(1) B2 in auto)
  have fit: "allocations_fit (bk_items B) (bk_allocations B @ rows)" using rows(2) B1(1) B2 by simp
  obtain n js where n: "B' = B3\<lparr>bk_entries := bk_entries B3 @ [n], bk_journals := js\<rparr>" "entry_posted B3 n js"
    "je_source n = so_id ?row" "je_type n = sp_journal_type ?policy" "mapE stored_line_of ls = Inr (je_lines n)"
    using insert_and_post_journal_Inr [OF st(5)] by (metis journal_request.simps(4,6))
  have all: "\<forall>r \<in> set rows. \<exists>a \<in> set as. at_type r = ApplyAllocation \<and> at_payment r = so_id ?row
      \<and> at_reverses r = None \<and> at_item r = ca_item a"
    using list_all2_right [OF rows(3)] by blast
  have pt: "party_total p (je_lines n) = - weighed B p rows" for p
  proof -
    let ?w = "if sc_party cmd = p then ?sgn else 0"
    have "weighed B p rows = ?w * sum_list (map at_carrying rows)"
      by (rule weighed_rows [OF list_all2_mono [OF rows(3)]]) (use as in \<open>auto simp: allocates_def\<close>)
    moreover have "list_all2 (\<lambda>a c. numeric_input 9 (ca_carrying a) = Inr c) as (map at_carrying rows)"
      using rows(3) by (simp add: list_all2_conv_all_nth)
    moreover have "\<forall>a \<in> set as. \<exists>v. money_string D v (ss_functional s) = Inr (ca_carrying a)"
      using as s(2) by (auto simp: allocates_def)
    ultimately show ?thesis
      using settlement_party_total [OF st(4) n(5), of "map at_carrying rows" p] s(1,3) by auto
  qed
  have B': "B' = B\<lparr>bk_sources := bk_sources B @ [?row], bk_events := bk_events B @ [?e],
          bk_allocations := bk_allocations B @ rows, bk_journals := js, bk_entries := bk_entries B @ [n]\<rparr>"
    using n(1) rows(1) B2 B1(1) by simp
  show ?thesis
    unfolding B'
  proof (rule books_move.settled [OF B1(2)])
    show "entry_posted B n js" using n(2) rows(1) B2 B1(1) by (simp add: entry_posted_def)
    show "\<not> document_journal_type (je_type n)"
      using n(4) journal_types_disjoint by (auto simp: settlement_journal_type_def)
    show "\<forall>a \<in> set rows. at_type a = ApplyAllocation \<and> at_payment a = so_id ?row \<and> at_reverses a = None
          \<and> at_item a \<in> it_id ` set (bk_items B) \<and> find_void B (at_item a) = None"
      using all as unfolding allocates_def by metis
  qed (use fit pt n(3) B2 B1(1) in \<open>simp_all add: allocations_fit_def settlement_version_def\<close>)
qed

end

lemma void_journal_type_plain:
  "\<not> document_journal_type (void_journal_type k)" "\<not> settlement_journal_type (void_journal_type k)"
proof -
  have "void_journal_type k \<noteq> dp_journal_type (document_kind_policy l)" for l by (cases k; cases l) (simp_all add: void_journal_type_def)
  then show "\<not> document_journal_type (void_journal_type k)" by (simp add: document_journal_type_def)
  have "void_journal_type k \<noteq> sp_journal_type (settlement_kind_policy l)" for l by (cases k; cases l) (simp_all add: void_journal_type_def)
  then show "\<not> settlement_journal_type (void_journal_type k)" by (simp add: settlement_journal_type_def)
qed

lemma reverse_document_moves:
  assumes ok: "reverse_document P c B current s cmd key hash = Inr (B', res)" and inv: "books_ok rnd B"
  shows "books_move rnd B B'"
proof -
  let ?policy = "document_kind_policy (vc_kind cmd)"
  let ?row = "document_version P c ?policy (vc_number cmd) (so_version current + 1) VoidedSource s key hash
            (Some (so_id current)) (Some (vc_reason cmd))"
  let ?q = "\<lparr>jq_ledger = ds_ledger s, jq_entity = ds_entity s, jq_period = vc_period cmd,
         jq_type = void_journal_type (vc_kind cmd), jq_owner = dp_owner ?policy, jq_source = so_id current,
         jq_event_key = dp_source_type ?policy @ '':'' @ so_id ?row @ '':void'', jq_key = key,
         jq_command_hash = hash, jq_purpose = ReversalEntry, jq_date = vc_date cmd,
         jq_functional = ds_functional s, jq_description = vc_description cmd\<rparr>"
  obtain iid e originals B1 B2 B3 num v where st:
    "lock_document_open_item_for_void B (so_id current) = Inr iid"
    "load_original_posted_journal B (so_id current) (dp_journal_type ?policy) = Inr (e, originals)"
    "append_source_document P c B ?row = Inr B1"
    "insert_and_post_journal P c B1 (pf_random P 1) ?q (reverse_journal_lines (pf_time_text P) originals) = Inr (num, B2)"
    "insert_relation B2 (pf_random P 1) (je_id e) (vc_reason cmd) = Inr B3" and
    v: "v = \<lparr>vd_id = pf_random P (length originals + 2), vd_ledger = ds_ledger s, vd_item = iid, vd_source = so_id ?row,
        vd_effective_on = vc_date cmd, vd_reason = vc_reason cmd, vd_key = key, vd_command_hash = hash,
        vd_created_by = ctx_actor c\<rparr>" and
    last: "insert_open_item_void P c B3 v = Inr B'"
    using ok unfolding reverse_document_def Let_def
    by (auto simp: bindE_Inr_iff)
  have rows: "rows_ok B" and js: "journals_ok B" using inv by (simp_all add: books_ok_def)
  note B1 = append_source_Inr(1,2) [OF st(3)] and e = load_original_posted_journal_Inr [OF st(2)]
  obtain i src where i: "i \<in> set (bk_items B)" "it_id i = iid" "item_source B i = Some src" "so_id src = so_id current"
    "find_void B iid = None" "item_net (bk_allocations B) at_amount iid = 0"
    using lock_document_open_item_Inr [OF st(1) rows] .
  obtain n js' where n: "B2 = B1\<lparr>bk_entries := bk_entries B1 @ [n], bk_journals := js'\<rparr>" "entry_posted B1 n js'"
    "je_source n = so_id current" "je_type n = void_journal_type (vc_kind cmd)"
    "mapE stored_line_of (reverse_journal_lines (pf_time_text P) originals) = Inr (je_lines n)"
    using insert_and_post_journal_Inr [OF st(4)] by (metis journal_request.simps(4,6))
  obtain rel where rel: "B3 = B2\<lparr>bk_relations := rel\<rparr>" using insert_relation_Inr [OF st(5)] by blast
  have pt: "party_total p (je_lines n) = - party_total p (je_lines e)" for p
    using reversal_party_total n(5) journals_okD(2) [OF js e(1)] unfolding e(4) by blast
  have B': "B' = B\<lparr>bk_sources := bk_sources B @ [?row], bk_journals := js', bk_entries := bk_entries B @ [n],
          bk_relations := rel, bk_voids := bk_voids B @ [v]\<rparr>"
    using insert_open_item_void_Inr [OF last] rel n(1) B1(1) by simp
  show ?thesis
    unfolding B'
  proof (rule books_move.voided [OF B1(2)])
    show "i \<in> set (bk_items B)" "item_source B i = Some src" "e \<in> set (bk_entries B)" by (rule i(1) i(3) e(1))+
    show "find_void B (it_id i) = None" "item_net (bk_allocations B) at_amount (it_id i) = 0" "vd_item v = it_id i"
      using i(2,5,6) v by simp_all
    show "document_journal_type (je_type e)" using e(3) by (auto simp: document_journal_type_def)
    show "so_id src = je_source e" "je_source n = je_source e" using i(4) e(2) n(3) by simp_all
    show "entry_posted B n js'" using n(2) B1(1) by (simp add: entry_posted_def)
    show "\<not> document_journal_type (je_type n)" "\<not> settlement_journal_type (je_type n)"
      unfolding n(4) by (rule void_journal_type_plain)+
  qed (simp_all add: pt document_version_def)
qed

lemma reverse_settlement_moves:
  assumes ok: "reverse_settlement P c B current s cmd key hash = Inr (B', res)" and inv: "books_ok rnd B"
  shows "books_move rnd B B'"
proof -
  let ?policy = "settlement_kind_policy (vc_kind cmd)"
  let ?row = "settlement_version P c ?policy (vc_number cmd) (so_version current + 1) VoidedSource s key hash
            (Some (so_id current)) (Some (vc_reason cmd))"
  obtain allocs e originals B1 B2 B3 num where st:
    "load_original_settlement_allocations B (so_id current) = Inr allocs"
    "load_original_posted_journal B (so_id current) (sp_journal_type ?policy) = Inr (e, originals)"
    "append_source_document P c B ?row = Inr B1"
    "insert_exact_allocation_reversals P c B1 (map (pf_random P) [1..<length allocs + 1]) (ss_ledger s) (so_id ?row)
       (vc_date cmd) allocs key hash = Inr B2"
    "insert_and_post_journal P c B2 (pf_random P (length allocs + 1))
       \<lparr>jq_ledger = ss_ledger s, jq_entity = ss_entity s, jq_period = vc_period cmd,
         jq_type = sp_journal_type ?policy, jq_owner = sp_owner ?policy, jq_source = so_id current,
         jq_event_key = sp_source_type ?policy @ '':'' @ so_id ?row @ '':void'', jq_key = key,
         jq_command_hash = hash, jq_purpose = ReversalEntry, jq_date = vc_date cmd,
         jq_functional = ss_functional s, jq_description = vc_description cmd\<rparr>
       (reverse_journal_lines (pf_time_text P) originals) = Inr (num, B3)"
    "insert_relation B3 (pf_random P (length allocs + 1)) (je_id e) (vc_reason cmd) = Inr B'"
    using ok unfolding reverse_settlement_def Let_def
    by (fastforce simp: bindE_Inr_iff)
  have rows: "rows_ok B" and js: "journals_ok B" using inv by (simp_all add: books_ok_def)
  note B1 = append_source_Inr [OF st(3)] and e = load_original_posted_journal_Inr [OF st(2)]
  let ?as = "map (reversal_of P c (ss_ledger s) (so_id ?row) (vc_date cmd) key hash)
      (zip [1..<Suc (length allocs)] (zip (map (pf_random P) [1..<length allocs + 1]) allocs))"
  have allocs: "mset allocs = mset (payment_rows B (so_id current))"
    using st(1) by (auto simp: load_original_settlement_allocations_def payment_rows_def Let_def bindE_Inr_iff throw_if_Inr_iff)
  have shape: "list_all2 (\<lambda>b a. at_type a = ReversalAllocation \<and> at_payment a = so_id ?row \<and> at_reverses a = Some (at_id b)
      \<and> at_item a = at_item b \<and> at_carrying a = at_carrying b) allocs ?as"
    by (auto simp: list_all2_conv_all_nth reversal_of_def nth_zip simp del: upt_Suc)
  have B1ok: "bk_items B1 = bk_items B" "bk_allocations B1 = bk_allocations B" using B1(1) by simp_all
  have "foldE (insert_allocation P c) B1 ?as = Inr B2"
    using st(4) by (simp add: insert_exact_allocation_reversals_def)
  from insert_allocations_Inr [OF this] books_ok_fit [OF inv]
  have B2: "B2 = B1\<lparr>bk_allocations := bk_allocations B @ ?as\<rparr>" "allocations_fit (bk_items B) (bk_allocations B @ ?as)"
    unfolding B1ok by blast+
  obtain n js' where n: "B3 = B2\<lparr>bk_entries := bk_entries B2 @ [n], bk_journals := js'\<rparr>" "entry_posted B2 n js'"
    "je_source n = so_id current" "je_type n = sp_journal_type ?policy"
    "mapE stored_line_of (reverse_journal_lines (pf_time_text P) originals) = Inr (je_lines n)"
    using insert_and_post_journal_Inr [OF st(5)] by (metis journal_request.simps(4,6))
  obtain rel where rel: "B' = B3\<lparr>bk_relations := rel\<rparr>" using insert_relation_Inr [OF st(6)] by blast
  have pt: "party_total p (je_lines n) = - party_total p (je_lines e)" for p
    using reversal_party_total n(5) journals_okD(2) [OF js e(1)] unfolding e(4) by blast
  have B': "B' = B\<lparr>bk_sources := bk_sources B @ [?row], bk_allocations := bk_allocations B @ ?as,
          bk_journals := js', bk_entries := bk_entries B @ [n], bk_relations := rel\<rparr>"
    using rel n(1) B2(1) B1(1) by simp
  show ?thesis
    unfolding B'
  proof (rule books_move.settlement_voided [OF B1(2), where o' = e])
    have sup: "so_supersedes ?row = Some (so_id current)" by (simp add: settlement_version_def)
    then show "so_supersedes ?row = Some (je_source e)" using e(2) by simp
    show "\<not> superseded B (je_source e)" unfolding e(2) by (rule B1(3) [OF rows sup])
    show "allocation_ledger (bk_allocations B @ ?as)"
      "\<forall>i \<in> set (bk_items B). item_within (bk_allocations B @ ?as) i"
      using B2(2) unfolding allocations_fit_def by blast+
    show "\<forall>a \<in> set ?as. at_type a = ReversalAllocation \<and> at_payment a = so_id ?row
          \<and> (\<exists>b \<in> set (bk_allocations B). at_payment b = je_source e \<and> at_reverses a = Some (at_id b)
               \<and> at_item a = at_item b)"
    proof
      fix a assume "a \<in> set ?as"
      then obtain b where b: "b \<in> set allocs" "at_type a = ReversalAllocation" "at_payment a = so_id ?row"
        "at_reverses a = Some (at_id b)" "at_item a = at_item b"
        using list_all2_right [OF shape] by blast
      have "b \<in> set (payment_rows B (so_id current))" using b(1) allocs by (metis set_mset_mset)
      then have "b \<in> set (bk_allocations B)" "at_payment b = je_source e" using e(2) by (auto simp: payment_rows_def)
      then show "at_type a = ReversalAllocation \<and> at_payment a = so_id ?row
          \<and> (\<exists>b \<in> set (bk_allocations B). at_payment b = je_source e \<and> at_reverses a = Some (at_id b)
               \<and> at_item a = at_item b)"
        using b by blast
    qed
    have "map (\<lambda>a. (at_item a, at_carrying a)) ?as = map (\<lambda>a. (at_item a, at_carrying a)) allocs"
      by (rule sym, rule list_all2_map_eq [OF list_all2_mono [OF shape]]) simp
    then show "mset (map (\<lambda>a. (at_item a, at_carrying a)) ?as)
         = mset (map (\<lambda>a. (at_item a, at_carrying a)) (payment_rows B (je_source e)))"
      using allocs e(2) by (simp only: mset_map)
    show "e \<in> set (bk_entries B)" by (rule e(1))
    show "settlement_journal_type (je_type e)" using e(3) by (auto simp: settlement_journal_type_def)
    show "entry_posted B n js'" using n(2) B2(1) B1(1) by (simp add: entry_posted_def)
    show "je_source n = je_source e" using e(2) n(3) by simp
    show "\<not> document_journal_type (je_type n)"
      using n(4) journal_types_disjoint by (auto simp: settlement_journal_type_def)
  qed (simp_all add: pt settlement_version_def)
qed

section \<open>The commands\<close>

text \<open>The requests of the subledger; a draft may come with evidence, inside a caller's transaction.\<close>

datatype subledger_command =
    CreateDraft create_document
  | CreateDraftWithEvidence create_document "evidence_reference list"
  | EditDraft edit_document
  | IssueDocument issue_command
  | RecordSettlement settlement_command
  | VoidDocument "document_kind void_command"
  | VoidSettlement "settlement_kind void_command"

fun apply_command ::
  "'d platform \<Rightarrow> tenant_context \<Rightarrow> subledger_command \<Rightarrow> books \<Rightarrow> subledger_error + books \<times> subledger_result" where
  "apply_command P c (CreateDraft m) B = create_business_document_draft P c m B"
| "apply_command P c (CreateDraftWithEvidence m evidence) B =
     create_business_document_draft_in_transaction P c m evidence B"
| "apply_command P c (EditDraft m) B = edit_business_document_draft P c m B"
| "apply_command P c (IssueDocument m) B = issue_business_document P c m B"
| "apply_command P c (RecordSettlement m) B = record_settlement P c m B"
| "apply_command P c (VoidDocument m) B = void_issued_business_document P c m B"
| "apply_command P c (VoidSettlement m) B = void_settlement_and_reverse_allocations P c m B"

text \<open>The amounts of a draft are within the bounds of \<open>DocumentModel\<close>.\<close>

fun command_bounded :: "subledger_command \<Rightarrow> bool" where
  "command_bounded (CreateDraft m) = list_all line_bounded (di_lines m)"
| "command_bounded (CreateDraftWithEvidence m evidence) = list_all line_bounded (di_lines m)"
| "command_bounded (EditDraft m) = list_all line_bounded (di_lines m)"
| "command_bounded _ = True"

text \<open>
  A transaction that throws is rolled back.  Every transaction has its own platform: the
  configuration changes between transactions, and so do the clock and the random identifiers.
\<close>

definition run_transaction :: "books \<Rightarrow> 'd platform \<times> tenant_context \<times> subledger_command \<Rightarrow> books" where
  "run_transaction B = (\<lambda>(P, c, m). case apply_command P c m B of Inl _ \<Rightarrow> B | Inr (B', _) \<Rightarrow> B')"

definition run_history :: "('d platform \<times> tenant_context \<times> subledger_command) list \<Rightarrow> books \<Rightarrow> books" where
  "run_history h B = foldl run_transaction B h"

definition empty_books :: books where
  "empty_books = \<lparr>bk_sources = [], bk_taxes = [], bk_events = [], bk_items = [], bk_allocations = [],
     bk_voids = [], bk_journals = [], bk_entries = [], bk_relations = []\<rparr>"

lemma empty_books_ok: "books_ok rnd empty_books"
  by (simp add: empty_books_def books_ok_def rows_ok_def drafts_ok_def allocations_ok_def journals_ok_def
      balance_ok_def entries_total_def items_total_def allocations_total_def allocation_ledger.empty)

lemma bounded_text_trim: "bounded_text b (trim s) = bounded_text b s"
  by (simp add: bounded_text_def)

lemma line_bounded_parse:
  assumes "parse_line_input F D l = Some m" "line_bounded l" shows "line_bounded m"
proof -
  note f = parse_line_input_fields [OF assms(1)]
  have "bounded_text (10 ^ 29) (ov_amount ov)" if ov: "ti_override (li_tax m) = Some ov" for ov
  proof -
    obtain ow where o: "ti_override (li_tax l) = Some ow" "parse_tax_override F D ow = Some ov"
      using parse_tax_input_override [OF f(2)] ov by (cases "ti_override (li_tax l)") auto
    then show ?thesis
      using signed_nonzero_trim [OF parse_tax_override_amount [OF o(2)]] assms(2)
      by (simp add: line_bounded_def bounded_text_trim)
  qed
  then show ?thesis
    using signed_nonzero_trim [OF f(1)] assms(2)
    by (auto simp: line_bounded_def bounded_text_trim split: option.splits)
qed

lemma parse_document_request_bounded:
  assumes "parse_document_request F D i = Some m" "list_all line_bounded (di_lines i)"
  shows "list_all line_bounded (di_lines m)"
proof -
  have ls: "list_all2 (\<lambda>l n. parse_line_input F D l = Some n) (di_lines i) (di_lines m)"
    using assms(1) by (auto simp: parse_document_request_def parse_document_fields_def bind_eq_Some_conv parse_all_Some_iff)
  show ?thesis
    unfolding list_all_iff
  proof
    fix n assume "n \<in> set (di_lines m)"
    then obtain l where l: "l \<in> set (di_lines i)" "parse_line_input F D l = Some n"
      using list_all2_right [OF ls] by blast
    show "line_bounded n" by (rule line_bounded_parse [OF l(2)]) (use assms(2) l(1) in \<open>simp add: list_all_iff\<close>)
  qed
qed

lemma parse_create_bounded:
  assumes "parse_create_document F D i = Some m" "list_all line_bounded (di_lines i)"
  shows "list_all line_bounded (di_lines m)"
  using assms parse_document_request_bounded by (fastforce simp: parse_create_document_def bind_eq_Some_conv)

lemma parse_edit_bounded:
  assumes "parse_edit_document F D i = Some m" "list_all line_bounded (di_lines i)"
  shows "list_all line_bounded (di_lines m)"
  using assms parse_document_request_bounded by (fastforce simp: parse_edit_document_def bind_eq_Some_conv)

lemma current_source_in: "current_source_document B type num = Some r \<Longrightarrow> r \<in> set (bk_sources B)"
  by (auto simp: current_source_document_def versions_of_def dest: first_by_in)

text \<open>A command that succeeds replays an earlier one or comes to its inserts.\<close>

lemma case_option_Inr_iff:
  "(case x of None \<Rightarrow> a | Some r \<Rightarrow> f r) = Inr y \<longleftrightarrow> (x = None \<and> a = Inr y) \<or> (\<exists>r. x = Some r \<and> f r = Inr y)"
  by (cases x) auto

lemmas command_simps = Let_def bindE_Inr_iff option_to_result_Inr_iff throw_if_Inr_iff map_errorE_Inr_iff case_option_Inr_iff

lemma draft_replay_stays: "draft_replay P B r prints = Inr (B', res) \<Longrightarrow> B' = B"
  by (auto simp: draft_replay_def bindE_Inr_iff)

lemma create_command_cases:
  assumes "create_business_document_draft_in_transaction P c i evidence B = Inr (B', res)"
  obtains (replayed) "B' = B"
  | (saved) cmd fx functional ev key hash where "parse_create_document (pf_formats P) (pf_decimal P) i = Some cmd"
      "save_draft P c B cmd fx functional ev 1 key hash None = Inr (B', res)"
  using assms unfolding create_business_document_draft_in_transaction_def command_simps
  by (elim exE conjE disjE) (auto dest: draft_replay_stays)

lemma edit_command_cases:
  assumes "edit_business_document_draft P c i B = Inr (B', res)"
  obtains (replayed) "B' = B"
  | (saved) cmd fx functional ev version key hash old where "parse_edit_document (pf_formats P) (pf_decimal P) i = Some cmd"
      "save_draft P c B cmd fx functional ev version key hash (Some old) = Inr (B', res)"
  using assms unfolding edit_business_document_draft_def command_simps
  by (elim exE conjE disjE) (auto dest: draft_replay_stays)

lemma issue_command_cases:
  assumes "issue_business_document P c i B = Inr (B', res)"
  obtains (replayed) "B' = B"
  | (issued) cmd type num current s versions key hash where "current_source_document B type num = Some current"
      "so_status current = DraftSource" "current_document_snapshot P current (ic_kind cmd) = Inr s"
      "post_document P c B cmd current s versions key hash = Inr (B', res)"
  using assms unfolding issue_business_document_def command_simps
  by (elim exE conjE disjE) auto

lemma settlement_command_cases:
  assumes "record_settlement P c i B = Inr (B', res)"
  obtains (replayed) "B' = B"
  | (settled) cmd functional T ks items s as key hash where "lock_settlement_open_items B ks = Inr items"
      "calculate_settlement_allocations (pf_decimal P) T cmd items functional = Inr as"
      "build_settlement_snapshot (pf_formats P) (pf_decimal P) cmd functional as = Inr s"
      "post_settlement P c B cmd functional s as key hash = Inr (B', res)"
  using assms unfolding record_settlement_def command_simps
  by (elim exE conjE disjE) auto

lemma void_document_command_cases:
  assumes "void_issued_business_document P c i B = Inr (B', res)"
  obtains (replayed) "B' = B"
  | (voided) current s cmd key hash where "reverse_document P c B current s cmd key hash = Inr (B', res)"
  using assms unfolding void_issued_business_document_def command_simps
  by (elim exE conjE disjE) auto

lemma void_settlement_command_cases:
  assumes "void_settlement_and_reverse_allocations P c i B = Inr (B', res)"
  obtains (replayed) "B' = B"
  | (voided) current s cmd key hash where "reverse_settlement P c B current s cmd key hash = Inr (B', res)"
  using assms unfolding void_settlement_and_reverse_allocations_def command_simps
  by (elim exE conjE disjE) auto

lemma void_document_moves:
  assumes "void_issued_business_document P c i B = Inr (B', res)" "books_ok rnd B"
  shows "books_move rnd B B'"
  using assms(1) by (cases rule: void_document_command_cases) (auto intro: books_move.stay reverse_document_moves assms(2))

lemma void_settlement_moves:
  assumes "void_settlement_and_reverse_allocations P c i B = Inr (B', res)" "books_ok rnd B"
  shows "books_move rnd B B'"
  using assms(1) by (cases rule: void_settlement_command_cases) (auto intro: books_move.stay reverse_settlement_moves assms(2))

context decimal_lib
begin

lemma current_snapshot_priced:
  assumes "current_document_snapshot P r k = Inr s" "draft_priced rnd r" "pf_decimal P = D"
  shows "priced rnd s" "ds_kind s = k"
  using assms priced_parse
  by (auto simp: current_document_snapshot_def draft_priced_def bindE_Inr_iff throw_if_Inr_iff option_to_result_Inr_iff)

lemma create_moves:
  assumes "create_business_document_draft_in_transaction P c i evidence B = Inr (B', res)"
    and "pf_decimal P = D" "list_all line_bounded (di_lines i)"
  shows "books_move rnd B B'"
  using assms(1)
proof (cases rule: create_command_cases)
  case (saved cmd fx functional ev key hash)
  show ?thesis by (rule save_draft_moves [OF saved(2) assms(2) parse_create_bounded [OF saved(1) assms(3)]])
qed (simp add: books_move.stay)

lemma edit_moves:
  assumes "edit_business_document_draft P c i B = Inr (B', res)"
    and "pf_decimal P = D" "list_all line_bounded (di_lines i)"
  shows "books_move rnd B B'"
  using assms(1)
proof (cases rule: edit_command_cases)
  case (saved cmd fx functional ev version key hash old)
  show ?thesis by (rule save_draft_moves [OF saved(2) assms(2) parse_edit_bounded [OF saved(1) assms(3)]])
qed (simp add: books_move.stay)

lemma issue_moves:
  assumes "issue_business_document P c i B = Inr (B', res)" and D: "pf_decimal P = D" and inv: "books_ok rnd B"
  shows "books_move rnd B B'"
  using assms(1)
proof (cases rule: issue_command_cases)
  case (issued cmd type num current s versions key hash)
  have priced: "draft_priced rnd current"
    using inv current_source_in [OF issued(1)] issued(2) by (auto simp: books_ok_def drafts_ok_def)
  show ?thesis by (rule post_document_moves [OF issued(4) D current_snapshot_priced [OF issued(3) priced D]])
qed (simp add: books_move.stay)

lemma settlement_moves:
  assumes "record_settlement P c i B = Inr (B', res)" and D: "pf_decimal P = D" and inv: "books_ok rnd B"
  shows "books_move rnd B B'"
  using assms(1)
proof (cases rule: settlement_command_cases)
  case (settled cmd functional T ks items s as key hash)
  note h = settled [unfolded D]
  show ?thesis
    by (rule post_settlement_moves [OF h(4) D inv settlement_snapshot_facts [OF h(3)]])
      (use calculated_allocates [OF h(1,2)] in blast)
qed (simp add: books_move.stay)

lemma command_keeps_books:
  assumes "pf_decimal P = D" "command_bounded m" "books_ok rnd B"
  shows "books_ok rnd (run_transaction B (P, c, m))"
proof (cases "apply_command P c m B")
  case (Inr r)
  obtain B' res where r: "r = (B', res)" by (cases r)
  have "books_move rnd B B'"
  proof (cases m)
    case (CreateDraft i)
    then show ?thesis
      using Inr r assms create_moves [of P c i "[]" B B' res]
      by (auto simp: create_business_document_draft_def bindE_Inr_iff)
  next
    case (CreateDraftWithEvidence i evidence)
    then show ?thesis using Inr r assms create_moves [of P c i evidence B B' res] by simp
  next
    case (EditDraft i)
    then show ?thesis using Inr r assms edit_moves [of P c i B B' res] by simp
  next
    case (IssueDocument i)
    then show ?thesis using Inr r assms issue_moves [of P c i B B' res] by simp
  next
    case (RecordSettlement i)
    then show ?thesis using Inr r assms settlement_moves [of P c i B B' res] by simp
  next
    case (VoidDocument i)
    then show ?thesis using Inr r assms void_document_moves [of P c i B B' res] by simp
  next
    case (VoidSettlement i)
    then show ?thesis using Inr r assms void_settlement_moves [of P c i B B' res] by simp
  qed
  then show ?thesis using move_keeps_books assms(3) Inr r by (simp add: run_transaction_def)
qed (simp add: run_transaction_def assms(3))

lemma history_keeps_books:
  assumes "\<forall>(P, c, m) \<in> set h. pf_decimal P = D \<and> command_bounded m" "books_ok rnd B"
  shows "books_ok rnd (run_history h B)"
  using assms by (induction h arbitrary: B) (auto simp: run_history_def command_keeps_books)

end

section \<open>The property\<close>

text \<open>What is left of an item in its own currency: nothing once it is voided.\<close>

definition item_open :: "books \<Rightarrow> item_row \<Rightarrow> rat" where
  "item_open B i =
     (if find_void B (it_id i) \<noteq> None then 0 else it_original i - sum_list (net_amounts B (it_id i) at_amount))"

lemma item_open_bounds:
  assumes "books_ok rnd B" "i \<in> set (bk_items B)"
  shows "0 \<le> item_open B i" "item_open B i \<le> it_original i" "item_open B i = 0 \<Longrightarrow> item_carrying B i = 0"
proof -
  have a: "allocation_ledger (bk_allocations B)" "item_within (bk_allocations B) i"
    using assms by (auto simp: books_ok_def allocations_ok_def)
  have net: "0 \<le> item_net (bk_allocations B) at_amount (it_id i)" by (rule ledger_net_nonneg [OF a(1)]) simp
  show "0 \<le> item_open B i" "item_open B i \<le> it_original i" "item_open B i = 0 \<Longrightarrow> item_carrying B i = 0"
    using a(2) net by (auto simp: item_open_def item_carrying_def net_amounts_item_net item_within_def)
qed

text \<open>
  C17. The control accounts agree with the open items.  Take any history of subledger
  commands from empty books, each in its own transaction with its own actor, configuration,
  clock and random identifiers, failed ones rolled back: drafts, edits, issues, settlements,
  voids of documents and of settlements, and replays of these.  Then for every party the
  posted journals book to it exactly what its open items carry, sales invoices as owed by it and
  supplier bills as owed to it, and no journal is left unposted.  No item is allocated beyond
  its amount, and an item of which nothing is left open carries no amount either.
\<close>

theorem control_accounts_agree:
  assumes "decimal_lib D val rnd"
    and "\<forall>(P, c, m) \<in> set h. pf_decimal P = D \<and> command_bounded m"
    and "B = run_history h empty_books"
  shows "(\<forall>p. control_balance B p = subledger_balance B p)
    \<and> (\<forall>e \<in> set (bk_entries B). posted_journal B e \<noteq> None)
    \<and> (\<forall>i \<in> set (bk_items B). 0 \<le> item_open B i \<and> item_open B i \<le> it_original i
         \<and> (item_open B i = 0 \<longrightarrow> item_carrying B i = 0))"
proof -
  have ok: "books_ok rnd B"
    unfolding assms(3) by (rule decimal_lib.history_keeps_books [OF assms(1,2) empty_books_ok])
  then have "journals_ok B" by (simp add: books_ok_def)
  then show ?thesis using balances_agree [OF ok] item_open_bounds [OF ok] journals_okD(1) by blast
qed

section \<open>An example\<close>

text \<open>One entity with a supplier, whose books are in US dollars and whose bill is in Canadian dollars.\<close>

definition example_setup :: setup_tables where
  "example_setup = \<lparr>
     st_ledgers = [\<lparr>lg_id = ''l'', lg_entity = ''e'', lg_currency = ''USD'', lg_active = True\<rparr>],
     st_entities = [\<lparr>ey_id = ''e'', ey_active = True\<rparr>],
     st_periods = [\<lparr>fr_id = ''per'', fr_ledger = ''l'', fr_state = PeriodOpen, fr_starts = ''2026-03-01'',
       fr_ends = ''2026-03-31''\<rparr>],
     st_party_accounts = [\<lparr>pa_id = ''p'', pa_entity = ''e'', pa_ledger = ''l'', pa_role = SupplierParty,
       pa_control_account = ''2000'', pa_currency = None, pa_active = True\<rparr>],
     st_accounts = map (\<lambda>(k, class, control). \<lparr>gl_id = k, gl_code = k, gl_name = k, gl_class = class,
         gl_control = control, gl_postable = True, gl_active = True, gl_valid_from = ''2020-01-01'',
         gl_valid_to = None\<rparr>)
       [(''2000'', LiabilityAccount, PayableControl), (''5000'', ExpenseAccount, NoControl),
        (''1000'', AssetAccount, NoControl), (''4900'', RevenueAccount, NoControl)],
     st_combinations = map (\<lambda>(k, account). \<lparr>cm_id = k, cm_ledger = ''l'', cm_entity = ''e'', cm_account = account,
         cm_active = True\<rparr>)
       [(''ap'', ''2000''), (''acc-1'', ''5000''), (''tax'', ''1000''), (''fxr'', ''5000''), (''bank'', ''1000''),
        (''gain'', ''4900''), (''loss'', ''5000'')],
     st_registrations = [\<lparr>rg_id = ''RT0001'', rg_entity = ''e'', rg_regime = ''ca.on.hst'', rg_country = Some ''CA'',
       rg_region = Some ''ON'', rg_city = None, rg_location = None, rg_valid_from = ''2020-01-01'', rg_valid_to = None\<rparr>],
     st_scopes = [],
     st_packs = [\<lparr>pv_id = ''pack'', pv_key = ''ca.on.hst'', pv_version = ''2026.08.26'', pv_from = ''2016-07-01'',
       pv_to = None\<rparr>]\<rparr>"

text \<open>The platform of the \<open>k\<close>-th transaction: its identifiers are numbered from 1000 times \<open>k\<close>.\<close>

definition example_platform :: "int \<Rightarrow> dec platform" where
  "example_platform k = \<lparr>pf_decimal = ref_api, pf_formats = example_formats\<lparr>is_iso_datetime := (\<lambda>s. length s = 20 \<or> length s = 24)\<rparr>, pf_environment = example_environment,
     pf_lease = (\<lambda>_. True), pf_access = example_tables, pf_setup = example_setup, pf_fx = example_fx_tables,
     pf_clock = example_clock\<lparr>fc_parse := (\<lambda>t. Some 1772409600000)\<rparr>, pf_providers = example_providers,
     pf_types = map (\<lambda>t. \<lparr>jy_id = t, jy_key = t, jy_owner = ''payables'', jy_version = 1\<rparr>)
       [''payables.supplier-bill'', ''payables.supplier-payment'', ''payables.bill-void''],
     pf_currencies = [(''USD'', 2)], pf_decision_hash = DocumentModel.example_hash,
     pf_content_hash = (\<lambda>_. []), pf_sha = (\<lambda>s. nat_text (int (length s))),
     pf_locale = (\<lambda>a b. a < b), pf_journal_hash = (\<lambda>_. Some (replicate 64 CHR ''b'')), pf_allocate = (\<lambda>_. Some k),
     pf_entry_accepted = (\<lambda>_. True), pf_source_accepted = (\<lambda>_. True), pf_demo_session = False,
     pf_quotient = (/), pf_time_text = (\<lambda>t. t), pf_instant = (\<lambda>_. 0), pf_object = (\<lambda>_. TextVal ''command''),
     pf_random = (\<lambda>n. nat_text (1000 * k + int n))\<rparr>"

definition example_bill_request :: create_document where
  "example_bill_request = \<lparr>di_kind = SupplierBill, di_source_number = '' bill-7 '', di_ledger = ''l'',
     di_entity = ''e'', di_party = ''p'', di_control = ''ap'', di_tax_account = Some ''tax'',
     di_rounding_account = Some ''fxr'', di_document_date = ''2026-03-02'',
     di_accounting_date = ''2026-03-02'', di_period = ''per'', di_due = ''2026-04-01'',
     di_currency = '' cad'', di_description = ''stationery'', di_lines = di_lines example_bill,
     dr_fx = Some example_explicit_fx, cd_idempotency = ''create-bill''\<rparr>"


definition example_bill_issue :: issue_command where
  "example_bill_issue = \<lparr>ic_kind = SupplierBill, ic_number = ''bill-7'', ic_version = 1, ic_key = ''issue-bill''\<rparr>"

definition example_part_payment :: settlement_command where
  "example_part_payment = example_settlement\<lparr>sc_allocations := [\<lparr>al_open_item = ''2003'', al_amount = ''50.00''\<rparr>],
     sc_fx := Some (example_explicit_fx\<lparr>fx_rate := ''0.75''\<rparr>)\<rparr>"

definition example_void :: "'k \<Rightarrow> string \<Rightarrow> int \<Rightarrow> 'k void_command" where
  "example_void k num version = \<lparr>vc_kind = k, vc_number = num, vc_version = version, vc_period = ''per'',
     vc_date = ''2026-03-25'', vc_reason = ''month end'', vc_description = ''entered twice'', vc_key = ''void-it''\<rparr>"

definition example_transactions :: "subledger_command list \<Rightarrow> (dec platform \<times> tenant_context \<times> subledger_command) list" where
  "example_transactions ms = map (\<lambda>(n, m). (example_platform (int n), example_context, m)) (enumerate 1 ms)"

definition example_paid :: "subledger_command list" where
  "example_paid = [CreateDraft example_bill_request, IssueDocument example_bill_issue, RecordSettlement example_part_payment]"

text \<open>The bill is voided only after its payment is.\<close>

definition example_unwound :: "subledger_command list" where
  "example_unwound = example_paid @ [VoidDocument (example_void SupplierBill ''BILL-7'' 2),
     VoidSettlement (example_void SupplierPayment ''PAY-1'' 1), VoidDocument (example_void SupplierBill ''BILL-7'' 2)]"

lemma example_transactions_ok:
  "list_all command_bounded ms \<Longrightarrow>
     \<forall>(P, c, m) \<in> set (example_transactions ms). pf_decimal P = ref_api \<and> command_bounded m"
  by (auto simp: example_transactions_def example_platform_def list_all_iff dest!: in_set_enumerate_eq [THEN iffD1])

lemma example_paid_balance:
  "control_balance (run_history (example_transactions example_paid) empty_books) ''p'' = - (232 / 5)"
  by code_simp

theorem control_accounts_agree_witness:
  "subledger_balance (run_history (example_transactions example_paid) empty_books) ''p'' = - (232 / 5)
   \<and> control_balance (run_history (example_transactions example_unwound) empty_books) ''p''
     = subledger_balance (run_history (example_transactions example_unwound) empty_books) ''p''"
proof -
  have "list_all command_bounded example_paid" "list_all command_bounded example_unwound" by code_simp+
  note ok = this [THEN example_transactions_ok]
  note agree = control_accounts_agree [OF refdec.decimal_lib_axioms _ HOL.refl, THEN conjunct1, THEN spec, of _ "''p''"]
  from agree [OF ok(1)] agree [OF ok(2)] show ?thesis by (simp add: example_paid_balance)
qed

end
