(* ===== verification/Spec2Isabelle.thy ===== *)
theory Spec2Isabelle
  imports PostingEngine PostingValidator JournalTypes Settlement CommandFingerprint JournalWorkflow
    AssetSchedule SubledgerHistory
begin

text \<open>
  The accounting core of Business Finlynq, a multi-tenant ledger written in TypeScript
  over PostgreSQL.

  \<^bold>\<open>The program.\<close>  A person signs in and works in one organization; every command runs
  in a tenant transaction that checks the context, the write gates and the permissions
  (\<open>src/db\<close>, \<open>src/modules/identity\<close>, \<open>src/modules/workspace\<close>).  The ledger
  (\<open>src/modules/ledger\<close>) holds journals in fiscal periods, validated, approved by a
  second person, posted once and then immutable.  The subledger (\<open>src/modules/subledger\<close>)
  turns business documents into such journals: a request is parsed, its lines are taxed by
  a jurisdiction pack (\<open>src/modules/tax\<close>), it is frozen as a snapshot, issued as journal
  lines, settled against open items and voided by reversal.  All amounts are decimal texts
  computed with by \<open>decimal.js\<close> (\<open>src/kernel/money.ts\<close>).

  \<^bold>\<open>Theories.\<close>
  \<^item> \<open>Prelude\<close>: results of code that throws, JavaScript text operations, maps in
    insertion order.
  \<^item> \<open>DecimalApi\<close>, \<open>DecimalRef\<close>: the operations of \<open>decimal.js\<close> the program calls, as a
    record; the locale \<open>decimal_lib\<close> of their documented behaviour; an arithmetic on
    integer coefficients that satisfies it.  \<open>DecimalText\<close>: its extension \<open>decimal_text\<close> by
    the form of the text \<open>toFixed()\<close> gives.
  \<^item> \<open>Money\<close>: \<open>kernel/money.ts\<close>.
  \<^item> \<open>CommandFingerprint\<close>: \<open>kernel/command-fingerprint.ts\<close> and \<open>canonicalJson\<close> of
    \<open>subledger/document-model.ts\<close>.
  \<^item> \<open>Access\<close>: \<open>identity/permissions.ts\<close>, \<open>identity/authorization.ts\<close>,
    \<open>db/transaction.ts\<close>, \<open>workspace/write-policy.ts\<close> and the session rules they use.
  \<^item> \<open>AccountSegments\<close>, \<open>JournalTypes\<close>: \<open>ledger/account-segments.ts\<close> and
    \<open>ledger/journal-types.ts\<close>.
  \<^item> \<open>PeriodControl\<close>: \<open>ledger/period-policy.ts\<close>, \<open>ledger/period-service.ts\<close> and the
    triggers on \<open>fiscal_periods\<close>.
  \<^item> \<open>PostingValidator\<close>, \<open>PostingEngine\<close>: \<open>ledger/posting-validator.ts\<close>,
    \<open>ledger/posting-engine.ts\<close>, \<open>ledger/posting-service.ts\<close>.
  \<^item> \<open>JournalWorkflow\<close>: \<open>ledger/journal-workflow-eligibility.ts\<close>,
    \<open>ledger/journal-workflow-service.ts\<close> and the triggers on journals and approvals.
  \<^item> \<open>TaxPacks\<close>, \<open>TaxDetermination\<close>: \<open>tax/engine.ts\<close>, \<open>tax/packs\<close>,
    \<open>subledger/source-tax-rounding.ts\<close> and the line tax of \<open>subledger/document-model.ts\<close>.
  \<^item> \<open>FxProvenance\<close>, \<open>DocumentSchemas\<close>, \<open>DocumentModel\<close>: the rest of
    \<open>subledger/document-model.ts\<close> (exchange-rate evidence, request schemas, snapshots) and
    \<open>subledger/settlement-funding.ts\<close>.
  \<^item> \<open>FxResolver\<close>: \<open>fx/rate-resolver.ts\<close> and the reading part of \<open>fx/provider-policy.ts\<close>.
  \<^item> \<open>SubledgerSetup\<close>: \<open>subledger/ar-ap-accounting.ts\<close> and \<open>tax/registration-scope.ts\<close>.
  \<^item> \<open>SubledgerStore\<close>: the subledger's tables, the inserts and queries of
    \<open>subledger/ar-ap-persistence.ts\<close> and \<open>subledger/ar-ap-idempotency.ts\<close>, and the triggers of
    migration 0011 that guard them.
  \<^item> \<open>SubledgerCommands\<close>: the commands of \<open>subledger/ar-ap-draft-commands.ts\<close>,
    \<open>ar-ap-issue-command.ts\<close>, \<open>ar-ap-settlement-command.ts\<close> and \<open>ar-ap-void-commands.ts\<close>.
  \<^item> \<open>SubledgerBooks\<close>: what a command may do to the tables, abstractly, and the invariant
    that every such move keeps: the control lines of a party agree with its open items.
  \<^item> \<open>SubledgerHistory\<close>: every command is such a move, so the agreement holds after any
    history of commands; the life of a bill as an example.
  \<^item> \<open>Calendar\<close>, \<open>AssetSchedule\<close>: \<open>assets/model.ts\<close> and the \<open>Date\<close> arithmetic it uses.
  \<^item> \<open>JournalLines\<close>, \<open>Settlement\<close>: \<open>subledger/journal-line-builders.ts\<close> and
    \<open>subledger/ar-ap-line-building.ts\<close>.

  \<^bold>\<open>How the code corresponds.\<close>  A definition has the name of the function it translates,
  in lower case with underscores; object types are records, unions and enumerations are
  datatypes with the source's alternatives.  A function that can throw returns
  \<open>'e + 'a\<close>, with the error's code where it has one; the sequence of checks is the sequence
  of \<open>bindE\<close>.  Tables are lists of row records, one transaction is a function from tables
  to an error or to new tables and a result, and an error leaves the tables as they were.
  The transaction's locks make commands run one after another, so a history is a list of
  commands (the step relations \<open>period_step\<close> and \<open>workflow_step\<close> and their closures, and
  \<open>run_history\<close> of the subledger).
  Where a command's \<open>UPDATE\<close> runs through triggers of the migrations under
  \<open>migrations/drizzle\<close>, the trigger is modelled with it: the program relies on them for
  versions, events and refusals.

  \<^bold>\<open>How the lemmas are organised.\<close>  Everything about decimals is proved once in the locale
  \<open>decimal_lib\<close>, for every arithmetic with the documented behaviour, and applied to the
  code's definitions, which take the arithmetic as an argument; \<open>refdec\<close> is its
  interpretation, which the witnesses compute with.  \<open>Money\<close> says which texts are
  accepted, what rounding does to a value and when a sum is exact; \<open>TaxPacks\<close> and
  \<open>TaxDetermination\<close> say what a decision promises (its components add up to it);
  \<open>DocumentModel\<close> derives the books of a document from that, \<open>JournalLines\<close> and
  \<open>Settlement\<close> the balance of the journals.  \<open>PostingValidator\<close> reads an empty issue list
  back as accounting facts.  \<open>PeriodControl\<close>, \<open>PostingEngine\<close> and \<open>JournalWorkflow\<close>
  characterise each command by what it checked and the rows it changed, and prove
  invariants of the tables by induction over histories.  \<open>FxResolver\<close> says where a resolved
  rate comes from and when the snapshot schema takes it.  The locale \<open>key_order\<close> of
  \<open>CommandFingerprint\<close> is about sorting fields by any total order of their names.

  \<^bold>\<open>Bounds.\<close>  \<open>decimal.js\<close> is configured to 50 significant digits, so sums are exact only
  within limits, and the theorems name them: up to \<open>10^12\<close> summands of \<open>numeric(38,9)\<close>
  (at most \<open>10^29\<close>, nine decimals) in a journal, nets of at most \<open>10^18\<close> per line and 200
  lines or allocations in a document, \<open>10^33\<close> for the amounts of one journal line,
  \<open>10^20\<close> for open items.  Calendar dates have years 100 to 9999.  The first is the range of the database's columns, the others
  are far above the 24 integer digits the schemas of amounts admit after conversion or
  are those digits.

  \<^bold>\<open>Parameters.\<close>  What is not code of the repository is an argument: \<open>decimal.js\<close>; the
  hash functions and the random identifiers; the formats of the schema library
  (\<open>z.uuid\<close>, \<open>z.iso.date\<close>, \<open>z.iso.datetime\<close>), \<open>Date.parse\<close> and \<open>toISOString\<close> where only
  their result matters; \<open>localeCompare\<close>; the journal number a trigger allocates.  A tenant
  transaction takes its two, \<open>z.uuid\<close> and the leases of demo sessions, as the record
  \<open>transaction_gate\<close>.  The hypotheses about them are the documented ones (a parsed time is
  an integer, equal texts have equal times, the empty text is no identifier, an ISO time
  begins with its date, \<open>localeCompare\<close> tells the code's field names apart).  Text is ASCII.

  \<^bold>\<open>Not modelled.\<close>  The read models of the subledger, its audit rows and locks (the unique
  index of the audit trail is part of the period and journal workflows, where a request
  can be refused by it), and the SQL of the set-up screens; banking, tax filing and reporting, which aggregate posted lines in SQL; adapters of rate
  providers, mail, storage, sign-in and the agent protocol, which are network I/O around
  third-party libraries; the web application.  The manifest lists each with its reason.
\<close>

end
